(* ===== verification/Tabi_Prelude.thy ===== *)
theory Tabi_Prelude
  imports Main "HOL-Library.Word" "HOL-Library.List_Lexorder" "HOL-Library.Sublist"
begin

text \<open>
  What every component shares: the Go types of the model, Go's run-time panics as values, the
  big-endian codecs of \<open>encoding/binary\<close> and \<open>math/big\<close>, \<open>sort.Find\<close>, and the collections of
  facts that the component proofs pass to the simplifier.

  Conventions. A byte slice is a list of 8-bit words and a nil slice is the empty list where the
  code does not tell them apart. A machine integer is a word of its width. A \<open>*big.Int\<close>, or a
  pointer to an \<open>sdk.Int\<close>, is an \<open>int option\<close> with \<open>None\<close> for nil. A function that returns only
  an \<open>error\<close> gives a \<open>string option\<close> with \<open>None\<close> for nil; one that returns a value and an error
  gives \<open>string + 'a\<close>; one that can panic wraps its result in \<open>'a go\<close>.
\<close>

section \<open>Types\<close>

type_synonym byte = "8 word"
type_synonym bytes = "8 word list"
type_synonym uint8 = "8 word"
type_synonym uint16 = "16 word"
type_synonym uint32 = "32 word"
type_synonym uint64 = "64 word"
type_synonym int64 = "64 word"
type_synonym address = "8 word list"
type_synonym hash = "8 word list"
type_synonym bigint = "int option"
type_synonym error = "string option"

text \<open>The facts that unfold the operations of a component, and those its invariants rest on.\<close>

named_theorems go_simps
named_theorems codec_simps
named_theorems key_simps

section \<open>Panics\<close>

datatype 'a go = Done 'a | Panic string

definition go_bind :: "'a go \<Rightarrow> ('a \<Rightarrow> 'b go) \<Rightarrow> 'b go" where
  "go_bind m f = (case m of Done x \<Rightarrow> f x | Panic e \<Rightarrow> Panic e)"

text \<open>Following a pointer: nil panics.\<close>

definition deref :: "'a option \<Rightarrow> ('a \<Rightarrow> 'b go) \<Rightarrow> 'b go" where
  "deref p f = (case p of None \<Rightarrow> Panic ''nil pointer dereference'' | Some x \<Rightarrow> f x)"

definition go_map :: "('a \<Rightarrow> 'b) \<Rightarrow> 'a go \<Rightarrow> 'b go" where
  "go_map f m = go_bind m (\<lambda>x. Done (f x))"

lemma go_bind_simps [simp]:
  "go_bind (Done x) f = f x"
  "go_bind (Panic e) f = Panic e"
  by (simp_all add: go_bind_def)

lemma deref_simps [simp]:
  "deref (Some x) f = f x"
  "deref None f = Panic ''nil pointer dereference''"
  by (simp_all add: deref_def)

lemma go_map_simps [simp]:
  "go_map f (Done x) = Done (f x)"
  "go_map f (Panic e) = Panic e"
  by (simp_all add: go_map_def)

lemma go_bind_eq_Done:
  "go_bind m f = Done y \<longleftrightarrow> (\<exists>x. m = Done x \<and> f x = Done y)"
  by (cases m) auto

lemma deref_eq_Done:
  "deref p f = Done y \<longleftrightarrow> (\<exists>x. p = Some x \<and> f x = Done y)"
  by (cases p) auto

lemma go_map_eq_Done:
  "go_map f m = Done y \<longleftrightarrow> (\<exists>x. m = Done x \<and> y = f x)"
  by (cases m) auto

lemmas go_Done_iffs = go_bind_eq_Done deref_eq_Done go_map_eq_Done

section \<open>Big-endian codecs\<close>

text \<open>The value of a big-endian byte string, and the \<open>n\<close>-byte big-endian form of a number.\<close>

definition be_decode :: "bytes \<Rightarrow> nat" where
  "be_decode bs = foldl (\<lambda>a b. a * 256 + unat b) 0 bs"

primrec be_encode :: "nat \<Rightarrow> nat \<Rightarrow> bytes" where
  "be_encode 0 x = []"
| "be_encode (Suc n) x = be_encode n (x div 256) @ [word_of_nat (x mod 256)]"

lemma be_decode_Nil [simp]: "be_decode [] = 0"
  by (simp add: be_decode_def)

lemma be_decode_snoc [simp]: "be_decode (bs @ [b]) = be_decode bs * 256 + unat b"
  by (simp add: be_decode_def)

lemma length_be_encode [simp]: "length (be_encode n x) = n"
  by (induction n arbitrary: x) simp_all

lemma unat_byte_of_mod [simp]: "unat (word_of_nat (x mod 256) :: byte) = x mod 256"
  by (simp add: unat_of_nat)

lemma be_decode_encode [codec_simps]: "be_decode (be_encode n x) = x mod 256 ^ n"
proof (induction n arbitrary: x)
  case 0
  then show ?case by simp
next
  case (Suc n)
  have "x div 256 mod 256 ^ n * 256 + x mod 256 = x mod (256 * 256 ^ n)"
    by (simp add: mod_mult2_eq)
  then show ?case by (simp only: be_encode.simps be_decode_snoc Suc.IH unat_byte_of_mod power_Suc)
qed

lemma be_decode_less: "be_decode bs < 256 ^ length bs"
proof (induction bs rule: rev_induct)
  case Nil
  then show ?case by simp
next
  case (snoc b bs)
  have "unat b < 256" using unsigned_less [of b, where 'a = nat] by simp
  moreover from snoc.IH have "be_decode bs + 1 \<le> 256 ^ length bs" by simp
  then have "(be_decode bs + 1) * 256 \<le> 256 ^ length bs * 256" by simp
  ultimately show ?case by simp
qed

lemma be_encode_decode [codec_simps]: "length bs = n \<Longrightarrow> be_encode n (be_decode bs) = bs"
proof (induction bs arbitrary: n rule: rev_induct)
  case Nil
  then show ?case by simp
next
  case (snoc b bs)
  then obtain m where n: "n = Suc m" and m: "length bs = m" by auto
  have b: "unat b < 256" using unsigned_less [of b, where 'a = nat] by simp
  then have "(be_decode bs * 256 + unat b) div 256 = be_decode bs"
    and "(be_decode bs * 256 + unat b) mod 256 = unat b" by simp_all
  then show ?case using snoc.IH [OF m] n by simp
qed

lemma be_encode_inj: "x < 256 ^ n \<Longrightarrow> y < 256 ^ n \<Longrightarrow> be_encode n x = be_encode n y \<Longrightarrow> x = y"
  by (metis be_decode_encode mod_less)

text \<open>\<open>binary.BigEndian\<close>: the decoders read the first bytes and panic on a shorter slice.\<close>

definition PutUint64 :: "uint64 \<Rightarrow> bytes" where
  "PutUint64 x = be_encode 8 (unat x)"

definition PutUint16 :: "uint16 \<Rightarrow> bytes" where
  "PutUint16 x = be_encode 2 (unat x)"

definition Uint64 :: "bytes \<Rightarrow> uint64 go" where
  "Uint64 bs = (if length bs < 8 then Panic ''index out of range''
                else Done (word_of_nat (be_decode (take 8 bs))))"

definition Uint16 :: "bytes \<Rightarrow> uint16 go" where
  "Uint16 bs = (if length bs < 2 then Panic ''index out of range''
                else Done (word_of_nat (be_decode (take 2 bs))))"

lemma length_PutUint64 [simp]: "length (PutUint64 x) = 8"
  by (simp add: PutUint64_def)

lemma length_PutUint16 [simp]: "length (PutUint16 x) = 2"
  by (simp add: PutUint16_def)

lemma be_decode_PutUint64 [codec_simps]: "be_decode (PutUint64 x) = unat x"
  using unsigned_less [of x, where 'a = nat] by (simp add: PutUint64_def be_decode_encode)

lemma be_decode_PutUint16 [codec_simps]: "be_decode (PutUint16 x) = unat x"
  using unsigned_less [of x, where 'a = nat] by (simp add: PutUint16_def be_decode_encode)

lemma Uint64_PutUint64 [simp]: "Uint64 (PutUint64 x) = Done x"
  by (simp add: Uint64_def be_decode_PutUint64)

lemma Uint16_PutUint16 [simp]: "Uint16 (PutUint16 x) = Done x"
  by (simp add: Uint16_def be_decode_PutUint16)

lemma PutUint64_inj [simp]: "PutUint64 x = PutUint64 y \<longleftrightarrow> x = y"
  by (metis be_decode_PutUint64 word_unat_eq_iff)

lemma PutUint16_inj [simp]: "PutUint16 x = PutUint16 y \<longleftrightarrow> x = y"
  by (metis be_decode_PutUint16 word_unat_eq_iff)

lemma PutUint16_not_Nil [simp]: "PutUint16 x \<noteq> []" "PutUint64 y \<noteq> []"
  by (metis length_PutUint16 length_0_conv zero_neq_numeral)
    (metis length_PutUint64 length_0_conv zero_neq_numeral)

section \<open>Arbitrary-precision integers\<close>

text \<open>\<open>big.Int\<close>: \<open>Bytes\<close> is the minimal big-endian form of the absolute value, \<open>SetBytes\<close> its
  inverse, \<open>BitLen\<close> the number of bits of the absolute value, \<open>Quo\<close> the quotient rounded towards
  zero and \<open>Mod\<close> the Euclidean remainder.\<close>

fun nat_bytes :: "nat \<Rightarrow> bytes" where
  "nat_bytes n = (if n = 0 then [] else nat_bytes (n div 256) @ [word_of_nat (n mod 256)])"

declare nat_bytes.simps [simp del]

definition big_Bytes :: "int \<Rightarrow> bytes" where
  "big_Bytes x = nat_bytes (nat \<bar>x\<bar>)"

definition big_SetBytes :: "bytes \<Rightarrow> int" where
  "big_SetBytes bs = int (be_decode bs)"

fun nat_bitlen :: "nat \<Rightarrow> nat" where
  "nat_bitlen n = (if n = 0 then 0 else Suc (nat_bitlen (n div 2)))"

declare nat_bitlen.simps [simp del]

definition big_BitLen :: "int \<Rightarrow> nat" where
  "big_BitLen x = nat_bitlen (nat \<bar>x\<bar>)"

definition big_Quo :: "int \<Rightarrow> int \<Rightarrow> int" where
  "big_Quo a b = sgn a * sgn b * (\<bar>a\<bar> div \<bar>b\<bar>)"

definition big_Mod :: "int \<Rightarrow> int \<Rightarrow> int" where
  "big_Mod a b = a mod \<bar>b\<bar>"

lemma nat_bytes_0 [simp]: "nat_bytes 0 = []"
  by (simp add: nat_bytes.simps)

lemma be_decode_nat_bytes [codec_simps]: "be_decode (nat_bytes n) = n"
proof (induction n rule: nat_bytes.induct)
  case (1 n)
  show ?case
  proof (cases "n = 0")
    case False
    with 1 have "be_decode (nat_bytes (n div 256)) = n div 256" by simp
    with False show ?thesis by (simp add: nat_bytes.simps [of n])
  qed simp
qed

lemma nat_bytes_eq_Nil [simp]: "nat_bytes n = [] \<longleftrightarrow> n = 0"
  by (metis be_decode_nat_bytes be_decode_Nil nat_bytes_0)

lemma big_SetBytes_Bytes [codec_simps]: "big_SetBytes (big_Bytes x) = \<bar>x\<bar>"
  by (simp add: big_SetBytes_def big_Bytes_def codec_simps)

lemma big_SetBytes_nonneg [simp]: "0 \<le> big_SetBytes bs"
  by (simp add: big_SetBytes_def)

lemma big_Bytes_eq_Nil [simp]: "big_Bytes x = [] \<longleftrightarrow> x = 0"
  by (simp add: big_Bytes_def)

lemma big_SetBytes_bound: "length bs \<le> n \<Longrightarrow> big_SetBytes bs < 256 ^ n"
proof -
  assume "length bs \<le> n"
  then have "(256::nat) ^ length bs \<le> 256 ^ n" by (rule power_increasing) simp
  then have "be_decode bs < 256 ^ n" using be_decode_less [of bs] by linarith
  then have "int (be_decode bs) < int (256 ^ n)" by (simp only: of_nat_less_iff)
  then show ?thesis by (simp add: big_SetBytes_def)
qed

lemma nat_bitlen_le_iff: "nat_bitlen n \<le> k \<longleftrightarrow> n < 2 ^ k"
proof (induction n arbitrary: k rule: nat_bitlen.induct)
  case (1 n)
  show ?case
  proof (cases "n = 0")
    case True
    then show ?thesis by (simp add: nat_bitlen.simps)
  next
    case False
    show ?thesis
    proof (cases k)
      case 0
      with False show ?thesis by (simp add: nat_bitlen.simps [of n])
    next
      case (Suc j)
      have "n < 2 ^ k \<longleftrightarrow> n div 2 < 2 ^ j" using Suc by auto
      with False Suc 1 show ?thesis by (simp add: nat_bitlen.simps [of n])
    qed
  qed
qed

lemma big_BitLen_le_iff: "big_BitLen x \<le> k \<longleftrightarrow> \<bar>x\<bar> < 2 ^ k"
  unfolding big_BitLen_def nat_bitlen_le_iff by (simp add: nat_less_iff)

lemma big_split_recombine:
  "0 \<le> a \<Longrightarrow> 0 < b \<Longrightarrow> big_Quo a b * b + big_Mod a b = a"
  by (cases "a = 0") (simp_all add: big_Quo_def big_Mod_def)

section \<open>Fixed-length arrays\<close>

text \<open>Go's \<open>copy\<close> into a zeroed array of \<open>n\<close> bytes.\<close>

definition copy_into :: "nat \<Rightarrow> bytes \<Rightarrow> bytes" where
  "copy_into n bs = take n bs @ replicate (n - length bs) 0"

lemma copy_into_id [simp]: "length bs = n \<Longrightarrow> copy_into n bs = bs"
  by (simp add: copy_into_def)

lemma length_copy_into [simp]: "length (copy_into n bs) = n"
  by (simp add: copy_into_def)

section \<open>\<open>sort.Find\<close>\<close>

text \<open>The binary search of \<open>sort.Find\<close>: the smallest index in \<open>[i, j)\<close> at which \<open>cmp\<close> is not
  positive, and whether \<open>cmp\<close> is zero there.\<close>

function sort_find_loop :: "(nat \<Rightarrow> int) \<Rightarrow> nat \<Rightarrow> nat \<Rightarrow> nat" where
  "sort_find_loop cmp i j =
     (if i < j then
        let h = (i + j) div 2 in
        if cmp h > 0 then sort_find_loop cmp (h + 1) j else sort_find_loop cmp i h
      else i)"
  by pat_completeness auto
termination
  by (relation "measure (\<lambda>(cmp, i, j). j - i)") auto

declare sort_find_loop.simps [simp del]

definition sort_Find :: "nat \<Rightarrow> (nat \<Rightarrow> int) \<Rightarrow> nat \<times> bool" where
  "sort_Find n cmp = (let i = sort_find_loop cmp 0 n in (i, i < n \<and> cmp i = 0))"

lemma sort_find_loop_bounds:
  "i \<le> j \<Longrightarrow> i \<le> sort_find_loop cmp i j \<and> sort_find_loop cmp i j \<le> j"
proof (induction cmp i j rule: sort_find_loop.induct)
  case (1 cmp i j)
  show ?case
  proof (cases "i < j")
    case True
    let ?h = "(i + j) div 2"
    have h: "i \<le> ?h" "?h < j" using True by auto
    show ?thesis
    proof (cases "cmp ?h > 0")
      case True
      then show ?thesis
        using 1(1) [OF \<open>i < j\<close> refl True] h \<open>i < j\<close> by (simp add: sort_find_loop.simps [of cmp i j] Let_def)
    next
      case False
      then show ?thesis
        using 1(2) [OF \<open>i < j\<close> refl False] h \<open>i < j\<close> by (simp add: sort_find_loop.simps [of cmp i j] Let_def)
    qed
  next
    case False
    with 1(3) show ?thesis by (subst (1 2) sort_find_loop.simps) simp
  qed
qed

text \<open>When \<open>cmp\<close> does not increase, everything before the index found is positive and nothing from
  it on is.\<close>

lemma sort_find_loop_split:
  assumes "\<And>x y. x \<le> y \<Longrightarrow> y < n \<Longrightarrow> cmp y \<le> cmp x" and "i \<le> j" and "j \<le> n"
    and "\<And>x. x < i \<Longrightarrow> cmp x > 0" and "\<And>x. j \<le> x \<Longrightarrow> x < n \<Longrightarrow> cmp x \<le> 0"
  shows "(\<forall>x < sort_find_loop cmp i j. cmp x > 0) \<and>
         (\<forall>x. sort_find_loop cmp i j \<le> x \<longrightarrow> x < n \<longrightarrow> cmp x \<le> 0)"
  using assms
proof (induction cmp i j rule: sort_find_loop.induct)
  case (1 cmp i j)
  show ?case
  proof (cases "i < j")
    case True
    let ?h = "(i + j) div 2"
    have h: "i \<le> ?h" "?h < j" "?h < n" using True 1(5) by auto
    show ?thesis
    proof (cases "cmp ?h > 0")
      case pos: True
      have "cmp x > 0" if "x < ?h + 1" for x
        using 1(3) [of x ?h] that h(3) pos by simp
      then have "(\<forall>x < sort_find_loop cmp (?h + 1) j. cmp x > 0) \<and>
         (\<forall>x. sort_find_loop cmp (?h + 1) j \<le> x \<longrightarrow> x < n \<longrightarrow> cmp x \<le> 0)"
        using 1(1) [OF True refl pos 1(3) _ 1(5) _ 1(7)] h by simp
      then show ?thesis using True pos by (simp add: sort_find_loop.simps [of cmp i j] Let_def)
    next
      case neg: False
      have "cmp x \<le> 0" if "?h \<le> x" "x < n" for x
        using 1(3) [of ?h x] that neg by simp
      then have "(\<forall>x < sort_find_loop cmp i ?h. cmp x > 0) \<and>
         (\<forall>x. sort_find_loop cmp i ?h \<le> x \<longrightarrow> x < n \<longrightarrow> cmp x \<le> 0)"
        using 1(2) [OF True refl neg 1(3) h(1) _ 1(6)] h by simp
      then show ?thesis using True neg by (simp add: sort_find_loop.simps [of cmp i j] Let_def)
    qed
  next
    case False
    with 1(4) have "i = j" by simp
    then have "sort_find_loop cmp i j = j" by (simp add: sort_find_loop.simps)
    with 1(6,7) \<open>i = j\<close> show ?thesis by simp
  qed
qed

lemma sort_Find_correct:
  assumes "\<And>x y. x \<le> y \<Longrightarrow> y < n \<Longrightarrow> cmp y \<le> cmp x"
  shows "snd (sort_Find n cmp) \<longleftrightarrow> (\<exists>x < n. cmp x = 0)"
    and "snd (sort_Find n cmp) \<Longrightarrow> fst (sort_Find n cmp) < n \<and> cmp (fst (sort_Find n cmp)) = 0"
proof -
  let ?r = "sort_find_loop cmp 0 n"
  have split: "(\<forall>x < ?r. cmp x > 0) \<and> (\<forall>x. ?r \<le> x \<longrightarrow> x < n \<longrightarrow> cmp x \<le> 0)"
    by (rule sort_find_loop_split) (use assms in auto)
  show "snd (sort_Find n cmp) \<longleftrightarrow> (\<exists>x < n. cmp x = 0)"
  proof
    assume "snd (sort_Find n cmp)"
    then show "\<exists>x < n. cmp x = 0" by (auto simp: sort_Find_def Let_def)
  next
    assume "\<exists>x < n. cmp x = 0"
    then obtain x where x: "x < n" "cmp x = 0" by blast
    then have "?r \<le> x" using split by (metis less_irrefl linorder_not_le)
    then have "?r < n" and "cmp ?r \<ge> 0" using x assms [of ?r x] by auto
    moreover from this split have "cmp ?r \<le> 0" by auto
    ultimately show "snd (sort_Find n cmp)" by (simp add: sort_Find_def Let_def)
  qed
  show "snd (sort_Find n cmp) \<Longrightarrow> fst (sort_Find n cmp) < n \<and> cmp (fst (sort_Find n cmp)) = 0"
    by (auto simp: sort_Find_def Let_def)
qed

end
