(* ===== verification/Tabi_Lib.thy ===== *)
theory Tabi_Lib
  imports Tabi_Prelude
begin

text \<open>
  The functions of go-ethereum, uint256 and the Cosmos SDK that the modelled code calls. They are not part
  of the repository, so they are the fields of a record that the definitions take as an argument.
  What the code relies on is stated as a predicate over that record, from the documentation of the
  function. \<open>lib_lower\<close> is a concrete record that satisfies all of them: it is the instance at
  which the properties are applied.
\<close>

record lib =
  addr_Hex :: "address \<Rightarrow> string"
  HexToAddress :: "string \<Rightarrow> address"
  IsHexAddress :: "string \<Rightarrow> bool"
  hash_Hex :: "hash \<Rightarrow> string"
  HexToHash :: "string \<Rightarrow> hash"
  BytesToAddress :: "bytes \<Rightarrow> address"
  BytesToHash :: "bytes \<Rightarrow> hash"
  Keccak256 :: "bytes \<Rightarrow> hash"
  NewIntFromBigInt :: "int \<Rightarrow> int go"
  MustFromBig :: "int \<Rightarrow> int go"
  AccAddressFromBech32 :: "string \<Rightarrow> string + bytes"
  AccAddress_String :: "bytes \<Rightarrow> string"

text \<open>\<open>common.Address\<close> has 20 bytes and \<open>common.Hash\<close> 32. \<open>Hex\<close> gives the text form and
  \<open>HexToAddress\<close>, \<open>HexToHash\<close> read it back; the text is never empty and \<open>IsHexAddress\<close> accepts it.\<close>

definition hex_laws :: "lib \<Rightarrow> bool" where
  "hex_laws l \<longleftrightarrow>
     (\<forall>a. length a = 20 \<longrightarrow> HexToAddress l (addr_Hex l a) = a \<and> IsHexAddress l (addr_Hex l a) \<and> addr_Hex l a \<noteq> []) \<and>
     (\<forall>h. length h = 32 \<longrightarrow> HexToHash l (hash_Hex l h) = h)"

text \<open>\<open>BytesToAddress\<close> and \<open>BytesToHash\<close> crop or pad, and keep a slice of the right length.\<close>

definition cast_laws :: "lib \<Rightarrow> bool" where
  "cast_laws l \<longleftrightarrow> (\<forall>b. length b = 20 \<longrightarrow> BytesToAddress l b = b) \<and> (\<forall>b. length (BytesToAddress l b) = 20) \<and>
     (\<forall>b. length b = 32 \<longrightarrow> BytesToHash l b = b)"

text \<open>\<open>Keccak256\<close> gives 32 bytes.\<close>

definition keccak_laws :: "lib \<Rightarrow> bool" where
  "keccak_laws l \<longleftrightarrow> (\<forall>b. length (Keccak256 l b) = 32)"

text \<open>\<open>sdk.NewIntFromBigInt\<close> keeps a value of at most 256 bits and panics on any other.\<close>

definition sdk_int_laws :: "lib \<Rightarrow> bool" where
  "sdk_int_laws l \<longleftrightarrow> (\<forall>x. big_BitLen x \<le> 256 \<longrightarrow> NewIntFromBigInt l x = Done x) \<and>
     (\<forall>x. big_BitLen x > 256 \<longrightarrow> (\<exists>e. NewIntFromBigInt l x = Panic e))"

text \<open>\<open>uint256.MustFromBig\<close> keeps a value that fits 256 bits without sign.\<close>

definition uint256_laws :: "lib \<Rightarrow> bool" where
  "uint256_laws l \<longleftrightarrow> (\<forall>x. 0 \<le> x \<and> x < 2 ^ 256 \<longrightarrow> MustFromBig l x = Done x)"

text \<open>\<open>sdk.AccAddressFromBech32\<close> reads back what \<open>AccAddress.String\<close> prints, and the text of a
  non-empty address is not empty.\<close>

definition bech32_laws :: "lib \<Rightarrow> bool" where
  "bech32_laws l \<longleftrightarrow> (\<forall>a. a \<noteq> [] \<longrightarrow> AccAddressFromBech32 l (AccAddress_String l a) = Inr a)"

section \<open>A concrete instance\<close>

definition hex_digits :: string where
  "hex_digits = ''0123456789abcdef''"

definition hex_of_byte :: "byte \<Rightarrow> string" where
  "hex_of_byte b = [hex_digits ! (unat b div 16), hex_digits ! (unat b mod 16)]"

definition hex_value :: "char \<Rightarrow> nat" where
  "hex_value c = (let n = of_char c :: nat in if n < 58 then n - 48 else n - 87)"

fun bytes_of_hex :: "string \<Rightarrow> bytes" where
  "bytes_of_hex (a # b # cs) = word_of_nat (16 * hex_value a + hex_value b) # bytes_of_hex cs"
| "bytes_of_hex cs = []"

definition hex_of_bytes :: "bytes \<Rightarrow> string" where
  "hex_of_bytes bs = ''0x'' @ concat (map hex_of_byte bs)"

definition is_hex_char :: "char \<Rightarrow> bool" where
  "is_hex_char c \<longleftrightarrow> c \<in> set ''0123456789abcdefABCDEF''"

definition pad_crop :: "nat \<Rightarrow> bytes \<Rightarrow> bytes" where
  "pad_crop n b = (if length b > n then drop (length b - n) b else replicate (n - length b) 0 @ b)"

definition lib_lower :: lib where
  "lib_lower = \<lparr>
     addr_Hex = hex_of_bytes, HexToAddress = (\<lambda>s. pad_crop 20 (bytes_of_hex (drop 2 s))),
     IsHexAddress = (\<lambda>s. length s = 42 \<and> take 2 s = ''0x'' \<and> list_all is_hex_char (drop 2 s)),
     hash_Hex = hex_of_bytes, HexToHash = (\<lambda>s. pad_crop 32 (bytes_of_hex (drop 2 s))),
     BytesToAddress = pad_crop 20, BytesToHash = pad_crop 32,
     Keccak256 = (\<lambda>b. pad_crop 32 (b @ [1])),
     NewIntFromBigInt = (\<lambda>x. if big_BitLen x > 256 then Panic ''out of bound'' else Done x),
     MustFromBig = (\<lambda>x. if x < 0 \<or> big_BitLen x > 256 then Panic ''overflow'' else Done x),
     AccAddressFromBech32 = (\<lambda>s. case bytes_of_hex (drop 2 s) of [] \<Rightarrow> Inl ''empty address string is not allowed'' | a \<Rightarrow> Inr a),
     AccAddress_String = hex_of_bytes \<rparr>"

lemma hex_value_digit: "n < 16 \<Longrightarrow> hex_value (hex_digits ! n) = n"
proof -
  have "\<forall>n \<in> set [0..<16]. hex_value (hex_digits ! n) = n" by code_simp
  then show "n < 16 \<Longrightarrow> ?thesis" by simp
qed

lemma is_hex_char_digit: "n < 16 \<Longrightarrow> is_hex_char (hex_digits ! n)"
proof -
  have "\<forall>n \<in> set [0..<16]. is_hex_char (hex_digits ! n)" by code_simp
  then show "n < 16 \<Longrightarrow> ?thesis" by simp
qed

lemma byte_nibbles [simp]: "unat (b :: byte) div 16 < 16" "unat (b :: byte) mod 16 < 16"
  using unsigned_less [of b, where 'a = nat] by simp_all

lemma bytes_of_hex_roundtrip: "bytes_of_hex (concat (map hex_of_byte bs)) = bs"
proof (induction bs)
  case (Cons b bs)
  have "16 * (unat b div 16) + unat b mod 16 = unat b" by simp
  with Cons show ?case by (simp add: hex_of_byte_def hex_value_digit)
qed simp

lemma length_hex_of_bytes: "length (hex_of_bytes bs) = 2 + 2 * length bs"
  by (induction bs) (simp_all add: hex_of_bytes_def hex_of_byte_def)

lemma hex_chars: "list_all is_hex_char (concat (map hex_of_byte bs))"
  by (induction bs) (simp_all add: hex_of_byte_def is_hex_char_digit)

lemma drop_hex [simp]: "drop 2 (hex_of_bytes bs) = concat (map hex_of_byte bs)"
  by (simp add: hex_of_bytes_def)

lemma lib_lower_simps [simp]:
  "addr_Hex lib_lower = hex_of_bytes"
  "hash_Hex lib_lower = hex_of_bytes"
  "BytesToAddress lib_lower = pad_crop 20"
  "BytesToHash lib_lower = pad_crop 32"
  "AccAddress_String lib_lower = hex_of_bytes"
  by (simp_all add: lib_lower_def)

lemma lib_lower_laws [simp]:
  "hex_laws lib_lower" "cast_laws lib_lower" "keccak_laws lib_lower" "sdk_int_laws lib_lower"
  "uint256_laws lib_lower" "bech32_laws lib_lower"
proof -
  have "length (hex_of_bytes a) = 42" if "length a = 20" for a
    using that by (simp add: length_hex_of_bytes)
  then show "hex_laws lib_lower"
    by (auto simp: hex_laws_def lib_lower_def bytes_of_hex_roundtrip pad_crop_def hex_chars)
      (auto simp: hex_of_bytes_def)
  show "cast_laws lib_lower" by (auto simp: cast_laws_def pad_crop_def)
  show "keccak_laws lib_lower" by (auto simp: keccak_laws_def lib_lower_def pad_crop_def)
  show "sdk_int_laws lib_lower" by (auto simp: sdk_int_laws_def lib_lower_def)
  show "uint256_laws lib_lower"
    unfolding uint256_laws_def lib_lower_def
    by (auto simp: not_le [symmetric] big_BitLen_le_iff)
  show "bech32_laws lib_lower"
    by (auto simp: bech32_laws_def lib_lower_def bytes_of_hex_roundtrip split: list.splits)
qed

end
