(* ===== verification/EthTx_Data.thy ===== *)
theory EthTx_Data
  imports Tabi_Lib
begin

text \<open>
  \<open>x/evm/types/ethtx\<close>, first part: the transaction messages (\<open>tx.pb.go\<close>), the go-ethereum
  transaction they are built from and turned back into, and the helpers that the four kinds of
  transaction share (\<open>txdata.go\<close>, \<open>utils.go\<close>, \<open>int.go\<close>, \<open>validations.go\<close>, \<open>access_list.go\<close>).
  The arguments that an error message formats are left out of its text.
\<close>

section \<open>Messages\<close>

record AccessTuple =
  at_Address :: string
  at_StorageKeys :: "string list"

record LegacyTx =
  lt_Nonce :: uint64
  lt_GasPrice :: bigint
  lt_GasLimit :: uint64
  lt_To :: string
  lt_Amount :: bigint
  lt_Data :: bytes
  lt_V :: bytes
  lt_R :: bytes
  lt_S :: bytes

record AccessListTx =
  al_ChainID :: bigint
  al_Nonce :: uint64
  al_GasPrice :: bigint
  al_GasLimit :: uint64
  al_To :: string
  al_Amount :: bigint
  al_Data :: bytes
  al_Accesses :: "AccessTuple list"
  al_V :: bytes
  al_R :: bytes
  al_S :: bytes

record DynamicFeeTx =
  df_ChainID :: bigint
  df_Nonce :: uint64
  df_GasTipCap :: bigint
  df_GasFeeCap :: bigint
  df_GasLimit :: uint64
  df_To :: string
  df_Amount :: bigint
  df_Data :: bytes
  df_Accesses :: "AccessTuple list"
  df_V :: bytes
  df_R :: bytes
  df_S :: bytes

record BlobTxSidecar =
  sc_Blobs :: "bytes list"
  sc_Commitments :: "bytes list"
  sc_Proofs :: "bytes list"

record BlobTx =
  bt_ChainID :: bigint
  bt_Nonce :: uint64
  bt_GasTipCap :: bigint
  bt_GasFeeCap :: bigint
  bt_GasLimit :: uint64
  bt_To :: string
  bt_Amount :: bigint
  bt_Data :: bytes
  bt_Accesses :: "AccessTuple list"
  bt_BlobFeeCap :: bigint
  bt_BlobHashes :: "bytes list"
  bt_Sidecar :: "BlobTxSidecar option"
  bt_V :: bytes
  bt_R :: bytes
  bt_S :: bytes

record AssociateTx =
  as_V :: bytes
  as_R :: bytes
  as_S :: bytes
  as_CustomMessage :: string

text \<open>The interface \<open>TxData\<close> and the types that implement it.\<close>

datatype TxData =
    TxLegacy LegacyTx
  | TxAccessList AccessListTx
  | TxDynamicFee DynamicFeeTx
  | TxBlob BlobTx
  | TxAssociate AssociateTx

section \<open>go-ethereum's side\<close>

text \<open>An \<open>ethtypes.Transaction\<close> is what its accessors return. A sidecar holds arrays of fixed
  length; \<open>eth_AccessTuple\<close> and the \<open>Eth\<close> records are the structs of \<open>core/types\<close> that
  \<open>AsEthereumData\<close> fills in.\<close>

record eth_AccessTuple =
  ea_Address :: address
  ea_StorageKeys :: "hash list"

record eth_Sidecar =
  es_Blobs :: "bytes list"
  es_Commitments :: "bytes list"
  es_Proofs :: "bytes list"

record eth_Transaction =
  tx_Type :: uint8
  tx_Nonce :: uint64
  tx_Data :: bytes
  tx_Gas :: uint64
  tx_To :: "address option"
  tx_Value :: bigint
  tx_GasPrice :: bigint
  tx_GasFeeCap :: bigint
  tx_GasTipCap :: bigint
  tx_AccessList :: "eth_AccessTuple list"
  tx_BlobGasFeeCap :: bigint
  tx_BlobHashes :: "hash list"
  tx_BlobTxSidecar :: "eth_Sidecar option"
  tx_ChainId :: bigint
  tx_V :: bigint
  tx_R :: bigint
  tx_S :: bigint

record eth_LegacyTx =
  el_Nonce :: uint64
  el_GasPrice :: bigint
  el_Gas :: uint64
  el_To :: "address option"
  el_Value :: bigint
  el_Data :: bytes
  el_V :: bigint
  el_R :: bigint
  el_S :: bigint

record eth_AccessListTx =
  eal_ChainID :: bigint
  eal_Nonce :: uint64
  eal_GasPrice :: bigint
  eal_Gas :: uint64
  eal_To :: "address option"
  eal_Value :: bigint
  eal_Data :: bytes
  eal_AccessList :: "eth_AccessTuple list"
  eal_V :: bigint
  eal_R :: bigint
  eal_S :: bigint

record eth_DynamicFeeTx =
  edf_ChainID :: bigint
  edf_Nonce :: uint64
  edf_GasTipCap :: bigint
  edf_GasFeeCap :: bigint
  edf_Gas :: uint64
  edf_To :: "address option"
  edf_Value :: bigint
  edf_Data :: bytes
  edf_AccessList :: "eth_AccessTuple list"
  edf_V :: bigint
  edf_R :: bigint
  edf_S :: bigint

record eth_BlobTx =
  ebt_ChainID :: bigint
  ebt_Nonce :: uint64
  ebt_GasTipCap :: bigint
  ebt_GasFeeCap :: bigint
  ebt_Gas :: uint64
  ebt_To :: address
  ebt_Value :: bigint
  ebt_Data :: bytes
  ebt_AccessList :: "eth_AccessTuple list"
  ebt_BlobFeeCap :: bigint
  ebt_BlobHashes :: "hash list"
  ebt_Sidecar :: "eth_Sidecar option"
  ebt_V :: bigint
  ebt_R :: bigint
  ebt_S :: bigint

datatype eth_TxData =
    EthLegacyTx eth_LegacyTx
  | EthAccessListTx eth_AccessListTx
  | EthDynamicFeeTx eth_DynamicFeeTx
  | EthBlobTx eth_BlobTx

text \<open>\<open>LegacyTxType\<close>, \<open>AccessListTxType\<close>, \<open>DynamicFeeTxType\<close>, \<open>BlobTxType\<close> of \<open>core/types\<close>.\<close>

abbreviation "LegacyTxType \<equiv> 0 :: uint8"
abbreviation "AccessListTxType \<equiv> 1 :: uint8"
abbreviation "DynamicFeeTxType \<equiv> 2 :: uint8"
abbreviation "BlobTxType \<equiv> 3 :: uint8"

section \<open>Shared helpers\<close>

definition maxBitLen :: nat where
  "maxBitLen = 256"

definition IsValidInt256 :: "bigint \<Rightarrow> bool" where
  "IsValidInt256 i = (case i of None \<Rightarrow> True | Some x \<Rightarrow> big_BitLen x \<le> maxBitLen)"

definition rawSignatureValues :: "bytes \<Rightarrow> bytes \<Rightarrow> bytes \<Rightarrow> int \<times> int \<times> int" where
  "rawSignatureValues vBz rBz sBz =
     (if length vBz > 0 then big_SetBytes vBz else 0,
      if length rBz > 0 then big_SetBytes rBz else 0,
      if length sBz > 0 then big_SetBytes sBz else 0)"

definition fee :: "bigint \<Rightarrow> uint64 \<Rightarrow> int go" where
  "fee gasPrice gas = deref gasPrice (\<lambda>p. Done (p * int (unat gas)))"

definition cost :: "int \<Rightarrow> bigint \<Rightarrow> int" where
  "cost f value = (case value of Some v \<Rightarrow> f + v | None \<Rightarrow> f)"

definition EffectiveGasPrice :: "bigint \<Rightarrow> int \<Rightarrow> int \<Rightarrow> int go" where
  "EffectiveGasPrice baseFee feeCap tipCap = deref baseFee (\<lambda>b. Done (min (tipCap + b) feeCap))"

definition SetConvertIfPresent :: "'u option \<Rightarrow> ('u \<Rightarrow> 'v go) \<Rightarrow> ('v \<Rightarrow> 't \<Rightarrow> 't) \<Rightarrow> 't \<Rightarrow> 't go" where
  "SetConvertIfPresent orig converter setter t =
     (case orig of None \<Rightarrow> Done t | Some x \<Rightarrow> go_bind (converter x) (\<lambda>v. Done (setter v t)))"

definition ValidateEthTx :: "eth_Transaction \<Rightarrow> error" where
  "ValidateEthTx tx =
     (if \<not> IsValidInt256 (tx_Value tx) then Some ''value overflow''
      else if \<not> IsValidInt256 (tx_GasPrice tx) then Some ''gas price overflow''
      else if \<not> IsValidInt256 (tx_GasFeeCap tx) then Some ''gas fee cap overflow''
      else if \<not> IsValidInt256 (tx_GasTipCap tx) then Some ''gas tip cap overflow''
      else if \<not> IsValidInt256 (tx_BlobGasFeeCap tx) then Some ''blob gas fee cap overflow''
      else None)"

text \<open>The result is \<open>(r, s, v)\<close>; \<open>sig[64] + 27\<close> is a byte addition and wraps.\<close>

definition DecodeSignature :: "bytes \<Rightarrow> string + int \<times> int \<times> int" where
  "DecodeSignature sig =
     (if length sig \<noteq> 65 then Inl ''wrong size for signature''
      else Inr (big_SetBytes (take 32 sig), big_SetBytes (drop 32 (take 64 sig)),
                big_SetBytes [sig ! 64 + 27]))"

definition ValidateAddress :: "lib \<Rightarrow> string \<Rightarrow> error" where
  "ValidateAddress l address =
     (if \<not> IsHexAddress l address then Some ''address is not a valid ethereum hex address'' else None)"

definition NewAccessList :: "lib \<Rightarrow> eth_AccessTuple list \<Rightarrow> AccessTuple list" where
  "NewAccessList l ethAccessList =
     map (\<lambda>tuple. \<lparr>at_Address = addr_Hex l (ea_Address tuple),
                   at_StorageKeys = map (hash_Hex l) (ea_StorageKeys tuple)\<rparr>) ethAccessList"

definition ToEthAccessList :: "lib \<Rightarrow> AccessTuple list \<Rightarrow> eth_AccessTuple list" where
  "ToEthAccessList l al =
     map (\<lambda>tuple. \<lparr>ea_Address = HexToAddress l (at_Address tuple),
                   ea_StorageKeys = map (HexToHash l) (at_StorageKeys tuple)\<rparr>) al"

section \<open>Facts about the helpers\<close>

lemma IsValidInt256_iff: "IsValidInt256 i \<longleftrightarrow> (\<forall>x. i = Some x \<longrightarrow> \<bar>x\<bar> < 2 ^ 256)"
  by (auto simp: IsValidInt256_def maxBitLen_def big_BitLen_le_iff split: option.splits)

lemma fee_simps [simp]:
  "fee None g = Panic ''nil pointer dereference''"
  "fee (Some p) g = Done (p * int (unat g))"
  by (simp_all add: fee_def)

lemma cost_simps [simp]: "cost f None = f" "cost f (Some v) = f + v"
  by (simp_all add: cost_def)

lemma EffectiveGasPrice_simps [simp]:
  "EffectiveGasPrice None c t = Panic ''nil pointer dereference''"
  "EffectiveGasPrice (Some b) c t = Done (min (t + b) c)"
  by (simp_all add: EffectiveGasPrice_def)

lemma SetConvertIfPresent_simps [simp]:
  "SetConvertIfPresent None c f t = Done t"
  "SetConvertIfPresent (Some x) c f t = go_bind (c x) (\<lambda>v. Done (f v t))"
  by (simp_all add: SetConvertIfPresent_def)

lemma rawSignatureValues_Bytes [simp]:
  "rawSignatureValues (big_Bytes v) (big_Bytes r) (big_Bytes s) = (\<bar>v\<bar>, \<bar>r\<bar>, \<bar>s\<bar>)"
  by (simp add: rawSignatureValues_def big_SetBytes_Bytes)

lemma rawSignatureValues_nonneg:
  "rawSignatureValues a b c = (v, r, s) \<Longrightarrow> 0 \<le> v \<and> 0 \<le> r \<and> 0 \<le> s"
  by (auto simp: rawSignatureValues_def split: if_splits)

text \<open>The lengths that go-ethereum's array types fix.\<close>

definition access_list_ok :: "eth_AccessTuple list \<Rightarrow> bool" where
  "access_list_ok al \<longleftrightarrow> (\<forall>t \<in> set al. length (ea_Address t) = 20 \<and> (\<forall>h \<in> set (ea_StorageKeys t). length h = 32))"

lemma ToEthAccessList_NewAccessList:
  assumes "hex_laws l" and "access_list_ok al"
  shows "ToEthAccessList l (NewAccessList l al) = al"
proof -
  have "map (HexToHash l \<circ> hash_Hex l) (ea_StorageKeys t) = ea_StorageKeys t" if "t \<in> set al" for t
    using that assms by (intro map_idI) (auto simp: access_list_ok_def hex_laws_def)
  then show ?thesis
    using assms unfolding ToEthAccessList_def NewAccessList_def map_map
    by (intro map_idI) (auto simp: access_list_ok_def hex_laws_def)
qed

end
