(* ===== verification/Utils_Slice.thy ===== *)
theory Utils_Slice
  imports Tabi_Prelude
begin

text \<open>
  \<open>utils/slice.go\<close>: the generic slice helpers. \<open>Map\<close> is called with conversions that may panic, so
  its function returns in the panic monad; the loops are the recursions over the range of the slice
  with the accumulator of the source.
\<close>

fun FilterUInt64Slice_loop :: "uint64 list \<Rightarrow> uint64 \<Rightarrow> uint64 list \<Rightarrow> uint64 list" where
  "FilterUInt64Slice_loop [] item res = res"
| "FilterUInt64Slice_loop (i # is) item res =
     FilterUInt64Slice_loop is item (if i \<noteq> item then res @ [i] else res)"

definition FilterUInt64Slice :: "uint64 list \<Rightarrow> uint64 \<Rightarrow> uint64 list" where
  "FilterUInt64Slice xs item = FilterUInt64Slice_loop xs item []"

fun utils_Map_loop :: "'i list \<Rightarrow> ('i \<Rightarrow> 'o go) \<Rightarrow> 'o list \<Rightarrow> 'o list go" where
  "utils_Map_loop [] lambda res = Done res"
| "utils_Map_loop (i # is) lambda res = go_bind (lambda i) (\<lambda>x. utils_Map_loop is lambda (res @ [x]))"

definition utils_Map :: "'i list \<Rightarrow> ('i \<Rightarrow> 'o go) \<Rightarrow> 'o list go" where
  "utils_Map input lambda = utils_Map_loop input lambda []"

definition SliceCopy :: "'t list \<Rightarrow> 't list" where
  "SliceCopy xs = [] @ xs"

fun utils_Reduce :: "'i list \<Rightarrow> ('i \<Rightarrow> 'o \<Rightarrow> 'o) \<Rightarrow> 'o \<Rightarrow> 'o" where
  "utils_Reduce [] reducer initial = initial"
| "utils_Reduce (i # is) reducer initial = utils_Reduce is reducer (reducer i initial)"

fun utils_Filter_loop :: "'t list \<Rightarrow> ('t \<Rightarrow> bool) \<Rightarrow> 't list \<Rightarrow> 't list" where
  "utils_Filter_loop [] lambda res = res"
| "utils_Filter_loop (t # ts) lambda res = utils_Filter_loop ts lambda (if lambda t then res @ [t] else res)"

definition utils_Filter :: "'t list \<Rightarrow> ('t \<Rightarrow> bool) \<Rightarrow> 't list" where
  "utils_Filter xs lambda = utils_Filter_loop xs lambda []"

lemma FilterUInt64Slice_loop_filter:
  "FilterUInt64Slice_loop xs item res = res @ filter (\<lambda>i. i \<noteq> item) xs"
  by (induction xs arbitrary: res) auto

lemma FilterUInt64Slice_filter: "FilterUInt64Slice xs item = filter (\<lambda>i. i \<noteq> item) xs"
  by (simp add: FilterUInt64Slice_def FilterUInt64Slice_loop_filter)

lemma utils_Filter_loop_filter: "utils_Filter_loop xs p res = res @ filter p xs"
  by (induction xs arbitrary: res) auto

lemma utils_Filter_filter: "utils_Filter xs p = filter p xs"
  by (simp add: utils_Filter_def utils_Filter_loop_filter)

lemma utils_Map_loop_Done:
  "(\<And>x. x \<in> set xs \<Longrightarrow> f x = Done (g x)) \<Longrightarrow> utils_Map_loop xs f res = Done (res @ map g xs)"
  by (induction xs arbitrary: res) auto

lemma utils_Map_Done:
  "(\<And>x. x \<in> set xs \<Longrightarrow> f x = Done (g x)) \<Longrightarrow> utils_Map xs f = Done (map g xs)"
  by (simp add: utils_Map_def utils_Map_loop_Done)

lemma utils_Map_id: "\<forall>x \<in> set xs. f x = Done x \<Longrightarrow> utils_Map xs f = Done xs"
  using utils_Map_Done [of xs f id] by simp

lemma utils_Reduce_fold: "utils_Reduce xs f a = fold f xs a"
  by (induction xs arbitrary: a) auto

end
