(* ===== verification/EthTx_Types.thy ===== *)
theory EthTx_Types
  imports EthTx_Data Utils_Slice
begin

text \<open>
  \<open>x/evm/types/ethtx\<close>, second part: the operations of the four transaction kinds
  (\<open>legacy_tx.go\<close>, \<open>access_list_tx.go\<close>, \<open>dynamic_fee_tx.go\<close>, \<open>blob_tx.go\<close> and their setters),
  \<open>associate_tx.go\<close>, \<open>NewTxDataFromTx\<close>, and the dispatch of the interface \<open>TxData\<close>. A setter is
  the record update of its field. A method of the source that dereferences a nil pointer panics.
\<close>

section \<open>\<open>LegacyTx\<close>\<close>

definition LegacyTx_SetTo :: "string \<Rightarrow> LegacyTx \<Rightarrow> LegacyTx" where
  "LegacyTx_SetTo v tx = tx\<lparr>lt_To := v\<rparr>"

definition LegacyTx_SetAmount :: "int \<Rightarrow> LegacyTx \<Rightarrow> LegacyTx" where
  "LegacyTx_SetAmount v tx = tx\<lparr>lt_Amount := Some v\<rparr>"

definition LegacyTx_SetGasPrice :: "int \<Rightarrow> LegacyTx \<Rightarrow> LegacyTx" where
  "LegacyTx_SetGasPrice v tx = tx\<lparr>lt_GasPrice := Some v\<rparr>"

definition LegacyTx_Copy :: "LegacyTx \<Rightarrow> LegacyTx" where
  "LegacyTx_Copy tx = \<lparr>
     lt_Nonce = lt_Nonce tx, lt_GasPrice = lt_GasPrice tx, lt_GasLimit = lt_GasLimit tx, lt_To = lt_To tx,
     lt_Amount = lt_Amount tx, lt_Data = lt_Data tx, lt_V = lt_V tx, lt_R = lt_R tx, lt_S = lt_S tx\<rparr>"

definition LegacyTx_GetRawSignatureValues :: "LegacyTx \<Rightarrow> int \<times> int \<times> int" where
  "LegacyTx_GetRawSignatureValues tx = rawSignatureValues (lt_V tx) (lt_R tx) (lt_S tx)"

text \<open>In 64 bits \<open>v - 35\<close> wraps around.\<close>

definition LegacyTx_GetChainID :: "LegacyTx \<Rightarrow> bigint" where
  "LegacyTx_GetChainID tx =
     (let v = fst (LegacyTx_GetRawSignatureValues tx) in
      if big_BitLen v \<le> 64 then
        let w = (word_of_int v :: uint64) in
        if w = 27 \<or> w = 28 then Some 0 else Some (uint ((w - 35) div 2))
      else Some ((v - 35) div 2))"

definition LegacyTx_GetGas :: "LegacyTx \<Rightarrow> uint64" where
  "LegacyTx_GetGas tx = lt_GasLimit tx"

definition LegacyTx_GetGasPrice :: "LegacyTx \<Rightarrow> bigint" where
  "LegacyTx_GetGasPrice tx = lt_GasPrice tx"

definition LegacyTx_GetGasTipCap :: "LegacyTx \<Rightarrow> bigint" where
  "LegacyTx_GetGasTipCap tx = LegacyTx_GetGasPrice tx"

definition LegacyTx_GetGasFeeCap :: "LegacyTx \<Rightarrow> bigint" where
  "LegacyTx_GetGasFeeCap tx = LegacyTx_GetGasPrice tx"

definition LegacyTx_GetValue :: "LegacyTx \<Rightarrow> bigint" where
  "LegacyTx_GetValue tx = lt_Amount tx"

definition LegacyTx_GetTo :: "lib \<Rightarrow> LegacyTx \<Rightarrow> address option" where
  "LegacyTx_GetTo l tx = (if lt_To tx = [] then None else Some (HexToAddress l (lt_To tx)))"

definition LegacyTx_AsEthereumData :: "lib \<Rightarrow> LegacyTx \<Rightarrow> eth_TxData" where
  "LegacyTx_AsEthereumData l tx =
     (let (v, r, s) = LegacyTx_GetRawSignatureValues tx in
      EthLegacyTx \<lparr>
        el_Nonce = lt_Nonce tx, el_GasPrice = LegacyTx_GetGasPrice tx, el_Gas = LegacyTx_GetGas tx,
        el_To = LegacyTx_GetTo l tx, el_Value = LegacyTx_GetValue tx, el_Data = lt_Data tx,
        el_V = Some v, el_R = Some r, el_S = Some s\<rparr>)"

definition LegacyTx_SetSignatureValues :: "bigint \<Rightarrow> bigint \<Rightarrow> bigint \<Rightarrow> LegacyTx \<Rightarrow> LegacyTx" where
  "LegacyTx_SetSignatureValues v r s tx =
     tx\<lparr>lt_V := (case v of None \<Rightarrow> lt_V tx | Some x \<Rightarrow> big_Bytes x),
        lt_R := (case r of None \<Rightarrow> lt_R tx | Some x \<Rightarrow> big_Bytes x),
        lt_S := (case s of None \<Rightarrow> lt_S tx | Some x \<Rightarrow> big_Bytes x)\<rparr>"

definition LegacyTx_Fee :: "LegacyTx \<Rightarrow> int go" where
  "LegacyTx_Fee tx = fee (LegacyTx_GetGasPrice tx) (LegacyTx_GetGas tx)"

definition LegacyTx_Cost :: "LegacyTx \<Rightarrow> int go" where
  "LegacyTx_Cost tx = go_bind (LegacyTx_Fee tx) (\<lambda>f. Done (cost f (LegacyTx_GetValue tx)))"

definition LegacyTx_EffectiveGasPrice :: "bigint \<Rightarrow> LegacyTx \<Rightarrow> bigint" where
  "LegacyTx_EffectiveGasPrice baseFee tx = LegacyTx_GetGasPrice tx"

definition LegacyTx_EffectiveFee :: "bigint \<Rightarrow> LegacyTx \<Rightarrow> int go" where
  "LegacyTx_EffectiveFee baseFee tx = LegacyTx_Fee tx"

definition LegacyTx_EffectiveCost :: "bigint \<Rightarrow> LegacyTx \<Rightarrow> int go" where
  "LegacyTx_EffectiveCost baseFee tx = LegacyTx_Cost tx"

definition LegacyTx_Validate :: "lib \<Rightarrow> LegacyTx \<Rightarrow> error go" where
  "LegacyTx_Validate l tx =
     (case LegacyTx_GetGasPrice tx of
        None \<Rightarrow> Done (Some ''gas price cannot be nil'')
      | Some gasPrice \<Rightarrow>
          if gasPrice < 0 then Done (Some ''gas price cannot be negative'') else
          go_bind (LegacyTx_Fee tx) (\<lambda>f.
          if \<not> IsValidInt256 (Some f) then Done (Some ''fee out of bound'')
          else if (\<exists>amount \<in> set_option (LegacyTx_GetValue tx). amount < 0)
            then Done (Some ''amount cannot be negative'')
          else if lt_To tx \<noteq> [] \<and> ValidateAddress l (lt_To tx) \<noteq> None
            then Done (Some ''invalid to address'')
          else if LegacyTx_GetChainID tx = None
            then Done (Some ''chain ID must be present on AccessList txs'')
          else Done None))"

definition NewLegacyTx :: "lib \<Rightarrow> eth_Transaction \<Rightarrow> (string + LegacyTx) go" where
  "NewLegacyTx l tx =
     (case ValidateEthTx tx of Some e \<Rightarrow> Done (Inl e) | None \<Rightarrow>
      let txData0 = \<lparr>lt_Nonce = tx_Nonce tx, lt_GasPrice = None, lt_GasLimit = tx_Gas tx, lt_To = [],
                     lt_Amount = None, lt_Data = tx_Data tx, lt_V = [], lt_R = [], lt_S = []\<rparr> in
      go_bind (SetConvertIfPresent (tx_To tx) (\<lambda>to. Done (addr_Hex l to)) LegacyTx_SetTo txData0) (\<lambda>txData1.
      go_bind (SetConvertIfPresent (tx_Value tx) (NewIntFromBigInt l) LegacyTx_SetAmount txData1) (\<lambda>txData2.
      go_bind (SetConvertIfPresent (tx_GasPrice tx) (NewIntFromBigInt l) LegacyTx_SetGasPrice txData2) (\<lambda>txData3.
      let txData = LegacyTx_SetSignatureValues (tx_V tx) (tx_R tx) (tx_S tx) txData3 in
      go_bind (LegacyTx_Validate l txData) (\<lambda>err.
      Done (case err of Some e \<Rightarrow> Inl e | None \<Rightarrow> Inr txData))))))"

section \<open>\<open>AccessListTx\<close>\<close>

definition AccessListTx_SetTo :: "string \<Rightarrow> AccessListTx \<Rightarrow> AccessListTx" where
  "AccessListTx_SetTo v tx = tx\<lparr>al_To := v\<rparr>"

definition AccessListTx_SetAmount :: "int \<Rightarrow> AccessListTx \<Rightarrow> AccessListTx" where
  "AccessListTx_SetAmount v tx = tx\<lparr>al_Amount := Some v\<rparr>"

definition AccessListTx_SetGasPrice :: "int \<Rightarrow> AccessListTx \<Rightarrow> AccessListTx" where
  "AccessListTx_SetGasPrice v tx = tx\<lparr>al_GasPrice := Some v\<rparr>"

definition AccessListTx_SetAccesses :: "AccessTuple list \<Rightarrow> AccessListTx \<Rightarrow> AccessListTx" where
  "AccessListTx_SetAccesses v tx = tx\<lparr>al_Accesses := v\<rparr>"

definition AccessListTx_Copy :: "AccessListTx \<Rightarrow> AccessListTx" where
  "AccessListTx_Copy tx = \<lparr>
     al_ChainID = al_ChainID tx, al_Nonce = al_Nonce tx, al_GasPrice = al_GasPrice tx,
     al_GasLimit = al_GasLimit tx, al_To = al_To tx, al_Amount = al_Amount tx, al_Data = al_Data tx,
     al_Accesses = al_Accesses tx, al_V = al_V tx, al_R = al_R tx, al_S = al_S tx\<rparr>"

definition AccessListTx_GetChainID :: "AccessListTx \<Rightarrow> bigint" where
  "AccessListTx_GetChainID tx = al_ChainID tx"

definition AccessListTx_GetAccessList :: "lib \<Rightarrow> AccessListTx \<Rightarrow> eth_AccessTuple list" where
  "AccessListTx_GetAccessList l tx =
     (if al_Accesses tx = [] then [] else ToEthAccessList l (al_Accesses tx))"

definition AccessListTx_GetGas :: "AccessListTx \<Rightarrow> uint64" where
  "AccessListTx_GetGas tx = al_GasLimit tx"

definition AccessListTx_GetGasPrice :: "AccessListTx \<Rightarrow> bigint" where
  "AccessListTx_GetGasPrice tx = al_GasPrice tx"

definition AccessListTx_GetGasTipCap :: "AccessListTx \<Rightarrow> bigint" where
  "AccessListTx_GetGasTipCap tx = AccessListTx_GetGasPrice tx"

definition AccessListTx_GetGasFeeCap :: "AccessListTx \<Rightarrow> bigint" where
  "AccessListTx_GetGasFeeCap tx = AccessListTx_GetGasPrice tx"

definition AccessListTx_GetValue :: "AccessListTx \<Rightarrow> bigint" where
  "AccessListTx_GetValue tx = al_Amount tx"

definition AccessListTx_GetTo :: "lib \<Rightarrow> AccessListTx \<Rightarrow> address option" where
  "AccessListTx_GetTo l tx = (if al_To tx = [] then None else Some (HexToAddress l (al_To tx)))"

definition AccessListTx_GetRawSignatureValues :: "AccessListTx \<Rightarrow> int \<times> int \<times> int" where
  "AccessListTx_GetRawSignatureValues tx = rawSignatureValues (al_V tx) (al_R tx) (al_S tx)"

definition AccessListTx_AsEthereumData :: "lib \<Rightarrow> AccessListTx \<Rightarrow> eth_TxData" where
  "AccessListTx_AsEthereumData l tx =
     (let (v, r, s) = AccessListTx_GetRawSignatureValues tx in
      EthAccessListTx \<lparr>
        eal_ChainID = AccessListTx_GetChainID tx, eal_Nonce = al_Nonce tx,
        eal_GasPrice = AccessListTx_GetGasPrice tx, eal_Gas = AccessListTx_GetGas tx,
        eal_To = AccessListTx_GetTo l tx, eal_Value = AccessListTx_GetValue tx, eal_Data = al_Data tx,
        eal_AccessList = AccessListTx_GetAccessList l tx,
        eal_V = Some v, eal_R = Some r, eal_S = Some s\<rparr>)"

definition AccessListTx_SetSignatureValues ::
    "lib \<Rightarrow> bigint \<Rightarrow> bigint \<Rightarrow> bigint \<Rightarrow> bigint \<Rightarrow> AccessListTx \<Rightarrow> AccessListTx go" where
  "AccessListTx_SetSignatureValues l chainID v r s tx =
     (let tx1 = tx\<lparr>al_V := (case v of None \<Rightarrow> al_V tx | Some x \<Rightarrow> big_Bytes x),
                  al_R := (case r of None \<Rightarrow> al_R tx | Some x \<Rightarrow> big_Bytes x),
                  al_S := (case s of None \<Rightarrow> al_S tx | Some x \<Rightarrow> big_Bytes x)\<rparr> in
      case chainID of None \<Rightarrow> Done tx1
      | Some c \<Rightarrow> go_bind (NewIntFromBigInt l c) (\<lambda>i. Done (tx1\<lparr>al_ChainID := Some i\<rparr>)))"

definition AccessListTx_Fee :: "AccessListTx \<Rightarrow> int go" where
  "AccessListTx_Fee tx = fee (AccessListTx_GetGasPrice tx) (AccessListTx_GetGas tx)"

definition AccessListTx_Cost :: "AccessListTx \<Rightarrow> int go" where
  "AccessListTx_Cost tx = go_bind (AccessListTx_Fee tx) (\<lambda>f. Done (cost f (AccessListTx_GetValue tx)))"

definition AccessListTx_EffectiveGasPrice :: "bigint \<Rightarrow> AccessListTx \<Rightarrow> bigint" where
  "AccessListTx_EffectiveGasPrice baseFee tx = AccessListTx_GetGasPrice tx"

definition AccessListTx_EffectiveFee :: "bigint \<Rightarrow> AccessListTx \<Rightarrow> int go" where
  "AccessListTx_EffectiveFee baseFee tx = AccessListTx_Fee tx"

definition AccessListTx_EffectiveCost :: "bigint \<Rightarrow> AccessListTx \<Rightarrow> int go" where
  "AccessListTx_EffectiveCost baseFee tx = AccessListTx_Cost tx"

definition AccessListTx_Validate :: "lib \<Rightarrow> AccessListTx \<Rightarrow> error go" where
  "AccessListTx_Validate l tx =
     (case AccessListTx_GetGasPrice tx of
        None \<Rightarrow> Done (Some ''gas price cannot be nil'')
      | Some gasPrice \<Rightarrow>
          if gasPrice < 0 then Done (Some ''gas price cannot be negative'')
          else if (\<exists>amount \<in> set_option (AccessListTx_GetValue tx). amount < 0)
            then Done (Some ''amount cannot be negative'')
          else
          go_bind (AccessListTx_Fee tx) (\<lambda>f.
          if \<not> IsValidInt256 (Some f) then Done (Some ''fee out of bound'')
          else if al_To tx \<noteq> [] \<and> ValidateAddress l (al_To tx) \<noteq> None
            then Done (Some ''invalid to address'')
          else if AccessListTx_GetChainID tx = None
            then Done (Some ''chain ID must be present on AccessList txs'')
          else Done None))"

definition NewAccessListTx :: "lib \<Rightarrow> eth_Transaction \<Rightarrow> (string + AccessListTx) go" where
  "NewAccessListTx l tx =
     (case ValidateEthTx tx of Some e \<Rightarrow> Done (Inl e) | None \<Rightarrow>
      let txData0 = \<lparr>al_ChainID = None, al_Nonce = tx_Nonce tx, al_GasPrice = None, al_GasLimit = tx_Gas tx,
                     al_To = [], al_Amount = None, al_Data = tx_Data tx, al_Accesses = [],
                     al_V = [], al_R = [], al_S = []\<rparr> in
      go_bind (SetConvertIfPresent (tx_To tx) (\<lambda>to. Done (addr_Hex l to)) AccessListTx_SetTo txData0) (\<lambda>txData1.
      go_bind (SetConvertIfPresent (tx_Value tx) (NewIntFromBigInt l) AccessListTx_SetAmount txData1) (\<lambda>txData2.
      go_bind (SetConvertIfPresent (tx_GasPrice tx) (NewIntFromBigInt l) AccessListTx_SetGasPrice txData2) (\<lambda>txData3.
      go_bind (SetConvertIfPresent (Some (tx_AccessList tx)) (\<lambda>al. Done (NewAccessList l al))
                 AccessListTx_SetAccesses txData3) (\<lambda>txData4.
      go_bind (AccessListTx_SetSignatureValues l (tx_ChainId tx) (tx_V tx) (tx_R tx) (tx_S tx) txData4) (\<lambda>txData.
      go_bind (AccessListTx_Validate l txData) (\<lambda>err.
      Done (case err of Some e \<Rightarrow> Inl e | None \<Rightarrow> Inr txData))))))))"

section \<open>\<open>DynamicFeeTx\<close>\<close>

definition DynamicFeeTx_SetTo :: "string \<Rightarrow> DynamicFeeTx \<Rightarrow> DynamicFeeTx" where
  "DynamicFeeTx_SetTo v tx = tx\<lparr>df_To := v\<rparr>"

definition DynamicFeeTx_SetAmount :: "int \<Rightarrow> DynamicFeeTx \<Rightarrow> DynamicFeeTx" where
  "DynamicFeeTx_SetAmount v tx = tx\<lparr>df_Amount := Some v\<rparr>"

definition DynamicFeeTx_SetGasFeeCap :: "int \<Rightarrow> DynamicFeeTx \<Rightarrow> DynamicFeeTx" where
  "DynamicFeeTx_SetGasFeeCap v tx = tx\<lparr>df_GasFeeCap := Some v\<rparr>"

definition DynamicFeeTx_SetGasTipCap :: "int \<Rightarrow> DynamicFeeTx \<Rightarrow> DynamicFeeTx" where
  "DynamicFeeTx_SetGasTipCap v tx = tx\<lparr>df_GasTipCap := Some v\<rparr>"

definition DynamicFeeTx_SetAccesses :: "AccessTuple list \<Rightarrow> DynamicFeeTx \<Rightarrow> DynamicFeeTx" where
  "DynamicFeeTx_SetAccesses v tx = tx\<lparr>df_Accesses := v\<rparr>"

definition DynamicFeeTx_Copy :: "DynamicFeeTx \<Rightarrow> DynamicFeeTx" where
  "DynamicFeeTx_Copy tx = \<lparr>
     df_ChainID = df_ChainID tx, df_Nonce = df_Nonce tx, df_GasTipCap = df_GasTipCap tx,
     df_GasFeeCap = df_GasFeeCap tx, df_GasLimit = df_GasLimit tx, df_To = df_To tx,
     df_Amount = df_Amount tx, df_Data = df_Data tx, df_Accesses = df_Accesses tx,
     df_V = df_V tx, df_R = df_R tx, df_S = df_S tx\<rparr>"

definition DynamicFeeTx_GetChainID :: "DynamicFeeTx \<Rightarrow> bigint" where
  "DynamicFeeTx_GetChainID tx = df_ChainID tx"

definition DynamicFeeTx_GetAccessList :: "lib \<Rightarrow> DynamicFeeTx \<Rightarrow> eth_AccessTuple list" where
  "DynamicFeeTx_GetAccessList l tx =
     (if df_Accesses tx = [] then [] else ToEthAccessList l (df_Accesses tx))"

definition DynamicFeeTx_GetGas :: "DynamicFeeTx \<Rightarrow> uint64" where
  "DynamicFeeTx_GetGas tx = df_GasLimit tx"

definition DynamicFeeTx_GetGasTipCap :: "DynamicFeeTx \<Rightarrow> bigint" where
  "DynamicFeeTx_GetGasTipCap tx = df_GasTipCap tx"

definition DynamicFeeTx_GetGasFeeCap :: "DynamicFeeTx \<Rightarrow> bigint" where
  "DynamicFeeTx_GetGasFeeCap tx = df_GasFeeCap tx"

definition DynamicFeeTx_GetGasPrice :: "DynamicFeeTx \<Rightarrow> bigint" where
  "DynamicFeeTx_GetGasPrice tx = DynamicFeeTx_GetGasFeeCap tx"

definition DynamicFeeTx_GetValue :: "DynamicFeeTx \<Rightarrow> bigint" where
  "DynamicFeeTx_GetValue tx = df_Amount tx"

definition DynamicFeeTx_GetTo :: "lib \<Rightarrow> DynamicFeeTx \<Rightarrow> address option" where
  "DynamicFeeTx_GetTo l tx = (if df_To tx = [] then None else Some (HexToAddress l (df_To tx)))"

definition DynamicFeeTx_GetRawSignatureValues :: "DynamicFeeTx \<Rightarrow> int \<times> int \<times> int" where
  "DynamicFeeTx_GetRawSignatureValues tx = rawSignatureValues (df_V tx) (df_R tx) (df_S tx)"

definition DynamicFeeTx_AsEthereumData :: "lib \<Rightarrow> DynamicFeeTx \<Rightarrow> eth_TxData" where
  "DynamicFeeTx_AsEthereumData l tx =
     (let (v, r, s) = DynamicFeeTx_GetRawSignatureValues tx in
      EthDynamicFeeTx \<lparr>
        edf_ChainID = DynamicFeeTx_GetChainID tx, edf_Nonce = df_Nonce tx,
        edf_GasTipCap = DynamicFeeTx_GetGasTipCap tx, edf_GasFeeCap = DynamicFeeTx_GetGasFeeCap tx,
        edf_Gas = DynamicFeeTx_GetGas tx, edf_To = DynamicFeeTx_GetTo l tx,
        edf_Value = DynamicFeeTx_GetValue tx, edf_Data = df_Data tx,
        edf_AccessList = DynamicFeeTx_GetAccessList l tx,
        edf_V = Some v, edf_R = Some r, edf_S = Some s\<rparr>)"

definition DynamicFeeTx_SetSignatureValues ::
    "lib \<Rightarrow> bigint \<Rightarrow> bigint \<Rightarrow> bigint \<Rightarrow> bigint \<Rightarrow> DynamicFeeTx \<Rightarrow> DynamicFeeTx go" where
  "DynamicFeeTx_SetSignatureValues l chainID v r s tx =
     (let tx1 = tx\<lparr>df_V := (case v of None \<Rightarrow> df_V tx | Some x \<Rightarrow> big_Bytes x),
                  df_R := (case r of None \<Rightarrow> df_R tx | Some x \<Rightarrow> big_Bytes x),
                  df_S := (case s of None \<Rightarrow> df_S tx | Some x \<Rightarrow> big_Bytes x)\<rparr> in
      case chainID of None \<Rightarrow> Done tx1
      | Some c \<Rightarrow> go_bind (NewIntFromBigInt l c) (\<lambda>i. Done (tx1\<lparr>df_ChainID := Some i\<rparr>)))"

definition DynamicFeeTx_Fee :: "DynamicFeeTx \<Rightarrow> int go" where
  "DynamicFeeTx_Fee tx = fee (DynamicFeeTx_GetGasFeeCap tx) (df_GasLimit tx)"

definition DynamicFeeTx_Cost :: "DynamicFeeTx \<Rightarrow> int go" where
  "DynamicFeeTx_Cost tx = go_bind (DynamicFeeTx_Fee tx) (\<lambda>f. Done (cost f (DynamicFeeTx_GetValue tx)))"

definition DynamicFeeTx_EffectiveGasPrice :: "bigint \<Rightarrow> DynamicFeeTx \<Rightarrow> int go" where
  "DynamicFeeTx_EffectiveGasPrice baseFee tx =
     deref (df_GasFeeCap tx) (\<lambda>feeCap. deref (df_GasTipCap tx) (\<lambda>tipCap.
     EffectiveGasPrice baseFee feeCap tipCap))"

definition DynamicFeeTx_EffectiveFee :: "bigint \<Rightarrow> DynamicFeeTx \<Rightarrow> int go" where
  "DynamicFeeTx_EffectiveFee baseFee tx =
     go_bind (DynamicFeeTx_EffectiveGasPrice baseFee tx) (\<lambda>p. fee (Some p) (df_GasLimit tx))"

definition DynamicFeeTx_EffectiveCost :: "bigint \<Rightarrow> DynamicFeeTx \<Rightarrow> int go" where
  "DynamicFeeTx_EffectiveCost baseFee tx =
     go_bind (DynamicFeeTx_EffectiveFee baseFee tx) (\<lambda>f. Done (cost f (DynamicFeeTx_GetValue tx)))"

definition DynamicFeeTx_Validate :: "lib \<Rightarrow> DynamicFeeTx \<Rightarrow> error go" where
  "DynamicFeeTx_Validate l tx =
     (case df_GasTipCap tx of None \<Rightarrow> Done (Some ''gas tip cap cannot nil'') | Some gasTipCap \<Rightarrow>
      case df_GasFeeCap tx of None \<Rightarrow> Done (Some ''gas fee cap cannot nil'') | Some gasFeeCap \<Rightarrow>
      if gasTipCap < 0 then Done (Some ''gas tip cap cannot be negative'')
      else if gasFeeCap < 0 then Done (Some ''gas fee cap cannot be negative'')
      else if gasFeeCap < gasTipCap then Done (Some ''max priority fee per gas higher than max fee per gas'')
      else
      go_bind (DynamicFeeTx_Fee tx) (\<lambda>f.
      if \<not> IsValidInt256 (Some f) then Done (Some ''fee out of bound'')
      else if (\<exists>amount \<in> set_option (DynamicFeeTx_GetValue tx). amount < 0)
        then Done (Some ''amount cannot be negative'')
      else if df_To tx \<noteq> [] \<and> ValidateAddress l (df_To tx) \<noteq> None
        then Done (Some ''invalid to address'')
      else if DynamicFeeTx_GetChainID tx = None
        then Done (Some ''chain ID must be present on AccessList txs'')
      else Done None))"

definition NewDynamicFeeTx :: "lib \<Rightarrow> eth_Transaction \<Rightarrow> (string + DynamicFeeTx) go" where
  "NewDynamicFeeTx l tx =
     (case ValidateEthTx tx of Some e \<Rightarrow> Done (Inl e) | None \<Rightarrow>
      let txData0 = \<lparr>df_ChainID = None, df_Nonce = tx_Nonce tx, df_GasTipCap = None, df_GasFeeCap = None,
                     df_GasLimit = tx_Gas tx, df_To = [], df_Amount = None, df_Data = tx_Data tx,
                     df_Accesses = [], df_V = [], df_R = [], df_S = []\<rparr> in
      go_bind (SetConvertIfPresent (tx_To tx) (\<lambda>to. Done (addr_Hex l to)) DynamicFeeTx_SetTo txData0) (\<lambda>txData1.
      go_bind (SetConvertIfPresent (tx_Value tx) (NewIntFromBigInt l) DynamicFeeTx_SetAmount txData1) (\<lambda>txData2.
      go_bind (SetConvertIfPresent (tx_GasFeeCap tx) (NewIntFromBigInt l) DynamicFeeTx_SetGasFeeCap txData2) (\<lambda>txData3.
      go_bind (SetConvertIfPresent (tx_GasTipCap tx) (NewIntFromBigInt l) DynamicFeeTx_SetGasTipCap txData3) (\<lambda>txData4.
      go_bind (SetConvertIfPresent (Some (tx_AccessList tx)) (\<lambda>al. Done (NewAccessList l al))
                 DynamicFeeTx_SetAccesses txData4) (\<lambda>txData5.
      go_bind (DynamicFeeTx_SetSignatureValues l (tx_ChainId tx) (tx_V tx) (tx_R tx) (tx_S tx) txData5) (\<lambda>txData.
      go_bind (DynamicFeeTx_Validate l txData) (\<lambda>err.
      Done (case err of Some e \<Rightarrow> Inl e | None \<Rightarrow> Inr txData)))))))))"

section \<open>\<open>BlobTx\<close>\<close>

definition BlobTx_SetTo :: "string \<Rightarrow> BlobTx \<Rightarrow> BlobTx" where
  "BlobTx_SetTo v tx = tx\<lparr>bt_To := v\<rparr>"

definition BlobTx_SetAmount :: "int \<Rightarrow> BlobTx \<Rightarrow> BlobTx" where
  "BlobTx_SetAmount v tx = tx\<lparr>bt_Amount := Some v\<rparr>"

definition BlobTx_SetGasFeeCap :: "int \<Rightarrow> BlobTx \<Rightarrow> BlobTx" where
  "BlobTx_SetGasFeeCap v tx = tx\<lparr>bt_GasFeeCap := Some v\<rparr>"

definition BlobTx_SetGasTipCap :: "int \<Rightarrow> BlobTx \<Rightarrow> BlobTx" where
  "BlobTx_SetGasTipCap v tx = tx\<lparr>bt_GasTipCap := Some v\<rparr>"

definition BlobTx_SetAccesses :: "AccessTuple list \<Rightarrow> BlobTx \<Rightarrow> BlobTx" where
  "BlobTx_SetAccesses v tx = tx\<lparr>bt_Accesses := v\<rparr>"

definition BlobTx_SetBlobFeeCap :: "int \<Rightarrow> BlobTx \<Rightarrow> BlobTx" where
  "BlobTx_SetBlobFeeCap v tx = tx\<lparr>bt_BlobFeeCap := Some v\<rparr>"

definition BlobTx_SetBlobHashes :: "bytes list \<Rightarrow> BlobTx \<Rightarrow> BlobTx" where
  "BlobTx_SetBlobHashes v tx = tx\<lparr>bt_BlobHashes := v\<rparr>"

definition BlobTx_SetBlobSidecar :: "BlobTxSidecar \<Rightarrow> BlobTx \<Rightarrow> BlobTx" where
  "BlobTx_SetBlobSidecar v tx = tx\<lparr>bt_Sidecar := Some v\<rparr>"

definition sidecarConverter :: "eth_Sidecar \<Rightarrow> BlobTxSidecar" where
  "sidecarConverter sc =
     \<lparr>sc_Blobs = es_Blobs sc, sc_Commitments = es_Commitments sc, sc_Proofs = es_Proofs sc\<rparr>"

text \<open>The conversion of a slice to an array of \<open>n\<close> bytes takes the first \<open>n\<close> bytes and panics when
  there are fewer. A blob has 131072 bytes, a commitment and a proof 48.\<close>

definition slice_to_array :: "nat \<Rightarrow> bytes \<Rightarrow> bytes go" where
  "slice_to_array n b =
     (if length b < n then Panic ''cannot convert slice to array'' else Done (take n b))"

definition sidecarToEthSidecar :: "BlobTxSidecar option \<Rightarrow> eth_Sidecar option go" where
  "sidecarToEthSidecar sidecar =
     (case sidecar of None \<Rightarrow> Done None | Some sc \<Rightarrow>
      go_bind (utils_Map (sc_Blobs sc) (slice_to_array 131072)) (\<lambda>blobs.
      go_bind (utils_Map (sc_Commitments sc) (slice_to_array 48)) (\<lambda>commitments.
      go_bind (utils_Map (sc_Proofs sc) (slice_to_array 48)) (\<lambda>proofs.
      Done (Some \<lparr>es_Blobs = blobs, es_Commitments = commitments, es_Proofs = proofs\<rparr>)))))"

definition BlobTx_Copy :: "BlobTx \<Rightarrow> BlobTx" where
  "BlobTx_Copy tx = \<lparr>
     bt_ChainID = bt_ChainID tx, bt_Nonce = bt_Nonce tx, bt_GasTipCap = bt_GasTipCap tx,
     bt_GasFeeCap = bt_GasFeeCap tx, bt_GasLimit = bt_GasLimit tx, bt_To = bt_To tx,
     bt_Amount = bt_Amount tx, bt_Data = bt_Data tx, bt_Accesses = bt_Accesses tx,
     bt_BlobFeeCap = bt_BlobFeeCap tx, bt_BlobHashes = bt_BlobHashes tx, bt_Sidecar = bt_Sidecar tx,
     bt_V = bt_V tx, bt_R = bt_R tx, bt_S = bt_S tx\<rparr>"

definition BlobTx_GetChainID :: "BlobTx \<Rightarrow> bigint" where
  "BlobTx_GetChainID tx = bt_ChainID tx"

definition BlobTx_GetAccessList :: "lib \<Rightarrow> BlobTx \<Rightarrow> eth_AccessTuple list" where
  "BlobTx_GetAccessList l tx =
     (if bt_Accesses tx = [] then [] else ToEthAccessList l (bt_Accesses tx))"

definition BlobTx_GetGas :: "BlobTx \<Rightarrow> uint64" where
  "BlobTx_GetGas tx = bt_GasLimit tx"

text \<open>\<open>params.BlobTxBlobGasPerBlob\<close> is \<open>1 << 17\<close>; the product is one of 64 bits.\<close>

definition BlobTx_BlobGas :: "BlobTx \<Rightarrow> uint64" where
  "BlobTx_BlobGas tx = 131072 * word_of_nat (length (bt_BlobHashes tx))"

definition BlobTx_GetGasTipCap :: "BlobTx \<Rightarrow> bigint" where
  "BlobTx_GetGasTipCap tx = bt_GasTipCap tx"

definition BlobTx_GetGasFeeCap :: "BlobTx \<Rightarrow> bigint" where
  "BlobTx_GetGasFeeCap tx = bt_GasFeeCap tx"

definition BlobTx_GetGasPrice :: "BlobTx \<Rightarrow> bigint" where
  "BlobTx_GetGasPrice tx = BlobTx_GetGasFeeCap tx"

definition BlobTx_GetValue :: "BlobTx \<Rightarrow> bigint" where
  "BlobTx_GetValue tx = bt_Amount tx"

text \<open>Unlike the other kinds, the recipient of a blob transaction is never nil.\<close>

definition BlobTx_GetTo :: "lib \<Rightarrow> BlobTx \<Rightarrow> address" where
  "BlobTx_GetTo l tx = (if bt_To tx = [] then replicate 20 0 else HexToAddress l (bt_To tx))"

definition BlobTx_GetBlobFeeCap :: "BlobTx \<Rightarrow> bigint" where
  "BlobTx_GetBlobFeeCap tx = bt_BlobFeeCap tx"

definition BlobTx_GetBlobHashes :: "BlobTx \<Rightarrow> hash list" where
  "BlobTx_GetBlobHashes tx = map (copy_into 32) (bt_BlobHashes tx)"

definition BlobTx_GetRawSignatureValues :: "BlobTx \<Rightarrow> int \<times> int \<times> int" where
  "BlobTx_GetRawSignatureValues tx = rawSignatureValues (bt_V tx) (bt_R tx) (bt_S tx)"

text \<open>\<open>uint256.MustFromBig(nil)\<close> is nil.\<close>

definition MustFromBig_nil :: "lib \<Rightarrow> bigint \<Rightarrow> bigint go" where
  "MustFromBig_nil l x = (case x of None \<Rightarrow> Done None | Some i \<Rightarrow> go_bind (MustFromBig l i) (\<lambda>u. Done (Some u)))"

definition BlobTx_AsEthereumData :: "lib \<Rightarrow> BlobTx \<Rightarrow> eth_TxData go" where
  "BlobTx_AsEthereumData l tx =
     (let (v, r, s) = BlobTx_GetRawSignatureValues tx in
      go_bind (MustFromBig_nil l (BlobTx_GetChainID tx)) (\<lambda>chainID.
      go_bind (MustFromBig_nil l (BlobTx_GetGasTipCap tx)) (\<lambda>gasTipCap.
      go_bind (MustFromBig_nil l (BlobTx_GetGasFeeCap tx)) (\<lambda>gasFeeCap.
      go_bind (MustFromBig_nil l (BlobTx_GetValue tx)) (\<lambda>value.
      go_bind (MustFromBig_nil l (BlobTx_GetBlobFeeCap tx)) (\<lambda>blobFeeCap.
      go_bind (sidecarToEthSidecar (bt_Sidecar tx)) (\<lambda>sidecar.
      go_bind (MustFromBig_nil l (Some v)) (\<lambda>v'.
      go_bind (MustFromBig_nil l (Some r)) (\<lambda>r'.
      go_bind (MustFromBig_nil l (Some s)) (\<lambda>s'.
      Done (EthBlobTx \<lparr>
        ebt_ChainID = chainID, ebt_Nonce = bt_Nonce tx, ebt_GasTipCap = gasTipCap,
        ebt_GasFeeCap = gasFeeCap, ebt_Gas = BlobTx_GetGas tx, ebt_To = BlobTx_GetTo l tx,
        ebt_Value = value, ebt_Data = bt_Data tx, ebt_AccessList = BlobTx_GetAccessList l tx,
        ebt_BlobFeeCap = blobFeeCap, ebt_BlobHashes = BlobTx_GetBlobHashes tx,
        ebt_Sidecar = sidecar, ebt_V = v', ebt_R = r', ebt_S = s'\<rparr>)))))))))))"

definition BlobTx_SetSignatureValues ::
    "lib \<Rightarrow> bigint \<Rightarrow> bigint \<Rightarrow> bigint \<Rightarrow> bigint \<Rightarrow> BlobTx \<Rightarrow> BlobTx go" where
  "BlobTx_SetSignatureValues l chainID v r s tx =
     (let tx1 = tx\<lparr>bt_V := (case v of None \<Rightarrow> bt_V tx | Some x \<Rightarrow> big_Bytes x),
                  bt_R := (case r of None \<Rightarrow> bt_R tx | Some x \<Rightarrow> big_Bytes x),
                  bt_S := (case s of None \<Rightarrow> bt_S tx | Some x \<Rightarrow> big_Bytes x)\<rparr> in
      case chainID of None \<Rightarrow> Done tx1
      | Some c \<Rightarrow> go_bind (NewIntFromBigInt l c) (\<lambda>i. Done (tx1\<lparr>bt_ChainID := Some i\<rparr>)))"

definition BlobTx_blobFee :: "BlobTx \<Rightarrow> int go" where
  "BlobTx_blobFee tx = fee (BlobTx_GetBlobFeeCap tx) (BlobTx_BlobGas tx)"

definition BlobTx_Fee :: "BlobTx \<Rightarrow> int go" where
  "BlobTx_Fee tx =
     go_bind (fee (BlobTx_GetGasFeeCap tx) (bt_GasLimit tx)) (\<lambda>f.
     go_bind (BlobTx_blobFee tx) (\<lambda>b. Done (f + b)))"

definition BlobTx_Cost :: "BlobTx \<Rightarrow> int go" where
  "BlobTx_Cost tx = go_bind (BlobTx_Fee tx) (\<lambda>f. Done (cost f (BlobTx_GetValue tx)))"

definition BlobTx_EffectiveGasPrice :: "bigint \<Rightarrow> BlobTx \<Rightarrow> int go" where
  "BlobTx_EffectiveGasPrice baseFee tx =
     deref (bt_GasFeeCap tx) (\<lambda>feeCap. deref (bt_GasTipCap tx) (\<lambda>tipCap.
     EffectiveGasPrice baseFee feeCap tipCap))"

definition BlobTx_EffectiveFee :: "bigint \<Rightarrow> BlobTx \<Rightarrow> int go" where
  "BlobTx_EffectiveFee baseFee tx =
     go_bind (BlobTx_EffectiveGasPrice baseFee tx) (\<lambda>p.
     go_bind (fee (Some p) (bt_GasLimit tx)) (\<lambda>f.
     go_bind (BlobTx_blobFee tx) (\<lambda>b. Done (f + b))))"

definition BlobTx_EffectiveCost :: "bigint \<Rightarrow> BlobTx \<Rightarrow> int go" where
  "BlobTx_EffectiveCost baseFee tx =
     go_bind (BlobTx_EffectiveFee baseFee tx) (\<lambda>f. Done (cost f (BlobTx_GetValue tx)))"

definition BlobTx_Validate :: "lib \<Rightarrow> BlobTx \<Rightarrow> error go" where
  "BlobTx_Validate l tx =
     (case bt_GasTipCap tx of None \<Rightarrow> Done (Some ''gas tip cap cannot nil'') | Some gasTipCap \<Rightarrow>
      case bt_GasFeeCap tx of None \<Rightarrow> Done (Some ''gas fee cap cannot nil'') | Some gasFeeCap \<Rightarrow>
      if gasTipCap < 0 then Done (Some ''gas tip cap cannot be negative'')
      else if gasFeeCap < 0 then Done (Some ''gas fee cap cannot be negative'')
      else if gasFeeCap < gasTipCap then Done (Some ''max priority fee per gas higher than max fee per gas'')
      else
      go_bind (BlobTx_Fee tx) (\<lambda>f.
      if \<not> IsValidInt256 (Some f) then Done (Some ''fee out of bound'')
      else if (\<exists>amount \<in> set_option (BlobTx_GetValue tx). amount < 0)
        then Done (Some ''amount cannot be negative'')
      else if bt_To tx \<noteq> [] \<and> ValidateAddress l (bt_To tx) \<noteq> None
        then Done (Some ''invalid to address'')
      else if BlobTx_GetChainID tx = None
        then Done (Some ''chain ID must be present on AccessList txs'')
      else Done None))"

definition NewBlobTx :: "lib \<Rightarrow> eth_Transaction \<Rightarrow> (string + BlobTx) go" where
  "NewBlobTx l tx =
     (case ValidateEthTx tx of Some e \<Rightarrow> Done (Inl e) | None \<Rightarrow>
      let txData0 = \<lparr>bt_ChainID = None, bt_Nonce = tx_Nonce tx, bt_GasTipCap = None, bt_GasFeeCap = None,
                     bt_GasLimit = tx_Gas tx, bt_To = [], bt_Amount = None, bt_Data = tx_Data tx,
                     bt_Accesses = [], bt_BlobFeeCap = None, bt_BlobHashes = [], bt_Sidecar = None,
                     bt_V = [], bt_R = [], bt_S = []\<rparr> in
      go_bind (SetConvertIfPresent (tx_To tx) (\<lambda>to. Done (addr_Hex l to)) BlobTx_SetTo txData0) (\<lambda>txData1.
      go_bind (SetConvertIfPresent (tx_Value tx) (NewIntFromBigInt l) BlobTx_SetAmount txData1) (\<lambda>txData2.
      go_bind (SetConvertIfPresent (tx_GasFeeCap tx) (NewIntFromBigInt l) BlobTx_SetGasFeeCap txData2) (\<lambda>txData3.
      go_bind (SetConvertIfPresent (tx_GasTipCap tx) (NewIntFromBigInt l) BlobTx_SetGasTipCap txData3) (\<lambda>txData4.
      go_bind (SetConvertIfPresent (Some (tx_AccessList tx)) (\<lambda>al. Done (NewAccessList l al))
                 BlobTx_SetAccesses txData4) (\<lambda>txData5.
      go_bind (SetConvertIfPresent (tx_BlobGasFeeCap tx) (NewIntFromBigInt l) BlobTx_SetBlobFeeCap txData5) (\<lambda>txData6.
      go_bind (SetConvertIfPresent (Some (tx_BlobHashes tx)) Done BlobTx_SetBlobHashes txData6) (\<lambda>txData7.
      go_bind (SetConvertIfPresent (tx_BlobTxSidecar tx) (\<lambda>sc. Done (sidecarConverter sc))
                 BlobTx_SetBlobSidecar txData7) (\<lambda>txData8.
      go_bind (BlobTx_SetSignatureValues l (tx_ChainId tx) (tx_V tx) (tx_R tx) (tx_S tx) txData8) (\<lambda>txData.
      go_bind (BlobTx_Validate l txData) (\<lambda>err.
      Done (case err of Some e \<Rightarrow> Inl e | None \<Rightarrow> Inr txData))))))))))))"

end
