(* ===== verification/EthTx_Iface.thy ===== *)
theory EthTx_Iface
  imports EthTx_Types
begin

text \<open>
  \<open>x/evm/types/ethtx\<close>, third part: the interface \<open>TxData\<close> of \<open>txdata.go\<close>. Every method dispatches on
  the kind; \<open>AssociateTx\<close> implements only \<open>GetRawSignatureValues\<close> and panics in every other method.
  The locale \<open>fee_data\<close> is the contract that the fee methods of a kind keep, interpreted for each of the
  four kinds; the properties of the interface rest on it.
\<close>

section \<open>Dispatch\<close>

definition TxData_TxType :: "TxData \<Rightarrow> uint8 go" where
  "TxData_TxType tx =
     (case tx of
        TxLegacy t \<Rightarrow> Done LegacyTxType
      | TxAccessList t \<Rightarrow> Done AccessListTxType
      | TxDynamicFee t \<Rightarrow> Done DynamicFeeTxType
      | TxBlob t \<Rightarrow> Done BlobTxType
      | TxAssociate t \<Rightarrow> Panic ''not implemented'')"

definition TxData_Copy :: "TxData \<Rightarrow> TxData go" where
  "TxData_Copy tx =
     (case tx of
        TxLegacy t \<Rightarrow> Done (TxLegacy (LegacyTx_Copy t))
      | TxAccessList t \<Rightarrow> Done (TxAccessList (AccessListTx_Copy t))
      | TxDynamicFee t \<Rightarrow> Done (TxDynamicFee (DynamicFeeTx_Copy t))
      | TxBlob t \<Rightarrow> Done (TxBlob (BlobTx_Copy t))
      | TxAssociate t \<Rightarrow> Panic ''not implemented'')"

definition TxData_GetChainID :: "TxData \<Rightarrow> bigint go" where
  "TxData_GetChainID tx =
     (case tx of
        TxLegacy t \<Rightarrow> Done (LegacyTx_GetChainID t)
      | TxAccessList t \<Rightarrow> Done (AccessListTx_GetChainID t)
      | TxDynamicFee t \<Rightarrow> Done (DynamicFeeTx_GetChainID t)
      | TxBlob t \<Rightarrow> Done (BlobTx_GetChainID t)
      | TxAssociate t \<Rightarrow> Panic ''not implemented'')"

definition TxData_GetAccessList :: "lib \<Rightarrow> TxData \<Rightarrow> eth_AccessTuple list go" where
  "TxData_GetAccessList l tx =
     (case tx of
        TxLegacy t \<Rightarrow> Done []
      | TxAccessList t \<Rightarrow> Done (AccessListTx_GetAccessList l t)
      | TxDynamicFee t \<Rightarrow> Done (DynamicFeeTx_GetAccessList l t)
      | TxBlob t \<Rightarrow> Done (BlobTx_GetAccessList l t)
      | TxAssociate t \<Rightarrow> Panic ''not implemented'')"

definition TxData_GetData :: "TxData \<Rightarrow> bytes go" where
  "TxData_GetData tx =
     (case tx of
        TxLegacy t \<Rightarrow> Done (lt_Data t)
      | TxAccessList t \<Rightarrow> Done (al_Data t)
      | TxDynamicFee t \<Rightarrow> Done (df_Data t)
      | TxBlob t \<Rightarrow> Done (bt_Data t)
      | TxAssociate t \<Rightarrow> Panic ''not implemented'')"

definition TxData_GetNonce :: "TxData \<Rightarrow> uint64 go" where
  "TxData_GetNonce tx =
     (case tx of
        TxLegacy t \<Rightarrow> Done (lt_Nonce t)
      | TxAccessList t \<Rightarrow> Done (al_Nonce t)
      | TxDynamicFee t \<Rightarrow> Done (df_Nonce t)
      | TxBlob t \<Rightarrow> Done (bt_Nonce t)
      | TxAssociate t \<Rightarrow> Panic ''not implemented'')"

definition TxData_GetGas :: "TxData \<Rightarrow> uint64 go" where
  "TxData_GetGas tx =
     (case tx of
        TxLegacy t \<Rightarrow> Done (LegacyTx_GetGas t)
      | TxAccessList t \<Rightarrow> Done (AccessListTx_GetGas t)
      | TxDynamicFee t \<Rightarrow> Done (DynamicFeeTx_GetGas t)
      | TxBlob t \<Rightarrow> Done (BlobTx_GetGas t)
      | TxAssociate t \<Rightarrow> Panic ''not implemented'')"

definition TxData_GetGasPrice :: "TxData \<Rightarrow> bigint go" where
  "TxData_GetGasPrice tx =
     (case tx of
        TxLegacy t \<Rightarrow> Done (LegacyTx_GetGasPrice t)
      | TxAccessList t \<Rightarrow> Done (AccessListTx_GetGasPrice t)
      | TxDynamicFee t \<Rightarrow> Done (DynamicFeeTx_GetGasPrice t)
      | TxBlob t \<Rightarrow> Done (BlobTx_GetGasPrice t)
      | TxAssociate t \<Rightarrow> Panic ''not implemented'')"

definition TxData_GetGasTipCap :: "TxData \<Rightarrow> bigint go" where
  "TxData_GetGasTipCap tx =
     (case tx of
        TxLegacy t \<Rightarrow> Done (LegacyTx_GetGasTipCap t)
      | TxAccessList t \<Rightarrow> Done (AccessListTx_GetGasTipCap t)
      | TxDynamicFee t \<Rightarrow> Done (DynamicFeeTx_GetGasTipCap t)
      | TxBlob t \<Rightarrow> Done (BlobTx_GetGasTipCap t)
      | TxAssociate t \<Rightarrow> Panic ''not implemented'')"

definition TxData_GetGasFeeCap :: "TxData \<Rightarrow> bigint go" where
  "TxData_GetGasFeeCap tx =
     (case tx of
        TxLegacy t \<Rightarrow> Done (LegacyTx_GetGasFeeCap t)
      | TxAccessList t \<Rightarrow> Done (AccessListTx_GetGasFeeCap t)
      | TxDynamicFee t \<Rightarrow> Done (DynamicFeeTx_GetGasFeeCap t)
      | TxBlob t \<Rightarrow> Done (BlobTx_GetGasFeeCap t)
      | TxAssociate t \<Rightarrow> Panic ''not implemented'')"

definition TxData_GetValue :: "TxData \<Rightarrow> bigint go" where
  "TxData_GetValue tx =
     (case tx of
        TxLegacy t \<Rightarrow> Done (LegacyTx_GetValue t)
      | TxAccessList t \<Rightarrow> Done (AccessListTx_GetValue t)
      | TxDynamicFee t \<Rightarrow> Done (DynamicFeeTx_GetValue t)
      | TxBlob t \<Rightarrow> Done (BlobTx_GetValue t)
      | TxAssociate t \<Rightarrow> Panic ''not implemented'')"

definition TxData_GetTo :: "lib \<Rightarrow> TxData \<Rightarrow> address option go" where
  "TxData_GetTo l tx =
     (case tx of
        TxLegacy t \<Rightarrow> Done (LegacyTx_GetTo l t)
      | TxAccessList t \<Rightarrow> Done (AccessListTx_GetTo l t)
      | TxDynamicFee t \<Rightarrow> Done (DynamicFeeTx_GetTo l t)
      | TxBlob t \<Rightarrow> Done (Some (BlobTx_GetTo l t))
      | TxAssociate t \<Rightarrow> Panic ''not implemented'')"

definition TxData_GetRawSignatureValues :: "TxData \<Rightarrow> int \<times> int \<times> int" where
  "TxData_GetRawSignatureValues tx =
     (case tx of
        TxLegacy t \<Rightarrow> LegacyTx_GetRawSignatureValues t
      | TxAccessList t \<Rightarrow> AccessListTx_GetRawSignatureValues t
      | TxDynamicFee t \<Rightarrow> DynamicFeeTx_GetRawSignatureValues t
      | TxBlob t \<Rightarrow> BlobTx_GetRawSignatureValues t
      | TxAssociate t \<Rightarrow> rawSignatureValues (as_V t) (as_R t) (as_S t))"

definition TxData_SetSignatureValues :: "lib \<Rightarrow> bigint \<Rightarrow> bigint \<Rightarrow> bigint \<Rightarrow> bigint \<Rightarrow> TxData \<Rightarrow> TxData go" where
  "TxData_SetSignatureValues l chainID v r s tx =
     (case tx of
        TxLegacy t \<Rightarrow> Done (TxLegacy (LegacyTx_SetSignatureValues v r s t))
      | TxAccessList t \<Rightarrow> go_map TxAccessList (AccessListTx_SetSignatureValues l chainID v r s t)
      | TxDynamicFee t \<Rightarrow> go_map TxDynamicFee (DynamicFeeTx_SetSignatureValues l chainID v r s t)
      | TxBlob t \<Rightarrow> go_map TxBlob (BlobTx_SetSignatureValues l chainID v r s t)
      | TxAssociate t \<Rightarrow> Panic ''not implemented'')"

definition TxData_AsEthereumData :: "lib \<Rightarrow> TxData \<Rightarrow> eth_TxData go" where
  "TxData_AsEthereumData l tx =
     (case tx of
        TxLegacy t \<Rightarrow> Done (LegacyTx_AsEthereumData l t)
      | TxAccessList t \<Rightarrow> Done (AccessListTx_AsEthereumData l t)
      | TxDynamicFee t \<Rightarrow> Done (DynamicFeeTx_AsEthereumData l t)
      | TxBlob t \<Rightarrow> BlobTx_AsEthereumData l t
      | TxAssociate t \<Rightarrow> Panic ''not implemented'')"

definition TxData_Validate :: "lib \<Rightarrow> TxData \<Rightarrow> error go" where
  "TxData_Validate l tx =
     (case tx of
        TxLegacy t \<Rightarrow> LegacyTx_Validate l t
      | TxAccessList t \<Rightarrow> AccessListTx_Validate l t
      | TxDynamicFee t \<Rightarrow> DynamicFeeTx_Validate l t
      | TxBlob t \<Rightarrow> BlobTx_Validate l t
      | TxAssociate t \<Rightarrow> Panic ''not implemented'')"

definition TxData_Fee :: "TxData \<Rightarrow> int go" where
  "TxData_Fee tx =
     (case tx of
        TxLegacy t \<Rightarrow> LegacyTx_Fee t
      | TxAccessList t \<Rightarrow> AccessListTx_Fee t
      | TxDynamicFee t \<Rightarrow> DynamicFeeTx_Fee t
      | TxBlob t \<Rightarrow> BlobTx_Fee t
      | TxAssociate t \<Rightarrow> Panic ''not implemented'')"

definition TxData_Cost :: "TxData \<Rightarrow> int go" where
  "TxData_Cost tx =
     (case tx of
        TxLegacy t \<Rightarrow> LegacyTx_Cost t
      | TxAccessList t \<Rightarrow> AccessListTx_Cost t
      | TxDynamicFee t \<Rightarrow> DynamicFeeTx_Cost t
      | TxBlob t \<Rightarrow> BlobTx_Cost t
      | TxAssociate t \<Rightarrow> Panic ''not implemented'')"

definition TxData_EffectiveGasPrice :: "bigint \<Rightarrow> TxData \<Rightarrow> bigint go" where
  "TxData_EffectiveGasPrice baseFee tx =
     (case tx of
        TxLegacy t \<Rightarrow> Done (LegacyTx_EffectiveGasPrice baseFee t)
      | TxAccessList t \<Rightarrow> Done (AccessListTx_EffectiveGasPrice baseFee t)
      | TxDynamicFee t \<Rightarrow> go_map Some (DynamicFeeTx_EffectiveGasPrice baseFee t)
      | TxBlob t \<Rightarrow> go_map Some (BlobTx_EffectiveGasPrice baseFee t)
      | TxAssociate t \<Rightarrow> Panic ''not implemented'')"

definition TxData_EffectiveFee :: "bigint \<Rightarrow> TxData \<Rightarrow> int go" where
  "TxData_EffectiveFee baseFee tx =
     (case tx of
        TxLegacy t \<Rightarrow> LegacyTx_EffectiveFee baseFee t
      | TxAccessList t \<Rightarrow> AccessListTx_EffectiveFee baseFee t
      | TxDynamicFee t \<Rightarrow> DynamicFeeTx_EffectiveFee baseFee t
      | TxBlob t \<Rightarrow> BlobTx_EffectiveFee baseFee t
      | TxAssociate t \<Rightarrow> Panic ''not implemented'')"

definition TxData_EffectiveCost :: "bigint \<Rightarrow> TxData \<Rightarrow> int go" where
  "TxData_EffectiveCost baseFee tx =
     (case tx of
        TxLegacy t \<Rightarrow> LegacyTx_EffectiveCost baseFee t
      | TxAccessList t \<Rightarrow> AccessListTx_EffectiveCost baseFee t
      | TxDynamicFee t \<Rightarrow> DynamicFeeTx_EffectiveCost baseFee t
      | TxBlob t \<Rightarrow> BlobTx_EffectiveCost baseFee t
      | TxAssociate t \<Rightarrow> Panic ''not implemented'')"

definition TxData_GetBlobHashes :: "TxData \<Rightarrow> hash list go" where
  "TxData_GetBlobHashes tx =
     (case tx of
        TxLegacy t \<Rightarrow> Done []
      | TxAccessList t \<Rightarrow> Done []
      | TxDynamicFee t \<Rightarrow> Done []
      | TxBlob t \<Rightarrow> Done (BlobTx_GetBlobHashes t)
      | TxAssociate t \<Rightarrow> Panic ''not implemented'')"

definition TxData_GetBlobFeeCap :: "TxData \<Rightarrow> bigint go" where
  "TxData_GetBlobFeeCap tx =
     (case tx of
        TxLegacy t \<Rightarrow> Done None
      | TxAccessList t \<Rightarrow> Done None
      | TxDynamicFee t \<Rightarrow> Done None
      | TxBlob t \<Rightarrow> Done (BlobTx_GetBlobFeeCap t)
      | TxAssociate t \<Rightarrow> Panic ''not implemented'')"

definition NewTxDataFromTx :: "lib \<Rightarrow> eth_Transaction \<Rightarrow> (string + TxData) go" where
  "NewTxDataFromTx l tx =
     (if tx_Type tx = DynamicFeeTxType then go_map (map_sum id TxDynamicFee) (NewDynamicFeeTx l tx)
      else if tx_Type tx = AccessListTxType then go_map (map_sum id TxAccessList) (NewAccessListTx l tx)
      else if tx_Type tx = BlobTxType then go_map (map_sum id TxBlob) (NewBlobTx l tx)
      else go_map (map_sum id TxLegacy) (NewLegacyTx l tx))"

definition NewAssociateTx :: "eth_Transaction \<Rightarrow> string \<Rightarrow> AssociateTx go" where
  "NewAssociateTx tx customMessage =
     deref (tx_V tx) (\<lambda>v. deref (tx_R tx) (\<lambda>r. deref (tx_S tx) (\<lambda>s.
     Done \<lparr>as_V = big_Bytes v, as_R = big_Bytes r, as_S = big_Bytes s, as_CustomMessage = customMessage\<rparr>)))"

section \<open>The contract of the fee methods\<close>

text \<open>What the fee methods of a kind of transaction promise: \<open>surcharge\<close> is the part of the fee that does
  not depend on the gas price (the blob fee), \<open>price\<close> is the effective gas price.\<close>

locale fee_data =
  fixes Validate :: "'t \<Rightarrow> error go"
    and Fee Cost :: "'t \<Rightarrow> int go"
    and EffFee EffCost :: "bigint \<Rightarrow> 't \<Rightarrow> int go"
    and feeCap amount :: "'t \<Rightarrow> bigint"
    and gas :: "'t \<Rightarrow> uint64"
    and price :: "bigint \<Rightarrow> 't \<Rightarrow> bigint go"
    and surcharge :: "'t \<Rightarrow> int go"
  assumes Fee: "feeCap t = Some c \<Longrightarrow> surcharge t = Done x \<Longrightarrow> Fee t = Done (c * int (unat (gas t)) + x)"
    and EffFee: "price b t = Done (Some p) \<Longrightarrow> surcharge t = Done x \<Longrightarrow>
      EffFee b t = Done (p * int (unat (gas t)) + x)"
    and Cost: "Cost t = go_bind (Fee t) (\<lambda>f. Done (cost f (amount t)))"
    and EffCost: "EffCost b t = go_bind (EffFee b t) (\<lambda>f. Done (cost f (amount t)))"
    and Validate: "Validate t = Done None \<Longrightarrow> \<exists>c x. feeCap t = Some c \<and> 0 \<le> c \<and> surcharge t = Done x \<and>
      \<bar>c * int (unat (gas t)) + x\<bar> < 2 ^ 256 \<and> (\<forall>v. amount t = Some v \<longrightarrow> 0 \<le> v) \<and>
      (\<forall>b. 0 \<le> b \<longrightarrow> (\<exists>p. price (Some b) t = Done (Some p) \<and> 0 \<le> p \<and> p \<le> c))"
begin

lemma effective_bounds:
  assumes "Validate t = Done None" and "0 \<le> b"
  shows "\<exists>c p f ef k ek. feeCap t = Some c \<and> price (Some b) t = Done (Some p) \<and> 0 \<le> p \<and> p \<le> c \<and>
    Fee t = Done f \<and> EffFee (Some b) t = Done ef \<and> ef \<le> f \<and> \<bar>f\<bar> < 2 ^ 256 \<and>
    Cost t = Done k \<and> EffCost (Some b) t = Done ek \<and> ek \<le> k \<and> k - f = ek - ef \<and> f \<le> k"
proof -
  obtain c x p where v: "feeCap t = Some c" "0 \<le> c" "surcharge t = Done x"
      "\<bar>c * int (unat (gas t)) + x\<bar> < 2 ^ 256" "\<forall>v. amount t = Some v \<longrightarrow> 0 \<le> v"
      and p: "price (Some b) t = Done (Some p)" "0 \<le> p" "p \<le> c"
    using Validate [OF assms(1)] assms(2) by blast
  have "p * int (unat (gas t)) \<le> c * int (unat (gas t))"
    using p(3) by (intro mult_right_mono) auto
  then show ?thesis
    using v p Fee [OF v(1,3)] EffFee [OF p(1) v(3)] Cost [of t] EffCost [of "Some b" t]
    by (cases "amount t") auto
qed

end

text \<open>Unfolding of the methods of each kind.\<close>

lemmas legacy_defs =
  LegacyTx_Validate_def LegacyTx_Fee_def LegacyTx_Cost_def LegacyTx_EffectiveFee_def LegacyTx_EffectiveCost_def
  LegacyTx_EffectiveGasPrice_def LegacyTx_GetGasPrice_def LegacyTx_GetGas_def LegacyTx_GetValue_def

lemmas access_list_defs =
  AccessListTx_Validate_def AccessListTx_Fee_def AccessListTx_Cost_def AccessListTx_EffectiveFee_def
  AccessListTx_EffectiveCost_def AccessListTx_EffectiveGasPrice_def AccessListTx_GetGasPrice_def
  AccessListTx_GetGas_def AccessListTx_GetValue_def AccessListTx_GetChainID_def

lemmas dynamic_fee_defs =
  DynamicFeeTx_Validate_def DynamicFeeTx_Fee_def DynamicFeeTx_Cost_def DynamicFeeTx_EffectiveFee_def
  DynamicFeeTx_EffectiveCost_def DynamicFeeTx_EffectiveGasPrice_def DynamicFeeTx_GetGasFeeCap_def
  DynamicFeeTx_GetGas_def DynamicFeeTx_GetValue_def DynamicFeeTx_GetChainID_def

lemmas blob_defs =
  BlobTx_Validate_def BlobTx_Fee_def BlobTx_blobFee_def BlobTx_Cost_def BlobTx_EffectiveFee_def
  BlobTx_EffectiveCost_def BlobTx_EffectiveGasPrice_def BlobTx_GetGasFeeCap_def BlobTx_GetBlobFeeCap_def
  BlobTx_GetGas_def BlobTx_GetValue_def BlobTx_GetChainID_def

interpretation legacy_fee: fee_data "LegacyTx_Validate l" LegacyTx_Fee LegacyTx_Cost LegacyTx_EffectiveFee
    LegacyTx_EffectiveCost LegacyTx_GetGasFeeCap LegacyTx_GetValue LegacyTx_GetGas
    "\<lambda>b t. Done (LegacyTx_EffectiveGasPrice b t)" "\<lambda>t. Done 0" for l
  by unfold_locales
    (auto simp: legacy_defs LegacyTx_GetGasFeeCap_def IsValidInt256_iff go_Done_iffs split: option.splits if_splits)

interpretation access_list_fee: fee_data "AccessListTx_Validate l" AccessListTx_Fee AccessListTx_Cost
    AccessListTx_EffectiveFee AccessListTx_EffectiveCost AccessListTx_GetGasFeeCap AccessListTx_GetValue
    AccessListTx_GetGas "\<lambda>b t. Done (AccessListTx_EffectiveGasPrice b t)" "\<lambda>t. Done 0" for l
  by unfold_locales
    (auto simp: access_list_defs AccessListTx_GetGasFeeCap_def IsValidInt256_iff go_Done_iffs
      split: option.splits if_splits)

interpretation dynamic_fee: fee_data "DynamicFeeTx_Validate l" DynamicFeeTx_Fee DynamicFeeTx_Cost
    DynamicFeeTx_EffectiveFee DynamicFeeTx_EffectiveCost DynamicFeeTx_GetGasFeeCap DynamicFeeTx_GetValue
    DynamicFeeTx_GetGas "\<lambda>b t. go_map Some (DynamicFeeTx_EffectiveGasPrice b t)" "\<lambda>t. Done 0" for l
  by unfold_locales
    (auto simp: dynamic_fee_defs IsValidInt256_iff go_Done_iffs split: option.splits if_splits)

interpretation blob_fee: fee_data "BlobTx_Validate l" BlobTx_Fee BlobTx_Cost
    BlobTx_EffectiveFee BlobTx_EffectiveCost BlobTx_GetGasFeeCap BlobTx_GetValue
    BlobTx_GetGas "\<lambda>b t. go_map Some (BlobTx_EffectiveGasPrice b t)" BlobTx_blobFee for l
  by unfold_locales
    (auto simp: blob_defs IsValidInt256_iff go_Done_iffs split: option.splits if_splits)

section \<open>Building a transaction\<close>

text \<open>What go-ethereum guarantees of a signed transaction: arrays have their length, the signature values
  are present, and the fields of a blob transaction are 256-bit numbers without sign.\<close>

definition u256 :: "bigint \<Rightarrow> bool" where
  "u256 x \<longleftrightarrow> (case x of None \<Rightarrow> False | Some i \<Rightarrow> 0 \<le> i \<and> i < 2 ^ 256)"

definition sidecar_ok :: "eth_Sidecar \<Rightarrow> bool" where
  "sidecar_ok sc \<longleftrightarrow> (\<forall>b \<in> set (es_Blobs sc). length b = 131072) \<and>
     (\<forall>b \<in> set (es_Commitments sc). length b = 48) \<and> (\<forall>b \<in> set (es_Proofs sc). length b = 48)"

definition natural :: "bigint \<Rightarrow> bool" where
  "natural x \<longleftrightarrow> (case x of None \<Rightarrow> False | Some i \<Rightarrow> 0 \<le> i)"

definition eth_tx_ok :: "eth_Transaction \<Rightarrow> bool" where
  "eth_tx_ok tx \<longleftrightarrow> (\<forall>a \<in> set_option (tx_To tx). length a = 20) \<and> access_list_ok (tx_AccessList tx) \<and>
     natural (tx_V tx) \<and> natural (tx_R tx) \<and> natural (tx_S tx) \<and>
     (tx_Type tx = BlobTxType \<longrightarrow>
        tx_To tx \<noteq> None \<and> u256 (tx_ChainId tx) \<and> u256 (tx_GasTipCap tx) \<and> u256 (tx_GasFeeCap tx) \<and>
        u256 (tx_Value tx) \<and> u256 (tx_BlobGasFeeCap tx) \<and> u256 (tx_V tx) \<and> u256 (tx_R tx) \<and> u256 (tx_S tx) \<and>
        (\<forall>h \<in> set (tx_BlobHashes tx). length h = 32) \<and> (\<forall>sc \<in> set_option (tx_BlobTxSidecar tx). sidecar_ok sc))"

text \<open>The struct inside a go-ethereum transaction, from its accessors.\<close>

definition eth_inner :: "eth_Transaction \<Rightarrow> eth_TxData" where
  "eth_inner tx =
     (if tx_Type tx = DynamicFeeTxType then EthDynamicFeeTx \<lparr>
        edf_ChainID = tx_ChainId tx, edf_Nonce = tx_Nonce tx, edf_GasTipCap = tx_GasTipCap tx,
        edf_GasFeeCap = tx_GasFeeCap tx, edf_Gas = tx_Gas tx, edf_To = tx_To tx, edf_Value = tx_Value tx,
        edf_Data = tx_Data tx, edf_AccessList = tx_AccessList tx,
        edf_V = tx_V tx, edf_R = tx_R tx, edf_S = tx_S tx\<rparr>
      else if tx_Type tx = AccessListTxType then EthAccessListTx \<lparr>
        eal_ChainID = tx_ChainId tx, eal_Nonce = tx_Nonce tx, eal_GasPrice = tx_GasPrice tx,
        eal_Gas = tx_Gas tx, eal_To = tx_To tx, eal_Value = tx_Value tx, eal_Data = tx_Data tx,
        eal_AccessList = tx_AccessList tx, eal_V = tx_V tx, eal_R = tx_R tx, eal_S = tx_S tx\<rparr>
      else if tx_Type tx = BlobTxType then EthBlobTx \<lparr>
        ebt_ChainID = tx_ChainId tx, ebt_Nonce = tx_Nonce tx, ebt_GasTipCap = tx_GasTipCap tx,
        ebt_GasFeeCap = tx_GasFeeCap tx, ebt_Gas = tx_Gas tx, ebt_To = the (tx_To tx), ebt_Value = tx_Value tx,
        ebt_Data = tx_Data tx, ebt_AccessList = tx_AccessList tx, ebt_BlobFeeCap = tx_BlobGasFeeCap tx,
        ebt_BlobHashes = tx_BlobHashes tx, ebt_Sidecar = tx_BlobTxSidecar tx,
        ebt_V = tx_V tx, ebt_R = tx_R tx, ebt_S = tx_S tx\<rparr>
      else EthLegacyTx \<lparr>
        el_Nonce = tx_Nonce tx, el_GasPrice = tx_GasPrice tx, el_Gas = tx_Gas tx, el_To = tx_To tx,
        el_Value = tx_Value tx, el_Data = tx_Data tx, el_V = tx_V tx, el_R = tx_R tx, el_S = tx_S tx\<rparr>)"

text \<open>\<open>SetConvertIfPresent\<close> on a value that \<open>ValidateEthTx\<close> let through keeps the value.\<close>

definition set_if :: "('v \<Rightarrow> 't \<Rightarrow> 't) \<Rightarrow> 'v option \<Rightarrow> 't \<Rightarrow> 't" where
  "set_if setter x t = (case x of None \<Rightarrow> t | Some v \<Rightarrow> setter v t)"

lemma set_if_simps [simp]: "set_if f None t = t" "set_if f (Some v) t = f v t"
  by (simp_all add: set_if_def)

lemma SetConvert_int:
  "sdk_int_laws l \<Longrightarrow> IsValidInt256 x \<Longrightarrow> SetConvertIfPresent x (NewIntFromBigInt l) f t = Done (set_if f x t)"
  by (cases x) (auto simp: IsValidInt256_def maxBitLen_def sdk_int_laws_def)

lemma SetConvert_Done: "SetConvertIfPresent x (\<lambda>v. Done (g v)) f t = Done (set_if f (map_option g x) t)"
  by (cases x) auto

lemma ValidateEthTx_None:
  "ValidateEthTx tx = None \<longleftrightarrow> IsValidInt256 (tx_Value tx) \<and> IsValidInt256 (tx_GasPrice tx) \<and>
     IsValidInt256 (tx_GasFeeCap tx) \<and> IsValidInt256 (tx_GasTipCap tx) \<and> IsValidInt256 (tx_BlobGasFeeCap tx)"
  by (simp add: ValidateEthTx_def)

text \<open>The message that a constructor has filled in just before it validates it.\<close>

definition legacy_of :: "lib \<Rightarrow> eth_Transaction \<Rightarrow> LegacyTx" where
  "legacy_of l tx = \<lparr>
     lt_Nonce = tx_Nonce tx, lt_GasPrice = tx_GasPrice tx, lt_GasLimit = tx_Gas tx,
     lt_To = (case tx_To tx of None \<Rightarrow> [] | Some a \<Rightarrow> addr_Hex l a), lt_Amount = tx_Value tx, lt_Data = tx_Data tx,
     lt_V = case_option [] big_Bytes (tx_V tx), lt_R = case_option [] big_Bytes (tx_R tx),
     lt_S = case_option [] big_Bytes (tx_S tx)\<rparr>"

definition access_list_of :: "lib \<Rightarrow> eth_Transaction \<Rightarrow> AccessListTx" where
  "access_list_of l tx = \<lparr>
     al_ChainID = tx_ChainId tx, al_Nonce = tx_Nonce tx, al_GasPrice = tx_GasPrice tx, al_GasLimit = tx_Gas tx,
     al_To = (case tx_To tx of None \<Rightarrow> [] | Some a \<Rightarrow> addr_Hex l a), al_Amount = tx_Value tx, al_Data = tx_Data tx,
     al_Accesses = NewAccessList l (tx_AccessList tx),
     al_V = case_option [] big_Bytes (tx_V tx), al_R = case_option [] big_Bytes (tx_R tx),
     al_S = case_option [] big_Bytes (tx_S tx)\<rparr>"

definition dynamic_fee_of :: "lib \<Rightarrow> eth_Transaction \<Rightarrow> DynamicFeeTx" where
  "dynamic_fee_of l tx = \<lparr>
     df_ChainID = tx_ChainId tx, df_Nonce = tx_Nonce tx, df_GasTipCap = tx_GasTipCap tx,
     df_GasFeeCap = tx_GasFeeCap tx, df_GasLimit = tx_Gas tx,
     df_To = (case tx_To tx of None \<Rightarrow> [] | Some a \<Rightarrow> addr_Hex l a), df_Amount = tx_Value tx, df_Data = tx_Data tx,
     df_Accesses = NewAccessList l (tx_AccessList tx),
     df_V = case_option [] big_Bytes (tx_V tx), df_R = case_option [] big_Bytes (tx_R tx),
     df_S = case_option [] big_Bytes (tx_S tx)\<rparr>"

definition blob_of :: "lib \<Rightarrow> eth_Transaction \<Rightarrow> BlobTx" where
  "blob_of l tx = \<lparr>
     bt_ChainID = tx_ChainId tx, bt_Nonce = tx_Nonce tx, bt_GasTipCap = tx_GasTipCap tx,
     bt_GasFeeCap = tx_GasFeeCap tx, bt_GasLimit = tx_Gas tx,
     bt_To = (case tx_To tx of None \<Rightarrow> [] | Some a \<Rightarrow> addr_Hex l a), bt_Amount = tx_Value tx, bt_Data = tx_Data tx,
     bt_Accesses = NewAccessList l (tx_AccessList tx), bt_BlobFeeCap = tx_BlobGasFeeCap tx,
     bt_BlobHashes = tx_BlobHashes tx, bt_Sidecar = map_option sidecarConverter (tx_BlobTxSidecar tx),
     bt_V = case_option [] big_Bytes (tx_V tx), bt_R = case_option [] big_Bytes (tx_R tx),
     bt_S = case_option [] big_Bytes (tx_S tx)\<rparr>"

definition validated :: "error go \<Rightarrow> 't \<Rightarrow> (string + 't) go" where
  "validated m t = go_bind m (\<lambda>err. Done (case err of Some e \<Rightarrow> Inl e | None \<Rightarrow> Inr t))"

lemma validated_Inr [simp]: "validated m t = Done (Inr d) \<longleftrightarrow> m = Done None \<and> d = t"
  by (cases m) (auto simp: validated_def split: option.splits)

lemma validated_Panic: "validated m t = Panic e \<longleftrightarrow> m = Panic e"
  by (cases m) (auto simp: validated_def)

lemma go_map_Inr: "go_map (map_sum id K) m = Done (Inr d) \<longleftrightarrow> (\<exists>t. m = Done (Inr t) \<and> d = K t)"
  by (cases m) (auto simp: map_sum_def split: sum.splits)

lemma go_map_Panic: "go_map f m = Panic e \<longleftrightarrow> m = Panic e"
  by (cases m) auto

lemma NewInt_chain: "sdk_int_laws l \<Longrightarrow> IsValidInt256 (Some c) \<Longrightarrow> NewIntFromBigInt l c = Done c"
  by (simp add: IsValidInt256_def maxBitLen_def sdk_int_laws_def)

lemma NewLegacyTx_eq:
  assumes "sdk_int_laws l" and "ValidateEthTx tx = None"
  shows "NewLegacyTx l tx = validated (LegacyTx_Validate l (legacy_of l tx)) (legacy_of l tx)"
  using assms assms(2) [unfolded ValidateEthTx_None]
  by (cases "tx_To tx"; cases "tx_Value tx"; cases "tx_GasPrice tx")
    (simp_all add: NewLegacyTx_def validated_def legacy_of_def Let_def
      LegacyTx_SetSignatureValues_def LegacyTx_SetTo_def LegacyTx_SetAmount_def LegacyTx_SetGasPrice_def
      NewInt_chain cong: option.case_cong)

lemma NewAccessListTx_eq:
  assumes "sdk_int_laws l" and "ValidateEthTx tx = None" and "IsValidInt256 (tx_ChainId tx)"
  shows "NewAccessListTx l tx = validated (AccessListTx_Validate l (access_list_of l tx)) (access_list_of l tx)"
  using assms assms(2) [unfolded ValidateEthTx_None]
  by (cases "tx_To tx"; cases "tx_Value tx"; cases "tx_GasPrice tx"; cases "tx_ChainId tx")
    (simp_all add: NewAccessListTx_def validated_def access_list_of_def Let_def
      AccessListTx_SetSignatureValues_def AccessListTx_SetTo_def AccessListTx_SetAmount_def
      AccessListTx_SetGasPrice_def AccessListTx_SetAccesses_def NewInt_chain cong: option.case_cong)

lemma NewDynamicFeeTx_eq:
  assumes "sdk_int_laws l" and "ValidateEthTx tx = None" and "IsValidInt256 (tx_ChainId tx)"
  shows "NewDynamicFeeTx l tx = validated (DynamicFeeTx_Validate l (dynamic_fee_of l tx)) (dynamic_fee_of l tx)"
  using assms assms(2) [unfolded ValidateEthTx_None]
  by (cases "tx_To tx"; cases "tx_Value tx"; cases "tx_GasFeeCap tx"; cases "tx_GasTipCap tx"; cases "tx_ChainId tx")
    (simp_all add: NewDynamicFeeTx_def validated_def dynamic_fee_of_def Let_def
      DynamicFeeTx_SetSignatureValues_def DynamicFeeTx_SetTo_def DynamicFeeTx_SetAmount_def
      DynamicFeeTx_SetGasFeeCap_def DynamicFeeTx_SetGasTipCap_def DynamicFeeTx_SetAccesses_def NewInt_chain cong: option.case_cong)

lemma NewBlobTx_eq:
  assumes "sdk_int_laws l" and "ValidateEthTx tx = None" and "IsValidInt256 (tx_ChainId tx)"
  shows "NewBlobTx l tx = validated (BlobTx_Validate l (blob_of l tx)) (blob_of l tx)"
  using assms assms(2) [unfolded ValidateEthTx_None]
  by (cases "tx_To tx"; cases "tx_Value tx"; cases "tx_GasFeeCap tx"; cases "tx_GasTipCap tx";
      cases "tx_ChainId tx"; cases "tx_BlobGasFeeCap tx"; cases "tx_BlobTxSidecar tx")
    (simp_all add: NewBlobTx_def validated_def blob_of_def Let_def
      BlobTx_SetSignatureValues_def BlobTx_SetTo_def BlobTx_SetAmount_def BlobTx_SetGasFeeCap_def
      BlobTx_SetGasTipCap_def BlobTx_SetAccesses_def BlobTx_SetBlobFeeCap_def BlobTx_SetBlobHashes_def
      BlobTx_SetBlobSidecar_def NewInt_chain cong: option.case_cong)

lemma NewInt_overflow:
  assumes "sdk_int_laws l" and "\<not> IsValidInt256 x"
  shows "\<exists>c e. x = Some c \<and> NewIntFromBigInt l c = Panic e"
proof (cases x)
  case (Some c)
  then have "big_BitLen c > 256" using assms(2) by (simp add: IsValidInt256_def maxBitLen_def)
  then show ?thesis using assms(1) Some by (auto simp: sdk_int_laws_def)
qed (use assms(2) in \<open>simp add: IsValidInt256_def\<close>)

lemma NewAccessListTx_overflow:
  assumes "sdk_int_laws l" and "ValidateEthTx tx = None" and "\<not> IsValidInt256 (tx_ChainId tx)"
  shows "\<exists>e. NewAccessListTx l tx = Panic e"
proof -
  obtain c e where c: "tx_ChainId tx = Some c" "NewIntFromBigInt l c = Panic e"
    using NewInt_overflow [OF assms(1,3)] by blast
  show ?thesis
    using assms assms(2) [unfolded ValidateEthTx_None] c
    by (simp add: NewAccessListTx_def Let_def AccessListTx_SetSignatureValues_def SetConvert_int SetConvert_Done
        del: SetConvertIfPresent_simps)
qed

lemma NewDynamicFeeTx_overflow:
  assumes "sdk_int_laws l" and "ValidateEthTx tx = None" and "\<not> IsValidInt256 (tx_ChainId tx)"
  shows "\<exists>e. NewDynamicFeeTx l tx = Panic e"
proof -
  obtain c e where c: "tx_ChainId tx = Some c" "NewIntFromBigInt l c = Panic e"
    using NewInt_overflow [OF assms(1,3)] by blast
  show ?thesis
    using assms assms(2) [unfolded ValidateEthTx_None] c
    by (simp add: NewDynamicFeeTx_def Let_def DynamicFeeTx_SetSignatureValues_def SetConvert_int SetConvert_Done
        del: SetConvertIfPresent_simps)
qed

lemma NewBlobTx_overflow:
  assumes "sdk_int_laws l" and "ValidateEthTx tx = None" and "\<not> IsValidInt256 (tx_ChainId tx)"
  shows "\<exists>e. NewBlobTx l tx = Panic e"
proof -
  obtain c e where c: "tx_ChainId tx = Some c" "NewIntFromBigInt l c = Panic e"
    using NewInt_overflow [OF assms(1,3)] by blast
  have "SetConvertIfPresent x Done f t = Done (set_if f x t)" for x and f :: "'v \<Rightarrow> 't \<Rightarrow> 't" and t
    by (cases x) auto
  then show ?thesis
    using assms assms(2) [unfolded ValidateEthTx_None] c
    by (simp add: NewBlobTx_def Let_def BlobTx_SetSignatureValues_def SetConvert_int SetConvert_Done
        del: SetConvertIfPresent_simps)
qed

text \<open>A constructor that succeeds returns the message it filled in, validated.\<close>

lemma NewTxDataFromTx_cases:
  assumes "sdk_int_laws l" and "NewTxDataFromTx l tx = Done (Inr d)"
  shows "TxData_Validate l d = Done None \<and> ValidateEthTx tx = None \<and>
    d = (if tx_Type tx = DynamicFeeTxType then TxDynamicFee (dynamic_fee_of l tx)
         else if tx_Type tx = AccessListTxType then TxAccessList (access_list_of l tx)
         else if tx_Type tx = BlobTxType then TxBlob (blob_of l tx)
         else TxLegacy (legacy_of l tx))"
proof (cases "ValidateEthTx tx")
  case (Some e)
  then show ?thesis
    using assms(2)
    by (simp add: NewTxDataFromTx_def NewDynamicFeeTx_def NewAccessListTx_def NewBlobTx_def NewLegacyTx_def
        split: if_splits)
next
  case None
  note ok = None
  show ?thesis
  proof (cases "IsValidInt256 (tx_ChainId tx)")
    case True
    then show ?thesis
      using assms ok
      by (auto simp: NewTxDataFromTx_def NewDynamicFeeTx_eq NewAccessListTx_eq NewBlobTx_eq NewLegacyTx_eq
          go_map_Inr TxData_Validate_def split: if_splits)
  next
    case False
    with assms ok show ?thesis
      using NewDynamicFeeTx_overflow [of l tx] NewAccessListTx_overflow [of l tx] NewBlobTx_overflow [of l tx]
      by (auto simp: NewTxDataFromTx_def NewLegacyTx_eq go_map_Inr TxData_Validate_def split: if_splits)
  qed
qed

lemma hex_to_roundtrip:
  "hex_laws l \<Longrightarrow> length a = 20 \<Longrightarrow> HexToAddress l (addr_Hex l a) = a"
  "hex_laws l \<Longrightarrow> length a = 20 \<Longrightarrow> addr_Hex l a \<noteq> []"
  "hex_laws l \<Longrightarrow> length a = 20 \<Longrightarrow> ValidateAddress l (addr_Hex l a) = None"
  by (auto simp: hex_laws_def ValidateAddress_def)

lemma NewAccessList_Nil [simp]: "NewAccessList l al = [] \<longleftrightarrow> al = []"
  by (simp add: NewAccessList_def)

lemma natural_iff: "natural x \<longleftrightarrow> (\<exists>i. x = Some i \<and> 0 \<le> i)"
  by (auto simp: natural_def split: option.splits)

lemma u256_iff: "u256 x \<longleftrightarrow> (\<exists>i. x = Some i \<and> 0 \<le> i \<and> i < 2 ^ 256)"
  by (auto simp: u256_def split: option.splits)

lemma MustFromBig_u256: "uint256_laws l \<Longrightarrow> u256 x \<Longrightarrow> MustFromBig_nil l x = Done x"
  by (auto simp: u256_iff MustFromBig_nil_def uint256_laws_def)

lemma sidecar_roundtrip:
  assumes "\<forall>sc \<in> set_option x. sidecar_ok sc"
  shows "sidecarToEthSidecar (map_option sidecarConverter x) = Done x"
proof (cases x)
  case (Some sc)
  have sl: "length b = n \<Longrightarrow> slice_to_array n b = Done b" for n b
    by (simp add: slice_to_array_def)
  have "utils_Map (es_Blobs sc) (slice_to_array 131072) = Done (es_Blobs sc)"
    "utils_Map (es_Commitments sc) (slice_to_array 48) = Done (es_Commitments sc)"
    "utils_Map (es_Proofs sc) (slice_to_array 48) = Done (es_Proofs sc)"
    using assms Some by (simp_all add: sidecar_ok_def sl utils_Map_id)
  then show ?thesis
    using Some by (simp add: sidecarToEthSidecar_def sidecarConverter_def)
qed (simp add: sidecarToEthSidecar_def)

lemmas as_ethereum_defs =
  LegacyTx_AsEthereumData_def LegacyTx_GetRawSignatureValues_def LegacyTx_GetTo_def
  AccessListTx_AsEthereumData_def AccessListTx_GetRawSignatureValues_def AccessListTx_GetTo_def
  AccessListTx_GetAccessList_def DynamicFeeTx_AsEthereumData_def DynamicFeeTx_GetRawSignatureValues_def
  DynamicFeeTx_GetTo_def DynamicFeeTx_GetAccessList_def DynamicFeeTx_GetGasTipCap_def
  BlobTx_AsEthereumData_def BlobTx_GetRawSignatureValues_def BlobTx_GetTo_def BlobTx_GetAccessList_def
  BlobTx_GetGasTipCap_def BlobTx_GetBlobHashes_def
  legacy_of_def access_list_of_def dynamic_fee_of_def blob_of_def
  legacy_defs access_list_defs dynamic_fee_defs blob_defs

lemma AsEthereumData_of:
  assumes "hex_laws l" and "eth_tx_ok tx"
  shows "LegacyTx_AsEthereumData l (legacy_of l tx) = EthLegacyTx \<lparr>
        el_Nonce = tx_Nonce tx, el_GasPrice = tx_GasPrice tx, el_Gas = tx_Gas tx, el_To = tx_To tx,
        el_Value = tx_Value tx, el_Data = tx_Data tx, el_V = tx_V tx, el_R = tx_R tx, el_S = tx_S tx\<rparr>"
    and "AccessListTx_AsEthereumData l (access_list_of l tx) = EthAccessListTx \<lparr>
        eal_ChainID = tx_ChainId tx, eal_Nonce = tx_Nonce tx, eal_GasPrice = tx_GasPrice tx,
        eal_Gas = tx_Gas tx, eal_To = tx_To tx, eal_Value = tx_Value tx, eal_Data = tx_Data tx,
        eal_AccessList = tx_AccessList tx, eal_V = tx_V tx, eal_R = tx_R tx, eal_S = tx_S tx\<rparr>"
    and "DynamicFeeTx_AsEthereumData l (dynamic_fee_of l tx) = EthDynamicFeeTx \<lparr>
        edf_ChainID = tx_ChainId tx, edf_Nonce = tx_Nonce tx, edf_GasTipCap = tx_GasTipCap tx,
        edf_GasFeeCap = tx_GasFeeCap tx, edf_Gas = tx_Gas tx, edf_To = tx_To tx, edf_Value = tx_Value tx,
        edf_Data = tx_Data tx, edf_AccessList = tx_AccessList tx,
        edf_V = tx_V tx, edf_R = tx_R tx, edf_S = tx_S tx\<rparr>"
proof -
  obtain v r s where "tx_V tx = Some v" "0 \<le> v" "tx_R tx = Some r" "0 \<le> r" "tx_S tx = Some s" "0 \<le> s"
    using assms by (auto simp: eth_tx_ok_def natural_iff)
  moreover have "\<And>a. tx_To tx = Some a \<Longrightarrow> length a = 20" and "access_list_ok (tx_AccessList tx)"
    using assms(2) by (auto simp: eth_tx_ok_def)
  ultimately show "LegacyTx_AsEthereumData l (legacy_of l tx) = EthLegacyTx \<lparr>
        el_Nonce = tx_Nonce tx, el_GasPrice = tx_GasPrice tx, el_Gas = tx_Gas tx, el_To = tx_To tx,
        el_Value = tx_Value tx, el_Data = tx_Data tx, el_V = tx_V tx, el_R = tx_R tx, el_S = tx_S tx\<rparr>"
    and "AccessListTx_AsEthereumData l (access_list_of l tx) = EthAccessListTx \<lparr>
        eal_ChainID = tx_ChainId tx, eal_Nonce = tx_Nonce tx, eal_GasPrice = tx_GasPrice tx,
        eal_Gas = tx_Gas tx, eal_To = tx_To tx, eal_Value = tx_Value tx, eal_Data = tx_Data tx,
        eal_AccessList = tx_AccessList tx, eal_V = tx_V tx, eal_R = tx_R tx, eal_S = tx_S tx\<rparr>"
    and "DynamicFeeTx_AsEthereumData l (dynamic_fee_of l tx) = EthDynamicFeeTx \<lparr>
        edf_ChainID = tx_ChainId tx, edf_Nonce = tx_Nonce tx, edf_GasTipCap = tx_GasTipCap tx,
        edf_GasFeeCap = tx_GasFeeCap tx, edf_Gas = tx_Gas tx, edf_To = tx_To tx, edf_Value = tx_Value tx,
        edf_Data = tx_Data tx, edf_AccessList = tx_AccessList tx,
        edf_V = tx_V tx, edf_R = tx_R tx, edf_S = tx_S tx\<rparr>"
    using assms(1) ToEthAccessList_NewAccessList [OF assms(1), of "tx_AccessList tx"]
    by (auto simp: as_ethereum_defs hex_to_roundtrip split: option.splits)
qed

lemma AsEthereumData_blob_of:
  assumes "hex_laws l" and "uint256_laws l" and "eth_tx_ok tx" and "tx_Type tx = BlobTxType"
  shows "BlobTx_AsEthereumData l (blob_of l tx) = Done (EthBlobTx \<lparr>
        ebt_ChainID = tx_ChainId tx, ebt_Nonce = tx_Nonce tx, ebt_GasTipCap = tx_GasTipCap tx,
        ebt_GasFeeCap = tx_GasFeeCap tx, ebt_Gas = tx_Gas tx, ebt_To = the (tx_To tx), ebt_Value = tx_Value tx,
        ebt_Data = tx_Data tx, ebt_AccessList = tx_AccessList tx, ebt_BlobFeeCap = tx_BlobGasFeeCap tx,
        ebt_BlobHashes = tx_BlobHashes tx, ebt_Sidecar = tx_BlobTxSidecar tx,
        ebt_V = tx_V tx, ebt_R = tx_R tx, ebt_S = tx_S tx\<rparr>)"
proof -
  have u: "u256 (tx_ChainId tx)" "u256 (tx_GasTipCap tx)" "u256 (tx_GasFeeCap tx)" "u256 (tx_Value tx)"
      "u256 (tx_BlobGasFeeCap tx)" "u256 (tx_V tx)" "u256 (tx_R tx)" "u256 (tx_S tx)"
    and a: "access_list_ok (tx_AccessList tx)" and h: "\<forall>h \<in> set (tx_BlobHashes tx). length h = 32"
    and sc: "\<forall>sc \<in> set_option (tx_BlobTxSidecar tx). sidecar_ok sc"
    using assms(3,4) by (simp_all add: eth_tx_ok_def)
  obtain v r s where vrs: "tx_V tx = Some v" "0 \<le> v" "tx_R tx = Some r" "0 \<le> r" "tx_S tx = Some s" "0 \<le> s"
    using u(6-8) by (auto simp: u256_iff)
  obtain to where to: "tx_To tx = Some to" "length to = 20"
    using assms(3,4) by (auto simp: eth_tx_ok_def)
  have m: "map (copy_into 32) (tx_BlobHashes tx) = tx_BlobHashes tx"
    using h by (simp add: map_idI)
  show ?thesis
    using u vrs to m assms(1,2) ToEthAccessList_NewAccessList [OF assms(1) a] sidecar_roundtrip [OF sc]
    by (simp add: as_ethereum_defs hex_to_roundtrip MustFromBig_u256)
qed

end
