(* ===== verification/EthTx_Props.thy ===== *)
theory EthTx_Props
  imports EthTx_Iface
begin

text \<open>
  The properties of \<open>x/evm/types/ethtx\<close>: what is charged, which transactions are accepted, that
  accepting one and turning it back loses nothing, and how the chain id of a legacy transaction is
  recovered from its signature.
\<close>

section \<open>Concrete transactions\<close>

definition tx_example :: "uint8 \<Rightarrow> eth_Transaction" where
  "tx_example ty = \<lparr>
     tx_Type = ty, tx_Nonce = 7, tx_Data = [1, 2], tx_Gas = 21000, tx_To = Some (replicate 20 0xAB),
     tx_Value = Some 5, tx_GasPrice = Some 100, tx_GasFeeCap = Some 100, tx_GasTipCap = Some 2,
     tx_AccessList = [\<lparr>ea_Address = replicate 20 1, ea_StorageKeys = [replicate 32 2]\<rparr>],
     tx_BlobGasFeeCap = Some 1, tx_BlobHashes = [replicate 32 3], tx_BlobTxSidecar = None,
     tx_ChainId = Some 9789, tx_V = Some 1, tx_R = Some 12345, tx_S = Some 6789\<rparr>"

lemma big_BitLen_le_256: "0 \<le> x \<Longrightarrow> x < 2 ^ 256 \<Longrightarrow> big_BitLen x \<le> 256"
  by (simp add: big_BitLen_le_iff)

lemma tx_example_ok: "eth_tx_ok (tx_example ty)"
  by (simp add: eth_tx_ok_def tx_example_def access_list_ok_def natural_def u256_def)

lemma tx_example_valid: "ValidateEthTx (tx_example ty) = None" "IsValidInt256 (tx_ChainId (tx_example ty))"
  by (simp_all add: ValidateEthTx_None tx_example_def IsValidInt256_iff)

section \<open>Acceptable transactions\<close>

text \<open>Which transactions \<open>NewTxDataFromTx\<close> is meant to accept: no number exceeds 256 bits, prices and the
  amount are present where needed and not negative, the tip is at most the fee cap, and the whole fee fits
  256 bits. Only kinds other than legacy need a chain id.\<close>

definition nonneg_opt :: "bigint \<Rightarrow> bool" where
  "nonneg_opt x \<longleftrightarrow> (\<forall>v \<in> set_option x. 0 \<le> v)"

definition fee_fits :: "bigint \<Rightarrow> uint64 \<Rightarrow> int \<Rightarrow> bool" where
  "fee_fits p g x \<longleftrightarrow> (case p of None \<Rightarrow> False | Some p \<Rightarrow> 0 \<le> p \<and> \<bar>p * int (unat g) + x\<bar> < 2 ^ 256)"

definition tip_le_cap :: "bigint \<Rightarrow> bigint \<Rightarrow> bool" where
  "tip_le_cap t c \<longleftrightarrow> (case (t, c) of (Some t, Some c) \<Rightarrow> 0 \<le> t \<and> t \<le> c | _ \<Rightarrow> False)"

definition eth_acceptable :: "eth_Transaction \<Rightarrow> bool" where
  "eth_acceptable tx \<longleftrightarrow>
     ValidateEthTx tx = None \<and> nonneg_opt (tx_Value tx) \<and>
     (if tx_Type tx = DynamicFeeTxType then
        tip_le_cap (tx_GasTipCap tx) (tx_GasFeeCap tx) \<and> fee_fits (tx_GasFeeCap tx) (tx_Gas tx) 0 \<and> tx_ChainId tx \<noteq> None
      else if tx_Type tx = AccessListTxType then
        fee_fits (tx_GasPrice tx) (tx_Gas tx) 0 \<and> tx_ChainId tx \<noteq> None
      else if tx_Type tx = BlobTxType then
        tip_le_cap (tx_GasTipCap tx) (tx_GasFeeCap tx) \<and> tx_ChainId tx \<noteq> None \<and>
        (\<exists>b. tx_BlobGasFeeCap tx = Some b \<and>
          fee_fits (tx_GasFeeCap tx) (tx_Gas tx) (b * (int (131072 * length (tx_BlobHashes tx)) mod 2 ^ 64)))
      else fee_fits (tx_GasPrice tx) (tx_Gas tx) 0)"

lemma validate_of_iff:
  assumes "hex_laws l" and "\<forall>a \<in> set_option (tx_To tx). length a = 20"
  shows "LegacyTx_Validate l (legacy_of l tx) = Done None \<longleftrightarrow>
      fee_fits (tx_GasPrice tx) (tx_Gas tx) 0 \<and> nonneg_opt (tx_Value tx)"
    and "AccessListTx_Validate l (access_list_of l tx) = Done None \<longleftrightarrow>
      fee_fits (tx_GasPrice tx) (tx_Gas tx) 0 \<and> nonneg_opt (tx_Value tx) \<and> tx_ChainId tx \<noteq> None"
    and "DynamicFeeTx_Validate l (dynamic_fee_of l tx) = Done None \<longleftrightarrow>
      tip_le_cap (tx_GasTipCap tx) (tx_GasFeeCap tx) \<and> fee_fits (tx_GasFeeCap tx) (tx_Gas tx) 0 \<and>
      nonneg_opt (tx_Value tx) \<and> tx_ChainId tx \<noteq> None"
proof -
  have to: "(case tx_To tx of None \<Rightarrow> [] | Some a \<Rightarrow> addr_Hex l a) = [] \<or>
      ValidateAddress l (case tx_To tx of None \<Rightarrow> [] | Some a \<Rightarrow> addr_Hex l a) = None"
    using assms by (auto simp: hex_to_roundtrip split: option.splits)
  have chain: "LegacyTx_GetChainID t \<noteq> None" for t
    by (simp add: LegacyTx_GetChainID_def Let_def)
  show "LegacyTx_Validate l (legacy_of l tx) = Done None \<longleftrightarrow>
      fee_fits (tx_GasPrice tx) (tx_Gas tx) 0 \<and> nonneg_opt (tx_Value tx)"
    using to chain [of "legacy_of l tx"]
    by (cases "tx_GasPrice tx") (auto simp: legacy_defs legacy_of_def fee_fits_def nonneg_opt_def IsValidInt256_iff)
  show "AccessListTx_Validate l (access_list_of l tx) = Done None \<longleftrightarrow>
      fee_fits (tx_GasPrice tx) (tx_Gas tx) 0 \<and> nonneg_opt (tx_Value tx) \<and> tx_ChainId tx \<noteq> None"
    using to
    by (cases "tx_GasPrice tx") (auto simp: access_list_defs access_list_of_def fee_fits_def nonneg_opt_def
        IsValidInt256_iff)
  show "DynamicFeeTx_Validate l (dynamic_fee_of l tx) = Done None \<longleftrightarrow>
      tip_le_cap (tx_GasTipCap tx) (tx_GasFeeCap tx) \<and> fee_fits (tx_GasFeeCap tx) (tx_Gas tx) 0 \<and>
      nonneg_opt (tx_Value tx) \<and> tx_ChainId tx \<noteq> None"
    using to
    by (cases "tx_GasFeeCap tx"; cases "tx_GasTipCap tx")
      (auto simp: dynamic_fee_defs dynamic_fee_of_def fee_fits_def tip_le_cap_def nonneg_opt_def IsValidInt256_iff)
qed

lemma uint_BlobGas: "uint (BlobTx_BlobGas t) = int (131072 * length (bt_BlobHashes t)) mod 2 ^ 64"
proof -
  have "BlobTx_BlobGas t = word_of_nat (131072 * length (bt_BlobHashes t))"
    by (simp add: BlobTx_BlobGas_def)
  then show ?thesis by (simp only: unsigned_of_nat take_bit_eq_mod) (simp add: zmod_int)
qed

lemma validate_blob_of_iff:
  assumes "hex_laws l" and "\<forall>a \<in> set_option (tx_To tx). length a = 20"
  shows "BlobTx_Validate l (blob_of l tx) = Done None \<longleftrightarrow>
      tip_le_cap (tx_GasTipCap tx) (tx_GasFeeCap tx) \<and> nonneg_opt (tx_Value tx) \<and> tx_ChainId tx \<noteq> None \<and>
      (\<exists>b. tx_BlobGasFeeCap tx = Some b \<and>
        fee_fits (tx_GasFeeCap tx) (tx_Gas tx) (b * (int (131072 * length (tx_BlobHashes tx)) mod 2 ^ 64)))"
proof -
  have to: "(case tx_To tx of None \<Rightarrow> [] | Some a \<Rightarrow> addr_Hex l a) = [] \<or>
      ValidateAddress l (case tx_To tx of None \<Rightarrow> [] | Some a \<Rightarrow> addr_Hex l a) = None"
    using assms by (auto simp: hex_to_roundtrip split: option.splits)
  have gas: "uint (BlobTx_BlobGas (blob_of l tx)) = int (131072 * length (tx_BlobHashes tx)) mod 2 ^ 64"
    unfolding uint_BlobGas by (simp add: blob_of_def)
  have f: "bt_GasTipCap (blob_of l tx) = tx_GasTipCap tx" "bt_GasFeeCap (blob_of l tx) = tx_GasFeeCap tx"
    "bt_BlobFeeCap (blob_of l tx) = tx_BlobGasFeeCap tx" "bt_GasLimit (blob_of l tx) = tx_Gas tx"
    "bt_Amount (blob_of l tx) = tx_Value tx" "bt_ChainID (blob_of l tx) = tx_ChainId tx"
    "bt_To (blob_of l tx) = (case tx_To tx of None \<Rightarrow> [] | Some a \<Rightarrow> addr_Hex l a)"
    by (simp_all add: blob_of_def)
  show ?thesis
    using to
    by (cases "tx_GasFeeCap tx"; cases "tx_GasTipCap tx"; cases "tx_BlobGasFeeCap tx")
      (auto simp: blob_defs f gas fee_fits_def tip_le_cap_def nonneg_opt_def IsValidInt256_iff
        simp del: of_nat_mult)
qed

lemma validate_examples:
  "DynamicFeeTx_Validate lib_lower (dynamic_fee_of lib_lower (tx_example 2)) = Done None"
  "BlobTx_Validate lib_lower (blob_of lib_lower (tx_example 3)) = Done None"
  using validate_of_iff(3) [of lib_lower "tx_example 2"] validate_blob_of_iff [of lib_lower "tx_example 3"]
  by (simp_all add: tx_example_def tip_le_cap_def fee_fits_def nonneg_opt_def)

section \<open>Fees\<close>

text \<open>C20 (effective_cost_le_cost): for a transaction that passes \<open>Validate\<close> and any base fee that is not
  negative, no fee method panics, the effective gas price lies between 0 and the fee cap, the effective
  fee is at most the fee, the effective cost at most the cost, both costs exceed their fee by the same
  transferred amount, and the fee fits 256 bits.\<close>

theorem effective_cost_le_cost:
  assumes "TxData_Validate l tx = Done None" and "0 \<le> b"
  shows "\<exists>cap p f ef c ec. TxData_GetGasFeeCap tx = Done (Some cap) \<and>
    TxData_EffectiveGasPrice (Some b) tx = Done (Some p) \<and> 0 \<le> p \<and> p \<le> cap \<and>
    TxData_Fee tx = Done f \<and> TxData_EffectiveFee (Some b) tx = Done ef \<and> ef \<le> f \<and> \<bar>f\<bar> < 2 ^ 256 \<and>
    TxData_Cost tx = Done c \<and> TxData_EffectiveCost (Some b) tx = Done ec \<and> ec \<le> c \<and> c - f = ec - ef \<and> f \<le> c"
  using assms legacy_fee.effective_bounds [of l _ b] access_list_fee.effective_bounds [of l _ b]
    dynamic_fee.effective_bounds [of l _ b] blob_fee.effective_bounds [of l _ b]
  by (cases tx) (simp_all add: TxData_Validate_def TxData_GetGasFeeCap_def TxData_EffectiveGasPrice_def
      TxData_Fee_def TxData_EffectiveFee_def TxData_Cost_def TxData_EffectiveCost_def)

theorem effective_cost_le_cost_witness:
  "\<exists>c ec. TxData_Cost (TxBlob (blob_of lib_lower (tx_example 3))) = Done c \<and>
    TxData_EffectiveCost (Some 10) (TxBlob (blob_of lib_lower (tx_example 3))) = Done ec \<and> ec \<le> c"
proof -
  have "TxData_Validate lib_lower (TxBlob (blob_of lib_lower (tx_example 3))) = Done None"
    by (simp add: TxData_Validate_def validate_examples)
  from effective_cost_le_cost [OF this, of 10] show ?thesis by auto
qed

section \<open>Accepting a transaction\<close>

text \<open>C21 (NewTxDataFromTx_roundtrip): a transaction that \<open>NewTxDataFromTx\<close> accepts is turned back by
  \<open>AsEthereumData\<close> into the same go-ethereum data: every field, the access list, the blob sidecar and
  the signature are unchanged, and the conversion does not panic.\<close>

theorem NewTxDataFromTx_roundtrip:
  assumes "hex_laws l" and "sdk_int_laws l" and "uint256_laws l" and "eth_tx_ok tx"
    and "NewTxDataFromTx l tx = Done (Inr d)"
  shows "TxData_AsEthereumData l d = Done (eth_inner tx)"
  using NewTxDataFromTx_cases [OF assms(2,5)] AsEthereumData_of [OF assms(1,4)]
    AsEthereumData_blob_of [OF assms(1,3,4)]
  by (auto simp: TxData_AsEthereumData_def eth_inner_def)

theorem NewTxDataFromTx_roundtrip_witness:
  "NewTxDataFromTx lib_lower (tx_example 2) = Done (Inr (TxDynamicFee (dynamic_fee_of lib_lower (tx_example 2)))) \<and>
   TxData_AsEthereumData lib_lower (TxDynamicFee (dynamic_fee_of lib_lower (tx_example 2))) =
     Done (eth_inner (tx_example 2))"
proof -
  have "NewTxDataFromTx lib_lower (tx_example 2) = Done (Inr (TxDynamicFee (dynamic_fee_of lib_lower (tx_example 2))))"
    by (simp add: NewTxDataFromTx_def NewDynamicFeeTx_eq tx_example_valid validated_def validate_examples)
      (simp add: tx_example_def)
  with NewTxDataFromTx_roundtrip [OF _ _ _ tx_example_ok this] show ?thesis by simp
qed

text \<open>C22 (NewTxDataFromTx_accepts_iff): \<open>NewTxDataFromTx\<close> accepts a transaction exactly when it is
  acceptable and, for every kind but legacy, its chain id fits 256 bits.\<close>

theorem NewTxDataFromTx_accepts_iff:
  assumes "hex_laws l" and "sdk_int_laws l" and "\<forall>a \<in> set_option (tx_To tx). length a = 20"
  shows "(\<exists>d. NewTxDataFromTx l tx = Done (Inr d)) \<longleftrightarrow>
    eth_acceptable tx \<and> (tx_Type tx \<in> {AccessListTxType, DynamicFeeTxType, BlobTxType} \<longrightarrow> IsValidInt256 (tx_ChainId tx))"
proof (cases "ValidateEthTx tx = None")
  case False
  then show ?thesis
    using NewTxDataFromTx_cases [OF assms(2)] by (auto simp: eth_acceptable_def)
next
  case True
  note iffs = validate_of_iff [OF assms(1,3)] validate_blob_of_iff [OF assms(1,3)]
  show ?thesis
  proof (cases "IsValidInt256 (tx_ChainId tx)")
    case valid: True
    show ?thesis
      using True valid assms(2)
      by (auto simp: NewTxDataFromTx_def eth_acceptable_def NewDynamicFeeTx_eq NewAccessListTx_eq NewBlobTx_eq
          NewLegacyTx_eq go_map_Inr iffs)
  next
    case invalid: False
    show ?thesis
      using True invalid assms(2) NewDynamicFeeTx_overflow [of l tx] NewAccessListTx_overflow [of l tx]
        NewBlobTx_overflow [of l tx]
      by (auto simp: NewTxDataFromTx_def eth_acceptable_def NewLegacyTx_eq go_map_Inr iffs)
  qed
qed

theorem NewTxDataFromTx_accepts_iff_witness:
  "(\<exists>d. NewTxDataFromTx lib_lower (tx_example 3) = Done (Inr d)) \<and>
   \<not> (\<exists>d. NewTxDataFromTx lib_lower ((tx_example 2)\<lparr>tx_GasTipCap := Some 101\<rparr>) = Done (Inr d))"
proof -
  have "eth_acceptable (tx_example 3)"
    by (simp add: eth_acceptable_def tx_example_valid)
      (simp add: tx_example_def tip_le_cap_def fee_fits_def nonneg_opt_def)
  moreover have "\<not> eth_acceptable ((tx_example 2)\<lparr>tx_GasTipCap := Some 101\<rparr>)"
    by (simp add: eth_acceptable_def tx_example_def tip_le_cap_def)
  moreover have "\<forall>a \<in> set_option (tx_To (tx_example ty)). length a = 20" for ty
    by (simp add: tx_example_def)
  ultimately show ?thesis
    using NewTxDataFromTx_accepts_iff [of lib_lower "tx_example 3"] tx_example_valid [of 3]
      NewTxDataFromTx_accepts_iff [of lib_lower "(tx_example 2)\<lparr>tx_GasTipCap := Some 101\<rparr>"]
    by simp
qed

text \<open>C23 (NewTxDataFromTx_panics_iff): on a transaction that passes \<open>ValidateEthTx\<close>, \<open>NewTxDataFromTx\<close>
  panics exactly in two cases: a chain id of more than 256 bits in a kind other than legacy, and a blob
  transaction without a blob fee cap whose tip cap is there, not negative and not above its fee cap (otherwise it returns an error).\<close>

theorem NewTxDataFromTx_panics_iff:
  assumes "sdk_int_laws l" and "ValidateEthTx tx = None"
  shows "(\<exists>e. NewTxDataFromTx l tx = Panic e) \<longleftrightarrow>
    tx_Type tx \<in> {AccessListTxType, DynamicFeeTxType, BlobTxType} \<and> \<not> IsValidInt256 (tx_ChainId tx) \<or>
    tx_Type tx = BlobTxType \<and> tx_BlobGasFeeCap tx = None \<and> tip_le_cap (tx_GasTipCap tx) (tx_GasFeeCap tx)"
proof (cases "IsValidInt256 (tx_ChainId tx)")
  case True
  have "\<not> (\<exists>e. LegacyTx_Validate l t = Panic e)" for t
    by (auto simp: legacy_defs split: option.splits)
  moreover have "\<not> (\<exists>e. AccessListTx_Validate l t = Panic e)" for t
    by (auto simp: access_list_defs split: option.splits)
  moreover have "\<not> (\<exists>e. DynamicFeeTx_Validate l t = Panic e)" for t
    by (auto simp: dynamic_fee_defs split: option.splits)
  moreover have "(\<exists>e. BlobTx_Validate l t = Panic e) \<longleftrightarrow>
      bt_BlobFeeCap t = None \<and> tip_le_cap (bt_GasTipCap t) (bt_GasFeeCap t)" for t
    by (cases "bt_BlobFeeCap t") (auto simp: blob_defs tip_le_cap_def split: option.splits)
  ultimately show ?thesis
    using True assms
    by (auto simp: NewTxDataFromTx_def NewDynamicFeeTx_eq NewAccessListTx_eq NewBlobTx_eq NewLegacyTx_eq
        go_map_Panic validated_Panic blob_of_def)
next
  case False
  moreover have "\<not> (\<exists>e. LegacyTx_Validate l t = Panic e)" for t
    by (auto simp: legacy_defs split: option.splits)
  ultimately show ?thesis
    using assms NewDynamicFeeTx_overflow [of l tx] NewAccessListTx_overflow [of l tx] NewBlobTx_overflow [of l tx]
    by (auto simp: NewTxDataFromTx_def NewLegacyTx_eq go_map_Panic validated_Panic)
qed

theorem NewTxDataFromTx_panics_iff_witness:
  "(\<exists>e. NewTxDataFromTx lib_lower ((tx_example 1)\<lparr>tx_ChainId := Some (2 ^ 256)\<rparr>) = Panic e) \<and>
   (\<exists>e. NewTxDataFromTx lib_lower ((tx_example 3)\<lparr>tx_BlobGasFeeCap := None\<rparr>) = Panic e) \<and>
   \<not> (\<exists>e. NewTxDataFromTx lib_lower (tx_example 3) = Panic e)"
proof -
  have "ValidateEthTx ((tx_example 1)\<lparr>tx_ChainId := Some (2 ^ 256)\<rparr>) = None"
    and "ValidateEthTx ((tx_example 3)\<lparr>tx_BlobGasFeeCap := None\<rparr>) = None"
    by (simp_all add: ValidateEthTx_None tx_example_def IsValidInt256_iff)
  from NewTxDataFromTx_panics_iff [OF _ this(1), of lib_lower] NewTxDataFromTx_panics_iff [OF _ this(2), of lib_lower]
    NewTxDataFromTx_panics_iff [OF _ tx_example_valid(1), of lib_lower 3]
  show ?thesis
    by (simp add: tx_example_def IsValidInt256_iff tip_le_cap_def)
qed

section \<open>The chain id of a legacy transaction\<close>

text \<open>A replay-protected signature \<open>v = 35 + 2 * c + y\<close> gives back the chain
  id \<open>c\<close>, of any size; \<open>v = 27\<close> and \<open>v = 28\<close> give 0; and any other value below 35 wraps around at 64 bits
  to a chain id near \<open>2 ^ 63\<close>.\<close>

lemma LegacyTx_GetChainID_spec:
  assumes "0 \<le> v" and "lt_V tx = big_Bytes v"
  shows "LegacyTx_GetChainID tx =
    Some (if v = 27 \<or> v = 28 then 0 else if v < 35 then (2 ^ 64 + v - 35) div 2 else (v - 35) div 2)"
proof -
  have v: "fst (LegacyTx_GetRawSignatureValues tx) = v"
    using assms by (simp add: LegacyTx_GetRawSignatureValues_def rawSignatureValues_def big_SetBytes_Bytes)
  show ?thesis
  proof (cases "v < 2 ^ 64")
    case True
    then have bit: "big_BitLen v \<le> 64" using assms(1) by (simp add: big_BitLen_le_iff)
    have u: "uint (word_of_int v :: uint64) = v"
      using True assms(1) by (simp add: uint_word_of_int)
    have "(word_of_int v :: uint64) = 27 \<longleftrightarrow> v = 27" "(word_of_int v :: uint64) = 28 \<longleftrightarrow> v = 28"
      using u by (simp_all add: word_uint_eq_iff)
    moreover have "(v - 35) mod 2 ^ 64 = 2 ^ 64 + v - 35" if "v < 35"
      using that assms(1) mod_add_self2 [of "v - 35" "2 ^ 64"] mod_pos_pos_trivial [of "v - 35 + 2 ^ 64" "2 ^ 64"] by simp
    then have "uint ((word_of_int v - 35 :: uint64) div 2) = (if v < 35 then 2 ^ 64 + v - 35 else v - 35) div 2"
      using True assms(1) u by (simp add: uint_div uint_word_ariths)
    ultimately show ?thesis
      using bit v by (auto simp: LegacyTx_GetChainID_def Let_def)
  next
    case False
    then have "\<not> big_BitLen v \<le> 64" using assms(1) by (simp add: big_BitLen_le_iff)
    with False v show ?thesis by (simp add: LegacyTx_GetChainID_def Let_def)
  qed
qed

end
