(* ===== verification/Utils_Collections.thy ===== *)
theory Utils_Collections
  imports Tabi_Prelude "HOL-Library.AList"
begin

text \<open>
  \<open>utils/datastructures\<close>: \<open>TypedSyncMap\<close>, \<open>TypedNestedSyncMap\<close> and \<open>SyncSet\<close>. The locks make every
  method atomic, so a method is one function on the state. A \<open>sync.Map\<close> is an association list in an
  unspecified order; \<open>Range\<close> sorts the keys before it visits them. The inner maps of a nested map are
  reached through pointers that only the nested map holds, so updating one in place stores it back.
\<close>

section \<open>\<open>TypedSyncMap\<close>\<close>

type_synonym ('k, 'v) TypedSyncMap = "('k \<times> 'v) list"

definition NewTypedSyncMap :: "('k, 'v) TypedSyncMap" where
  "NewTypedSyncMap = []"

definition tsm_Load :: "('k, 'v) TypedSyncMap \<Rightarrow> 'k \<Rightarrow> 'v option" where
  "tsm_Load m key = map_of m key"

definition tsm_Store :: "('k, 'v) TypedSyncMap \<Rightarrow> 'k \<Rightarrow> 'v \<Rightarrow> ('k, 'v) TypedSyncMap" where
  "tsm_Store m key v = AList.update key v m"

definition tsm_LoadOrStore :: "('k, 'v) TypedSyncMap \<Rightarrow> 'k \<Rightarrow> 'v \<Rightarrow> ('v \<times> bool) \<times> ('k, 'v) TypedSyncMap" where
  "tsm_LoadOrStore m key v =
     (case map_of m key of Some a \<Rightarrow> ((a, True), m) | None \<Rightarrow> ((v, False), AList.update key v m))"

definition tsm_Delete :: "('k, 'v) TypedSyncMap \<Rightarrow> 'k \<Rightarrow> ('k, 'v) TypedSyncMap" where
  "tsm_Delete m key = AList.delete key m"

text \<open>\<open>Range\<close> with a callback on a state \<open>'s\<close>; the result of the callback is not looked at.\<close>

definition tsm_Range :: "('k :: linorder, 'v) TypedSyncMap \<Rightarrow> ('k \<Rightarrow> 'v \<Rightarrow> 's \<Rightarrow> bool \<times> 's) \<Rightarrow> 's \<Rightarrow> 's" where
  "tsm_Range m f s =
     fold (\<lambda>key s. case map_of m key of Some v \<Rightarrow> snd (f key v s) | None \<Rightarrow> s) (sort (map fst m)) s"

definition tsm_Len :: "('k :: linorder, 'v) TypedSyncMap \<Rightarrow> nat" where
  "tsm_Len m = tsm_Range m (\<lambda>_ _ n. (True, Suc n)) 0"

definition tsm_DeepCopy :: "('k :: linorder, 'v) TypedSyncMap \<Rightarrow> ('v \<Rightarrow> 'v) \<Rightarrow> ('k, 'v) TypedSyncMap" where
  "tsm_DeepCopy m copier =
     tsm_Range m (\<lambda>key v c. (True, tsm_Store c key (copier v))) NewTypedSyncMap"

definition tsm_DeepApply :: "('k :: linorder, 'v) TypedSyncMap \<Rightarrow> ('v \<Rightarrow> 's \<Rightarrow> 's) \<Rightarrow> 's \<Rightarrow> 's" where
  "tsm_DeepApply m toApply s = tsm_Range m (\<lambda>_ v s. (True, toApply v s)) s"

text \<open>Every key is stored once.\<close>

definition tsm_ok :: "('k, 'v) TypedSyncMap \<Rightarrow> bool" where
  "tsm_ok m \<longleftrightarrow> distinct (map fst m)"

lemma tsm_ok_ops [simp]:
  "tsm_ok NewTypedSyncMap"
  "tsm_ok m \<Longrightarrow> tsm_ok (tsm_Store m k v)"
  "tsm_ok m \<Longrightarrow> tsm_ok (snd (tsm_LoadOrStore m k v))"
  "tsm_ok m \<Longrightarrow> tsm_ok (tsm_Delete m k)"
  by (auto simp: tsm_ok_def NewTypedSyncMap_def tsm_Store_def tsm_LoadOrStore_def tsm_Delete_def distinct_update
      distinct_delete split: option.splits)

lemma tsm_Load_ops [simp]:
  "tsm_Load NewTypedSyncMap k = None"
  "tsm_Load (tsm_Store m k v) k' = (if k' = k then Some v else tsm_Load m k')"
  "tsm_Load (tsm_Delete m k) k' = (if k' = k then None else tsm_Load m k')"
  by (auto simp: tsm_Load_def NewTypedSyncMap_def tsm_Store_def tsm_Delete_def update_conv' delete_conv')

lemma tsm_Load_LoadOrStore:
  "tsm_LoadOrStore m k v = ((a, loaded), m') \<Longrightarrow>
     loaded = (tsm_Load m k \<noteq> None) \<and> a = (case tsm_Load m k of Some x \<Rightarrow> x | None \<Rightarrow> v) \<and>
     tsm_Load m' = (tsm_Load m)(k \<mapsto> a)"
  by (auto simp: tsm_LoadOrStore_def tsm_Load_def update_conv' fun_eq_iff split: option.splits)

text \<open>\<open>Range\<close> visits the entries in ascending order of the keys.\<close>

lemma tsm_Range_fold:
  assumes "tsm_ok m"
  shows "tsm_Range m f s = fold (\<lambda>(k, v) s. snd (f k v s)) (sort_key fst m) s"
proof -
  have "sort (map fst m) = map fst (sort_key fst m)"
    using assms by (intro sorted_distinct_set_unique) (auto simp: tsm_ok_def distinct_map dest: inj_on_subset)
  moreover have "fold (\<lambda>key s. case map_of m key of Some v \<Rightarrow> snd (f key v s) | None \<Rightarrow> s) (map fst xs) s
      = fold (\<lambda>(k, v) s. snd (f k v s)) xs s" if "set xs \<subseteq> set m" for xs s
    using that assms by (induction xs arbitrary: s) (auto simp: tsm_ok_def)
  ultimately show ?thesis by (simp add: tsm_Range_def)
qed

lemma tsm_Len_length: "tsm_ok m \<Longrightarrow> tsm_Len m = length m"
proof -
  have "fold (\<lambda>(k, v) s. snd (True, Suc s)) xs n = n + length xs" for xs :: "('a \<times> 'b) list" and n
    by (induction xs arbitrary: n) auto
  then show "tsm_ok m \<Longrightarrow> ?thesis" by (simp add: tsm_Len_def tsm_Range_fold split_def)
qed

lemma tsm_fold_Store:
  "map_of (fold (\<lambda>(k, v) c. tsm_Store c k (f v)) xs c) k =
     (case map_of (rev xs) k of Some v \<Rightarrow> Some (f v) | None \<Rightarrow> map_of c k)"
  by (induction xs arbitrary: c) (auto simp: tsm_Store_def update_conv' map_add_def split: option.splits)

lemma tsm_Load_DeepCopy:
  assumes "tsm_ok m"
  shows "tsm_Load (tsm_DeepCopy m copier) k = map_option copier (tsm_Load m k)"
proof -
  have "map_of (rev (sort_key fst m)) = map_of m"
    using assms by (intro map_of_eqI) (auto simp: tsm_ok_def distinct_map rev_map [symmetric]
        map_of_eq_Some_iff dest: inj_on_subset)
  then show ?thesis
    using tsm_fold_Store [of copier "sort_key fst m" "[]" k] assms
    by (auto simp: tsm_DeepCopy_def tsm_Load_def tsm_Range_fold NewTypedSyncMap_def split_def split: option.splits)
qed

section \<open>\<open>TypedNestedSyncMap\<close>\<close>

type_synonym ('k1, 'k2, 'v) TypedNestedSyncMap = "('k1, ('k2, 'v) TypedSyncMap) TypedSyncMap"

definition NewTypedNestedSyncMap :: "('k1, 'k2, 'v) TypedNestedSyncMap" where
  "NewTypedNestedSyncMap = NewTypedSyncMap"

definition LoadNested :: "('k1, 'k2, 'v) TypedNestedSyncMap \<Rightarrow> 'k1 \<Rightarrow> 'k2 \<Rightarrow> 'v option" where
  "LoadNested m key1 key2 =
     (case tsm_Load m key1 of None \<Rightarrow> None | Some nestedMap \<Rightarrow> tsm_Load nestedMap key2)"

definition StoreNested :: "('k1, 'k2, 'v) TypedNestedSyncMap \<Rightarrow> 'k1 \<Rightarrow> 'k2 \<Rightarrow> 'v \<Rightarrow> ('k1, 'k2, 'v) TypedNestedSyncMap" where
  "StoreNested m key1 key2 v =
     (let ((nestedMap, _), m1) = tsm_LoadOrStore m key1 NewTypedSyncMap in
      tsm_Store m1 key1 (tsm_Store nestedMap key2 v))"

definition LoadOrStoreNested ::
    "('k1, 'k2, 'v) TypedNestedSyncMap \<Rightarrow> 'k1 \<Rightarrow> 'k2 \<Rightarrow> 'v \<Rightarrow> ('v \<times> bool) \<times> ('k1, 'k2, 'v) TypedNestedSyncMap" where
  "LoadOrStoreNested m key1 key2 v =
     (let ((nestedMap, _), m1) = tsm_LoadOrStore m key1 NewTypedSyncMap;
          (r, nestedMap1) = tsm_LoadOrStore nestedMap key2 v in
      (r, tsm_Store m1 key1 nestedMap1))"

definition DeleteNested ::
    "('k1, 'k2 :: linorder, 'v) TypedNestedSyncMap \<Rightarrow> 'k1 \<Rightarrow> 'k2 \<Rightarrow> ('k1, 'k2, 'v) TypedNestedSyncMap" where
  "DeleteNested m key1 key2 =
     (case tsm_Load m key1 of None \<Rightarrow> m
      | Some nestedMap \<Rightarrow>
          let nestedMap1 = tsm_Delete nestedMap key2; m1 = tsm_Store m key1 nestedMap1 in
          if tsm_Len nestedMap1 = 0 then tsm_Delete m1 key1 else m1)"

definition Nested_DeepCopy ::
    "('k1 :: linorder, 'k2 :: linorder, 'v) TypedNestedSyncMap \<Rightarrow> ('v \<Rightarrow> 'v) \<Rightarrow> ('k1, 'k2, 'v) TypedNestedSyncMap" where
  "Nested_DeepCopy m copier =
     tsm_Range m (\<lambda>key v c. (True, tsm_Store c key (tsm_DeepCopy v copier))) NewTypedNestedSyncMap"

definition Nested_DeepApply ::
    "('k1 :: linorder, 'k2 :: linorder, 'v) TypedNestedSyncMap \<Rightarrow> ('v \<Rightarrow> 's \<Rightarrow> 's) \<Rightarrow> 's \<Rightarrow> 's" where
  "Nested_DeepApply m toApply s = tsm_Range m (\<lambda>_ v s. (True, tsm_DeepApply v toApply s)) s"

text \<open>Inner maps are well formed and never empty.\<close>

definition nested_ok :: "('k1, 'k2, 'v) TypedNestedSyncMap \<Rightarrow> bool" where
  "nested_ok m \<longleftrightarrow> tsm_ok m \<and> (\<forall>k n. tsm_Load m k = Some n \<longrightarrow> tsm_ok n \<and> n \<noteq> [])"

lemma tsm_Store_ne [simp]: "tsm_Store m k v \<noteq> []"
  by (cases m) (auto simp: tsm_Store_def)

lemma tsm_LoadOrStore_ne: "snd (tsm_LoadOrStore m k v) \<noteq> []"
  by (cases m) (auto simp: tsm_LoadOrStore_def split: option.splits)

lemma LoadOrStore_new:
  "nested_ok m \<Longrightarrow> tsm_LoadOrStore m k NewTypedSyncMap = ((n, ld), m') \<Longrightarrow>
     tsm_ok n \<and> tsm_ok m' \<and> (\<forall>k2. tsm_Load n k2 = LoadNested m k k2) \<and> (\<forall>k'. k' \<noteq> k \<longrightarrow> tsm_Load m' k' = tsm_Load m k')"
  using tsm_ok_ops(3) [of m k NewTypedSyncMap] tsm_Load_LoadOrStore [of m k NewTypedSyncMap n ld m']
  by (auto simp: nested_ok_def LoadNested_def split: option.splits)

lemma StoreNested_ok: "nested_ok m \<Longrightarrow> nested_ok (StoreNested m k1 k2 v)"
proof -
  assume ok: "nested_ok m"
  obtain n ld m' where e: "tsm_LoadOrStore m k1 NewTypedSyncMap = ((n, ld), m')"
    by (metis surj_pair)
  from LoadOrStore_new [OF ok e] show ?thesis
    using ok e by (auto simp: StoreNested_def nested_ok_def)
qed

lemma LoadOrStoreNested_ok: "nested_ok m \<Longrightarrow> nested_ok (snd (LoadOrStoreNested m k1 k2 v))"
proof -
  assume ok: "nested_ok m"
  obtain n ld m' where e: "tsm_LoadOrStore m k1 NewTypedSyncMap = ((n, ld), m')"
    by (metis surj_pair)
  obtain r n' where e2: "tsm_LoadOrStore n k2 v = (r, n')"
    by (metis surj_pair)
  note new = LoadOrStore_new [OF ok e]
  have "tsm_ok n'" "n' \<noteq> []"
    using new e2 tsm_ok_ops(3) [of n k2 v] tsm_LoadOrStore_ne [of n k2 v] by auto
  with new show ?thesis
    using ok e e2 by (auto simp: LoadOrStoreNested_def nested_ok_def)
qed

lemma DeleteNested_ok: "nested_ok m \<Longrightarrow> nested_ok (DeleteNested m k1 k2)"
  by (auto simp: DeleteNested_def nested_ok_def tsm_Len_length Let_def split: option.splits if_splits)

section \<open>\<open>SyncSet\<close>\<close>

text \<open>The keys of \<open>dict\<close> in the order in which a range over it enumerates them.\<close>

type_synonym 't SyncSet = "'t list"

definition NewSyncSet :: "'t list \<Rightarrow> 't SyncSet" where
  "NewSyncSet initial = fold List.insert initial []"

definition ss_Add :: "'t SyncSet \<Rightarrow> 't \<Rightarrow> 't SyncSet" where
  "ss_Add s v = List.insert v s"

definition ss_AddAll :: "'t SyncSet \<Rightarrow> 't list \<Rightarrow> 't SyncSet" where
  "ss_AddAll s vals = fold (\<lambda>v s. ss_Add s v) vals s"

definition ss_Remove :: "'t SyncSet \<Rightarrow> 't \<Rightarrow> 't SyncSet" where
  "ss_Remove s v = removeAll v s"

definition ss_RemoveAll :: "'t SyncSet \<Rightarrow> 't list \<Rightarrow> 't SyncSet" where
  "ss_RemoveAll s vals = fold removeAll vals s"

definition ss_Contains :: "'t SyncSet \<Rightarrow> 't \<Rightarrow> bool" where
  "ss_Contains s v \<longleftrightarrow> v \<in> set s"

definition ss_Size :: "'t SyncSet \<Rightarrow> nat" where
  "ss_Size s = length s"

text \<open>\<open>sort.SliceStable\<close>: a stable sort by insertion, with the comparator as the strict order.\<close>

fun insert_stable :: "('t \<Rightarrow> 't \<Rightarrow> bool) \<Rightarrow> 't \<Rightarrow> 't list \<Rightarrow> 't list" where
  "insert_stable lt x [] = [x]"
| "insert_stable lt x (y # ys) = (if lt y x then y # insert_stable lt x ys else x # y # ys)"

definition SliceStable :: "('t \<Rightarrow> 't \<Rightarrow> bool) \<Rightarrow> 't list \<Rightarrow> 't list" where
  "SliceStable lt xs = foldr (insert_stable lt) xs []"

definition ToOrderedSlice :: "'t SyncSet \<Rightarrow> ('t \<Rightarrow> 't \<Rightarrow> bool) \<Rightarrow> 't list" where
  "ToOrderedSlice s comparator = SliceStable comparator s"

lemma set_fold_insert: "set (fold List.insert xs s) = set xs \<union> set s"
  by (induction xs arbitrary: s) auto

lemma distinct_fold_insert: "distinct s \<Longrightarrow> distinct (fold List.insert xs s)"
  by (induction xs arbitrary: s) auto

lemma set_fold_removeAll: "set (fold removeAll xs s) = set s - set xs"
  by (induction xs arbitrary: s) auto

lemma distinct_fold_removeAll: "distinct s \<Longrightarrow> distinct (fold removeAll xs s)"
  by (induction xs arbitrary: s) (auto simp: distinct_removeAll)

lemma ss_ops:
  "distinct (NewSyncSet xs)" "set (NewSyncSet xs) = set xs"
  "distinct s \<Longrightarrow> distinct (ss_AddAll s xs)" "set (ss_AddAll s xs) = set s \<union> set xs"
  "distinct s \<Longrightarrow> distinct (ss_RemoveAll s xs)" "set (ss_RemoveAll s xs) = set s - set xs"
  "distinct s \<Longrightarrow> ss_Size s = card (set s)"
  by (auto simp: NewSyncSet_def ss_Add_def ss_AddAll_def ss_RemoveAll_def ss_Size_def set_fold_insert
      distinct_fold_insert set_fold_removeAll distinct_fold_removeAll distinct_card)

lemma insert_stable_insort: "insert_stable (<) x xs = insort x (xs :: 'a :: linorder list)"
  by (induction xs) (auto simp: not_less)

lemma SliceStable_sort: "SliceStable (<) xs = sort (xs :: 'a :: linorder list)"
  by (simp add: SliceStable_def sort_key_def insert_stable_insort)
    (metis insert_stable_insort ext)

section \<open>Properties\<close>

definition nested_abs :: "('k1, 'k2, 'v) TypedNestedSyncMap \<Rightarrow> 'k1 \<times> 'k2 \<Rightarrow> 'v option" where
  "nested_abs m = (\<lambda>(k1, k2). LoadNested m k1 k2)"

lemma nested_abs_Store:
  assumes "nested_ok m"
  shows "nested_abs (StoreNested m k1 k2 v) = (nested_abs m)((k1, k2) \<mapsto> v)"
proof -
  obtain n ld m' where e: "tsm_LoadOrStore m k1 NewTypedSyncMap = ((n, ld), m')"
    by (metis surj_pair)
  from LoadOrStore_new [OF assms e] show ?thesis
    using e by (auto simp: StoreNested_def nested_abs_def LoadNested_def fun_eq_iff)
qed

lemma nested_abs_LoadOrStore:
  assumes "nested_ok m"
  shows "nested_abs (snd (LoadOrStoreNested m k1 k2 v)) =
      (nested_abs m)((k1, k2) \<mapsto> fst (fst (LoadOrStoreNested m k1 k2 v)))"
    and "fst (LoadOrStoreNested m k1 k2 v) =
      (case nested_abs m (k1, k2) of Some x \<Rightarrow> (x, True) | None \<Rightarrow> (v, False))"
proof -
  obtain n ld m' where e: "tsm_LoadOrStore m k1 NewTypedSyncMap = ((n, ld), m')"
    by (metis surj_pair)
  obtain a ld' n' where e2: "tsm_LoadOrStore n k2 v = ((a, ld'), n')"
    by (metis surj_pair)
  note facts = LoadOrStore_new [OF assms e] tsm_Load_LoadOrStore [OF e2]
  show "nested_abs (snd (LoadOrStoreNested m k1 k2 v)) =
      (nested_abs m)((k1, k2) \<mapsto> fst (fst (LoadOrStoreNested m k1 k2 v)))"
    using facts e e2 by (auto simp: LoadOrStoreNested_def nested_abs_def LoadNested_def fun_eq_iff)
  show "fst (LoadOrStoreNested m k1 k2 v) =
      (case nested_abs m (k1, k2) of Some x \<Rightarrow> (x, True) | None \<Rightarrow> (v, False))"
    using facts e e2 by (auto simp: LoadOrStoreNested_def nested_abs_def split: option.splits)
qed

lemma nested_abs_Delete:
  assumes "nested_ok m"
  shows "nested_abs (DeleteNested m k1 k2) = (nested_abs m)((k1, k2) := None)"
proof (cases "tsm_Load m k1")
  case (Some n)
  then have "tsm_ok (tsm_Delete n k2)" using assms by (simp add: nested_ok_def)
  then have "tsm_Len (tsm_Delete n k2) = 0 \<longleftrightarrow> tsm_Delete n k2 = NewTypedSyncMap"
    by (simp add: tsm_Len_length NewTypedSyncMap_def)
  moreover have "tsm_Load n k = None" if "tsm_Delete n k2 = NewTypedSyncMap" "k \<noteq> k2" for k
    using that tsm_Load_ops(1) [of k] tsm_Load_ops(3) [of n k2 k] by simp
  ultimately show ?thesis
    using Some by (auto simp: DeleteNested_def nested_abs_def LoadNested_def Let_def fun_eq_iff)
qed (auto simp: DeleteNested_def nested_abs_def LoadNested_def fun_eq_iff)

text \<open>C38 (nested_map_refines): the nested map implements a flat map from pairs of keys. Storing, loading or
  storing, and deleting act on the flat map as on one entry, whether or not the inner map existed, and
  keep the invariant that no inner map is empty.\<close>

theorem nested_map_refines:
  assumes "nested_ok m"
  shows "nested_ok (StoreNested m k1 k2 v) \<and> nested_abs (StoreNested m k1 k2 v) = (nested_abs m)((k1, k2) \<mapsto> v) \<and>
    nested_ok (DeleteNested m k1 k2) \<and> nested_abs (DeleteNested m k1 k2) = (nested_abs m)((k1, k2) := None) \<and>
    nested_ok (snd (LoadOrStoreNested m k1 k2 v)) \<and>
    (case nested_abs m (k1, k2) of
       Some x \<Rightarrow> fst (LoadOrStoreNested m k1 k2 v) = (x, True) \<and> nested_abs (snd (LoadOrStoreNested m k1 k2 v)) = nested_abs m
     | None \<Rightarrow> fst (LoadOrStoreNested m k1 k2 v) = (v, False) \<and>
         nested_abs (snd (LoadOrStoreNested m k1 k2 v)) = (nested_abs m)((k1, k2) \<mapsto> v))"
  using assms nested_abs_LoadOrStore [OF assms, of k1 k2 v]
  by (auto simp: StoreNested_ok DeleteNested_ok LoadOrStoreNested_ok nested_abs_Store nested_abs_Delete
      split: option.splits)

theorem nested_map_refines_witness:
  "nested_abs (DeleteNested [(1 :: nat, [(2 :: nat, ''a'')])] 1 2) (1, 2) = None \<and>
   DeleteNested [(1 :: nat, [(2 :: nat, ''a'')])] 1 2 = []"
proof -
  have "nested_ok [(1 :: nat, [(2 :: nat, ''a'')])]"
    by (simp add: nested_ok_def tsm_ok_def tsm_Load_def)
  from nested_map_refines [OF this, of 1 2] have "nested_abs (DeleteNested [(1 :: nat, [(2 :: nat, ''a'')])] 1 2) (1, 2) = None"
    by simp
  moreover have "DeleteNested [(1 :: nat, [(2 :: nat, ''a'')])] 1 2 = []" by code_simp
  ultimately show ?thesis by simp
qed

text \<open>Whatever order the ranges over the two dictionaries take, two
  sets with the same members give the same slice, strictly ascending, with exactly those members.\<close>

lemma ToOrderedSlice_deterministic:
  fixes s t :: "'a :: linorder SyncSet"
  assumes "distinct s" and "distinct t" and "\<forall>v. ss_Contains s v = ss_Contains t v"
  shows "ToOrderedSlice s (<) = ToOrderedSlice t (<) \<and> sorted_wrt (<) (ToOrderedSlice s (<)) \<and>
    (\<forall>v. v \<in> set (ToOrderedSlice s (<)) \<longleftrightarrow> ss_Contains s v)"
proof -
  have "set s = set t" using assms(3) by (auto simp: ss_Contains_def)
  moreover from this have "sort s = sort t"
    using assms(1,2) by (intro sorted_distinct_set_unique) auto
  ultimately show ?thesis
    using assms(1,2)
    by (simp add: ToOrderedSlice_def SliceStable_sort ss_Contains_def strict_sorted_iff)
qed

end
