(* ===== verification/Utils_Priority.thy ===== *)
theory Utils_Priority
  imports Tabi_Prelude "HOL-Library.Sublist"
begin

text \<open>
  \<open>utils/prioritized_txs.go\<close>: a transaction takes priority when it holds an oracle message, directly or
  inside nested \<open>authz.MsgExec\<close> messages up to a depth. A message is its type URL; a \<open>MsgExec\<close> also has
  the error and the messages that its \<open>GetMessages\<close> returns. Type URLs are ASCII.
\<close>

datatype sdk_Msg =
    PlainMsg string
  | ExecMsg string error "sdk_Msg list"

fun MsgTypeURL :: "sdk_Msg \<Rightarrow> string" where
  "MsgTypeURL (PlainMsg u) = u"
| "MsgTypeURL (ExecMsg u err msgs) = u"

definition maxNestedOracleMsgs :: nat where
  "maxNestedOracleMsgs = 5"

definition oracleMsgTypeURLs :: "string list" where
  "oracleMsgTypeURLs =
     [''/tabilabs.tabi.oracle.MsgAggregateExchangeRatePrevote'',
      ''/tabilabs.tabi.oracle.MsgAggregateExchangeRateVote'',
      ''/tabilabs.tabi.oracle.MsgDelegateFeedConsent'',
      ''/oracle.MsgAggregateExchangeRatePrevote'',
      ''/oracle.MsgAggregateExchangeRateVote'',
      ''/oracle.MsgDelegateFeedConsent'']"

definition strings_ToLower :: "string \<Rightarrow> string" where
  "strings_ToLower s =
     map (\<lambda>c. let n = (of_char c :: nat) in if 65 \<le> n \<and> n \<le> 90 then char_of (n + 32) else c) s"

definition strings_Contains :: "string \<Rightarrow> string \<Rightarrow> bool" where
  "strings_Contains s sub = sublist sub s"

definition isOracleTypeURL :: "string \<Rightarrow> bool" where
  "isOracleTypeURL typeURL \<longleftrightarrow>
     (if typeURL \<in> set oracleMsgTypeURLs then True
      else let lower = strings_ToLower typeURL in
        strings_Contains lower ''.oracle.'' \<or> strings_Contains lower ''/oracle.'')"

definition isOracleMsg :: "sdk_Msg \<Rightarrow> bool" where
  "isOracleMsg msg = isOracleTypeURL (MsgTypeURL msg)"

text \<open>\<open>containsOracleInAuthz\<close> on the result of \<open>GetMessages\<close>, and its loop over the messages.\<close>

fun containsOracleInAuthz :: "error \<Rightarrow> sdk_Msg list \<Rightarrow> nat \<Rightarrow> string + bool"
  and containsOracle_loop :: "sdk_Msg list \<Rightarrow> nat \<Rightarrow> string + bool" where
  "containsOracleInAuthz err msgs nestedLvl =
     (if nestedLvl \<ge> maxNestedOracleMsgs then Inr False
      else case err of Some e \<Rightarrow> Inl e | None \<Rightarrow> containsOracle_loop msgs nestedLvl)"
| "containsOracle_loop [] nestedLvl = Inr False"
| "containsOracle_loop (msg # msgs) nestedLvl =
     (if isOracleMsg msg then Inr True
      else case msg of
        ExecMsg u err ms \<Rightarrow>
          (case containsOracleInAuthz err ms (nestedLvl + 1) of
             Inl e \<Rightarrow> Inl e
           | Inr found \<Rightarrow> if found then Inr True else containsOracle_loop msgs nestedLvl)
      | PlainMsg u \<Rightarrow> containsOracle_loop msgs nestedLvl)"

fun IsTxPrioritized_loop :: "sdk_Msg list \<Rightarrow> bool" where
  "IsTxPrioritized_loop [] = False"
| "IsTxPrioritized_loop (msg # msgs) =
     (if isOracleMsg msg then True
      else case msg of
        ExecMsg u err ms \<Rightarrow>
          if containsOracleInAuthz err ms 0 = Inr True then True else IsTxPrioritized_loop msgs
      | PlainMsg u \<Rightarrow> IsTxPrioritized_loop msgs)"

definition IsTxPrioritized :: "sdk_Msg list option \<Rightarrow> bool" where
  "IsTxPrioritized tx = (case tx of None \<Rightarrow> False | Some msgs \<Rightarrow> IsTxPrioritized_loop msgs)"

section \<open>Properties\<close>

text \<open>An oracle message within \<open>d\<close> levels of \<open>MsgExec\<close>, and no error of \<open>GetMessages\<close> anywhere.\<close>

fun oracle_within :: "nat \<Rightarrow> sdk_Msg \<Rightarrow> bool" where
  "oracle_within d (PlainMsg u) = isOracleTypeURL u"
| "oracle_within d (ExecMsg u err ms) \<longleftrightarrow> isOracleTypeURL u \<or> (d > 0 \<and> (\<exists>m \<in> set ms. oracle_within (d - 1) m))"

fun no_error :: "sdk_Msg \<Rightarrow> bool" where
  "no_error (PlainMsg u) = True"
| "no_error (ExecMsg u err ms) \<longleftrightarrow> err = None \<and> (\<forall>m \<in> set ms. no_error m)"

lemma oracle_within_now: "isOracleMsg m \<Longrightarrow> oracle_within d m"
  by (cases m) (auto simp: isOracleMsg_def)

lemma containsOracle_correct:
  "\<forall>m \<in> set msgs. no_error m \<Longrightarrow> err = None \<Longrightarrow> n \<le> 5 \<Longrightarrow>
     containsOracleInAuthz err msgs n = Inr (n < 5 \<and> (\<exists>m \<in> set msgs. oracle_within (4 - n) m))"
  "\<forall>m \<in> set msgs. no_error m \<Longrightarrow> n < 5 \<Longrightarrow>
     containsOracle_loop msgs n = Inr (\<exists>m \<in> set msgs. oracle_within (4 - n) m)"
proof (induction err msgs n and msgs n rule: containsOracleInAuthz_containsOracle_loop.induct)
  case (3 msg msgs n)
  show ?case
  proof (cases "isOracleMsg msg")
    case True
    then show ?thesis using oracle_within_now [OF True] by auto
  next
    case False
    show ?thesis
    proof (cases msg)
      case (PlainMsg u)
      then show ?thesis using 3 False by (auto simp: isOracleMsg_def)
    next
      case (ExecMsg u err ms)
      have ne: "\<forall>m \<in> set ms. no_error m" "err = None" "Suc n \<le> 5"
        using 3 ExecMsg by auto
      have sub: "containsOracleInAuthz err ms (n + 1) = Inr (oracle_within (4 - n) msg)"
        using 3(2) [OF False ExecMsg] ne False ExecMsg 3(5)
        by (auto simp: isOracleMsg_def)
      show ?thesis using 3 False ExecMsg sub by auto
    qed
  qed
qed (auto simp: maxNestedOracleMsgs_def)

lemma IsTxPrioritized_loop_correct:
  "\<forall>m \<in> set msgs. no_error m \<Longrightarrow> IsTxPrioritized_loop msgs \<longleftrightarrow> (\<exists>m \<in> set msgs. oracle_within 5 m)"
proof (induction msgs)
  case (Cons msg msgs)
  show ?case
  proof (cases msg)
    case (ExecMsg u err ms)
    have "containsOracleInAuthz err ms 0 = Inr (\<exists>m \<in> set ms. oracle_within 4 m)"
      using containsOracle_correct(1) [of ms err 0] Cons ExecMsg by auto
    then show ?thesis using Cons ExecMsg by (auto simp: isOracleMsg_def)
  qed (use Cons in \<open>auto simp: isOracleMsg_def\<close>)
qed simp

text \<open>C39 (IsTxPrioritized_iff): when every \<open>MsgExec\<close> of a transaction unpacks, the transaction takes
  priority exactly when an oracle message is among its messages or inside at most five levels of
  \<open>MsgExec\<close>.\<close>

theorem IsTxPrioritized_iff:
  assumes "\<forall>m \<in> set msgs. no_error m"
  shows "IsTxPrioritized (Some msgs) \<longleftrightarrow> (\<exists>m \<in> set msgs. oracle_within maxNestedOracleMsgs m)"
  using IsTxPrioritized_loop_correct [OF assms] by (simp add: IsTxPrioritized_def maxNestedOracleMsgs_def)

definition exec_example :: "nat \<Rightarrow> sdk_Msg" where
  "exec_example d = ((\<lambda>m. ExecMsg ''/cosmos.authz.v1beta1.MsgExec'' None [m]) ^^ d) (PlainMsg ''/oracle.MsgDelegateFeedConsent'')"

theorem IsTxPrioritized_iff_witness:
  "IsTxPrioritized (Some [PlainMsg ''/a'', exec_example 5]) \<and> \<not> IsTxPrioritized (Some [exec_example 6])"
proof -
  have "\<forall>m \<in> set [PlainMsg ''/a'', exec_example 5]. no_error m" "\<forall>m \<in> set [exec_example 6]. no_error m"
    by code_simp+
  note this [THEN IsTxPrioritized_iff]
  moreover have "\<exists>m \<in> set [PlainMsg ''/a'', exec_example 5]. oracle_within maxNestedOracleMsgs m"
    and "\<not> (\<exists>m \<in> set [exec_example 6]. oracle_within maxNestedOracleMsgs m)"
    by code_simp+
  ultimately show ?thesis by blast
qed

end
