(* ===== verification/Helpers_Address.thy ===== *)
theory Helpers_Address
  imports EthTx_Data
begin

text \<open>
  \<open>utils/helpers/address.go\<close>: recovering the two addresses of an account from a signature. The elliptic
  curve functions of go-ethereum, btcec and the Cosmos SDK are a record of parameters.
\<close>

record sig_lib =
  ValidateSignatureValues :: "byte \<Rightarrow> int \<Rightarrow> int \<Rightarrow> bool \<Rightarrow> bool"
  Ecrecover :: "hash \<Rightarrow> bytes \<Rightarrow> string + bytes"
  CompressPubkey :: "bytes \<Rightarrow> bytes go"
  PubKey_Address :: "bytes \<Rightarrow> bytes"

text \<open>\<open>copy(sig[end-len(b):end], b)\<close> on a zeroed slice: \<open>b\<close> ends at \<open>end\<close>; a longer \<open>b\<close> makes the lower
  index negative.\<close>

definition copy_right :: "nat \<Rightarrow> bytes \<Rightarrow> bytes go" where
  "copy_right n b =
     (if length b > n then Panic ''slice bounds out of range'' else Done (replicate (n - length b) 0 @ b))"

text \<open>\<open>sig[64-len(s):64]\<close> starts at a valid index up to 64 bytes, and then overwrites the end of \<open>r\<close>.\<close>

definition sig_bytes :: "bytes \<Rightarrow> bytes \<Rightarrow> byte \<Rightarrow> bytes go" where
  "sig_bytes r s v =
     go_bind (copy_right 32 r) (\<lambda>r32.
     if length s > 64 then Panic ''slice bounds out of range''
     else Done (take (64 - length s) (r32 @ replicate 32 0) @ s @ [v]))"

definition RecoverPubkey :: "sig_lib \<Rightarrow> hash \<Rightarrow> int \<Rightarrow> int \<Rightarrow> int \<Rightarrow> bool \<Rightarrow> (string + bytes) go" where
  "RecoverPubkey c sighash R S Vb homestead =
     (if big_BitLen Vb > 8 then Done (Inl ''invalid transaction v, r, s values'')
      else
        let V = (ucast (word_of_int \<bar>Vb\<bar> - 27 :: uint64) :: byte) in
        if \<not> ValidateSignatureValues c V R S homestead then Done (Inl ''invalid transaction v, r, s values'')
        else go_bind (sig_bytes (big_Bytes R) (big_Bytes S) V) (\<lambda>sig. Done (Ecrecover c sighash sig)))"

definition PubkeyToEVMAddress :: "lib \<Rightarrow> bytes \<Rightarrow> string + address" where
  "PubkeyToEVMAddress l pub =
     (if length pub = 0 \<or> pub ! 0 \<noteq> 4 then Inl ''invalid public key''
      else Inr (copy_into 20 (drop 12 (Keccak256 l (drop 1 pub)))))"

definition GetAddressesFromPubkeyBytes ::
    "lib \<Rightarrow> sig_lib \<Rightarrow> bytes \<Rightarrow> (string + address \<times> bytes \<times> bytes) go" where
  "GetAddressesFromPubkeyBytes l c pubkey =
     (case PubkeyToEVMAddress l pubkey of Inl e \<Rightarrow> Done (Inl e)
      | Inr evmAddr \<Rightarrow>
          go_bind (CompressPubkey c pubkey) (\<lambda>tabiPubkey.
          Done (Inr (evmAddr, PubKey_Address c tabiPubkey, tabiPubkey))))"

definition GetAddresses ::
    "lib \<Rightarrow> sig_lib \<Rightarrow> int \<Rightarrow> int \<Rightarrow> int \<Rightarrow> hash \<Rightarrow> (string + address \<times> bytes \<times> bytes) go" where
  "GetAddresses l c V R S data =
     go_bind (RecoverPubkey c data R S V True) (\<lambda>r.
     case r of Inl e \<Rightarrow> Done (Inl e) | Inr pubkey \<Rightarrow> GetAddressesFromPubkeyBytes l c pubkey)"

section \<open>Properties\<close>

lemma be_encode_pad: "x < 256 ^ n \<Longrightarrow> length (nat_bytes x) \<le> n \<and> be_encode n x = replicate (n - length (nat_bytes x)) 0 @ nat_bytes x"
proof (induction n arbitrary: x)
  case (Suc n)
  show ?case
  proof (cases "x = 0")
    case True
    then show ?thesis using Suc.IH [of 0] by (simp add: replicate_append_same)
  next
    case False
    have "x div 256 < 256 ^ n" using Suc.prems by (simp add: less_mult_imp_div_less)
    from Suc.IH [OF this] False show ?thesis by (subst (1 2 3) nat_bytes.simps) (simp add: Let_def)
  qed
qed simp

lemma copy_right_SetBytes: "length b = n \<Longrightarrow> copy_right n (big_Bytes (big_SetBytes b)) = Done b"
  using be_encode_pad [of "be_decode b" n] be_encode_decode [of b n] be_decode_less [of b]
  by (simp add: copy_right_def big_Bytes_def big_SetBytes_def)

lemma sig_bytes_padded:
  assumes "copy_right 32 r = Done a" and "copy_right 32 s = Done b"
  shows "sig_bytes r s v = Done (a @ b @ [v])"
proof -
  have "length r \<le> 32" "length s \<le> 32" "a = replicate (32 - length r) 0 @ r" "b = replicate (32 - length s) 0 @ s"
    using assms by (auto simp: copy_right_def split: if_splits)
  then show ?thesis using assms(1) by (simp add: sig_bytes_def)
qed

lemma uint_byte_of: "uint (ucast (w :: uint64) :: byte) = uint w mod 256"
  by (simp add: unsigned_ucast_eq take_bit_eq_mod)
lemma recover_byte: "(ucast (word_of_int (uint (b + 27 :: byte)) - 27 :: uint64) :: byte) = b"
proof -
  let ?x = "uint (b + 27 :: byte)"
  have x: "?x = (uint b + 27) mod 256" "0 \<le> ?x" "?x < 2 ^ 64"
    using uint_lt2p [of "b + 27"] by (simp_all add: uint_word_ariths)
  have "uint (word_of_int ?x - 27 :: uint64) = (?x - 27) mod 2 ^ 64"
    using x(2,3) by (simp add: uint_word_ariths uint_word_of_int del: word_of_int_uint)
  then have "uint (ucast (word_of_int ?x - 27 :: uint64) :: byte) = (?x - 27) mod 2 ^ 64 mod 256"
    unfolding uint_byte_of by simp
  also have "\<dots> = (?x - 27) mod 256"
    by (rule mod_mod_cancel) simp
  also have "\<dots> = uint b"
    unfolding x(1) using uint_lt2p [of b] by (simp add: mod_diff_left_eq)
  finally show ?thesis by (simp only: word_uint_eq_iff)
qed

text \<open>C40 (RecoverPubkey_DecodeSignature): a signature that \<open>DecodeSignature\<close> takes apart reaches \<open>Ecrecover\<close>
  as exactly the same 65 bytes: the padding of \<open>r\<close> and \<open>s\<close> and the offset 27 of \<open>v\<close>, which wraps in a
  byte, are undone. \<open>RecoverPubkey\<close> does not panic on it, and refuses it exactly when
  \<open>ValidateSignatureValues\<close> refuses its parts.\<close>

theorem RecoverPubkey_DecodeSignature:
  assumes "DecodeSignature sig = Inr (r, s, v)"
  shows "RecoverPubkey c h r s v homestead =
    Done (if ValidateSignatureValues c (sig ! 64) r s homestead then Ecrecover c h sig
          else Inl ''invalid transaction v, r, s values'')"
proof -
  have len: "length sig = 65" and r: "r = big_SetBytes (take 32 sig)"
    and s: "s = big_SetBytes (drop 32 (take 64 sig))" and v: "v = uint (sig ! 64 + 27)"
    using assms by (auto simp: DecodeSignature_def big_SetBytes_def be_decode_def split: if_splits)
  have "big_BitLen v \<le> 8"
    unfolding big_BitLen_le_iff v using uint_lt2p [of "sig ! 64 + 27"] by simp
  moreover have "(ucast (word_of_int \<bar>v\<bar> - 27 :: uint64) :: byte) = sig ! 64"
    unfolding v using recover_byte [of "sig ! 64"] by simp
  moreover have "copy_right 32 (big_Bytes r) = Done (take 32 sig)"
    and "copy_right 32 (big_Bytes s) = Done (drop 32 (take 64 sig))"
    unfolding r s using len by (simp_all add: copy_right_SetBytes)
  moreover have "take 32 sig @ drop 32 (take 64 sig) @ [sig ! 64] = sig"
    using len by (subst append_take_drop_id [of 64 sig, symmetric], subst append_take_drop_id [of 32 "take 64 sig", symmetric])
      (simp add: Cons_nth_drop_Suc [symmetric])
  ultimately show ?thesis
    by (simp add: RecoverPubkey_def Let_def sig_bytes_padded)
qed

definition sig_lib_example :: sig_lib where
  "sig_lib_example = \<lparr>
     ValidateSignatureValues = (\<lambda>v r s h. 0 < r \<and> 0 < s \<and> v < 2),
     Ecrecover = (\<lambda>h sig. Inr (4 # take 64 sig)), CompressPubkey = (\<lambda>p. Done (2 # take 32 (drop 1 p))),
     PubKey_Address = (\<lambda>p. take 20 p)\<rparr>"

theorem RecoverPubkey_DecodeSignature_witness:
  "RecoverPubkey sig_lib_example [] 0 1 27 True = Done (Inl ''invalid transaction v, r, s values'') \<and>
   (\<exists>r s v. DecodeSignature (replicate 31 0 @ [9] @ replicate 32 1 @ [1]) = Inr (r, s, v) \<and> v = 28 \<and>
     RecoverPubkey sig_lib_example [] r s v True = Done (Inr (4 # replicate 31 0 @ [9] @ replicate 32 1)))"
proof -
  let ?sig = "replicate 31 0 @ [9] @ replicate 32 1 @ [1] :: bytes"
  let ?r = "big_SetBytes (take 32 ?sig)" and ?s = "big_SetBytes (drop 32 (take 64 ?sig))"
  have n: "?sig ! 64 = 1" by (simp add: nth_append)
  have v: "big_SetBytes [?sig ! 64 + 27] = 28" unfolding n by (simp add: big_SetBytes_def be_decode_def)
  have "take 32 ?sig = replicate 31 0 @ [9]" "drop 32 (take 64 ?sig) = replicate 31 1 @ [1]"
    by (simp_all add: replicate_append_same)
  then have pos: "0 < ?r" "0 < ?s" unfolding big_SetBytes_def by (simp_all only: be_decode_snoc) simp_all
  have d: "DecodeSignature ?sig = Inr (?r, ?s, 28)"
    unfolding DecodeSignature_def v by (simp only: length_append length_replicate list.size) simp
  have "ValidateSignatureValues sig_lib_example 1 ?r ?s True"
    using pos by (simp add: sig_lib_example_def)
  then have "RecoverPubkey sig_lib_example [] ?r ?s 28 True = Done (Ecrecover sig_lib_example [] ?sig)"
    using RecoverPubkey_DecodeSignature [OF d, of sig_lib_example "[]" True] unfolding n by (simp only: if_True)
  then have "RecoverPubkey sig_lib_example [] ?r ?s 28 True = Done (Inr (4 # take 64 ?sig))"
    by (simp only: sig_lib_example_def sig_lib.simps)
  moreover have "take 64 ?sig = replicate 31 0 @ [9] @ replicate 32 1" by simp
  moreover have "RecoverPubkey sig_lib_example [] 0 1 27 True = Done (Inl ''invalid transaction v, r, s values'')"
    by (simp add: RecoverPubkey_def big_SetBytes_def sig_lib_example_def be_decode_def big_BitLen_def)
  ultimately show ?thesis using d by (intro conjI exI [of _ ?r] exI [of _ ?s] exI [of _ 28]) (simp_all only:)
qed

end
