(* ===== verification/Evm_Keys.thy ===== *)
theory Evm_Keys
  imports Tabi_Lib
begin

text \<open>
  \<open>x/evm/types/keys.go\<close>: the keys of the EVM module's stores. Every family of keys starts with its own
  byte, so a write in one family is never seen in another.
\<close>

section \<open>Prefixes\<close>

definition EVMAddressToTabiAddressKeyPrefix :: bytes where
  "EVMAddressToTabiAddressKeyPrefix = [0x1]"

definition TabiAddressToEVMAddressKeyPrefix :: bytes where
  "TabiAddressToEVMAddressKeyPrefix = [0x2]"

definition StateKeyPrefix :: bytes where
  "StateKeyPrefix = [0x3]"

definition CodeKeyPrefix :: bytes where
  "CodeKeyPrefix = [0x7]"

definition CodeHashKeyPrefix :: bytes where
  "CodeHashKeyPrefix = [0x8]"

definition CodeSizeKeyPrefix :: bytes where
  "CodeSizeKeyPrefix = [0x9]"

definition NonceKeyPrefix :: bytes where
  "NonceKeyPrefix = [0xa]"

definition ReceiptKeyPrefix :: bytes where
  "ReceiptKeyPrefix = [0xb]"

definition WhitelistedCodeHashesForBankSendPrefix :: bytes where
  "WhitelistedCodeHashesForBankSendPrefix = [0xc]"

definition BlockBloomPrefix :: bytes where
  "BlockBloomPrefix = [0xd]"

definition TxHashesPrefix :: bytes where
  "TxHashesPrefix = [0xe]"

definition WhitelistedCodeHashesForDelegateCallPrefix :: bytes where
  "WhitelistedCodeHashesForDelegateCallPrefix = [0xf]"

definition ReplaySeenAddrPrefix :: bytes where
  "ReplaySeenAddrPrefix = [0x12]"

definition PointerRegistryPrefix :: bytes where
  "PointerRegistryPrefix = [0x15]"

definition PointerCWCodePrefix :: bytes where
  "PointerCWCodePrefix = [0x16]"

definition PointerReverseRegistryPrefix :: bytes where
  "PointerReverseRegistryPrefix = [0x17]"

definition AnteSurplusPrefix :: bytes where
  "AnteSurplusPrefix = [0x18]"

definition DeferredInfoPrefix :: bytes where
  "DeferredInfoPrefix = [0x19]"

definition LegacyBlockBloomCutoffHeightKey :: bytes where
  "LegacyBlockBloomCutoffHeightKey = [0x1a]"

definition BaseFeePerGasPrefix :: bytes where
  "BaseFeePerGasPrefix = [0x1b]"

definition NextBaseFeePerGasPrefix :: bytes where
  "NextBaseFeePerGasPrefix = [0x1c]"

definition PointerERC20NativePrefix :: bytes where
  "PointerERC20NativePrefix = [0x0]"

definition PointerERC20CW20Prefix :: bytes where
  "PointerERC20CW20Prefix = [0x1]"

definition PointerERC721CW721Prefix :: bytes where
  "PointerERC721CW721Prefix = [0x2]"

definition PointerCW20ERC20Prefix :: bytes where
  "PointerCW20ERC20Prefix = [0x3]"

definition PointerCW721ERC721Prefix :: bytes where
  "PointerCW721ERC721Prefix = [0x4]"

definition PointerERC1155CW1155Prefix :: bytes where
  "PointerERC1155CW1155Prefix = [0x5]"

definition PointerCW1155ERC1155Prefix :: bytes where
  "PointerCW1155ERC1155Prefix = [0x6]"

lemmas key_prefix_defs [key_simps] =
  EVMAddressToTabiAddressKeyPrefix_def TabiAddressToEVMAddressKeyPrefix_def StateKeyPrefix_def
  CodeKeyPrefix_def CodeHashKeyPrefix_def CodeSizeKeyPrefix_def NonceKeyPrefix_def ReceiptKeyPrefix_def
  WhitelistedCodeHashesForBankSendPrefix_def BlockBloomPrefix_def TxHashesPrefix_def
  WhitelistedCodeHashesForDelegateCallPrefix_def ReplaySeenAddrPrefix_def PointerRegistryPrefix_def
  PointerCWCodePrefix_def PointerReverseRegistryPrefix_def AnteSurplusPrefix_def DeferredInfoPrefix_def
  LegacyBlockBloomCutoffHeightKey_def BaseFeePerGasPrefix_def NextBaseFeePerGasPrefix_def
  PointerERC20NativePrefix_def PointerERC20CW20Prefix_def PointerERC721CW721Prefix_def
  PointerCW20ERC20Prefix_def PointerCW721ERC721Prefix_def PointerERC1155CW1155Prefix_def
  PointerCW1155ERC1155Prefix_def

section \<open>Keys\<close>

text \<open>\<open>[]byte(s)\<close> and \<open>string(b)\<close>.\<close>

definition str_bytes :: "string \<Rightarrow> bytes" where
  "str_bytes s = map (\<lambda>c. word_of_nat (of_char c)) s"

definition bytes_str :: "bytes \<Rightarrow> string" where
  "bytes_str b = map (\<lambda>w. char_of (unat w)) b"

lemma bytes_str_bytes [simp]: "bytes_str (str_bytes s) = s"
proof -
  have "char_of (unat (word_of_nat (of_char c) :: byte)) = c" for c
  proof -
    have "(of_char c :: nat) < 256" using of_char_eq_iff [of c] by simp
    then show ?thesis by (simp add: unat_of_nat)
  qed
  then show ?thesis by (simp add: bytes_str_def str_bytes_def comp_def)
qed

lemma str_bytes_inj [simp]: "str_bytes s = str_bytes t \<longleftrightarrow> s = t"
  by (metis bytes_str_bytes)

definition EVMAddressToTabiAddressKey :: "address \<Rightarrow> bytes" where
  "EVMAddressToTabiAddressKey evmAddress = EVMAddressToTabiAddressKeyPrefix @ evmAddress"

definition TabiAddressToEVMAddressKey :: "bytes \<Rightarrow> bytes" where
  "TabiAddressToEVMAddressKey tabiAddress = TabiAddressToEVMAddressKeyPrefix @ tabiAddress"

definition StateKey :: "address \<Rightarrow> bytes" where
  "StateKey evmAddress = StateKeyPrefix @ evmAddress"

definition ReceiptKey :: "hash \<Rightarrow> bytes" where
  "ReceiptKey txHash = ReceiptKeyPrefix @ txHash"

definition BlockBloomKey :: "int64 \<Rightarrow> bytes" where
  "BlockBloomKey height = BlockBloomPrefix @ PutUint64 height"

definition TxHashesKey :: "int64 \<Rightarrow> bytes" where
  "TxHashesKey height = TxHashesPrefix @ PutUint64 height"

definition PointerReverseRegistryKey :: "address \<Rightarrow> bytes" where
  "PointerReverseRegistryKey addr = PointerReverseRegistryPrefix @ addr"

definition PointerERC20NativeKey :: "string \<Rightarrow> bytes" where
  "PointerERC20NativeKey token = (PointerRegistryPrefix @ PointerERC20NativePrefix) @ str_bytes token"

definition PointerERC20CW20Key :: "string \<Rightarrow> bytes" where
  "PointerERC20CW20Key cw20Address = (PointerRegistryPrefix @ PointerERC20CW20Prefix) @ str_bytes cw20Address"

definition PointerERC721CW721Key :: "string \<Rightarrow> bytes" where
  "PointerERC721CW721Key cw721Address = (PointerRegistryPrefix @ PointerERC721CW721Prefix) @ str_bytes cw721Address"

definition PointerERC1155CW1155Key :: "string \<Rightarrow> bytes" where
  "PointerERC1155CW1155Key cw1155Address = (PointerRegistryPrefix @ PointerERC1155CW1155Prefix) @ str_bytes cw1155Address"

definition PointerCW20ERC20Key :: "address \<Rightarrow> bytes" where
  "PointerCW20ERC20Key erc20Addr = (PointerRegistryPrefix @ PointerCW20ERC20Prefix) @ erc20Addr"

definition PointerCW721ERC721Key :: "address \<Rightarrow> bytes" where
  "PointerCW721ERC721Key erc721Addr = (PointerRegistryPrefix @ PointerCW721ERC721Prefix) @ erc721Addr"

definition PointerCW1155ERC1155Key :: "address \<Rightarrow> bytes" where
  "PointerCW1155ERC1155Key erc1155Addr = (PointerRegistryPrefix @ PointerCW1155ERC1155Prefix) @ erc1155Addr"

lemmas key_defs [key_simps] =
  EVMAddressToTabiAddressKey_def TabiAddressToEVMAddressKey_def StateKey_def ReceiptKey_def BlockBloomKey_def
  TxHashesKey_def PointerReverseRegistryKey_def PointerERC20NativeKey_def PointerERC20CW20Key_def
  PointerERC721CW721Key_def PointerERC1155CW1155Key_def PointerCW20ERC20Key_def PointerCW721ERC721Key_def
  PointerCW1155ERC1155Key_def

end
