(* ===== verification/Tabi_KV.thy ===== *)
theory Tabi_KV
  imports Tabi_Prelude
begin

text \<open>
  The key-value store that a context gives the module (\<open>ctx.KVStore(k.storeKey)\<close> and
  \<open>ctx.TransientStore(...)\<close>), the prefix stores cut out of it, and its iterators. A store is kept
  as the ascending list of its pairs, which is the order in which \<open>Iterator(nil, nil)\<close> visits
  them. The interface the keeper relies on is the locale \<open>kv_store\<close>; the list satisfies its laws.
\<close>

type_synonym store = "(bytes \<times> bytes) list"

section \<open>The interface\<close>

locale kv_store =
  fixes get :: "'s \<Rightarrow> bytes \<Rightarrow> bytes option"
    and set :: "'s \<Rightarrow> bytes \<Rightarrow> bytes \<Rightarrow> 's"
    and delete :: "'s \<Rightarrow> bytes \<Rightarrow> 's"
    and iterator :: "'s \<Rightarrow> (bytes \<times> bytes) list"
    and invar :: "'s \<Rightarrow> bool"
  assumes get_set: "invar s \<Longrightarrow> get (set s k v) k' = (if k' = k then Some v else get s k')"
    and get_delete: "invar s \<Longrightarrow> get (delete s k) k' = (if k' = k then None else get s k')"
    and iterator_get: "invar s \<Longrightarrow> (k, v) \<in> List.set (iterator s) \<longleftrightarrow> get s k = Some v"
    and iterator_sorted: "invar s \<Longrightarrow> sorted_wrt (<) (map fst (iterator s))"
    and invar_set: "invar s \<Longrightarrow> invar (set s k v)"
    and invar_delete: "invar s \<Longrightarrow> invar (delete s k)"
begin

lemmas laws = get_set get_delete invar_set invar_delete

text \<open>A write through one prefix is not seen through a prefix that cannot overlap it.\<close>

lemma get_set_other_prefix:
  assumes "invar s" and "\<not> prefix p q" and "\<not> prefix q p"
  shows "get (set s (p @ k) v) (q @ k') = get s (q @ k')"
proof -
  have "q @ k' \<noteq> p @ k" using assms(2,3) by (metis prefixI prefix_same_cases)
  with assms(1) show ?thesis by (simp add: get_set)
qed

lemma get_delete_other_prefix:
  assumes "invar s" and "\<not> prefix p q" and "\<not> prefix q p"
  shows "get (delete s (p @ k)) (q @ k') = get s (q @ k')"
proof -
  have "q @ k' \<noteq> p @ k" using assms(2,3) by (metis prefixI prefix_same_cases)
  with assms(1) show ?thesis by (simp add: get_delete)
qed

text \<open>The keys an iterator visits are pairwise different.\<close>

lemma iterator_distinct: "invar s \<Longrightarrow> distinct (map fst (iterator s))"
  using iterator_sorted strict_sorted_iff by blast

lemma iterator_fst:
  assumes "invar s"
  shows "k \<in> fst ` List.set (iterator s) \<longleftrightarrow> get s k \<noteq> None"
proof -
  have "k \<in> fst ` List.set (iterator s) \<longleftrightarrow> (\<exists>v. (k, v) \<in> List.set (iterator s))" by force
  then show ?thesis using assms by (simp add: iterator_get)
qed

end

section \<open>The store as an ascending list\<close>

definition kv_get :: "store \<Rightarrow> bytes \<Rightarrow> bytes option" where
  "kv_get s k = map_of s k"

fun kv_set :: "store \<Rightarrow> bytes \<Rightarrow> bytes \<Rightarrow> store" where
  "kv_set [] k v = [(k, v)]"
| "kv_set ((k', v') # s) k v =
     (if k' < k then (k', v') # kv_set s k v
      else if k' = k then (k, v) # s
      else (k, v) # (k', v') # s)"

definition kv_delete :: "store \<Rightarrow> bytes \<Rightarrow> store" where
  "kv_delete s k = filter (\<lambda>p. fst p \<noteq> k) s"

definition kv_ok :: "store \<Rightarrow> bool" where
  "kv_ok s \<longleftrightarrow> sorted_wrt (<) (map fst s)"

definition kv_has :: "store \<Rightarrow> bytes \<Rightarrow> bool" where
  "kv_has s k \<longleftrightarrow> kv_get s k \<noteq> None"

text \<open>\<open>prefix.NewStore\<close>: a key is stored below its prefix, and an iterator sees the keys below the
  prefix with the prefix cut off. \<open>DeleteAll\<close> removes everything below it.\<close>

definition prefix_iterator :: "store \<Rightarrow> bytes \<Rightarrow> (bytes \<times> bytes) list" where
  "prefix_iterator s p =
     map (\<lambda>(k, v). (drop (length p) k, v)) (filter (\<lambda>e. prefix p (fst e)) s)"

definition prefix_delete_all :: "store \<Rightarrow> bytes \<Rightarrow> store" where
  "prefix_delete_all s p = filter (\<lambda>e. \<not> prefix p (fst e)) s"

lemma kv_ok_Nil [simp]: "kv_ok []"
  by (simp add: kv_ok_def)

lemma kv_ok_Cons: "kv_ok ((k, v) # s) \<longleftrightarrow> kv_ok s \<and> (\<forall>e \<in> set s. k < fst e)"
  by (auto simp: kv_ok_def)

lemma kv_get_Nil [simp]: "kv_get [] k = None"
  by (simp add: kv_get_def)

lemma kv_get_Cons [simp]: "kv_get ((k', v) # s) k = (if k = k' then Some v else kv_get s k)"
  by (simp add: kv_get_def)

lemma kv_get_kv_set: "kv_get (kv_set s k v) k' = (if k' = k then Some v else kv_get s k')"
  by (induction s k v rule: kv_set.induct) auto

lemma set_kv_set: "set (kv_set s k v) \<subseteq> insert (k, v) (set s)"
  by (induction s k v rule: kv_set.induct) auto

lemma kv_ok_kv_set: "kv_ok s \<Longrightarrow> kv_ok (kv_set s k v)"
proof (induction s k v rule: kv_set.induct)
  case (1 k v)
  then show ?case by (simp add: kv_ok_def)
next
  case (2 k' v' s k v)
  then have ok: "kv_ok s" and lt: "\<forall>e \<in> set s. k' < fst e" by (auto simp: kv_ok_Cons)
  show ?case
  proof (cases "k' < k")
    case True
    with 2 ok have "kv_ok (kv_set s k v)" by simp
    moreover have "\<forall>e \<in> set (kv_set s k v). k' < fst e"
      using set_kv_set [of s k v] lt True by auto
    ultimately show ?thesis using True by (simp add: kv_ok_Cons)
  next
    case False
    then have "k' \<noteq> k \<Longrightarrow> k < k'" by simp
    with False ok lt show ?thesis by (auto simp: kv_ok_Cons)
  qed
qed

lemma kv_get_filter:
  "kv_get (filter (\<lambda>e. P (fst e)) s) k = (if P k then kv_get s k else None)"
  by (induction s) auto

lemma kv_ok_filter: "kv_ok s \<Longrightarrow> kv_ok (filter P s)"
  by (induction s) (auto simp: kv_ok_Cons)

lemma kv_get_in_set: "kv_ok s \<Longrightarrow> (k, v) \<in> set s \<longleftrightarrow> kv_get s k = Some v"
proof (induction s)
  case (Cons e s)
  obtain k' v' where e: "e = (k', v')" by (cases e)
  with Cons.prems have ok: "kv_ok s" and lt: "\<forall>e \<in> set s. k' < fst e" by (auto simp: kv_ok_Cons)
  then have "\<And>v. (k', v) \<notin> set s" by auto
  with Cons.IH [OF ok] e show ?case by auto
qed simp

interpretation kv: kv_store kv_get kv_set kv_delete "\<lambda>s. s" kv_ok
proof unfold_locales
  fix s k v k' assume "kv_ok s"
  show "kv_get (kv_set s k v) k' = (if k' = k then Some v else kv_get s k')"
    by (rule kv_get_kv_set)
  show "kv_get (kv_delete s k) k' = (if k' = k then None else kv_get s k')"
    unfolding kv_delete_def by (simp add: kv_get_filter [where P = "\<lambda>x. x \<noteq> k"])
  show "(k, v) \<in> set s \<longleftrightarrow> kv_get s k = Some v"
    using \<open>kv_ok s\<close> by (rule kv_get_in_set)
  show "sorted_wrt (<) (map fst s)"
    using \<open>kv_ok s\<close> by (simp add: kv_ok_def)
  show "kv_ok (kv_set s k v)"
    using \<open>kv_ok s\<close> by (rule kv_ok_kv_set)
  show "kv_ok (kv_delete s k)"
    unfolding kv_delete_def using \<open>kv_ok s\<close> by (rule kv_ok_filter)
qed

lemma kv_get_kv_delete [simp]:
  "kv_get (kv_delete s k) k' = (if k' = k then None else kv_get s k')"
  unfolding kv_delete_def by (simp add: kv_get_filter [where P = "\<lambda>x. x \<noteq> k"])

declare kv_get_kv_set [simp] kv.invar_set [simp] kv.invar_delete [simp]

section \<open>Prefix stores\<close>

lemma kv_get_prefix_delete_all [simp]:
  "kv_get (prefix_delete_all s p) k = (if prefix p k then None else kv_get s k)"
  unfolding prefix_delete_all_def by (simp add: kv_get_filter [where P = "\<lambda>x. \<not> prefix p x"])

lemma kv_ok_prefix_delete_all [simp]: "kv_ok s \<Longrightarrow> kv_ok (prefix_delete_all s p)"
  unfolding prefix_delete_all_def by (rule kv_ok_filter)

lemma prefix_iterator_iff:
  assumes "kv_ok s"
  shows "(k, v) \<in> set (prefix_iterator s p) \<longleftrightarrow> kv_get s (p @ k) = Some v"
proof
  assume "(k, v) \<in> set (prefix_iterator s p)"
  then obtain k' where "(k', v) \<in> set s" "prefix p k'" "k = drop (length p) k'"
    by (auto simp: prefix_iterator_def)
  then show "kv_get s (p @ k) = Some v"
    using assms by (auto simp: prefix_def kv_get_in_set)
next
  assume "kv_get s (p @ k) = Some v"
  then have "(p @ k, v) \<in> set s" using assms by (simp add: kv_get_in_set)
  then show "(k, v) \<in> set (prefix_iterator s p)"
    by (force simp: prefix_iterator_def)
qed

lemma prefix_iterator_empty_iff:
  assumes "kv_ok s"
  shows "prefix_iterator s p = [] \<longleftrightarrow> (\<forall>k. kv_get s (p @ k) = None)"
proof -
  have "prefix_iterator s p = [] \<longleftrightarrow> (\<forall>k v. (k, v) \<notin> set (prefix_iterator s p))"
    by (metis list.set_sel(1) empty_iff list.set(1) surj_pair)
  also have "\<dots> \<longleftrightarrow> (\<forall>k. kv_get s (p @ k) = None)"
    using assms by (simp add: prefix_iterator_iff)
  finally show ?thesis .
qed

lemma append_less_cancel [simp]: "(p @ xs < p @ (ys :: 'a :: linorder list)) \<longleftrightarrow> xs < ys"
  by (induction p) auto

lemma prefix_iterator_sorted:
  assumes "kv_ok s" shows "sorted_wrt (<) (map fst (prefix_iterator s p))"
proof -
  let ?f = "filter (\<lambda>e. prefix p (fst e)) s"
  have "sorted_wrt (<) (map fst ?f)"
    using assms kv_ok_filter [of s] by (simp add: kv_ok_def)
  moreover have "map fst ?f = map ((@) p) (map fst (prefix_iterator s p))"
    by (auto simp: prefix_iterator_def prefix_def)
  ultimately show ?thesis by (simp add: sorted_wrt_map)
qed

text \<open>\<open>ReverseIterator(nil, nil)\<close> starts at the greatest key: the last pair of the ascending list.\<close>

lemma prefix_iterator_last_greatest:
  assumes "kv_ok s" and "prefix_iterator s p \<noteq> []" and "kv_get s (p @ k) = Some v"
  shows "k \<le> fst (last (prefix_iterator s p))"
proof -
  let ?l = "prefix_iterator s p"
  have "(k, v) \<in> set ?l" using assms by (simp add: prefix_iterator_iff)
  then obtain i where i: "i < length ?l" "?l ! i = (k, v)" by (meson in_set_conv_nth)
  show ?thesis
  proof (cases "i = length ?l - 1")
    case True
    with i assms(2) have "last ?l = (k, v)" by (simp add: last_conv_nth)
    then show ?thesis by simp
  next
    case False
    with i have "i < length ?l - 1" by simp
    moreover have "length ?l - 1 < length (map fst ?l)" using assms(2) by simp
    ultimately have "map fst ?l ! i < map fst ?l ! (length ?l - 1)"
      by (rule sorted_wrt_nth_less [OF prefix_iterator_sorted [OF assms(1)]])
    with i assms(2) show ?thesis by (simp add: last_conv_nth)
  qed
qed

lemma prefix_iterator_last_get:
  assumes "kv_ok s" and "prefix_iterator s p \<noteq> []"
  shows "kv_get s (p @ fst (last (prefix_iterator s p))) = Some (snd (last (prefix_iterator s p)))"
  using assms last_in_set [OF assms(2)] by (simp add: prefix_iterator_iff [symmetric])

end
