(* ===== verification/Evm_Ctx.thy ===== *)
theory Evm_Ctx
  imports Evm_Keys Tabi_KV
begin

text \<open>
  The context of an operation (\<open>sdk.Context\<close>) as far as the EVM module uses it, and the keepers of the
  other modules. A context holds a branch of the multi store, the events emitted so far and facts about
  the block. The multi store is the module's two stores and the state \<open>'x\<close> of the other modules, which
  only their keepers touch. Gas metering and logging are not modelled.
\<close>

type_synonym event = "string \<times> (string \<times> string) list"

record 'x multi_store =
  ms_kv :: store
  ms_transient :: store
  ms_ext :: 'x

record 'x ctx =
  cx_ms :: "'x multi_store"
  cx_events :: "event list"
  cx_BlockHeight :: int64
  cx_TxIndex :: int64
  cx_ChainID :: string
  cx_IsTracing :: bool

text \<open>The keepers of the auth and bank modules. A bank operation returns the new state, the events it
  emitted and an error; on an error the state may have changed. Amounts of coins are amounts of the
  base denomination.\<close>

record 'x keepers =
  HasAccount :: "'x \<Rightarrow> bytes \<Rightarrow> bool"
  SetNewAccount :: "'x \<Rightarrow> bytes \<Rightarrow> 'x"
  GetModuleAddress :: "string \<Rightarrow> bytes"
  bank_GetBalance :: "'x \<Rightarrow> bytes \<Rightarrow> int"
  bank_LockedCoins :: "'x \<Rightarrow> bytes \<Rightarrow> int"
  bank_GetWeiBalance :: "'x \<Rightarrow> bytes \<Rightarrow> int"
  SubUnlockedCoins :: "'x \<Rightarrow> bytes \<Rightarrow> int \<Rightarrow> 'x \<times> event list \<times> error"
  AddCoins :: "'x \<Rightarrow> bytes \<Rightarrow> int \<Rightarrow> 'x \<times> event list \<times> error"
  SubWei :: "'x \<Rightarrow> bytes \<Rightarrow> int \<Rightarrow> 'x \<times> event list \<times> error"
  AddWei :: "'x \<Rightarrow> bytes \<Rightarrow> int \<Rightarrow> 'x \<times> event list \<times> error"
  SendCoinsAndWei :: "'x \<Rightarrow> bytes \<Rightarrow> bytes \<Rightarrow> int \<Rightarrow> int \<Rightarrow> 'x \<times> event list \<times> error"
  MintCoins :: "'x \<Rightarrow> string \<Rightarrow> int \<Rightarrow> 'x \<times> event list \<times> error"

section \<open>Access to the stores\<close>

definition KVStore :: "'x ctx \<Rightarrow> store" where
  "KVStore c = ms_kv (cx_ms c)"

definition TransientStore :: "'x ctx \<Rightarrow> store" where
  "TransientStore c = ms_transient (cx_ms c)"

definition ctx_ext :: "'x ctx \<Rightarrow> 'x" where
  "ctx_ext c = ms_ext (cx_ms c)"

definition with_kv :: "(store \<Rightarrow> store) \<Rightarrow> 'x ctx \<Rightarrow> 'x ctx" where
  "with_kv f c = c\<lparr>cx_ms := (cx_ms c)\<lparr>ms_kv := f (ms_kv (cx_ms c))\<rparr>\<rparr>"

definition with_transient :: "(store \<Rightarrow> store) \<Rightarrow> 'x ctx \<Rightarrow> 'x ctx" where
  "with_transient f c = c\<lparr>cx_ms := (cx_ms c)\<lparr>ms_transient := f (ms_transient (cx_ms c))\<rparr>\<rparr>"

definition with_ext :: "'x \<Rightarrow> 'x ctx \<Rightarrow> 'x ctx" where
  "with_ext x c = c\<lparr>cx_ms := (cx_ms c)\<lparr>ms_ext := x\<rparr>\<rparr>"

definition EmitEvents :: "event list \<Rightarrow> 'x ctx \<Rightarrow> 'x ctx" where
  "EmitEvents es c = c\<lparr>cx_events := cx_events c @ es\<rparr>"

text \<open>\<open>Keeper.PrefixStore\<close> and \<open>prefix.NewStore\<close>: keys below a prefix.\<close>

definition PrefixStore_Get :: "'x ctx \<Rightarrow> bytes \<Rightarrow> bytes \<Rightarrow> bytes option" where
  "PrefixStore_Get c pref key = kv_get (KVStore c) (pref @ key)"

definition PrefixStore_Set :: "'x ctx \<Rightarrow> bytes \<Rightarrow> bytes \<Rightarrow> bytes \<Rightarrow> 'x ctx" where
  "PrefixStore_Set c pref key v = with_kv (\<lambda>s. kv_set s (pref @ key) v) c"

definition PrefixStore_Delete :: "'x ctx \<Rightarrow> bytes \<Rightarrow> bytes \<Rightarrow> 'x ctx" where
  "PrefixStore_Delete c pref key = with_kv (\<lambda>s. kv_delete s (pref @ key)) c"

definition PurgePrefix :: "'x ctx \<Rightarrow> bytes \<Rightarrow> 'x ctx" where
  "PurgePrefix c pref = with_kv (\<lambda>s. prefix_delete_all s pref) c"

definition ctx_ok :: "'x ctx \<Rightarrow> bool" where
  "ctx_ok c \<longleftrightarrow> kv_ok (KVStore c) \<and> kv_ok (TransientStore c)"

lemma ctx_access [simp]:
  "KVStore (with_kv f c) = f (KVStore c)"
  "KVStore (with_transient f c) = KVStore c"
  "KVStore (with_ext x c) = KVStore c"
  "KVStore (EmitEvents es c) = KVStore c"
  "TransientStore (with_kv f c) = TransientStore c"
  "TransientStore (with_transient f c) = f (TransientStore c)"
  "TransientStore (with_ext x c) = TransientStore c"
  "TransientStore (EmitEvents es c) = TransientStore c"
  "ctx_ext (with_kv f c) = ctx_ext c"
  "ctx_ext (with_transient f c) = ctx_ext c"
  "ctx_ext (with_ext x c) = x"
  "ctx_ext (EmitEvents es c) = ctx_ext c"
  by (simp_all add: KVStore_def TransientStore_def ctx_ext_def with_kv_def with_transient_def with_ext_def
      EmitEvents_def)

lemma ctx_fields [simp]:
  "cx_events (with_kv f c) = cx_events c" "cx_events (with_transient f c) = cx_events c"
  "cx_events (with_ext x c) = cx_events c" "cx_events (EmitEvents es c) = cx_events c @ es"
  "cx_BlockHeight (with_kv f c) = cx_BlockHeight c" "cx_BlockHeight (with_transient f c) = cx_BlockHeight c"
  "cx_BlockHeight (with_ext x c) = cx_BlockHeight c" "cx_BlockHeight (EmitEvents es c) = cx_BlockHeight c"
  "cx_TxIndex (with_kv f c) = cx_TxIndex c" "cx_TxIndex (with_transient f c) = cx_TxIndex c"
  "cx_TxIndex (with_ext x c) = cx_TxIndex c" "cx_TxIndex (EmitEvents es c) = cx_TxIndex c"
  "cx_ChainID (with_kv f c) = cx_ChainID c" "cx_ChainID (with_transient f c) = cx_ChainID c"
  "cx_ChainID (with_ext x c) = cx_ChainID c" "cx_ChainID (EmitEvents es c) = cx_ChainID c"
  "cx_IsTracing (with_kv f c) = cx_IsTracing c" "cx_IsTracing (with_transient f c) = cx_IsTracing c"
  "cx_IsTracing (with_ext x c) = cx_IsTracing c" "cx_IsTracing (EmitEvents es c) = cx_IsTracing c"
  by (simp_all add: with_kv_def with_transient_def with_ext_def EmitEvents_def)

lemma PrefixStore_access [simp]:
  "KVStore (PrefixStore_Set c p k v) = kv_set (KVStore c) (p @ k) v"
  "KVStore (PrefixStore_Delete c p k) = kv_delete (KVStore c) (p @ k)"
  "KVStore (PurgePrefix c p) = prefix_delete_all (KVStore c) p"
  "ctx_ext (PrefixStore_Set c p k v) = ctx_ext c"
  "ctx_ext (PrefixStore_Delete c p k) = ctx_ext c"
  "ctx_ext (PurgePrefix c p) = ctx_ext c"
  "TransientStore (PrefixStore_Set c p k v) = TransientStore c"
  "TransientStore (PrefixStore_Delete c p k) = TransientStore c"
  "TransientStore (PurgePrefix c p) = TransientStore c"
  by (simp_all add: PrefixStore_Set_def PrefixStore_Delete_def PurgePrefix_def)

lemma ctx_ok_ops [simp]:
  "ctx_ok c \<Longrightarrow> ctx_ok (PrefixStore_Set c p k v)"
  "ctx_ok c \<Longrightarrow> ctx_ok (PrefixStore_Delete c p k)"
  "ctx_ok c \<Longrightarrow> ctx_ok (PurgePrefix c p)"
  "ctx_ok c \<Longrightarrow> ctx_ok (with_ext x c)"
  "ctx_ok c \<Longrightarrow> ctx_ok (EmitEvents es c)"
  "ctx_ok c \<Longrightarrow> ctx_ok (with_transient (\<lambda>s. kv_set s k v) c)"
  "ctx_ok c \<Longrightarrow> ctx_ok (with_transient (\<lambda>s. kv_delete s k) c)"
  by (simp_all add: ctx_ok_def)

section \<open>A concrete instance\<close>

text \<open>A ledger for the witnesses: accounts that exist and a balance in wei per account, each in an
  association list; coins are whole multiples of \<open>10 ^ 12\<close> wei, nothing is locked, and a debit beyond the
  balance is an error that leaves the state alone.\<close>

record ledger =
  lg_accounts :: "bytes list"
  lg_wei :: "(bytes \<times> int) list"

definition lg_get :: "ledger \<Rightarrow> bytes \<Rightarrow> int" where
  "lg_get x a = (case map_of (lg_wei x) a of None \<Rightarrow> 0 | Some w \<Rightarrow> w)"

definition lg_put :: "ledger \<Rightarrow> bytes \<Rightarrow> int \<Rightarrow> ledger" where
  "lg_put x a w = x\<lparr>lg_wei := (a, w) # filter (\<lambda>p. fst p \<noteq> a) (lg_wei x)\<rparr>"

definition lg_total :: "ledger \<Rightarrow> int" where
  "lg_total x = sum_list (map snd (lg_wei x))"

definition lg_add :: "int \<Rightarrow> ledger \<Rightarrow> bytes \<Rightarrow> int \<Rightarrow> ledger \<times> event list \<times> error" where
  "lg_add unit x a n =
     (if lg_get x a + unit * n < 0 \<or> \<not> distinct (map fst (lg_wei x)) then (x, [], Some ''insufficient funds'')
      else (lg_put x a (lg_get x a + unit * n), [], None))"

definition lg_send :: "ledger \<Rightarrow> bytes \<Rightarrow> bytes \<Rightarrow> int \<Rightarrow> int \<Rightarrow> ledger \<times> event list \<times> error" where
  "lg_send x a b n w =
     (case lg_add 1 x a (- (1000000000000 * n + w)) of
        (x', _, Some e) \<Rightarrow> (x', [], Some e)
      | (x', _, None) \<Rightarrow> lg_add 1 x' b (1000000000000 * n + w))"

definition ledger_keepers :: "ledger keepers" where
  "ledger_keepers = \<lparr>
     HasAccount = (\<lambda>x a. a \<in> set (lg_accounts x)),
     SetNewAccount = (\<lambda>x a. x\<lparr>lg_accounts := a # lg_accounts x\<rparr>),
     GetModuleAddress = (\<lambda>n. str_bytes n),
     bank_GetBalance = (\<lambda>x a. lg_get x a div 1000000000000),
     bank_LockedCoins = (\<lambda>x a. 0),
     bank_GetWeiBalance = (\<lambda>x a. lg_get x a mod 1000000000000),
     SubUnlockedCoins = (\<lambda>x a n. lg_add (- 1000000000000) x a n),
     AddCoins = (\<lambda>x a n. lg_add 1000000000000 x a n),
     SubWei = (\<lambda>x a n. lg_add (- 1) x a n),
     AddWei = (\<lambda>x a n. lg_add 1 x a n),
     SendCoinsAndWei = lg_send,
     MintCoins = (\<lambda>x m n. lg_add 1000000000000 x (str_bytes m) n)\<rparr>"

definition ctx0 :: "ledger ctx" where
  "ctx0 = \<lparr>cx_ms = \<lparr>ms_kv = [], ms_transient = [], ms_ext = \<lparr>lg_accounts = [], lg_wei = []\<rparr>\<rparr>,
           cx_events = [], cx_BlockHeight = 8, cx_TxIndex = 1, cx_ChainID = ''test-1'', cx_IsTracing = False\<rparr>"

lemma ctx0_ok [simp]: "ctx_ok ctx0" "KVStore ctx0 = []" "TransientStore ctx0 = []"
  by (simp_all add: ctx_ok_def ctx0_def KVStore_def TransientStore_def)

lemma sum_list_remove_key:
  "distinct (map fst xs) \<Longrightarrow>
     sum_list (map snd (filter (\<lambda>p. fst p \<noteq> a) xs)) = sum_list (map snd xs) - (case map_of xs a of None \<Rightarrow> 0 | Some w \<Rightarrow> (w :: int))"
proof (induction xs)
  case (Cons p xs)
  have "filter (\<lambda>p. fst p \<noteq> a) xs = xs" if "a \<notin> fst ` set xs"
    using that by (intro filter_True) auto
  moreover have "map_of xs a = None" if "a \<notin> fst ` set xs"
    using that by (simp add: map_of_eq_None_iff)
  ultimately show ?case using Cons by (cases p) (auto split: option.splits)
qed simp

lemma lg_add_total: "lg_add u x a n = (x', es, None) \<Longrightarrow> lg_total x' = lg_total x + u * n"
  by (auto simp: lg_add_def lg_put_def lg_total_def lg_get_def sum_list_remove_key split: if_splits)

end
