(* ===== verification/Evm_Config.thy ===== *)
theory Evm_Config
  imports Evm_Ctx
begin

text \<open>
  \<open>x/evm/config/config.go\<close>: the EVM chain ID of a chain; and \<open>x/evm/types/config.go\<close>: the fork schedule that the
  module hands to the EVM. \<open>IsCancun\<close> and \<open>CheckConfigForkOrder\<close> belong to go-ethereum.
\<close>

section \<open>Chain IDs\<close>

definition DefaultChainID :: int where "DefaultChainID = 10123"

definition ChainIDMapping :: "(string \<times> int) list" where
  "ChainIDMapping = [(''test-1'', 10123)]"

definition GetEVMChainID :: "string \<Rightarrow> int" where
  "GetEVMChainID cosmosChainID =
     (case map_of ChainIDMapping cosmosChainID of Some evmChainID \<Rightarrow> evmChainID | None \<Rightarrow> DefaultChainID)"

definition IsLiveChainID :: "'x ctx \<Rightarrow> bool" where
  "IsLiveChainID c \<longleftrightarrow> map_of ChainIDMapping (cx_ChainID c) \<noteq> None"

definition GetVersionWthDefault :: "'x ctx \<Rightarrow> uint16 \<Rightarrow> uint16 \<Rightarrow> uint16" where
  "GetVersionWthDefault c override defaultVersion =
     (if override > 0 \<and> \<not> IsLiveChainID c then override else defaultVersion)"

text \<open>\<open>Keeper.ChainID\<close> (\<open>x/evm/keeper/params.go\<close>), with the replay of Ethereum blocks off.\<close>

definition keeper_ChainID :: "'x ctx \<Rightarrow> int" where
  "keeper_ChainID c = GetEVMChainID (cx_ChainID c)"

section \<open>The fork schedule\<close>

record ChainConfig =
  cc_CancunTime :: int64
  cc_PragueTime :: int64
  cc_VerkleTime :: int64

text \<open>\<open>params.ChainConfig\<close> of go-ethereum.\<close>

record params_ChainConfig =
  pc_ChainID :: bigint
  pc_HomesteadBlock :: bigint
  pc_DAOForkBlock :: bigint
  pc_DAOForkSupport :: bool
  pc_EIP150Block :: bigint
  pc_EIP155Block :: bigint
  pc_EIP158Block :: bigint
  pc_ByzantiumBlock :: bigint
  pc_ConstantinopleBlock :: bigint
  pc_PetersburgBlock :: bigint
  pc_IstanbulBlock :: bigint
  pc_MuirGlacierBlock :: bigint
  pc_BerlinBlock :: bigint
  pc_LondonBlock :: bigint
  pc_ArrowGlacierBlock :: bigint
  pc_GrayGlacierBlock :: bigint
  pc_MergeNetsplitBlock :: bigint
  pc_ShanghaiTime :: "uint64 option"
  pc_CancunTime :: "uint64 option"
  pc_PragueTime :: "uint64 option"
  pc_VerkleTime :: "uint64 option"

definition getUpgradeTimestamp :: "int64 \<Rightarrow> uint64 option" where
  "getUpgradeTimestamp i = (if sint i < 0 then None else Some i)"

definition EthereumConfig :: "ChainConfig \<Rightarrow> bigint \<Rightarrow> params_ChainConfig" where
  "EthereumConfig cc chainID = \<lparr>
     pc_ChainID = chainID,
     pc_HomesteadBlock = Some 0,
     pc_DAOForkBlock = Some 0,
     pc_DAOForkSupport = False,
     pc_EIP150Block = Some 0,
     pc_EIP155Block = Some 0,
     pc_EIP158Block = Some 0,
     pc_ByzantiumBlock = Some 0,
     pc_ConstantinopleBlock = Some 0,
     pc_PetersburgBlock = Some 0,
     pc_IstanbulBlock = Some 0,
     pc_MuirGlacierBlock = Some 0,
     pc_BerlinBlock = Some 0,
     pc_LondonBlock = Some 0,
     pc_ArrowGlacierBlock = Some 0,
     pc_GrayGlacierBlock = Some 0,
     pc_MergeNetsplitBlock = Some 0,
     pc_ShanghaiTime = getUpgradeTimestamp 0,
     pc_CancunTime = getUpgradeTimestamp (cc_CancunTime cc),
     pc_PragueTime = getUpgradeTimestamp (cc_PragueTime cc),
     pc_VerkleTime = getUpgradeTimestamp (cc_VerkleTime cc)\<rparr>"

definition CancunTime :: int64 where "CancunTime = 0"

definition DefaultChainConfig :: ChainConfig where
  "DefaultChainConfig = \<lparr>cc_CancunTime = CancunTime, cc_PragueTime = - 1, cc_VerkleTime = - 1\<rparr>"

definition ChainConfig_Validate :: "(params_ChainConfig \<Rightarrow> error) \<Rightarrow> ChainConfig \<Rightarrow> error" where
  "ChainConfig_Validate CheckConfigForkOrder cc =
     (if CheckConfigForkOrder (EthereumConfig cc None) \<noteq> None then Some ''invalid config fork order'' else None)"

end
