(* ===== verification/Keeper_Pointer.thy ===== *)
theory Keeper_Pointer
  imports Evm_Config
begin

text \<open>
  The registry of pointer contracts: \<open>x/evm/keeper/pointer.go\<close>, with the versions of the artifacts
  (\<open>x/evm/artifacts\<close>). A pointer is stored under its key and a
  version of two bytes, and a reverse entry under the pointer's address says what it points to. A
  lookup takes the last entry of the iterator below the key. The getters return nothing where the
  source returns \<open>exists = false\<close>.
\<close>

section \<open>Versions\<close>

definition erc20_CurrentVersion :: uint16 where "erc20_CurrentVersion = 2"
definition erc721_CurrentVersion :: uint16 where "erc721_CurrentVersion = 6"
definition native_CurrentVersion :: uint16 where "native_CurrentVersion = 1"
definition cw721_CurrentVersion :: uint16 where "cw721_CurrentVersion = 6"
definition cw1155_CurrentVersion :: uint16 where "cw1155_CurrentVersion = 2"
definition erc1155_CurrentVersion :: uint16 where "erc1155_CurrentVersion = 1"

text \<open>The version of the cw20 artifact; \<open>versionOverride\<close> is a package variable that tests set.\<close>

definition cw20_CurrentVersion :: "uint16 \<Rightarrow> 'x ctx \<Rightarrow> uint16" where
  "cw20_CurrentVersion versionOverride c = GetVersionWthDefault c versionOverride 2"

definition GetVersionBz :: "uint16 \<Rightarrow> bytes" where
  "GetVersionBz version = PutUint16 version"

section \<open>Entries\<close>

type_synonym pointer_info = "(bytes \<times> uint16) option"

definition ErrorPointerToPointerNotAllowed :: string where
  "ErrorPointerToPointerNotAllowed = ''cannot create a pointer to a pointer''"

text \<open>The point queries that a tracing context falls back on, from \<open>maxVersion\<close> down to 0.\<close>

fun pointer_fallback :: "'x ctx \<Rightarrow> bytes \<Rightarrow> nat \<Rightarrow> pointer_info" where
  "pointer_fallback c pref v =
     (case PrefixStore_Get c pref (PutUint16 (word_of_nat v)) of
        Some a \<Rightarrow> Some (a, word_of_nat v)
      | None \<Rightarrow> (case v of 0 \<Rightarrow> None | Suc v' \<Rightarrow> pointer_fallback c pref v'))"

declare pointer_fallback.simps [simp del]

definition GetPointerInfo :: "'x ctx \<Rightarrow> bytes \<Rightarrow> uint16 \<Rightarrow> pointer_info go" where
  "GetPointerInfo c pref maxVersion =
     (let iter = prefix_iterator (KVStore c) pref in
      if iter = [] then
        if \<not> cx_IsTracing c then Done None
        else Done (pointer_fallback c pref (unat maxVersion))
      else
        go_bind (Uint16 (fst (last iter))) (\<lambda>version. Done (Some (snd (last iter), version))))"

definition GetAnyPointerInfo :: "'x ctx \<Rightarrow> bytes \<Rightarrow> pointer_info go" where
  "GetAnyPointerInfo c pref =
     (let iter = prefix_iterator (KVStore c) pref in
      if iter = [] then Done None
      else go_bind (Uint16 (fst (last iter))) (\<lambda>version. Done (Some (snd (last iter), version))))"

definition setPointerInfo :: "'x ctx \<Rightarrow> bytes \<Rightarrow> bytes \<Rightarrow> uint16 \<Rightarrow> 'x ctx" where
  "setPointerInfo c pref addr version = PrefixStore_Set c pref (PutUint16 version) addr"

definition deletePointerInfo :: "'x ctx \<Rightarrow> bytes \<Rightarrow> uint16 \<Rightarrow> 'x ctx" where
  "deletePointerInfo c pref version = PrefixStore_Delete c pref (PutUint16 version)"

definition evmAddressIsPointer :: "'x ctx \<Rightarrow> address \<Rightarrow> bool go" where
  "evmAddressIsPointer c addr =
     go_map (\<lambda>i. i \<noteq> None) (GetAnyPointerInfo c (PointerReverseRegistryKey addr))"

definition cwAddressIsPointer :: "lib \<Rightarrow> 'x ctx \<Rightarrow> string \<Rightarrow> bool go" where
  "cwAddressIsPointer l c addr =
     go_map (\<lambda>i. i \<noteq> None) (GetAnyPointerInfo c (PointerReverseRegistryKey (BytesToAddress l (str_bytes addr))))"

section \<open>Pointers of the EVM side\<close>

text \<open>A setter returns the error and the context; \<open>setPointerInfo\<close> never fails.\<close>

definition SetERC20NativePointerWithVersion :: "lib \<Rightarrow> 'x ctx \<Rightarrow> string \<Rightarrow> address \<Rightarrow> uint16 \<Rightarrow> (error \<times> 'x ctx) go" where
  "SetERC20NativePointerWithVersion l c token addr version =
     go_bind (cwAddressIsPointer l c token) (\<lambda>isPointer.
     if isPointer then Done (Some ErrorPointerToPointerNotAllowed, c)
     else
       let c1 = setPointerInfo c (PointerERC20NativeKey token) addr version in
       Done (None, setPointerInfo c1 (PointerReverseRegistryKey addr) (str_bytes token) version))"

definition SetERC20NativePointer :: "lib \<Rightarrow> 'x ctx \<Rightarrow> string \<Rightarrow> address \<Rightarrow> (error \<times> 'x ctx) go" where
  "SetERC20NativePointer l c token addr = SetERC20NativePointerWithVersion l c token addr native_CurrentVersion"

definition GetERC20NativePointer :: "lib \<Rightarrow> 'x ctx \<Rightarrow> string \<Rightarrow> (address \<times> uint16) option go" where
  "GetERC20NativePointer l c token =
     go_map (map_option (\<lambda>(addrBz, version). (BytesToAddress l addrBz, version)))
       (GetPointerInfo c (PointerERC20NativeKey token) native_CurrentVersion)"

definition DeleteERC20NativePointer :: "lib \<Rightarrow> 'x ctx \<Rightarrow> string \<Rightarrow> uint16 \<Rightarrow> 'x ctx go" where
  "DeleteERC20NativePointer l c token version =
     go_bind (GetERC20NativePointer l c token) (\<lambda>p.
     case p of None \<Rightarrow> Done c
     | Some (addr, _) \<Rightarrow>
         Done (deletePointerInfo (deletePointerInfo c (PointerERC20NativeKey token) version) (PointerReverseRegistryKey addr) version))"

definition SetERC20CW20PointerWithVersion :: "lib \<Rightarrow> 'x ctx \<Rightarrow> string \<Rightarrow> address \<Rightarrow> uint16 \<Rightarrow> (error \<times> 'x ctx) go" where
  "SetERC20CW20PointerWithVersion l c cw20Address addr version =
     go_bind (cwAddressIsPointer l c cw20Address) (\<lambda>isPointer.
     if isPointer then Done (Some ErrorPointerToPointerNotAllowed, c)
     else
       let c1 = setPointerInfo c (PointerERC20CW20Key cw20Address) addr version in
       Done (None, setPointerInfo c1 (PointerReverseRegistryKey addr) (str_bytes cw20Address) version))"

definition SetERC20CW20Pointer :: "uint16 \<Rightarrow> lib \<Rightarrow> 'x ctx \<Rightarrow> string \<Rightarrow> address \<Rightarrow> (error \<times> 'x ctx) go" where
  "SetERC20CW20Pointer ov l c cw20Address addr = SetERC20CW20PointerWithVersion l c cw20Address addr (cw20_CurrentVersion ov c)"

definition GetERC20CW20Pointer :: "uint16 \<Rightarrow> lib \<Rightarrow> 'x ctx \<Rightarrow> string \<Rightarrow> (address \<times> uint16) option go" where
  "GetERC20CW20Pointer ov l c cw20Address =
     go_map (map_option (\<lambda>(addrBz, version). (BytesToAddress l addrBz, version)))
       (GetPointerInfo c (PointerERC20CW20Key cw20Address) (cw20_CurrentVersion ov c))"

definition DeleteERC20CW20Pointer :: "uint16 \<Rightarrow> lib \<Rightarrow> 'x ctx \<Rightarrow> string \<Rightarrow> uint16 \<Rightarrow> 'x ctx go" where
  "DeleteERC20CW20Pointer ov l c cw20Address version =
     go_bind (GetERC20CW20Pointer ov l c cw20Address) (\<lambda>p.
     case p of None \<Rightarrow> Done c
     | Some (addr, _) \<Rightarrow>
         Done (deletePointerInfo (deletePointerInfo c (PointerERC20CW20Key cw20Address) version) (PointerReverseRegistryKey addr) version))"

definition SetERC721CW721PointerWithVersion :: "lib \<Rightarrow> 'x ctx \<Rightarrow> string \<Rightarrow> address \<Rightarrow> uint16 \<Rightarrow> (error \<times> 'x ctx) go" where
  "SetERC721CW721PointerWithVersion l c cw721Address addr version =
     go_bind (cwAddressIsPointer l c cw721Address) (\<lambda>isPointer.
     if isPointer then Done (Some ErrorPointerToPointerNotAllowed, c)
     else
       let c1 = setPointerInfo c (PointerERC721CW721Key cw721Address) addr version in
       Done (None, setPointerInfo c1 (PointerReverseRegistryKey addr) (str_bytes cw721Address) version))"

definition SetERC721CW721Pointer :: "lib \<Rightarrow> 'x ctx \<Rightarrow> string \<Rightarrow> address \<Rightarrow> (error \<times> 'x ctx) go" where
  "SetERC721CW721Pointer l c cw721Address addr = SetERC721CW721PointerWithVersion l c cw721Address addr cw721_CurrentVersion"

definition GetERC721CW721Pointer :: "lib \<Rightarrow> 'x ctx \<Rightarrow> string \<Rightarrow> (address \<times> uint16) option go" where
  "GetERC721CW721Pointer l c cw721Address =
     go_map (map_option (\<lambda>(addrBz, version). (BytesToAddress l addrBz, version)))
       (GetPointerInfo c (PointerERC721CW721Key cw721Address) cw721_CurrentVersion)"

definition DeleteERC721CW721Pointer :: "lib \<Rightarrow> 'x ctx \<Rightarrow> string \<Rightarrow> uint16 \<Rightarrow> 'x ctx go" where
  "DeleteERC721CW721Pointer l c cw721Address version =
     go_bind (GetERC721CW721Pointer l c cw721Address) (\<lambda>p.
     case p of None \<Rightarrow> Done c
     | Some (addr, _) \<Rightarrow>
         Done (deletePointerInfo (deletePointerInfo c (PointerERC721CW721Key cw721Address) version) (PointerReverseRegistryKey addr) version))"

definition SetERC1155CW1155PointerWithVersion :: "lib \<Rightarrow> 'x ctx \<Rightarrow> string \<Rightarrow> address \<Rightarrow> uint16 \<Rightarrow> (error \<times> 'x ctx) go" where
  "SetERC1155CW1155PointerWithVersion l c cw1155Address addr version =
     go_bind (cwAddressIsPointer l c cw1155Address) (\<lambda>isPointer.
     if isPointer then Done (Some ErrorPointerToPointerNotAllowed, c)
     else
       let c1 = setPointerInfo c (PointerERC1155CW1155Key cw1155Address) addr version in
       Done (None, setPointerInfo c1 (PointerReverseRegistryKey addr) (str_bytes cw1155Address) version))"

definition SetERC1155CW1155Pointer :: "lib \<Rightarrow> 'x ctx \<Rightarrow> string \<Rightarrow> address \<Rightarrow> (error \<times> 'x ctx) go" where
  "SetERC1155CW1155Pointer l c cw1155Address addr = SetERC1155CW1155PointerWithVersion l c cw1155Address addr cw1155_CurrentVersion"

definition GetERC1155CW1155Pointer :: "lib \<Rightarrow> 'x ctx \<Rightarrow> string \<Rightarrow> (address \<times> uint16) option go" where
  "GetERC1155CW1155Pointer l c cw1155Address =
     go_map (map_option (\<lambda>(addrBz, version). (BytesToAddress l addrBz, version)))
       (GetPointerInfo c (PointerERC1155CW1155Key cw1155Address) cw1155_CurrentVersion)"

definition DeleteERC1155CW1155Pointer :: "lib \<Rightarrow> 'x ctx \<Rightarrow> string \<Rightarrow> uint16 \<Rightarrow> 'x ctx go" where
  "DeleteERC1155CW1155Pointer l c cw1155Address version =
     go_bind (GetERC1155CW1155Pointer l c cw1155Address) (\<lambda>p.
     case p of None \<Rightarrow> Done c
     | Some (addr, _) \<Rightarrow>
         Done (deletePointerInfo (deletePointerInfo c (PointerERC1155CW1155Key cw1155Address) version) (PointerReverseRegistryKey addr) version))"

section \<open>Pointers of the CosmWasm side\<close>

definition MustAccAddressFromBech32 :: "lib \<Rightarrow> string \<Rightarrow> bytes go" where
  "MustAccAddressFromBech32 l s = (case AccAddressFromBech32 l s of Inl e \<Rightarrow> Panic e | Inr a \<Rightarrow> Done a)"

definition SetCW20ERC20PointerWithVersion :: "lib \<Rightarrow> 'x ctx \<Rightarrow> address \<Rightarrow> string \<Rightarrow> uint16 \<Rightarrow> (error \<times> 'x ctx) go" where
  "SetCW20ERC20PointerWithVersion l c erc20Address addr version =
     go_bind (evmAddressIsPointer c erc20Address) (\<lambda>isPointer.
     if isPointer then Done (Some ErrorPointerToPointerNotAllowed, c)
     else
       let c1 = setPointerInfo c (PointerCW20ERC20Key erc20Address) (str_bytes addr) version in
       Done (None, setPointerInfo c1 (PointerReverseRegistryKey (BytesToAddress l (str_bytes addr))) erc20Address version))"

definition SetCW20ERC20Pointer :: "lib \<Rightarrow> 'x ctx \<Rightarrow> address \<Rightarrow> string \<Rightarrow> (error \<times> 'x ctx) go" where
  "SetCW20ERC20Pointer l c erc20Address addr = SetCW20ERC20PointerWithVersion l c erc20Address addr erc20_CurrentVersion"

definition GetCW20ERC20Pointer :: "lib \<Rightarrow> 'x ctx \<Rightarrow> address \<Rightarrow> (bytes \<times> uint16) option go" where
  "GetCW20ERC20Pointer l c erc20Address =
     go_bind (GetPointerInfo c (PointerCW20ERC20Key erc20Address) erc20_CurrentVersion) (\<lambda>p.
     case p of None \<Rightarrow> Done None
     | Some (addrBz, version) \<Rightarrow>
         go_bind (MustAccAddressFromBech32 l (bytes_str addrBz)) (\<lambda>addr. Done (Some (addr, version))))"

definition DeleteCW20ERC20Pointer :: "lib \<Rightarrow> 'x ctx \<Rightarrow> address \<Rightarrow> uint16 \<Rightarrow> 'x ctx go" where
  "DeleteCW20ERC20Pointer l c erc20Address version =
     go_bind (GetCW20ERC20Pointer l c erc20Address) (\<lambda>p.
     case p of None \<Rightarrow> Done c
     | Some (addr, _) \<Rightarrow>
         Done (deletePointerInfo (deletePointerInfo c (PointerCW20ERC20Key erc20Address) version)
                (PointerReverseRegistryKey (BytesToAddress l (str_bytes (AccAddress_String l addr)))) version))"

definition SetCW721ERC721PointerWithVersion :: "lib \<Rightarrow> 'x ctx \<Rightarrow> address \<Rightarrow> string \<Rightarrow> uint16 \<Rightarrow> (error \<times> 'x ctx) go" where
  "SetCW721ERC721PointerWithVersion l c erc721Address addr version =
     go_bind (evmAddressIsPointer c erc721Address) (\<lambda>isPointer.
     if isPointer then Done (Some ErrorPointerToPointerNotAllowed, c)
     else
       let c1 = setPointerInfo c (PointerCW721ERC721Key erc721Address) (str_bytes addr) version in
       Done (None, setPointerInfo c1 (PointerReverseRegistryKey (BytesToAddress l (str_bytes addr))) erc721Address version))"

definition SetCW721ERC721Pointer :: "lib \<Rightarrow> 'x ctx \<Rightarrow> address \<Rightarrow> string \<Rightarrow> (error \<times> 'x ctx) go" where
  "SetCW721ERC721Pointer l c erc721Address addr = SetCW721ERC721PointerWithVersion l c erc721Address addr erc721_CurrentVersion"

definition GetCW721ERC721Pointer :: "lib \<Rightarrow> 'x ctx \<Rightarrow> address \<Rightarrow> (bytes \<times> uint16) option go" where
  "GetCW721ERC721Pointer l c erc721Address =
     go_bind (GetPointerInfo c (PointerCW721ERC721Key erc721Address) erc721_CurrentVersion) (\<lambda>p.
     case p of None \<Rightarrow> Done None
     | Some (addrBz, version) \<Rightarrow>
         go_bind (MustAccAddressFromBech32 l (bytes_str addrBz)) (\<lambda>addr. Done (Some (addr, version))))"

definition DeleteCW721ERC721Pointer :: "lib \<Rightarrow> 'x ctx \<Rightarrow> address \<Rightarrow> uint16 \<Rightarrow> 'x ctx go" where
  "DeleteCW721ERC721Pointer l c erc721Address version =
     go_bind (GetCW721ERC721Pointer l c erc721Address) (\<lambda>p.
     case p of None \<Rightarrow> Done c
     | Some (addr, _) \<Rightarrow>
         Done (deletePointerInfo (deletePointerInfo c (PointerCW721ERC721Key erc721Address) version)
                (PointerReverseRegistryKey (BytesToAddress l (str_bytes (AccAddress_String l addr)))) version))"

definition SetCW1155ERC1155PointerWithVersion :: "lib \<Rightarrow> 'x ctx \<Rightarrow> address \<Rightarrow> string \<Rightarrow> uint16 \<Rightarrow> (error \<times> 'x ctx) go" where
  "SetCW1155ERC1155PointerWithVersion l c erc1155Address addr version =
     go_bind (evmAddressIsPointer c erc1155Address) (\<lambda>isPointer.
     if isPointer then Done (Some ErrorPointerToPointerNotAllowed, c)
     else
       let c1 = setPointerInfo c (PointerCW1155ERC1155Key erc1155Address) (str_bytes addr) version in
       Done (None, setPointerInfo c1 (PointerReverseRegistryKey (BytesToAddress l (str_bytes addr))) erc1155Address version))"

definition SetCW1155ERC1155Pointer :: "lib \<Rightarrow> 'x ctx \<Rightarrow> address \<Rightarrow> string \<Rightarrow> (error \<times> 'x ctx) go" where
  "SetCW1155ERC1155Pointer l c erc1155Address addr = SetCW1155ERC1155PointerWithVersion l c erc1155Address addr erc1155_CurrentVersion"

definition GetCW1155ERC1155Pointer :: "lib \<Rightarrow> 'x ctx \<Rightarrow> address \<Rightarrow> (bytes \<times> uint16) option go" where
  "GetCW1155ERC1155Pointer l c erc1155Address =
     go_bind (GetPointerInfo c (PointerCW1155ERC1155Key erc1155Address) erc1155_CurrentVersion) (\<lambda>p.
     case p of None \<Rightarrow> Done None
     | Some (addrBz, version) \<Rightarrow>
         go_bind (MustAccAddressFromBech32 l (bytes_str addrBz)) (\<lambda>addr. Done (Some (addr, version))))"

definition DeleteCW1155ERC1155Pointer :: "lib \<Rightarrow> 'x ctx \<Rightarrow> address \<Rightarrow> uint16 \<Rightarrow> 'x ctx go" where
  "DeleteCW1155ERC1155Pointer l c erc1155Address version =
     go_bind (GetCW1155ERC1155Pointer l c erc1155Address) (\<lambda>p.
     case p of None \<Rightarrow> Done c
     | Some (addr, _) \<Rightarrow>
         Done (deletePointerInfo (deletePointerInfo c (PointerCW1155ERC1155Key erc1155Address) version)
                (PointerReverseRegistryKey (BytesToAddress l (str_bytes (AccAddress_String l addr)))) version))"

section \<open>Lookups\<close>

definition GetAnyPointeeInfo :: "uint16 \<Rightarrow> lib \<Rightarrow> 'x ctx \<Rightarrow> string \<Rightarrow> (address \<times> uint16) option go" where
  "GetAnyPointeeInfo ov l c cwAddress =
     go_bind (GetERC20CW20Pointer ov l c cwAddress) (\<lambda>p. case p of Some r \<Rightarrow> Done (Some r) | None \<Rightarrow>
     go_bind (GetERC721CW721Pointer l c cwAddress) (\<lambda>p. case p of Some r \<Rightarrow> Done (Some r) | None \<Rightarrow>
     GetERC1155CW1155Pointer l c cwAddress))"

datatype PointerType =
    PointerType_ERC20 | PointerType_ERC721 | PointerType_NATIVE | PointerType_CW20 | PointerType_CW721
  | PointerType_ERC1155 | PointerType_CW1155

definition GetStoredPointerCodeID :: "'x ctx \<Rightarrow> PointerType \<Rightarrow> uint64 go" where
  "GetStoredPointerCodeID c pointerType =
     (let r = (case pointerType of
                 PointerType_ERC20 \<Rightarrow> Some (PointerCW20ERC20Prefix, GetVersionBz erc20_CurrentVersion)
               | PointerType_ERC721 \<Rightarrow> Some (PointerCW721ERC721Prefix, GetVersionBz erc721_CurrentVersion)
               | PointerType_ERC1155 \<Rightarrow> Some (PointerCW1155ERC1155Prefix, GetVersionBz erc1155_CurrentVersion)
               | _ \<Rightarrow> None) in
      case r of None \<Rightarrow> Done 0
      | Some (pref, versionBz) \<Rightarrow>
          (case PrefixStore_Get c (PointerCWCodePrefix @ pref) versionBz of
             None \<Rightarrow> Done 0 | Some bz \<Rightarrow> Uint64 bz))"

definition GetCW20Pointee :: "'x ctx \<Rightarrow> address \<Rightarrow> (string \<times> uint16) option go" where
  "GetCW20Pointee c erc20Address =
     go_map (map_option (\<lambda>(addrBz, version). (bytes_str addrBz, version)))
       (GetAnyPointerInfo c (PointerReverseRegistryKey erc20Address))"

definition GetCW721Pointee :: "'x ctx \<Rightarrow> address \<Rightarrow> (string \<times> uint16) option go" where
  "GetCW721Pointee c erc721Address =
     go_map (map_option (\<lambda>(addrBz, version). (bytes_str addrBz, version)))
       (GetAnyPointerInfo c (PointerReverseRegistryKey erc721Address))"

definition GetCW1155Pointee :: "'x ctx \<Rightarrow> address \<Rightarrow> (string \<times> uint16) option go" where
  "GetCW1155Pointee c erc1155Address =
     go_map (map_option (\<lambda>(addrBz, version). (bytes_str addrBz, version)))
       (GetAnyPointerInfo c (PointerReverseRegistryKey erc1155Address))"

definition GetERC20Pointee :: "lib \<Rightarrow> 'x ctx \<Rightarrow> string \<Rightarrow> (address \<times> uint16) option go" where
  "GetERC20Pointee l c cw20Address =
     go_map (map_option (\<lambda>(addrBz, version). (BytesToAddress l addrBz, version)))
       (GetAnyPointerInfo c (PointerReverseRegistryKey (BytesToAddress l (str_bytes cw20Address))))"

definition GetERC721Pointee :: "lib \<Rightarrow> 'x ctx \<Rightarrow> string \<Rightarrow> (address \<times> uint16) option go" where
  "GetERC721Pointee l c cw721Address =
     go_map (map_option (\<lambda>(addrBz, version). (BytesToAddress l addrBz, version)))
       (GetAnyPointerInfo c (PointerReverseRegistryKey (BytesToAddress l (str_bytes cw721Address))))"

definition GetERC1155Pointee :: "lib \<Rightarrow> 'x ctx \<Rightarrow> string \<Rightarrow> (address \<times> uint16) option go" where
  "GetERC1155Pointee l c cw1155Address =
     go_map (map_option (\<lambda>(addrBz, version). (BytesToAddress l addrBz, version)))
       (GetAnyPointerInfo c (PointerReverseRegistryKey (BytesToAddress l (str_bytes cw1155Address))))"

definition GetNativePointee :: "lib \<Rightarrow> 'x ctx \<Rightarrow> string \<Rightarrow> (string \<times> uint16) option go" where
  "GetNativePointee l c erc20Address =
     (let key = PointerReverseRegistryKey (HexToAddress l erc20Address) in
      go_map (map_option (\<lambda>(addrBz, version). (bytes_str addrBz, version))) (GetAnyPointerInfo c key))"

end
