(* ===== verification/Pointer_Props.thy ===== *)
theory Pointer_Props
  imports Keeper_Pointer
begin

text \<open>
  The properties of the pointer registry. The locale \<open>pointer_kind\<close> is what the seven kinds of pointers
  share: a forward entry and a reverse entry at the same version, and no pointer to a pointer. It is
  interpreted for every kind.
\<close>

section \<open>Versions as keys\<close>

lemma PutUint16_bytes: "PutUint16 v = [word_of_nat (unat v div 256), word_of_nat (unat v mod 256)]"
proof -
  have "unat v div 256 mod 256 = unat v div 256"
    using unsigned_less [of v, where 'a = nat] by (simp add: div_less_iff_less_mult)
  then show ?thesis by (simp add: PutUint16_def numeral_2_eq_2)
qed

lemma unat_hi_lo:
  fixes v :: uint16
  shows "unat (word_of_nat (unat v div 256) :: byte) = unat v div 256"
    and "unat (word_of_nat (unat v mod 256) :: byte) = unat v mod 256"
  using unsigned_less [of v, where 'a = nat] by (simp_all add: unat_of_nat less_mult_imp_div_less)

lemma div_mod_le: "(a :: nat) \<le> b \<longleftrightarrow> a div n < b div n \<or> a div n = b div n \<and> a mod n \<le> b mod n"
proof -
  have "a = n * (a div n) + a mod n" "b = n * (b div n) + b mod n" by simp_all
  then have "a div n = b div n \<Longrightarrow> a \<le> b \<longleftrightarrow> a mod n \<le> b mod n"
    by (metis nat_add_left_cancel_le)
  moreover have "a \<le> b \<Longrightarrow> a div n \<le> b div n" "b \<le> a \<Longrightarrow> b div n \<le> a div n"
    by (simp_all add: div_le_mono)
  ultimately show ?thesis by linarith
qed

lemma PutUint16_le: "PutUint16 v \<le> PutUint16 w \<longleftrightarrow> v \<le> w"
proof -
  have "PutUint16 v \<le> PutUint16 w \<longleftrightarrow>
      unat v div 256 < unat w div 256 \<or> unat v div 256 = unat w div 256 \<and> unat v mod 256 \<le> unat w mod 256"
    unfolding PutUint16_bytes
    by (auto simp: word_less_nat_alt word_le_nat_alt word_unat_eq_iff unat_hi_lo)
  also have "\<dots> \<longleftrightarrow> unat v \<le> unat w"
    by (rule div_mod_le [symmetric])
  finally show ?thesis by (simp add: word_le_nat_alt)
qed

text \<open>Below a prefix there are only entries of versions up to \<open>v\<close>.\<close>

definition versions_le :: "'x ctx \<Rightarrow> bytes \<Rightarrow> uint16 \<Rightarrow> bool" where
  "versions_le c pref v \<longleftrightarrow>
     (\<forall>k \<in> set (map fst (prefix_iterator (KVStore c) pref)). \<exists>w. k = PutUint16 w \<and> w \<le> v)"

lemma versions_leD:
  "ctx_ok c \<Longrightarrow> versions_le c pref v \<Longrightarrow> kv_get (KVStore c) (pref @ k) = Some a \<Longrightarrow> k \<le> PutUint16 v"
  by (auto simp: versions_le_def ctx_ok_def PutUint16_le prefix_iterator_iff [symmetric])

lemma iterator_after_set:
  assumes "ctx_ok c" and "versions_le c pref v" and "c' = setPointerInfo c pref a v"
  shows "prefix_iterator (KVStore c') pref \<noteq> []"
    and "last (prefix_iterator (KVStore c') pref) = (PutUint16 v, a)"
proof -
  let ?i = "prefix_iterator (KVStore c') pref"
  have ok: "kv_ok (KVStore c')" using assms(1,3) by (simp add: setPointerInfo_def ctx_ok_def)
  have got: "kv_get (KVStore c') (pref @ k) = (if k = PutUint16 v then Some a else kv_get (KVStore c) (pref @ k))" for k
    using assms(3) by (simp add: setPointerInfo_def)
  show ne: "?i \<noteq> []" using got [of "PutUint16 v"] ok by (auto simp: prefix_iterator_empty_iff)
  have ge: "PutUint16 v \<le> fst (last ?i)"
    using prefix_iterator_last_greatest [OF ok ne] got [of "PutUint16 v"] by simp
  moreover have "fst (last ?i) \<le> PutUint16 v"
    using prefix_iterator_last_get [OF ok ne] got [of "fst (last ?i)"] versions_leD [OF assms(1,2)]
    by (auto split: if_splits)
  ultimately have "fst (last ?i) = PutUint16 v" by simp
  with prefix_iterator_last_get [OF ok ne] got [of "PutUint16 v"] show "last ?i = (PutUint16 v, a)"
    by (simp add: prod_eq_iff)
qed

lemma info_after_set:
  assumes "ctx_ok c" and "versions_le c pref v"
  shows "GetPointerInfo (setPointerInfo c pref a v) pref m = Done (Some (a, v))"
    and "GetAnyPointerInfo (setPointerInfo c pref a v) pref = Done (Some (a, v))"
  using iterator_after_set [OF assms refl]
  by (simp_all add: GetPointerInfo_def GetAnyPointerInfo_def Let_def)

lemma prefix_iterator_cong:
  assumes "kv_ok s" and "kv_ok t" and "\<And>k. kv_get s (p @ k) = kv_get t (p @ k)"
  shows "prefix_iterator s p = prefix_iterator t p"
proof -
  let ?f = "\<lambda>u. prefix_iterator u p"
  have set_eq: "set (?f s) = set (?f t)"
    using assms by (auto simp: prefix_iterator_iff)
  have sd: "sorted (map fst (?f u)) \<and> distinct (map fst (?f u))" if "kv_ok u" for u
    using prefix_iterator_sorted [OF that, of p] by (simp add: strict_sorted_iff)
  note s = sd [OF assms(1)] and t = sd [OF assms(2)]
  have "inj_on fst (set (?f s) \<union> set (?f t))"
    unfolding set_eq using t by (simp add: distinct_map)
  from map_sorted_distinct_set_unique [OF this s [THEN conjunct1] s [THEN conjunct2] t [THEN conjunct1] t [THEN conjunct2] set_eq]
  show ?thesis .
qed

section \<open>The contract of a kind of pointer\<close>

lemma rev_key_disjoint: "PointerReverseRegistryKey a @ k \<noteq> 0x15 # k'"
  by (simp add: key_simps)

lemma info_other_prefix:
  assumes "ctx_ok c" and "\<And>j. p @ j \<noteq> q @ k"
  shows "GetPointerInfo (PrefixStore_Set c q k v) p m = GetPointerInfo c p m"
proof -
  have get: "kv_get (KVStore (PrefixStore_Set c q k v)) (p @ j) = kv_get (KVStore c) (p @ j)" for j
    using assms(2) [of j] by simp
  have it: "prefix_iterator (KVStore (PrefixStore_Set c q k v)) p = prefix_iterator (KVStore c) p"
    using assms(1) get by (intro prefix_iterator_cong) (simp_all add: ctx_ok_def)
  have "pointer_fallback (PrefixStore_Set c q k v) p n = pointer_fallback c p n" for n
    using get by (induction n) (simp_all add: pointer_fallback.simps PrefixStore_Get_def split: option.splits)
  with it show ?thesis
    by (simp add: GetPointerInfo_def Let_def) (simp add: PrefixStore_Set_def)
qed

locale pointer_kind =
  fixes key :: "'i \<Rightarrow> bytes"
    and is_pointer :: "'x ctx \<Rightarrow> 'i \<Rightarrow> bool go"
    and target :: "'t \<Rightarrow> bytes"
    and rev_address :: "'t \<Rightarrow> address"
    and source :: "'i \<Rightarrow> bytes"
    and set_pointer :: "'x ctx \<Rightarrow> 'i \<Rightarrow> 't \<Rightarrow> uint16 \<Rightarrow> (error \<times> 'x ctx) go"
  assumes registry_key: "\<exists>k. key i = 0x15 # k"
    and rejected: "is_pointer c i = Done True \<Longrightarrow> set_pointer c i t v = Done (Some ErrorPointerToPointerNotAllowed, c)"
    and accepted: "is_pointer c i = Done False \<Longrightarrow> set_pointer c i t v = Done (None,
      setPointerInfo (setPointerInfo c (key i) (target t) v) (PointerReverseRegistryKey (rev_address t)) (source i) v)"
    and panicked: "is_pointer c i = Panic e \<Longrightarrow> set_pointer c i t v = Panic e"
begin

lemma set_Done_cases:
  assumes "set_pointer c i t v = Done (None, c')"
  shows "is_pointer c i = Done False \<and> c' =
    setPointerInfo (setPointerInfo c (key i) (target t) v) (PointerReverseRegistryKey (rev_address t)) (source i) v"
proof (cases "is_pointer c i")
  case (Done b)
  then show ?thesis using assms rejected [of c i t v] accepted [of c i t v] by (cases b) simp_all
qed (use assms panicked [of c i _ t v] in simp)

lemma reverse_registered:
  assumes "ctx_ok c" and "versions_le c (PointerReverseRegistryKey (rev_address t)) v"
    and "set_pointer c i t v = Done (None, c')"
  shows "GetAnyPointerInfo c' (PointerReverseRegistryKey (rev_address t)) = Done (Some (source i, v))"
    and "evmAddressIsPointer c' (rev_address t) = Done True"
proof -
  let ?r = "PointerReverseRegistryKey (rev_address t)" and ?c1 = "setPointerInfo c (key i) (target t) v"
  obtain k where k: "key i = 0x15 # k" using registry_key by blast
  have c': "c' = setPointerInfo ?c1 ?r (source i) v" using set_Done_cases [OF assms(3)] by blast
  have ok1: "ctx_ok ?c1" using assms(1) by (simp add: setPointerInfo_def)
  have same: "kv_get (KVStore ?c1) (?r @ j) = kv_get (KVStore c) (?r @ j)" for j
    using k rev_key_disjoint [of "rev_address t" j] by (simp add: setPointerInfo_def)
  have "prefix_iterator (KVStore ?c1) ?r = prefix_iterator (KVStore c) ?r"
    using assms(1) ok1 same by (intro prefix_iterator_cong) (simp_all add: ctx_ok_def)
  then have "versions_le ?c1 ?r v" using assms(2) by (simp add: versions_le_def)
  with info_after_set(2) [OF ok1] c' show rev: "GetAnyPointerInfo c' ?r = Done (Some (source i, v))" by simp
  then show "evmAddressIsPointer c' (rev_address t) = Done True" by (simp add: evmAddressIsPointer_def)
qed

lemma registered:
  assumes "ctx_ok c" and "versions_le c (key i) v" and "set_pointer c i t v = Done (None, c')"
  shows "GetPointerInfo c' (key i) m = Done (Some (target t, v))"
proof -
  let ?r = "PointerReverseRegistryKey (rev_address t)" and ?c1 = "setPointerInfo c (key i) (target t) v"
  obtain k where k: "key i = 0x15 # k" using registry_key by blast
  have c': "c' = setPointerInfo ?c1 ?r (source i) v" using set_Done_cases [OF assms(3)] by blast
  have ok1: "ctx_ok ?c1" using assms(1) by (simp add: setPointerInfo_def)
  have "key i @ j \<noteq> ?r @ PutUint16 v" for j
    using k rev_key_disjoint [of "rev_address t" "PutUint16 v" "k @ j"] by simp
  from info_other_prefix [OF ok1 this] have "GetPointerInfo c' (key i) m = GetPointerInfo ?c1 (key i) m"
    unfolding c' setPointerInfo_def [of ?c1] .
  with info_after_set(1) [OF assms(1,2)] show "GetPointerInfo c' (key i) m = Done (Some (target t, v))" by simp
qed

end

interpretation native_pointer: pointer_kind PointerERC20NativeKey "cwAddressIsPointer l" "\<lambda>a. a" "\<lambda>a. a" str_bytes
    "SetERC20NativePointerWithVersion l" for l
  by unfold_locales (auto simp: SetERC20NativePointerWithVersion_def key_simps Let_def)

interpretation cw20_pointer: pointer_kind PointerERC20CW20Key "cwAddressIsPointer l" "\<lambda>a. a" "\<lambda>a. a" str_bytes
    "SetERC20CW20PointerWithVersion l" for l
  by unfold_locales (auto simp: SetERC20CW20PointerWithVersion_def key_simps Let_def)

interpretation cw721_pointer: pointer_kind PointerERC721CW721Key "cwAddressIsPointer l" "\<lambda>a. a" "\<lambda>a. a" str_bytes
    "SetERC721CW721PointerWithVersion l" for l
  by unfold_locales (auto simp: SetERC721CW721PointerWithVersion_def key_simps Let_def)

interpretation cw1155_pointer: pointer_kind PointerERC1155CW1155Key "cwAddressIsPointer l" "\<lambda>a. a" "\<lambda>a. a" str_bytes
    "SetERC1155CW1155PointerWithVersion l" for l
  by unfold_locales (auto simp: SetERC1155CW1155PointerWithVersion_def key_simps Let_def)

interpretation erc20_pointer: pointer_kind PointerCW20ERC20Key evmAddressIsPointer str_bytes
    "\<lambda>s. BytesToAddress l (str_bytes s)" "\<lambda>a. a" "SetCW20ERC20PointerWithVersion l" for l
  by unfold_locales (auto simp: SetCW20ERC20PointerWithVersion_def key_simps Let_def)

interpretation erc721_pointer: pointer_kind PointerCW721ERC721Key evmAddressIsPointer str_bytes
    "\<lambda>s. BytesToAddress l (str_bytes s)" "\<lambda>a. a" "SetCW721ERC721PointerWithVersion l" for l
  by unfold_locales (auto simp: SetCW721ERC721PointerWithVersion_def key_simps Let_def)

interpretation erc1155_pointer: pointer_kind PointerCW1155ERC1155Key evmAddressIsPointer str_bytes
    "\<lambda>s. BytesToAddress l (str_bytes s)" "\<lambda>a. a" "SetCW1155ERC1155PointerWithVersion l" for l
  by unfold_locales (auto simp: SetCW1155ERC1155PointerWithVersion_def key_simps Let_def)

section \<open>Properties\<close>

text \<open>C34 (native_pointer_roundtrip): after the pointer of a native token is registered, looking up the token
  gives the pointer and looking up the pointer gives the token, both at the current version, provided that
  what the registry holds under the prefixes of the token and of the pointer are versions that are not newer. This leaves out registries with
  an entry for a token whose name extends that of this one, since its key has the same prefix.\<close>

theorem native_pointer_roundtrip:
  assumes "hex_laws l" and "cast_laws l" and "length addr = 20" and "ctx_ok c"
    and "versions_le c (PointerERC20NativeKey token) native_CurrentVersion"
    and "versions_le c (PointerReverseRegistryKey addr) native_CurrentVersion"
    and "SetERC20NativePointer l c token addr = Done (None, c')"
  shows "GetERC20NativePointer l c' token = Done (Some (addr, native_CurrentVersion)) \<and>
    GetNativePointee l c' (addr_Hex l addr) = Done (Some (token, native_CurrentVersion))"
  using native_pointer.registered [OF assms(4,5)] native_pointer.reverse_registered [OF assms(4,6)] assms(1-3,7)
  by (simp add: SetERC20NativePointer_def GetERC20NativePointer_def GetNativePointee_def cast_laws_def hex_laws_def)

lemma versions_le_ctx0 [simp]: "versions_le ctx0 p v"
  by (simp add: versions_le_def prefix_iterator_def)

lemma not_pointer_ctx0 [simp]: "cwAddressIsPointer l ctx0 a = Done False" "evmAddressIsPointer ctx0 b = Done False"
  by (simp_all add: cwAddressIsPointer_def evmAddressIsPointer_def GetAnyPointerInfo_def prefix_iterator_def)

theorem native_pointer_roundtrip_witness:
  "\<exists>c'. SetERC20NativePointer lib_lower ctx0 ''uabc'' (replicate 20 9) = Done (None, c') \<and>
     GetERC20NativePointer lib_lower c' ''uabc'' = Done (Some (replicate 20 9, 1)) \<and>
     GetNativePointee lib_lower c' (hex_of_bytes (replicate 20 9)) = Done (Some (''uabc'', 1))"
proof -
  obtain c' where "SetERC20NativePointer lib_lower ctx0 ''uabc'' (replicate 20 9) = Done (None, c')"
    by (simp add: SetERC20NativePointer_def SetERC20NativePointerWithVersion_def Let_def)
  with native_pointer_roundtrip [OF _ _ _ _ _ _ this] show ?thesis
    by (auto simp: native_CurrentVersion_def)
qed

text \<open>After the CosmWasm pointer of an ERC-20 contract is registered, looking up
  the contract gives the pointer's address and looking up the pointer gives the contract.\<close>

lemma cw20_pointer_roundtrip:
  assumes "cast_laws l" and "bech32_laws l" and "length erc20 = 20" and "a \<noteq> []" and "ctx_ok c"
    and "versions_le c (PointerCW20ERC20Key erc20) erc20_CurrentVersion"
    and "versions_le c (PointerReverseRegistryKey (BytesToAddress l (str_bytes (AccAddress_String l a)))) erc20_CurrentVersion"
    and "SetCW20ERC20Pointer l c erc20 (AccAddress_String l a) = Done (None, c')"
  shows "GetCW20ERC20Pointer l c' erc20 = Done (Some (a, erc20_CurrentVersion)) \<and>
    GetERC20Pointee l c' (AccAddress_String l a) = Done (Some (erc20, erc20_CurrentVersion))"
  using erc20_pointer.registered [OF assms(5,6)] erc20_pointer.reverse_registered [OF assms(5,7)] assms(1-4,8)
  by (simp add: SetCW20ERC20Pointer_def GetCW20ERC20Pointer_def GetERC20Pointee_def MustAccAddressFromBech32_def
      cast_laws_def bech32_laws_def)

text \<open>C35 (no_pointer_to_evm_pointer): once an address is registered as an EVM pointer of any of the four
  kinds, registering a CosmWasm pointer of any kind to it fails and changes nothing.\<close>

theorem no_pointer_to_evm_pointer:
  assumes "ctx_ok c" and "versions_le c (PointerReverseRegistryKey addr) v"
    and "Done (None, c') \<in> {SetERC20NativePointerWithVersion l c i addr v, SetERC20CW20PointerWithVersion l c i addr v,
      SetERC721CW721PointerWithVersion l c i addr v, SetERC1155CW1155PointerWithVersion l c i addr v}"
  shows "SetCW20ERC20PointerWithVersion l c' addr s w = Done (Some ErrorPointerToPointerNotAllowed, c') \<and>
    SetCW721ERC721PointerWithVersion l c' addr s w = Done (Some ErrorPointerToPointerNotAllowed, c') \<and>
    SetCW1155ERC1155PointerWithVersion l c' addr s w = Done (Some ErrorPointerToPointerNotAllowed, c')"
proof -
  have "evmAddressIsPointer c' addr = Done True"
    using assms(3) native_pointer.reverse_registered(2) [OF assms(1,2)] cw20_pointer.reverse_registered(2) [OF assms(1,2)]
      cw721_pointer.reverse_registered(2) [OF assms(1,2)] cw1155_pointer.reverse_registered(2) [OF assms(1,2)]
    by auto
  then show ?thesis
    by (simp add: erc20_pointer.rejected erc721_pointer.rejected erc1155_pointer.rejected)
qed

theorem no_pointer_to_evm_pointer_witness:
  "\<exists>c'. SetERC721CW721PointerWithVersion lib_lower ctx0 ''cw'' (replicate 20 9) 6 = Done (None, c') \<and>
     SetCW20ERC20PointerWithVersion lib_lower c' (replicate 20 9) ''x'' 2 = Done (Some ErrorPointerToPointerNotAllowed, c')"
proof -
  obtain c' where s: "SetERC721CW721PointerWithVersion lib_lower ctx0 ''cw'' (replicate 20 9) 6 = Done (None, c')"
    by (simp add: SetERC721CW721PointerWithVersion_def Let_def)
  with no_pointer_to_evm_pointer [of ctx0 "replicate 20 9" 6 c' lib_lower "''cw''" "''x''" 2] show ?thesis by simp
qed

text \<open>C36 (no_pointer_to_cw_pointer): once a CosmWasm contract is registered as a pointer of any of the three
  kinds, registering an EVM pointer of any kind to it fails and changes nothing.\<close>

theorem no_pointer_to_cw_pointer:
  assumes "ctx_ok c" and "versions_le c (PointerReverseRegistryKey (BytesToAddress l (str_bytes s))) v"
    and "Done (None, c') \<in> {SetCW20ERC20PointerWithVersion l c e s v, SetCW721ERC721PointerWithVersion l c e s v,
      SetCW1155ERC1155PointerWithVersion l c e s v}"
  shows "SetERC20NativePointerWithVersion l c' s a w = Done (Some ErrorPointerToPointerNotAllowed, c') \<and>
    SetERC20CW20PointerWithVersion l c' s a w = Done (Some ErrorPointerToPointerNotAllowed, c') \<and>
    SetERC721CW721PointerWithVersion l c' s a w = Done (Some ErrorPointerToPointerNotAllowed, c') \<and>
    SetERC1155CW1155PointerWithVersion l c' s a w = Done (Some ErrorPointerToPointerNotAllowed, c')"
proof -
  have "evmAddressIsPointer c' (BytesToAddress l (str_bytes s)) = Done True"
    using assms(3) erc20_pointer.reverse_registered(2) [OF assms(1,2)]
      erc721_pointer.reverse_registered(2) [OF assms(1,2)] erc1155_pointer.reverse_registered(2) [OF assms(1,2)]
    by auto
  then have "cwAddressIsPointer l c' s = Done True"
    by (simp add: evmAddressIsPointer_def cwAddressIsPointer_def)
  then show ?thesis
    by (simp add: native_pointer.rejected cw20_pointer.rejected cw721_pointer.rejected cw1155_pointer.rejected)
qed

theorem no_pointer_to_cw_pointer_witness:
  "\<exists>c'. SetCW20ERC20PointerWithVersion lib_lower ctx0 (replicate 20 9) ''x'' 2 = Done (None, c') \<and>
     SetERC20CW20PointerWithVersion lib_lower c' ''x'' (replicate 20 1) 2 = Done (Some ErrorPointerToPointerNotAllowed, c')"
proof -
  obtain c' where s: "SetCW20ERC20PointerWithVersion lib_lower ctx0 (replicate 20 9) ''x'' 2 = Done (None, c')"
    by (simp add: SetCW20ERC20PointerWithVersion_def Let_def)
  with no_pointer_to_cw_pointer [of ctx0 lib_lower "''x''" 2 c' "replicate 20 9" "replicate 20 1" 2] show ?thesis by simp
qed

text \<open>C37 (native_pointer_prefix_collision): the name of a token is not delimited in its key. Registering the
  pointer of a token makes a lookup of every proper prefix of its name that has no entry of its own
  report the same pointer, at a version read from the rest of the name.\<close>

theorem native_pointer_prefix_collision:
  assumes "cast_laws l" and "length addr = 20" and "ctx_ok c" and "rest \<noteq> []"
    and "GetERC20NativePointer l c token = Done None" and "\<not> cx_IsTracing c"
    and "SetERC20NativePointer l c (token @ rest) addr = Done (None, c')"
  shows "\<exists>version. GetERC20NativePointer l c' token = Done (Some (addr, version)) \<and>
    Uint16 (str_bytes rest @ PutUint16 native_CurrentVersion) = Done version"
proof -
  let ?p = "PointerERC20NativeKey token" and ?k = "str_bytes rest @ PutUint16 native_CurrentVersion"
  have "prefix_iterator (KVStore c) ?p = []"
    using assms(5) by (auto simp: GetERC20NativePointer_def GetPointerInfo_def Let_def go_Done_iffs assms(6) split: if_splits)
  then have none: "kv_get (KVStore c) (?p @ k) = None" for k
    using assms(3) by (simp add: prefix_iterator_empty_iff ctx_ok_def)
  have c': "c' = setPointerInfo (setPointerInfo c (PointerERC20NativeKey (token @ rest)) addr native_CurrentVersion)
      (PointerReverseRegistryKey addr) (str_bytes (token @ rest)) native_CurrentVersion"
    using native_pointer.set_Done_cases [of l c "token @ rest" addr native_CurrentVersion c'] assms(7)
    by (simp add: SetERC20NativePointer_def)
  have get: "kv_get (KVStore c') (?p @ k) = (if k = ?k then Some addr else None)" for k
    using none unfolding c' by (auto simp: setPointerInfo_def key_simps str_bytes_def)
  have ok: "kv_ok (KVStore c')" using assms(3) unfolding c' by (simp add: setPointerInfo_def ctx_ok_def)
  have ne: "prefix_iterator (KVStore c') ?p \<noteq> []"
    using get [of ?k] by (auto simp: prefix_iterator_empty_iff [OF ok])
  have last: "last (prefix_iterator (KVStore c') ?p) = (?k, addr)"
    using prefix_iterator_last_get [OF ok ne] get [of "fst (last (prefix_iterator (KVStore c') ?p))"]
    by (auto simp: prod_eq_iff split: if_splits)
  obtain version where v: "Uint16 ?k = Done version" by (auto simp: Uint16_def)
  with ne last assms(1,2) show ?thesis
    by (simp add: GetERC20NativePointer_def GetPointerInfo_def Let_def cast_laws_def)
qed

theorem native_pointer_prefix_collision_witness:
  "\<exists>c'. SetERC20NativePointer lib_lower ctx0 ''uabc'' (replicate 20 9) = Done (None, c') \<and>
     GetERC20NativePointer lib_lower c' ''uab'' = Done (Some (replicate 20 9, 0x6300))"
proof -
  obtain c' where s: "SetERC20NativePointer lib_lower ctx0 (''uab'' @ ''c'') (replicate 20 9) = Done (None, c')"
    by (simp add: SetERC20NativePointer_def SetERC20NativePointerWithVersion_def Let_def)
  have "GetERC20NativePointer lib_lower ctx0 ''uab'' = Done None" "\<not> cx_IsTracing ctx0"
    by (simp_all add: GetERC20NativePointer_def GetPointerInfo_def prefix_iterator_def ctx0_def KVStore_def)
  from native_pointer_prefix_collision [OF _ _ _ _ this s]
  obtain version where "GetERC20NativePointer lib_lower c' ''uab'' = Done (Some (replicate 20 9, version))"
    "Uint16 (str_bytes ''c'' @ PutUint16 native_CurrentVersion) = Done version" by auto
  moreover have "Uint16 (str_bytes ''c'' @ PutUint16 native_CurrentVersion) = Done 0x6300" by code_simp
  ultimately show ?thesis using s by auto
qed

end
