(* ===== verification/Keeper_Account.thy ===== *)
theory Keeper_Account
  imports Evm_Ctx
begin

text \<open>
  The accounts of the EVM module: \<open>x/evm/keeper/address.go\<close> (the association of an EVM address with a
  Cosmos address), \<open>code.go\<close>, \<open>nonce.go\<close>, \<open>state.go\<close> (contract storage) and \<open>balance.go\<close>. The replay of
  Ethereum blocks is a test mode that is off on the chain; its branches are left out.
\<close>

section \<open>\<open>sdk.Int\<close> and iteration\<close>

text \<open>The arithmetic of \<open>sdk.Int\<close> panics when the result exceeds 256 bits, as \<open>sdk.NewIntFromBigInt\<close> does.\<close>

definition sdk_Int_Add :: "lib \<Rightarrow> int \<Rightarrow> int \<Rightarrow> int go" where
  "sdk_Int_Add l x y = NewIntFromBigInt l (x + y)"

definition sdk_Int_Sub :: "lib \<Rightarrow> int \<Rightarrow> int \<Rightarrow> int go" where
  "sdk_Int_Sub l x y = NewIntFromBigInt l (x - y)"

definition sdk_Int_Mul :: "lib \<Rightarrow> int \<Rightarrow> int \<Rightarrow> int go" where
  "sdk_Int_Mul l x y = NewIntFromBigInt l (x * y)"

lemma NewInt_Done: "sdk_int_laws l \<Longrightarrow> NewIntFromBigInt l x = Done y \<Longrightarrow> y = x \<and> \<bar>x\<bar> < 2 ^ 256"
proof -
  assume l: "sdk_int_laws l" and d: "NewIntFromBigInt l x = Done y"
  show ?thesis
  proof (cases "big_BitLen x \<le> 256")
    case True
    with l d have "y = x" by (simp add: sdk_int_laws_def)
    with True show ?thesis by (simp add: big_BitLen_le_iff)
  next
    case False
    then have "\<exists>e. NewIntFromBigInt l x = Panic e" using l by (simp add: sdk_int_laws_def)
    with d show ?thesis by auto
  qed
qed

lemma NewInt_fits: "sdk_int_laws l \<Longrightarrow> \<bar>x\<bar> < 2 ^ 256 \<Longrightarrow> NewIntFromBigInt l x = Done x"
  by (simp add: sdk_int_laws_def big_BitLen_le_iff)

text \<open>A loop over an iterator whose callback may ask to stop.\<close>

fun iterate_until :: "('a \<Rightarrow> 's \<Rightarrow> bool \<times> 's) \<Rightarrow> 'a list \<Rightarrow> 's \<Rightarrow> 's" where
  "iterate_until cb [] s = s"
| "iterate_until cb (e # es) s = (case cb e s of (stop, s') \<Rightarrow> if stop then s' else iterate_until cb es s')"

section \<open>Addresses\<close>

definition EventTypeAddressAssociated :: string where "EventTypeAddressAssociated = ''address_associated''"
definition AttributeKeyTabiAddress :: string where "AttributeKeyTabiAddress = ''tabi_addr''"
definition AttributeKeyEvmAddress :: string where "AttributeKeyEvmAddress = ''evm_addr''"

definition SetAddressMapping :: "lib \<Rightarrow> 'x keepers \<Rightarrow> 'x ctx \<Rightarrow> bytes \<Rightarrow> address \<Rightarrow> 'x ctx" where
  "SetAddressMapping l k c tabiAddress evmAddress =
     (let c1 = with_kv (\<lambda>s. kv_set s (EVMAddressToTabiAddressKey evmAddress) tabiAddress) c;
          c2 = with_kv (\<lambda>s. kv_set s (TabiAddressToEVMAddressKey tabiAddress) evmAddress) c1;
          c3 = (if \<not> HasAccount k (ctx_ext c2) tabiAddress
                then with_ext (SetNewAccount k (ctx_ext c2) tabiAddress) c2 else c2) in
      EmitEvents [(EventTypeAddressAssociated,
        [(AttributeKeyTabiAddress, AccAddress_String l tabiAddress), (AttributeKeyEvmAddress, addr_Hex l evmAddress)])] c3)"

definition DeleteAddressMapping :: "'x ctx \<Rightarrow> bytes \<Rightarrow> address \<Rightarrow> 'x ctx" where
  "DeleteAddressMapping c tabiAddress evmAddress =
     with_kv (\<lambda>s. kv_delete s (TabiAddressToEVMAddressKey tabiAddress))
       (with_kv (\<lambda>s. kv_delete s (EVMAddressToTabiAddressKey evmAddress)) c)"

definition GetEVMAddress :: "'x ctx \<Rightarrow> bytes \<Rightarrow> address option" where
  "GetEVMAddress c tabiAddress =
     (case kv_get (KVStore c) (TabiAddressToEVMAddressKey tabiAddress) of
        None \<Rightarrow> None | Some bz \<Rightarrow> Some (copy_into 20 bz))"

definition GetEVMAddressOrDefault :: "lib \<Rightarrow> 'x ctx \<Rightarrow> bytes \<Rightarrow> address" where
  "GetEVMAddressOrDefault l c tabiAddress =
     (case GetEVMAddress c tabiAddress of Some addr \<Rightarrow> addr | None \<Rightarrow> BytesToAddress l tabiAddress)"

definition GetTabiAddress :: "'x ctx \<Rightarrow> address \<Rightarrow> bytes option" where
  "GetTabiAddress c evmAddress = kv_get (KVStore c) (EVMAddressToTabiAddressKey evmAddress)"

definition GetTabiAddressOrDefault :: "'x ctx \<Rightarrow> address \<Rightarrow> bytes" where
  "GetTabiAddressOrDefault c evmAddress =
     (case GetTabiAddress c evmAddress of Some addr \<Rightarrow> addr | None \<Rightarrow> evmAddress)"

definition IterateTabiAddressMapping ::
    "lib \<Rightarrow> 'x ctx \<Rightarrow> (address \<Rightarrow> bytes \<Rightarrow> 's \<Rightarrow> bool \<times> 's) \<Rightarrow> 's \<Rightarrow> 's" where
  "IterateTabiAddressMapping l c cb s =
     iterate_until (\<lambda>(key, v). cb (BytesToAddress l key) v)
       (prefix_iterator (KVStore c) EVMAddressToTabiAddressKeyPrefix) s"

text \<open>\<open>AccAddress.Equals\<close> is the equality of the bytes; a missing association reads as the empty address.\<close>

definition CanAddressReceive :: "lib \<Rightarrow> 'x ctx \<Rightarrow> bytes \<Rightarrow> bool" where
  "CanAddressReceive l c addr =
     (let directCast = BytesToAddress l addr;
          (associatedAddr, isAssociated) =
            (case GetTabiAddress c directCast of None \<Rightarrow> ([], False) | Some a \<Rightarrow> (a, True)) in
      associatedAddr = addr \<or> \<not> isAssociated)"

definition GetTabiAddressFromString :: "lib \<Rightarrow> 'x ctx \<Rightarrow> string \<Rightarrow> string + bytes" where
  "GetTabiAddressFromString l c addr =
     (if IsHexAddress l addr then Inr (GetTabiAddressOrDefault c (HexToAddress l addr))
      else AccAddressFromBech32 l addr)"

section \<open>Balances\<close>

definition BaseDenom :: string where
  "BaseDenom = ''atabi''"

definition SdkAtabiToWeiMultiplier :: int where
  "SdkAtabiToWeiMultiplier = 1000000000000"

definition keeper_GetBalance :: "lib \<Rightarrow> 'x keepers \<Rightarrow> 'x ctx \<Rightarrow> bytes \<Rightarrow> int go" where
  "keeper_GetBalance l k c addr =
     (let allAtabi = bank_GetBalance k (ctx_ext c) addr;
          lockedAtabi = bank_LockedCoins k (ctx_ext c) addr;
          wei = bank_GetWeiBalance k (ctx_ext c) addr in
      go_bind (sdk_Int_Sub l allAtabi lockedAtabi) (\<lambda>atabi.
      go_bind (sdk_Int_Mul l atabi SdkAtabiToWeiMultiplier) (\<lambda>w.
      sdk_Int_Add l w wei)))"

section \<open>Code\<close>

definition keeper_GetCode :: "'x ctx \<Rightarrow> address \<Rightarrow> bytes" where
  "keeper_GetCode c addr =
     (case PrefixStore_Get c CodeKeyPrefix addr of None \<Rightarrow> [] | Some code \<Rightarrow> if length code = 0 then [] else code)"

definition keeper_SetCode :: "lib \<Rightarrow> 'x keepers \<Rightarrow> 'x ctx \<Rightarrow> address \<Rightarrow> bytes \<Rightarrow> 'x ctx" where
  "keeper_SetCode l k c addr code =
     (let c1 = PrefixStore_Set c CodeKeyPrefix addr code;
          c2 = PrefixStore_Set c1 CodeSizeKeyPrefix addr (PutUint64 (word_of_nat (length code)));
          c3 = PrefixStore_Set c2 CodeHashKeyPrefix addr (Keccak256 l code) in
      if GetTabiAddress c3 addr = None
      then SetAddressMapping l k c3 (GetTabiAddressOrDefault c3 addr) addr else c3)"

text \<open>\<open>ethtypes.EmptyCodeHash\<close> is the hash of the empty code.\<close>

definition keeper_GetCodeHash :: "lib \<Rightarrow> 'x keepers \<Rightarrow> 'x ctx \<Rightarrow> address \<Rightarrow> hash go" where
  "keeper_GetCodeHash l k c addr =
     (case PrefixStore_Get c CodeHashKeyPrefix addr of
        Some bz \<Rightarrow> Done (BytesToHash l bz)
      | None \<Rightarrow>
          go_bind (keeper_GetBalance l k c (GetTabiAddressOrDefault c addr)) (\<lambda>b.
          if b = 0 then Done (replicate 32 0) else Done (Keccak256 l [])))"

definition keeper_GetCodeSize :: "'x ctx \<Rightarrow> address \<Rightarrow> int go" where
  "keeper_GetCodeSize c addr =
     (case PrefixStore_Get c CodeSizeKeyPrefix addr of
        None \<Rightarrow> Done 0 | Some bz \<Rightarrow> go_map sint (Uint64 bz))"

definition IterateAllCode :: "lib \<Rightarrow> 'x ctx \<Rightarrow> (address \<Rightarrow> bytes \<Rightarrow> 's \<Rightarrow> bool \<times> 's) \<Rightarrow> 's \<Rightarrow> 's" where
  "IterateAllCode l c cb s =
     iterate_until (\<lambda>(key, v). cb (BytesToAddress l key) v) (prefix_iterator (KVStore c) CodeKeyPrefix) s"

section \<open>Nonces and storage\<close>

definition keeper_GetNonce :: "'x ctx \<Rightarrow> address \<Rightarrow> uint64 go" where
  "keeper_GetNonce c addr =
     (case PrefixStore_Get c NonceKeyPrefix addr of None \<Rightarrow> Done 0 | Some bz \<Rightarrow> Uint64 bz)"

definition keeper_SetNonce :: "'x ctx \<Rightarrow> address \<Rightarrow> uint64 \<Rightarrow> 'x ctx" where
  "keeper_SetNonce c addr nonce = PrefixStore_Set c NonceKeyPrefix addr (PutUint64 nonce)"

definition keeper_GetState :: "lib \<Rightarrow> 'x ctx \<Rightarrow> address \<Rightarrow> hash \<Rightarrow> hash" where
  "keeper_GetState l c addr h =
     (case PrefixStore_Get c (StateKey addr) h of None \<Rightarrow> replicate 32 0 | Some v \<Rightarrow> BytesToHash l v)"

definition keeper_SetState :: "'x ctx \<Rightarrow> address \<Rightarrow> hash \<Rightarrow> hash \<Rightarrow> 'x ctx" where
  "keeper_SetState c addr key v =
     (if v = replicate 32 0 then PrefixStore_Delete c (StateKey addr) key
      else PrefixStore_Set c (StateKey addr) key v)"

text \<open>A key of the storage family is an address and a slot; a shorter key makes the slice panic.\<close>

fun IterateState_loop ::
    "lib \<Rightarrow> (address \<Rightarrow> hash \<Rightarrow> hash \<Rightarrow> 's \<Rightarrow> bool \<times> 's) \<Rightarrow> (bytes \<times> bytes) list \<Rightarrow> 's \<Rightarrow> 's go" where
  "IterateState_loop l cb [] s = Done s"
| "IterateState_loop l cb ((key, v) # es) s =
     (if length key < 20 then Panic ''slice bounds out of range''
      else case cb (BytesToAddress l (take 20 key)) (BytesToHash l (drop 20 key)) (BytesToHash l v) s of
        (stop, s') \<Rightarrow> if stop then Done s' else IterateState_loop l cb es s')"

definition IterateState ::
    "lib \<Rightarrow> 'x ctx \<Rightarrow> (address \<Rightarrow> hash \<Rightarrow> hash \<Rightarrow> 's \<Rightarrow> bool \<times> 's) \<Rightarrow> 's \<Rightarrow> 's go" where
  "IterateState l c cb s = IterateState_loop l cb (prefix_iterator (KVStore c) StateKeyPrefix) s"

fun IterateAllNonces_loop ::
    "lib \<Rightarrow> (address \<Rightarrow> uint64 \<Rightarrow> 's \<Rightarrow> bool \<times> 's) \<Rightarrow> (bytes \<times> bytes) list \<Rightarrow> 's \<Rightarrow> 's go" where
  "IterateAllNonces_loop l cb [] s = Done s"
| "IterateAllNonces_loop l cb ((key, v) # es) s =
     go_bind (Uint64 v) (\<lambda>n. case cb (BytesToAddress l key) n s of
       (stop, s') \<Rightarrow> if stop then Done s' else IterateAllNonces_loop l cb es s')"

definition IterateAllNonces ::
    "lib \<Rightarrow> 'x ctx \<Rightarrow> (address \<Rightarrow> uint64 \<Rightarrow> 's \<Rightarrow> bool \<times> 's) \<Rightarrow> 's \<Rightarrow> 's go" where
  "IterateAllNonces l c cb s = IterateAllNonces_loop l cb (prefix_iterator (KVStore c) NonceKeyPrefix) s"

section \<open>The association is a bijection\<close>

text \<open>The two directions of the association mirror each other.\<close>

definition assoc_ok :: "'x ctx \<Rightarrow> bool" where
  "assoc_ok c \<longleftrightarrow> (\<forall>evm tabi.
     kv_get (KVStore c) (EVMAddressToTabiAddressKey evm) = Some tabi \<longleftrightarrow>
     kv_get (KVStore c) (TabiAddressToEVMAddressKey tabi) = Some evm)"

lemma KVStore_SetAddressMapping:
  "KVStore (SetAddressMapping l k c t e) =
     kv_set (kv_set (KVStore c) (EVMAddressToTabiAddressKey e) t) (TabiAddressToEVMAddressKey t) e"
  by (simp add: SetAddressMapping_def Let_def)

lemma TransientStore_SetAddressMapping [simp]: "TransientStore (SetAddressMapping l k c t e) = TransientStore c"
  by (simp add: SetAddressMapping_def Let_def)

lemma KVStore_DeleteAddressMapping:
  "KVStore (DeleteAddressMapping c t e) =
     kv_delete (kv_delete (KVStore c) (EVMAddressToTabiAddressKey e)) (TabiAddressToEVMAddressKey t)"
  by (simp add: DeleteAddressMapping_def)

lemma ctx_ok_mapping [simp]:
  "ctx_ok c \<Longrightarrow> ctx_ok (SetAddressMapping l k c t e)"
  "ctx_ok c \<Longrightarrow> ctx_ok (DeleteAddressMapping c t e)"
  by (simp_all add: ctx_ok_def KVStore_SetAddressMapping KVStore_DeleteAddressMapping DeleteAddressMapping_def)

lemma GetTabiAddress_SetAddressMapping:
  "GetTabiAddress (SetAddressMapping l k c t e) e' = (if e' = e then Some t else GetTabiAddress c e')"
  by (simp add: GetTabiAddress_def KVStore_SetAddressMapping key_simps)

lemma GetEVMAddress_SetAddressMapping:
  "GetEVMAddress (SetAddressMapping l k c t e) t' = (if t' = t then Some (copy_into 20 e) else GetEVMAddress c t')"
  by (simp add: GetEVMAddress_def KVStore_SetAddressMapping key_simps)

lemma GetTabiAddress_DeleteAddressMapping:
  "GetTabiAddress (DeleteAddressMapping c t e) e' = (if e' = e then None else GetTabiAddress c e')"
  by (simp add: GetTabiAddress_def KVStore_DeleteAddressMapping key_simps)

lemma GetEVMAddress_DeleteAddressMapping:
  "GetEVMAddress (DeleteAddressMapping c t e) t' = (if t' = t then None else GetEVMAddress c t')"
  by (simp add: GetEVMAddress_def KVStore_DeleteAddressMapping key_simps)

lemma assoc_ok_Set:
  assumes "assoc_ok c" and "GetTabiAddress c e = None" and "GetEVMAddress c t = None"
  shows "assoc_ok (SetAddressMapping l k c t e)"
proof -
  have mirror: "kv_get (KVStore c) (1 # e') = Some t' \<longleftrightarrow> kv_get (KVStore c) (2 # t') = Some e'" for e' t'
    using assms(1) by (simp add: assoc_ok_def key_simps)
  have "kv_get (KVStore c) (1 # e) = None" "kv_get (KVStore c) (2 # t) = None"
    using assms(2,3) by (simp_all add: GetTabiAddress_def GetEVMAddress_def key_simps split: option.splits)
  moreover from this have "kv_get (KVStore c) (2 # t') \<noteq> Some e" "kv_get (KVStore c) (1 # e') \<noteq> Some t" for t' e'
    using mirror [of e t'] mirror [of e' t] by simp_all
  ultimately show ?thesis
    using mirror by (auto simp: assoc_ok_def KVStore_SetAddressMapping key_simps)
qed

lemma assoc_ok_Delete:
  assumes "assoc_ok c" and "GetTabiAddress c e = Some t"
  shows "assoc_ok (DeleteAddressMapping c t e)"
proof -
  have fwd: "kv_get (KVStore c) (1 # e) = Some t"
    using assms(2) by (simp add: GetTabiAddress_def key_simps)
  have mirror: "kv_get (KVStore c) (1 # e') = Some t' \<longleftrightarrow> kv_get (KVStore c) (2 # t') = Some e'" for e' t'
    using assms(1) by (simp add: assoc_ok_def key_simps)
  then have "kv_get (KVStore c) (2 # t') = Some e \<longrightarrow> t' = t" "kv_get (KVStore c) (1 # e') = Some t \<longrightarrow> e' = e" for t' e'
    using mirror [of e t'] mirror [of e' t] mirror [of e t] fwd by auto
  with mirror show ?thesis
    by (auto simp: assoc_ok_def KVStore_DeleteAddressMapping key_simps)
qed

text \<open>C33 (association_bijective): starting from a mirrored association, associating two addresses that have
  no partner makes each the partner of the other, changes no other association and keeps the mirror;
  removing the association of an address frees both sides and keeps the mirror.\<close>

theorem association_bijective:
  assumes "assoc_ok c" and "length e = 20" and "GetTabiAddress c e = None" and "GetEVMAddress c t = None"
    and "c1 = SetAddressMapping l k c t e"
  shows "assoc_ok c1 \<and> GetTabiAddress c1 e = Some t \<and> GetEVMAddress c1 t = Some e \<and>
    (\<forall>e'. e' \<noteq> e \<longrightarrow> GetTabiAddress c1 e' = GetTabiAddress c e') \<and>
    (\<forall>t'. t' \<noteq> t \<longrightarrow> GetEVMAddress c1 t' = GetEVMAddress c t') \<and>
    assoc_ok (DeleteAddressMapping c1 t e) \<and>
    GetTabiAddress (DeleteAddressMapping c1 t e) = GetTabiAddress c \<and>
    GetEVMAddress (DeleteAddressMapping c1 t e) = GetEVMAddress c"
proof -
  have one: "assoc_ok c1" using assms by (simp add: assoc_ok_Set)
  have two: "GetTabiAddress c1 e = Some t" using assms(5) by (simp add: GetTabiAddress_SetAddressMapping)
  show ?thesis
    using one two assoc_ok_Delete [OF one two] assms
    by (auto simp: GetTabiAddress_SetAddressMapping GetEVMAddress_SetAddressMapping
        GetTabiAddress_DeleteAddressMapping GetEVMAddress_DeleteAddressMapping fun_eq_iff)
qed

theorem association_bijective_witness:
  "assoc_ok (SetAddressMapping lib_lower ledger_keepers ctx0 [7, 7] (replicate 20 9)) \<and>
   GetTabiAddress (SetAddressMapping lib_lower ledger_keepers ctx0 [7, 7] (replicate 20 9)) (replicate 20 9) = Some [7, 7] \<and>
   GetEVMAddress (SetAddressMapping lib_lower ledger_keepers ctx0 [7, 7] (replicate 20 9)) [7, 7] = Some (replicate 20 9)"
proof -
  have "assoc_ok ctx0" "GetTabiAddress ctx0 (replicate 20 9) = None" "GetEVMAddress ctx0 [7, 7] = None"
    by (simp_all add: assoc_ok_def GetTabiAddress_def GetEVMAddress_def)
  from association_bijective [OF this(1) _ this(2,3) refl, of lib_lower ledger_keepers] show ?thesis by simp
qed

section \<open>Reading back code, nonces and storage\<close>

lemma PrefixStore_Get_Set:
  "PrefixStore_Get (PrefixStore_Set c p k v) q j = (if q @ j = p @ k then Some v else PrefixStore_Get c q j)"
  "PrefixStore_Get (PrefixStore_Delete c p k) q j = (if q @ j = p @ k then None else PrefixStore_Get c q j)"
  by (simp_all add: PrefixStore_Get_def)

lemma PrefixStore_Get_mapping:
  "hd (q @ j) \<noteq> 1 \<Longrightarrow> hd (q @ j) \<noteq> 2 \<Longrightarrow> PrefixStore_Get (SetAddressMapping l k c t e) q j = PrefixStore_Get c q j"
  by (auto simp: PrefixStore_Get_def KVStore_SetAddressMapping key_simps)

lemma PrefixStore_Get_SetCode:
  "PrefixStore_Get (keeper_SetCode l k c a code) q j =
     (if q @ j = CodeKeyPrefix @ a then Some code
      else if q @ j = CodeSizeKeyPrefix @ a then Some (PutUint64 (word_of_nat (length code)))
      else if q @ j = CodeHashKeyPrefix @ a then Some (Keccak256 l code)
      else PrefixStore_Get c q j)"
  if "hd (q @ j) \<noteq> 1" "hd (q @ j) \<noteq> 2"
  using that by (auto simp: keeper_SetCode_def Let_def PrefixStore_Get_mapping PrefixStore_Get_Set key_simps)

text \<open>A slot reads back the value written to it, zero included, although
  a zero is stored by deleting the slot; every other slot of every account, and all nonces, code and
  associations are unchanged. A nonce reads back, and writing it changes no other nonce and no storage.\<close>

lemma storage_nonce_roundtrip:
  assumes "cast_laws l" and "length a = 20" and "length a' = 20" and "length v = 32"
  shows "keeper_GetState l (keeper_SetState c a s v) a' s' = (if a' = a \<and> s' = s then v else keeper_GetState l c a' s') \<and>
    keeper_GetNonce (keeper_SetState c a s v) a' = keeper_GetNonce c a' \<and>
    keeper_GetCode (keeper_SetState c a s v) a' = keeper_GetCode c a' \<and>
    GetTabiAddress (keeper_SetState c a s v) a' = GetTabiAddress c a' \<and>
    keeper_GetNonce (keeper_SetNonce c a n) a' = (if a' = a then Done n else keeper_GetNonce c a') \<and>
    keeper_GetState l (keeper_SetNonce c a n) a' s' = keeper_GetState l c a' s'"
  using assms
  by (auto simp: keeper_GetState_def keeper_SetState_def keeper_GetNonce_def keeper_SetNonce_def keeper_GetCode_def
      GetTabiAddress_def PrefixStore_Get_Set key_simps cast_laws_def)

text \<open>After \<open>SetCode\<close> the code, its size and its hash read back, the account has an
  associated address, the code of every other account and every nonce and slot are unchanged.\<close>

lemma code_roundtrip:
  assumes "cast_laws l" and "keccak_laws l" and "length a = 20" and "length code < 2 ^ 63"
    and "c' = keeper_SetCode l k c a code"
  shows "keeper_GetCode c' a = code \<and> keeper_GetCodeSize c' a = Done (int (length code)) \<and>
    keeper_GetCodeHash l k c' a = Done (Keccak256 l code) \<and>
    GetTabiAddress c' a = Some (GetTabiAddressOrDefault c a) \<and>
    (\<forall>a'. a' \<noteq> a \<longrightarrow> keeper_GetCode c' a' = keeper_GetCode c a' \<and> keeper_GetCodeSize c' a' = keeper_GetCodeSize c a') \<and>
    (\<forall>a'. keeper_GetNonce c' a' = keeper_GetNonce c a') \<and>
    (\<forall>a' s. keeper_GetState l c' a' s = keeper_GetState l c a' s)"
proof -
  have size: "sint (word_of_nat (length code) :: uint64) = int (length code)"
  proof -
    have "sint (word_of_nat (length code) :: uint64) = signed_take_bit 63 (int (length code))"
      by (simp add: signed_of_nat)
    also have "\<dots> = int (length code)"
      using assms(4) by (intro signed_take_bit_int_eq_self) auto
    finally show ?thesis .
  qed
  have tabi: "GetTabiAddress c' a = Some (GetTabiAddressOrDefault c a)"
    by (auto simp: assms(5) keeper_SetCode_def Let_def GetTabiAddress_SetAddressMapping GetTabiAddressOrDefault_def
        GetTabiAddress_def KVStore_SetAddressMapping key_simps split: option.splits)
  have get: "PrefixStore_Get c' q j =
     (if q @ j = CodeKeyPrefix @ a then Some code
      else if q @ j = CodeSizeKeyPrefix @ a then Some (PutUint64 (word_of_nat (length code)))
      else if q @ j = CodeHashKeyPrefix @ a then Some (Keccak256 l code)
      else PrefixStore_Get c q j)" if "hd (q @ j) \<noteq> 1" "hd (q @ j) \<noteq> 2" for q j
    unfolding assms(5) by (rule PrefixStore_Get_SetCode [OF that])
  show ?thesis
    using tabi assms(1,2) size
    by (simp add: keeper_GetCode_def keeper_GetCodeSize_def keeper_GetCodeHash_def keeper_GetNonce_def
        keeper_GetState_def get key_simps cast_laws_def keccak_laws_def)
qed

text \<open>After an EVM address is associated with a Cosmos address,
  the addresses that cast to it may receive funds only if they are that Cosmos address; whether any other
  address may receive is unchanged. Removing the association lets all of them receive.\<close>

lemma CanAddressReceive_after_association:
  "CanAddressReceive l (SetAddressMapping l k c t e) addr =
     (if BytesToAddress l addr = e then addr = t else CanAddressReceive l c addr) \<and>
   CanAddressReceive l (DeleteAddressMapping c t e) addr =
     (if BytesToAddress l addr = e then True else CanAddressReceive l c addr)"
  by (auto simp: CanAddressReceive_def Let_def GetTabiAddress_SetAddressMapping GetTabiAddress_DeleteAddressMapping)

end
