(* ===== verification/Evm_Log.thy ===== *)
theory Evm_Log
  imports Tabi_Lib Utils_Slice
begin

text \<open>
  The logs of a transaction: go-ethereum's \<open>Log\<close>, the message \<open>Log\<close> of \<open>x/evm/types\<close> and the conversions
  of \<open>x/evm/keeper/log.go\<close> and \<open>x/evm/types/logs.go\<close>. A \<open>uint\<close> has 64 bits.
\<close>

record eth_Log =
  elog_Address :: address
  elog_Topics :: "hash list"
  elog_Data :: bytes
  elog_BlockNumber :: uint64
  elog_TxHash :: hash
  elog_TxIndex :: uint64
  elog_Index :: uint64

record evm_Log =
  log_Address :: string
  log_Topics :: "string list"
  log_Data :: bytes
  log_Index :: uint32
  log_Synthetic :: bool

definition newLogFromEth :: "lib \<Rightarrow> eth_Log \<Rightarrow> evm_Log" where
  "newLogFromEth l lg =
     \<lparr>log_Address = addr_Hex l (elog_Address lg), log_Topics = map (hash_Hex l) (elog_Topics lg),
      log_Data = elog_Data lg, log_Index = ucast (elog_Index lg), log_Synthetic = False\<rparr>"

definition NewLogsFromEth :: "lib \<Rightarrow> eth_Log list \<Rightarrow> evm_Log list" where
  "NewLogsFromEth l ethlogs = map (newLogFromEth l) ethlogs"

definition ConvertEthLog :: "lib \<Rightarrow> eth_Log \<Rightarrow> evm_Log" where
  "ConvertEthLog l lg =
     \<lparr>log_Address = addr_Hex l (elog_Address lg), log_Topics = map (hash_Hex l) (elog_Topics lg),
      log_Data = elog_Data lg, log_Index = ucast (elog_Index lg), log_Synthetic = False\<rparr>"

definition ConvertSyntheticEthLog :: "lib \<Rightarrow> eth_Log \<Rightarrow> evm_Log" where
  "ConvertSyntheticEthLog l lg = (ConvertEthLog l lg)\<lparr>log_Synthetic := True\<rparr>"

end
