(* ===== verification/StateDB.thy ===== *)
theory StateDB
  imports Keeper_Account Evm_Log "HOL-Library.AList"
begin

text \<open>
  \<open>x/evm/state\<close>: the state database that the EVM runs on. A snapshot branches the multi store and starts
  a fresh temporary state; the branches are values, so a branch that is dropped leaves its parent as it
  was, and writing a branch replaces the content of its parent. Go maps are association lists; where the
  code ranges over one, the order is a parameter. The hooks of the tracing logger only observe and the
  replay of Ethereum blocks is off, so both are left out, and so is \<open>Cleanup\<close>, which only releases memory.
\<close>

section \<open>State\<close>

record accessList =
  acl_Addresses :: "(address \<times> int) list"
  acl_Slots :: "hash list list"

record TemporaryState =
  ts_logs :: "eth_Log list"
  ts_transientStates :: "(string \<times> (string \<times> hash) list) list"
  ts_transientAccounts :: "(string \<times> bytes) list"
  ts_transientModuleStates :: "(bytes \<times> bytes) list"
  ts_transientAccessLists :: accessList
  ts_surplus :: int

record 'x DBImpl =
  db_ctx :: "'x ctx"
  db_snapshottedCtxs :: "'x ctx list"
  db_tempStateCurrent :: TemporaryState
  db_tempStatesHist :: "TemporaryState list"
  db_err :: error
  db_precompileErr :: error
  db_coinbaseAddress :: bytes
  db_coinbaseEvmAddress :: address
  db_simulation :: bool
  db_eventsSuppressed :: bool

definition NewTemporaryState :: TemporaryState where
  "NewTemporaryState = \<lparr>
     ts_logs = [], ts_transientStates = [], ts_transientAccounts = [], ts_transientModuleStates = [],
     ts_transientAccessLists = \<lparr>acl_Addresses = [], acl_Slots = []\<rparr>, ts_surplus = 0\<rparr>"

definition GasRefundKey :: bytes where "GasRefundKey = [0x01]"
definition AccountCreated :: bytes where "AccountCreated = [0x01]"
definition AccountDeleted :: bytes where "AccountDeleted = [0x02]"

definition CoinbaseAddressPrefix :: bytes where
  "CoinbaseAddressPrefix = str_bytes ''evm_coinbase''"

definition GetCoinbaseAddress :: "int64 \<Rightarrow> bytes" where
  "GetCoinbaseAddress txIdx = CoinbaseAddressPrefix @ PutUint64 txIdx"

definition AtabiToWeiMultiplier :: int where
  "AtabiToWeiMultiplier = 1000000000000"

definition SplitAtabiWeiAmount :: "lib \<Rightarrow> int \<Rightarrow> (int \<times> int) go" where
  "SplitAtabiWeiAmount l amt =
     (let wei = big_Mod amt AtabiToWeiMultiplier; atabi = big_Quo amt AtabiToWeiMultiplier in
      go_bind (NewIntFromBigInt l atabi) (\<lambda>a. go_bind (NewIntFromBigInt l wei) (\<lambda>w. Done (a, w))))"

definition set_cur :: "(TemporaryState \<Rightarrow> TemporaryState) \<Rightarrow> 'x DBImpl \<Rightarrow> 'x DBImpl" where
  "set_cur f db = db\<lparr>db_tempStateCurrent := f (db_tempStateCurrent db)\<rparr>"

section \<open>Snapshots\<close>

definition Snapshot :: "'x DBImpl \<Rightarrow> nat \<times> 'x DBImpl" where
  "Snapshot db =
     (let newCtx = (db_ctx db)\<lparr>cx_events := []\<rparr>;
          db1 = db\<lparr>db_snapshottedCtxs := db_snapshottedCtxs db @ [db_ctx db], db_ctx := newCtx,
                  db_tempStatesHist := db_tempStatesHist db @ [db_tempStateCurrent db],
                  db_tempStateCurrent := NewTemporaryState\<rparr> in
      (length (db_snapshottedCtxs db1) - 1, db1))"

definition RevertToSnapshot :: "nat \<Rightarrow> 'x DBImpl \<Rightarrow> 'x DBImpl go" where
  "RevertToSnapshot revision db =
     (if revision < length (db_snapshottedCtxs db) \<and> revision < length (db_tempStatesHist db) then
        Done (snd (Snapshot (db\<lparr>
          db_ctx := db_snapshottedCtxs db ! revision, db_snapshottedCtxs := take revision (db_snapshottedCtxs db),
          db_tempStateCurrent := db_tempStatesHist db ! revision, db_tempStatesHist := take revision (db_tempStatesHist db)\<rparr>)))
      else Panic ''index out of range'')"

text \<open>\<open>GetFeeCollectorAddress\<close> (\<open>x/evm/keeper/coinbase.go\<close>): the EVM address of the fee collector, or the
  zero address with an error; the cache it keeps holds what the first call returned and is not modelled.\<close>

definition GetFeeCollectorAddress :: "'x keepers \<Rightarrow> 'x ctx \<Rightarrow> string + address" where
  "GetFeeCollectorAddress k c =
     (case GetEVMAddress c (GetModuleAddress k ''fee_collector'') of
        None \<Rightarrow> Inl ''fee collector's EVM address not found'' | Some a \<Rightarrow> Inr a)"

definition NewDBImpl :: "'x keepers \<Rightarrow> 'x ctx \<Rightarrow> bool \<Rightarrow> 'x DBImpl" where
  "NewDBImpl k c simulation =
     (let feeCollector = (case GetFeeCollectorAddress k c of Inl _ \<Rightarrow> replicate 20 0 | Inr a \<Rightarrow> a) in
      snd (Snapshot \<lparr>
        db_ctx = c, db_snapshottedCtxs = [], db_tempStateCurrent = NewTemporaryState, db_tempStatesHist = [],
        db_err = None, db_precompileErr = None, db_coinbaseAddress = GetCoinbaseAddress (cx_TxIndex c),
        db_coinbaseEvmAddress = feeCollector, db_simulation = simulation, db_eventsSuppressed = False\<rparr>))"

section \<open>Balances\<close>

definition getTabiAddress :: "'x DBImpl \<Rightarrow> address \<Rightarrow> bytes" where
  "getTabiAddress db evmAddr =
     (if db_coinbaseEvmAddress db = evmAddr then db_coinbaseAddress db
      else GetTabiAddressOrDefault (db_ctx db) evmAddr)"

definition db_GetBalance :: "lib \<Rightarrow> 'x keepers \<Rightarrow> address \<Rightarrow> 'x DBImpl \<Rightarrow> int go" where
  "db_GetBalance l k evmAddr db = keeper_GetBalance l k (db_ctx db) (getTabiAddress db evmAddr)"

text \<open>A call to the bank keeper: its state change and its events reach the context, unless the events go
  to a manager that is dropped.\<close>

definition bank_call :: "'x DBImpl \<Rightarrow> 'x \<times> event list \<times> error \<Rightarrow> error \<times> 'x DBImpl" where
  "bank_call db r =
     (case r of (x, es, err) \<Rightarrow>
        (err, db\<lparr>db_ctx := EmitEvents (if db_eventsSuppressed db then [] else es) (with_ext x (db_ctx db))\<rparr>))"

text \<open>The part of \<open>SubBalance\<close> and \<open>AddBalance\<close> after the checks of the sign of the amount.\<close>

definition SubBalance_pos :: "lib \<Rightarrow> 'x keepers \<Rightarrow> address \<Rightarrow> int \<Rightarrow> 'x DBImpl \<Rightarrow> 'x DBImpl go" where
  "SubBalance_pos l k evmAddr amt db =
     go_bind (SplitAtabiWeiAmount l amt) (\<lambda>(atabi, wei).
       let addr = getTabiAddress db evmAddr;
           (err1, db1) = bank_call db (SubUnlockedCoins k (ctx_ext (db_ctx db)) addr atabi) in
       if err1 \<noteq> None then Done (db1\<lparr>db_err := err1\<rparr>) else
       let (err2, db2) = bank_call db1 (SubWei k (ctx_ext (db_ctx db1)) addr wei) in
       if err2 \<noteq> None then Done (db2\<lparr>db_err := err2\<rparr>) else
       go_bind (NewIntFromBigInt l amt) (\<lambda>i.
       go_bind (sdk_Int_Add l (ts_surplus (db_tempStateCurrent db2)) i) (\<lambda>sp.
       Done (set_cur (\<lambda>t. t\<lparr>ts_surplus := sp\<rparr>) db2))))"

definition AddBalance_pos :: "lib \<Rightarrow> 'x keepers \<Rightarrow> address \<Rightarrow> int \<Rightarrow> 'x DBImpl \<Rightarrow> 'x DBImpl go" where
  "AddBalance_pos l k evmAddr amt db =
     go_bind (SplitAtabiWeiAmount l amt) (\<lambda>(atabi, wei).
       let addr = getTabiAddress db evmAddr;
           (err1, db1) = bank_call db (AddCoins k (ctx_ext (db_ctx db)) addr atabi) in
       if err1 \<noteq> None then Done (db1\<lparr>db_err := err1\<rparr>) else
       let (err2, db2) = bank_call db1 (AddWei k (ctx_ext (db_ctx db1)) addr wei) in
       if err2 \<noteq> None then Done (db2\<lparr>db_err := err2\<rparr>) else
       go_bind (NewIntFromBigInt l amt) (\<lambda>i.
       go_bind (sdk_Int_Sub l (ts_surplus (db_tempStateCurrent db2)) i) (\<lambda>sp.
       Done (set_cur (\<lambda>t. t\<lparr>ts_surplus := sp\<rparr>) db2))))"

text \<open>A negative amount calls the other operation with the positive amount.\<close>

definition SubBalance :: "lib \<Rightarrow> 'x keepers \<Rightarrow> address \<Rightarrow> int \<Rightarrow> 'x DBImpl \<Rightarrow> 'x DBImpl go" where
  "SubBalance l k evmAddr amt db =
     (if amt = 0 then Done db
      else if amt < 0 then AddBalance_pos l k evmAddr (- amt) db
      else SubBalance_pos l k evmAddr amt db)"

definition AddBalance :: "lib \<Rightarrow> 'x keepers \<Rightarrow> address \<Rightarrow> int \<Rightarrow> 'x DBImpl \<Rightarrow> 'x DBImpl go" where
  "AddBalance l k evmAddr amt db =
     (if amt = 0 then Done db
      else if amt < 0 then SubBalance_pos l k evmAddr (- amt) db
      else AddBalance_pos l k evmAddr amt db)"

definition db_send :: "lib \<Rightarrow> 'x keepers \<Rightarrow> bytes \<Rightarrow> bytes \<Rightarrow> int \<Rightarrow> 'x DBImpl \<Rightarrow> 'x DBImpl go" where
  "db_send l k sender recipient amt db =
     go_bind (SplitAtabiWeiAmount l amt) (\<lambda>(atabi, wei).
       case SendCoinsAndWei k (ctx_ext (db_ctx db)) sender recipient atabi wei of (x, es, err) \<Rightarrow>
         let db1 = db\<lparr>db_ctx := EmitEvents es (with_ext x (db_ctx db))\<rparr> in
         Done (if err \<noteq> None then db1\<lparr>db_err := err\<rparr> else db1))"

definition SetBalance :: "lib \<Rightarrow> 'x keepers \<Rightarrow> address \<Rightarrow> int \<Rightarrow> 'x DBImpl \<Rightarrow> 'x DBImpl go" where
  "SetBalance l k evmAddr amt db =
     (if \<not> db_simulation db then Panic ''should never call SetBalance in a non-simulation setting''
      else
        let tabiAddr = getTabiAddress db evmAddr; moduleAddr = GetModuleAddress k ''evm'' in
        go_bind (db_GetBalance l k evmAddr db) (\<lambda>old.
        go_bind (db_send l k tabiAddr moduleAddr old db) (\<lambda>db1.
        case db_err db1 of Some e \<Rightarrow> Panic e | None \<Rightarrow>
        go_bind (SplitAtabiWeiAmount l amt) (\<lambda>(atabi, _).
        go_bind (sdk_Int_Add l atabi 1) (\<lambda>mint.
        case MintCoins k (ctx_ext (db_ctx db1)) ''evm'' mint of (x, es, err) \<Rightarrow>
        case err of Some e \<Rightarrow> Panic e | None \<Rightarrow>
        go_bind (db_send l k moduleAddr tabiAddr amt
                   (db1\<lparr>db_ctx := EmitEvents es (with_ext x (db_ctx db1))\<rparr>)) (\<lambda>db2.
        case db_err db2 of Some e \<Rightarrow> Panic e | None \<Rightarrow> Done db2))))))"

definition AddSurplus :: "lib \<Rightarrow> bigint \<Rightarrow> 'x DBImpl \<Rightarrow> 'x DBImpl go" where
  "AddSurplus l surplus db =
     (case surplus of None \<Rightarrow> Done db | Some sp \<Rightarrow>
      if sp = 0 then Done db
      else go_bind (sdk_Int_Add l (ts_surplus (db_tempStateCurrent db)) sp) (\<lambda>t.
        Done (set_cur (\<lambda>c. c\<lparr>ts_surplus := t\<rparr>) db)))"

definition DisableEvents :: "'x DBImpl \<Rightarrow> 'x DBImpl" where
  "DisableEvents db = db\<lparr>db_eventsSuppressed := True\<rparr>"

definition EnableEvents :: "'x DBImpl \<Rightarrow> 'x DBImpl" where
  "EnableEvents db = db\<lparr>db_eventsSuppressed := False\<rparr>"

definition TransferWithoutEvents :: "lib \<Rightarrow> 'x keepers \<Rightarrow> address \<Rightarrow> address \<Rightarrow> int \<Rightarrow> 'x DBImpl \<Rightarrow> 'x DBImpl go" where
  "TransferWithoutEvents l k sender recipient amount db =
     go_bind (SubBalance l k sender amount (DisableEvents db)) (\<lambda>db1.
     go_bind (AddBalance l k recipient amount db1) (\<lambda>db2.
     Done (EnableEvents db2)))"

section \<open>Accounts\<close>

text \<open>The lookup of the temporary states: the current one first, then the history from the newest to the
  oldest.\<close>

fun hist_find :: "(TemporaryState \<Rightarrow> 'v option) \<Rightarrow> TemporaryState list \<Rightarrow> 'v option" where
  "hist_find f [] = None"
| "hist_find f (t # ts) = (case f t of Some v \<Rightarrow> Some v | None \<Rightarrow> hist_find f ts)"

definition ts_find :: "(TemporaryState \<Rightarrow> 'v option) \<Rightarrow> 'x DBImpl \<Rightarrow> 'v option" where
  "ts_find f db =
     (case f (db_tempStateCurrent db) of Some v \<Rightarrow> Some v | None \<Rightarrow> hist_find f (rev (db_tempStatesHist db)))"

definition getTransientAccount :: "lib \<Rightarrow> address \<Rightarrow> 'x DBImpl \<Rightarrow> bytes option" where
  "getTransientAccount l acc db = ts_find (\<lambda>t. map_of (ts_transientAccounts t) (addr_Hex l acc)) db"

definition getTransientModule :: "bytes \<Rightarrow> 'x DBImpl \<Rightarrow> bytes option" where
  "getTransientModule key db = ts_find (\<lambda>t. map_of (ts_transientModuleStates t) key) db"

definition getTransientState :: "lib \<Rightarrow> address \<Rightarrow> hash \<Rightarrow> 'x DBImpl \<Rightarrow> hash option" where
  "getTransientState l acc key db =
     ts_find (\<lambda>t. case map_of (ts_transientStates t) (addr_Hex l acc) of
                    None \<Rightarrow> None | Some m \<Rightarrow> map_of m (hash_Hex l key)) db"

definition MarkAccount :: "lib \<Rightarrow> address \<Rightarrow> bytes \<Rightarrow> 'x DBImpl \<Rightarrow> 'x DBImpl" where
  "MarkAccount l acc status db =
     set_cur (\<lambda>t. t\<lparr>ts_transientAccounts := AList.update (addr_Hex l acc) status (ts_transientAccounts t)\<rparr>) db"

definition Created :: "lib \<Rightarrow> address \<Rightarrow> 'x DBImpl \<Rightarrow> bool" where
  "Created l acc db = (case getTransientAccount l acc db of None \<Rightarrow> False | Some v \<Rightarrow> v = AccountCreated)"

definition HasSelfDestructed :: "lib \<Rightarrow> address \<Rightarrow> 'x DBImpl \<Rightarrow> bool" where
  "HasSelfDestructed l acc db = (case getTransientAccount l acc db of None \<Rightarrow> False | Some v \<Rightarrow> v = AccountDeleted)"

definition deleteIfExists :: "bytes \<Rightarrow> bytes \<Rightarrow> 'x ctx \<Rightarrow> 'x ctx" where
  "deleteIfExists pref key c =
     (if kv_has (KVStore c) (pref @ key) then PrefixStore_Delete c pref key else c)"

definition clearAccountState_ctx :: "address \<Rightarrow> 'x ctx \<Rightarrow> 'x ctx" where
  "clearAccountState_ctx acc c =
     deleteIfExists NonceKeyPrefix acc (deleteIfExists CodeHashKeyPrefix acc
       (deleteIfExists CodeSizeKeyPrefix acc (deleteIfExists CodeKeyPrefix acc (PurgePrefix c (StateKey acc)))))"

definition clearAccountState :: "address \<Rightarrow> 'x DBImpl \<Rightarrow> 'x DBImpl" where
  "clearAccountState acc db = db\<lparr>db_ctx := clearAccountState_ctx acc (db_ctx db)\<rparr>"

definition CreateAccount :: "lib \<Rightarrow> address \<Rightarrow> 'x DBImpl \<Rightarrow> 'x DBImpl" where
  "CreateAccount l acc db =
     (let db1 = (if \<not> cx_IsTracing (db_ctx db) then clearAccountState acc db else db) in
      MarkAccount l acc AccountCreated db1)"

definition SelfDestruct :: "lib \<Rightarrow> 'x keepers \<Rightarrow> address \<Rightarrow> 'x DBImpl \<Rightarrow> 'x DBImpl go" where
  "SelfDestruct l k acc db =
     (let db1 = (case GetTabiAddress (db_ctx db) acc of
                   Some tabiAddr \<Rightarrow> db\<lparr>db_ctx := DeleteAddressMapping (db_ctx db) tabiAddr acc\<rparr>
                 | None \<Rightarrow> db) in
      go_bind (db_GetBalance l k acc db1) (\<lambda>b.
      go_bind (SubBalance l k acc b db1) (\<lambda>db2.
      Done (MarkAccount l acc AccountDeleted db2))))"

definition Selfdestruct6780 :: "lib \<Rightarrow> 'x keepers \<Rightarrow> address \<Rightarrow> 'x DBImpl \<Rightarrow> 'x DBImpl go" where
  "Selfdestruct6780 l k acc db = (if Created l acc db then SelfDestruct l k acc db else Done db)"

section \<open>Storage, code and nonces\<close>

definition db_GetState :: "lib \<Rightarrow> address \<Rightarrow> hash \<Rightarrow> 'x DBImpl \<Rightarrow> hash" where
  "db_GetState l addr h db = keeper_GetState l (db_ctx db) addr h"

definition GetCommittedState :: "lib \<Rightarrow> address \<Rightarrow> hash \<Rightarrow> 'x DBImpl \<Rightarrow> hash go" where
  "GetCommittedState l addr h db =
     (case db_snapshottedCtxs db of [] \<Rightarrow> Panic ''index out of range'' | c # _ \<Rightarrow> Done (keeper_GetState l c addr h))"

definition db_SetState :: "address \<Rightarrow> hash \<Rightarrow> hash \<Rightarrow> 'x DBImpl \<Rightarrow> 'x DBImpl" where
  "db_SetState addr key v db = db\<lparr>db_ctx := keeper_SetState (db_ctx db) addr key v\<rparr>"

definition SetStorage :: "address \<Rightarrow> (hash \<times> hash) list \<Rightarrow> 'x DBImpl \<Rightarrow> 'x DBImpl" where
  "SetStorage addr states db =
     fold (\<lambda>(key, v) db. db_SetState addr key v db) states (clearAccountState addr db)"

definition GetTransientState :: "lib \<Rightarrow> address \<Rightarrow> hash \<Rightarrow> 'x DBImpl \<Rightarrow> hash" where
  "GetTransientState l addr key db =
     (case getTransientState l addr key db of None \<Rightarrow> replicate 32 0 | Some v \<Rightarrow> v)"

definition SetTransientState :: "lib \<Rightarrow> address \<Rightarrow> hash \<Rightarrow> hash \<Rightarrow> 'x DBImpl \<Rightarrow> 'x DBImpl" where
  "SetTransientState l addr key v db =
     set_cur (\<lambda>t.
       let st = (case map_of (ts_transientStates t) (addr_Hex l addr) of None \<Rightarrow> [] | Some st \<Rightarrow> st) in
       t\<lparr>ts_transientStates := AList.update (addr_Hex l addr) (AList.update (hash_Hex l key) v st) (ts_transientStates t)\<rparr>) db"

definition db_GetNonce :: "address \<Rightarrow> 'x DBImpl \<Rightarrow> uint64 go" where
  "db_GetNonce addr db = keeper_GetNonce (db_ctx db) addr"

definition db_SetNonce :: "address \<Rightarrow> uint64 \<Rightarrow> 'x DBImpl \<Rightarrow> 'x DBImpl" where
  "db_SetNonce addr nonce db = db\<lparr>db_ctx := keeper_SetNonce (db_ctx db) addr nonce\<rparr>"

definition db_GetCodeHash :: "lib \<Rightarrow> 'x keepers \<Rightarrow> address \<Rightarrow> 'x DBImpl \<Rightarrow> hash go" where
  "db_GetCodeHash l k addr db = keeper_GetCodeHash l k (db_ctx db) addr"

definition db_GetCode :: "address \<Rightarrow> 'x DBImpl \<Rightarrow> bytes" where
  "db_GetCode addr db = keeper_GetCode (db_ctx db) addr"

definition db_SetCode :: "lib \<Rightarrow> 'x keepers \<Rightarrow> address \<Rightarrow> bytes \<Rightarrow> 'x DBImpl \<Rightarrow> 'x DBImpl" where
  "db_SetCode l k addr code db = db\<lparr>db_ctx := keeper_SetCode l k (db_ctx db) addr code\<rparr>"

definition db_GetCodeSize :: "address \<Rightarrow> 'x DBImpl \<Rightarrow> int go" where
  "db_GetCodeSize addr db = keeper_GetCodeSize (db_ctx db) addr"

text \<open>The operands of \<open>||\<close> and \<open>&&\<close> are evaluated only when needed.\<close>

definition Exist :: "lib \<Rightarrow> 'x keepers \<Rightarrow> address \<Rightarrow> 'x DBImpl \<Rightarrow> bool go" where
  "Exist l k addr db =
     go_bind (db_GetCodeHash l k addr db) (\<lambda>codeHash.
     if codeHash \<noteq> replicate 32 0 then Done True else
     go_bind (db_GetNonce addr db) (\<lambda>nonce.
     if nonce > 0 then Done True else
     go_bind (db_GetBalance l k addr db) (\<lambda>b.
     if b > 0 then Done True else Done (HasSelfDestructed l addr db))))"

definition Empty :: "lib \<Rightarrow> 'x keepers \<Rightarrow> address \<Rightarrow> 'x DBImpl \<Rightarrow> bool go" where
  "Empty l k addr db =
     go_bind (db_GetBalance l k addr db) (\<lambda>b.
     if b \<noteq> 0 then Done False else
     go_bind (db_GetNonce addr db) (\<lambda>nonce.
     if nonce \<noteq> 0 then Done False else
     go_bind (db_GetCodeHash l k addr db) (\<lambda>h. Done (h = replicate 32 0))))"

section \<open>Logs and the refund counter\<close>

definition GetAllLogs :: "'x DBImpl \<Rightarrow> eth_Log list" where
  "GetAllLogs db = concat (map ts_logs (db_tempStatesHist db)) @ ts_logs (db_tempStateCurrent db)"

definition AddLog :: "eth_Log \<Rightarrow> 'x DBImpl \<Rightarrow> 'x DBImpl" where
  "AddLog lg db =
     (let lg' = lg\<lparr>elog_Index := word_of_nat (length (GetAllLogs db))\<rparr> in
      set_cur (\<lambda>t. t\<lparr>ts_logs := ts_logs t @ [lg']\<rparr>) db)"

definition GetRefund :: "'x DBImpl \<Rightarrow> uint64 go" where
  "GetRefund db = (case getTransientModule GasRefundKey db of None \<Rightarrow> Done 0 | Some bz \<Rightarrow> Uint64 bz)"

definition set_refund :: "uint64 \<Rightarrow> 'x DBImpl \<Rightarrow> 'x DBImpl" where
  "set_refund r db =
     set_cur (\<lambda>t. t\<lparr>ts_transientModuleStates := AList.update GasRefundKey (PutUint64 r) (ts_transientModuleStates t)\<rparr>) db"

definition AddRefund :: "uint64 \<Rightarrow> 'x DBImpl \<Rightarrow> 'x DBImpl go" where
  "AddRefund gas db = go_bind (GetRefund db) (\<lambda>refund. Done (set_refund (refund + gas) db))"

definition SubRefund :: "uint64 \<Rightarrow> 'x DBImpl \<Rightarrow> 'x DBImpl go" where
  "SubRefund gas db =
     go_bind (GetRefund db) (\<lambda>refund.
     if gas > refund then Panic ''Refund counter below zero'' else Done (set_refund (refund - gas) db))"

section \<open>Access lists\<close>

definition getCurrentAccessList :: "'x DBImpl \<Rightarrow> accessList" where
  "getCurrentAccessList db = ts_transientAccessLists (db_tempStateCurrent db)"

definition set_acl :: "(accessList \<Rightarrow> accessList) \<Rightarrow> 'x DBImpl \<Rightarrow> 'x DBImpl" where
  "set_acl f db = set_cur (\<lambda>t. t\<lparr>ts_transientAccessLists := f (ts_transientAccessLists t)\<rparr>) db"

definition AddressInAccessList :: "address \<Rightarrow> 'x DBImpl \<Rightarrow> bool" where
  "AddressInAccessList addr db =
     (if map_of (acl_Addresses (getCurrentAccessList db)) addr \<noteq> None then True
      else (\<exists>ts \<in> set (db_tempStatesHist db). map_of (acl_Addresses (ts_transientAccessLists ts)) addr \<noteq> None))"

definition slot_at :: "accessList \<Rightarrow> int \<Rightarrow> hash \<Rightarrow> bool go" where
  "slot_at al idx slot =
     (if 0 \<le> idx \<and> nat idx < length (acl_Slots al) then Done (slot \<in> set (acl_Slots al ! nat idx))
      else Panic ''index out of range'')"

fun SlotInAccessList_hist :: "address \<Rightarrow> hash \<Rightarrow> bool \<Rightarrow> TemporaryState list \<Rightarrow> (bool \<times> bool) go" where
  "SlotInAccessList_hist addr slot addrOk [] = Done (addrOk, False)"
| "SlotInAccessList_hist addr slot addrOk (ts # rest) =
     (case map_of (acl_Addresses (ts_transientAccessLists ts)) addr of
        None \<Rightarrow> SlotInAccessList_hist addr slot addrOk rest
      | Some idx \<Rightarrow>
          if idx \<noteq> -1 then
            go_bind (slot_at (ts_transientAccessLists ts) idx slot) (\<lambda>slotOk.
            if slotOk then Done (True, True) else SlotInAccessList_hist addr slot True rest)
          else SlotInAccessList_hist addr slot True rest)"

definition SlotInAccessList :: "address \<Rightarrow> hash \<Rightarrow> 'x DBImpl \<Rightarrow> (bool \<times> bool) go" where
  "SlotInAccessList addr slot db =
     (let al = getCurrentAccessList db in
      case map_of (acl_Addresses al) addr of
        None \<Rightarrow> SlotInAccessList_hist addr slot False (db_tempStatesHist db)
      | Some idx \<Rightarrow>
          if idx \<noteq> -1 then
            go_bind (slot_at al idx slot) (\<lambda>slotOk.
            if slotOk then Done (True, True) else SlotInAccessList_hist addr slot True (db_tempStatesHist db))
          else SlotInAccessList_hist addr slot True (db_tempStatesHist db))"

definition AddAddressToAccessList :: "address \<Rightarrow> 'x DBImpl \<Rightarrow> 'x DBImpl" where
  "AddAddressToAccessList addr db =
     (if map_of (acl_Addresses (getCurrentAccessList db)) addr \<noteq> None then db
      else set_acl (\<lambda>al. al\<lparr>acl_Addresses := AList.update addr (-1) (acl_Addresses al)\<rparr>) db)"

definition AddSlotToAccessList :: "address \<Rightarrow> hash \<Rightarrow> 'x DBImpl \<Rightarrow> 'x DBImpl go" where
  "AddSlotToAccessList addr slot db =
     (let al = getCurrentAccessList db; r = map_of (acl_Addresses al) addr in
      if r = None \<or> r = Some (-1) then
        Done (set_acl (\<lambda>al. al\<lparr>acl_Addresses := AList.update addr (int (length (acl_Slots al))) (acl_Addresses al),
                              acl_Slots := acl_Slots al @ [[slot]]\<rparr>) db)
      else
        let idx = the r in
        go_bind (slot_at al idx slot) (\<lambda>present.
        if present then Done db
        else Done (set_acl (\<lambda>al. al\<lparr>acl_Slots := (acl_Slots al)[nat idx := slot # (acl_Slots al ! nat idx)]\<rparr>) db)))"

definition CustomPrecompileStartingAddr :: address where
  "CustomPrecompileStartingAddr = replicate 18 0 @ [0x10, 0x01]"

fun Prepare_slots :: "address \<Rightarrow> hash list \<Rightarrow> 'x DBImpl \<Rightarrow> 'x DBImpl go" where
  "Prepare_slots addr [] db = Done db"
| "Prepare_slots addr (key # keys) db = go_bind (AddSlotToAccessList addr key db) (Prepare_slots addr keys)"

fun Prepare_accesses :: "(address \<times> hash list) list \<Rightarrow> 'x DBImpl \<Rightarrow> 'x DBImpl go" where
  "Prepare_accesses [] db = Done db"
| "Prepare_accesses ((addr, keys) # els) db =
     go_bind (Prepare_slots addr keys (AddAddressToAccessList addr db)) (Prepare_accesses els)"

definition Prepare ::
    "address \<Rightarrow> address \<Rightarrow> address option \<Rightarrow> address list \<Rightarrow> (address \<times> hash list) list \<Rightarrow> 'x DBImpl \<Rightarrow> 'x DBImpl go" where
  "Prepare sender coinbase dest precompiles txAccesses db =
     (let db1 = AddAddressToAccessList sender (snd (Snapshot db));
          db2 = (case dest of None \<Rightarrow> db1 | Some d \<Rightarrow> AddAddressToAccessList d db1);
          db3 = fold (\<lambda>addr db.
                  if addr \<ge> CustomPrecompileStartingAddr \<and> \<not> cx_IsTracing (db_ctx db) then db
                  else AddAddressToAccessList addr db) precompiles db2 in
      go_bind (Prepare_accesses txAccesses db3) (\<lambda>db4.
      Done (AddAddressToAccessList coinbase db4)))"

section \<open>Finalising\<close>

text \<open>\<open>rng\<close> is the order in which a range over \<open>transientAccounts\<close> yields the entries.\<close>

fun residual_loop :: "lib \<Rightarrow> 'x keepers \<Rightarrow> (string \<times> bytes) list \<Rightarrow> 'x DBImpl \<Rightarrow> 'x DBImpl go" where
  "residual_loop l k [] db = Done db"
| "residual_loop l k ((a, status) # es) db =
     (if status \<noteq> AccountDeleted then residual_loop l k es db
      else
        let acc = HexToAddress l a in
        go_bind (db_GetBalance l k acc db) (\<lambda>residual.
        if residual = 0 then residual_loop l k es db
        else
          go_bind (SubBalance l k acc residual db) (\<lambda>db1.
          go_bind (AddBalance l k (db_coinbaseEvmAddress db1) residual db1) (\<lambda>db2.
          residual_loop l k es db2))))"

type_synonym map_order = "(string \<times> bytes) list \<Rightarrow> (string \<times> bytes) list"

definition handleResidualFundsInDestructedAccounts ::
    "lib \<Rightarrow> 'x keepers \<Rightarrow> map_order \<Rightarrow> TemporaryState \<Rightarrow> 'x DBImpl \<Rightarrow> 'x DBImpl go" where
  "handleResidualFundsInDestructedAccounts l k rng st db = residual_loop l k (rng (ts_transientAccounts st)) db"

definition clearAccountStateIfDestructed :: "lib \<Rightarrow> map_order \<Rightarrow> TemporaryState \<Rightarrow> 'x DBImpl \<Rightarrow> 'x DBImpl" where
  "clearAccountStateIfDestructed l rng st db =
     fold (\<lambda>(acc, status) db. if status \<noteq> AccountDeleted then db else clearAccountState (HexToAddress l acc) db)
       (rng (ts_transientAccounts st)) db"

fun finalize_layers :: "lib \<Rightarrow> 'x keepers \<Rightarrow> map_order \<Rightarrow> TemporaryState list \<Rightarrow> 'x DBImpl \<Rightarrow> 'x DBImpl go" where
  "finalize_layers l k rng [] db = Done db"
| "finalize_layers l k rng (ts # rest) db =
     go_bind (handleResidualFundsInDestructedAccounts l k rng ts db) (\<lambda>db1.
     finalize_layers l k rng rest (clearAccountStateIfDestructed l rng ts db1))"

text \<open>The base context always exists when events are flushed: \<open>Finalize\<close> would panic without it.\<close>

text \<open>\<open>Write\<close> of the branch that a context holds, onto the stores of the context at position \<open>i\<close> of the snapshots, which it was
  branched from. The stores below a branch do not change while it is in use, so afterwards they read as the branch does.\<close>

definition flushCtx :: "'x ctx \<Rightarrow> nat \<Rightarrow> 'x ctx list \<Rightarrow> 'x ctx list" where
  "flushCtx c i ctxs = ctxs[i := (ctxs ! i)\<lparr>cx_ms := cx_ms c\<rparr>]"

text \<open>The loop over the snapshots in reverse order: the context at position \<open>i\<close> is written onto the one before it, for \<open>i\<close> from the
  argument down to 1. The base context is not written.\<close>

fun flush_loop :: "nat \<Rightarrow> 'x ctx list \<Rightarrow> 'x ctx list" where
  "flush_loop 0 ctxs = ctxs"
| "flush_loop (Suc i) ctxs = flush_loop i (flushCtx (ctxs ! Suc i) i ctxs)"

definition flushCtxs :: "'x DBImpl \<Rightarrow> 'x DBImpl" where
  "flushCtxs db =
     (let n = length (db_snapshottedCtxs db) in
      if n = 0 then db
      else db\<lparr>db_snapshottedCtxs := flush_loop (n - 1) (flushCtx (db_ctx db) (n - 1) (db_snapshottedCtxs db))\<rparr>)"

text \<open>After the loop every context below the current one has its stores.\<close>

lemma flush_loop_all:
  "i < length ctxs \<Longrightarrow> flush_loop i ctxs = map (\<lambda>c. c\<lparr>cx_ms := cx_ms (ctxs ! i)\<rparr>) (take i ctxs) @ drop i ctxs"
proof (induction i arbitrary: ctxs)
  case (Suc i)
  let ?d = "(ctxs ! i)\<lparr>cx_ms := cx_ms (ctxs ! Suc i)\<rparr>"
  have "flushCtx (ctxs ! Suc i) i ctxs = take i ctxs @ ?d # drop (Suc i) ctxs"
    using Suc.prems by (simp add: flushCtx_def upd_conv_take_nth_drop)
  then have "flush_loop (Suc i) ctxs = flush_loop i (take i ctxs @ ?d # drop (Suc i) ctxs)" by simp
  also have "\<dots> = map (\<lambda>c. c\<lparr>cx_ms := cx_ms (ctxs ! Suc i)\<rparr>) (take i ctxs) @ ?d # drop (Suc i) ctxs"
    using Suc.IH [of "take i ctxs @ ?d # drop (Suc i) ctxs"] Suc.prems by (simp add: nth_append)
  finally show ?case using Suc.prems by (simp add: take_Suc_conv_app_nth)
qed simp

lemma flushCtxs_all:
  "flushCtxs db =
     (if db_snapshottedCtxs db = [] then db
      else db\<lparr>db_snapshottedCtxs := map (\<lambda>c. c\<lparr>cx_ms := cx_ms (db_ctx db)\<rparr>) (db_snapshottedCtxs db)\<rparr>)"
proof (cases "db_snapshottedCtxs db" rule: rev_cases)
  case (snoc cs c)
  let ?d = "c\<lparr>cx_ms := cx_ms (db_ctx db)\<rparr>"
  have "flushCtx (db_ctx db) (length cs) (cs @ [c]) = cs @ [?d]" by (simp add: flushCtx_def)
  moreover have "flush_loop (length cs) (cs @ [?d]) = map (\<lambda>c. c\<lparr>cx_ms := cx_ms (db_ctx db)\<rparr>) cs @ [?d]"
    by (subst flush_loop_all) simp_all
  ultimately show ?thesis using snoc by (simp add: flushCtxs_def)
qed (simp add: flushCtxs_def)

definition flushEvents :: "'x ctx \<Rightarrow> 'x DBImpl \<Rightarrow> 'x DBImpl" where
  "flushEvents c db =
     (case db_snapshottedCtxs db of [] \<Rightarrow> db
      | b # cs \<Rightarrow> db\<lparr>db_snapshottedCtxs := EmitEvents (cx_events c) b # cs\<rparr>)"

fun sum_surplus :: "lib \<Rightarrow> int \<Rightarrow> TemporaryState list \<Rightarrow> int go" where
  "sum_surplus l sp [] = Done sp"
| "sum_surplus l sp (ts # rest) = go_bind (sdk_Int_Add l sp (ts_surplus ts)) (\<lambda>sp'. sum_surplus l sp' rest)"

definition Finalize :: "lib \<Rightarrow> 'x keepers \<Rightarrow> map_order \<Rightarrow> 'x DBImpl \<Rightarrow> ((bigint \<times> error) \<times> 'x DBImpl) go" where
  "Finalize l k rng db =
     (if db_simulation db then Panic ''should never call finalize on a simulation DB''
      else if db_err db \<noteq> None then Done ((None, db_err db), db)
      else
        go_bind (finalize_layers l k rng (db_tempStateCurrent db # db_tempStatesHist db) db) (\<lambda>db1.
        if db_snapshottedCtxs db1 = [] then Panic ''index out of range'' else
        let db2 = flushCtxs db1;
            db3 = fold flushEvents (drop 1 (db_snapshottedCtxs db2)) db2;
            db4 = flushEvents (db_ctx db3) db3 in
        go_bind (sum_surplus l (ts_surplus (db_tempStateCurrent db4)) (db_tempStatesHist db4)) (\<lambda>surplus.
        Done ((Some surplus, None), db4))))"

definition db_Copy :: "'x DBImpl \<Rightarrow> 'x DBImpl" where
  "db_Copy db = db\<lparr>
     db_ctx := (db_ctx db)\<lparr>cx_events := []\<rparr>, db_snapshottedCtxs := db_snapshottedCtxs db @ [db_ctx db],
     db_tempStateCurrent := NewTemporaryState, db_tempStatesHist := db_tempStatesHist db @ [db_tempStateCurrent db],
     db_eventsSuppressed := False\<rparr>"

definition CleanupForTracer :: "'x keepers \<Rightarrow> 'x DBImpl \<Rightarrow> 'x DBImpl" where
  "CleanupForTracer k db =
     (let db1 = flushCtxs db;
          db2 = (case db_snapshottedCtxs db1 of [] \<Rightarrow> db1 | c # _ \<Rightarrow> db1\<lparr>db_ctx := c\<rparr>);
          feeCollector = (case GetFeeCollectorAddress k (db_ctx db2) of Inl _ \<Rightarrow> replicate 20 0 | Inr a \<Rightarrow> a) in
      snd (Snapshot (db2\<lparr>db_coinbaseEvmAddress := feeCollector, db_tempStateCurrent := NewTemporaryState,
                        db_tempStatesHist := [], db_snapshottedCtxs := []\<rparr>)))"

definition SetPrecompileError :: "error \<Rightarrow> 'x DBImpl \<Rightarrow> 'x DBImpl" where
  "SetPrecompileError err db = db\<lparr>db_precompileErr := err\<rparr>"

end
