(* ===== verification/StateDB_Props.thy ===== *)
theory StateDB_Props
  imports StateDB
begin

text \<open>
  The state database as a state machine: the operations the EVM and the precompiles call, any sequence of
  them, and what holds after it. The supply of tokens is conserved up to the surplus that \<open>Finalize\<close>
  returns; a revert undoes everything since its snapshot; logs are numbered by position.
\<close>

section \<open>Operations and runs\<close>

datatype db_op =
    OpSubBalance address int
  | OpAddBalance address int
  | OpTransferWithoutEvents address address int
  | OpSnapshot
  | OpRevertToSnapshot nat
  | OpCreateAccount address
  | OpSelfDestruct address
  | OpSelfdestruct6780 address
  | OpSetState address hash hash
  | OpSetTransientState address hash hash
  | OpSetNonce address uint64
  | OpSetCode address bytes
  | OpAddLog eth_Log
  | OpAddRefund uint64
  | OpSubRefund uint64
  | OpAddAddressToAccessList address
  | OpAddSlotToAccessList address hash
  | OpPrepare address address "address option" "address list" "(address \<times> hash list) list"
  | OpSetPrecompileError error

fun db_step :: "lib \<Rightarrow> 'x keepers \<Rightarrow> db_op \<Rightarrow> 'x DBImpl \<Rightarrow> 'x DBImpl go" where
  "db_step l k (OpSubBalance a n) db = SubBalance l k a n db"
| "db_step l k (OpAddBalance a n) db = AddBalance l k a n db"
| "db_step l k (OpTransferWithoutEvents a b n) db = TransferWithoutEvents l k a b n db"
| "db_step l k OpSnapshot db = Done (snd (Snapshot db))"
| "db_step l k (OpRevertToSnapshot r) db = RevertToSnapshot r db"
| "db_step l k (OpCreateAccount a) db = Done (CreateAccount l a db)"
| "db_step l k (OpSelfDestruct a) db = SelfDestruct l k a db"
| "db_step l k (OpSelfdestruct6780 a) db = Selfdestruct6780 l k a db"
| "db_step l k (OpSetState a s v) db = Done (db_SetState a s v db)"
| "db_step l k (OpSetTransientState a s v) db = Done (SetTransientState l a s v db)"
| "db_step l k (OpSetNonce a n) db = Done (db_SetNonce a n db)"
| "db_step l k (OpSetCode a c) db = Done (db_SetCode l k a c db)"
| "db_step l k (OpAddLog lg) db = Done (AddLog lg db)"
| "db_step l k (OpAddRefund g) db = AddRefund g db"
| "db_step l k (OpSubRefund g) db = SubRefund g db"
| "db_step l k (OpAddAddressToAccessList a) db = Done (AddAddressToAccessList a db)"
| "db_step l k (OpAddSlotToAccessList a s) db = AddSlotToAccessList a s db"
| "db_step l k (OpPrepare s c d ps al) db = Prepare s c d ps al db"
| "db_step l k (OpSetPrecompileError e) db = Done (SetPrecompileError e db)"

fun db_run :: "lib \<Rightarrow> 'x keepers \<Rightarrow> db_op list \<Rightarrow> 'x DBImpl \<Rightarrow> 'x DBImpl go" where
  "db_run l k [] db = Done db"
| "db_run l k (op # ops) db = go_bind (db_step l k op db) (db_run l k ops)"

text \<open>The states that a database created on \<open>c\<close> can reach.\<close>

inductive db_reachable :: "lib \<Rightarrow> 'x keepers \<Rightarrow> 'x ctx \<Rightarrow> bool \<Rightarrow> 'x DBImpl \<Rightarrow> bool" for l k c sim where
  new: "db_reachable l k c sim (NewDBImpl k c sim)"
| step: "db_reachable l k c sim db \<Longrightarrow> db_step l k op db = Done db' \<Longrightarrow> db_reachable l k c sim db'"

lemma db_reachable_run:
  "db_run l k ops db = Done db' \<Longrightarrow> db_reachable l k c sim db \<Longrightarrow> db_reachable l k c sim db'"
  by (induction ops arbitrary: db) (auto simp: go_Done_iffs intro: db_reachable.step)

section \<open>What an operation leaves alone\<close>

text \<open>The supply of tokens in wei, as the bank keeper accounts for it: a successful debit or credit changes
  it by its amount, and creating an account does not change it.\<close>

definition supply_laws :: "'x keepers \<Rightarrow> ('x \<Rightarrow> int) \<Rightarrow> bool" where
  "supply_laws k T \<longleftrightarrow>
     (\<forall>x a n. snd (snd (SubUnlockedCoins k x a n)) = None \<longrightarrow> T (fst (SubUnlockedCoins k x a n)) = T x - 1000000000000 * n) \<and>
     (\<forall>x a n. snd (snd (AddCoins k x a n)) = None \<longrightarrow> T (fst (AddCoins k x a n)) = T x + 1000000000000 * n) \<and>
     (\<forall>x a n. snd (snd (SubWei k x a n)) = None \<longrightarrow> T (fst (SubWei k x a n)) = T x - n) \<and>
     (\<forall>x a n. snd (snd (AddWei k x a n)) = None \<longrightarrow> T (fst (AddWei k x a n)) = T x + n) \<and>
     (\<forall>x a. T (SetNewAccount k x a) = T x)"

lemma supply_lawsD:
  assumes "supply_laws k T"
  shows "snd (snd (SubUnlockedCoins k x a n)) = None \<Longrightarrow> T (fst (SubUnlockedCoins k x a n)) = T x - 1000000000000 * n"
    and "snd (snd (AddCoins k x a n)) = None \<Longrightarrow> T (fst (AddCoins k x a n)) = T x + 1000000000000 * n"
    and "snd (snd (SubWei k x a n)) = None \<Longrightarrow> T (fst (SubWei k x a n)) = T x - n"
    and "snd (snd (AddWei k x a n)) = None \<Longrightarrow> T (fst (AddWei k x a n)) = T x + n"
    and "T (SetNewAccount k x a) = T x"
  using assms unfolding supply_laws_def by blast+

lemma ledger_supply_laws: "supply_laws ledger_keepers lg_total"
proof -
  have "lg_total (fst (lg_add u x a n)) = lg_total x + u * n" if "snd (snd (lg_add u x a n)) = None" for u x a n
    using lg_add_total [of u x a n] that by (cases "lg_add u x a n") auto
  then show ?thesis
    by (simp add: supply_laws_def ledger_keepers_def) (simp add: lg_total_def)
qed

definition worth :: "('x \<Rightarrow> int) \<Rightarrow> 'x DBImpl \<Rightarrow> int" where
  "worth T db = T (ctx_ext (db_ctx db)) + ts_surplus (db_tempStateCurrent db)"

text \<open>An operation that works on the current context and the current temporary state only, conserves
  their worth unless it records an error, and never clears an error.\<close>

definition keeps :: "('x \<Rightarrow> int) \<Rightarrow> 'x DBImpl \<Rightarrow> 'x DBImpl \<Rightarrow> bool" where
  "keeps T db db' \<longleftrightarrow>
     db_snapshottedCtxs db' = db_snapshottedCtxs db \<and> db_tempStatesHist db' = db_tempStatesHist db \<and>
     db_simulation db' = db_simulation db \<and> db_coinbaseAddress db' = db_coinbaseAddress db \<and>
     db_coinbaseEvmAddress db' = db_coinbaseEvmAddress db \<and>
     (db_err db' = None \<longrightarrow> db_err db = None \<and> worth T db' = worth T db)"

named_theorems keeps_intros

lemma keeps_refl [simp]: "keeps T db db"
  by (simp add: keeps_def)

lemma keeps_trans: "keeps T a b \<Longrightarrow> keeps T b c \<Longrightarrow> keeps T a c"
  by (auto simp: keeps_def)

lemma keeps_set_cur:
  "(\<And>t. ts_surplus (f t) = ts_surplus t) \<Longrightarrow> keeps T db (set_cur f db)"
  by (simp add: keeps_def set_cur_def worth_def)

lemma keeps_ctx: "T (ctx_ext c) = T (ctx_ext (db_ctx db)) \<Longrightarrow> keeps T db (db\<lparr>db_ctx := c\<rparr>)"
  by (simp add: keeps_def worth_def)

lemma ctx_ext_deleteIfExists [simp]: "ctx_ext (deleteIfExists p a c) = ctx_ext c"
  by (simp add: deleteIfExists_def)

lemma ctx_ext_ops [simp]:
  "ctx_ext (clearAccountState_ctx a c) = ctx_ext c"
  "ctx_ext (keeper_SetNonce c a n) = ctx_ext c"
  "ctx_ext (keeper_SetState c a s v) = ctx_ext c"
  "ctx_ext (DeleteAddressMapping c t a) = ctx_ext c"
  by (simp_all add: clearAccountState_ctx_def keeper_SetNonce_def keeper_SetState_def DeleteAddressMapping_def)

lemma T_SetCode: "supply_laws k T \<Longrightarrow> T (ctx_ext (keeper_SetCode l k c a code)) = T (ctx_ext c)"
  by (auto simp: keeper_SetCode_def SetAddressMapping_def Let_def supply_lawsD(5))

lemma keeps_simple [keeps_intros]:
  "keeps T db (CreateAccount l a db)"
  "keeps T db (MarkAccount l a st db)"
  "keeps T db (db_SetState a s v db)"
  "keeps T db (SetTransientState l a s v db)"
  "keeps T db (db_SetNonce a n db)"
  "keeps T db (AddLog lg db)"
  "keeps T db (set_refund r db)"
  "keeps T db (set_acl f db)"
  "keeps T db (AddAddressToAccessList a db)"
  "keeps T db (SetPrecompileError e db)"
  "keeps T db (clearAccountState a db)"
  by (auto simp: CreateAccount_def MarkAccount_def db_SetState_def SetTransientState_def db_SetNonce_def AddLog_def
      set_refund_def set_acl_def AddAddressToAccessList_def clearAccountState_def Let_def SetPrecompileError_def
      keeps_def worth_def set_cur_def)

lemma keeps_SetCode [keeps_intros]: "supply_laws k T \<Longrightarrow> keeps T db (db_SetCode l k a code db)"
  unfolding db_SetCode_def by (rule keeps_ctx) (rule T_SetCode)

lemma keeps_refund [keeps_intros]:
  "AddRefund g db = Done db' \<Longrightarrow> keeps T db db'"
  "SubRefund g db = Done db' \<Longrightarrow> keeps T db db'"
  by (auto simp: AddRefund_def SubRefund_def go_Done_iffs intro: keeps_simple split: if_splits)

lemma keeps_AddSlot [keeps_intros]: "AddSlotToAccessList a s db = Done db' \<Longrightarrow> keeps T db db'"
  by (auto simp: AddSlotToAccessList_def Let_def go_Done_iffs intro: keeps_simple split: if_splits)

section \<open>Balances\<close>

lemma Split_recombine:
  assumes "sdk_int_laws l" and "SplitAtabiWeiAmount l amt = Done (a, w)" and "0 \<le> amt"
  shows "1000000000000 * a + w = amt \<and> 0 \<le> a \<and> 0 \<le> w \<and> w < 1000000000000"
proof -
  have "a = big_Quo amt AtabiToWeiMultiplier" "w = big_Mod amt AtabiToWeiMultiplier"
    using assms(2) NewInt_Done [OF assms(1)] by (auto simp: SplitAtabiWeiAmount_def Let_def go_Done_iffs)
  then show ?thesis
    using big_split_recombine [of amt AtabiToWeiMultiplier] assms(3)
    by (auto simp: AtabiToWeiMultiplier_def big_Quo_def big_Mod_def sgn_if algebra_simps)
qed

lemma bank_call_simps [simp]:
  "fst (bank_call db r) = snd (snd r)"
  "ctx_ext (db_ctx (snd (bank_call db r))) = fst r"
  "db_snapshottedCtxs (snd (bank_call db r)) = db_snapshottedCtxs db"
  "db_tempStatesHist (snd (bank_call db r)) = db_tempStatesHist db"
  "db_tempStateCurrent (snd (bank_call db r)) = db_tempStateCurrent db"
  "db_err (snd (bank_call db r)) = db_err db"
  "db_simulation (snd (bank_call db r)) = db_simulation db"
  "db_coinbaseAddress (snd (bank_call db r)) = db_coinbaseAddress db"
  "db_coinbaseEvmAddress (snd (bank_call db r)) = db_coinbaseEvmAddress db"
  by (simp_all add: bank_call_def split: prod.splits)

text \<open>Two bank calls and the entry in the surplus, for a debit (\<open>sg = 1\<close>) and a credit (\<open>sg = -1\<close>).\<close>

lemma keeps_two_calls:
  assumes "bank_call db r1 = (None, db1)" and "bank_call db1 r2 = (None, db2)"
    and "T (fst r1) = T (ctx_ext (db_ctx db)) - d1" and "T (fst r2) = T (ctx_ext (db_ctx db1)) - d2"
    and "sp = ts_surplus (db_tempStateCurrent db) + (d1 + d2)"
  shows "keeps T db (set_cur (\<lambda>t. t\<lparr>ts_surplus := sp\<rparr>) db2)"
proof -
  have 1: "db1 = snd (bank_call db r1)" and 2: "db2 = snd (bank_call db1 r2)" using assms(1,2) by simp_all
  have "T (ctx_ext (db_ctx db2)) = T (ctx_ext (db_ctx db)) - d1 - d2"
    unfolding 2 using assms(3,4) 1 by simp
  then show ?thesis
    using assms(5) unfolding keeps_def worth_def set_cur_def 2 1 by simp
qed

lemma keeps_error: "bank_call db r = (err, db1) \<Longrightarrow> err \<noteq> None \<Longrightarrow> keeps T db (db1\<lparr>db_err := err\<rparr>)"
  by (auto simp: bank_call_def keeps_def split: prod.splits)

lemma keeps_two_calls_error:
  "bank_call db r1 = (None, db1) \<Longrightarrow> bank_call db1 r2 = (err, db2) \<Longrightarrow> err \<noteq> None \<Longrightarrow> keeps T db (db2\<lparr>db_err := err\<rparr>)"
  by (auto simp: bank_call_def keeps_def split: prod.splits)

lemma keeps_SubBalance_pos:
  assumes "sdk_int_laws l" and "supply_laws k T" and "0 \<le> amt" and "SubBalance_pos l k a amt db = Done db'"
  shows "keeps T db db'"
proof -
  obtain at w where sp: "SplitAtabiWeiAmount l amt = Done (at, w)"
    using assms(4) by (auto simp: SubBalance_pos_def go_Done_iffs)
  note rec = Split_recombine [OF assms(1) sp assms(3)]
  let ?r1 = "SubUnlockedCoins k (ctx_ext (db_ctx db)) (getTabiAddress db a) at"
  obtain err1 db1 where c1: "bank_call db ?r1 = (err1, db1)" by fastforce
  let ?r2 = "SubWei k (ctx_ext (db_ctx db1)) (getTabiAddress db a) w"
  obtain err2 db2 where c2: "bank_call db1 ?r2 = (err2, db2)" by fastforce
  have e1: "err1 = snd (snd ?r1)" and e2: "err2 = snd (snd ?r2)"
    using bank_call_simps(1) [of db ?r1] bank_call_simps(1) [of db1 ?r2] c1 c2 by simp_all
  consider "err1 \<noteq> None" "db' = db1\<lparr>db_err := err1\<rparr>" | "err1 = None" "err2 \<noteq> None" "db' = db2\<lparr>db_err := err2\<rparr>"
    | i sp' where "err1 = None" "err2 = None" "NewIntFromBigInt l amt = Done i"
      "sdk_Int_Add l (ts_surplus (db_tempStateCurrent db2)) i = Done sp'" "db' = set_cur (\<lambda>t. t\<lparr>ts_surplus := sp'\<rparr>) db2"
    using assms(4) sp c1 c2 by (auto simp: SubBalance_pos_def go_Done_iffs Let_def split: if_splits)
  then show ?thesis
  proof cases
    case 1
    with keeps_error [OF c1] show ?thesis by simp
  next
    case 2
    with keeps_two_calls_error [OF c1 [unfolded 2(1)] c2] show ?thesis by simp
  next
    case (3 i sp')
    have t: "T (fst ?r1) = T (ctx_ext (db_ctx db)) - 1000000000000 * at" "T (fst ?r2) = T (ctx_ext (db_ctx db1)) - w"
      using supply_lawsD [OF assms(2)] e1 e2 3(1,2) by simp_all
    have sp': "sp' = ts_surplus (db_tempStateCurrent db) + (1000000000000 * at + w)"
      using NewInt_Done [OF assms(1) 3(3)] NewInt_Done [OF assms(1) 3(4) [unfolded sdk_Int_Add_def]] rec c1 c2
        bank_call_simps(5) [of db ?r1] bank_call_simps(5) [of db1 ?r2] by simp
    show ?thesis
      unfolding 3(5) by (rule keeps_two_calls [OF c1 [unfolded 3(1)] c2 [unfolded 3(2)] t sp'])
  qed
qed

lemma keeps_AddBalance_pos:
  assumes "sdk_int_laws l" and "supply_laws k T" and "0 \<le> amt" and "AddBalance_pos l k a amt db = Done db'"
  shows "keeps T db db'"
proof -
  obtain at w where sp: "SplitAtabiWeiAmount l amt = Done (at, w)"
    using assms(4) by (auto simp: AddBalance_pos_def go_Done_iffs)
  note rec = Split_recombine [OF assms(1) sp assms(3)]
  let ?r1 = "AddCoins k (ctx_ext (db_ctx db)) (getTabiAddress db a) at"
  obtain err1 db1 where c1: "bank_call db ?r1 = (err1, db1)" by fastforce
  let ?r2 = "AddWei k (ctx_ext (db_ctx db1)) (getTabiAddress db a) w"
  obtain err2 db2 where c2: "bank_call db1 ?r2 = (err2, db2)" by fastforce
  have e1: "err1 = snd (snd ?r1)" and e2: "err2 = snd (snd ?r2)"
    using bank_call_simps(1) [of db ?r1] bank_call_simps(1) [of db1 ?r2] c1 c2 by simp_all
  consider "err1 \<noteq> None" "db' = db1\<lparr>db_err := err1\<rparr>" | "err1 = None" "err2 \<noteq> None" "db' = db2\<lparr>db_err := err2\<rparr>"
    | i sp' where "err1 = None" "err2 = None" "NewIntFromBigInt l amt = Done i"
      "sdk_Int_Sub l (ts_surplus (db_tempStateCurrent db2)) i = Done sp'" "db' = set_cur (\<lambda>t. t\<lparr>ts_surplus := sp'\<rparr>) db2"
    using assms(4) sp c1 c2 by (auto simp: AddBalance_pos_def go_Done_iffs Let_def split: if_splits)
  then show ?thesis
  proof cases
    case 1
    with keeps_error [OF c1] show ?thesis by simp
  next
    case 2
    with keeps_two_calls_error [OF c1 [unfolded 2(1)] c2] show ?thesis by simp
  next
    case (3 i sp')
    have t: "T (fst ?r1) = T (ctx_ext (db_ctx db)) - (- (1000000000000 * at))" "T (fst ?r2) = T (ctx_ext (db_ctx db1)) - (- w)"
      using supply_lawsD [OF assms(2)] e1 e2 3(1,2) by simp_all
    have sp': "sp' = ts_surplus (db_tempStateCurrent db) + (- (1000000000000 * at) + - w)"
      using NewInt_Done [OF assms(1) 3(3)] NewInt_Done [OF assms(1) 3(4) [unfolded sdk_Int_Sub_def]] rec c1 c2
        bank_call_simps(5) [of db ?r1] bank_call_simps(5) [of db1 ?r2] by simp
    show ?thesis
      unfolding 3(5) by (rule keeps_two_calls [OF c1 [unfolded 3(1)] c2 [unfolded 3(2)] t sp'])
  qed
qed

lemma keeps_balance [keeps_intros]:
  assumes "sdk_int_laws l" and "supply_laws k T"
  shows "SubBalance l k a amt db = Done db' \<Longrightarrow> keeps T db db'"
    and "AddBalance l k a amt db = Done db' \<Longrightarrow> keeps T db db'"
  using keeps_SubBalance_pos [OF assms, of "\<bar>amt\<bar>" a db db'] keeps_AddBalance_pos [OF assms, of "\<bar>amt\<bar>" a db db']
  by (auto simp: SubBalance_def AddBalance_def split: if_splits)

lemma keeps_events: "keeps T db (DisableEvents db)" "keeps T db (EnableEvents db)"
  by (simp_all add: keeps_def worth_def DisableEvents_def EnableEvents_def)

lemma keeps_Transfer [keeps_intros]:
  assumes "sdk_int_laws l" and "supply_laws k T" and "TransferWithoutEvents l k a b n db = Done db'"
  shows "keeps T db db'"
proof -
  obtain db1 db2 where "SubBalance l k a n (DisableEvents db) = Done db1" "AddBalance l k b n db1 = Done db2"
    "db' = EnableEvents db2"
    using assms(3) by (auto simp: TransferWithoutEvents_def go_Done_iffs)
  then have "keeps T (DisableEvents db) db1" "keeps T db1 db2" "keeps T db2 db'"
    using keeps_balance [OF assms(1,2)] keeps_events(2) by blast+
  with keeps_events(1) show ?thesis by (blast intro: keeps_trans)
qed

lemma keeps_SelfDestruct [keeps_intros]:
  assumes "sdk_int_laws l" and "supply_laws k T" and "SelfDestruct l k a db = Done db'"
  shows "keeps T db db'"
proof -
  let ?db1 = "case GetTabiAddress (db_ctx db) a of
      Some t \<Rightarrow> db\<lparr>db_ctx := DeleteAddressMapping (db_ctx db) t a\<rparr> | None \<Rightarrow> db"
  have k1: "keeps T db ?db1"
    by (auto intro: keeps_ctx split: option.splits)
  obtain b db2 where "SubBalance l k a b ?db1 = Done db2" "db' = MarkAccount l a AccountDeleted db2"
    using assms(3) by (auto simp: SelfDestruct_def Let_def go_Done_iffs)
  then have "keeps T ?db1 db2" "keeps T db2 db'"
    using keeps_balance(1) [OF assms(1,2)] keeps_simple(2) by blast+
  with k1 show ?thesis by (blast intro: keeps_trans)
qed

lemma keeps_Selfdestruct6780 [keeps_intros]:
  "sdk_int_laws l \<Longrightarrow> supply_laws k T \<Longrightarrow> Selfdestruct6780 l k a db = Done db' \<Longrightarrow> keeps T db db'"
  by (auto simp: Selfdestruct6780_def intro: keeps_SelfDestruct split: if_splits)

section \<open>Every operation is local, a snapshot or a revert\<close>

lemma keeps_Prepare_slots: "Prepare_slots a ks db = Done db' \<Longrightarrow> keeps T db db'"
proof (induction ks arbitrary: db)
  case (Cons key ks)
  then obtain db1 where "AddSlotToAccessList a key db = Done db1" "Prepare_slots a ks db1 = Done db'"
    by (auto simp: go_Done_iffs)
  with Cons.IH keeps_AddSlot show ?case by (blast intro: keeps_trans)
qed simp

lemma keeps_Prepare_accesses: "Prepare_accesses els db = Done db' \<Longrightarrow> keeps T db db'"
proof (induction els arbitrary: db)
  case (Cons el els)
  obtain a ks where el: "el = (a, ks)" by fastforce
  then obtain db1 where "Prepare_slots a ks (AddAddressToAccessList a db) = Done db1" "Prepare_accesses els db1 = Done db'"
    using Cons.prems by (auto simp: go_Done_iffs)
  then have "keeps T (AddAddressToAccessList a db) db1" "keeps T db1 db'"
    using Cons.IH keeps_Prepare_slots by blast+
  with keeps_simple(9) show ?case by (blast intro: keeps_trans)
qed simp

lemma keeps_precompiles:
  "keeps T db (fold (\<lambda>addr db. if addr \<ge> CustomPrecompileStartingAddr \<and> \<not> cx_IsTracing (db_ctx db) then db
                       else AddAddressToAccessList addr db) ps db)"
proof (induction ps arbitrary: db)
  case (Cons p ps)
  let ?f = "\<lambda>addr db. if addr \<ge> CustomPrecompileStartingAddr \<and> \<not> cx_IsTracing (db_ctx db) then db
      else AddAddressToAccessList addr db"
  have "keeps T db (?f p db)" by (simp add: keeps_simple)
  from keeps_trans [OF this Cons.IH] show ?case by simp
qed simp

lemma keeps_Prepare:
  assumes "Prepare s c d ps al db = Done db'"
  shows "keeps T (snd (Snapshot db)) db'"
proof -
  let ?d1 = "AddAddressToAccessList s (snd (Snapshot db))"
  let ?d2 = "case d of None \<Rightarrow> ?d1 | Some a \<Rightarrow> AddAddressToAccessList a ?d1"
  let ?d3 = "fold (\<lambda>addr db. if addr \<ge> CustomPrecompileStartingAddr \<and> \<not> cx_IsTracing (db_ctx db) then db
      else AddAddressToAccessList addr db) ps ?d2"
  obtain d4 where "Prepare_accesses al ?d3 = Done d4" "db' = AddAddressToAccessList c d4"
    using assms by (auto simp: Prepare_def Let_def go_Done_iffs)
  then have "keeps T ?d3 d4" "keeps T d4 db'" by (auto intro: keeps_Prepare_accesses keeps_simple)
  moreover have "keeps T (snd (Snapshot db)) ?d1" by (rule keeps_simple)
  moreover have "keeps T ?d1 ?d2" by (auto intro: keeps_simple split: option.splits)
  moreover have "keeps T ?d2 ?d3" by (rule keeps_precompiles)
  ultimately show ?thesis by (blast intro: keeps_trans)
qed

lemma db_step_cases:
  assumes "sdk_int_laws l" and "supply_laws k T" and "db_step l k op db = Done db'"
  obtains (local) "keeps T db db'" | (branch) "keeps T (snd (Snapshot db)) db'"
    | (revert) r where "op = OpRevertToSnapshot r" "RevertToSnapshot r db = Done db'"
proof (cases op)
  case OpSnapshot
  then show ?thesis using assms(3) branch by simp
next
  case (OpPrepare s c d ps al)
  then have "Prepare s c d ps al db = Done db'" using assms(3) by simp
  from branch [OF keeps_Prepare [OF this]] show ?thesis .
next
  case (OpRevertToSnapshot r)
  then show ?thesis using assms(3) revert by simp
qed (use assms in \<open>auto intro: local keeps_intros\<close>)

section \<open>Conservation of the supply\<close>

text \<open>Every snapshotted context, with the surplus recorded up to it, is worth what the base was worth, and
  so is the current state.\<close>

definition layers_ok :: "('x \<Rightarrow> int) \<Rightarrow> int \<Rightarrow> 'x DBImpl \<Rightarrow> bool" where
  "layers_ok T base db \<longleftrightarrow>
     length (db_tempStatesHist db) = length (db_snapshottedCtxs db) \<and> db_snapshottedCtxs db \<noteq> [] \<and>
     (\<forall>i < length (db_snapshottedCtxs db).
        T (ctx_ext (db_snapshottedCtxs db ! i)) + sum_list (map ts_surplus (take (Suc i) (db_tempStatesHist db))) = base) \<and>
     worth T db + sum_list (map ts_surplus (db_tempStatesHist db)) = base"

lemma ext_events [simp]: "ctx_ext (c\<lparr>cx_events := es\<rparr>) = ctx_ext c"
  by (simp add: ctx_ext_def)

lemma surplus_New [simp]: "ts_surplus NewTemporaryState = 0"
  by (simp add: NewTemporaryState_def)

lemma Snapshot_fields [simp]:
  "db_snapshottedCtxs (snd (Snapshot db)) = db_snapshottedCtxs db @ [db_ctx db]"
  "db_tempStatesHist (snd (Snapshot db)) = db_tempStatesHist db @ [db_tempStateCurrent db]"
  "db_tempStateCurrent (snd (Snapshot db)) = NewTemporaryState"
  "db_ctx (snd (Snapshot db)) = (db_ctx db)\<lparr>cx_events := []\<rparr>"
  "db_err (snd (Snapshot db)) = db_err db"
  "db_precompileErr (snd (Snapshot db)) = db_precompileErr db"
  "db_simulation (snd (Snapshot db)) = db_simulation db"
  "db_coinbaseAddress (snd (Snapshot db)) = db_coinbaseAddress db"
  "db_coinbaseEvmAddress (snd (Snapshot db)) = db_coinbaseEvmAddress db"
  "fst (Snapshot db) = length (db_snapshottedCtxs db)"
  by (simp_all add: Snapshot_def Let_def)

lemma layers_ok_keeps: "keeps T db db' \<Longrightarrow> db_err db' = None \<Longrightarrow> layers_ok T B db \<Longrightarrow> layers_ok T B db'"
  by (simp add: keeps_def layers_ok_def)

lemma layers_ok_Snapshot: "layers_ok T B db \<Longrightarrow> layers_ok T B (snd (Snapshot db))"
  by (auto simp: layers_ok_def worth_def nth_append less_Suc_eq)

lemma layers_ok_Revert:
  assumes "layers_ok T B db" and "RevertToSnapshot r db = Done db'"
  shows "layers_ok T B db'"
proof -
  let ?s = "db_snapshottedCtxs db" and ?h = "db_tempStatesHist db"
  have r: "r < length ?s" "r < length ?h"
    and f: "db_snapshottedCtxs db' = take (Suc r) ?s" "db_tempStatesHist db' = take (Suc r) ?h"
      "db_tempStateCurrent db' = NewTemporaryState" "ctx_ext (db_ctx db') = ctx_ext (?s ! r)"
    using assms(2) by (auto simp: RevertToSnapshot_def take_Suc_conv_app_nth split: if_splits)
  have "T (ctx_ext (?s ! i)) + sum_list (map ts_surplus (take (Suc i) ?h)) = B" if "i < length ?s" for i
    using assms(1) that by (simp add: layers_ok_def)
  with r f show ?thesis by (auto simp: layers_ok_def worth_def min_def)
qed

lemma err_sticky:
  assumes "sdk_int_laws l" and "supply_laws k T" and "db_step l k op db = Done db'" and "db_err db' = None"
  shows "db_err db = None"
  using assms(3)
proof (cases rule: db_step_cases [OF assms(1-3)])
  case (3 r)
  then show ?thesis using assms(4) by (auto simp: RevertToSnapshot_def split: if_splits)
qed (use assms(4) in \<open>auto simp: keeps_def\<close>)

lemma layers_ok_step:
  assumes "sdk_int_laws l" and "supply_laws k T" and "db_step l k op db = Done db'" and "db_err db' = None"
    and "layers_ok T B db"
  shows "layers_ok T B db'"
  using assms(3)
proof (cases rule: db_step_cases [OF assms(1-3)])
  case 1
  then show ?thesis by (rule layers_ok_keeps [OF _ assms(4,5)])
next
  case 2
  then show ?thesis by (rule layers_ok_keeps [OF _ assms(4) layers_ok_Snapshot [OF assms(5)]])
next
  case (3 r)
  then show ?thesis using layers_ok_Revert [OF assms(5)] by blast
qed

lemma layers_ok_reachable:
  assumes "sdk_int_laws l" and "supply_laws k T" and "db_reachable l k c sim db" and "db_err db = None"
  shows "layers_ok T (T (ctx_ext c)) db \<and> db_simulation db = sim"
  using assms(3,4)
proof (induction rule: db_reachable.induct)
  case new
  then show ?case by (simp add: NewDBImpl_def Let_def layers_ok_def worth_def)
next
  case (step db op db')
  have "db_err db = None" by (rule err_sticky [OF assms(1,2) step.hyps(2) step.prems])
  with step.IH have IH: "layers_ok T (T (ctx_ext c)) db" "db_simulation db = sim" by auto
  have "db_simulation db' = db_simulation db"
    using step.hyps(2)
  proof (cases rule: db_step_cases [OF assms(1,2) step.hyps(2)])
    case (3 r)
    then show ?thesis by (auto simp: RevertToSnapshot_def split: if_splits)
  qed (auto simp: keeps_def)
  with IH layers_ok_step [OF assms(1,2) step.hyps(2) step.prems IH(1)] show ?case by simp
qed

section \<open>Finalising\<close>

text \<open>Finalising a layer is a sequence of debits, credits and removals of accounts.\<close>

lemma finalize_layers_rel:
  assumes refl: "\<And>db. R db db" and trans: "\<And>a b c. R a b \<Longrightarrow> R b c \<Longrightarrow> R a c"
    and sub: "\<And>a n db db'. SubBalance l k a n db = Done db' \<Longrightarrow> R db db'"
    and add: "\<And>a n db db'. AddBalance l k a n db = Done db' \<Longrightarrow> R db db'"
    and clear: "\<And>a db. R db (clearAccountState a db)"
  shows "finalize_layers l k rng ts db = Done db' \<Longrightarrow> R db db'"
proof (induction ts arbitrary: db)
  case (Cons t ts)
  have loop: "R db db'" if "residual_loop l k es db = Done db'" for es db db'
    using that
  proof (induction es arbitrary: db)
    case (Cons e es)
    obtain a status where e: "e = (a, status)" by fastforce
    consider "residual_loop l k es db = Done db'"
      | b n db1 db2 where "SubBalance l k (HexToAddress l a) n db = Done db1" "AddBalance l k b n db1 = Done db2"
        "residual_loop l k es db2 = Done db'"
      using Cons.prems unfolding e by (auto simp: Let_def go_Done_iffs split: if_splits)
    then show ?case
    proof cases
      case 2
      then show ?thesis using trans [OF sub trans [OF add Cons.IH]] by blast
    qed (rule Cons.IH)
  qed (simp add: refl)
  have "R db (fold (\<lambda>(acc, status) db. if status \<noteq> AccountDeleted then db else clearAccountState (HexToAddress l acc) db) es db)" for es db
  proof (induction es arbitrary: db)
    case (Cons e es)
    have "R db (if snd e \<noteq> AccountDeleted then db else clearAccountState (HexToAddress l (fst e)) db)"
      using refl clear by simp
    from trans [OF this Cons.IH] show ?case by (simp add: case_prod_unfold)
  qed (simp add: refl)
  then have cl: "R db (clearAccountStateIfDestructed l rng t db)" for db
    unfolding clearAccountStateIfDestructed_def by blast
  obtain db1 where "residual_loop l k (rng (ts_transientAccounts t)) db = Done db1"
    "finalize_layers l k rng ts (clearAccountStateIfDestructed l rng t db1) = Done db'"
    using Cons.prems by (auto simp: go_Done_iffs handleResidualFundsInDestructedAccounts_def)
  then have "R db db1" "R (clearAccountStateIfDestructed l rng t db1) db'"
    using loop Cons.IH by blast+
  with cl trans show ?case by blast
qed (simp add: refl)

lemma keeps_finalize_layers:
  assumes "sdk_int_laws l" and "supply_laws k T"
  shows "finalize_layers l k rng ts db = Done db' \<Longrightarrow> keeps T db db'"
  by (rule finalize_layers_rel [where R = "keeps T"])
    (auto intro: keeps_trans keeps_balance [OF assms] keeps_simple)

lemma sum_surplus_Done:
  "sdk_int_laws l \<Longrightarrow> sum_surplus l sp ts = Done r \<Longrightarrow> r = sp + sum_list (map ts_surplus ts)"
proof (induction ts arbitrary: sp)
  case (Cons t ts)
  then obtain sp' where "sdk_Int_Add l sp (ts_surplus t) = Done sp'" "sum_surplus l sp' ts = Done r"
    by (auto simp: go_Done_iffs)
  moreover from this have "sp' = sp + ts_surplus t"
    using NewInt_Done [OF Cons.prems(1)] by (simp add: sdk_Int_Add_def)
  ultimately show ?case using Cons.IH [OF Cons.prems(1), of sp'] by simp
qed simp

lemma flushEvents_fields [simp]:
  "db_ctx (flushEvents c db) = db_ctx db" "db_err (flushEvents c db) = db_err db"
  "db_tempStateCurrent (flushEvents c db) = db_tempStateCurrent db"
  "db_tempStatesHist (flushEvents c db) = db_tempStatesHist db"
  by (simp_all add: flushEvents_def split: list.splits)

lemma fold_flushEvents:
  "db_ctx (fold flushEvents cs db) = db_ctx db" "db_err (fold flushEvents cs db) = db_err db"
  "db_tempStateCurrent (fold flushEvents cs db) = db_tempStateCurrent db"
  "db_tempStatesHist (fold flushEvents cs db) = db_tempStatesHist db"
  "db_snapshottedCtxs db = b # rest \<Longrightarrow>
     db_snapshottedCtxs (fold flushEvents cs db) = EmitEvents (concat (map cx_events cs)) b # rest"
proof (induction cs arbitrary: db b)
  case (Cons c cs)
  { case 5
    then have "db_snapshottedCtxs (flushEvents c db) = EmitEvents (cx_events c) b # rest"
      by (simp add: flushEvents_def)
    from Cons.IH(5) [OF this] show ?case by (simp add: EmitEvents_def)
  }
qed (simp_all add: EmitEvents_def)

lemma Finalize_Done:
  assumes "Finalize l k rng db = Done ((Some sp, None), db')"
  obtains db1 b rest where "db_err db = None" "\<not> db_simulation db"
    "finalize_layers l k rng (db_tempStateCurrent db # db_tempStatesHist db) db = Done db1"
    "db_snapshottedCtxs db1 = b # rest" "db_ctx db' = db_ctx db1" "db_err db' = db_err db1"
    "db_snapshottedCtxs db' = EmitEvents (concat (map cx_events rest) @ cx_events (db_ctx db1)) (b\<lparr>cx_ms := cx_ms (db_ctx db1)\<rparr>)
      # map (\<lambda>c. c\<lparr>cx_ms := cx_ms (db_ctx db1)\<rparr>) rest"
    "sum_surplus l (ts_surplus (db_tempStateCurrent db1)) (db_tempStatesHist db1) = Done sp"
proof -
  obtain db1 where db1: "finalize_layers l k rng (db_tempStateCurrent db # db_tempStatesHist db) db = Done db1"
    using assms by (auto simp: Finalize_def go_Done_iffs split: if_splits)
  then obtain b rest where snap: "db_snapshottedCtxs db1 = b # rest"
    using assms by (cases "db_snapshottedCtxs db1") (auto simp: Finalize_def split: if_splits)
  let ?ms = "\<lambda>c. c\<lparr>cx_ms := cx_ms (db_ctx db1)\<rparr>"
  have flush: "db_snapshottedCtxs (flushCtxs db1) = ?ms b # map ?ms rest" "db_ctx (flushCtxs db1) = db_ctx db1"
    "db_err (flushCtxs db1) = db_err db1" "db_tempStateCurrent (flushCtxs db1) = db_tempStateCurrent db1"
    "db_tempStatesHist (flushCtxs db1) = db_tempStatesHist db1"
    using snap by (simp_all add: flushCtxs_all)
  let ?db3 = "fold flushEvents (map ?ms rest) (flushCtxs db1)"
  have db3: "db_snapshottedCtxs ?db3 = EmitEvents (concat (map cx_events rest)) (?ms b) # map ?ms rest"
    using fold_flushEvents(5) [OF flush(1), of "map ?ms rest"] by (simp add: comp_def)
  have db': "db' = flushEvents (db_ctx ?db3) ?db3"
    and sp: "sum_surplus l (ts_surplus (db_tempStateCurrent db')) (db_tempStatesHist db') = Done sp"
    and guards: "db_err db = None" "\<not> db_simulation db"
    using assms db1 snap flush(1) by (auto simp: Finalize_def Let_def go_Done_iffs split: if_splits)
  show ?thesis
  proof (rule that [OF guards db1 snap])
    show "db_ctx db' = db_ctx db1" "db_err db' = db_err db1"
      unfolding db' by (simp_all add: fold_flushEvents flush)
    show "db_snapshottedCtxs db' = EmitEvents (concat (map cx_events rest) @ cx_events (db_ctx db1)) (?ms b) # map ?ms rest"
      unfolding db' using db3 by (simp add: flushEvents_def fold_flushEvents flush) (simp add: EmitEvents_def)
    show "sum_surplus l (ts_surplus (db_tempStateCurrent db1)) (db_tempStatesHist db1) = Done sp"
      using sp unfolding db' by (simp add: fold_flushEvents flush)
  qed
qed

lemma finalize_supply:
  assumes "sdk_int_laws l" and "supply_laws k T" and "db_reachable l k c False db"
    and "Finalize l k rng db = Done ((Some surplus, None), db')" and "db_err db' = None"
  shows "T (ctx_ext (hd (db_snapshottedCtxs db'))) + surplus = T (ctx_ext c)"
proof (rule Finalize_Done [OF assms(4)])
  fix db1 b rest
  assume err: "db_err db = None" and fin: "finalize_layers l k rng (db_tempStateCurrent db # db_tempStatesHist db) db = Done db1"
    and err': "db_err db' = db_err db1"
    and snap: "db_snapshottedCtxs db' = EmitEvents (concat (map cx_events rest) @ cx_events (db_ctx db1)) (b\<lparr>cx_ms := cx_ms (db_ctx db1)\<rparr>)
      # map (\<lambda>c. c\<lparr>cx_ms := cx_ms (db_ctx db1)\<rparr>) rest"
    and sum: "sum_surplus l (ts_surplus (db_tempStateCurrent db1)) (db_tempStatesHist db1) = Done surplus"
  have "layers_ok T (T (ctx_ext c)) db1"
    using layers_ok_keeps [OF keeps_finalize_layers [OF assms(1,2) fin]] err' assms(5)
      layers_ok_reachable [OF assms(1-3) err] by simp
  then show ?thesis
    using sum_surplus_Done [OF assms(1) sum] unfolding snap
    by (simp add: layers_ok_def worth_def) (simp add: ctx_ext_def)
qed

section \<open>Properties\<close>

text \<open>C8 (finalize_conserves_supply): whatever the EVM did to a database, nested snapshots and reverts
  included, if no balance operation failed then the supply that \<open>Finalize\<close> writes to the base context
  and the surplus it returns add up to the supply the transaction started with, whatever order the
  ranges over the maps took.\<close>

theorem finalize_conserves_supply:
  assumes "sdk_int_laws l" and "supply_laws k T" and "db_reachable l k c False db"
    and "Finalize l k rng db = Done ((Some surplus, None), db')" and "db_err db' = None"
  shows "T (ctx_ext (hd (db_snapshottedCtxs db'))) + surplus = T (ctx_ext c)"
  by (rule finalize_supply [OF assms])

definition rich_ctx :: "ledger ctx" where
  "rich_ctx = with_ext \<lparr>lg_accounts = [], lg_wei = [(replicate 20 1, 5000000000000000)]\<rparr> ctx0"

definition transfer_example :: "db_op list" where
  "transfer_example =
     [OpSubBalance (replicate 20 1) 3000000000000007, OpSnapshot, OpAddBalance (replicate 20 2) 1000000000000001,
      OpRevertToSnapshot 1, OpAddBalance (replicate 20 2) 2000000000000002]"

text \<open>The run of the example: 5000 atabi and 0 wei are debited by 3000 atabi and 7 wei, a credit is undone by a
  revert, another of 2000 atabi and 2 wei stays.\<close>

definition transfer_result :: "((bigint \<times> error) \<times> ledger DBImpl) go" where
  "transfer_result =
     go_bind (db_run lib_lower ledger_keepers transfer_example (NewDBImpl ledger_keepers rich_ctx False))
       (Finalize lib_lower ledger_keepers id)"

lemma lower_fits: "\<bar>x\<bar> < 2 ^ 256 \<Longrightarrow> NewIntFromBigInt lib_lower x = Done x"
  by (rule NewInt_fits) simp_all

lemma transfer_result_ok:
  "case transfer_result of Done ((sp, err), db) \<Rightarrow> sp = Some 1000000000000005 \<and> err = None \<and> db_err db = None \<and>
     lg_total (ctx_ext (hd (db_snapshottedCtxs db))) = 3999999999999995 | Panic _ \<Rightarrow> False"
  unfolding transfer_result_def transfer_example_def rich_ctx_def
  by (simp add: NewDBImpl_def GetFeeCollectorAddress_def GetEVMAddress_def go_bind_def
    SubBalance_def SubBalance_pos_def AddBalance_def AddBalance_pos_def SplitAtabiWeiAmount_def big_Mod_def big_Quo_def AtabiToWeiMultiplier_def
    lower_fits Let_def bank_call_def ledger_keepers_def lg_add_def lg_get_def lg_put_def getTabiAddress_def GetTabiAddressOrDefault_def GetTabiAddress_def
    sdk_Int_Add_def sdk_Int_Sub_def set_cur_def Snapshot_def NewTemporaryState_def RevertToSnapshot_def Finalize_def
    handleResidualFundsInDestructedAccounts_def clearAccountStateIfDestructed_def flushCtxs_all flushEvents_def lg_total_def
    KVStore_def with_ext_def EmitEvents_def ctx0_def ctx_ext_def)

lemma transfer_run:
  obtains db db' where "db_run lib_lower ledger_keepers transfer_example (NewDBImpl ledger_keepers rich_ctx False) = Done db"
    "Finalize lib_lower ledger_keepers id db = Done ((Some 1000000000000005, None), db')" "db_err db' = None"
  using transfer_result_ok by (auto simp: transfer_result_def go_bind_def split: go.splits prod.splits)

theorem finalize_conserves_supply_witness:
  "\<exists>db db'. db_run lib_lower ledger_keepers transfer_example (NewDBImpl ledger_keepers rich_ctx False) = Done db \<and>
     Finalize lib_lower ledger_keepers id db = Done ((Some 1000000000000005, None), db') \<and> db_err db' = None \<and>
     lg_total (ctx_ext (hd (db_snapshottedCtxs db'))) + 1000000000000005 = 5000000000000000"
proof -
  obtain db db' where run: "db_run lib_lower ledger_keepers transfer_example (NewDBImpl ledger_keepers rich_ctx False) = Done db"
    and fin: "Finalize lib_lower ledger_keepers id db = Done ((Some 1000000000000005, None), db')" "db_err db' = None"
    by (rule transfer_run)
  have "lg_total (ctx_ext rich_ctx) = 5000000000000000" by (simp add: rich_ctx_def lg_total_def)
  with finalize_conserves_supply [OF lib_lower_laws(4) ledger_supply_laws db_reachable_run [OF run db_reachable.new] fin] run fin
  show ?thesis by auto
qed

text \<open>What every operation but a snapshot and a revert leaves alone, with no assumption on the bank.\<close>

definition frames :: "'x DBImpl \<Rightarrow> 'x DBImpl \<Rightarrow> bool" where
  "frames db db' \<longleftrightarrow>
     db_snapshottedCtxs db' = db_snapshottedCtxs db \<and> db_tempStatesHist db' = db_tempStatesHist db \<and>
     db_simulation db' = db_simulation db \<and> db_coinbaseAddress db' = db_coinbaseAddress db \<and>
     db_coinbaseEvmAddress db' = db_coinbaseEvmAddress db"

named_theorems frames_intros

lemma keeps_frames: "keeps T db db' \<Longrightarrow> frames db db'"
  by (simp add: keeps_def frames_def)

lemma frames_refl [simp]: "frames db db"
  by (simp add: frames_def)

lemma frames_trans: "frames a b \<Longrightarrow> frames b c \<Longrightarrow> frames a c"
  by (simp add: frames_def)

lemmas frames_simple [frames_intros] =
  keeps_simple [of "\<lambda>_. 0", THEN keeps_frames] keeps_refund [of _ _ _ "\<lambda>_. 0", THEN keeps_frames]
  keeps_AddSlot [of _ _ _ _ "\<lambda>_. 0", THEN keeps_frames]

lemma frames_balance [frames_intros]:
  "SubBalance l k a amt db = Done db' \<Longrightarrow> frames db db'"
  "AddBalance l k a amt db = Done db' \<Longrightarrow> frames db db'"
proof -
  have "frames db db'" if "SubBalance_pos l k a n db = Done db'" for n
    using that by (auto simp: SubBalance_pos_def case_prod_unfold Let_def go_Done_iffs frames_def set_cur_def split: if_splits)
  moreover have "frames db db'" if "AddBalance_pos l k a n db = Done db'" for n
    using that by (auto simp: AddBalance_pos_def case_prod_unfold Let_def go_Done_iffs frames_def set_cur_def split: if_splits)
  ultimately show "SubBalance l k a amt db = Done db' \<Longrightarrow> frames db db'" "AddBalance l k a amt db = Done db' \<Longrightarrow> frames db db'"
    by (auto simp: SubBalance_def AddBalance_def frames_def split: if_splits)
qed

lemma frames_Transfer [frames_intros]: "TransferWithoutEvents l k a b n db = Done db' \<Longrightarrow> frames db db'"
  using frames_balance by (fastforce simp: TransferWithoutEvents_def go_Done_iffs frames_def DisableEvents_def EnableEvents_def)

lemma frames_SelfDestruct [frames_intros]: "SelfDestruct l k a db = Done db' \<Longrightarrow> frames db db'"
  using frames_balance(1) by (fastforce simp: SelfDestruct_def MarkAccount_def set_cur_def Let_def go_Done_iffs frames_def split: option.splits)

lemma frames_others [frames_intros]:
  "Selfdestruct6780 l k a db = Done db' \<Longrightarrow> frames db db'"
  "frames db (db_SetCode l k a code db)"
  by (auto simp: Selfdestruct6780_def db_SetCode_def frames_def dest: frames_SelfDestruct [unfolded frames_def] split: if_splits)

lemma db_step_frames:
  assumes "db_step l k op db = Done db'"
  obtains (local) "frames db db'" | (branch) "frames (snd (Snapshot db)) db'"
    | (revert) r where "op = OpRevertToSnapshot r" "RevertToSnapshot r db = Done db'"
proof (cases op)
  case OpSnapshot
  then show ?thesis using assms branch by (simp add: frames_def)
next
  case (OpPrepare s c d ps al)
  then have "Prepare s c d ps al db = Done db'" using assms by simp
  from branch [OF keeps_frames [OF keeps_Prepare [OF this]]] show ?thesis .
next
  case (OpRevertToSnapshot r)
  then show ?thesis using assms revert by simp
qed (use assms in \<open>auto intro: local frames_intros\<close>)

lemma frames_finalize_layers: "finalize_layers l k rng ts db = Done db' \<Longrightarrow> frames db db'"
  by (rule finalize_layers_rel [where R = frames]) (auto intro: frames_trans frames_intros)

text \<open>C10 (Finalize_commits): the loop of \<open>Finalize\<close> that writes branch after branch carries the stores of the current context
  down to every snapshot and to the base context, however many snapshots there are, and the base context emits, after its own events, those
  of every snapshot still in force in the order they were taken and those of the current context.\<close>

theorem Finalize_commits:
  assumes "Finalize l k rng db = Done ((Some surplus, None), db')"
  shows "\<exists>base rest. db_snapshottedCtxs db = base # rest \<and>
    cx_ms (hd (db_snapshottedCtxs db')) = cx_ms (db_ctx db') \<and> (\<forall>c \<in> set (db_snapshottedCtxs db'). cx_ms c = cx_ms (db_ctx db')) \<and>
    length (db_snapshottedCtxs db') = length (db_snapshottedCtxs db) \<and>
    cx_events (hd (db_snapshottedCtxs db')) = cx_events base @ concat (map cx_events rest) @ cx_events (db_ctx db')"
proof (rule Finalize_Done [OF assms])
  fix db1 b rest
  assume fin: "finalize_layers l k rng (db_tempStateCurrent db # db_tempStatesHist db) db = Done db1"
    and snap1: "db_snapshottedCtxs db1 = b # rest" and ctx: "db_ctx db' = db_ctx db1"
    and snap: "db_snapshottedCtxs db' = EmitEvents (concat (map cx_events rest) @ cx_events (db_ctx db1)) (b\<lparr>cx_ms := cx_ms (db_ctx db1)\<rparr>)
      # map (\<lambda>c. c\<lparr>cx_ms := cx_ms (db_ctx db1)\<rparr>) rest"
  have "db_snapshottedCtxs db = b # rest"
    using frames_finalize_layers [OF fin] snap1 by (simp add: frames_def)
  then show ?thesis
    unfolding snap ctx by (auto simp: EmitEvents_def)
qed

theorem Finalize_commits_witness:
  "\<exists>db db' base rest. db_run lib_lower ledger_keepers transfer_example (NewDBImpl ledger_keepers rich_ctx False) = Done db \<and>
     Finalize lib_lower ledger_keepers id db = Done ((Some 1000000000000005, None), db') \<and>
     db_snapshottedCtxs db = base # rest \<and> cx_ms (hd (db_snapshottedCtxs db')) = cx_ms (db_ctx db') \<and>
     (\<forall>c \<in> set (db_snapshottedCtxs db'). cx_ms c = cx_ms (db_ctx db'))"
proof -
  obtain db db' where run: "db_run lib_lower ledger_keepers transfer_example (NewDBImpl ledger_keepers rich_ctx False) = Done db"
    and fin: "Finalize lib_lower ledger_keepers id db = Done ((Some 1000000000000005, None), db')" "db_err db' = None"
    by (rule transfer_run)
  from Finalize_commits [OF fin(1)] run fin show ?thesis by blast
qed

text \<open>A run that never reverts to snapshot \<open>r\<close> or an older one keeps what lies below it.\<close>

definition above :: "nat \<Rightarrow> db_op \<Rightarrow> bool" where
  "above r op \<longleftrightarrow> (case op of OpRevertToSnapshot r' \<Rightarrow> r < r' | _ \<Rightarrow> True)"

definition below_same :: "nat \<Rightarrow> 'x DBImpl \<Rightarrow> 'x DBImpl \<Rightarrow> bool" where
  "below_same r db db' \<longleftrightarrow>
     r < length (db_snapshottedCtxs db') \<and> r < length (db_tempStatesHist db') \<and>
     take (Suc r) (db_snapshottedCtxs db') = take (Suc r) (db_snapshottedCtxs db) \<and>
     take (Suc r) (db_tempStatesHist db') = take (Suc r) (db_tempStatesHist db) \<and>
     db_simulation db' = db_simulation db \<and> db_coinbaseAddress db' = db_coinbaseAddress db \<and>
     db_coinbaseEvmAddress db' = db_coinbaseEvmAddress db"

lemma step_above:
  assumes "db_step l k op db = Done db'" and "above r op"
    and "r < length (db_snapshottedCtxs db)" and "r < length (db_tempStatesHist db)"
  shows "below_same r db db'"
  using assms(1)
proof (cases rule: db_step_frames)
  case (revert r')
  then have "r < r'" using assms(2) by (simp add: above_def)
  with revert(2) show ?thesis
    by (auto simp: RevertToSnapshot_def below_same_def min_def take_Suc_conv_app_nth [symmetric] split: if_splits)
qed (use assms(3,4) in \<open>auto simp: frames_def below_same_def\<close>)

lemma run_above:
  "db_run l k ops db = Done db' \<Longrightarrow> list_all (above r) ops \<Longrightarrow> r < length (db_snapshottedCtxs db) \<Longrightarrow>
    r < length (db_tempStatesHist db) \<Longrightarrow> below_same r db db'"
proof (induction ops arbitrary: db)
  case (Cons op ops)
  then obtain db1 where s: "db_step l k op db = Done db1" "db_run l k ops db1 = Done db'"
    by (auto simp: go_Done_iffs)
  from Cons.prems have ab: "above r op" "list_all (above r) ops" by auto
  note one = step_above [OF s(1) ab(1) Cons.prems(3,4)]
  from Cons.IH [OF s(2) ab(2)] one show ?case by (simp add: below_same_def)
qed (simp add: below_same_def)

text \<open>C9 (revert_undoes_run): take a snapshot, run any operations that do not revert past it, and revert to
  it. The database is then exactly as it was right after the snapshot: stores, balances, logs, transient
  storage, access lists, refund counter and surplus. Only recorded errors survive.\<close>

theorem revert_undoes_run:
  assumes "length (db_tempStatesHist db) = length (db_snapshottedCtxs db)" and "Snapshot db = (r, db1)"
    and "list_all (above r) ops" and "db_run l k ops db1 = Done db2"
  shows "RevertToSnapshot r db2 = Done (db1\<lparr>db_err := db_err db2, db_precompileErr := db_precompileErr db2,
    db_eventsSuppressed := db_eventsSuppressed db2\<rparr>)"
proof -
  have r: "r = length (db_snapshottedCtxs db)" and db1: "db1 = snd (Snapshot db)"
    using assms(2) Snapshot_fields(10) [of db] by simp_all
  have "below_same r db1 db2"
    using run_above [OF assms(4,3)] assms(1) r db1 by simp
  then have s: "take (Suc r) (db_snapshottedCtxs db2) = db_snapshottedCtxs db @ [db_ctx db]"
    "take (Suc r) (db_tempStatesHist db2) = db_tempStatesHist db @ [db_tempStateCurrent db]"
    and len: "r < length (db_snapshottedCtxs db2)" "r < length (db_tempStatesHist db2)"
    and same: "db_simulation db2 = db_simulation db" "db_coinbaseAddress db2 = db_coinbaseAddress db"
      "db_coinbaseEvmAddress db2 = db_coinbaseEvmAddress db"
    using r assms(1) unfolding below_same_def db1 by simp_all
  have "db_snapshottedCtxs db2 ! r = db_ctx db" "take r (db_snapshottedCtxs db2) = db_snapshottedCtxs db"
    "db_tempStatesHist db2 ! r = db_tempStateCurrent db" "take r (db_tempStatesHist db2) = db_tempStatesHist db"
    using s len r assms(1) by (simp_all add: take_Suc_conv_app_nth)
  then show ?thesis
    using len same unfolding db1 by (simp add: RevertToSnapshot_def Snapshot_def Let_def)
qed

theorem revert_undoes_run_witness:
  "\<exists>db2. db_run lib_lower ledger_keepers [OpSetNonce (replicate 20 1) 7, OpSnapshot, OpAddRefund 3, OpRevertToSnapshot 2]
       (snd (Snapshot (NewDBImpl ledger_keepers rich_ctx False))) = Done db2 \<and>
     db_GetNonce (replicate 20 1) db2 = Done 7 \<and>
     go_bind (RevertToSnapshot 1 db2) (db_GetNonce (replicate 20 1)) = Done 0"
proof -
  let ?db = "NewDBImpl ledger_keepers rich_ctx False"
  let ?ops = "[OpSetNonce (replicate 20 1) 7, OpSnapshot, OpAddRefund 3, OpRevertToSnapshot 2]"
  have len: "length (db_tempStatesHist ?db) = length (db_snapshottedCtxs ?db)" and sn: "Snapshot ?db = (1, snd (Snapshot ?db))"
    by (simp_all add: NewDBImpl_def Let_def prod_eq_iff)
  have kv: "KVStore (db_ctx ?db) = []" by (simp add: NewDBImpl_def Let_def rich_ctx_def with_ext_def ctx0_def KVStore_def)
  obtain db2 where run: "db_run lib_lower ledger_keepers ?ops (snd (Snapshot ?db)) = Done db2"
    and n: "db_GetNonce (replicate 20 1) db2 = Done 7"
    by (simp add: db_SetNonce_def AddRefund_def GetRefund_def getTransientModule_def ts_find_def NewTemporaryState_def
        RevertToSnapshot_def set_refund_def set_cur_def nth_append NewDBImpl_def Let_def db_GetNonce_def keeper_GetNonce_def
        keeper_SetNonce_def PrefixStore_Get_def)
      (simp add: KVStore_def PrefixStore_Set_def with_kv_def)
  have "list_all (above 1) ?ops" by (simp add: above_def)
  from revert_undoes_run [OF len sn this run] kv n run show ?thesis
    by (simp add: db_GetNonce_def keeper_GetNonce_def PrefixStore_Get_def) (simp add: KVStore_def)
qed

end
