(* ===== verification/StateDB_Temp.thy ===== *)
theory StateDB_Temp
  imports StateDB_Props
begin

text \<open>
  The temporary state of the database: what each operation does to the logs, the refund counter and the
  access lists. The access lists of all layers together refine two sets, the warm addresses and the warm
  slots.
\<close>

section \<open>What a balance operation touches\<close>

definition money_only :: "'x DBImpl \<Rightarrow> 'x DBImpl \<Rightarrow> bool" where
  "money_only db db' \<longleftrightarrow>
     frames db db' \<and> KVStore (db_ctx db') = KVStore (db_ctx db) \<and>
     (\<exists>sp. db_tempStateCurrent db' = (db_tempStateCurrent db)\<lparr>ts_surplus := sp\<rparr>)"

lemma money_only_refl [simp]: "money_only db db"
  unfolding money_only_def by (auto intro!: exI [of _ "ts_surplus (db_tempStateCurrent db)"])

lemma bank_call_KV [simp]: "KVStore (db_ctx (snd (bank_call db r))) = KVStore (db_ctx db)"
  by (simp add: bank_call_def split: prod.splits)

lemma money_only_balance:
  "SubBalance l k a amt db = Done db' \<Longrightarrow> money_only db db'"
  "AddBalance l k a amt db = Done db' \<Longrightarrow> money_only db db'"
proof -
  have same: "\<exists>sp. t = t\<lparr>ts_surplus := sp\<rparr>" for t :: TemporaryState
    by (rule exI [of _ "ts_surplus t"]) simp
  have s: "money_only db db'" if "SubBalance_pos l k a n db = Done db'" for n
    using that same by (auto simp: SubBalance_pos_def case_prod_unfold Let_def go_Done_iffs money_only_def frames_def
        set_cur_def split: if_splits)
  have a: "money_only db db'" if "AddBalance_pos l k a n db = Done db'" for n
    using that same by (auto simp: AddBalance_pos_def case_prod_unfold Let_def go_Done_iffs money_only_def frames_def
        set_cur_def split: if_splits)
  from s a show "SubBalance l k a amt db = Done db' \<Longrightarrow> money_only db db'" "AddBalance l k a amt db = Done db' \<Longrightarrow> money_only db db'"
    by (auto simp: SubBalance_def AddBalance_def split: if_splits)
qed

lemma money_onlyD:
  "money_only db db' \<Longrightarrow> db_tempStatesHist db' = db_tempStatesHist db"
  "money_only db db' \<Longrightarrow> ts_logs (db_tempStateCurrent db') = ts_logs (db_tempStateCurrent db)"
  by (auto simp: money_only_def frames_def)

section \<open>Logs\<close>

lemma GetAllLogs_eqI:
  "db_tempStatesHist db' = db_tempStatesHist db \<Longrightarrow> ts_logs (db_tempStateCurrent db') = ts_logs (db_tempStateCurrent db) \<Longrightarrow>
     GetAllLogs db' = GetAllLogs db"
  by (simp add: GetAllLogs_def)

lemma GetAllLogs_simple [simp]:
  "GetAllLogs (snd (Snapshot db)) = GetAllLogs db"
  "GetAllLogs (CreateAccount l a db) = GetAllLogs db"
  "GetAllLogs (MarkAccount l a st db) = GetAllLogs db"
  "GetAllLogs (db_SetState a s v db) = GetAllLogs db"
  "GetAllLogs (SetTransientState l a s v db) = GetAllLogs db"
  "GetAllLogs (db_SetNonce a n db) = GetAllLogs db"
  "GetAllLogs (db_SetCode l k a code db) = GetAllLogs db"
  "GetAllLogs (set_refund r db) = GetAllLogs db"
  "GetAllLogs (set_acl f db) = GetAllLogs db"
  "GetAllLogs (SetPrecompileError e db) = GetAllLogs db"
  "GetAllLogs (DisableEvents db) = GetAllLogs db"
  "GetAllLogs (EnableEvents db) = GetAllLogs db"
  "GetAllLogs (db\<lparr>db_ctx := c\<rparr>) = GetAllLogs db"
  by (simp_all add: GetAllLogs_def CreateAccount_def MarkAccount_def db_SetState_def SetTransientState_def db_SetNonce_def
      db_SetCode_def set_refund_def set_acl_def SetPrecompileError_def DisableEvents_def EnableEvents_def set_cur_def
      clearAccountState_def NewTemporaryState_def Let_def)

lemma GetAllLogs_AddAddress [simp]: "GetAllLogs (AddAddressToAccessList a db) = GetAllLogs db"
  by (simp add: AddAddressToAccessList_def)

lemma GetAllLogs_AddLog:
  "GetAllLogs (AddLog lg db) = GetAllLogs db @ [lg\<lparr>elog_Index := word_of_nat (length (GetAllLogs db))\<rparr>]"
  by (simp add: AddLog_def GetAllLogs_def set_cur_def Let_def)

lemma GetAllLogs_balance:
  "SubBalance l k a n db = Done db' \<Longrightarrow> GetAllLogs db' = GetAllLogs db"
  "AddBalance l k a n db = Done db' \<Longrightarrow> GetAllLogs db' = GetAllLogs db"
  by (auto intro!: GetAllLogs_eqI dest!: money_only_balance intro: money_onlyD)

lemma GetAllLogs_AddSlot: "AddSlotToAccessList a s db = Done db' \<Longrightarrow> GetAllLogs db' = GetAllLogs db"
  by (auto simp: AddSlotToAccessList_def Let_def go_Done_iffs split: if_splits)

lemma GetAllLogs_slots: "Prepare_slots a ks db = Done db' \<Longrightarrow> GetAllLogs db' = GetAllLogs db"
  by (induction ks arbitrary: db) (auto simp: go_Done_iffs dest: GetAllLogs_AddSlot)

lemma GetAllLogs_accesses: "Prepare_accesses els db = Done db' \<Longrightarrow> GetAllLogs db' = GetAllLogs db"
  by (induction els arbitrary: db) (auto simp: go_Done_iffs dest!: GetAllLogs_slots)

lemma GetAllLogs_Prepare: "Prepare s c d ps al db = Done db' \<Longrightarrow> GetAllLogs db' = GetAllLogs db"
proof -
  have "GetAllLogs (fold (\<lambda>a db. if P a db then db else AddAddressToAccessList a db) ps db) = GetAllLogs db" for P and db :: "'a DBImpl"
    by (induction ps arbitrary: db) auto
  then show "Prepare s c d ps al db = Done db' \<Longrightarrow> ?thesis"
    by (auto simp: Prepare_def Let_def go_Done_iffs dest!: GetAllLogs_accesses split: option.splits)
qed

lemma GetAllLogs_SelfDestruct: "SelfDestruct l k a db = Done db' \<Longrightarrow> GetAllLogs db' = GetAllLogs db"
  by (auto simp: SelfDestruct_def Let_def go_Done_iffs dest!: GetAllLogs_balance split: option.splits)

lemma GetAllLogs_step:
  assumes "db_step l k op db = Done db'"
  shows "GetAllLogs db' = (case op of
      OpAddLog lg \<Rightarrow> GetAllLogs db @ [lg\<lparr>elog_Index := word_of_nat (length (GetAllLogs db))\<rparr>]
    | OpRevertToSnapshot r \<Rightarrow> concat (map ts_logs (take (Suc r) (db_tempStatesHist db)))
    | _ \<Rightarrow> GetAllLogs db)"
proof (cases op)
  case (OpRevertToSnapshot r)
  then show ?thesis
    using assms by (auto simp: RevertToSnapshot_def GetAllLogs_def NewTemporaryState_def take_Suc_conv_app_nth split: if_splits)
qed (use assms in \<open>auto simp: GetAllLogs_AddLog TransferWithoutEvents_def Selfdestruct6780_def
      AddRefund_def SubRefund_def go_Done_iffs GetAllLogs_SelfDestruct GetAllLogs_Prepare GetAllLogs_AddSlot
      dest!: GetAllLogs_balance split: if_splits\<close>)

definition indexed :: "eth_Log list \<Rightarrow> bool" where
  "indexed lgs \<longleftrightarrow> map elog_Index lgs = map word_of_nat [0..<length lgs]"

lemma indexed_append: "indexed (xs @ ys) \<Longrightarrow> indexed xs"
  unfolding indexed_def by (simp add: upt_add_eq_append [of 0, simplified])

text \<open>C14 (log_indices): in every state a database can reach, snapshots, reverts and all, the log at
  position \<open>i\<close> of \<open>GetAllLogs\<close> carries the index \<open>i\<close>.\<close>

theorem log_indices:
  assumes "db_reachable l k c sim db"
  shows "map elog_Index (GetAllLogs db) = map word_of_nat [0..<length (GetAllLogs db)]"
proof -
  have "indexed (GetAllLogs db)"
    using assms
  proof induction
    case new
    then show ?case by (simp add: NewDBImpl_def Let_def indexed_def) (simp add: GetAllLogs_def NewTemporaryState_def)
  next
    case (step db op db')
    note eq = GetAllLogs_step [OF step.hyps(2)]
    show ?case
    proof (cases op)
      case (OpRevertToSnapshot r)
      have "db_tempStatesHist db = take (Suc r) (db_tempStatesHist db) @ drop (Suc r) (db_tempStatesHist db)" by simp
      then have "GetAllLogs db = GetAllLogs db' @ concat (map ts_logs (drop (Suc r) (db_tempStatesHist db))) @ ts_logs (db_tempStateCurrent db)"
        unfolding eq OpRevertToSnapshot db_op.case unfolding GetAllLogs_def
        by (metis append.assoc concat_append map_append)
      with step.IH show ?thesis using indexed_append [of "GetAllLogs db'"] by (simp only:)
    qed (use eq step.IH in \<open>auto simp: indexed_def\<close>)
  qed
  then show ?thesis by (simp add: indexed_def)
qed

definition empty_log :: eth_Log where
  "empty_log = \<lparr>elog_Address = replicate 20 0, elog_Topics = [], elog_Data = [],
     elog_BlockNumber = 0, elog_TxHash = replicate 32 0, elog_TxIndex = 0, elog_Index = 0\<rparr>"

theorem log_indices_witness:
  "\<exists>db. db_run lib_lower ledger_keepers [OpAddLog empty_log, OpSnapshot, OpAddLog empty_log, OpRevertToSnapshot 1, OpAddLog empty_log, OpSnapshot, OpAddLog empty_log]
       (NewDBImpl ledger_keepers ctx0 False) = Done db \<and> map elog_Index (GetAllLogs db) = [0, 1, 2]"
proof -
  let ?ops = "[OpAddLog empty_log, OpSnapshot, OpAddLog empty_log, OpRevertToSnapshot 1, OpAddLog empty_log, OpSnapshot, OpAddLog empty_log]"
  obtain db where run: "db_run lib_lower ledger_keepers ?ops (NewDBImpl ledger_keepers ctx0 False) = Done db"
    and len: "length (GetAllLogs db) = 3"
    by (simp add: NewDBImpl_def Let_def AddLog_def set_cur_def RevertToSnapshot_def GetAllLogs_def Snapshot_def NewTemporaryState_def)
  have "[0..<3] = [0, 1, 2 :: nat]" by (simp add: upt_rec)
  with log_indices [OF db_reachable_run [OF run db_reachable.new]] run len show ?thesis by auto
qed

section \<open>The refund counter\<close>

lemma GetRefund_set [simp]: "GetRefund (set_refund r db) = Done r"
  by (simp add: GetRefund_def set_refund_def set_cur_def getTransientModule_def ts_find_def update_conv')

text \<open>The refund counter is a 64-bit word. A snapshot keeps it, \<open>AddRefund\<close> adds to it
  with wrap-around, \<open>SubRefund\<close> panics exactly when it would go below zero and subtracts otherwise.\<close>

lemma refund_counter:
  assumes "GetRefund db = Done r"
  shows "GetRefund (snd (Snapshot db)) = Done r \<and>
    go_bind (AddRefund g db) GetRefund = Done (r + g) \<and>
    go_bind (SubRefund g db) GetRefund = (if unat g \<le> unat r then Done (r - g) else Panic ''Refund counter below zero'')"
  using assms by (auto simp: AddRefund_def SubRefund_def word_le_nat_alt [symmetric] not_le)
    (simp_all add: GetRefund_def getTransientModule_def ts_find_def NewTemporaryState_def)

section \<open>Access lists\<close>

text \<open>Every index into the slots is in range, and no two addresses share one.\<close>

definition acl_wf :: "accessList \<Rightarrow> bool" where
  "acl_wf al \<longleftrightarrow>
     (\<forall>a i. map_of (acl_Addresses al) a = Some i \<longrightarrow> i = -1 \<or> 0 \<le> i \<and> nat i < length (acl_Slots al)) \<and>
     (\<forall>a b i. map_of (acl_Addresses al) a = Some i \<longrightarrow> map_of (acl_Addresses al) b = Some i \<longrightarrow> i \<noteq> -1 \<longrightarrow> a = b)"

lemma acl_wf_range: "acl_wf al \<Longrightarrow> map_of (acl_Addresses al) a = Some i \<Longrightarrow> i \<noteq> -1 \<Longrightarrow> 0 \<le> i \<and> nat i < length (acl_Slots al)"
  by (auto simp: acl_wf_def)

definition slots_of :: "accessList \<Rightarrow> address \<Rightarrow> hash set" where
  "slots_of al a = (case map_of (acl_Addresses al) a of None \<Rightarrow> {} | Some i \<Rightarrow> if i = -1 then {} else set (acl_Slots al ! nat i))"

definition acl_slots :: "accessList \<Rightarrow> (address \<times> hash) set" where
  "acl_slots al = {(a, s). s \<in> slots_of al a}"

lemma acl_slots_insert:
  "(\<And>b. slots_of al' b = (if b = a then insert s (slots_of al a) else slots_of al b)) \<Longrightarrow> acl_slots al' = insert (a, s) (acl_slots al)"
  by (auto simp: acl_slots_def split: if_splits)

definition layers :: "'x DBImpl \<Rightarrow> accessList list" where
  "layers db = map ts_transientAccessLists (db_tempStateCurrent db # db_tempStatesHist db)"

definition lists_wf :: "'x DBImpl \<Rightarrow> bool" where
  "lists_wf db \<longleftrightarrow> list_all acl_wf (layers db)"

definition warm_addrs :: "'x DBImpl \<Rightarrow> address set" where
  "warm_addrs db = (\<Union>al \<in> set (layers db). dom (map_of (acl_Addresses al)))"

definition warm_slots :: "'x DBImpl \<Rightarrow> (address \<times> hash) set" where
  "warm_slots db = (\<Union>al \<in> set (layers db). acl_slots al)"

lemma AddressInAccessList_warm: "AddressInAccessList a db \<longleftrightarrow> a \<in> warm_addrs db"
  by (auto simp: AddressInAccessList_def warm_addrs_def layers_def getCurrentAccessList_def)

lemma slot_at_Done: "0 \<le> i \<Longrightarrow> nat i < length (acl_Slots al) \<Longrightarrow> slot_at al i s = Done (s \<in> set (acl_Slots al ! nat i))"
  by (simp add: slot_at_def)

lemma SlotInAccessList_hist_eq:
  "list_all acl_wf (map ts_transientAccessLists ts) \<Longrightarrow> SlotInAccessList_hist a s ok ts =
     Done (ok \<or> (\<exists>t \<in> set ts. a \<in> dom (map_of (acl_Addresses (ts_transientAccessLists t)))),
           \<exists>t \<in> set ts. (a, s) \<in> acl_slots (ts_transientAccessLists t))"
proof (induction ts arbitrary: ok)
  case (Cons t ts)
  let ?al = "ts_transientAccessLists t"
  have wf: "acl_wf ?al" using Cons.prems by simp
  show ?case
  proof (cases "map_of (acl_Addresses ?al) a")
    case None
    with Cons show ?thesis by (auto simp: acl_slots_def slots_of_def)
  next
    case (Some i)
    with Cons slot_at_Done [of i ?al s] acl_wf_range [OF wf Some] show ?thesis
      by (cases "i = -1") (auto simp: acl_slots_def slots_of_def)
  qed
qed simp

lemma SlotInAccessList_warm:
  assumes "lists_wf db"
  shows "SlotInAccessList a s db = Done (a \<in> warm_addrs db, (a, s) \<in> warm_slots db)"
proof -
  let ?al = "ts_transientAccessLists (db_tempStateCurrent db)"
  have wf: "acl_wf ?al" and h: "list_all acl_wf (map ts_transientAccessLists (db_tempStatesHist db))"
    using assms by (simp_all add: lists_wf_def layers_def)
  note hist = SlotInAccessList_hist_eq [OF h]
  show ?thesis
  proof (cases "map_of (acl_Addresses ?al) a")
    case None
    then show ?thesis
      by (auto simp: SlotInAccessList_def hist getCurrentAccessList_def warm_addrs_def warm_slots_def layers_def acl_slots_def slots_of_def Let_def)
  next
    case (Some i)
    with slot_at_Done [of i ?al s] acl_wf_range [OF wf Some] show ?thesis
      by (cases "i = -1")
        (auto simp: SlotInAccessList_def hist getCurrentAccessList_def warm_addrs_def warm_slots_def layers_def acl_slots_def slots_of_def Let_def)
  qed
qed

lemma layers_set_acl [simp]: "layers (set_acl f db) = f (ts_transientAccessLists (db_tempStateCurrent db)) # tl (layers db)"
  by (simp add: layers_def set_acl_def set_cur_def)

lemma layers_Cons: "layers db = getCurrentAccessList db # tl (layers db)"
  by (simp add: layers_def getCurrentAccessList_def)

lemma warm_Cons:
  "layers db = al # als \<Longrightarrow> warm_addrs db = dom (map_of (acl_Addresses al)) \<union> (\<Union>al \<in> set als. dom (map_of (acl_Addresses al)))"
  "layers db = al # als \<Longrightarrow> warm_slots db = acl_slots al \<union> (\<Union>al \<in> set als. acl_slots al)"
  "layers db = al # als \<Longrightarrow> lists_wf db \<longleftrightarrow> acl_wf al \<and> list_all acl_wf als"
  by (simp_all add: warm_addrs_def warm_slots_def lists_wf_def)

lemma AddAddress_warm:
  assumes "lists_wf db"
  shows "lists_wf (AddAddressToAccessList a db) \<and> warm_addrs (AddAddressToAccessList a db) = insert a (warm_addrs db) \<and>
    warm_slots (AddAddressToAccessList a db) = warm_slots db"
proof (cases "map_of (acl_Addresses (getCurrentAccessList db)) a")
  case None
  let ?al = "getCurrentAccessList db"
  let ?al' = "?al\<lparr>acl_Addresses := AList.update a (-1) (acl_Addresses ?al)\<rparr>"
  have l: "layers (AddAddressToAccessList a db) = ?al' # tl (layers db)"
    using None by (simp add: AddAddressToAccessList_def getCurrentAccessList_def)
  have "acl_wf ?al" using assms warm_Cons(3) [OF layers_Cons [of db]] by simp
  then have "acl_wf ?al'" by (auto simp: acl_wf_def update_conv')
  moreover have "acl_slots ?al' = acl_slots ?al"
    using None by (auto simp: acl_slots_def slots_of_def update_conv' split: option.splits if_splits)
  moreover have "dom (map_of (acl_Addresses ?al')) = insert a (dom (map_of (acl_Addresses ?al)))" by (simp add: update_conv')
  ultimately show ?thesis
    using assms by (simp add: warm_Cons [OF l] warm_Cons [OF layers_Cons [of db]])
next
  case (Some i)
  then have "a \<in> warm_addrs db" by (auto simp: warm_Cons [OF layers_Cons [of db]])
  with assms Some show ?thesis by (auto simp: AddAddressToAccessList_def)
qed

lemma acl_add_slot_new:
  fixes s :: hash
  assumes "acl_wf al" and "map_of (acl_Addresses al) a = None \<or> map_of (acl_Addresses al) a = Some (-1)"
  defines "al' \<equiv> al\<lparr>acl_Addresses := AList.update a (int (length (acl_Slots al))) (acl_Addresses al), acl_Slots := acl_Slots al @ [[s]]\<rparr>"
  shows "acl_wf al'" "acl_slots al' = insert (a, s) (acl_slots al)"
    "dom (map_of (acl_Addresses al')) = insert a (dom (map_of (acl_Addresses al)))"
proof -
  have r: "map_of (acl_Addresses al) b = Some i \<Longrightarrow> i \<noteq> -1 \<Longrightarrow> 0 \<le> i \<and> nat i < length (acl_Slots al)" for b i
    using acl_wf_range [OF assms(1)] .
  have m: "map_of (acl_Addresses al') b = (if b = a then Some (int (length (acl_Slots al))) else map_of (acl_Addresses al) b)"
    and sl: "acl_Slots al' = acl_Slots al @ [[s]]" for b
    by (simp_all add: al'_def update_conv')
  have fresh: "i \<noteq> int (length (acl_Slots al))" if "map_of (acl_Addresses al) b = Some i" for b i
    using r [OF that] by auto
  show "acl_wf al'"
    unfolding acl_wf_def m sl
  proof (intro conjI allI impI)
    fix b i assume "(if b = a then Some (int (length (acl_Slots al))) else map_of (acl_Addresses al) b) = Some i"
    then show "i = -1 \<or> 0 \<le> i \<and> nat i < length (acl_Slots al @ [[s]])"
      using r [of b i] by (auto split: if_splits)
  next
    fix b c i
    assume "(if b = a then Some (int (length (acl_Slots al))) else map_of (acl_Addresses al) b) = Some i"
      "(if c = a then Some (int (length (acl_Slots al))) else map_of (acl_Addresses al) c) = Some i" "i \<noteq> -1"
    then show "b = c"
      using fresh [of b i] fresh [of c i] assms(1) by (auto simp: acl_wf_def split: if_splits)
  qed
  show "dom (map_of (acl_Addresses al')) = insert a (dom (map_of (acl_Addresses al)))"
    by (simp add: al'_def update_conv')
  show "acl_slots al' = insert (a, s) (acl_slots al)"
  proof (rule acl_slots_insert)
    fix b
    show "slots_of al' b = (if b = a then insert s (slots_of al a) else slots_of al b)"
      unfolding slots_of_def m sl using assms(2) r [of b] by (auto simp: nth_append split: option.split)
  qed
qed

lemma acl_add_slot_old:
  fixes s :: hash
  assumes "acl_wf al" and "map_of (acl_Addresses al) a = Some i" and "i \<noteq> -1"
  defines "al' \<equiv> al\<lparr>acl_Slots := (acl_Slots al)[nat i := s # (acl_Slots al ! nat i)]\<rparr>"
  shows "acl_wf al'" "acl_slots al' = insert (a, s) (acl_slots al)"
proof -
  have i: "0 \<le> i" "nat i < length (acl_Slots al)" using acl_wf_range [OF assms(1-3)] by simp_all
  show "acl_wf al'" using assms(1) by (simp add: acl_wf_def al'_def)
  show "acl_slots al' = insert (a, s) (acl_slots al)"
  proof (rule acl_slots_insert)
    fix b
    have "nat j \<noteq> nat i" if "b \<noteq> a" "map_of (acl_Addresses al) b = Some j" "j \<noteq> -1" for j
    proof
      assume "nat j = nat i"
      then have "j = i" using acl_wf_range [OF assms(1) that(2,3)] i(1) by arith
      then show False using assms(1-3) that(1,2) by (auto simp: acl_wf_def)
    qed
    then show "slots_of al' b = (if b = a then insert s (slots_of al a) else slots_of al b)"
      using assms(2,3) i by (cases "b = a") (auto simp: slots_of_def al'_def nth_list_update split: option.split)
  qed
qed

lemma Snapshot_warm:
  "lists_wf (snd (Snapshot db)) \<longleftrightarrow> lists_wf db"
  "warm_addrs (snd (Snapshot db)) = warm_addrs db"
  "warm_slots (snd (Snapshot db)) = warm_slots db"
  by (auto simp: lists_wf_def warm_addrs_def warm_slots_def layers_def NewTemporaryState_def acl_wf_def acl_slots_def slots_of_def)

lemma AddSlot_warm:
  assumes "lists_wf db"
  shows "\<exists>db'. AddSlotToAccessList a s db = Done db' \<and> lists_wf db' \<and> warm_addrs db' = insert a (warm_addrs db) \<and>
    warm_slots db' = insert (a, s) (warm_slots db)"
proof -
  let ?al = "getCurrentAccessList db"
  have wf: "acl_wf ?al" "list_all acl_wf (tl (layers db))" using assms warm_Cons(3) [OF layers_Cons [of db]] by simp_all
  note old = warm_Cons [OF layers_Cons [of db]]
  consider (new) "map_of (acl_Addresses ?al) a = None \<or> map_of (acl_Addresses ?al) a = Some (-1)"
    | (old) i where "map_of (acl_Addresses ?al) a = Some i" "i \<noteq> -1" by (cases "map_of (acl_Addresses ?al) a") auto
  then show ?thesis
  proof cases
    case new
    obtain db' where "AddSlotToAccessList a s db = Done db'" and l: "layers db' =
      ?al\<lparr>acl_Addresses := AList.update a (int (length (acl_Slots ?al))) (acl_Addresses ?al), acl_Slots := acl_Slots ?al @ [[s]]\<rparr> # tl (layers db)"
      using new by (auto simp: AddSlotToAccessList_def Let_def getCurrentAccessList_def)
    with acl_add_slot_new [OF wf(1) new, of s] wf(2) show ?thesis
      unfolding old by (simp add: warm_Cons [OF l] ) 
  next
    case (old i)
    have at: "slot_at ?al i s = Done (s \<in> set (acl_Slots ?al ! nat i))"
      using acl_wf_range [OF wf(1) old] by (simp add: slot_at_Done)
    have a: "a \<in> warm_addrs db" using old(1) by (auto simp: warm_Cons [OF layers_Cons [of db]])
    show ?thesis
    proof (cases "s \<in> set (acl_Slots ?al ! nat i)")
      case True
      then have "(a, s) \<in> warm_slots db" using old by (auto simp: warm_Cons [OF layers_Cons [of db]] acl_slots_def slots_of_def)
      with True a at old assms show ?thesis by (auto simp: AddSlotToAccessList_def)
    next
      case False
      then obtain db' where "AddSlotToAccessList a s db = Done db'" and l: "layers db' =
        ?al\<lparr>acl_Slots := (acl_Slots ?al)[nat i := s # (acl_Slots ?al ! nat i)]\<rparr> # tl (layers db)"
        using at old by (auto simp: AddSlotToAccessList_def Let_def getCurrentAccessList_def)
      with acl_add_slot_old [OF wf(1) old, of s] wf(2) a show ?thesis
        by (auto simp: warm_Cons [OF l] warm_Cons [OF layers_Cons [of db]])
    qed
  qed
qed

text \<open>C12 (access_list_refines): the access lists of all layers together behave as two sets, the warm
  addresses and the warm slots. Looking up a slot never panics and decides membership in both, adding an
  address or a slot inserts it and nothing else, a snapshot changes neither, and every operation keeps the
  indices of the representation valid.\<close>

theorem access_list_refines:
  assumes "lists_wf db"
  shows "(AddressInAccessList a db \<longleftrightarrow> a \<in> warm_addrs db) \<and>
    SlotInAccessList a s db = Done (a \<in> warm_addrs db, (a, s) \<in> warm_slots db) \<and>
    lists_wf (AddAddressToAccessList a db) \<and>
    warm_addrs (AddAddressToAccessList a db) = insert a (warm_addrs db) \<and>
    warm_slots (AddAddressToAccessList a db) = warm_slots db \<and>
    (\<exists>db'. AddSlotToAccessList a s db = Done db' \<and> lists_wf db' \<and>
       warm_addrs db' = insert a (warm_addrs db) \<and> warm_slots db' = insert (a, s) (warm_slots db)) \<and>
    lists_wf (snd (Snapshot db)) \<and> warm_addrs (snd (Snapshot db)) = warm_addrs db \<and>
    warm_slots (snd (Snapshot db)) = warm_slots db"
  using SlotInAccessList_warm [OF assms] AddAddress_warm [OF assms] AddSlot_warm [OF assms] assms
  by (simp add: AddressInAccessList_warm Snapshot_warm)

theorem access_list_refines_witness:
  "\<exists>db'. AddSlotToAccessList [1] [2] (NewDBImpl ledger_keepers ctx0 False) = Done db' \<and> lists_wf db' \<and>
     warm_addrs db' = {[1]} \<and> warm_slots db' = {([1], [2])}"
proof -
  let ?db = "NewDBImpl ledger_keepers ctx0 False"
  have "lists_wf ?db" "warm_addrs ?db = {}" "warm_slots ?db = {}"
    by (simp_all add: lists_wf_def warm_addrs_def warm_slots_def layers_def NewDBImpl_def Let_def NewTemporaryState_def
        acl_wf_def acl_slots_def slots_of_def)
  with access_list_refines [of ?db "[1]" "[2]"] show ?thesis by simp
qed

lemma fold_AddAddress_warm:
  assumes "lists_wf db"
  shows "lists_wf (fold (\<lambda>a db. if P a \<and> \<not> cx_IsTracing (db_ctx db) then db else AddAddressToAccessList a db) ps db) \<and>
    warm_addrs (fold (\<lambda>a db. if P a \<and> \<not> cx_IsTracing (db_ctx db) then db else AddAddressToAccessList a db) ps db) =
      warm_addrs db \<union> {a \<in> set ps. P a \<longrightarrow> cx_IsTracing (db_ctx db)} \<and>
    warm_slots (fold (\<lambda>a db. if P a \<and> \<not> cx_IsTracing (db_ctx db) then db else AddAddressToAccessList a db) ps db) = warm_slots db"
  using assms
proof (induction ps arbitrary: db)
  case (Cons p ps)
  have "db_ctx (AddAddressToAccessList p db) = db_ctx db"
    by (simp add: AddAddressToAccessList_def set_acl_def set_cur_def)
  with Cons.IH [of "AddAddressToAccessList p db"] Cons.IH [of db] AddAddress_warm [OF Cons.prems, of p] Cons.prems show ?case
    by auto
qed simp

lemma Prepare_slots_warm:
  "lists_wf db \<Longrightarrow> a \<in> warm_addrs db \<Longrightarrow> \<exists>db'. Prepare_slots a ks db = Done db' \<and> lists_wf db' \<and> warm_addrs db' = warm_addrs db \<and>
     warm_slots db' = warm_slots db \<union> {a} \<times> set ks"
proof (induction ks arbitrary: db)
  case (Cons s ks)
  then obtain db1 where 1: "AddSlotToAccessList a s db = Done db1" "lists_wf db1" "warm_addrs db1 = warm_addrs db"
    "warm_slots db1 = insert (a, s) (warm_slots db)"
    using AddSlot_warm [OF Cons.prems(1), of a s] by (auto simp: insert_absorb)
  with Cons.IH [of db1] Cons.prems(2) show ?case by auto
qed simp

lemma Prepare_accesses_warm:
  "lists_wf db \<Longrightarrow> \<exists>db'. Prepare_accesses els db = Done db' \<and> lists_wf db' \<and> warm_addrs db' = warm_addrs db \<union> fst ` set els \<and>
     warm_slots db' = warm_slots db \<union> {(a, s). \<exists>ks. (a, ks) \<in> set els \<and> s \<in> set ks}"
proof (induction els arbitrary: db)
  case (Cons el els)
  obtain a ks where el: "el = (a, ks)" by fastforce
  let ?db = "AddAddressToAccessList a db"
  from AddAddress_warm [OF Cons.prems, of a] Prepare_slots_warm [of ?db a ks]
  obtain db1 where 1: "Prepare_slots a ks ?db = Done db1" "lists_wf db1" "warm_addrs db1 = insert a (warm_addrs db)"
    "warm_slots db1 = warm_slots db \<union> {a} \<times> set ks" by auto
  from Cons.IH [OF 1(2)] obtain db2 where 2: "Prepare_accesses els db1 = Done db2" "lists_wf db2"
    "warm_addrs db2 = warm_addrs db1 \<union> fst ` set els"
    "warm_slots db2 = warm_slots db1 \<union> {(a, s). \<exists>ks. (a, ks) \<in> set els \<and> s \<in> set ks}" by blast
  with 1 show ?case unfolding el by auto
qed simp

text \<open>C13 (Prepare_warms): \<open>Prepare\<close> never panics. It warms exactly the sender, the coinbase, the destination
  of a call, the precompiles below \<open>CustomPrecompileStartingAddr\<close>, and the addresses and slots of
  the transaction's access list; the chain's own precompiles, from that address on, it warms only when tracing, and leaves cold otherwise.\<close>

theorem Prepare_warms:
  assumes "lists_wf db"
  shows "\<exists>db'. Prepare sender coinbase dest precompiles txAccesses db = Done db' \<and> lists_wf db' \<and>
    warm_addrs db' = warm_addrs db \<union> {sender, coinbase} \<union> set_option dest \<union>
      {p \<in> set precompiles. CustomPrecompileStartingAddr \<le> p \<longrightarrow> cx_IsTracing (db_ctx db)} \<union> fst ` set txAccesses \<and>
    warm_slots db' = warm_slots db \<union> {(a, s). \<exists>keys. (a, keys) \<in> set txAccesses \<and> s \<in> set keys}"
proof -
  define db1 where "db1 = AddAddressToAccessList sender (snd (Snapshot db))"
  define db2 where "db2 = (case dest of None \<Rightarrow> db1 | Some d \<Rightarrow> AddAddressToAccessList d db1)"
  define db3 where "db3 = fold (\<lambda>a db. if CustomPrecompileStartingAddr \<le> a \<and> \<not> cx_IsTracing (db_ctx db) then db
    else AddAddressToAccessList a db) precompiles db2"
  have 1: "lists_wf db1" "warm_addrs db1 = insert sender (warm_addrs db)" "warm_slots db1 = warm_slots db"
    using AddAddress_warm [of "snd (Snapshot db)" sender] assms by (simp_all add: db1_def Snapshot_warm)
  have 2: "lists_wf db2" "warm_addrs db2 = warm_addrs db1 \<union> set_option dest" "warm_slots db2 = warm_slots db1"
    using AddAddress_warm [OF 1(1)] 1(1) by (auto simp: db2_def split: option.split)
  have "cx_IsTracing (db_ctx db2) = cx_IsTracing (db_ctx db)"
    by (auto simp: db2_def db1_def AddAddressToAccessList_def set_acl_def set_cur_def split: option.split)
  with fold_AddAddress_warm [OF 2(1), of "\<lambda>a. CustomPrecompileStartingAddr \<le> a" precompiles]
  have 3: "lists_wf db3" "warm_addrs db3 = warm_addrs db2 \<union> {p \<in> set precompiles. CustomPrecompileStartingAddr \<le> p \<longrightarrow> cx_IsTracing (db_ctx db)}"
    "warm_slots db3 = warm_slots db2" by (simp_all add: db3_def)
  from Prepare_accesses_warm [OF 3(1), of txAccesses] obtain db4 where 4: "Prepare_accesses txAccesses db3 = Done db4" "lists_wf db4"
    "warm_addrs db4 = warm_addrs db3 \<union> fst ` set txAccesses"
    "warm_slots db4 = warm_slots db3 \<union> {(a, s). \<exists>ks. (a, ks) \<in> set txAccesses \<and> s \<in> set ks}" by blast
  have "Prepare sender coinbase dest precompiles txAccesses db = Done (AddAddressToAccessList coinbase db4)"
    using 4(1) unfolding db3_def db2_def db1_def by (simp add: Prepare_def Let_def)
  with AddAddress_warm [OF 4(2), of coinbase] 1 2 3 4 show ?thesis by auto
qed

theorem Prepare_warms_witness:
  "\<exists>db'. Prepare (replicate 20 1) (replicate 20 2) None [replicate 18 0 @ [0x10, 0x02]] [(replicate 20 3, [replicate 32 4])]
       (NewDBImpl ledger_keepers ctx0 False) = Done db' \<and>
     warm_addrs db' = {replicate 20 1, replicate 20 2, replicate 20 3} \<and> warm_slots db' = {(replicate 20 3, replicate 32 4)}"
proof -
  let ?db = "NewDBImpl ledger_keepers ctx0 False"
  have wf: "lists_wf ?db" and w: "warm_addrs ?db = {}" "warm_slots ?db = {}" "\<not> cx_IsTracing (db_ctx ?db)"
    by (simp_all add: lists_wf_def warm_addrs_def warm_slots_def layers_def NewDBImpl_def Let_def NewTemporaryState_def
        acl_wf_def acl_slots_def slots_of_def ctx0_def)
  have "CustomPrecompileStartingAddr \<le> replicate 18 0 @ [0x10, 0x02]"
    unfolding CustomPrecompileStartingAddr_def by (simp add: numeral_eq_Suc)
  with Prepare_warms [OF wf, of "replicate 20 1" "replicate 20 2" None "[replicate 18 0 @ [0x10, 0x02]]" "[(replicate 20 3, [replicate 32 4])]"] w
  show ?thesis by auto
qed

end
