(* ===== verification/StateDB_Deleted.thy ===== *)
theory StateDB_Deleted
  imports StateDB_Temp
begin

text \<open>
  Accounts that a transaction deletes: \<open>Finalize\<close> removes what they stored, whatever layer marks them and
  in whatever order the marks are visited.
\<close>

text \<open>A store that holds nothing of an account: no slot, no code and no nonce. The code hash and the size
  are cleared too.\<close>

definition gone :: "address \<Rightarrow> store \<Rightarrow> bool" where
  "gone a s \<longleftrightarrow> (\<forall>slot. kv_get s (StateKey a @ slot) = None) \<and> kv_get s (CodeKeyPrefix @ a) = None \<and>
     kv_get s (CodeSizeKeyPrefix @ a) = None \<and> kv_get s (CodeHashKeyPrefix @ a) = None \<and> kv_get s (NonceKeyPrefix @ a) = None"

lemma deleteIfExists_get:
  "kv_get (KVStore (deleteIfExists p key c)) x = (if x = p @ key then None else kv_get (KVStore c) x)"
  by (auto simp: deleteIfExists_def kv_has_def)

lemma clear_get:
  "kv_get (KVStore (db_ctx (clearAccountState a db))) x =
     (if x \<in> {NonceKeyPrefix @ a, CodeHashKeyPrefix @ a, CodeSizeKeyPrefix @ a, CodeKeyPrefix @ a} \<or> prefix (StateKey a) x then None
      else kv_get (KVStore (db_ctx db)) x)"
  by (simp add: clearAccountState_def clearAccountState_ctx_def deleteIfExists_get)

lemma clear_gone: "gone a (KVStore (db_ctx (clearAccountState a db)))"
  unfolding gone_def clear_get by (intro conjI allI) (simp_all only: insert_iff prefixI prefix_prefix simp_thms if_True)

lemma gone_clear: "gone a (KVStore (db_ctx db)) \<Longrightarrow> gone a (KVStore (db_ctx (clearAccountState b db)))"
  unfolding gone_def clear_get by (intro conjI allI) (simp_all only: if_cancel)

lemma gone_finalize_layers:
  "finalize_layers l k rng ts db = Done db' \<Longrightarrow> gone a (KVStore (db_ctx db)) \<Longrightarrow> gone a (KVStore (db_ctx db'))"
proof -
  let ?R = "\<lambda>db db'. gone a (KVStore (db_ctx db)) \<longrightarrow> gone a (KVStore (db_ctx db'))"
  assume fin: "finalize_layers l k rng ts db = Done db'" and "gone a (KVStore (db_ctx db))"
  have "?R db db'"
  proof (rule finalize_layers_rel [where R = ?R, OF _ _ _ _ _ fin])
    fix b n and db db' :: "'a DBImpl"
    show "SubBalance l k b n db = Done db' \<Longrightarrow> ?R db db'" "AddBalance l k b n db = Done db' \<Longrightarrow> ?R db db'"
      by (auto dest!: money_only_balance simp: money_only_def)
  qed (auto intro: gone_clear)
  then show ?thesis using \<open>gone a (KVStore (db_ctx db))\<close> by blast
qed

lemma fold_clear_gone:
  fixes l rng
  defines "f \<equiv> \<lambda>(acc, status) db. if status \<noteq> AccountDeleted then db else clearAccountState (HexToAddress l acc) db"
  shows "(h, AccountDeleted) \<in> set es \<or> gone (HexToAddress l h) (KVStore (db_ctx db)) \<Longrightarrow> gone (HexToAddress l h) (KVStore (db_ctx (fold f es db)))"
proof (induction es arbitrary: db)
  case (Cons e es)
  have "(h, AccountDeleted) \<in> set es \<or> gone (HexToAddress l h) (KVStore (db_ctx (f e db)))"
    using Cons.prems by (cases e) (auto simp: f_def clear_gone gone_clear)
  from Cons.IH [OF this] show ?case by simp
qed simp

lemma layers_gone:
  "finalize_layers l k rng tss db = Done db' \<Longrightarrow> ts \<in> set tss \<Longrightarrow> (h, AccountDeleted) \<in> set (rng (ts_transientAccounts ts)) \<Longrightarrow>
     gone (HexToAddress l h) (KVStore (db_ctx db'))"
proof (induction tss arbitrary: db)
  case (Cons t tss)
  from Cons.prems(1) obtain db1 where step: "finalize_layers l k rng tss (clearAccountStateIfDestructed l rng t db1) = Done db'"
    by (auto simp: go_Done_iffs)
  show ?case
  proof (cases "ts = t")
    case True
    then have "gone (HexToAddress l h) (KVStore (db_ctx (clearAccountStateIfDestructed l rng t db1)))"
      unfolding clearAccountStateIfDestructed_def using fold_clear_gone [of h "rng (ts_transientAccounts t)" l db1] Cons.prems(3) by simp
    then show ?thesis by (rule gone_finalize_layers [OF step])
  next
    case False
    with Cons.IH [OF step] Cons.prems(2,3) show ?thesis by simp
  qed
qed simp

text \<open>C11 (Finalize_clears_deleted): once \<open>Finalize\<close> has committed, an account that any layer in force marks as
  deleted has no code, the nonce zero and zero in every storage slot, in whatever order the ranges over
  the maps visit the entries.\<close>

theorem Finalize_clears_deleted:
  assumes "hex_laws l" and "\<And>xs. set (rng xs) = set xs" and "length a = 20"
    and "ts \<in> set (db_tempStateCurrent db # db_tempStatesHist db)"
    and "map_of (ts_transientAccounts ts) (addr_Hex l a) = Some AccountDeleted"
    and "Finalize l k rng db = Done ((Some surplus, None), db')"
  shows "keeper_GetNonce (hd (db_snapshottedCtxs db')) a = Done 0 \<and> keeper_GetCode (hd (db_snapshottedCtxs db')) a = [] \<and>
    keeper_GetState l (hd (db_snapshottedCtxs db')) a slot = replicate 32 0"
proof (rule Finalize_Done [OF assms(6)])
  fix db1 b rest
  assume fin: "finalize_layers l k rng (db_tempStateCurrent db # db_tempStatesHist db) db = Done db1"
    and snap: "db_snapshottedCtxs db' = EmitEvents (concat (map cx_events rest) @ cx_events (db_ctx db1)) (b\<lparr>cx_ms := cx_ms (db_ctx db1)\<rparr>)
      # map (\<lambda>c. c\<lparr>cx_ms := cx_ms (db_ctx db1)\<rparr>) rest"
  have "(addr_Hex l a, AccountDeleted) \<in> set (rng (ts_transientAccounts ts))"
    using assms(2,5) by (auto dest: map_of_SomeD)
  from layers_gone [OF fin assms(4) this] have "gone a (KVStore (db_ctx db1))"
    using assms(1,3) by (simp add: hex_laws_def)
  moreover have "KVStore (hd (db_snapshottedCtxs db')) = KVStore (db_ctx db1)"
    unfolding snap by simp (simp add: KVStore_def)
  ultimately show ?thesis
    by (simp add: keeper_GetNonce_def keeper_GetCode_def keeper_GetState_def PrefixStore_Get_def gone_def)
qed

definition deleted_example :: "ledger DBImpl" where
  "deleted_example =
     MarkAccount lib_lower (replicate 20 1) AccountDeleted (db_SetNonce (replicate 20 1) 9 (NewDBImpl ledger_keepers ctx0 False))"

lemma deleted_example_fields:
  "\<not> db_simulation deleted_example" "db_err deleted_example = None" "db_tempStatesHist deleted_example = [NewTemporaryState]"
  "db_snapshottedCtxs deleted_example = [ctx0]" "ts_surplus (db_tempStateCurrent deleted_example) = 0"
  "ts_transientAccounts (db_tempStateCurrent deleted_example) = [(addr_Hex lib_lower (replicate 20 1), AccountDeleted)]"
  "ctx_ext (db_ctx deleted_example) = ctx_ext ctx0"
  unfolding deleted_example_def
  by (simp_all add: MarkAccount_def set_cur_def db_SetNonce_def NewDBImpl_def Let_def keeper_SetNonce_def PrefixStore_Set_def
      NewTemporaryState_def del: lib_lower_simps)

theorem Finalize_clears_deleted_witness:
  "\<exists>db'. Finalize lib_lower ledger_keepers rev deleted_example = Done ((Some 0, None), db') \<and>
     keeper_GetNonce (db_ctx deleted_example) (replicate 20 1) = Done 9 \<and>
     keeper_GetNonce (hd (db_snapshottedCtxs db')) (replicate 20 1) = Done 0"
proof -
  let ?a = "replicate 20 1 :: bytes"
  have hex: "HexToAddress lib_lower (addr_Hex lib_lower ?a) = ?a" using lib_lower_laws(1) unfolding hex_laws_def by simp
  have bal: "db_GetBalance lib_lower ledger_keepers ?a deleted_example = Done 0"
    by (simp add: db_GetBalance_def keeper_GetBalance_def ledger_keepers_def Let_def sdk_Int_Sub_def sdk_Int_Mul_def sdk_Int_Add_def
        lower_fits lg_get_def deleted_example_fields(7)) (simp add: ctx_ext_def ctx0_def lower_fits)
  have "finalize_layers lib_lower ledger_keepers rev [db_tempStateCurrent deleted_example, NewTemporaryState] deleted_example
      = Done (clearAccountState ?a deleted_example)"
    using bal hex deleted_example_fields(6)
    by (simp add: handleResidualFundsInDestructedAccounts_def clearAccountStateIfDestructed_def del: lib_lower_simps)
      (simp add: NewTemporaryState_def)
  then obtain db' where fin: "Finalize lib_lower ledger_keepers rev deleted_example = Done ((Some 0, None), db')"
    using deleted_example_fields(1-5)
    by (simp add: Finalize_def flushCtxs_all flushEvents_def Let_def sdk_Int_Add_def clearAccountState_def [of ?a deleted_example])
      (simp add: NewTemporaryState_def lower_fits)
  have "keeper_GetNonce (db_ctx deleted_example) ?a = Done 9"
    by (simp add: deleted_example_def MarkAccount_def set_cur_def db_SetNonce_def keeper_SetNonce_def keeper_GetNonce_def PrefixStore_Get_def)
  with Finalize_clears_deleted [OF lib_lower_laws(1) set_rev _ _ _ fin, of ?a "db_tempStateCurrent deleted_example"]
    deleted_example_fields(6) fin show ?thesis by (simp del: lib_lower_simps)
qed

end
