(* ===== verification/StateDB_Types.thy ===== *)
theory StateDB_Types
  imports StateDB_Props
begin

text \<open>
  A type discipline for the state database: the lengths of the keys and values in the families of the store, of the refund counter, and
  the indices of the access lists. Every operation preserves it, and under it the reads that decode a value or follow an index return.
\<close>

section \<open>Well-typed states\<close>

definition entry_ok :: "bytes \<Rightarrow> bytes \<Rightarrow> bool" where
  "entry_ok k v \<longleftrightarrow>
     (prefix NonceKeyPrefix k \<longrightarrow> length v = 8) \<and> (prefix CodeSizeKeyPrefix k \<longrightarrow> length v = 8) \<and> (prefix CodeHashKeyPrefix k \<longrightarrow> length v = 32) \<and>
     (prefix TabiAddressToEVMAddressKeyPrefix k \<longrightarrow> length v = 20) \<and> (prefix StateKeyPrefix k \<longrightarrow> length k = 53 \<and> length v = 32)"

definition typed_store :: "store \<Rightarrow> bool" where
  "typed_store st \<longleftrightarrow> (\<forall>(k, v) \<in> set st. entry_ok k v)"

definition typed_ctx :: "'x ctx \<Rightarrow> bool" where
  "typed_ctx c \<longleftrightarrow> typed_store (KVStore c)"

definition acl_ok :: "accessList \<Rightarrow> bool" where
  "acl_ok al \<longleftrightarrow> (\<forall>a i. map_of (acl_Addresses al) a = Some i \<longrightarrow> i = -1 \<or> 0 \<le> i \<and> nat i < length (acl_Slots al))"

definition typed_ts :: "TemporaryState \<Rightarrow> bool" where
  "typed_ts t \<longleftrightarrow> (\<forall>v. map_of (ts_transientModuleStates t) GasRefundKey = Some v \<longrightarrow> length v = 8) \<and> acl_ok (ts_transientAccessLists t)"

definition typed_db :: "'x DBImpl \<Rightarrow> bool" where
  "typed_db db \<longleftrightarrow> typed_ctx (db_ctx db) \<and> db_snapshottedCtxs db \<noteq> [] \<and> (\<forall>c \<in> set (db_snapshottedCtxs db). typed_ctx c) \<and>
     typed_ts (db_tempStateCurrent db) \<and> (\<forall>t \<in> set (db_tempStatesHist db). typed_ts t)"

text \<open>What the Go types of the arguments say: an address has 20 bytes and a hash 32.\<close>

fun op_typed :: "db_op \<Rightarrow> bool" where
  "op_typed (OpSetState a s v) \<longleftrightarrow> length a = 20 \<and> length s = 32 \<and> length v = 32"
| "op_typed (OpSetCode a c) \<longleftrightarrow> length a = 20"
| "op_typed _ = True"

section \<open>The store\<close>

lemma kv_set_subset: "set (kv_set s k v) \<subseteq> insert (k, v) (set s)"
  by (induction s k v rule: kv_set.induct) auto

lemma kv_delete_subset: "set (kv_delete s k) \<subseteq> set s"
  by (auto simp: kv_delete_def)

lemma typed_kv_set [simp]: "typed_store s \<Longrightarrow> entry_ok k v \<Longrightarrow> typed_store (kv_set s k v)"
  using kv_set_subset [of s k v] by (auto simp: typed_store_def)

lemma typed_kv_delete [simp]: "typed_store s \<Longrightarrow> typed_store (kv_delete s k)"
  using kv_delete_subset [of s k] by (auto simp: typed_store_def)

lemma typed_delete_all [simp]: "typed_store s \<Longrightarrow> typed_store (prefix_delete_all s p)"
  by (auto simp: typed_store_def prefix_delete_all_def)

lemma typed_get: "typed_store s \<Longrightarrow> kv_get s k = Some v \<Longrightarrow> entry_ok k v"
  by (auto simp: typed_store_def kv_get_def dest: map_of_SomeD)

lemmas key_prefixes = NonceKeyPrefix_def CodeSizeKeyPrefix_def CodeHashKeyPrefix_def CodeKeyPrefix_def StateKeyPrefix_def
  TabiAddressToEVMAddressKeyPrefix_def EVMAddressToTabiAddressKeyPrefix_def EVMAddressToTabiAddressKey_def TabiAddressToEVMAddressKey_def StateKey_def

lemma typed_ctx_ops [simp]:
  "typed_ctx c \<Longrightarrow> typed_ctx (PrefixStore_Delete c p k)" "typed_ctx c \<Longrightarrow> typed_ctx (PurgePrefix c p)"
  "typed_ctx c \<Longrightarrow> typed_ctx (with_ext x c)" "typed_ctx c \<Longrightarrow> typed_ctx (EmitEvents es c)"
  "typed_ctx c \<Longrightarrow> typed_ctx (c\<lparr>cx_events := es\<rparr>)" "typed_ctx c \<Longrightarrow> typed_ctx (DeleteAddressMapping c t e)"
  by (simp_all add: typed_ctx_def DeleteAddressMapping_def) (simp add: KVStore_def)

lemma typed_SetNonce [simp]: "typed_ctx c \<Longrightarrow> typed_ctx (keeper_SetNonce c a n)"
  by (simp add: typed_ctx_def keeper_SetNonce_def entry_ok_def key_prefixes PutUint64_def)

lemma typed_SetState [simp]:
  "typed_ctx c \<Longrightarrow> length a = 20 \<Longrightarrow> length s = 32 \<Longrightarrow> length v = 32 \<Longrightarrow> typed_ctx (keeper_SetState c a s v)"
  by (simp add: typed_ctx_def keeper_SetState_def entry_ok_def key_prefixes)

lemma typed_SetAddressMapping [simp]: "typed_ctx c \<Longrightarrow> length e = 20 \<Longrightarrow> typed_ctx (SetAddressMapping l k c t e)"
  by (simp add: typed_ctx_def SetAddressMapping_def Let_def entry_ok_def key_prefixes)

lemma typed_SetCode [simp]:
  assumes "keccak_laws l" "typed_ctx c" "length a = 20"
  shows "typed_ctx (keeper_SetCode l k c a code)"
proof -
  have "typed_ctx (PrefixStore_Set (PrefixStore_Set (PrefixStore_Set c CodeKeyPrefix a code) CodeSizeKeyPrefix a (PutUint64 (word_of_nat (length code)))) CodeHashKeyPrefix a (Keccak256 l code))"
    using assms(1,2) by (simp add: typed_ctx_def entry_ok_def key_prefixes PutUint64_def keccak_laws_def)
  then show ?thesis using assms(3) by (simp add: keeper_SetCode_def Let_def)
qed

lemma typed_clearAccountState [simp]: "typed_ctx c \<Longrightarrow> typed_ctx (clearAccountState_ctx a c)"
  by (simp add: clearAccountState_ctx_def deleteIfExists_def)

section \<open>Preservation\<close>

lemma typed_set_cur:
  "typed_db db \<Longrightarrow> (typed_ts (db_tempStateCurrent db) \<Longrightarrow> typed_ts (f (db_tempStateCurrent db))) \<Longrightarrow> typed_db (set_cur f db)"
  by (simp add: typed_db_def set_cur_def)

lemma typed_with_ctx: "typed_db db \<Longrightarrow> typed_ctx c \<Longrightarrow> typed_db (db\<lparr>db_ctx := c\<rparr>)"
  by (simp add: typed_db_def)

lemma typed_db_misc [simp]:
  "typed_db (db\<lparr>db_err := er\<rparr>) = typed_db db" "typed_db (DisableEvents db) = typed_db db" "typed_db (EnableEvents db) = typed_db db"
  "typed_db (SetPrecompileError er db) = typed_db db"
  by (simp_all add: typed_db_def DisableEvents_def EnableEvents_def SetPrecompileError_def)

lemma typed_db_ctx: "typed_db db \<Longrightarrow> typed_ctx (db_ctx db)"
  by (simp add: typed_db_def)

lemma typed_new [simp]: "typed_ts NewTemporaryState"
  by (simp add: typed_ts_def acl_ok_def NewTemporaryState_def)

lemma typed_surplus [simp]: "typed_ts (t\<lparr>ts_surplus := s\<rparr>) = typed_ts t"
  by (simp add: typed_ts_def)

lemma typed_bank_call: "typed_db db \<Longrightarrow> typed_db (snd (bank_call db r))"
  by (simp add: bank_call_def typed_db_def split: prod.split)

lemma typed_Sub_pos: "typed_db db \<Longrightarrow> SubBalance_pos l k a n db = Done db' \<Longrightarrow> typed_db db'"
  unfolding SubBalance_pos_def Let_def case_prod_beta
  by (auto simp: go_Done_iffs split: if_split_asm intro!: typed_set_cur typed_bank_call)

lemma typed_Add_pos: "typed_db db \<Longrightarrow> AddBalance_pos l k a n db = Done db' \<Longrightarrow> typed_db db'"
  unfolding AddBalance_pos_def Let_def case_prod_beta
  by (auto simp: go_Done_iffs split: if_split_asm intro!: typed_set_cur typed_bank_call)

lemma typed_balance:
  "typed_db db \<Longrightarrow> SubBalance l k a n db = Done db' \<Longrightarrow> typed_db db'" "typed_db db \<Longrightarrow> AddBalance l k a n db = Done db' \<Longrightarrow> typed_db db'"
  by (auto simp: SubBalance_def AddBalance_def split: if_split_asm dest: typed_Sub_pos typed_Add_pos)

lemma typed_Snapshot: "typed_db db \<Longrightarrow> typed_db (snd (Snapshot db))"
  by (simp add: typed_db_def Snapshot_def Let_def)

lemma typed_Revert: "typed_db db \<Longrightarrow> RevertToSnapshot r db = Done db' \<Longrightarrow> typed_db db'"
  by (auto simp: RevertToSnapshot_def typed_db_def Snapshot_def Let_def split: if_split_asm) (meson in_set_takeD)+

lemma typed_MarkAccount: "typed_db db \<Longrightarrow> typed_db (MarkAccount l a st db)"
  unfolding MarkAccount_def by (rule typed_set_cur) (simp_all add: typed_ts_def)

lemma typed_SelfDestruct:
  assumes "typed_db db" "SelfDestruct l k a db = Done db'"
  shows "typed_db db'"
proof -
  define db1 where "db1 = (case GetTabiAddress (db_ctx db) a of Some t \<Rightarrow> db\<lparr>db_ctx := DeleteAddressMapping (db_ctx db) t a\<rparr> | None \<Rightarrow> db)"
  have "typed_db db1" using assms(1) by (simp add: db1_def typed_with_ctx typed_db_ctx split: option.split)
  then show ?thesis
    using assms(2) unfolding SelfDestruct_def Let_def db1_def [symmetric] by (auto simp: go_Done_iffs intro: typed_MarkAccount typed_balance(1))
qed

lemma typed_acl:
  "typed_db db \<Longrightarrow> (acl_ok (getCurrentAccessList db) \<Longrightarrow> acl_ok (f (getCurrentAccessList db))) \<Longrightarrow> typed_db (set_acl f db)"
  unfolding set_acl_def by (rule typed_set_cur) (simp_all add: typed_ts_def getCurrentAccessList_def)

lemma typed_AddAddress: "typed_db db \<Longrightarrow> typed_db (AddAddressToAccessList a db)"
  unfolding AddAddressToAccessList_def by (auto intro!: typed_acl simp: acl_ok_def update_conv)

lemma typed_current: "typed_db db \<Longrightarrow> acl_ok (getCurrentAccessList db)"
  by (simp add: typed_db_def typed_ts_def getCurrentAccessList_def)

lemma AddSlot_typed:
  assumes "typed_db db"
  obtains db' where "AddSlotToAccessList a s db = Done db'" "typed_db db'"
proof (cases "map_of (acl_Addresses (getCurrentAccessList db)) a \<in> {None, Some (-1)}")
  case True
  have "typed_db (set_acl (\<lambda>al. al\<lparr>acl_Addresses := AList.update a (int (length (acl_Slots al))) (acl_Addresses al), acl_Slots := acl_Slots al @ [[s]]\<rparr>) db)"
    by (rule typed_acl [OF assms]) (auto simp: acl_ok_def update_conv less_Suc_eq split: if_splits)
  with True show ?thesis using that by (auto simp: AddSlotToAccessList_def)
next
  case False
  then obtain i where i: "map_of (acl_Addresses (getCurrentAccessList db)) a = Some i" "i \<noteq> -1" by auto
  then have "0 \<le> i" "nat i < length (acl_Slots (getCurrentAccessList db))" using typed_current [OF assms] by (auto simp: acl_ok_def)
  moreover have "typed_db (set_acl (\<lambda>al. al\<lparr>acl_Slots := (acl_Slots al)[nat i := s # (acl_Slots al ! nat i)]\<rparr>) db)"
    by (rule typed_acl [OF assms]) (auto simp: acl_ok_def)
  ultimately show ?thesis using that i assms
    by (cases "s \<in> set (acl_Slots (getCurrentAccessList db) ! nat i)") (simp_all add: AddSlotToAccessList_def slot_at_def Let_def)
qed

lemma typed_slots: "typed_db db \<Longrightarrow> Prepare_slots a ss db = Done db' \<Longrightarrow> typed_db db'"
proof (induction ss arbitrary: db)
  case (Cons s ss)
  obtain db1 where "AddSlotToAccessList a s db = Done db1" "typed_db db1" by (rule AddSlot_typed [OF Cons.prems(1)])
  then show ?case using Cons by simp
qed simp

lemma typed_accesses: "typed_db db \<Longrightarrow> Prepare_accesses as db = Done db' \<Longrightarrow> typed_db db'"
proof (induction as db rule: Prepare_accesses.induct)
  case (2 a ks as db)
  then obtain db1 where "Prepare_slots a ks (AddAddressToAccessList a db) = Done db1" "Prepare_accesses as db1 = Done db'"
    by (auto simp: go_Done_iffs)
  then show ?case using 2 typed_slots typed_AddAddress by blast
qed simp

lemma typed_precompiles:
  "typed_db db \<Longrightarrow> typed_db (fold (\<lambda>a db. if a \<ge> CustomPrecompileStartingAddr \<and> \<not> cx_IsTracing (db_ctx db) then db else AddAddressToAccessList a db) ps db)"
  by (induction ps arbitrary: db) (auto intro: typed_AddAddress)

lemma typed_Prepare:
  assumes "typed_db db" "Prepare s c d ps al db = Done db'"
  shows "typed_db db'"
proof -
  have "typed_db (case d of None \<Rightarrow> AddAddressToAccessList s (snd (Snapshot db)) | Some d \<Rightarrow> AddAddressToAccessList d (AddAddressToAccessList s (snd (Snapshot db))))"
    using assms(1) by (auto intro!: typed_AddAddress typed_Snapshot split: option.split)
  from typed_precompiles [OF this, of ps] show ?thesis
    using assms(2) unfolding Prepare_def Let_def by (auto simp: go_Done_iffs intro: typed_AddAddress typed_accesses)
qed

lemma typed_refund: "typed_db db \<Longrightarrow> typed_db (set_refund r db)"
  unfolding set_refund_def by (rule typed_set_cur) (auto simp: typed_ts_def update_conv PutUint64_def)

section \<open>Progress\<close>

lemma Uint64_returns: "length bz = 8 \<Longrightarrow> \<exists>n. Uint64 bz = Done n"
  by (simp add: Uint64_def)

lemma nonce_returns: "typed_ctx c \<Longrightarrow> \<exists>n. keeper_GetNonce c a = Done n"
  by (auto simp: keeper_GetNonce_def PrefixStore_Get_def typed_ctx_def entry_ok_def split: option.split dest!: typed_get intro: Uint64_returns)

lemma code_size_returns: "typed_ctx c \<Longrightarrow> \<exists>n. keeper_GetCodeSize c a = Done n"
  by (auto simp: keeper_GetCodeSize_def PrefixStore_Get_def typed_ctx_def entry_ok_def go_Done_iffs split: option.split dest!: typed_get Uint64_returns)

lemma hist_find_typed: "hist_find f ts = Some v \<Longrightarrow> \<exists>t \<in> set ts. f t = Some v"
  by (induction ts) (auto split: option.splits)

lemma refund_returns: "typed_db db \<Longrightarrow> \<exists>r. GetRefund db = Done r"
  by (auto simp: GetRefund_def getTransientModule_def ts_find_def typed_db_def typed_ts_def split: option.splits dest!: hist_find_typed intro: Uint64_returns)

lemma slot_at_returns: "acl_ok al \<Longrightarrow> map_of (acl_Addresses al) a = Some i \<Longrightarrow> i \<noteq> -1 \<Longrightarrow> \<exists>b. slot_at al i s = Done b"
  by (auto simp: acl_ok_def slot_at_def)

lemma slot_hist_returns: "\<forall>t \<in> set ts. typed_ts t \<Longrightarrow> \<exists>b. SlotInAccessList_hist a s ok ts = Done b"
proof (induction ts arbitrary: ok)
  case (Cons t ts)
  have al: "acl_ok (ts_transientAccessLists t)" using Cons.prems by (simp add: typed_ts_def)
  show ?case
  proof (cases "map_of (acl_Addresses (ts_transientAccessLists t)) a")
    case (Some i)
    then show ?thesis using Cons slot_at_returns [OF al Some, of s] by (cases "i = -1") auto
  qed (use Cons in simp)
qed auto

lemma slot_returns:
  assumes "typed_db db"
  shows "\<exists>b. SlotInAccessList a s db = Done b"
proof -
  have hist: "\<exists>b. SlotInAccessList_hist a s ok (db_tempStatesHist db) = Done b" for ok using assms by (intro slot_hist_returns) (simp add: typed_db_def)
  show ?thesis
  proof (cases "map_of (acl_Addresses (getCurrentAccessList db)) a")
    case (Some i)
    then show ?thesis using hist slot_at_returns [OF typed_current [OF assms] Some, of s] by (cases "i = -1") (auto simp: SlotInAccessList_def Let_def)
  qed (use hist in \<open>simp add: SlotInAccessList_def\<close>)
qed

lemma step_typed:
  assumes "keccak_laws l" "typed_db db" "op_typed op" "db_step l k op db = Done db'"
  shows "typed_db db'"
proof (cases op)
  case (OpTransferWithoutEvents a b n)
  then obtain db1 db2 where t: "SubBalance l k a n (DisableEvents db) = Done db1" "AddBalance l k b n db1 = Done db2" "db' = EnableEvents db2"
    using assms(4) by (auto simp: TransferWithoutEvents_def go_Done_iffs)
  have "typed_db db1" by (rule typed_balance(1) [OF _ t(1)]) (simp add: assms(2))
  then show ?thesis using typed_balance(2) [OF _ t(2)] t(3) by simp
next
  case (OpSelfdestruct6780 a)
  then show ?thesis using assms(2,4) by (auto simp: Selfdestruct6780_def typed_SelfDestruct split: if_split_asm)
next
  case (OpSetTransientState a s v)
  have "typed_db (SetTransientState l a s v db)"
    unfolding SetTransientState_def by (rule typed_set_cur [OF assms(2)]) (simp add: typed_ts_def Let_def)
  then show ?thesis using OpSetTransientState assms(4) by simp
next
  case (OpAddLog lg)
  have "typed_db (AddLog lg db)" unfolding AddLog_def Let_def by (rule typed_set_cur [OF assms(2)]) (simp add: typed_ts_def)
  then show ?thesis using OpAddLog assms(4) by simp
next
  case (OpAddSlotToAccessList a s)
  obtain db1 where "AddSlotToAccessList a s db = Done db1" "typed_db db1" by (rule AddSlot_typed [OF assms(2)])
  then show ?thesis using OpAddSlotToAccessList assms(4) by simp
next
  case (OpCreateAccount a)
  have "typed_db (clearAccountState a db)" using assms(2) by (simp add: clearAccountState_def typed_with_ctx typed_db_ctx)
  then show ?thesis using OpCreateAccount assms(2,4) by (auto simp: CreateAccount_def Let_def intro: typed_MarkAccount)
next
  case (OpSetState a s v)
  then show ?thesis using assms(2-4) by (auto simp: db_SetState_def typed_with_ctx typed_db_ctx)
next
  case (OpSetNonce a n)
  then show ?thesis using assms(2,4) by (auto simp: db_SetNonce_def typed_with_ctx typed_db_ctx)
next
  case (OpSetCode a c)
  then show ?thesis using assms by (auto simp: db_SetCode_def typed_with_ctx typed_db_ctx)
next
  case (OpAddRefund g)
  then show ?thesis using assms(2,4) by (auto simp: AddRefund_def go_Done_iffs intro: typed_refund)
next
  case (OpSubRefund g)
  then show ?thesis using assms(2,4) by (auto simp: SubRefund_def go_Done_iffs intro: typed_refund split: if_split_asm)
next
  case (OpSubBalance a n)
  show ?thesis by (rule typed_balance(1) [OF assms(2), of l k a n]) (use OpSubBalance assms(4) in simp)
next
  case (OpAddBalance a n)
  show ?thesis by (rule typed_balance(2) [OF assms(2), of l k a n]) (use OpAddBalance assms(4) in simp)
next
  case (OpRevertToSnapshot r)
  show ?thesis by (rule typed_Revert [OF assms(2), of r]) (use OpRevertToSnapshot assms(4) in simp)
next
  case (OpSelfDestruct a)
  show ?thesis by (rule typed_SelfDestruct [OF assms(2), of l k a]) (use OpSelfDestruct assms(4) in simp)
next
  case (OpPrepare s c d ps al)
  show ?thesis by (rule typed_Prepare [OF assms(2), of s c d ps al]) (use OpPrepare assms(4) in simp)
next
  case OpSnapshot
  then show ?thesis using assms(4) typed_Snapshot [OF assms(2)] by simp
next
  case (OpAddAddressToAccessList a)
  then show ?thesis using assms(4) typed_AddAddress [OF assms(2), of a] by simp
next
  case (OpSetPrecompileError er)
  then show ?thesis using assms(2,4) by auto
qed

lemma run_typed:
  "keccak_laws l \<Longrightarrow> typed_db db \<Longrightarrow> \<forall>op \<in> set ops. op_typed op \<Longrightarrow> db_run l k ops db = Done db' \<Longrightarrow> typed_db db'"
proof (induction ops arbitrary: db)
  case (Cons op ops)
  then obtain db1 where s: "db_step l k op db = Done db1" "db_run l k ops db1 = Done db'" by (auto simp: go_Done_iffs)
  have "typed_db db1" by (rule step_typed [OF Cons.prems(1,2) _ s(1)]) (use Cons.prems(3) in simp)
  then show ?case using Cons.IH [OF Cons.prems(1) _ _ s(2)] Cons.prems(3) by simp
qed simp

lemma typed_New: "typed_ctx c \<Longrightarrow> typed_db (NewDBImpl k c sim)"
  by (simp add: NewDBImpl_def typed_db_def Snapshot_def Let_def)

lemma typed_residual: "typed_db db \<Longrightarrow> residual_loop l k es db = Done db' \<Longrightarrow> typed_db db'"
proof (induction es arbitrary: db)
  case (Cons x es)
  obtain a st where x: "x = (a, st)" by fastforce
  show ?case
  proof (cases "st = AccountDeleted")
    case True
    then obtain r where r: "db_GetBalance l k (HexToAddress l a) db = Done r" using Cons.prems(2) by (auto simp: x Let_def go_Done_iffs)
    show ?thesis
    proof (cases "r = 0")
      case True
      then show ?thesis using Cons \<open>st = AccountDeleted\<close> r by (simp add: x Let_def)
    next
      case False
      then obtain db1 db2 where d: "SubBalance l k (HexToAddress l a) r db = Done db1" "AddBalance l k (db_coinbaseEvmAddress db1) r db1 = Done db2"
        "residual_loop l k es db2 = Done db'" using Cons.prems(2) True r by (auto simp: x Let_def go_Done_iffs)
      show ?thesis by (rule Cons.IH [OF typed_balance(2) [OF typed_balance(1) [OF Cons.prems(1) d(1)] d(2)] d(3)])
    qed
  qed (use Cons x in simp)
qed simp

lemma typed_clear_all: "typed_db db \<Longrightarrow> typed_db (clearAccountStateIfDestructed l rng st db)"
proof -
  have "typed_db db \<Longrightarrow> typed_db (fold (\<lambda>(acc, status) db. if status \<noteq> AccountDeleted then db else clearAccountState (HexToAddress l acc) db) es db)" for es
    by (induction es arbitrary: db) (auto simp: clearAccountState_def typed_with_ctx typed_db_ctx)
  then show "typed_db db \<Longrightarrow> ?thesis" by (simp add: clearAccountStateIfDestructed_def)
qed

lemma typed_layers: "typed_db db \<Longrightarrow> finalize_layers l k rng ts db = Done db' \<Longrightarrow> typed_db db'"
proof (induction ts arbitrary: db)
  case (Cons t ts)
  then obtain db1 where d: "residual_loop l k (rng (ts_transientAccounts t)) db = Done db1"
    "finalize_layers l k rng ts (clearAccountStateIfDestructed l rng t db1) = Done db'"
    by (auto simp: go_Done_iffs handleResidualFundsInDestructedAccounts_def)
  show ?case by (rule Cons.IH [OF typed_clear_all [OF typed_residual [OF Cons.prems(1) d(1)]] d(2)])
qed simp

lemma typed_flush: "typed_db db \<Longrightarrow> typed_db (flushCtxs db)" "typed_db db \<Longrightarrow> typed_db (flushEvents c db)"
  by (auto simp: flushCtxs_all flushEvents_def typed_db_def typed_ctx_def KVStore_def EmitEvents_def split: list.split)

lemma typed_flush_all: "typed_db db \<Longrightarrow> typed_db (fold flushEvents cs db)"
  by (induction cs arbitrary: db) (simp_all add: typed_flush)

lemma typed_Finalize:
  assumes "typed_db db" "Finalize l k rng db = Done (r, db')"
  shows "typed_db db'"
proof (cases "db_err db = None")
  case True
  then obtain db1 where d: "finalize_layers l k rng (db_tempStateCurrent db # db_tempStatesHist db) db = Done db1"
    "db' = (let db2 = flushCtxs db1; db3 = fold flushEvents (drop 1 (db_snapshottedCtxs db2)) db2 in flushEvents (db_ctx db3) db3)"
    using assms(2) unfolding Finalize_def Let_def by (auto simp: go_Done_iffs split: if_split_asm)
  show ?thesis unfolding d(2) Let_def by (intro typed_flush typed_flush_all typed_layers [OF assms(1) d(1)])
qed (use assms in \<open>auto simp: Finalize_def split: if_split_asm\<close>)

section \<open>Properties\<close>

text \<open>C15 (statedb_type_soundness): on a well-typed store, whatever the EVM does to the database through its operations, with addresses of 20 bytes
  and hashes of 32, the database stays well typed: no nonce, code size or refund counter has a length that its decoder would panic on, no
  access list points to a slot set that does not exist, and a storage word has 32 bytes. So the reads return, adding a slot never panics, and
  what \<open>Finalize\<close> writes back is well typed for the next transaction.\<close>

theorem statedb_type_soundness:
  assumes "keccak_laws l" "cast_laws l" "typed_ctx c" "\<forall>op \<in> set ops. op_typed op" "db_run l k ops (NewDBImpl k c sim) = Done db"
  shows "typed_db db \<and> (\<exists>n. db_GetNonce a db = Done n) \<and> (\<exists>n. db_GetCodeSize a db = Done n) \<and> (\<exists>r. GetRefund db = Done r) \<and>
    (\<exists>b. SlotInAccessList a s db = Done b) \<and> (\<exists>db'. AddSlotToAccessList a s db = Done db') \<and> (\<exists>h. GetCommittedState l a s db = Done h) \<and>
    length (db_GetState l a s db) = 32 \<and> (\<forall>r db'. Finalize l k rng db = Done (r, db') \<longrightarrow> typed_db db')"
proof -
  have t: "typed_db db" by (rule run_typed [OF assms(1) typed_New [OF assms(3)] assms(4,5)])
  then have c: "typed_ctx (db_ctx db)" by (rule typed_db_ctx)
  have "length (keeper_GetState l (db_ctx db) a s) = 32"
    using c assms(2) typed_get [of "KVStore (db_ctx db)" "StateKey a @ s"]
    by (auto simp: keeper_GetState_def PrefixStore_Get_def typed_ctx_def entry_ok_def StateKey_def cast_laws_def split: option.split)
  moreover have "\<exists>h. GetCommittedState l a s db = Done h"
    using t by (auto simp: GetCommittedState_def typed_db_def split: list.split)
  moreover have "\<exists>db'. AddSlotToAccessList a s db = Done db'" using AddSlot_typed [OF t] by metis
  ultimately show ?thesis
    using t nonce_returns [OF c] code_size_returns [OF c] refund_returns [OF t] slot_returns [OF t] typed_Finalize [OF t]
    by (simp add: db_GetNonce_def db_GetCodeSize_def db_GetState_def)
qed

text \<open>The witness: a transaction that sets a nonce and a storage word, warms a slot and reverts.\<close>

definition typed_ops :: "db_op list" where
  "typed_ops = [OpSetNonce (replicate 20 7) 5, OpSetState (replicate 20 7) (replicate 32 1) (replicate 32 2), OpAddSlotToAccessList (replicate 20 7) (replicate 32 1),
     OpSnapshot, OpAddRefund 100, OpRevertToSnapshot 1]"

theorem statedb_type_soundness_witness:
  "case db_run lib_lower ledger_keepers typed_ops (NewDBImpl ledger_keepers ctx0 False) of
     Panic _ \<Rightarrow> False
   | Done db \<Rightarrow> typed_db db \<and> (\<exists>b. SlotInAccessList (replicate 20 7) (replicate 32 3) db = Done b) \<and> length (db_GetState lib_lower (replicate 20 7) (replicate 32 1) db) = 32"
proof -
  have "case db_run lib_lower ledger_keepers typed_ops (NewDBImpl ledger_keepers ctx0 False) of Panic _ \<Rightarrow> False | Done db \<Rightarrow> True" by code_simp
  then obtain db where db: "db_run lib_lower ledger_keepers typed_ops (NewDBImpl ledger_keepers ctx0 False) = Done db" by (auto split: go.splits)
  have "typed_ctx ctx0" by (simp add: typed_ctx_def typed_store_def ctx0_def KVStore_def)
  moreover have "\<forall>op \<in> set typed_ops. op_typed op" by (simp add: typed_ops_def)
  ultimately show ?thesis
    using statedb_type_soundness [OF lib_lower_laws(3,2) _ _ db, of "replicate 20 7" "replicate 32 3"]
      statedb_type_soundness [OF lib_lower_laws(3,2) _ _ db, of "replicate 20 7" "replicate 32 1"] db by (simp del: replicate.simps)
qed

end
