(* ===== verification/Pb_Codec.thy ===== *)
theory Pb_Codec
  imports Tabi_Prelude
begin

text \<open>
  The protobuf codec that the generated files \<open>*.pb.go\<close> repeat for every message: varints, tags, the loop
  over the fields of \<open>Unmarshal\<close> and the skipping of unknown fields. A message type is a table from field
  numbers to cases; its own file gives the table and the encoder. An encoder writes its buffer from the
  end to the front, so the fields stand in ascending order.
\<close>

unbundle bit_operations_syntax

section \<open>Varints\<close>

definition ErrInvalidLength :: string where
  "ErrInvalidLength = ''proto: negative length found during unmarshaling''"

definition ErrIntOverflow :: string where
  "ErrIntOverflow = ''proto: integer overflow''"

definition ErrUnexpectedEndOfGroup :: string where
  "ErrUnexpectedEndOfGroup = ''proto: unexpected end of group''"

definition ErrUnexpectedEOF :: string where
  "ErrUnexpectedEOF = ''unexpected EOF''"

text \<open>The shift loop, at the width of the variable it fills.\<close>

fun varint_loop :: "nat \<Rightarrow> 'a :: len word \<Rightarrow> bytes \<Rightarrow> string + 'a word \<times> bytes" where
  "varint_loop shift acc [] = Inl (if shift \<ge> 64 then ErrIntOverflow else ErrUnexpectedEOF)"
| "varint_loop shift acc (b # bs) =
     (if shift \<ge> 64 then Inl ErrIntOverflow
      else
        let acc' = acc OR push_bit shift (ucast (b AND 0x7F)) in
        if b < 0x80 then Inr (acc', bs) else varint_loop (shift + 7) acc' bs)"

definition decode_varint :: "bytes \<Rightarrow> string + 'a :: len word \<times> bytes" where
  "decode_varint bs = varint_loop 0 0 bs"

function encodeVarint :: "uint64 \<Rightarrow> bytes" where
  "encodeVarint v =
     (if v \<ge> 128 then ucast (v AND 0x7F OR 0x80) # encodeVarint (drop_bit 7 v) else [ucast v])"
  by auto

lemma unat_drop_bit_7: "unat (drop_bit 7 v) = unat (v :: uint64) div 128"
  by (simp add: drop_bit_eq_div unat_div_distrib)

termination encodeVarint
proof (relation "measure unat")
  fix v :: uint64
  assume "128 \<le> v"
  then have "128 \<le> unat v" by (simp add: word_le_nat_alt)
  then show "(drop_bit 7 v, v) \<in> measure unat" by (simp add: unat_drop_bit_7)
qed simp

declare encodeVarint.simps [simp del]

text \<open>\<open>sov\<close>: the number of bytes of a varint, from the length in bits.\<close>

definition math_bits_Len64 :: "uint64 \<Rightarrow> nat" where
  "math_bits_Len64 x = nat_bitlen (unat x)"

definition sov :: "uint64 \<Rightarrow> nat" where
  "sov x = (math_bits_Len64 (x OR 1) + 6) div 7"

section \<open>Decoding a message\<close>

text \<open>Lengths are 64-bit signed integers; \<open>l\<close> is the length of the whole buffer, so that the index of the
  next byte is \<open>l - length bs\<close>. An addition that overflows gives a negative index.\<close>

definition int_add :: "int \<Rightarrow> int \<Rightarrow> int" where
  "int_add x y = sint (word_of_int (x + y) :: 64 word)"

definition decode_bytes :: "int \<Rightarrow> bytes \<Rightarrow> string + bytes \<times> bytes" where
  "decode_bytes l bs =
     (case decode_varint bs of
        Inl e \<Rightarrow> Inl e
      | Inr (n :: uint64, bs1) \<Rightarrow>
          let byteLen = sint n; iNdEx = l - int (length bs1); postIndex = int_add iNdEx byteLen in
          if byteLen < 0 then Inl ErrInvalidLength
          else if postIndex < 0 then Inl ErrInvalidLength
          else if postIndex > l then Inl ErrUnexpectedEOF
          else Inr (take (nat byteLen) bs1, drop (nat byteLen) bs1))"

text \<open>The cases of the switch over the field number, by the type of the field: integers of 64 and of 32
  bits, and the length-delimited ones, whose content may be a message that fails to decode.\<close>

datatype 'm pb_case =
    Varint64Field string "uint64 \<Rightarrow> 'm \<Rightarrow> 'm"
  | Varint32Field string "uint32 \<Rightarrow> 'm \<Rightarrow> 'm"
  | BytesField string "bytes \<Rightarrow> 'm \<Rightarrow> string + 'm"

definition wrong_wireType :: "string \<Rightarrow> string" where
  "wrong_wireType field = ''proto: wrong wireType for field '' @ field"

fun pb_field :: "'m pb_case \<Rightarrow> nat \<Rightarrow> int \<Rightarrow> bytes \<Rightarrow> 'm \<Rightarrow> string + 'm \<times> bytes" where
  "pb_field (Varint64Field name f) wireType l bs m =
     (if wireType \<noteq> 0 then Inl (wrong_wireType name)
      else case decode_varint bs of Inl e \<Rightarrow> Inl e | Inr (v, bs1) \<Rightarrow> Inr (f v m, bs1))"
| "pb_field (Varint32Field name f) wireType l bs m =
     (if wireType \<noteq> 0 then Inl (wrong_wireType name)
      else case decode_varint bs of Inl e \<Rightarrow> Inl e | Inr (v, bs1) \<Rightarrow> Inr (f v m, bs1))"
| "pb_field (BytesField name f) wireType l bs m =
     (if wireType \<noteq> 2 then Inl (wrong_wireType name)
      else case decode_bytes l bs of
             Inl e \<Rightarrow> Inl e
           | Inr (b, bs1) \<Rightarrow> (case f b m of Inl e \<Rightarrow> Inl e | Inr m' \<Rightarrow> Inr (m', bs1)))"

text \<open>One element of \<open>skip\<close>: the index after it, which may lie beyond the buffer, the bytes left and the
  nesting of groups.\<close>

definition skip_value :: "int \<Rightarrow> nat \<Rightarrow> bytes \<Rightarrow> nat \<Rightarrow> string + int \<times> bytes \<times> nat" where
  "skip_value l wireType bs depth =
     (let iNdEx = l - int (length bs) in
      if wireType = 0 then
        (case decode_varint bs of Inl e \<Rightarrow> Inl e | Inr (_ :: uint64, bs1) \<Rightarrow> Inr (l - int (length bs1), bs1, depth))
      else if wireType = 1 then Inr (int_add iNdEx 8, drop 8 bs, depth)
      else if wireType = 2 then
        (case decode_varint bs of
           Inl e \<Rightarrow> Inl e
         | Inr (n :: uint64, bs1) \<Rightarrow>
             if sint n < 0 then Inl ErrInvalidLength
             else Inr (int_add (l - int (length bs1)) (sint n), drop (nat (sint n)) bs1, depth))
      else if wireType = 3 then Inr (iNdEx, bs, depth + 1)
      else if wireType = 4 then (if depth = 0 then Inl ErrUnexpectedEndOfGroup else Inr (iNdEx, bs, depth - 1))
      else if wireType = 5 then Inr (int_add iNdEx 4, drop 4 bs, depth)
      else Inl ''proto: illegal wireType'')"

lemma varint_loop_shorter: "varint_loop shift acc bs = Inr (v, bs1) \<Longrightarrow> length bs1 < length bs"
  by (induction shift acc bs rule: varint_loop.induct) (force simp: Let_def split: if_splits)+

lemma decode_varint_shorter: "decode_varint bs = Inr (v, bs1) \<Longrightarrow> length bs1 < length bs"
  unfolding decode_varint_def by (rule varint_loop_shorter)

lemma skip_value_shorter: "skip_value l w bs d = Inr (i, bs1, d1) \<Longrightarrow> length bs1 \<le> length bs"
  by (auto simp: skip_value_def Let_def split: if_splits sum.splits dest!: decode_varint_shorter)

lemma decode_bytes_shorter: "decode_bytes l bs = Inr (b, bs1) \<Longrightarrow> length bs1 < length bs"
  by (auto simp: decode_bytes_def Let_def split: if_splits sum.splits dest!: decode_varint_shorter)

lemma pb_field_shorter: "pb_field f w l bs m = Inr (m', bs1) \<Longrightarrow> length bs1 < length bs"
  by (cases f) (auto split: if_splits sum.splits dest!: decode_varint_shorter decode_bytes_shorter)

function skip_loop :: "int \<Rightarrow> bytes \<Rightarrow> nat \<Rightarrow> string + int" where
  "skip_loop l bs depth =
     (if bs = [] then Inl ErrUnexpectedEOF
      else case decode_varint bs of
        Inl e \<Rightarrow> Inl e
      | Inr (wire :: uint64, bs1) \<Rightarrow>
          (case skip_value l (unat (wire AND 7)) bs1 depth of
             Inl e \<Rightarrow> Inl e
           | Inr (iNdEx, bs2, depth') \<Rightarrow>
               if iNdEx < 0 then Inl ErrInvalidLength
               else if depth' = 0 then Inr iNdEx
               else skip_loop l bs2 depth'))"
  by auto
termination skip_loop
  by (relation "measure (\<lambda>(l, bs, d). length bs)")
    (auto dest!: decode_varint_shorter skip_value_shorter)

declare skip_loop.simps [simp del]

definition pb_skip :: "bytes \<Rightarrow> string + int" where
  "pb_skip dAtA = skip_loop (int (length dAtA)) dAtA 0"

text \<open>The loop of \<open>Unmarshal\<close>. The last guard of the default case never fires on a slice, whose length is
  below \<open>2 ^ 63\<close> (\<open>pb_skip_pos\<close>): it makes the recursion total on longer lists.\<close>

function pb_loop :: "(int \<Rightarrow> 'm pb_case option) \<Rightarrow> int \<Rightarrow> bytes \<Rightarrow> 'm \<Rightarrow> string + 'm" where
  "pb_loop h l bs m =
     (if bs = [] then Inr m
      else case decode_varint bs of
        Inl e \<Rightarrow> Inl e
      | Inr (wire :: uint64, bs1) \<Rightarrow>
          let fieldNum = sint (ucast (drop_bit 3 wire) :: 32 word); wireType = unat (wire AND 7) in
          if wireType = 4 then Inl ''proto: wiretype end group for non-group''
          else if fieldNum \<le> 0 then Inl ''proto: illegal tag''
          else (case h fieldNum of
              Some f \<Rightarrow> (case pb_field f wireType l bs1 m of Inl e \<Rightarrow> Inl e | Inr (m', bs2) \<Rightarrow> pb_loop h l bs2 m')
            | None \<Rightarrow> (case pb_skip bs of
                Inl e \<Rightarrow> Inl e
              | Inr skippy \<Rightarrow>
                  let iNdEx = l - int (length bs) in
                  if skippy < 0 \<or> int_add iNdEx skippy < 0 then Inl ErrInvalidLength
                  else if int_add iNdEx skippy > l then Inl ErrUnexpectedEOF
                  else if skippy = 0 then Inl ErrUnexpectedEOF
                  else pb_loop h l (drop (nat skippy) bs) m)))"
  by auto
termination pb_loop
  by (relation "measure (\<lambda>(h, l, bs, m). length bs)")
    (auto dest!: decode_varint_shorter pb_field_shorter)

declare pb_loop.simps [simp del]

definition pb_unmarshal :: "(int \<Rightarrow> 'm pb_case option) \<Rightarrow> bytes \<Rightarrow> 'm \<Rightarrow> string + 'm" where
  "pb_unmarshal h dAtA m = pb_loop h (int (length dAtA)) dAtA m"

section \<open>Encoding a field\<close>

text \<open>A field with its default value is left out; an element of a repeated field is always written.\<close>

definition put_varint :: "byte \<Rightarrow> uint64 \<Rightarrow> bytes" where
  "put_varint tag v = (if v \<noteq> 0 then tag # encodeVarint v else [])"

definition put_elem :: "byte \<Rightarrow> bytes \<Rightarrow> bytes" where
  "put_elem tag b = tag # encodeVarint (word_of_nat (length b)) @ b"

definition put_bytes :: "byte \<Rightarrow> bytes \<Rightarrow> bytes" where
  "put_bytes tag b = (if length b > 0 then put_elem tag b else [])"

definition size_varint :: "uint64 \<Rightarrow> nat" where
  "size_varint v = (if v \<noteq> 0 then 1 + sov v else 0)"

definition size_elem :: "nat \<Rightarrow> nat" where
  "size_elem n = 1 + n + sov (word_of_nat n)"

definition size_bytes :: "nat \<Rightarrow> nat" where
  "size_bytes n = (if n > 0 then size_elem n else 0)"

section \<open>Lengths\<close>

lemma nat_bitlen_div: "nat_bitlen (n div 2 ^ k) = nat_bitlen n - k"
proof (rule le_antisym)
  have "n < 2 ^ (nat_bitlen n)" using nat_bitlen_le_iff [of n "nat_bitlen n"] by simp
  then have "n div 2 ^ k < 2 ^ (nat_bitlen n - k)"
    by (cases "k \<le> nat_bitlen n") (auto simp: less_mult_imp_div_less power_add [symmetric] div_eq_0_iff
        intro: less_le_trans power_increasing)
  then show "nat_bitlen (n div 2 ^ k) \<le> nat_bitlen n - k" by (simp add: nat_bitlen_le_iff)
  have "n div 2 ^ k < 2 ^ nat_bitlen (n div 2 ^ k)" using nat_bitlen_le_iff [of "n div 2 ^ k" "nat_bitlen (n div 2 ^ k)"] by simp
  then have "n < 2 ^ (nat_bitlen (n div 2 ^ k) + k)"
    by (simp add: power_add div_less_iff_less_mult)
  then have "nat_bitlen n \<le> nat_bitlen (n div 2 ^ k) + k" by (simp only: nat_bitlen_le_iff)
  then show "nat_bitlen n - k \<le> nat_bitlen (n div 2 ^ k)" by simp
qed

lemma unat_or_1: "unat (v OR 1 :: uint64) = (if even (unat v) then unat v + 1 else unat v)"
  unfolding unsigned_or_eq by (simp add: or_Suc_0_eq)

lemma nat_bitlen_or_1: "v \<noteq> 0 \<Longrightarrow> nat_bitlen (unat (v OR 1 :: uint64)) = nat_bitlen (unat v)"
proof -
  assume "v \<noteq> 0"
  have "unat (v OR 1) div 2 ^ 1 = unat v div 2 ^ 1" unfolding unat_or_1 by (auto elim!: evenE)
  then have "nat_bitlen (unat (v OR 1)) - 1 = nat_bitlen (unat v) - 1" by (metis nat_bitlen_div)
  moreover have "nat_bitlen (unat v) > 0" "nat_bitlen (unat (v OR 1)) > 0"
    using nat_bitlen_le_iff [of "unat v" 0] nat_bitlen_le_iff [of "unat (v OR 1)" 0] \<open>v \<noteq> 0\<close>
    by (auto simp: unat_or_1 unat_eq_zero simp del: nat_bitlen.simps)
  ultimately show ?thesis by simp
qed

lemma length_encodeVarint: "length (encodeVarint v) = sov v"
proof (induction v rule: encodeVarint.induct)
  case (1 v)
  show ?case
  proof (cases "128 \<le> v")
    case True
    then have big: "128 \<le> unat v" by (simp add: word_le_nat_alt)
    have "drop_bit 7 v \<noteq> 0" using big by (metis unat_drop_bit_7 unat_0 div_eq_0_iff not_le zero_neq_numeral)
    then have "nat_bitlen (unat (drop_bit 7 v OR 1)) = nat_bitlen (unat v) - 7"
      using nat_bitlen_or_1 [of "drop_bit 7 v"] nat_bitlen_div [of "unat v" 7] by (simp add: unat_drop_bit_7)
    moreover have "nat_bitlen (unat (v OR 1)) = nat_bitlen (unat v)" using big by (intro nat_bitlen_or_1) auto
    moreover have "nat_bitlen (unat v) \<ge> 8" using nat_bitlen_le_iff [of "unat v" 7] big by simp
    ultimately have "sov v = Suc (sov (drop_bit 7 v))" by (simp add: sov_def math_bits_Len64_def)
    with 1 [OF True] True show ?thesis by (subst encodeVarint.simps) simp
  next
    case False
    then have "unat (v OR 1) < 128" unfolding unat_or_1 by (auto simp: word_le_nat_alt elim: evenE)
    then have "nat_bitlen (unat (v OR 1)) \<le> 7" by (simp add: nat_bitlen_le_iff)
    moreover have "nat_bitlen (unat (v OR 1)) > 0" using nat_bitlen_le_iff [of "unat (v OR 1)" 0] by (auto simp: unat_or_1)
    ultimately have "sov v = 1" by (simp add: sov_def math_bits_Len64_def)
    with False show ?thesis by (subst encodeVarint.simps) simp
  qed
qed

lemma sov_le: "sov v \<le> 10"
proof -
  have "unat (v OR 1) < 2 ^ 64" using unsigned_less [of "v OR 1"] by simp
  then have "nat_bitlen (unat (v OR 1)) \<le> 64" by (simp only: nat_bitlen_le_iff)
  then show ?thesis by (simp add: sov_def math_bits_Len64_def)
qed

lemma length_put [simp]:
  "length (put_varint tag v) = size_varint v"
  "length (put_elem tag b) = size_elem (length b)"
  "length (put_bytes tag b) = size_bytes (length b)"
  by (simp_all add: put_varint_def put_elem_def put_bytes_def size_varint_def size_elem_def size_bytes_def length_encodeVarint)

section \<open>Round trips\<close>

lemma bit_128: "bit (0x80 :: uint64) n \<longleftrightarrow> n = 7" "bit (0x80 :: byte) n \<longleftrightarrow> n = 7"
proof -
  have "(0x80 :: uint64) = 2 ^ 7" "(0x80 :: byte) = 2 ^ 7" by simp_all
  then show "bit (0x80 :: uint64) n \<longleftrightarrow> n = 7" "bit (0x80 :: byte) n \<longleftrightarrow> n = 7"
    by (simp_all only: bit_exp_iff) auto
qed

lemma byte_chunk: "(ucast (v AND 0x7F OR 0x80 :: uint64) :: byte) AND 0x7F = ucast (v AND 0x7F)"
  "\<not> (ucast (v AND 0x7F OR 0x80 :: uint64) :: byte) < 0x80"
proof -
  have m: "(0x7F :: uint64) = mask 7" "(0x7F :: byte) = mask 7"
    by (simp_all add: mask_eq_exp_minus_1)
  let ?b = "ucast (v AND 0x7F OR 0x80 :: uint64) :: byte"
  show "?b AND 0x7F = ucast (v AND 0x7F)"
    unfolding m
  proof (rule bit_word_eqI)
    fix n assume "n < LENGTH(8)"
    have "bit (ucast (v AND mask 7 OR 128) :: byte) n \<longleftrightarrow> n < 8 \<and> bit (v AND mask 7 OR 128) n"
      by (simp only: bit_unsigned_iff) simp
    then show "bit ((ucast (v AND mask 7 OR 128) :: byte) AND mask 7) n = bit (ucast (v AND mask 7) :: byte) n"
      by (auto simp only: bit_and_iff bit_or_iff bit_mask_iff bit_unsigned_iff bit_128)
  qed
  have "bit ?b 7" by (simp add: bit_simps bit_128)
  then have "bit (unat ?b) 7" by (simp only: bit_unsigned_iff) simp
  then have "odd (unat ?b div 2 ^ 7)" unfolding bit_iff_odd .
  then have "128 \<le> unat ?b" by (cases "unat ?b < 128") simp_all
  then show "\<not> ?b < 0x80" by (simp add: word_less_nat_alt)
qed

lemma chunk_or: "((acc :: 'a :: len word) OR push_bit s (ucast (ucast ((v :: uint64) AND 0x7F) :: byte))) OR push_bit (s + 7) (ucast (drop_bit 7 v)) = acc OR push_bit s (ucast v)"
proof -
  have m: "(0x7F :: uint64) = mask 7" by (simp add: mask_eq_exp_minus_1)
  show ?thesis unfolding m
  proof (rule bit_word_eqI)
    fix n assume "n < LENGTH('a)"
    show "bit ((acc OR push_bit s (ucast (ucast (v AND mask 7) :: byte))) OR push_bit (s + 7) (ucast (drop_bit 7 v))) n =
      bit (acc OR push_bit s (ucast v)) n"
      using bit_imp_le_length [of v "n - s"] \<open>n < LENGTH('a)\<close>
      by (cases "n < s + 7") (auto simp: bit_simps)
  qed
qed

lemma varint_loop_encodeVarint:
  "shift < 64 \<Longrightarrow> unat v < 2 ^ (64 - shift) \<Longrightarrow>
     varint_loop shift acc (encodeVarint v @ rest) = Inr (acc OR push_bit shift (ucast v), rest)"
proof (induction v arbitrary: shift acc rule: encodeVarint.induct)
  case (1 v)
  show ?case
  proof (cases "128 \<le> v")
    case True
    then have big: "128 \<le> unat v" by (simp add: word_le_nat_alt)
    have "7 < 64 - shift"
    proof (rule ccontr)
      assume "\<not> 7 < 64 - shift"
      then have "(2 :: nat) ^ (64 - shift) \<le> 2 ^ 7" by (intro power_increasing) auto
      with 1(3) big show False by simp
    qed
    then have sh: "shift + 7 < 64" "64 - shift = 7 + (64 - (shift + 7))" by auto
    have "unat (drop_bit 7 v) < 2 ^ (64 - (shift + 7))"
      using 1(3) unfolding sh(2) power_add unat_drop_bit_7 by (simp add: less_mult_imp_div_less mult.commute)
    from 1(1) [OF True sh(1) this] True sh(1) byte_chunk show ?thesis
      by (subst encodeVarint.simps) (simp add: chunk_or)
  next
    case False
    then have small: "unat v < 128" by (simp add: word_le_nat_alt)
    have m: "(0x7F :: byte) = mask 7" by (simp add: mask_eq_exp_minus_1)
    have "unat (ucast v :: byte) = unat v" using small by (simp add: unsigned_ucast_eq take_bit_nat_eq_self)
    then have lt: "(ucast v :: byte) < 0x80" using small by (simp add: word_less_nat_alt)
    have "(ucast v :: byte) AND 0x7F = ucast v"
      using lt unfolding m take_bit_eq_mask [symmetric] word_less_nat_alt
      by (simp add: word_unat_eq_iff unsigned_take_bit_eq take_bit_nat_eq_self)
    moreover have "(ucast (ucast v :: byte) :: 'a word) = ucast v"
    proof -
      have "take_bit 7 v = v" using small by (simp add: word_unat_eq_iff unsigned_take_bit_eq take_bit_nat_eq_self)
      then have "n < 8" if "bit v n" for n using bit_take_bit_iff [of 7 v n] that by simp
      then show ?thesis by (intro bit_word_eqI) (auto simp: bit_unsigned_iff)
    qed
    ultimately show ?thesis using False lt 1(2) by (subst encodeVarint.simps) simp
  qed
qed

lemma decode_encode_varint [simp]: "decode_varint (encodeVarint v @ rest) = Inr (ucast v, rest)"
  using varint_loop_encodeVarint [of 0 v 0 rest] unsigned_less [of v, where 'a = nat] by (simp add: decode_varint_def)

lemma int_add_small: "0 \<le> x + y \<Longrightarrow> x + y < 2 ^ 63 \<Longrightarrow> int_add x y = x + y"
proof -
  have "sint (word_of_int z :: 64 word) = z" if "0 \<le> z" "z < 2 ^ 63" for z
    using that by (simp add: sint_sbintrunc' signed_take_bit_int_eq_self)
  then show "0 \<le> x + y \<Longrightarrow> x + y < 2 ^ 63 \<Longrightarrow> ?thesis" unfolding int_add_def by blast
qed

lemma decode_put_elem:
  assumes "l < 2 ^ 63" and "int (length b + length rest) \<le> l"
  shows "decode_bytes l (encodeVarint (word_of_nat (length b)) @ b @ rest) = Inr (b, rest)"
proof -
  have len: "sint (word_of_nat (length b) :: uint64) = int (length b)"
    using int_add_small [of "int (length b)" 0] assms unfolding int_add_def by simp
  moreover have "int_add (l - int (length (b @ rest))) (int (length b)) = l - int (length rest)"
    using assms by (subst int_add_small) auto
  ultimately show ?thesis using assms by (simp add: decode_bytes_def)
qed

text \<open>The tag of a field below 16 is the single byte \<open>8 * field + wireType\<close>.\<close>

lemma decode_tag:
  assumes "unat (tag :: byte) < 128"
  shows "decode_varint (tag # bs) = Inr (ucast tag :: uint64, bs)"
proof -
  have t: "unat (ucast tag :: uint64) = unat tag" using assms by (simp add: unsigned_ucast_eq take_bit_nat_eq_self)
  then have "encodeVarint (ucast tag) = [ucast (ucast tag :: uint64)]"
    using assms by (subst encodeVarint.simps) (simp add: word_le_nat_alt)
  moreover have "(ucast (ucast tag :: uint64) :: byte) = tag" by (intro bit_word_eqI) (auto simp: bit_unsigned_iff)
  ultimately show ?thesis using decode_encode_varint [of "ucast tag" bs, where 'a = 64] by simp
qed

lemma tag_parts:
  assumes "unat (tag :: byte) < 128"
  shows "sint (ucast (drop_bit 3 (ucast tag :: uint64)) :: 32 word) = int (unat tag div 8)"
    and "unat ((ucast tag :: uint64) AND 7) = unat tag mod 8"
proof -
  let ?t = "ucast tag :: uint64"
  have t: "unat ?t = unat tag" using assms by (simp add: unsigned_ucast_eq take_bit_nat_eq_self)
  have d: "unat (drop_bit 3 ?t) = unat tag div 8" using t by (simp add: drop_bit_eq_div unat_div_distrib)
  have "unat (ucast (drop_bit 3 ?t) :: 32 word) = unat tag div 8"
    using assms unfolding unsigned_ucast_eq d by (simp add: take_bit_nat_eq_self)
  then have "(ucast (drop_bit 3 ?t) :: 32 word) = word_of_nat (unat tag div 8)" 
    using assms by (simp add: word_unat_eq_iff unat_of_nat)
  then have "sint (ucast (drop_bit 3 ?t) :: 32 word) = sint (word_of_int (int (unat tag div 8)) :: 32 word)" by simp
  then show "sint (ucast (drop_bit 3 ?t) :: 32 word) = int (unat tag div 8)"
    unfolding sint_sbintrunc' using assms by (simp add: signed_take_bit_int_eq_self)
  have "(7 :: uint64) = mask 3" by (simp add: mask_eq_exp_minus_1)
  then have "?t AND 7 = take_bit 3 ?t" by (simp add: take_bit_eq_mask)
  then show "unat (?t AND 7) = unat tag mod 8" using t by (simp add: take_bit_eq_mod unat_mod_distrib)
qed

lemma pb_loop_Nil [simp]: "pb_loop h l [] m = Inr m"
  by (simp add: pb_loop.simps)

lemma pb_loop_field:
  assumes "unat tag < 128" and "0 < unat tag div 8" and "unat tag mod 8 \<noteq> 4" and "h (int (unat tag div 8)) = Some f"
    and "pb_field f (unat tag mod 8) l bs m = Inr (m', rest)"
  shows "pb_loop h l (tag # bs) m = pb_loop h l rest m'"
  using assms(2-5) unfolding pb_loop.simps [of h l "tag # bs" m] decode_tag [OF assms(1)]
  by (simp add: tag_parts [OF assms(1)])

text \<open>A field that the encoder leaves out keeps the default value it has before.\<close>

lemma pb_loop_put_varint:
  assumes "unat tag < 128" and "0 < unat tag div 8" and "unat tag mod 8 = 0"
    and "h (int (unat tag div 8)) = Some (Varint64Field name f)" and "f 0 m = m"
  shows "pb_loop h l (put_varint tag v @ rest) m = pb_loop h l rest (f v m)"
  using pb_loop_field [of tag h, OF assms(1,2) _ assms(4), of l "encodeVarint v @ rest" m "f v m" rest] assms(3,5)
  by (simp add: put_varint_def)

lemma pb_loop_put_varint32:
  assumes "unat tag < 128" and "0 < unat tag div 8" and "unat tag mod 8 = 0"
    and "h (int (unat tag div 8)) = Some (Varint32Field name f)" and "f 0 m = m"
  shows "pb_loop h l (put_varint tag (ucast (v :: uint32)) @ rest) m = pb_loop h l rest (f v m)"
proof -
  have v: "(ucast (ucast v :: uint64) :: uint32) = v" by (intro bit_word_eqI) (auto simp: bit_unsigned_iff)
  then have "(ucast v :: uint64) = 0 \<longleftrightarrow> v = 0" by (metis unsigned_0)
  with pb_loop_field [of tag h, OF assms(1,2) _ assms(4), of l "encodeVarint (ucast v) @ rest" m "f v m" rest] assms(3,5) v show ?thesis
    by (simp add: put_varint_def)
qed

lemma pb_loop_put_elem :
  assumes "unat tag < 128" and "0 < unat tag div 8" and "unat tag mod 8 = 2"
    and "h (int (unat tag div 8)) = Some (BytesField name f)"
    and "l < 2 ^ 63" and "int (length (put_elem tag b @ rest)) \<le> l" and "f b m = Inr m'"
  shows "pb_loop h l (put_elem tag b @ rest) m = pb_loop h l rest m'"
proof -
  have "int (length b + length rest) \<le> l" using assms(6) by (simp add: size_elem_def)
  from pb_loop_field [of tag h, OF assms(1,2) _ assms(4), of l "encodeVarint (word_of_nat (length b)) @ b @ rest" m m' rest]
    decode_put_elem [OF assms(5) this] assms(3,7) show ?thesis
    by (simp add: put_elem_def)
qed

lemma pb_loop_put_bytes:
  assumes "unat tag < 128" and "0 < unat tag div 8" and "unat tag mod 8 = 2"
    and "h (int (unat tag div 8)) = Some (BytesField name f)"
    and "l < 2 ^ 63" and "int (length (put_bytes tag b @ rest)) \<le> l" and "f b m = Inr (g b)" and "g [] = m"
  shows "pb_loop h l (put_bytes tag b @ rest) m = pb_loop h l rest (g b)"
  using pb_loop_put_elem [of tag h, OF assms(1-5), of b rest m "g b"] assms(6-8)
  by (cases "b = []") (simp_all add: put_bytes_def size_bytes_def)

lemma pb_loop_put_elems:
  assumes "unat tag < 128" and "0 < unat tag div 8" and "unat tag mod 8 = 2"
    and "h (int (unat tag div 8)) = Some (BytesField name f)" and "l < 2 ^ 63"
    and step: "\<And>xs x ys. as = xs @ x # ys \<Longrightarrow> f (g x) (upd xs) = Inr (upd (xs @ [x]))"
  shows "xs @ ys = as \<Longrightarrow> int (length (concat (map (\<lambda>x. put_elem tag (g x)) ys) @ rest)) \<le> l \<Longrightarrow>
    pb_loop h l (concat (map (\<lambda>x. put_elem tag (g x)) ys) @ rest) (upd xs) = pb_loop h l rest (upd as)"
proof (induction ys arbitrary: xs)
  case (Cons y ys)
  have "f (g y) (upd xs) = Inr (upd (xs @ [y]))" using step [of xs y ys] Cons.prems(1) by simp
  from pb_loop_put_elem [of tag h, OF assms(1-5), of "g y" "concat (map (\<lambda>x. put_elem tag (g x)) ys) @ rest", OF _ this] Cons.prems(2)
  have "pb_loop h l (put_elem tag (g y) @ concat (map (\<lambda>x. put_elem tag (g x)) ys) @ rest) (upd xs) =
    pb_loop h l (concat (map (\<lambda>x. put_elem tag (g x)) ys) @ rest) (upd (xs @ [y]))" by simp
  moreover have "\<dots> = pb_loop h l rest (upd as)" using Cons.IH [of "xs @ [y]"] Cons.prems by simp
  ultimately show ?case by simp
qed simp

lemma pb_loop_put_list:
  assumes "unat tag < 128" and "0 < unat tag div 8" and "unat tag mod 8 = 2"
    and "h (int (unat tag div 8)) = Some (BytesField name f)" and "l < 2 ^ 63"
    and "\<And>xs x ys. as = xs @ x # ys \<Longrightarrow> f (g x) (upd xs) = Inr (upd (xs @ [x]))" and "upd [] = m"
    and "int (length (concat (map (\<lambda>x. put_elem tag (g x)) as) @ rest)) \<le> l"
  shows "pb_loop h l (concat (map (\<lambda>x. put_elem tag (g x)) as) @ rest) m = pb_loop h l rest (upd as)"
  using pb_loop_put_elems [of tag h name f l as g upd "[]" as rest] assms by simp

section \<open>Unknown fields\<close>

lemma int_add_nonzero: "0 < x + y \<Longrightarrow> x + y < 2 ^ 64 \<Longrightarrow> int_add x y \<noteq> 0"
proof
  assume "0 < x + y" "x + y < 2 ^ 64" "int_add x y = 0"
  then have "(word_of_int (x + y) :: 64 word) = 0" unfolding int_add_def by (metis signed_word_eqI signed_0)
  then have "uint (word_of_int (x + y) :: 64 word) = 0" by simp
  then show False using \<open>0 < x + y\<close> \<open>x + y < 2 ^ 64\<close> unfolding uint_word_of_int by simp
qed

lemma skip_value_nonzero:
  assumes "skip_value l w bs d = Inr (i, bs1, d1)" and "int (length bs) < l" and "l < 2 ^ 63"
  shows "i \<noteq> 0"
proof -
  have bound: "sint (n :: uint64) < 2 ^ 63" for n using sint_less [of n] by simp
  have "int_add (l - int (length bs')) (sint n) \<noteq> 0" if "length bs' < length bs" "0 \<le> sint n" for n :: uint64 and bs' :: bytes
  proof (rule int_add_nonzero)
    have "l - int (length bs') + sint n < 2 ^ 63 + 2 ^ 63" using assms(3) bound [of n] by (intro add_strict_mono) auto
    then show "l - int (length bs') + sint n < 2 ^ 64" by simp
  qed (use that assms(2) in auto)
  then show ?thesis
    using assms int_add_nonzero [of "l - int (length bs)" 8] int_add_nonzero [of "l - int (length bs)" 4]
    by (auto simp: skip_value_def Let_def split: if_splits sum.splits dest!: decode_varint_shorter)
qed

lemma skip_loop_nonzero: "skip_loop l bs d = Inr i \<Longrightarrow> int (length bs) \<le> l \<Longrightarrow> l < 2 ^ 63 \<Longrightarrow> i > 0"
proof (induction l bs d rule: skip_loop.induct)
  case (1 l bs d)
  from 1(2) obtain wire :: uint64 and bs1 where w: "bs \<noteq> []" "decode_varint bs = Inr (wire, bs1)"
    by (subst (asm) skip_loop.simps) (auto split: if_splits sum.splits)
  from w 1(2) obtain j bs2 d2 where v: "skip_value l (unat (wire AND 7)) bs1 d = Inr (j, bs2, d2)" "\<not> j < 0"
      "if d2 = 0 then i = j else skip_loop l bs2 d2 = Inr i"
    by (subst (asm) skip_loop.simps) (auto split: if_splits sum.splits)
  have len: "length bs1 < length bs" "length bs2 \<le> length bs1"
    using decode_varint_shorter [OF w(2)] skip_value_shorter [OF v(1)] .
  show ?case
  proof (cases "d2 = 0")
    case True
    then show ?thesis using skip_value_nonzero [OF v(1)] v(2,3) len 1(3,4) by simp
  next
    case False
    then show ?thesis using 1(1) [OF w(1,2) refl v(1) refl refl v(2)] v(3) len 1(3,4) by simp
  qed
qed

lemma pb_skip_pos: "pb_skip bs = Inr i \<Longrightarrow> length bs < 2 ^ 63 \<Longrightarrow> i > 0"
  unfolding pb_skip_def by (erule skip_loop_nonzero) auto

lemma unknown_skip:
  assumes "unat (tag :: byte) < 128" and "length (tag # encodeVarint v @ rest) < 2 ^ 63"
  shows "unat tag mod 8 = 0 \<Longrightarrow> pb_skip (tag # encodeVarint v @ rest) = Inr (int (1 + length (encodeVarint v)))"
  by (simp add: pb_skip_def skip_loop.simps [of _ "tag # encodeVarint v @ rest"] decode_tag [OF assms(1)] tag_parts [OF assms(1)]
      skip_value_def)

lemma pb_loop_unknown_varint:
  assumes "unat tag < 128" and "0 < unat tag div 8" and "unat tag mod 8 = 0" and "h (int (unat tag div 8)) = None"
    and "l < 2 ^ 63" and "int (length (tag # encodeVarint v @ rest)) \<le> l"
  shows "pb_loop h l (tag # encodeVarint v @ rest) m = pb_loop h l rest m"
proof -
  have skip: "pb_skip (tag # encodeVarint v @ rest) = Inr (int (1 + length (encodeVarint v)))"
    using unknown_skip [OF assms(1)] assms(3,5,6) by simp
  have "int_add (l - int (length (tag # encodeVarint v @ rest))) (int (1 + length (encodeVarint v))) = l - int (length rest)"
    using assms(5,6) by (subst int_add_small) auto
  then show ?thesis
    using assms(2-6) skip unfolding pb_loop.simps [of h l "tag # encodeVarint v @ rest" m] decode_tag [OF assms(1)]
    by (simp add: tag_parts [OF assms(1)] nat_add_distrib)
qed

lemma pb_loop_skip:
  assumes "unat tag < 128" and "0 < unat tag div 8" and "unat tag mod 8 \<noteq> 4" and "h (int (unat tag div 8)) = None"
    and "l < 2 ^ 63" and "int (length (tag # bs @ rest)) \<le> l" and "pb_skip (tag # bs @ rest) = Inr (int (1 + length bs))"
  shows "pb_loop h l (tag # bs @ rest) m = pb_loop h l rest m"
proof -
  have "int_add (l - int (length (tag # bs @ rest))) (int (1 + length bs)) = l - int (length rest)"
    using assms(5,6) by (subst int_add_small) auto
  then show ?thesis
    using assms(2-7) unfolding pb_loop.simps [of h l "tag # bs @ rest" m] decode_tag [OF assms(1)]
    by (simp add: tag_parts [OF assms(1)] nat_add_distrib)
qed

lemma pb_loop_unknown_elem:
  assumes "unat tag < 128" and "0 < unat tag div 8" and "unat tag mod 8 = 2" and "h (int (unat tag div 8)) = None"
    and "l < 2 ^ 63" and "int (length (put_elem tag b @ rest)) \<le> l"
  shows "pb_loop h l (put_elem tag b @ rest) m = pb_loop h l rest m"
proof -
  let ?n = "word_of_nat (length b) :: uint64"
  have len: "length b < 2 ^ 63" using assms(5,6) by (simp add: size_elem_def)
  then have n: "sint ?n = int (length b)" using int_add_small [of "int (length b)" 0] unfolding int_add_def by simp
  have "int_add (int (length (encodeVarint ?n)) + 1) (int (length b)) = int (length (encodeVarint ?n)) + 1 + int (length b)"
    using assms(5,6) by (intro int_add_small) (simp_all add: size_elem_def length_encodeVarint)
  then have "pb_skip (tag # (encodeVarint ?n @ b) @ rest) = Inr (int (1 + length (encodeVarint ?n @ b)))"
    by (simp add: pb_skip_def skip_loop.simps [of _ "tag # encodeVarint ?n @ b @ rest"] decode_tag [OF assms(1)] tag_parts [OF assms(1)]
        skip_value_def assms(3) n add.commute)
  with pb_loop_skip [of tag h l "encodeVarint ?n @ b" rest m] assms show ?thesis by (simp add: put_elem_def size_elem_def length_encodeVarint)
qed

lemma pb_loop_wrong_wireType:
  assumes "unat tag < 128" and "0 < unat tag div 8" and "unat tag mod 8 = 2" and "h (int (unat tag div 8)) = Some (Varint64Field name f)"
  shows "pb_loop h l (put_elem tag b @ rest) m = Inl (wrong_wireType name)"
  using assms unfolding put_elem_def append_Cons pb_loop.simps [of h l "tag # _" m] decode_tag [OF assms(1)]
  by (simp add: tag_parts [OF assms(1)])

end
