(* ===== verification/Pb_Receipt.thy ===== *)
theory Pb_Receipt
  imports Pb_Codec Evm_Keys Evm_Log
begin

text \<open>
  \<open>x/evm/types/receipt.pb.go\<close>: the messages \<open>Log\<close> and \<open>Receipt\<close> and their encoding. There is one definition
  per case of the switch of each \<open>Unmarshal\<close>, in the order of the fields. Decoding what was encoded gives
  the message back, and \<open>Size\<close> is the exact length of the buffer that \<open>Marshal\<close> fills.
\<close>

section \<open>The interface of an encoded message\<close>

locale pb_message =
  fixes marshal :: "'m \<Rightarrow> bytes" and msg_size :: "'m \<Rightarrow> nat" and unmarshal :: "bytes \<Rightarrow> 'm \<Rightarrow> string + 'm" and zero :: 'm
  assumes length_marshal: "length (marshal m) = msg_size m"
    and unmarshal_marshal: "msg_size m < 2 ^ 63 \<Longrightarrow> unmarshal (marshal m) zero = Inr m"
begin

lemma marshal_inject:
  "msg_size m < 2 ^ 63 \<Longrightarrow> marshal m = marshal m' \<Longrightarrow> m = m'"
  by (metis length_marshal unmarshal_marshal sum.inject(2))

end

section \<open>Log\<close>

definition Log_zero :: evm_Log where
  "Log_zero = \<lparr>log_Address = '''', log_Topics = [], log_Data = [], log_Index = 0, log_Synthetic = False\<rparr>"

definition Log_Marshal :: "evm_Log \<Rightarrow> bytes" where
  "Log_Marshal m =
     put_bytes 0x0A (str_bytes (log_Address m)) @
     concat (map (\<lambda>s. put_elem 0x12 (str_bytes s)) (log_Topics m)) @
     put_bytes 0x1A (log_Data m) @
     put_varint 0x20 (ucast (log_Index m)) @
     (if log_Synthetic m then [0x28, 1] else [])"

definition Log_Size :: "evm_Log \<Rightarrow> nat" where
  "Log_Size m =
     size_bytes (length (log_Address m)) +
     sum_list (map (\<lambda>s. size_elem (length s)) (log_Topics m)) +
     size_bytes (length (log_Data m)) +
     size_varint (ucast (log_Index m)) +
     (if log_Synthetic m then 2 else 0)"

definition Log_Address_case :: "evm_Log pb_case" where
  "Log_Address_case = BytesField ''Address'' (\<lambda>b m. Inr (m\<lparr>log_Address := bytes_str b\<rparr>))"

definition Log_Topics_case :: "evm_Log pb_case" where
  "Log_Topics_case = BytesField ''Topics'' (\<lambda>b m. Inr (m\<lparr>log_Topics := log_Topics m @ [bytes_str b]\<rparr>))"

definition Log_Data_case :: "evm_Log pb_case" where
  "Log_Data_case = BytesField ''Data'' (\<lambda>b m. Inr (m\<lparr>log_Data := b\<rparr>))"

definition Log_Index_case :: "evm_Log pb_case" where
  "Log_Index_case = Varint32Field ''Index'' (\<lambda>v m. m\<lparr>log_Index := v\<rparr>)"

definition Log_Synthetic_case :: "evm_Log pb_case" where
  "Log_Synthetic_case = Varint64Field ''Synthetic'' (\<lambda>v m. m\<lparr>log_Synthetic := (v \<noteq> 0)\<rparr>)"

definition Log_field :: "int \<Rightarrow> evm_Log pb_case option" where
  "Log_field n =
     (if n = 1 then Some Log_Address_case else if n = 2 then Some Log_Topics_case else if n = 3 then Some Log_Data_case
      else if n = 4 then Some Log_Index_case else if n = 5 then Some Log_Synthetic_case else None)"

definition Log_Unmarshal :: "bytes \<Rightarrow> evm_Log \<Rightarrow> string + evm_Log" where
  "Log_Unmarshal dAtA m = pb_unmarshal Log_field dAtA m"

section \<open>Receipt\<close>

record Receipt =
  rc_TxType :: uint32
  rc_CumulativeGasUsed :: uint64
  rc_ContractAddress :: string
  rc_TxHashHex :: string
  rc_GasUsed :: uint64
  rc_EffectiveGasPrice :: uint64
  rc_BlockNumber :: uint64
  rc_TransactionIndex :: uint32
  rc_Status :: uint32
  rc_From :: string
  rc_To :: string
  rc_VmError :: string
  rc_Logs :: "evm_Log list"
  rc_LogsBloom :: bytes

definition Receipt_zero :: Receipt where
  "Receipt_zero = \<lparr>
     rc_TxType = 0, rc_CumulativeGasUsed = 0, rc_ContractAddress = '''', rc_TxHashHex = '''', rc_GasUsed = 0,
     rc_EffectiveGasPrice = 0, rc_BlockNumber = 0, rc_TransactionIndex = 0, rc_Status = 0, rc_From = '''', rc_To = '''',
     rc_VmError = '''', rc_Logs = [], rc_LogsBloom = []\<rparr>"

definition Receipt_Marshal :: "Receipt \<Rightarrow> bytes" where
  "Receipt_Marshal m =
     put_varint 0x08 (ucast (rc_TxType m)) @
     put_varint 0x10 (rc_CumulativeGasUsed m) @
     put_bytes 0x1A (str_bytes (rc_ContractAddress m)) @
     put_bytes 0x22 (str_bytes (rc_TxHashHex m)) @
     put_varint 0x28 (rc_GasUsed m) @
     put_varint 0x30 (rc_EffectiveGasPrice m) @
     put_varint 0x38 (rc_BlockNumber m) @
     put_varint 0x40 (ucast (rc_TransactionIndex m)) @
     put_varint 0x48 (ucast (rc_Status m)) @
     put_bytes 0x52 (str_bytes (rc_From m)) @
     put_bytes 0x5A (str_bytes (rc_To m)) @
     put_bytes 0x62 (str_bytes (rc_VmError m)) @
     concat (map (\<lambda>e. put_elem 0x6A (Log_Marshal e)) (rc_Logs m)) @
     put_bytes 0x72 (rc_LogsBloom m)"

definition Receipt_Size :: "Receipt \<Rightarrow> nat" where
  "Receipt_Size m =
     size_varint (ucast (rc_TxType m)) +
     size_varint (rc_CumulativeGasUsed m) +
     size_bytes (length (rc_ContractAddress m)) +
     size_bytes (length (rc_TxHashHex m)) +
     size_varint (rc_GasUsed m) +
     size_varint (rc_EffectiveGasPrice m) +
     size_varint (rc_BlockNumber m) +
     size_varint (ucast (rc_TransactionIndex m)) +
     size_varint (ucast (rc_Status m)) +
     size_bytes (length (rc_From m)) +
     size_bytes (length (rc_To m)) +
     size_bytes (length (rc_VmError m)) +
     sum_list (map (\<lambda>e. size_elem (Log_Size e)) (rc_Logs m)) +
     size_bytes (length (rc_LogsBloom m))"

definition Receipt_TxType_case :: "Receipt pb_case" where
  "Receipt_TxType_case = Varint32Field ''TxType'' (\<lambda>v m. m\<lparr>rc_TxType := v\<rparr>)"

definition Receipt_CumulativeGasUsed_case :: "Receipt pb_case" where
  "Receipt_CumulativeGasUsed_case = Varint64Field ''CumulativeGasUsed'' (\<lambda>v m. m\<lparr>rc_CumulativeGasUsed := v\<rparr>)"

definition Receipt_ContractAddress_case :: "Receipt pb_case" where
  "Receipt_ContractAddress_case = BytesField ''ContractAddress'' (\<lambda>b m. Inr (m\<lparr>rc_ContractAddress := bytes_str b\<rparr>))"

definition Receipt_TxHashHex_case :: "Receipt pb_case" where
  "Receipt_TxHashHex_case = BytesField ''TxHashHex'' (\<lambda>b m. Inr (m\<lparr>rc_TxHashHex := bytes_str b\<rparr>))"

definition Receipt_GasUsed_case :: "Receipt pb_case" where
  "Receipt_GasUsed_case = Varint64Field ''GasUsed'' (\<lambda>v m. m\<lparr>rc_GasUsed := v\<rparr>)"

definition Receipt_EffectiveGasPrice_case :: "Receipt pb_case" where
  "Receipt_EffectiveGasPrice_case = Varint64Field ''EffectiveGasPrice'' (\<lambda>v m. m\<lparr>rc_EffectiveGasPrice := v\<rparr>)"

definition Receipt_BlockNumber_case :: "Receipt pb_case" where
  "Receipt_BlockNumber_case = Varint64Field ''BlockNumber'' (\<lambda>v m. m\<lparr>rc_BlockNumber := v\<rparr>)"

definition Receipt_TransactionIndex_case :: "Receipt pb_case" where
  "Receipt_TransactionIndex_case = Varint32Field ''TransactionIndex'' (\<lambda>v m. m\<lparr>rc_TransactionIndex := v\<rparr>)"

definition Receipt_Status_case :: "Receipt pb_case" where
  "Receipt_Status_case = Varint32Field ''Status'' (\<lambda>v m. m\<lparr>rc_Status := v\<rparr>)"

definition Receipt_From_case :: "Receipt pb_case" where
  "Receipt_From_case = BytesField ''From'' (\<lambda>b m. Inr (m\<lparr>rc_From := bytes_str b\<rparr>))"

definition Receipt_To_case :: "Receipt pb_case" where
  "Receipt_To_case = BytesField ''To'' (\<lambda>b m. Inr (m\<lparr>rc_To := bytes_str b\<rparr>))"

definition Receipt_VmError_case :: "Receipt pb_case" where
  "Receipt_VmError_case = BytesField ''VmError'' (\<lambda>b m. Inr (m\<lparr>rc_VmError := bytes_str b\<rparr>))"

definition Receipt_Logs_case :: "Receipt pb_case" where
  "Receipt_Logs_case = BytesField ''Logs'' (\<lambda>b m.
     case Log_Unmarshal b Log_zero of Inl e \<Rightarrow> Inl e | Inr lg \<Rightarrow> Inr (m\<lparr>rc_Logs := rc_Logs m @ [lg]\<rparr>))"

definition Receipt_LogsBloom_case :: "Receipt pb_case" where
  "Receipt_LogsBloom_case = BytesField ''LogsBloom'' (\<lambda>b m. Inr (m\<lparr>rc_LogsBloom := b\<rparr>))"

definition Receipt_field :: "int \<Rightarrow> Receipt pb_case option" where
  "Receipt_field n =
     (if n = 1 then Some Receipt_TxType_case
      else if n = 2 then Some Receipt_CumulativeGasUsed_case
      else if n = 3 then Some Receipt_ContractAddress_case
      else if n = 4 then Some Receipt_TxHashHex_case
      else if n = 5 then Some Receipt_GasUsed_case
      else if n = 6 then Some Receipt_EffectiveGasPrice_case
      else if n = 7 then Some Receipt_BlockNumber_case
      else if n = 8 then Some Receipt_TransactionIndex_case
      else if n = 9 then Some Receipt_Status_case
      else if n = 10 then Some Receipt_From_case
      else if n = 11 then Some Receipt_To_case
      else if n = 12 then Some Receipt_VmError_case
      else if n = 13 then Some Receipt_Logs_case
      else if n = 14 then Some Receipt_LogsBloom_case
      else None)"

definition Receipt_Unmarshal :: "bytes \<Rightarrow> Receipt \<Rightarrow> string + Receipt" where
  "Receipt_Unmarshal dAtA m = pb_unmarshal Receipt_field dAtA m"

section \<open>Round trips\<close>

lemma length_concat_put_elem: "length (concat (map (\<lambda>x. put_elem t (g x)) xs)) = sum_list (map (\<lambda>x. size_elem (length (g x))) xs)"
  by (induction xs) simp_all

lemma length_str_bytes [simp]: "length (str_bytes s) = length s"
  by (simp add: str_bytes_def)

lemma bytes_str_Nil [simp]: "bytes_str [] = []"
  by (simp add: bytes_str_def)

lemma length_Log_Marshal [simp]: "length (Log_Marshal m) = Log_Size m"
  by (simp add: Log_Marshal_def Log_Size_def length_concat_put_elem)

lemma length_Receipt_Marshal [simp]: "length (Receipt_Marshal m) = Receipt_Size m"
  by (simp add: Receipt_Marshal_def Receipt_Size_def length_concat_put_elem)

lemma Log_steps:
  "l < 2 ^ 63 \<Longrightarrow> int (length (put_bytes 0x0A (str_bytes s) @ r)) \<le> l \<Longrightarrow> log_Address m = [] \<Longrightarrow>
     pb_loop Log_field l (put_bytes 0x0A (str_bytes s) @ r) m = pb_loop Log_field l r (m\<lparr>log_Address := s\<rparr>)"
  "l < 2 ^ 63 \<Longrightarrow> int (length (concat (map (\<lambda>s. put_elem 0x12 (str_bytes s)) ts) @ r)) \<le> l \<Longrightarrow> log_Topics m = [] \<Longrightarrow>
     pb_loop Log_field l (concat (map (\<lambda>s. put_elem 0x12 (str_bytes s)) ts) @ r) m = pb_loop Log_field l r (m\<lparr>log_Topics := ts\<rparr>)"
  "l < 2 ^ 63 \<Longrightarrow> int (length (put_bytes 0x1A b @ r)) \<le> l \<Longrightarrow> log_Data m = [] \<Longrightarrow>
     pb_loop Log_field l (put_bytes 0x1A b @ r) m = pb_loop Log_field l r (m\<lparr>log_Data := b\<rparr>)"
  "log_Index m = 0 \<Longrightarrow>
     pb_loop Log_field l (put_varint 0x20 (ucast v) @ r) m = pb_loop Log_field l r (m\<lparr>log_Index := v\<rparr>)"
  subgoal by (subst pb_loop_put_bytes [where g = "\<lambda>b. m\<lparr>log_Address := bytes_str b\<rparr>" and f = "\<lambda>b m. Inr (m\<lparr>log_Address := bytes_str b\<rparr>)"])
      (simp_all add: Log_field_def Log_Address_case_def)
  subgoal by (rule pb_loop_put_list [where f = "\<lambda>b m. Inr (m\<lparr>log_Topics := log_Topics m @ [bytes_str b]\<rparr>)"])
      (simp_all add: Log_field_def Log_Topics_case_def)
  subgoal by (subst pb_loop_put_bytes [where g = "\<lambda>b. m\<lparr>log_Data := b\<rparr>" and f = "\<lambda>b m. Inr (m\<lparr>log_Data := b\<rparr>)"]) (simp_all add: Log_field_def Log_Data_case_def)
  subgoal by (subst pb_loop_put_varint32) (simp_all add: Log_field_def Log_Index_case_def)
  done

lemma encodeVarint_1: "encodeVarint 1 = [1]"
  by (subst encodeVarint.simps) (simp add: word_le_nat_alt)

lemma Log_step_Synthetic:
  "log_Synthetic m = False \<Longrightarrow>
     pb_loop Log_field l ((if x then [0x28, 1] else []) @ r) m = pb_loop Log_field l r (m\<lparr>log_Synthetic := x\<rparr>)"
  using pb_loop_put_varint [of "0x28" Log_field "''Synthetic''" "\<lambda>v m. m\<lparr>log_Synthetic := (v \<noteq> 0)\<rparr>" m l "if x then 1 else 0" r]
  by (simp add: Log_field_def Log_Synthetic_case_def put_varint_def encodeVarint_1 split: if_splits)

lemma Log_Unmarshal_Marshal: "Log_Size m < 2 ^ 63 \<Longrightarrow> Log_Unmarshal (Log_Marshal m) Log_zero = Inr m"
proof -
  assume size: "Log_Size m < 2 ^ 63"
  have "pb_loop Log_field (int (Log_Size m)) (Log_Marshal m @ []) Log_zero = Inr m"
    using size unfolding Log_Marshal_def append_assoc
    by (simp add: Log_steps Log_step_Synthetic length_concat_put_elem Log_Size_def Log_zero_def
        del: append_Nil2)
  then show ?thesis by (simp add: Log_Unmarshal_def pb_unmarshal_def)
qed

interpretation log_pb: pb_message Log_Marshal Log_Size Log_Unmarshal Log_zero
  by unfold_locales (simp_all add: Log_Unmarshal_Marshal)

lemma Receipt_steps:
  "rc_TxType m = 0 \<Longrightarrow>
     pb_loop Receipt_field l (put_varint 0x08 (ucast w) @ r) m = pb_loop Receipt_field l r (m\<lparr>rc_TxType := w\<rparr>)"
  "rc_CumulativeGasUsed m = 0 \<Longrightarrow>
     pb_loop Receipt_field l (put_varint 0x10 v @ r) m = pb_loop Receipt_field l r (m\<lparr>rc_CumulativeGasUsed := v\<rparr>)"
  "l < 2 ^ 63 \<Longrightarrow> int (length (put_bytes 0x1A (str_bytes s) @ r)) \<le> l \<Longrightarrow> rc_ContractAddress m = [] \<Longrightarrow>
     pb_loop Receipt_field l (put_bytes 0x1A (str_bytes s) @ r) m = pb_loop Receipt_field l r (m\<lparr>rc_ContractAddress := s\<rparr>)"
  "l < 2 ^ 63 \<Longrightarrow> int (length (put_bytes 0x22 (str_bytes s) @ r)) \<le> l \<Longrightarrow> rc_TxHashHex m = [] \<Longrightarrow>
     pb_loop Receipt_field l (put_bytes 0x22 (str_bytes s) @ r) m = pb_loop Receipt_field l r (m\<lparr>rc_TxHashHex := s\<rparr>)"
  "rc_GasUsed m = 0 \<Longrightarrow>
     pb_loop Receipt_field l (put_varint 0x28 v @ r) m = pb_loop Receipt_field l r (m\<lparr>rc_GasUsed := v\<rparr>)"
  "rc_EffectiveGasPrice m = 0 \<Longrightarrow>
     pb_loop Receipt_field l (put_varint 0x30 v @ r) m = pb_loop Receipt_field l r (m\<lparr>rc_EffectiveGasPrice := v\<rparr>)"
  "rc_BlockNumber m = 0 \<Longrightarrow>
     pb_loop Receipt_field l (put_varint 0x38 v @ r) m = pb_loop Receipt_field l r (m\<lparr>rc_BlockNumber := v\<rparr>)"
  "rc_TransactionIndex m = 0 \<Longrightarrow>
     pb_loop Receipt_field l (put_varint 0x40 (ucast w) @ r) m = pb_loop Receipt_field l r (m\<lparr>rc_TransactionIndex := w\<rparr>)"
  "rc_Status m = 0 \<Longrightarrow>
     pb_loop Receipt_field l (put_varint 0x48 (ucast w) @ r) m = pb_loop Receipt_field l r (m\<lparr>rc_Status := w\<rparr>)"
  "l < 2 ^ 63 \<Longrightarrow> int (length (put_bytes 0x52 (str_bytes s) @ r)) \<le> l \<Longrightarrow> rc_From m = [] \<Longrightarrow>
     pb_loop Receipt_field l (put_bytes 0x52 (str_bytes s) @ r) m = pb_loop Receipt_field l r (m\<lparr>rc_From := s\<rparr>)"
  "l < 2 ^ 63 \<Longrightarrow> int (length (put_bytes 0x5A (str_bytes s) @ r)) \<le> l \<Longrightarrow> rc_To m = [] \<Longrightarrow>
     pb_loop Receipt_field l (put_bytes 0x5A (str_bytes s) @ r) m = pb_loop Receipt_field l r (m\<lparr>rc_To := s\<rparr>)"
  "l < 2 ^ 63 \<Longrightarrow> int (length (put_bytes 0x62 (str_bytes s) @ r)) \<le> l \<Longrightarrow> rc_VmError m = [] \<Longrightarrow>
     pb_loop Receipt_field l (put_bytes 0x62 (str_bytes s) @ r) m = pb_loop Receipt_field l r (m\<lparr>rc_VmError := s\<rparr>)"
  "l < 2 ^ 63 \<Longrightarrow> int (length (put_bytes 0x72 b @ r)) \<le> l \<Longrightarrow> rc_LogsBloom m = [] \<Longrightarrow>
     pb_loop Receipt_field l (put_bytes 0x72 b @ r) m = pb_loop Receipt_field l r (m\<lparr>rc_LogsBloom := b\<rparr>)"
  "l < 2 ^ 63 \<Longrightarrow> int (length (concat (map (\<lambda>e. put_elem 0x6A (Log_Marshal e)) es) @ r)) \<le> l \<Longrightarrow> rc_Logs m = [] \<Longrightarrow>
     pb_loop Receipt_field l (concat (map (\<lambda>e. put_elem 0x6A (Log_Marshal e)) es) @ r) m = pb_loop Receipt_field l r (m\<lparr>rc_Logs := es\<rparr>)"
  subgoal by (subst pb_loop_put_varint32) (simp_all add: Receipt_field_def Receipt_TxType_case_def)
  subgoal by (subst pb_loop_put_varint) (simp_all add: Receipt_field_def Receipt_CumulativeGasUsed_case_def)
  subgoal by (subst pb_loop_put_bytes [where g = "\<lambda>b. m\<lparr>rc_ContractAddress := bytes_str b\<rparr>" and f = "\<lambda>b m. Inr (m\<lparr>rc_ContractAddress := bytes_str b\<rparr>)"]) (simp_all add: Receipt_field_def Receipt_ContractAddress_case_def)
  subgoal by (subst pb_loop_put_bytes [where g = "\<lambda>b. m\<lparr>rc_TxHashHex := bytes_str b\<rparr>" and f = "\<lambda>b m. Inr (m\<lparr>rc_TxHashHex := bytes_str b\<rparr>)"]) (simp_all add: Receipt_field_def Receipt_TxHashHex_case_def)
  subgoal by (subst pb_loop_put_varint) (simp_all add: Receipt_field_def Receipt_GasUsed_case_def)
  subgoal by (subst pb_loop_put_varint) (simp_all add: Receipt_field_def Receipt_EffectiveGasPrice_case_def)
  subgoal by (subst pb_loop_put_varint) (simp_all add: Receipt_field_def Receipt_BlockNumber_case_def)
  subgoal by (subst pb_loop_put_varint32) (simp_all add: Receipt_field_def Receipt_TransactionIndex_case_def)
  subgoal by (subst pb_loop_put_varint32) (simp_all add: Receipt_field_def Receipt_Status_case_def)
  subgoal by (subst pb_loop_put_bytes [where g = "\<lambda>b. m\<lparr>rc_From := bytes_str b\<rparr>" and f = "\<lambda>b m. Inr (m\<lparr>rc_From := bytes_str b\<rparr>)"]) (simp_all add: Receipt_field_def Receipt_From_case_def)
  subgoal by (subst pb_loop_put_bytes [where g = "\<lambda>b. m\<lparr>rc_To := bytes_str b\<rparr>" and f = "\<lambda>b m. Inr (m\<lparr>rc_To := bytes_str b\<rparr>)"]) (simp_all add: Receipt_field_def Receipt_To_case_def)
  subgoal by (subst pb_loop_put_bytes [where g = "\<lambda>b. m\<lparr>rc_VmError := bytes_str b\<rparr>" and f = "\<lambda>b m. Inr (m\<lparr>rc_VmError := bytes_str b\<rparr>)"]) (simp_all add: Receipt_field_def Receipt_VmError_case_def)
  subgoal by (subst pb_loop_put_bytes [where g = "\<lambda>b. m\<lparr>rc_LogsBloom := b\<rparr>" and f = "\<lambda>b m. Inr (m\<lparr>rc_LogsBloom := b\<rparr>)"]) (simp_all add: Receipt_field_def Receipt_LogsBloom_case_def)
  subgoal premises prems
  proof -
    let ?f = "\<lambda>b m. case Log_Unmarshal b Log_zero of Inl e \<Rightarrow> Inl e | Inr lg \<Rightarrow> Inr (m\<lparr>rc_Logs := rc_Logs m @ [lg]\<rparr>)"
    have "Log_Size e < 2 ^ 63" if "e \<in> set es" for e
    proof -
      from that have "size_elem (Log_Size e) \<le> sum_list (map (\<lambda>e. size_elem (Log_Size e)) es)"
        by (intro member_le_sum_list) auto
      then show ?thesis using prems(1,2) by (simp add: length_concat_put_elem size_elem_def)
    qed
    then show ?thesis
      by (intro pb_loop_put_list [where f = ?f])
        (use prems in \<open>simp_all add: Receipt_field_def Receipt_Logs_case_def Log_Unmarshal_Marshal\<close>)
  qed
  done

lemma Receipt_loop:
  assumes "l < 2 ^ 63" and "int (Receipt_Size m + length r) \<le> l"
  shows "pb_loop Receipt_field l (Receipt_Marshal m @ r) Receipt_zero = pb_loop Receipt_field l r m"
  using assms unfolding Receipt_Marshal_def append_assoc
  by (cases m) (simp add: Receipt_steps length_concat_put_elem Receipt_Size_def Receipt_zero_def)

lemma Receipt_Unmarshal_Marshal: "Receipt_Size m < 2 ^ 63 \<Longrightarrow> Receipt_Unmarshal (Receipt_Marshal m) Receipt_zero = Inr m"
  using Receipt_loop [of "int (Receipt_Size m)" m "[]"] by (simp add: Receipt_Unmarshal_def pb_unmarshal_def)

interpretation receipt_pb: pb_message Receipt_Marshal Receipt_Size Receipt_Unmarshal Receipt_zero
  by unfold_locales (simp_all add: Receipt_Unmarshal_Marshal)

text \<open>C30 (receipt_codec): \<open>Size\<close> is exactly the number of bytes that \<open>Marshal\<close> writes, so the buffer is neither too
  short nor left unfilled; \<open>Unmarshal\<close> gives back the receipt, nested logs included; and a field that the
  reader does not know, here a varint with the number 15, is skipped.\<close>

theorem receipt_codec:
  assumes "Receipt_Size m + length (encodeVarint v) < 2 ^ 63 - 1"
  shows "length (Receipt_Marshal m) = Receipt_Size m \<and>
    Receipt_Unmarshal (Receipt_Marshal m) Receipt_zero = Inr m \<and>
    Receipt_Unmarshal (Receipt_Marshal m @ 0x78 # encodeVarint v) Receipt_zero = Inr m"
proof -
  let ?d = "Receipt_Marshal m @ 0x78 # encodeVarint v"
  have "pb_loop Receipt_field (int (length ?d)) ?d Receipt_zero = pb_loop Receipt_field (int (length ?d)) (0x78 # encodeVarint v @ []) m"
    using Receipt_loop [of "int (length ?d)" m "0x78 # encodeVarint v"] assms by simp
  also have "\<dots> = Inr m"
    by (subst pb_loop_unknown_varint) (use assms in \<open>simp_all add: Receipt_field_def\<close>)
  finally show ?thesis
    using receipt_pb.length_marshal [of m] receipt_pb.unmarshal_marshal [of m] assms
    by (simp add: Receipt_Unmarshal_def pb_unmarshal_def)
qed

definition receipt_example :: Receipt where
  "receipt_example = Receipt_zero\<lparr>rc_TxType := 2, rc_GasUsed := 21000, rc_To := ''0x1'', rc_Logs := [Log_zero\<lparr>log_Data := [7]\<rparr>]\<rparr>"

theorem receipt_codec_witness:
  "Receipt_Unmarshal (Receipt_Marshal receipt_example @ 0x78 # encodeVarint 300) Receipt_zero = Inr receipt_example"
proof -
  have size: "size_varint v \<le> 11" "size_elem n \<le> n + 11" "size_bytes n \<le> n + 11" for v n
    using sov_le [of v] sov_le [of "word_of_nat n"] by (auto simp: size_varint_def size_elem_def size_bytes_def)
  have "Receipt_Size receipt_example \<le> 200"
    using size(1) [of 2] size(1) [of 21000] size(3) [of 3] size(2) [of "size_bytes 1"] size(3) [of 1]
    by (simp add: receipt_example_def Receipt_Size_def Log_Size_def Receipt_zero_def Log_zero_def)
      (simp add: size_varint_def size_bytes_def numeral_3_eq_3)
  moreover have "length (encodeVarint 300) \<le> 10" by (simp add: length_encodeVarint sov_le)
  ultimately show ?thesis using receipt_codec [of receipt_example 300] by simp
qed

end
