(* ===== verification/Pb_Types.thy ===== *)
theory Pb_Types
  imports Pb_Receipt
begin

text \<open>
  \<open>x/evm/types/types.pb.go\<close>: the messages \<open>Whitelist\<close> and \<open>DeferredInfo\<close> and their encoding. The encoding of
  an \<open>sdk.Int\<close> is that of the Cosmos SDK, a parameter of the definitions (\<open>int_codec\<close>); an \<open>sdk.Int\<close> without a
  value is \<open>None\<close>.
\<close>

section \<open>The encoding of sdk.Int\<close>

record int_codec =
  Int_Marshal :: "bigint \<Rightarrow> string + bytes"
  Int_Unmarshal :: "bytes \<Rightarrow> bigint \<Rightarrow> string + bigint"

text \<open>The documented behaviour: a value of at most 256 bits is written as a text that is not empty and shorter
  than \<open>2 ^ 10\<close> bytes and reads back, whatever the receiver held; the absent value is written as zero.\<close>

definition int_codec_laws :: "int_codec \<Rightarrow> bool" where
  "int_codec_laws ic \<longleftrightarrow>
     (\<forall>v. big_BitLen v \<le> 256 \<longrightarrow> (\<exists>bz. Int_Marshal ic (Some v) = Inr bz \<and> bz \<noteq> [] \<and> length bz < 2 ^ 10 \<and>
        (\<forall>m. Int_Unmarshal ic bz m = Inr (Some v)))) \<and>
     Int_Marshal ic None = Int_Marshal ic (Some 0)"

definition Int_Size :: "int_codec \<Rightarrow> bigint \<Rightarrow> nat" where
  "Int_Size ic v = (case Int_Marshal ic v of Inl _ \<Rightarrow> 0 | Inr bz \<Rightarrow> length bz)"

section \<open>Whitelist\<close>

record Whitelist =
  wl_Hashes :: "string list"

definition Whitelist_zero :: Whitelist where
  "Whitelist_zero = \<lparr>wl_Hashes = []\<rparr>"

definition Whitelist_Marshal :: "Whitelist \<Rightarrow> bytes" where
  "Whitelist_Marshal m = concat (map (\<lambda>s. put_elem 0x0A (str_bytes s)) (wl_Hashes m))"

definition Whitelist_Size :: "Whitelist \<Rightarrow> nat" where
  "Whitelist_Size m = sum_list (map (\<lambda>s. size_elem (length s)) (wl_Hashes m))"

definition Whitelist_Hashes_case :: "Whitelist pb_case" where
  "Whitelist_Hashes_case = BytesField ''Hashes'' (\<lambda>b m. Inr (m\<lparr>wl_Hashes := wl_Hashes m @ [bytes_str b]\<rparr>))"

definition Whitelist_field :: "int \<Rightarrow> Whitelist pb_case option" where
  "Whitelist_field n = (if n = 1 then Some Whitelist_Hashes_case else None)"

definition Whitelist_Unmarshal :: "bytes \<Rightarrow> Whitelist \<Rightarrow> string + Whitelist" where
  "Whitelist_Unmarshal dAtA m = pb_unmarshal Whitelist_field dAtA m"

section \<open>DeferredInfo\<close>

record DeferredInfo =
  di_TxIndex :: uint32
  di_TxHash :: bytes
  di_TxBloom :: bytes
  di_Surplus :: bigint
  di_Error :: string

definition DeferredInfo_zero :: DeferredInfo where
  "DeferredInfo_zero = \<lparr>di_TxIndex = 0, di_TxHash = [], di_TxBloom = [], di_Surplus = None, di_Error = ''''\<rparr>"

text \<open>The surplus is written even when it is absent, as a zero.\<close>

definition DeferredInfo_Marshal :: "int_codec \<Rightarrow> DeferredInfo \<Rightarrow> string + bytes" where
  "DeferredInfo_Marshal ic m =
     (case Int_Marshal ic (di_Surplus m) of
        Inl e \<Rightarrow> Inl e
      | Inr bz \<Rightarrow> Inr (
          put_varint 0x08 (ucast (di_TxIndex m)) @
          put_bytes 0x12 (di_TxHash m) @
          put_bytes 0x1A (di_TxBloom m) @
          put_elem 0x22 bz @
          put_bytes 0x2A (str_bytes (di_Error m))))"

definition DeferredInfo_Size :: "int_codec \<Rightarrow> DeferredInfo \<Rightarrow> nat" where
  "DeferredInfo_Size ic m =
     size_varint (ucast (di_TxIndex m)) +
     size_bytes (length (di_TxHash m)) +
     size_bytes (length (di_TxBloom m)) +
     size_elem (Int_Size ic (di_Surplus m)) +
     size_bytes (length (di_Error m))"

definition DeferredInfo_TxIndex_case :: "DeferredInfo pb_case" where
  "DeferredInfo_TxIndex_case = Varint32Field ''TxIndex'' (\<lambda>v m. m\<lparr>di_TxIndex := v\<rparr>)"

definition DeferredInfo_TxHash_case :: "DeferredInfo pb_case" where
  "DeferredInfo_TxHash_case = BytesField ''TxHash'' (\<lambda>b m. Inr (m\<lparr>di_TxHash := b\<rparr>))"

definition DeferredInfo_TxBloom_case :: "DeferredInfo pb_case" where
  "DeferredInfo_TxBloom_case = BytesField ''TxBloom'' (\<lambda>b m. Inr (m\<lparr>di_TxBloom := b\<rparr>))"

definition DeferredInfo_Surplus_case :: "int_codec \<Rightarrow> DeferredInfo pb_case" where
  "DeferredInfo_Surplus_case ic = BytesField ''Surplus''
     (\<lambda>b m. case Int_Unmarshal ic b (di_Surplus m) of Inl e \<Rightarrow> Inl e | Inr v \<Rightarrow> Inr (m\<lparr>di_Surplus := v\<rparr>))"

definition DeferredInfo_Error_case :: "DeferredInfo pb_case" where
  "DeferredInfo_Error_case = BytesField ''Error'' (\<lambda>b m. Inr (m\<lparr>di_Error := bytes_str b\<rparr>))"

definition DeferredInfo_field :: "int_codec \<Rightarrow> int \<Rightarrow> DeferredInfo pb_case option" where
  "DeferredInfo_field ic n =
     (if n = 1 then Some DeferredInfo_TxIndex_case else if n = 2 then Some DeferredInfo_TxHash_case
      else if n = 3 then Some DeferredInfo_TxBloom_case else if n = 4 then Some (DeferredInfo_Surplus_case ic)
      else if n = 5 then Some DeferredInfo_Error_case else None)"

definition DeferredInfo_Unmarshal :: "int_codec \<Rightarrow> bytes \<Rightarrow> DeferredInfo \<Rightarrow> string + DeferredInfo" where
  "DeferredInfo_Unmarshal ic dAtA m = pb_unmarshal (DeferredInfo_field ic) dAtA m"

section \<open>Round trips\<close>

lemma length_Whitelist_Marshal [simp]: "length (Whitelist_Marshal m) = Whitelist_Size m"
  by (simp add: Whitelist_Marshal_def Whitelist_Size_def length_concat_put_elem)

lemma Whitelist_Unmarshal_Marshal:
  assumes "Whitelist_Size m < 2 ^ 63"
  shows "Whitelist_Unmarshal (Whitelist_Marshal m) Whitelist_zero = Inr m"
proof -
  let ?f = "\<lambda>b m. Inr (m\<lparr>wl_Hashes := wl_Hashes m @ [bytes_str b]\<rparr>)"
  have "pb_loop Whitelist_field (int (Whitelist_Size m)) (Whitelist_Marshal m @ []) Whitelist_zero =
      pb_loop Whitelist_field (int (Whitelist_Size m)) [] \<lparr>wl_Hashes = wl_Hashes m\<rparr>"
    unfolding Whitelist_Marshal_def
    by (rule pb_loop_put_list [where f = ?f and upd = "\<lambda>xs. \<lparr>wl_Hashes = xs\<rparr>"])
      (use assms in \<open>simp_all add: Whitelist_field_def Whitelist_Hashes_case_def Whitelist_zero_def length_concat_put_elem Whitelist_Size_def\<close>)
  then show ?thesis by (simp add: Whitelist_Unmarshal_def pb_unmarshal_def)
qed

interpretation whitelist_pb: pb_message Whitelist_Marshal Whitelist_Size Whitelist_Unmarshal Whitelist_zero
  by unfold_locales (simp_all add: Whitelist_Unmarshal_Marshal)

lemma length_DeferredInfo_Marshal: "DeferredInfo_Marshal ic m = Inr bz \<Longrightarrow> length bz = DeferredInfo_Size ic m"
  by (auto simp: DeferredInfo_Marshal_def DeferredInfo_Size_def Int_Size_def split: sum.splits)

lemma DeferredInfo_steps:
  "di_TxIndex m = 0 \<Longrightarrow>
     pb_loop (DeferredInfo_field ic) l (put_varint 0x08 (ucast w) @ r) m = pb_loop (DeferredInfo_field ic) l r (m\<lparr>di_TxIndex := w\<rparr>)"
  "l < 2 ^ 63 \<Longrightarrow> int (length (put_bytes 0x12 b @ r)) \<le> l \<Longrightarrow> di_TxHash m = [] \<Longrightarrow>
     pb_loop (DeferredInfo_field ic) l (put_bytes 0x12 b @ r) m = pb_loop (DeferredInfo_field ic) l r (m\<lparr>di_TxHash := b\<rparr>)"
  "l < 2 ^ 63 \<Longrightarrow> int (length (put_bytes 0x1A b @ r)) \<le> l \<Longrightarrow> di_TxBloom m = [] \<Longrightarrow>
     pb_loop (DeferredInfo_field ic) l (put_bytes 0x1A b @ r) m = pb_loop (DeferredInfo_field ic) l r (m\<lparr>di_TxBloom := b\<rparr>)"
  "l < 2 ^ 63 \<Longrightarrow> int (length (put_elem 0x22 b @ r)) \<le> l \<Longrightarrow> Int_Unmarshal ic b (di_Surplus m) = Inr v \<Longrightarrow>
     pb_loop (DeferredInfo_field ic) l (put_elem 0x22 b @ r) m = pb_loop (DeferredInfo_field ic) l r (m\<lparr>di_Surplus := v\<rparr>)"
  "l < 2 ^ 63 \<Longrightarrow> int (length (put_bytes 0x2A (str_bytes s) @ r)) \<le> l \<Longrightarrow> di_Error m = [] \<Longrightarrow>
     pb_loop (DeferredInfo_field ic) l (put_bytes 0x2A (str_bytes s) @ r) m = pb_loop (DeferredInfo_field ic) l r (m\<lparr>di_Error := s\<rparr>)"
  subgoal by (subst pb_loop_put_varint32) (simp_all add: DeferredInfo_field_def DeferredInfo_TxIndex_case_def)
  subgoal by (subst pb_loop_put_bytes [where g = "\<lambda>b. m\<lparr>di_TxHash := b\<rparr>" and f = "\<lambda>b m. Inr (m\<lparr>di_TxHash := b\<rparr>)"])
      (simp_all add: DeferredInfo_field_def DeferredInfo_TxHash_case_def)
  subgoal by (subst pb_loop_put_bytes [where g = "\<lambda>b. m\<lparr>di_TxBloom := b\<rparr>" and f = "\<lambda>b m. Inr (m\<lparr>di_TxBloom := b\<rparr>)"])
      (simp_all add: DeferredInfo_field_def DeferredInfo_TxBloom_case_def)
  subgoal by (subst pb_loop_put_elem [where m' = "m\<lparr>di_Surplus := v\<rparr>" and f = "\<lambda>b m. case Int_Unmarshal ic b (di_Surplus m) of Inl e \<Rightarrow> Inl e | Inr v \<Rightarrow> Inr (m\<lparr>di_Surplus := v\<rparr>)"])
      (simp_all add: DeferredInfo_field_def DeferredInfo_Surplus_case_def)
  subgoal by (subst pb_loop_put_bytes [where g = "\<lambda>b. m\<lparr>di_Error := bytes_str b\<rparr>" and f = "\<lambda>b m. Inr (m\<lparr>di_Error := bytes_str b\<rparr>)"])
      (simp_all add: DeferredInfo_field_def DeferredInfo_Error_case_def)
  done

lemma DeferredInfo_Unmarshal_Marshal:
  assumes "int_codec_laws ic" and "di_Surplus m = Some v" and "big_BitLen v \<le> 256" and "DeferredInfo_Size ic m < 2 ^ 63"
  shows "\<exists>bz. DeferredInfo_Marshal ic m = Inr bz \<and> DeferredInfo_Unmarshal ic bz DeferredInfo_zero = Inr m"
proof -
  from assms(1,3) obtain sb where sb: "Int_Marshal ic (Some v) = Inr sb" "\<And>x. Int_Unmarshal ic sb x = Inr (Some v)"
    by (auto simp: int_codec_laws_def)
  from sb(1) assms(2) obtain bz where bz: "DeferredInfo_Marshal ic m = Inr bz" by (simp add: DeferredInfo_Marshal_def)
  have "pb_loop (DeferredInfo_field ic) (int (DeferredInfo_Size ic m)) (bz @ []) DeferredInfo_zero = Inr m"
    using bz assms(2,4) sb(1) unfolding DeferredInfo_Marshal_def
    by (cases m) (auto simp: DeferredInfo_steps DeferredInfo_Size_def Int_Size_def DeferredInfo_zero_def sb(2) simp del: append_Nil2)
  then show ?thesis using bz length_DeferredInfo_Marshal [OF bz] by (simp add: DeferredInfo_Unmarshal_def pb_unmarshal_def)
qed

section \<open>A concrete encoding of sdk.Int\<close>

definition int_codec_bytes :: int_codec where
  "int_codec_bytes = \<lparr>
     Int_Marshal = (\<lambda>v. let x = (case v of None \<Rightarrow> 0 | Some x \<Rightarrow> x) in
       if big_BitLen x \<le> 256 then Inr ((if x < 0 then 1 else 0) # big_Bytes x) else Inl ''out of range''),
     Int_Unmarshal = (\<lambda>b m. case b of [] \<Rightarrow> Inr m | s # bs \<Rightarrow> Inr (Some (if s = 1 then - big_SetBytes bs else big_SetBytes bs)))\<rparr>"

lemma length_nat_bytes: "n < 256 ^ k \<Longrightarrow> length (nat_bytes n) \<le> k"
proof (induction k arbitrary: n)
  case (Suc k)
  show ?case
  proof (cases "n = 0")
    case False
    have "n div 256 < 256 ^ k" using Suc.prems by (simp add: div_less_iff_less_mult mult.commute)
    then show ?thesis using Suc.IH [of "n div 256"] False by (subst nat_bytes.simps) simp
  qed (subst nat_bytes.simps, simp)
qed (subst nat_bytes.simps, simp)

lemma int_codec_bytes_laws [simp]: "int_codec_laws int_codec_bytes"
proof -
  have "length (big_Bytes v) \<le> 32" if "big_BitLen v \<le> 256" for v
    using that length_nat_bytes [of "nat \<bar>v\<bar>" 32] by (simp add: big_BitLen_le_iff big_Bytes_def nat_less_iff)
  then have "length (big_Bytes v) < 1023" if "big_BitLen v \<le> 256" for v using that by fastforce
  then show ?thesis
    by (auto simp: int_codec_laws_def int_codec_bytes_def big_SetBytes_Bytes Let_def)
qed

end
