(* ===== verification/Keeper_Receipt.thy ===== *)
theory Keeper_Receipt
  imports StateDB EthTx_Data Pb_Types "HOL-Library.Multiset"
begin

text \<open>
  \<open>x/evm/keeper/receipt.go\<close> and \<open>x/evm/keeper/log.go\<close>: the receipts of a block, from the transient store where
  a transaction leaves its receipt to the receipt store where the block's receipts end up, and the bloom
  filters and logs of a block.

  The receipt store is a database of its own, outside the repository: a record of its operations over its
  state. \<open>sort.Slice\<close> promises a sorted permutation and no more, so it is a parameter with that contract
  (\<open>slice_sort\<close>); the order in which a range visits a map is one too. A receipt is a pointer that the list
  of all receipts and the list of its block share: both name it by its position in the former.
\<close>

section \<open>Functions outside the repository\<close>

record eth_funs =
  CreateBloom :: "eth_Log list \<Rightarrow> bytes"
  CreateAddress :: "address \<Rightarrow> uint64 \<Rightarrow> address"
  Bloom_SetBytes :: "bytes \<Rightarrow> bytes go"
  ORBytes :: "bytes \<Rightarrow> bytes \<Rightarrow> bytes"
  NewTx :: "eth_TxData \<Rightarrow> eth_Transaction"
  tx_Hash :: "eth_Transaction \<Rightarrow> hash"

definition BloomByteLength :: nat where
  "BloomByteLength = 256"

text \<open>A bloom filter has 256 bytes; setting one from 256 bytes takes them; \<open>ORBytes\<close> of two slices of the
  same length is the bitwise disjunction; a transaction hash has 32 bytes.\<close>

definition eth_laws :: "eth_funs \<Rightarrow> bool" where
  "eth_laws e \<longleftrightarrow> (\<forall>lgs. length (CreateBloom e lgs) = BloomByteLength) \<and> (\<forall>a n. length (CreateAddress e a n) = 20) \<and>
     (\<forall>b. length b = BloomByteLength \<longrightarrow> Bloom_SetBytes e b = Done b) \<and>
     (\<forall>a b. length a = length b \<longrightarrow> ORBytes e a b = map2 (OR) a b) \<and>
     (\<forall>tx. length (tx_Hash e tx) = 32)"

record 'r receipt_db =
  GetLatestVersion :: "'r \<Rightarrow> string + int64"
  receiptStore_Get :: "'r \<Rightarrow> int64 \<Rightarrow> bytes \<Rightarrow> string + bytes option"
  ApplyChangesetAsync :: "'r \<Rightarrow> int64 \<Rightarrow> (bytes \<times> bytes) list \<Rightarrow> error \<times> 'r"

text \<open>The documented behaviour, once a change set has been applied: the latest version is the applied one, a key of the
  change set reads back and any other key reads what the latest version held before.\<close>

definition latest :: "'r receipt_db \<Rightarrow> 'r \<Rightarrow> bytes \<Rightarrow> string + bytes option" where
  "latest rd r key = (case GetLatestVersion rd r of Inl e \<Rightarrow> Inl e | Inr lv \<Rightarrow> receiptStore_Get rd r lv key)"

definition receipt_db_laws :: "'r receipt_db \<Rightarrow> bool" where
  "receipt_db_laws rd \<longleftrightarrow>
     (\<forall>r h pairs r'. ApplyChangesetAsync rd r h pairs = (None, r') \<and> distinct (map fst pairs) \<longrightarrow>
        (\<forall>key. latest rd r' key = (case map_of pairs key of Some v \<Rightarrow> Inr (Some v) | None \<Rightarrow> latest rd r key)))"

type_synonym keyed_receipt = "nat \<times> hash \<times> Receipt"
type_synonym receipt_sorter = "(keyed_receipt \<Rightarrow> keyed_receipt \<Rightarrow> bool) \<Rightarrow> keyed_receipt list \<Rightarrow> keyed_receipt list"

definition slice_sort :: "receipt_sorter \<Rightarrow> bool" where
  "slice_sort srt \<longleftrightarrow>
     (\<forall>(f :: keyed_receipt \<Rightarrow> uint32) xs. mset (srt (\<lambda>x y. f x < f y) xs) = mset xs \<and> sorted (map f (srt (\<lambda>x y. f x < f y) xs))) \<and>
     (\<forall>(f :: keyed_receipt \<Rightarrow> bytes) xs. mset (srt (\<lambda>x y. f x < f y) xs) = mset xs \<and> sorted (map f (srt (\<lambda>x y. f x < f y) xs)))"

text \<open>A range over a map visits every key once, in any order.\<close>

definition range_order :: "(uint64 list \<Rightarrow> uint64 list) \<Rightarrow> bool" where
  "range_order rng \<longleftrightarrow> (\<forall>xs. mset (rng xs) = mset xs)"

section \<open>Receipts\<close>

text \<open>\<open>Receipt.Marshal\<close> returns no error, so neither does \<open>SetTransientReceipt\<close>.\<close>

definition SetTransientReceipt :: "'x ctx \<Rightarrow> hash \<Rightarrow> Receipt \<Rightarrow> 'x ctx" where
  "SetTransientReceipt c txHash receipt = with_transient (\<lambda>s. kv_set s (ReceiptKey txHash) (Receipt_Marshal receipt)) c"

definition GetTransientReceipt :: "'x ctx \<Rightarrow> hash \<Rightarrow> string + Receipt" where
  "GetTransientReceipt c txHash =
     (case kv_get (TransientStore c) (ReceiptKey txHash) of
        None \<Rightarrow> Inl ''not found''
      | Some bz \<Rightarrow> Receipt_Unmarshal bz Receipt_zero)"

definition DeleteTransientReceipt :: "'x ctx \<Rightarrow> hash \<Rightarrow> 'x ctx" where
  "DeleteTransientReceipt c txHash = with_transient (\<lambda>s. kv_delete s (ReceiptKey txHash)) c"

definition GetReceipt :: "'r receipt_db \<Rightarrow> 'r \<Rightarrow> 'x ctx \<Rightarrow> hash \<Rightarrow> string + Receipt" where
  "GetReceipt rd r c txHash =
     (case GetLatestVersion rd r of
        Inl e \<Rightarrow> Inl e
      | Inr lv \<Rightarrow>
          (case receiptStore_Get rd r lv (ReceiptKey txHash) of
             Inl e \<Rightarrow> Inl e
           | Inr (Some bz) \<Rightarrow> Receipt_Unmarshal bz Receipt_zero
           | Inr None \<Rightarrow>
               (case kv_get (KVStore c) (ReceiptKey txHash) of
                  None \<Rightarrow> Inl ''not found''
                | Some bz \<Rightarrow> Receipt_Unmarshal bz Receipt_zero)))"

text \<open>The store may change while the caller sleeps between two attempts: the attempts see the states of a
  list, one for each of the \<open>maxRetries\<close> attempts. \<open>None\<close> as an error together with no receipt is the result
  of no attempt at all.\<close>

fun GetReceiptWithRetry_loop :: "'r receipt_db \<Rightarrow> 'x ctx \<Rightarrow> hash \<Rightarrow> 'r list \<Rightarrow> error \<Rightarrow> Receipt option \<times> error" where
  "GetReceiptWithRetry_loop rd c txHash [] lastErr = (None, lastErr)"
| "GetReceiptWithRetry_loop rd c txHash (r # rs) lastErr =
     (case GetReceipt rd r c txHash of
        Inr receipt \<Rightarrow> (Some receipt, None)
      | Inl err \<Rightarrow>
          if err \<noteq> ''not found'' then (None, Some err)
          else GetReceiptWithRetry_loop rd c txHash rs (Some err))"

definition GetReceiptWithRetry :: "'r receipt_db \<Rightarrow> (nat \<Rightarrow> 'r) \<Rightarrow> 'x ctx \<Rightarrow> hash \<Rightarrow> int \<Rightarrow> Receipt option \<times> error" where
  "GetReceiptWithRetry rd states c txHash maxRetries =
     GetReceiptWithRetry_loop rd c txHash (map states [0..<nat maxRetries]) None"

fun decode_receipts :: "lib \<Rightarrow> nat \<Rightarrow> (bytes \<times> bytes) list \<Rightarrow> string + keyed_receipt list" where
  "decode_receipts l i [] = Inr []"
| "decode_receipts l i ((key, v) # iter) =
     (case Receipt_Unmarshal v Receipt_zero of
        Inl e \<Rightarrow> Inl e
      | Inr r \<Rightarrow> (case decode_receipts l (i + 1) iter of Inl e \<Rightarrow> Inl e | Inr rs \<Rightarrow> Inr ((i, BytesToHash l key, r) # rs)))"

fun fill_cumulative :: "uint64 \<Rightarrow> keyed_receipt list \<Rightarrow> (nat \<times> Receipt) list" where
  "fill_cumulative cumGas [] = []"
| "fill_cumulative cumGas ((i, h, r) # recs) =
     (let cumGas' = (if rc_EffectiveGasPrice r > 0 then cumGas + rc_GasUsed r else cumGas) in
      (i, r\<lparr>rc_CumulativeGasUsed := cumGas'\<rparr>) # fill_cumulative cumGas' recs)"

definition kr_hash :: "keyed_receipt \<Rightarrow> hash" where "kr_hash x = fst (snd x)"
definition kr_receipt :: "keyed_receipt \<Rightarrow> Receipt" where "kr_receipt x = snd (snd x)"
definition kr_block :: "keyed_receipt \<Rightarrow> uint64" where "kr_block x = rc_BlockNumber (kr_receipt x)"
definition kr_index :: "keyed_receipt \<Rightarrow> uint32" where "kr_index x = rc_TransactionIndex (kr_receipt x)"

definition block_updates :: "receipt_sorter \<Rightarrow> keyed_receipt list \<Rightarrow> uint64 \<Rightarrow> (nat \<times> Receipt) list" where
  "block_updates srt receipts b =
     fill_cumulative 0 (srt (\<lambda>x y. kr_index x < kr_index y) (filter (\<lambda>x. kr_block x = b) receipts))"

definition set_cumulative :: "receipt_sorter \<Rightarrow> (uint64 list \<Rightarrow> uint64 list) \<Rightarrow> keyed_receipt list \<Rightarrow> keyed_receipt list" where
  "set_cumulative srt rng receipts =
     (let updates = concat (map (block_updates srt receipts) (rng (remdups (map kr_block receipts)))) in
      map (\<lambda>(i, h, r). (i, h, case map_of updates i of None \<Rightarrow> r | Some r' \<Rightarrow> r')) receipts)"

definition flush_pairs :: "receipt_sorter \<Rightarrow> keyed_receipt list \<Rightarrow> (bytes \<times> bytes) list" where
  "flush_pairs srt receipts =
     map (\<lambda>x. (ReceiptKey (kr_hash x), Receipt_Marshal (kr_receipt x))) (srt (\<lambda>x y. kr_hash x < kr_hash y) receipts)"

definition FlushTransientReceipts ::
  "lib \<Rightarrow> receipt_sorter \<Rightarrow> (uint64 list \<Rightarrow> uint64 list) \<Rightarrow> 'r receipt_db \<Rightarrow> 'r \<Rightarrow> 'x ctx \<Rightarrow> error \<times> 'r" where
  "FlushTransientReceipts l srt rng rd r c =
     (case decode_receipts l 0 (prefix_iterator (TransientStore c) ReceiptKeyPrefix) of
        Inl e \<Rightarrow> (Some e, r)
      | Inr receipts \<Rightarrow>
          if length receipts = 0 then (None, r)
          else ApplyChangesetAsync rd r (cx_BlockHeight c) (flush_pairs srt (set_cumulative srt rng receipts)))"

definition MockReceipt ::
  "lib \<Rightarrow> receipt_sorter \<Rightarrow> (uint64 list \<Rightarrow> uint64 list) \<Rightarrow> 'r receipt_db \<Rightarrow> 'r \<Rightarrow> 'x ctx \<Rightarrow> hash \<Rightarrow> Receipt \<Rightarrow> (error \<times> 'r) \<times> 'x ctx" where
  "MockReceipt l srt rng rd r c txHash receipt =
     (let c1 = SetTransientReceipt c txHash receipt in (FlushTransientReceipts l srt rng rd r c1, c1))"

text \<open>\<open>core.Message\<close> of go-ethereum: what the EVM executes.\<close>

record core_Message =
  msg_To :: "address option"
  msg_From :: address
  msg_Nonce :: uint64
  msg_Value :: bigint
  msg_GasLimit :: uint64
  msg_GasPrice :: bigint
  msg_GasFeeCap :: bigint
  msg_GasTipCap :: bigint
  msg_Data :: bytes
  msg_AccessList :: "eth_AccessTuple list"
  msg_BlobGasFeeCap :: bigint
  msg_BlobHashes :: "hash list"
  msg_SkipAccountChecks :: bool

definition ReceiptStatusFailed :: uint32 where "ReceiptStatusFailed = 0"
definition ReceiptStatusSuccessful :: uint32 where "ReceiptStatusSuccessful = 1"

definition WriteReceipt ::
  "lib \<Rightarrow> eth_funs \<Rightarrow> 'x ctx \<Rightarrow> 'x DBImpl \<Rightarrow> core_Message \<Rightarrow> uint32 \<Rightarrow> hash \<Rightarrow> uint64 \<Rightarrow> string \<Rightarrow> (Receipt \<times> 'x ctx) go" where
  "WriteReceipt l e c stateDB msg txType txHash gasUsed vmError =
     deref (msg_GasPrice msg) (\<lambda>gasPrice.
       let ethLogs = GetAllLogs stateDB;
           receipt = Receipt_zero\<lparr>
             rc_TxType := txType, rc_CumulativeGasUsed := 0, rc_TxHashHex := hash_Hex l txHash, rc_GasUsed := gasUsed,
             rc_BlockNumber := cx_BlockHeight c, rc_TransactionIndex := ucast (cx_TxIndex c),
             rc_EffectiveGasPrice := word_of_int gasPrice, rc_VmError := vmError,
             rc_Logs := map (ConvertEthLog l) ethLogs, rc_LogsBloom := CreateBloom e ethLogs\<rparr>;
           receipt1 = (case msg_To msg of
               None \<Rightarrow> receipt\<lparr>rc_ContractAddress := addr_Hex l (CreateAddress e (msg_From msg) (msg_Nonce msg))\<rparr>
             | Some to \<Rightarrow>
                 let r = receipt\<lparr>rc_To := addr_Hex l to\<rparr> in
                 if length (msg_Data msg) > 0 then r\<lparr>rc_ContractAddress := addr_Hex l to\<rparr> else r);
           receipt2 = receipt1\<lparr>rc_Status := (if vmError = [] then ReceiptStatusSuccessful else ReceiptStatusFailed)\<rparr>;
           receipt3 = (case db_precompileErr stateDB of
               None \<Rightarrow> receipt2
             | Some perr \<Rightarrow>
                 if rc_Status receipt2 > 0 then receipt2
                 else receipt2\<lparr>rc_VmError := rc_VmError receipt2 @ ''|'' @ perr\<rparr>);
           receipt4 = receipt3\<lparr>rc_From := addr_Hex l (msg_From msg)\<rparr> in
       Done (receipt4, SetTransientReceipt c txHash receipt4))"

section \<open>Bloom filters and logs\<close>

definition GetLegacyBlockBloomCutoffHeight :: "'x ctx \<Rightarrow> int64 go" where
  "GetLegacyBlockBloomCutoffHeight c =
     (case kv_get (KVStore c) LegacyBlockBloomCutoffHeightKey of
        None \<Rightarrow> Done 0
      | Some bz \<Rightarrow> if length bz = 0 then Done 0 else Uint64 bz)"

definition SetLegacyBlockBloomCutoffHeight :: "'x ctx \<Rightarrow> 'x ctx" where
  "SetLegacyBlockBloomCutoffHeight c = with_kv (\<lambda>s. kv_set s LegacyBlockBloomCutoffHeightKey (PutUint64 (cx_BlockHeight c))) c"

definition GetBlockBloomWithExists :: "eth_funs \<Rightarrow> 'x ctx \<Rightarrow> (bytes \<times> bool) go" where
  "GetBlockBloomWithExists e c =
     (case kv_get (KVStore c) BlockBloomPrefix of
        Some bz \<Rightarrow> go_map (\<lambda>b. (b, True)) (Bloom_SetBytes e bz)
      | None \<Rightarrow>
          go_bind (GetLegacyBlockBloomCutoffHeight c) (\<lambda>cutoff.
            case (if cutoff = 0 \<or> sint (cx_BlockHeight c) < sint cutoff then kv_get (KVStore c) (BlockBloomKey (cx_BlockHeight c)) else None) of
              Some legacyBz \<Rightarrow> go_map (\<lambda>b. (b, True)) (Bloom_SetBytes e legacyBz)
            | None \<Rightarrow> Done (replicate BloomByteLength 0, False)))"

definition GetBlockBloom :: "eth_funs \<Rightarrow> 'x ctx \<Rightarrow> bytes go" where
  "GetBlockBloom e c = go_map fst (GetBlockBloomWithExists e c)"

definition GetLegacyBlockBloom :: "eth_funs \<Rightarrow> 'x ctx \<Rightarrow> int64 \<Rightarrow> bytes go" where
  "GetLegacyBlockBloom e c height =
     (case kv_get (KVStore c) (BlockBloomKey height) of
        Some bz \<Rightarrow> Bloom_SetBytes e bz | None \<Rightarrow> Done (replicate BloomByteLength 0))"

fun SetBlockBloom_loop :: "eth_funs \<Rightarrow> bytes \<Rightarrow> bytes list \<Rightarrow> bytes" where
  "SetBlockBloom_loop e blockBloom [] = blockBloom"
| "SetBlockBloom_loop e blockBloom (bloom # blooms) = SetBlockBloom_loop e (ORBytes e blockBloom bloom) blooms"

definition SetBlockBloom :: "eth_funs \<Rightarrow> 'x ctx \<Rightarrow> bytes list \<Rightarrow> 'x ctx" where
  "SetBlockBloom e c blooms =
     with_kv (\<lambda>s. kv_set s BlockBloomPrefix (SetBlockBloom_loop e (replicate BloomByteLength 0) blooms)) c"

definition convertLog :: "lib \<Rightarrow> evm_Log \<Rightarrow> Receipt \<Rightarrow> uint64 \<Rightarrow> eth_Log" where
  "convertLog l lg receipt logStartIndex =
     \<lparr>elog_Address = HexToAddress l (log_Address lg), elog_Topics = map (HexToHash l) (log_Topics lg), elog_Data = log_Data lg,
      elog_BlockNumber = rc_BlockNumber receipt, elog_TxHash = HexToHash l (rc_TxHashHex receipt),
      elog_TxIndex = ucast (rc_TransactionIndex receipt), elog_Index = ucast (log_Index lg) + logStartIndex\<rparr>"

definition GetLogsForTx :: "lib \<Rightarrow> Receipt \<Rightarrow> uint64 \<Rightarrow> eth_Log list" where
  "GetLogsForTx l receipt logStartIndex = map (\<lambda>lg. convertLog l lg receipt logStartIndex) (rc_Logs receipt)"

section \<open>Concrete instances\<close>

fun insert_by :: "('a \<Rightarrow> 'a \<Rightarrow> bool) \<Rightarrow> 'a \<Rightarrow> 'a list \<Rightarrow> 'a list" where
  "insert_by lt x [] = [x]"
| "insert_by lt x (y # ys) = (if lt y x then y # insert_by lt x ys else x # y # ys)"

definition insertion_sort :: receipt_sorter where
  "insertion_sort lt xs = foldr (insert_by lt) xs []"

lemma mset_insert_by [simp]: "mset (insert_by lt x xs) = add_mset x (mset xs)"
  by (induction xs) simp_all

lemma set_insert_by [simp]: "set (insert_by lt x xs) = insert x (set xs)"
  by (induction xs) auto

lemma sorted_insert_by: "sorted (map f xs) \<Longrightarrow> sorted (map f (insert_by (\<lambda>x y. (f x :: 'b :: linorder) < f y) x xs))"
  by (induction xs) auto

lemma mset_foldr_insert_by: "mset (foldr (insert_by lt) xs []) = mset xs"
  by (induction xs) simp_all

lemma sorted_foldr_insert_by: "sorted (map f (foldr (insert_by (\<lambda>x y. (f x :: 'b :: linorder) < f y)) xs []))"
  by (induction xs) (simp_all add: sorted_insert_by)

lemma insertion_sort_ok [simp]: "slice_sort insertion_sort"
  by (simp add: slice_sort_def insertion_sort_def mset_foldr_insert_by sorted_foldr_insert_by)

definition list_db :: "(bytes \<times> bytes) list receipt_db" where
  "list_db = \<lparr>GetLatestVersion = (\<lambda>r. Inr 0), receiptStore_Get = (\<lambda>r lv key. Inr (map_of r key)),
     ApplyChangesetAsync = (\<lambda>r h pairs. (None, pairs @ r))\<rparr>"

lemma list_db_laws [simp]: "receipt_db_laws list_db"
  by (auto simp: receipt_db_laws_def list_db_def latest_def map_add_def split: option.splits)

text \<open>The accessors of a transaction made from its inner data; a legacy transaction counts as unprotected, so its chain ID is zero.\<close>

fun NewTx_simple :: "eth_TxData \<Rightarrow> eth_Transaction" where
  "NewTx_simple (EthLegacyTx t) = \<lparr>tx_Type = LegacyTxType, tx_Nonce = el_Nonce t, tx_Data = el_Data t, tx_Gas = el_Gas t, tx_To = el_To t,
     tx_Value = el_Value t, tx_GasPrice = el_GasPrice t, tx_GasFeeCap = el_GasPrice t, tx_GasTipCap = el_GasPrice t, tx_AccessList = [],
     tx_BlobGasFeeCap = None, tx_BlobHashes = [], tx_BlobTxSidecar = None, tx_ChainId = Some 0, tx_V = el_V t, tx_R = el_R t, tx_S = el_S t\<rparr>"
| "NewTx_simple (EthAccessListTx t) = \<lparr>tx_Type = AccessListTxType, tx_Nonce = eal_Nonce t, tx_Data = eal_Data t, tx_Gas = eal_Gas t, tx_To = eal_To t,
     tx_Value = eal_Value t, tx_GasPrice = eal_GasPrice t, tx_GasFeeCap = eal_GasPrice t, tx_GasTipCap = eal_GasPrice t, tx_AccessList = eal_AccessList t,
     tx_BlobGasFeeCap = None, tx_BlobHashes = [], tx_BlobTxSidecar = None, tx_ChainId = eal_ChainID t, tx_V = eal_V t, tx_R = eal_R t, tx_S = eal_S t\<rparr>"
| "NewTx_simple (EthDynamicFeeTx t) = \<lparr>tx_Type = DynamicFeeTxType, tx_Nonce = edf_Nonce t, tx_Data = edf_Data t, tx_Gas = edf_Gas t, tx_To = edf_To t,
     tx_Value = edf_Value t, tx_GasPrice = edf_GasFeeCap t, tx_GasFeeCap = edf_GasFeeCap t, tx_GasTipCap = edf_GasTipCap t, tx_AccessList = edf_AccessList t,
     tx_BlobGasFeeCap = None, tx_BlobHashes = [], tx_BlobTxSidecar = None, tx_ChainId = edf_ChainID t, tx_V = edf_V t, tx_R = edf_R t, tx_S = edf_S t\<rparr>"
| "NewTx_simple (EthBlobTx t) = \<lparr>tx_Type = BlobTxType, tx_Nonce = ebt_Nonce t, tx_Data = ebt_Data t, tx_Gas = ebt_Gas t, tx_To = Some (ebt_To t),
     tx_Value = ebt_Value t, tx_GasPrice = ebt_GasFeeCap t, tx_GasFeeCap = ebt_GasFeeCap t, tx_GasTipCap = ebt_GasTipCap t, tx_AccessList = ebt_AccessList t,
     tx_BlobGasFeeCap = ebt_BlobFeeCap t, tx_BlobHashes = ebt_BlobHashes t, tx_BlobTxSidecar = ebt_Sidecar t, tx_ChainId = ebt_ChainID t, tx_V = ebt_V t,
     tx_R = ebt_R t, tx_S = ebt_S t\<rparr>"

definition eth_simple :: eth_funs where
  "eth_simple = \<lparr>CreateBloom = (\<lambda>lgs. replicate BloomByteLength (if lgs = [] then 0 else 1)), CreateAddress = (\<lambda>a n. replicate 20 9),
     Bloom_SetBytes = (\<lambda>b. if length b \<le> BloomByteLength then Done (replicate (BloomByteLength - length b) 0 @ b) else Panic ''bloom bytes too big''),
     ORBytes = (\<lambda>a b. map2 (OR) a b), NewTx = NewTx_simple, tx_Hash = (\<lambda>tx. replicate 24 0 @ PutUint64 (tx_Nonce tx))\<rparr>"

lemma eth_simple_laws [simp]: "eth_laws eth_simple"
  by (simp add: eth_laws_def eth_simple_def)

end
