(* ===== verification/Receipt_Props.thy ===== *)
theory Receipt_Props
  imports Keeper_Receipt
begin

text \<open>
  The receipts of a block from the transaction to the receipt store. \<open>Receipt_cumulative\<close> compares the
  cumulative gas that \<open>FlushTransientReceipts\<close> computes with its definition: the gas of the paid
  transactions of the block up to and including the receipt's own.
\<close>

section \<open>Cumulative gas\<close>

definition paid_gas :: "Receipt \<Rightarrow> uint64" where
  "paid_gas r = (if rc_EffectiveGasPrice r > 0 then rc_GasUsed r else 0)"

definition gas_upto :: "keyed_receipt list \<Rightarrow> Receipt \<Rightarrow> uint64" where
  "gas_upto receipts r =
     sum_list (map (\<lambda>x. paid_gas (kr_receipt x))
       (filter (\<lambda>x. kr_block x = rc_BlockNumber r \<and> kr_index x \<le> rc_TransactionIndex r) receipts))"

lemma fill_fst: "map fst (fill_cumulative g xs) = map fst xs"
  by (induction g xs rule: fill_cumulative.induct) (simp_all add: Let_def)

lemma fill_at:
  "i \<notin> fst ` set as \<Longrightarrow>
     map_of (fill_cumulative g (as @ (i, h, r) # bs)) i =
       Some (r\<lparr>rc_CumulativeGasUsed := g + sum_list (map (\<lambda>x. paid_gas (kr_receipt x)) as) + paid_gas r\<rparr>)"
proof (induction as arbitrary: g)
  case Nil
  then show ?case by (simp add: Let_def paid_gas_def)
next
  case (Cons a as)
  obtain j h' r' where a: "a = (j, h', r')" by (cases a)
  have "(if rc_EffectiveGasPrice r' > 0 then g + rc_GasUsed r' else g) = g + paid_gas r'" by (simp add: paid_gas_def)
  with Cons show ?case by (simp add: a Let_def kr_receipt_def add.assoc)
qed

lemma filter_le_split:
  assumes "sorted (map f (as @ x # bs))" and "distinct (map f (as @ x # bs))"
  shows "filter (\<lambda>y. f y \<le> f x) (as @ x # bs) = as @ [x]"
proof -
  have "sorted_wrt (<) (map f (as @ x # bs))" using assms by (simp add: strict_sorted_iff)
  then have "f y < f x" if "y \<in> set as" for y using that by (simp add: sorted_wrt_append)
  moreover have "f x < f y" if "y \<in> set bs" for y
    using that \<open>sorted_wrt (<) (map f (as @ x # bs))\<close> by (simp add: sorted_wrt_append)
  ultimately have "filter (\<lambda>y. f y \<le> f x) as = as" "filter (\<lambda>y. f y \<le> f x) bs = []"
    by (auto simp: filter_empty_conv not_le intro!: filter_True less_imp_le)
  then show ?thesis by simp
qed

lemma sum_list_mset: "mset xs = mset ys \<Longrightarrow> sum_list (map g xs) = (sum_list (map g ys) :: uint64)"
  by (metis mset_map sum_mset_sum_list)

lemma block_updates_at:
  assumes srt: "slice_sort srt" and x: "(i, h, r) \<in> set rs" and pos: "distinct (map fst rs)"
    and idx: "distinct (map (\<lambda>x. (kr_block x, kr_index x)) rs)"
  shows "map_of (block_updates srt rs (rc_BlockNumber r)) i = Some (r\<lparr>rc_CumulativeGasUsed := gas_upto rs r\<rparr>)"
proof -
  let ?b = "rc_BlockNumber r" and ?x = "(i, h, r)"
  let ?fs = "filter (\<lambda>x. kr_block x = ?b) rs"
  define ys where "ys = srt (\<lambda>x y. kr_index x < kr_index y) ?fs"
  have ys: "mset ys = mset ?fs" "sorted (map kr_index ys)" using srt by (simp_all add: slice_sort_def ys_def)
  then have "set ys = set ?fs" by (metis set_mset_mset)
  then have "?x \<in> set ys" using x by (simp add: kr_block_def kr_receipt_def)
  then obtain as bs where split: "ys = as @ ?x # bs" by (meson split_list)
  have "distinct (map kr_index ?fs)"
    using distinct_map_filter [OF idx, of "\<lambda>x. kr_block x = ?b"] by (auto simp: distinct_map inj_on_def)
  then have dist: "distinct (map kr_index ys)" using mset_eq_imp_distinct_iff [of "map kr_index ys" "map kr_index ?fs"] ys(1) by simp
  have "distinct (map fst ?fs)" using pos by (rule distinct_map_filter)
  then have "distinct (map fst ys)" using mset_eq_imp_distinct_iff [of "map fst ys" "map fst ?fs"] ys(1) by simp
  then have fresh: "i \<notin> fst ` set as" using split by auto
  have own: "kr_index ?x = rc_TransactionIndex r" "kr_receipt ?x = r" by (simp_all add: kr_index_def kr_receipt_def)
  let ?le = "\<lambda>x. kr_index x \<le> rc_TransactionIndex r" and ?g = "\<lambda>x. paid_gas (kr_receipt x)"
  have "filter ?le ys = as @ [?x]" using filter_le_split [of kr_index as ?x bs] ys(2) dist own split by simp
  then have "sum_list (map ?g as) + paid_gas r = sum_list (map ?g (filter ?le ys))" using own by simp
  also have "\<dots> = sum_list (map ?g (filter ?le ?fs))" using ys(1) by (intro sum_list_mset) (metis mset_filter)
  also have "\<dots> = gas_upto rs r" by (simp add: gas_upto_def conj_commute)
  finally show ?thesis using fill_at [OF fresh, of 0 h r bs] split by (simp add: block_updates_def ys_def [symmetric] split)
qed

lemma block_updates_fst:
  "slice_sort srt \<Longrightarrow> fst ` set (block_updates srt rs b) = fst ` {x \<in> set rs. kr_block x = b}"
proof -
  assume srt: "slice_sort srt"
  let ?ys = "srt (\<lambda>x y. kr_index x < kr_index y) (filter (\<lambda>x. kr_block x = b) rs)"
  have "mset ?ys = mset (filter (\<lambda>x. kr_block x = b) rs)" using srt by (simp add: slice_sort_def)
  from mset_eq_setD [OF this] have "set ?ys = {x \<in> set rs. kr_block x = b}" by simp
  moreover have "fst ` set (fill_cumulative 0 ?ys) = fst ` set ?ys" using arg_cong [OF fill_fst, of set 0 ?ys] by simp
  ultimately show ?thesis by (simp add: block_updates_def)
qed

lemma map_of_concat:
  "b \<in> set bs \<Longrightarrow> map_of (f b) i = Some v \<Longrightarrow> (\<And>b'. b' \<noteq> b \<Longrightarrow> i \<notin> fst ` set (f b')) \<Longrightarrow> map_of (concat (map f bs)) i = Some v"
proof (induction bs)
  case (Cons b' bs)
  show ?case
  proof (cases "b' = b")
    case False
    then have "map_of (f b') i = None" using Cons.prems(3) by (simp add: map_of_eq_None_iff)
    with Cons False show ?thesis by (simp add: map_add_def)
  qed (use Cons in \<open>simp add: map_add_def split: option.splits\<close>)
qed simp

lemma set_cumulative_eq:
  assumes srt: "slice_sort srt" and rng: "range_order rng" and pos: "distinct (map fst rs)"
    and idx: "distinct (map (\<lambda>x. (kr_block x, kr_index x)) rs)"
  shows "set_cumulative srt rng rs = map (\<lambda>(i, h, r). (i, h, r\<lparr>rc_CumulativeGasUsed := gas_upto rs r\<rparr>)) rs"
proof -
  let ?bs = "rng (remdups (map kr_block rs))"
  have "map_of (concat (map (block_updates srt rs) ?bs)) i = Some (r\<lparr>rc_CumulativeGasUsed := gas_upto rs r\<rparr>)"
    if x: "(i, h, r) \<in> set rs" for i h r
  proof (rule map_of_concat)
    have "set ?bs = kr_block ` set rs" using mset_eq_setD [of "rng (remdups (map kr_block rs))" "remdups (map kr_block rs)"] rng by (simp add: range_order_def)
    then show "rc_BlockNumber r \<in> set ?bs" using imageI [OF x, of kr_block] by (simp add: kr_block_def kr_receipt_def)
    show "map_of (block_updates srt rs (rc_BlockNumber r)) i = Some (r\<lparr>rc_CumulativeGasUsed := gas_upto rs r\<rparr>)"
      by (rule block_updates_at [OF srt x pos idx])
    fix b assume "b \<noteq> rc_BlockNumber r"
    have "y = (i, h, r)" if "y \<in> set rs" "fst y = i" for y
      using inj_onD [of fst "set rs" y "(i, h, r)"] pos x that by (simp add: distinct_map)
    then have "kr_block y = rc_BlockNumber r" if "y \<in> set rs" "fst y = i" for y
      using that by (metis kr_block_def kr_receipt_def snd_conv)
    with \<open>b \<noteq> rc_BlockNumber r\<close> show "i \<notin> fst ` set (block_updates srt rs b)" unfolding block_updates_fst [OF srt] by blast
  qed
  then show ?thesis by (auto simp: set_cumulative_def Let_def)
qed

section \<open>From the transient store to the receipt store\<close>

lemma decode_receipts_spec:
  "decode_receipts l n kvs = Inr rs \<Longrightarrow>
     map fst rs = [n..<n + length kvs] \<and> map kr_hash rs = map (BytesToHash l \<circ> fst) kvs \<and>
     list_all2 (\<lambda>e x. Receipt_Unmarshal (snd e) Receipt_zero = Inr (kr_receipt x)) kvs rs"
proof (induction l n kvs arbitrary: rs rule: decode_receipts.induct)
  case (2 l i k v iter)
  then obtain r rs' where "Receipt_Unmarshal v Receipt_zero = Inr r" "decode_receipts l (i + 1) iter = Inr rs'"
    "rs = (i, BytesToHash l k, r) # rs'" by (auto split: sum.splits)
  with 2 show ?case by (simp add: kr_hash_def kr_receipt_def upt_conv_Cons del: upt_Suc)
qed simp

lemma Receipt_Size_cumulative: "Receipt_Size r < 2 ^ 62 \<Longrightarrow> Receipt_Size (r\<lparr>rc_CumulativeGasUsed := g\<rparr>) < 2 ^ 63"
  using sov_le [of g] by (auto simp: Receipt_Size_def size_varint_def)

lemma GetReceipt_latest:
  "GetReceipt rd r c h =
     (case latest rd r (ReceiptKey h) of
        Inl e \<Rightarrow> Inl e
      | Inr (Some bz) \<Rightarrow> Receipt_Unmarshal bz Receipt_zero
      | Inr None \<Rightarrow> (case kv_get (KVStore c) (ReceiptKey h) of None \<Rightarrow> Inl ''not found'' | Some bz \<Rightarrow> Receipt_Unmarshal bz Receipt_zero))"
  by (simp add: GetReceipt_def latest_def split: sum.splits)

lemma ReceiptKey_inject [simp]: "ReceiptKey h = ReceiptKey h' \<longleftrightarrow> h = h'"
  by (simp add: ReceiptKey_def)

lemma flush_pairs_lookup:
  assumes srt: "slice_sort srt" and dist: "distinct (map kr_hash rs)"
  shows "distinct (map fst (flush_pairs srt rs))"
    and "map_of (flush_pairs srt rs) (ReceiptKey h) = Some v \<longleftrightarrow> (\<exists>x \<in> set rs. kr_hash x = h \<and> v = Receipt_Marshal (kr_receipt x))"
proof -
  let ?zs = "srt (\<lambda>x y. kr_hash x < kr_hash y) rs"
  have perm: "mset ?zs = mset rs" using srt by (simp add: slice_sort_def)
  have "distinct (map kr_hash ?zs)" using mset_eq_imp_distinct_iff [of "map kr_hash ?zs" "map kr_hash rs"] perm dist by simp
  then show keys: "distinct (map fst (flush_pairs srt rs))"
    by (auto simp: flush_pairs_def distinct_map inj_on_def)
  have "map_of (flush_pairs srt rs) (ReceiptKey h) = Some v \<longleftrightarrow> (ReceiptKey h, v) \<in> set (flush_pairs srt rs)"
    using keys by (simp add: map_of_eq_Some_iff)
  then show "map_of (flush_pairs srt rs) (ReceiptKey h) = Some v \<longleftrightarrow> (\<exists>x \<in> set rs. kr_hash x = h \<and> v = Receipt_Marshal (kr_receipt x))"
    using mset_eq_setD [OF perm] by (auto simp: flush_pairs_def)
qed

text \<open>The keys of receipts are transaction hashes, and the receipts are far smaller than a slice can be.\<close>

definition receipt_keys :: "'x ctx \<Rightarrow> bool" where
  "receipt_keys c \<longleftrightarrow> (\<forall>e \<in> set (prefix_iterator (TransientStore c) ReceiptKeyPrefix). length (fst e) = 32)"

lemma decoded_iff:
  assumes "cast_laws l" and ok: "kv_ok (TransientStore c)"
    and keys: "receipt_keys c"
    and rs: "decode_receipts l 0 (prefix_iterator (TransientStore c) ReceiptKeyPrefix) = Inr rs"
  shows "distinct (map kr_hash rs)" and "distinct (map fst rs)"
    and "(\<exists>x \<in> set rs. kr_hash x = h \<and> kr_receipt x = rcpt) \<longleftrightarrow> GetTransientReceipt c h = Inr rcpt"
proof -
  let ?it = "prefix_iterator (TransientStore c) ReceiptKeyPrefix"
  have spec: "map fst rs = [0..<length ?it]" "map kr_hash rs = map (BytesToHash l \<circ> fst) ?it"
    "list_all2 (\<lambda>e x. Receipt_Unmarshal (snd e) Receipt_zero = Inr (kr_receipt x)) ?it rs"
    using decode_receipts_spec [OF rs] by simp_all
  show "distinct (map fst rs)" unfolding spec(1) by simp
  have get: "(k, v) \<in> set ?it \<longleftrightarrow> kv_get (TransientStore c) (ReceiptKey k) = Some v" for k v
    using prefix_iterator_iff [OF ok, of k v ReceiptKeyPrefix] by (simp add: ReceiptKey_def)
  have "BytesToHash l (fst e) = fst e" if "e \<in> set ?it" for e
    using assms(1) keys that by (simp add: cast_laws_def receipt_keys_def)
  then have hash: "map kr_hash rs = map fst ?it" unfolding spec(2) by simp
  then show dist: "distinct (map kr_hash rs)" using prefix_iterator_sorted [OF ok, of ReceiptKeyPrefix] by (simp add: strict_sorted_iff)
  have len: "length rs = length ?it" using spec(3) by (simp add: list_all2_lengthD)
  have nth: "kr_hash (rs ! i) = fst (?it ! i)" "Receipt_Unmarshal (snd (?it ! i)) Receipt_zero = Inr (kr_receipt (rs ! i))" if "i < length rs" for i
    using that len hash spec(3) by (metis nth_map) (use that len spec(3) in \<open>simp add: list_all2_conv_all_nth\<close>)
  show "(\<exists>x \<in> set rs. kr_hash x = h \<and> kr_receipt x = rcpt) \<longleftrightarrow> GetTransientReceipt c h = Inr rcpt"
  proof
    assume "\<exists>x \<in> set rs. kr_hash x = h \<and> kr_receipt x = rcpt"
    then obtain i where i: "i < length rs" "kr_hash (rs ! i) = h" "kr_receipt (rs ! i) = rcpt" by (metis in_set_conv_nth)
    have "(fst (?it ! i), snd (?it ! i)) \<in> set ?it" using i(1) len by simp
    then have "kv_get (TransientStore c) (ReceiptKey h) = Some (snd (?it ! i))" unfolding get using nth(1) [OF i(1)] i(2) by simp
    then show "GetTransientReceipt c h = Inr rcpt" using nth(2) [OF i(1)] i(3) by (simp add: GetTransientReceipt_def)
  next
    assume "GetTransientReceipt c h = Inr rcpt"
    then obtain v where v: "(h, v) \<in> set ?it" "Receipt_Unmarshal v Receipt_zero = Inr rcpt"
      unfolding get by (auto simp: GetTransientReceipt_def split: option.splits)
    then obtain i where i: "i < length ?it" "?it ! i = (h, v)" by (metis in_set_conv_nth)
    then have "rs ! i \<in> set rs" "kr_hash (rs ! i) = h" "kr_receipt (rs ! i) = rcpt" using nth [of i] len v(2) by simp_all
    then show "\<exists>x \<in> set rs. kr_hash x = h \<and> kr_receipt x = rcpt" by blast
  qed
qed

text \<open>C24 (Receipt_cumulative): when \<open>FlushTransientReceipts\<close> returns without an error, the receipt of every
  transaction of the transient store is found in the receipt store, with the cumulative gas that is the sum, in 64 bits, of the
  gas of the transactions of its block that paid a gas price and have at most its index; every other receipt is
  found as before. It holds for every order of the range over the blocks and every sort that \<open>sort.Slice\<close> may be.\<close>

theorem Receipt_cumulative:
  assumes srt: "slice_sort srt" and rng: "range_order rng" and rd: "receipt_db_laws rd" and l: "cast_laws l"
    and ok: "kv_ok (TransientStore c)"
    and keys: "receipt_keys c"
    and rs: "decode_receipts l 0 (prefix_iterator (TransientStore c) ReceiptKeyPrefix) = Inr rs"
    and idx: "distinct (map (\<lambda>x. (kr_block x, kr_index x)) rs)" and size: "\<forall>x \<in> set rs. Receipt_Size (kr_receipt x) < 2 ^ 62"
    and flush: "FlushTransientReceipts l srt rng rd r c = (None, r')"
  shows "GetReceipt rd r' c h =
    (case GetTransientReceipt c h of
       Inr rcpt \<Rightarrow> Inr (rcpt\<lparr>rc_CumulativeGasUsed := gas_upto rs rcpt\<rparr>)
     | Inl _ \<Rightarrow> GetReceipt rd r c h)"
proof -
  note dec = decoded_iff [OF l ok keys rs]
  let ?fill = "\<lambda>(i, h, r). (i, h, r\<lparr>rc_CumulativeGasUsed := gas_upto rs r\<rparr>)"
  let ?pairs = "flush_pairs srt (map ?fill rs)"
  have fill: "kr_hash (?fill x) = kr_hash x" "kr_receipt (?fill x) = (kr_receipt x)\<lparr>rc_CumulativeGasUsed := gas_upto rs (kr_receipt x)\<rparr>" for x
    by (cases x; simp add: kr_hash_def kr_receipt_def)+
  have dist: "distinct (map kr_hash (map ?fill rs))" using dec(1) by (simp add: comp_def fill)
  have look: "map_of ?pairs (ReceiptKey h) = Some v \<longleftrightarrow>
      (\<exists>rcpt. GetTransientReceipt c h = Inr rcpt \<and> v = Receipt_Marshal (rcpt\<lparr>rc_CumulativeGasUsed := gas_upto rs rcpt\<rparr>))" for v
  proof -
    have "map_of ?pairs (ReceiptKey h) = Some v \<longleftrightarrow>
        (\<exists>x \<in> set rs. kr_hash x = h \<and> v = Receipt_Marshal ((kr_receipt x)\<lparr>rc_CumulativeGasUsed := gas_upto rs (kr_receipt x)\<rparr>))"
      using flush_pairs_lookup(2) [OF srt dist, of h v] by (simp only: set_map bex_simps(7) fill)
    moreover have "(\<exists>x \<in> set rs. kr_hash x = h \<and> P (kr_receipt x)) \<longleftrightarrow> (\<exists>rcpt. GetTransientReceipt c h = Inr rcpt \<and> P rcpt)" for P
      by (simp only: dec(3) [symmetric]) blast
    ultimately show ?thesis by simp
  qed
  have small: "Receipt_Size (rcpt\<lparr>rc_CumulativeGasUsed := g\<rparr>) < 2 ^ 63" if got: "GetTransientReceipt c h = Inr rcpt" for rcpt g
  proof -
    obtain x where "x \<in> set rs" "kr_receipt x = rcpt" using got dec(3) [where h = h and rcpt = rcpt] by blast
    then show ?thesis using size Receipt_Size_cumulative by blast
  qed
  show ?thesis
  proof (cases "rs = []")
    case True
    then have "r' = r" using flush rs by (simp add: FlushTransientReceipts_def)
    moreover have "GetTransientReceipt c h \<noteq> Inr rcpt" for rcpt using dec(3) [where h = h and rcpt = rcpt] True by simp
    ultimately show ?thesis by (cases "GetTransientReceipt c h") auto
  next
    case False
    then have "ApplyChangesetAsync rd r (cx_BlockHeight c) ?pairs = (None, r')"
      using flush rs set_cumulative_eq [OF srt rng dec(2) idx] by (simp add: FlushTransientReceipts_def)
    then have new: "latest rd r' (ReceiptKey h) = (case map_of ?pairs (ReceiptKey h) of Some v \<Rightarrow> Inr (Some v) | None \<Rightarrow> latest rd r (ReceiptKey h))"
      using rd flush_pairs_lookup(1) [OF srt dist] unfolding receipt_db_laws_def by blast
    show ?thesis
    proof (cases "GetTransientReceipt c h")
      case (Inl e)
      then have "map_of ?pairs (ReceiptKey h) = None" using look by (cases "map_of ?pairs (ReceiptKey h)") auto
      with new Inl show ?thesis by (simp add: GetReceipt_latest)
    next
      case (Inr rcpt)
      let ?rcpt = "rcpt\<lparr>rc_CumulativeGasUsed := gas_upto rs rcpt\<rparr>"
      have "map_of ?pairs (ReceiptKey h) = Some (Receipt_Marshal ?rcpt)" using look [of "Receipt_Marshal ?rcpt"] Inr by blast
      with new Inr receipt_pb.unmarshal_marshal [OF small [OF Inr]] show ?thesis by (simp add: GetReceipt_latest)
    qed
  qed
qed

definition receipt_1 :: Receipt where
  "receipt_1 = Receipt_zero\<lparr>rc_GasUsed := 21000, rc_EffectiveGasPrice := 1, rc_BlockNumber := 8, rc_TransactionIndex := 1\<rparr>"

definition receipt_2 :: Receipt where
  "receipt_2 = Receipt_zero\<lparr>rc_GasUsed := 50000, rc_EffectiveGasPrice := 1, rc_BlockNumber := 8, rc_TransactionIndex := 0\<rparr>"

lemma receipt_size: "Receipt_Size receipt_1 < 2 ^ 62" "Receipt_Size receipt_2 < 2 ^ 62"
proof -
  have "size_varint v \<le> 11" for v using sov_le [of v] by (simp add: size_varint_def)
  note b = this
  show "Receipt_Size receipt_1 < 2 ^ 62"
    using b [of 21000] b [of 1] b [of 8] by (simp add: receipt_1_def Receipt_zero_def Receipt_Size_def size_bytes_def) (simp add: size_varint_def)
  show "Receipt_Size receipt_2 < 2 ^ 62"
    using b [of 50000] b [of 1] b [of 8] by (simp add: receipt_2_def Receipt_zero_def Receipt_Size_def size_bytes_def) (simp add: size_varint_def)
qed

definition two_receipts :: "ledger ctx" where
  "two_receipts = SetTransientReceipt (SetTransientReceipt ctx0 (replicate 32 1) receipt_1) (replicate 32 2) receipt_2"

lemma two_receipts_store:
  "TransientStore two_receipts = [(ReceiptKey (replicate 32 1), Receipt_Marshal receipt_1), (ReceiptKey (replicate 32 2), Receipt_Marshal receipt_2)]"
  by (simp add: two_receipts_def SetTransientReceipt_def ReceiptKey_def numeral_eq_Suc)

lemma two_receipts_iter:
  "prefix_iterator (TransientStore two_receipts) ReceiptKeyPrefix =
     [(replicate 32 1, Receipt_Marshal receipt_1), (replicate 32 2, Receipt_Marshal receipt_2)]"
  unfolding two_receipts_store by (simp add: prefix_iterator_def ReceiptKey_def)

theorem Receipt_cumulative_witness:
  "GetReceipt list_db (snd (FlushTransientReceipts lib_lower insertion_sort id list_db [] two_receipts)) two_receipts (replicate 32 1) =
     Inr (receipt_1\<lparr>rc_CumulativeGasUsed := 71000\<rparr>)"
proof -
  let ?rs = "[(0, replicate 32 1, receipt_1), (1, replicate 32 2, receipt_2)] :: keyed_receipt list"
  have un: "Receipt_Unmarshal (Receipt_Marshal r) Receipt_zero = Inr r" if "Receipt_Size r < 2 ^ 62" for r
    using receipt_pb.unmarshal_marshal [of r] that by simp
  have dec: "decode_receipts lib_lower 0 (prefix_iterator (TransientStore two_receipts) ReceiptKeyPrefix) = Inr ?rs"
    unfolding two_receipts_iter using lib_lower_laws(2)
    by (simp add: un [OF receipt_size(1)] un [OF receipt_size(2)] cast_laws_def del: lib_lower_simps lib_lower_laws)
  have flush: "FlushTransientReceipts lib_lower insertion_sort id list_db [] two_receipts =
      (None, snd (FlushTransientReceipts lib_lower insertion_sort id list_db [] two_receipts))"
    unfolding FlushTransientReceipts_def dec by (simp add: list_db_def)
  have rng: "range_order id" by (simp add: range_order_def)
  have ok: "kv_ok (TransientStore two_receipts)" unfolding two_receipts_store by (simp add: kv_ok_Cons ReceiptKey_def numeral_eq_Suc)
  have keys: "receipt_keys two_receipts" by (simp add: receipt_keys_def two_receipts_iter)
  have idx: "distinct (map (\<lambda>x. (kr_block x, kr_index x)) ?rs)"
    by (simp add: kr_block_def kr_index_def kr_receipt_def receipt_1_def receipt_2_def Receipt_zero_def)
  have size: "\<forall>x \<in> set ?rs. Receipt_Size (kr_receipt x) < 2 ^ 62" using receipt_size by (simp add: kr_receipt_def)
  have "GetTransientReceipt two_receipts (replicate 32 1) = Inr receipt_1"
    unfolding GetTransientReceipt_def two_receipts_store by (simp add: un [OF receipt_size(1)])
  moreover have "gas_upto ?rs receipt_1 = 71000"
    by (simp add: gas_upto_def paid_gas_def kr_block_def kr_index_def kr_receipt_def receipt_1_def receipt_2_def Receipt_zero_def)
  ultimately show ?thesis
    using Receipt_cumulative [OF insertion_sort_ok rng list_db_laws lib_lower_laws(2) ok keys dec idx size flush, of "replicate 32 1"] by simp
qed

section \<open>Logs and bloom filters\<close>

text \<open>C25 (WriteReceipt_roundtrip): the receipt that \<open>WriteReceipt\<close> leaves in the transient store reads back; its status is 1
  exactly when the execution gave no error; and the logs that a query rebuilds from it are those of the
  state database, at the position the query asks for and with the block, hash and index of the transaction.\<close>

theorem WriteReceipt_roundtrip:
  assumes hex: "hex_laws l" and price: "msg_GasPrice msg = Some p" and hash: "length txHash = 32"
    and logs: "\<forall>lg \<in> set (GetAllLogs db). length (elog_Address lg) = 20 \<and> (\<forall>t \<in> set (elog_Topics lg). length t = 32) \<and> unat (elog_Index lg) < 2 ^ 32"
    and run: "WriteReceipt l e c db msg txType txHash gasUsed vmError = Done (receipt, c')"
    and size: "Receipt_Size receipt < 2 ^ 63"
  shows "GetTransientReceipt c' txHash = Inr receipt \<and>
    (rc_Status receipt = 1 \<longleftrightarrow> vmError = []) \<and> (rc_Status receipt = 0 \<longleftrightarrow> vmError \<noteq> []) \<and>
    GetLogsForTx l receipt start =
      map (\<lambda>lg. lg\<lparr>elog_BlockNumber := cx_BlockHeight c, elog_TxHash := txHash, elog_TxIndex := ucast (ucast (cx_TxIndex c) :: uint32),
             elog_Index := elog_Index lg + start\<rparr>) (GetAllLogs db)"
proof -
  have c': "c' = SetTransientReceipt c txHash receipt" and st: "rc_Status receipt = (if vmError = [] then 1 else 0)"
    and fields: "rc_Logs receipt = map (ConvertEthLog l) (GetAllLogs db)" "rc_BlockNumber receipt = cx_BlockHeight c"
      "rc_TxHashHex receipt = hash_Hex l txHash" "rc_TransactionIndex receipt = ucast (cx_TxIndex c)"
    using run price by (auto simp: WriteReceipt_def Let_def ReceiptStatusSuccessful_def ReceiptStatusFailed_def split: option.splits if_splits)
  have log: "convertLog l (ConvertEthLog l lg) receipt start =
      lg\<lparr>elog_BlockNumber := cx_BlockHeight c, elog_TxHash := txHash, elog_TxIndex := ucast (ucast (cx_TxIndex c) :: uint32),
             elog_Index := elog_Index lg + start\<rparr>" if "lg \<in> set (GetAllLogs db)" for lg
  proof -
    have addr: "length (elog_Address lg) = 20" and top: "\<forall>t \<in> set (elog_Topics lg). length t = 32" and idx: "unat (elog_Index lg) < 2 ^ 32"
      using logs that by auto
    have "map (HexToHash l) (map (hash_Hex l) (elog_Topics lg)) = elog_Topics lg"
      using top hex by (simp add: hex_laws_def map_idI)
    moreover have "HexToAddress l (addr_Hex l (elog_Address lg)) = elog_Address lg" "HexToHash l (hash_Hex l txHash) = txHash"
      using addr hash hex by (simp_all add: hex_laws_def)
    moreover have "(ucast (ucast (elog_Index lg) :: uint32) :: uint64) = elog_Index lg"
      using idx by (simp add: word_unat_eq_iff unsigned_ucast_eq unsigned_take_bit_eq take_bit_nat_eq_self)
    ultimately show ?thesis by (simp add: convertLog_def ConvertEthLog_def fields)
  qed
  have "GetTransientReceipt c' txHash = Inr receipt"
    using size receipt_pb.unmarshal_marshal by (simp add: c' GetTransientReceipt_def SetTransientReceipt_def)
  then show ?thesis using st log by (simp add: GetLogsForTx_def fields)
qed

definition log_example :: eth_Log where
  "log_example = \<lparr>elog_Address = replicate 20 3, elog_Topics = [], elog_Data = [], elog_BlockNumber = 0, elog_TxHash = [], elog_TxIndex = 0, elog_Index = 0\<rparr>"

definition db_log_example :: "ledger DBImpl" where
  "db_log_example = AddLog log_example (NewDBImpl ledger_keepers ctx0 False)"

lemma db_log_example_simps:
  "GetAllLogs db_log_example = [log_example]" "db_precompileErr db_log_example = None"
  by (simp_all add: db_log_example_def log_example_def AddLog_def GetAllLogs_def NewDBImpl_def Snapshot_def NewTemporaryState_def set_cur_def Let_def
      split: sum.splits)

definition msg_example :: core_Message where
  "msg_example = \<lparr>msg_To = Some (replicate 20 2), msg_From = replicate 20 1, msg_Nonce = 0, msg_Value = Some 0, msg_GasLimit = 21000,
     msg_GasPrice = Some 7, msg_GasFeeCap = Some 7, msg_GasTipCap = Some 7, msg_Data = [], msg_AccessList = [], msg_BlobGasFeeCap = None,
     msg_BlobHashes = [], msg_SkipAccountChecks = False\<rparr>"

lemma length_hex: "length (addr_Hex lib_lower a) = 2 + 2 * length a" "length (hash_Hex lib_lower a) = 2 + 2 * length a"
proof -
  have "length (concat (map hex_of_byte bs)) = 2 * length bs" for bs by (induction bs) (simp_all add: hex_of_byte_def)
  then show "length (addr_Hex lib_lower a) = 2 + 2 * length a" "length (hash_Hex lib_lower a) = 2 + 2 * length a"
    by (simp_all add: hex_of_bytes_def)
qed

theorem WriteReceipt_roundtrip_witness:
  "\<exists>receipt c'. WriteReceipt lib_lower eth_simple ctx0 db_log_example msg_example 2 (replicate 32 5) 21000 '''' = Done (receipt, c') \<and>
     GetTransientReceipt c' (replicate 32 5) = Inr receipt \<and> rc_Status receipt = 1 \<and>
     GetLogsForTx lib_lower receipt 5 = [log_example\<lparr>elog_BlockNumber := 8, elog_TxHash := replicate 32 5, elog_TxIndex := 1, elog_Index := 5\<rparr>]"
proof -
  define receipt where "receipt = Receipt_zero\<lparr>
      rc_TxType := 2, rc_TxHashHex := hash_Hex lib_lower (replicate 32 5), rc_GasUsed := 21000, rc_BlockNumber := 8, rc_TransactionIndex := 1,
      rc_EffectiveGasPrice := 7, rc_Logs := [ConvertEthLog lib_lower log_example], rc_LogsBloom := replicate 256 1,
      rc_To := addr_Hex lib_lower (replicate 20 2), rc_Status := 1, rc_From := addr_Hex lib_lower (replicate 20 1)\<rparr>"
  have run: "WriteReceipt lib_lower eth_simple ctx0 db_log_example msg_example 2 (replicate 32 5) 21000 '''' =
      Done (receipt, SetTransientReceipt ctx0 (replicate 32 5) receipt)"
    by (simp add: WriteReceipt_def Let_def db_log_example_simps msg_example_def receipt_def ctx0_def eth_simple_def BloomByteLength_def
        ReceiptStatusSuccessful_def Receipt_zero_def del: lib_lower_simps)
  have v: "size_varint v \<le> 11" "size_bytes n \<le> n + 11" "size_elem n \<le> n + 11" for v n
    using sov_le [of v] sov_le [of "word_of_nat n"] by (auto simp: size_varint_def size_elem_def size_bytes_def)
  have "Log_Size (ConvertEthLog lib_lower log_example) \<le> 100"
    using v(2) [of 42] by (simp add: Log_Size_def ConvertEthLog_def log_example_def length_hex del: lib_lower_simps)
      (simp add: size_bytes_def size_varint_def)
  then have log: "size_elem (Log_Size (ConvertEthLog lib_lower log_example)) \<le> 111"
    using v(3) [of "Log_Size (ConvertEthLog lib_lower log_example)"] by simp
  have "Receipt_Size receipt \<le> 1000"
    using log v(2) [of 42] v(2) [of 66] v(2) [of 256] v(1) [of 2] v(1) [of 21000] v(1) [of 8] v(1) [of 7] v(1) [of 1]
    by (simp add: Receipt_Size_def receipt_def Receipt_zero_def length_hex del: lib_lower_simps)
      (simp add: size_bytes_def size_varint_def)
  then have size: "Receipt_Size receipt < 2 ^ 63" by simp
  have "\<forall>lg \<in> set (GetAllLogs db_log_example). length (elog_Address lg) = 20 \<and> (\<forall>t \<in> set (elog_Topics lg). length t = 32) \<and> unat (elog_Index lg) < 2 ^ 32"
    by (simp add: db_log_example_simps log_example_def)
  from WriteReceipt_roundtrip [OF lib_lower_laws(1) _ _ this run size, of 7 5] run show ?thesis
    by (simp add: db_log_example_simps msg_example_def ctx0_def log_example_def del: lib_lower_simps)
qed

lemma SetBlockBloom_loop_length:
  "eth_laws e \<Longrightarrow> length b = BloomByteLength \<Longrightarrow> \<forall>x \<in> set bs. length x = BloomByteLength \<Longrightarrow> length (SetBlockBloom_loop e b bs) = BloomByteLength"
  by (induction bs arbitrary: b) (simp_all add: eth_laws_def)

lemma SetBlockBloom_loop_bit:
  "eth_laws e \<Longrightarrow> length b = BloomByteLength \<Longrightarrow> \<forall>x \<in> set bs. length x = BloomByteLength \<Longrightarrow> i < BloomByteLength \<Longrightarrow>
     bit (SetBlockBloom_loop e b bs ! i) n \<longleftrightarrow> bit (b ! i) n \<or> (\<exists>x \<in> set bs. bit (x ! i) n)"
  by (induction bs arbitrary: b) (auto simp: eth_laws_def bit_or_iff)

text \<open>The bloom filter of a block has 256 bytes, a bit of it is set exactly when it is set in the filter of some
  transaction of the block, and it is read back from the store whatever legacy filters are there.\<close>

lemma block_bloom:
  assumes "eth_laws e" and "\<forall>x \<in> set blooms. length x = BloomByteLength" and "kv_ok (KVStore c)"
  shows "\<exists>b. GetBlockBloomWithExists e (SetBlockBloom e c blooms) = Done (b, True) \<and> length b = BloomByteLength \<and>
    (\<forall>i < BloomByteLength. \<forall>n. bit (b ! i) n \<longleftrightarrow> (\<exists>x \<in> set blooms. bit (x ! i) n))"
proof -
  let ?b = "SetBlockBloom_loop e (replicate BloomByteLength 0) blooms"
  have len: "length ?b = BloomByteLength" using assms(1,2) by (simp add: SetBlockBloom_loop_length)
  then have "GetBlockBloomWithExists e (SetBlockBloom e c blooms) = Done (?b, True)"
    using assms(1) by (simp add: GetBlockBloomWithExists_def SetBlockBloom_def eth_laws_def go_map_def)
  then show ?thesis using len assms(1,2) by (auto simp: SetBlockBloom_loop_bit)
qed

end
