(* ===== verification/Helpers_Associate.thy ===== *)
theory Helpers_Associate
  imports Keeper_Account StateDB_Props
begin

text \<open>
  \<open>utils/helpers/associate.go\<close>: associating the two addresses of an account, and moving what the Cosmos address that
  casts to the EVM address holds to the account. \<open>sdk.Coins\<close> is a list of denominations and amounts. The account
  keeper and the operations of the bank keeper on all denominations are a record of parameters.
\<close>

type_synonym Coins = "(string \<times> int) list"

definition Coins_IsZero :: "Coins \<Rightarrow> bool" where
  "Coins_IsZero cs = list_all (\<lambda>(denom, amount). amount = 0) cs"

text \<open>\<open>acc_PubKey\<close> is \<open>GetAccount\<close> with \<open>GetPubKey\<close>: nothing for a missing account, and an account may have no key.
  \<open>acc_SetPubKey\<close> is \<open>SetPubKey\<close> on the account with \<open>SetAccount\<close>.\<close>

record 'x auth_keeper =
  acc_PubKey :: "'x \<Rightarrow> bytes \<Rightarrow> bytes option option"
  acc_SetPubKey :: "'x \<Rightarrow> bytes \<Rightarrow> bytes option \<Rightarrow> string + 'x"
  RemoveAccount :: "'x \<Rightarrow> bytes \<Rightarrow> 'x"
  SpendableCoins :: "'x \<Rightarrow> bytes \<Rightarrow> Coins"
  AllLockedCoins :: "'x \<Rightarrow> bytes \<Rightarrow> Coins"
  SendCoins :: "'x \<Rightarrow> bytes \<Rightarrow> bytes \<Rightarrow> Coins \<Rightarrow> 'x \<times> event list \<times> error"

text \<open>A call to the bank that ends the operation when it fails.\<close>

definition bank_step :: "'x ctx \<Rightarrow> 'x \<times> event list \<times> error \<Rightarrow> error \<times> 'x ctx" where
  "bank_step c r = (case r of (x, es, err) \<Rightarrow> (err, EmitEvents es (with_ext x c)))"

definition MigrateBalance :: "'x keepers \<Rightarrow> 'x auth_keeper \<Rightarrow> 'x ctx \<Rightarrow> address \<Rightarrow> bytes \<Rightarrow> error \<times> 'x ctx" where
  "MigrateBalance k ak c evmAddr tabiAddr =
     (let castAddr = evmAddr;
          castAddrBalances = SpendableCoins ak (ctx_ext c) castAddr in
      case (if \<not> Coins_IsZero castAddrBalances
            then bank_step c (SendCoins ak (ctx_ext c) castAddr tabiAddr castAddrBalances) else (None, c)) of
        (Some err, c1) \<Rightarrow> (Some err, c1)
      | (None, c1) \<Rightarrow>
          let castAddrWei = bank_GetWeiBalance k (ctx_ext c1) castAddr in
          case (if castAddrWei \<noteq> 0
                then bank_step c1 (SendCoinsAndWei k (ctx_ext c1) castAddr tabiAddr 0 castAddrWei) else (None, c1)) of
            (Some err, c2) \<Rightarrow> (Some err, c2)
          | (None, c2) \<Rightarrow>
              (None, if Coins_IsZero (AllLockedCoins ak (ctx_ext c2) castAddr)
                     then with_ext (RemoveAccount ak (ctx_ext c2) castAddr) c2 else c2))"

definition AssociateAddresses ::
    "lib \<Rightarrow> 'x keepers \<Rightarrow> 'x auth_keeper \<Rightarrow> 'x ctx \<Rightarrow> bytes \<Rightarrow> address \<Rightarrow> bytes option \<Rightarrow> (error \<times> 'x ctx) go" where
  "AssociateAddresses l k ak c tabiAddr evmAddr pubkey =
     (let c1 = SetAddressMapping l k c tabiAddr evmAddr in
      deref (acc_PubKey ak (ctx_ext c1) tabiAddr) (\<lambda>pk.
        if pk = None then
          case acc_SetPubKey ak (ctx_ext c1) tabiAddr pubkey of
            Inl err \<Rightarrow> Done (Some err, c1)
          | Inr x \<Rightarrow> Done (MigrateBalance k ak (with_ext x c1) evmAddr tabiAddr)
        else Done (MigrateBalance k ak c1 evmAddr tabiAddr)))"

section \<open>Lemmas\<close>

text \<open>Documented behaviour of the keepers: transfers that succeed, keys and the removal of accounts keep the supply.\<close>

definition auth_laws :: "'x keepers \<Rightarrow> 'x auth_keeper \<Rightarrow> ('x \<Rightarrow> int) \<Rightarrow> bool" where
  "auth_laws k ak T \<longleftrightarrow>
     (\<forall>x a b cs. snd (snd (SendCoins ak x a b cs)) = None \<longrightarrow> T (fst (SendCoins ak x a b cs)) = T x) \<and>
     (\<forall>x a b n w. snd (snd (SendCoinsAndWei k x a b n w)) = None \<longrightarrow> T (fst (SendCoinsAndWei k x a b n w)) = T x) \<and>
     (\<forall>x a pk x'. acc_SetPubKey ak x a pk = Inr x' \<longrightarrow> T x' = T x) \<and>
     (\<forall>x a. T (RemoveAccount ak x a) = T x)"

lemma bank_step_access [simp]:
  "KVStore (snd (bank_step c r)) = KVStore c" "TransientStore (snd (bank_step c r)) = TransientStore c"
  "ctx_ext (snd (bank_step c r)) = fst r" "fst (bank_step c r) = snd (snd r)"
  "cx_TxIndex (snd (bank_step c r)) = cx_TxIndex c" "cx_ChainID (snd (bank_step c r)) = cx_ChainID c"
  "cx_BlockHeight (snd (bank_step c r)) = cx_BlockHeight c"
  by (simp_all add: bank_step_def split: prod.splits)

definition module_same :: "'x ctx \<Rightarrow> 'x ctx \<Rightarrow> bool" where
  "module_same c c' \<longleftrightarrow> KVStore c' = KVStore c \<and> TransientStore c' = TransientStore c \<and> cx_TxIndex c' = cx_TxIndex c \<and>
     cx_ChainID c' = cx_ChainID c \<and> cx_BlockHeight c' = cx_BlockHeight c"

text \<open>What a migration leaves alone: the stores of the module and, when it succeeds, the supply.\<close>

lemma MigrateBalance_frame:
  assumes "MigrateBalance k ak c a t = (err, c')"
  shows "module_same c c'"
proof -
  obtain e1 c1 where s1: "(if \<not> Coins_IsZero (SpendableCoins ak (ctx_ext c) a) then bank_step c (SendCoins ak (ctx_ext c) a t (SpendableCoins ak (ctx_ext c) a))
      else (None, c)) = (e1, c1)" by fastforce
  have m1: "module_same c c1"
    using arg_cong [OF s1, of snd] bank_step_access [of c "SendCoins ak (ctx_ext c) a t (SpendableCoins ak (ctx_ext c) a)"]
    by (auto simp: module_same_def split: if_splits)
  obtain e2 c2 where s2: "(if bank_GetWeiBalance k (ctx_ext c1) a \<noteq> 0
      then bank_step c1 (SendCoinsAndWei k (ctx_ext c1) a t 0 (bank_GetWeiBalance k (ctx_ext c1) a)) else (None, c1)) = (e2, c2)" by fastforce
  have m2: "module_same c1 c2"
    using arg_cong [OF s2, of snd] bank_step_access [of c1 "SendCoinsAndWei k (ctx_ext c1) a t 0 (bank_GetWeiBalance k (ctx_ext c1) a)"]
    by (auto simp: module_same_def split: if_splits)
  from assms m1 m2 show ?thesis
    unfolding MigrateBalance_def Let_def s1 prod.case
    by (cases e1; cases e2) (auto simp: s2 module_same_def split: if_splits)
qed

lemma MigrateBalance_supply:
  assumes "auth_laws k ak T" and "MigrateBalance k ak c a t = (None, c')"
  shows "T (ctx_ext c') = T (ctx_ext c)"
proof -
  obtain e1 c1 where s1: "(if \<not> Coins_IsZero (SpendableCoins ak (ctx_ext c) a) then bank_step c (SendCoins ak (ctx_ext c) a t (SpendableCoins ak (ctx_ext c) a))
      else (None, c)) = (e1, c1)" by fastforce
  obtain e2 c2 where s2: "(if bank_GetWeiBalance k (ctx_ext c1) a \<noteq> 0
      then bank_step c1 (SendCoinsAndWei k (ctx_ext c1) a t 0 (bank_GetWeiBalance k (ctx_ext c1) a)) else (None, c1)) = (e2, c2)" by fastforce
  have e: "e1 = None" "e2 = None" "ctx_ext c' = (if Coins_IsZero (AllLockedCoins ak (ctx_ext c2) a) then RemoveAccount ak (ctx_ext c2) a else ctx_ext c2)"
    using assms(2) unfolding MigrateBalance_def Let_def s1 prod.case
    by (cases e1; cases e2; auto simp: s2 split: if_splits)+
  have "T (ctx_ext c1) = T (ctx_ext c)"
    using arg_cong [OF s1, of fst] arg_cong [OF s1, of snd] e(1) assms(1) by (auto simp: auth_laws_def split: if_splits)
  moreover have "T (ctx_ext c2) = T (ctx_ext c1)"
    using arg_cong [OF s2, of fst] arg_cong [OF s2, of snd] e(2) assms(1) by (auto simp: auth_laws_def split: if_splits)
  ultimately show ?thesis using e(3) assms(1) by (simp add: auth_laws_def)
qed

lemma SetAddressMapping_access [simp]:
  "TransientStore (SetAddressMapping l k c t a) = TransientStore c" "cx_TxIndex (SetAddressMapping l k c t a) = cx_TxIndex c"
  "cx_ChainID (SetAddressMapping l k c t a) = cx_ChainID c" "cx_BlockHeight (SetAddressMapping l k c t a) = cx_BlockHeight c"
  by (simp_all add: SetAddressMapping_def Let_def)

text \<open>After an association that succeeds both lookups give the partner, the stores of the module changed only as
  \<open>SetAddressMapping\<close> does, and the supply is the same.\<close>

lemma AssociateAddresses_Done:
  assumes "supply_laws k T" and "auth_laws k ak T" and "AssociateAddresses l k ak c t a pk = Done (None, c')"
  shows "module_same (SetAddressMapping l k c t a) c'" and "T (ctx_ext c') = T (ctx_ext c)"
proof -
  let ?c1 = "SetAddressMapping l k c t a"
  have T1: "T (ctx_ext ?c1) = T (ctx_ext c)" using supply_lawsD(5) [OF assms(1)] by (simp add: SetAddressMapping_def Let_def)
  obtain x where x: "MigrateBalance k ak (with_ext x ?c1) a t = (None, c')" "T x = T (ctx_ext ?c1)"
  proof -
    have "MigrateBalance k ak (with_ext (ctx_ext ?c1) ?c1) a t = MigrateBalance k ak ?c1 a t"
      by (simp add: with_ext_def ctx_ext_def)
    then show thesis
      using assms(2,3) that [of "ctx_ext ?c1"] that
      by (auto simp: AssociateAddresses_def Let_def deref_def auth_laws_def split: option.splits if_splits sum.splits)
  qed
  show "module_same ?c1 c'" using MigrateBalance_frame [OF x(1)] by (simp add: module_same_def)
  show "T (ctx_ext c') = T (ctx_ext c)" using MigrateBalance_supply [OF assms(2) x(1)] x(2) T1 by simp
qed

section \<open>A concrete instance\<close>

text \<open>Accounts of the ledger have no key; its coins are moved by \<open>SendCoinsAndWei\<close>.\<close>

definition ledger_auth :: "ledger auth_keeper" where
  "ledger_auth = \<lparr>
     acc_PubKey = (\<lambda>x a. if a \<in> set (lg_accounts x) then Some None else None),
     acc_SetPubKey = (\<lambda>x a pk. Inr x),
     RemoveAccount = (\<lambda>x a. x\<lparr>lg_accounts := filter (\<lambda>b. b \<noteq> a) (lg_accounts x)\<rparr>),
     SpendableCoins = (\<lambda>x a. [(BaseDenom, lg_get x a div 1000000000000)]),
     AllLockedCoins = (\<lambda>x a. []),
     SendCoins = (\<lambda>x a b cs. lg_send x a b (sum_list (map snd cs)) 0)\<rparr>"

end
