(* ===== verification/Keeper_Nonce.thy ===== *)
theory Keeper_Nonce
  imports Keeper_Account "HOL-Library.Monad_Syntax"
begin

text \<open>
  The pool of pending nonces of the keeper (\<open>x/evm/keeper/keeper.go\<close>): the transactions of the mempool by
  sender, sorted by nonce, and the index from the key of a transaction to its sender and nonce. The pool is
  one record; a Go map is a HOL map. The printed warnings are left out, the mutex too: every operation holds
  it from its first to its last statement. \<open>sort.Find\<close> and \<open>slices.SortStableFunc\<close> of the standard library
  are \<open>sort_Find\<close> and \<open>sort_key\<close>.

  The abstract pool is a map from a sender and a nonce to the key and the priority of the transaction that
  holds the place; the operations refine it (\<open>pool_refines\<close>), and the next nonce is the first gap
  (\<open>CalculateNextNonce_first_gap\<close>).
\<close>

record AddressNoncePair =
  anp_Address :: address
  anp_Nonce :: uint64

record PendingTx =
  pt_Key :: bytes
  pt_Nonce :: uint64
  pt_Priority :: int64

record nonce_pool =
  pendingTxs :: "string \<rightharpoonup> PendingTx list"
  keyToNonce :: "bytes \<rightharpoonup> AddressNoncePair"

definition uint64Cmp :: "uint64 \<Rightarrow> uint64 \<Rightarrow> int" where
  "uint64Cmp a b = (if a < b then -1 else if a = b then 0 else 1)"

text \<open>Reading a Go map of slices: a missing key gives the nil slice.\<close>

definition pendings :: "nonce_pool \<Rightarrow> string \<Rightarrow> PendingTx list" where
  "pendings p addr = (case pendingTxs p addr of None \<Rightarrow> [] | Some xs \<Rightarrow> xs)"

definition find_nonce :: "uint64 \<Rightarrow> PendingTx list \<Rightarrow> nat \<times> bool" where
  "find_nonce nonce xs = sort_Find (length xs) (\<lambda>i. uint64Cmp nonce (pt_Nonce (xs ! i)))"

partial_function (option) CalculateNextNonce_loop :: "PendingTx list \<Rightarrow> uint64 \<Rightarrow> uint64 option" where
  "CalculateNextNonce_loop pending nextNonce =
     (if \<not> snd (find_nonce nextNonce pending) then Some nextNonce
      else CalculateNextNonce_loop pending (nextNonce + 1))"

text \<open>The result is \<open>None\<close> when the loop does not end; a stored nonce that is too short to read panics.\<close>

definition CalculateNextNonce :: "lib \<Rightarrow> nonce_pool \<Rightarrow> 'x ctx \<Rightarrow> address \<Rightarrow> bool \<Rightarrow> uint64 option go" where
  "CalculateNextNonce l p c addr includePending =
     go_bind (keeper_GetNonce c addr) (\<lambda>nextNonce.
       if \<not> includePending then Done (Some nextNonce)
       else Done (CalculateNextNonce_loop (pendings p (addr_Hex l addr)) nextNonce))"

text \<open>The loop of \<open>AddPendingNonce\<close>: \<open>None\<close> when no pending transaction has the nonce, otherwise the pool
  with which the function returns. \<open>seen\<close> are the entries before the current one.\<close>

fun AddPendingNonce_loop :: "bytes \<Rightarrow> address \<Rightarrow> string \<Rightarrow> uint64 \<Rightarrow> int64 \<Rightarrow> nonce_pool \<Rightarrow> PendingTx list \<Rightarrow> PendingTx list \<Rightarrow> nonce_pool option" where
  "AddPendingNonce_loop key addr addrStr nonce priority p seen [] = None"
| "AddPendingNonce_loop key addr addrStr nonce priority p seen (pendingTx # xs) =
     (if pt_Nonce pendingTx = nonce then
        Some (if sint priority > sint (pt_Priority pendingTx) then
                p\<lparr>keyToNonce := (keyToNonce p)(pt_Key pendingTx := None, key \<mapsto> \<lparr>anp_Address = addr, anp_Nonce = nonce\<rparr>),
                  pendingTxs := (pendingTxs p)(addrStr \<mapsto> seen @ pendingTx\<lparr>pt_Priority := priority, pt_Key := key\<rparr> # xs)\<rparr>
              else p)
      else AddPendingNonce_loop key addr addrStr nonce priority p (seen @ [pendingTx]) xs)"

definition AddPendingNonce :: "lib \<Rightarrow> nonce_pool \<Rightarrow> bytes \<Rightarrow> address \<Rightarrow> uint64 \<Rightarrow> int64 \<Rightarrow> nonce_pool" where
  "AddPendingNonce l p key addr nonce priority =
     (let addrStr = addr_Hex l addr in
      if keyToNonce p key \<noteq> None then p
      else case AddPendingNonce_loop key addr addrStr nonce priority p [] (pendings p addrStr) of
        Some p' \<Rightarrow> p'
      | None \<Rightarrow>
          p\<lparr>keyToNonce := (keyToNonce p)(key \<mapsto> \<lparr>anp_Address = addr, anp_Nonce = nonce\<rparr>),
            pendingTxs := (pendingTxs p)(addrStr \<mapsto>
              sort_key pt_Nonce (pendings p addrStr @ [\<lparr>pt_Key = key, pt_Nonce = nonce, pt_Priority = priority\<rparr>]))\<rparr>)"

definition RemovePendingNonce :: "lib \<Rightarrow> nonce_pool \<Rightarrow> bytes \<Rightarrow> nonce_pool" where
  "RemovePendingNonce l p key =
     (case keyToNonce p key of
        None \<Rightarrow> p
      | Some tx \<Rightarrow>
          let p1 = p\<lparr>keyToNonce := (keyToNonce p)(key := None)\<rparr>;
              addr = addr_Hex l (anp_Address tx);
              xs = pendings p1 addr;
              (firstMatch, found) = find_nonce (anp_Nonce tx) xs in
          if \<not> found then p1
          else let ys = take firstMatch xs @ drop (firstMatch + 1) xs in
               p1\<lparr>pendingTxs := (if length ys = 0 then (pendingTxs p1)(addr := None) else (pendingTxs p1)(addr \<mapsto> ys))\<rparr>)"

section \<open>Sorted lists of pending transactions\<close>

abbreviation nonces :: "PendingTx list \<Rightarrow> uint64 list" where
  "nonces xs \<equiv> map pt_Nonce xs"

definition by_nonce :: "PendingTx list \<Rightarrow> bool" where
  "by_nonce xs \<longleftrightarrow> sorted_wrt (<) (nonces xs)"

lemma by_nonce_iff: "by_nonce xs \<longleftrightarrow> sorted (nonces xs) \<and> distinct (nonces xs)"
  unfolding by_nonce_def by (rule strict_sorted_iff)

lemma by_nonce_Nil [simp]: "by_nonce []"
  by (simp add: by_nonce_def)

lemma by_nonce_inj: "by_nonce xs \<Longrightarrow> x \<in> set xs \<Longrightarrow> y \<in> set xs \<Longrightarrow> pt_Nonce x = pt_Nonce y \<Longrightarrow> x = y"
  by (auto simp: by_nonce_iff distinct_map dest: inj_onD)

lemma find_nonce_correct:
  assumes "by_nonce xs"
  shows "snd (find_nonce n xs) \<longleftrightarrow> n \<in> set (nonces xs)"
    and "snd (find_nonce n xs) \<Longrightarrow> fst (find_nonce n xs) < length xs \<and> pt_Nonce (xs ! fst (find_nonce n xs)) = n"
proof -
  let ?cmp = "\<lambda>i. uint64Cmp n (pt_Nonce (xs ! i))"
  have mono: "?cmp y \<le> ?cmp x" if "x \<le> y" "y < length xs" for x y
    using assms that sorted_nth_mono [of "nonces xs" x y] by (auto simp: by_nonce_iff uint64Cmp_def)
  have zero: "?cmp i = 0 \<longleftrightarrow> pt_Nonce (xs ! i) = n" for i by (auto simp: uint64Cmp_def)
  show "snd (find_nonce n xs) \<longleftrightarrow> n \<in> set (nonces xs)"
    unfolding find_nonce_def using sort_Find_correct(1) [of "length xs" ?cmp, OF mono]
    by (auto simp: zero in_set_conv_nth simp del: set_map)
  show "snd (find_nonce n xs) \<Longrightarrow> fst (find_nonce n xs) < length xs \<and> pt_Nonce (xs ! fst (find_nonce n xs)) = n"
    unfolding find_nonce_def using sort_Find_correct(2) [of "length xs" ?cmp, OF mono] by (auto simp: zero)
qed

lemma by_nonce_insert:
  "by_nonce xs \<Longrightarrow> pt_Nonce x \<notin> set (nonces xs) \<Longrightarrow> by_nonce (sort_key pt_Nonce (xs @ [x]))"
proof -
  assume "by_nonce xs" "pt_Nonce x \<notin> set (nonces xs)"
  then have "distinct (nonces (xs @ [x]))" by (simp add: by_nonce_iff)
  then have "distinct (nonces (sort_key pt_Nonce (xs @ [x])))"
    by (auto simp: distinct_map distinct_sort)
  then show ?thesis by (simp add: by_nonce_iff)
qed

lemma by_nonce_remove:
  assumes "by_nonce xs" and "i < length xs"
  shows "by_nonce (take i xs @ drop (Suc i) xs)" and "set (take i xs @ drop (Suc i) xs) = set xs - {xs ! i}"
proof -
  have split: "xs = take i xs @ xs ! i # drop (Suc i) xs" using assms(2) by (rule id_take_nth_drop)
  have "sorted_wrt (<) (nonces (take i xs @ xs ! i # drop (Suc i) xs))" using assms(1) split by (simp add: by_nonce_def)
  then show "by_nonce (take i xs @ drop (Suc i) xs)" by (simp add: by_nonce_def sorted_wrt_append)
  have "distinct xs" using assms(1) by (simp add: by_nonce_iff distinct_map)
  then have "distinct (take i xs @ xs ! i # drop (Suc i) xs)" using split by simp
  then show "set (take i xs @ drop (Suc i) xs) = set xs - {xs ! i}"
    by (subst (3) split) auto
qed

section \<open>The abstract pool\<close>

definition slot :: "uint64 \<Rightarrow> PendingTx list \<Rightarrow> (bytes \<times> int64) option" where
  "slot n xs = map_option (\<lambda>tx. (pt_Key tx, pt_Priority tx)) (find (\<lambda>tx. pt_Nonce tx = n) xs)"

definition pool_abs :: "lib \<Rightarrow> nonce_pool \<Rightarrow> address \<times> uint64 \<rightharpoonup> bytes \<times> int64" where
  "pool_abs l p = (\<lambda>(a, n). if length a = 20 then slot n (pendings p (addr_Hex l a)) else None)"

text \<open>The invariant: the list of a sender is never empty and strictly sorted by nonce, and the index mirrors
  the lists.\<close>

definition pool_ok :: "lib \<Rightarrow> nonce_pool \<Rightarrow> bool" where
  "pool_ok l p \<longleftrightarrow>
     (\<forall>s xs. pendingTxs p s = Some xs \<longrightarrow> xs \<noteq> [] \<and> by_nonce xs) \<and>
     (\<forall>k a n. keyToNonce p k = Some \<lparr>anp_Address = a, anp_Nonce = n\<rparr> \<longleftrightarrow> (\<exists>pr. pool_abs l p (a, n) = Some (k, pr)))"

datatype pool_op = AddPending bytes address uint64 int64 | RemovePending bytes

fun pool_op_ok :: "pool_op \<Rightarrow> bool" where
  "pool_op_ok (AddPending k a n pr) = (length a = 20)"
| "pool_op_ok (RemovePending k) = True"

fun pool_step :: "lib \<Rightarrow> pool_op \<Rightarrow> nonce_pool \<Rightarrow> nonce_pool" where
  "pool_step l (AddPending k a n pr) p = AddPendingNonce l p k a n pr"
| "pool_step l (RemovePending k) p = RemovePendingNonce l p k"

text \<open>A transaction whose key is known changes nothing; a place is taken when it is free or held at a lower
  priority; removing a key frees its place.\<close>

fun pool_spec :: "pool_op \<Rightarrow> (address \<times> uint64 \<rightharpoonup> bytes \<times> int64) \<Rightarrow> (address \<times> uint64 \<rightharpoonup> bytes \<times> int64)" where
  "pool_spec (AddPending k a n pr) m =
     (if k \<in> fst ` ran m then m
      else case m (a, n) of
        None \<Rightarrow> m((a, n) \<mapsto> (k, pr))
      | Some (k', pr') \<Rightarrow> if sint pr > sint pr' then m((a, n) \<mapsto> (k, pr)) else m)"
| "pool_spec (RemovePending k) m = (\<lambda>x. case m x of None \<Rightarrow> None | Some v \<Rightarrow> if fst v = k then None else Some v)"

lemma slot_iff: "by_nonce xs \<Longrightarrow> slot n xs = Some v \<longleftrightarrow> (\<exists>tx \<in> set xs. pt_Nonce tx = n \<and> v = (pt_Key tx, pt_Priority tx))"
proof -
  assume sorted: "by_nonce xs"
  show ?thesis
  proof
    assume "slot n xs = Some v"
    then show "\<exists>tx \<in> set xs. pt_Nonce tx = n \<and> v = (pt_Key tx, pt_Priority tx)"
      by (auto simp: slot_def find_Some_iff)
  next
    assume "\<exists>tx \<in> set xs. pt_Nonce tx = n \<and> v = (pt_Key tx, pt_Priority tx)"
    then obtain tx where tx: "tx \<in> set xs" "pt_Nonce tx = n" "v = (pt_Key tx, pt_Priority tx)" by blast
    then obtain y where y: "find (\<lambda>tx. pt_Nonce tx = n) xs = Some y" by (cases "find (\<lambda>tx. pt_Nonce tx = n) xs") (auto simp: find_None_iff)
    then have "y \<in> set xs" "pt_Nonce y = n" by (auto simp: find_Some_iff)
    then have "y = tx" using by_nonce_inj [OF sorted] tx by blast
    then show "slot n xs = Some v" using y tx by (simp add: slot_def)
  qed
qed

lemma slot_None: "slot n xs = None \<longleftrightarrow> n \<notin> set (nonces xs)"
  by (auto simp: slot_def find_None_iff)

lemma option_ext: "(\<And>v. x = Some v \<longleftrightarrow> y = Some v) \<Longrightarrow> x = y"
  by (cases x; cases y) auto

lemma slot_insert:
  assumes "by_nonce xs" and "pt_Nonce x \<notin> set (nonces xs)"
  shows "slot n (sort_key pt_Nonce (xs @ [x])) = (if n = pt_Nonce x then Some (pt_Key x, pt_Priority x) else slot n xs)"
proof -
  have "tx \<in> set xs \<Longrightarrow> pt_Nonce tx = pt_Nonce x \<Longrightarrow> False" for tx using assms(2) by (metis imageI set_map)
  then show ?thesis using assms by (intro option_ext) (auto simp: slot_iff by_nonce_insert)
qed

lemma slot_replace:
  assumes "by_nonce (ys @ x # zs)" and "pt_Nonce x' = pt_Nonce x"
  shows "by_nonce (ys @ x' # zs)"
    and "slot n (ys @ x' # zs) = (if n = pt_Nonce x then Some (pt_Key x', pt_Priority x') else slot n (ys @ x # zs))"
proof -
  show ok: "by_nonce (ys @ x' # zs)" using assms by (simp add: by_nonce_def)
  have fresh: "tx \<in> set ys \<union> set zs \<Longrightarrow> pt_Nonce tx = pt_Nonce x \<Longrightarrow> False" for tx
    using assms(1) by (auto simp: by_nonce_iff image_iff)
  show "slot n (ys @ x' # zs) = (if n = pt_Nonce x then Some (pt_Key x', pt_Priority x') else slot n (ys @ x # zs))"
    using fresh assms by (intro option_ext) (auto simp: slot_iff ok)
qed

lemma slot_remove:
  assumes "by_nonce xs" and "i < length xs"
  shows "slot n (take i xs @ drop (Suc i) xs) = (if n = pt_Nonce (xs ! i) then None else slot n xs)"
  using by_nonce_inj [OF assms(1) _ nth_mem [OF assms(2)]] assms
  by (intro option_ext) (auto simp: slot_iff by_nonce_remove simp del: set_append)

section \<open>The operations on the abstract pool\<close>

lemma addr_Hex_inject: "hex_laws l \<Longrightarrow> length a = 20 \<Longrightarrow> length b = 20 \<Longrightarrow> addr_Hex l a = addr_Hex l b \<longleftrightarrow> a = b"
  unfolding hex_laws_def by metis

lemma pool_abs_update:
  assumes "hex_laws l" and "length a = 20"
  shows "pool_abs l (p\<lparr>keyToNonce := kn, pendingTxs := m(addr_Hex l a := v)\<rparr>) (b, n) =
    (if b = a then slot n (case v of None \<Rightarrow> [] | Some xs \<Rightarrow> xs) else pool_abs l (p\<lparr>pendingTxs := m\<rparr>) (b, n))"
  using assms by (auto simp: pool_abs_def pendings_def addr_Hex_inject)

lemma pool_abs_key [simp]: "pool_abs l (p\<lparr>keyToNonce := kn\<rparr>) = pool_abs l p"
  by (auto simp: pool_abs_def pendings_def fun_eq_iff)

lemma pool_ok_sorted: "pool_ok l p \<Longrightarrow> by_nonce (pendings p s)"
  by (auto simp: pool_ok_def pendings_def split: option.splits)

lemma loop_None: "AddPendingNonce_loop k a s n pr p seen xs = None \<longleftrightarrow> n \<notin> set (nonces xs)"
  by (induction xs arbitrary: seen) auto

lemma loop_Some:
  "AddPendingNonce_loop k a s n pr p seen xs = Some p' \<Longrightarrow>
     \<exists>ys tx zs. xs = ys @ tx # zs \<and> pt_Nonce tx = n \<and>
       p' = (if sint pr > sint (pt_Priority tx) then
               p\<lparr>keyToNonce := (keyToNonce p)(pt_Key tx := None, k \<mapsto> \<lparr>anp_Address = a, anp_Nonce = n\<rparr>),
                 pendingTxs := (pendingTxs p)(s \<mapsto> seen @ ys @ tx\<lparr>pt_Priority := pr, pt_Key := k\<rparr> # zs)\<rparr>
             else p)"
proof (induction xs arbitrary: seen)
  case (Cons x xs)
  show ?case
  proof (cases "pt_Nonce x = n")
    case True
    with Cons.prems show ?thesis by - (rule exI [of _ "[]"], rule exI [of _ x], rule exI [of _ xs], auto)
  next
    case False
    with Cons.prems have "AddPendingNonce_loop k a s n pr p (seen @ [x]) xs = Some p'" by simp
    from Cons.IH [OF this] obtain ys tx zs where "xs = ys @ tx # zs" "pt_Nonce tx = n" and
      "p' = (if sint pr > sint (pt_Priority tx) then
               p\<lparr>keyToNonce := (keyToNonce p)(pt_Key tx := None, k \<mapsto> \<lparr>anp_Address = a, anp_Nonce = n\<rparr>),
                 pendingTxs := (pendingTxs p)(s \<mapsto> (seen @ [x]) @ ys @ tx\<lparr>pt_Priority := pr, pt_Key := k\<rparr> # zs)\<rparr>
             else p)" by blast
    then show ?thesis by - (rule exI [of _ "x # ys"], rule exI [of _ tx], rule exI [of _ zs], simp)
  qed
qed simp

lemma known_iff: "pool_ok l p \<Longrightarrow> k \<in> fst ` ran (pool_abs l p) \<longleftrightarrow> keyToNonce p k \<noteq> None"
proof -
  assume ok: "pool_ok l p"
  have "(\<exists>x. keyToNonce p k = Some x) \<longleftrightarrow> (\<exists>a n. keyToNonce p k = Some \<lparr>anp_Address = a, anp_Nonce = n\<rparr>)"
    by (metis AddressNoncePair.surjective old.unit.exhaust)
  then have "keyToNonce p k \<noteq> None \<longleftrightarrow> (\<exists>a n pr. pool_abs l p (a, n) = Some (k, pr))"
    using ok by (auto simp: pool_ok_def)
  moreover have "k \<in> fst ` ran m \<longleftrightarrow> (\<exists>a n pr. m (a, n) = Some (k, pr))" for m :: "address \<times> uint64 \<rightharpoonup> bytes \<times> int64"
    by (auto simp: ran_def image_def)
  ultimately show ?thesis by simp
qed

lemma pool_okI:
  assumes "\<And>s xs. pendingTxs p' s = Some xs \<Longrightarrow> xs \<noteq> [] \<and> by_nonce xs" and "pool_abs l p' = m"
    and "\<And>k a n. keyToNonce p' k = Some \<lparr>anp_Address = a, anp_Nonce = n\<rparr> \<longleftrightarrow> (\<exists>pr. m (a, n) = Some (k, pr))"
  shows "pool_ok l p' \<and> pool_abs l p' = m"
  using assms by (simp add: pool_ok_def)

lemma pool_index: "pool_ok l p \<Longrightarrow> keyToNonce p k = Some \<lparr>anp_Address = a, anp_Nonce = n\<rparr> \<longleftrightarrow> (\<exists>pr. pool_abs l p (a, n) = Some (k, pr))"
  by (simp add: pool_ok_def)

lemma pool_put:
  assumes "hex_laws l" and ok: "pool_ok l p" and a: "length a = 20" and k: "keyToNonce p k = None"
    and ys: "by_nonce ys" "ys \<noteq> []"
      "\<And>n'. slot n' ys = (if n' = n then Some (k, pr) else slot n' (pendings p (addr_Hex l a)))"
    and kn: "\<And>k'. kn k' = (if k' = k then Some \<lparr>anp_Address = a, anp_Nonce = n\<rparr>
      else if \<exists>pr'. pool_abs l p (a, n) = Some (k', pr') then None else keyToNonce p k')"
  shows "pool_ok l (p\<lparr>keyToNonce := kn, pendingTxs := (pendingTxs p)(addr_Hex l a \<mapsto> ys)\<rparr>) \<and>
    pool_abs l (p\<lparr>keyToNonce := kn, pendingTxs := (pendingTxs p)(addr_Hex l a \<mapsto> ys)\<rparr>) = (pool_abs l p)((a, n) \<mapsto> (k, pr))"
proof (rule pool_okI)
  let ?p = "p\<lparr>keyToNonce := kn, pendingTxs := (pendingTxs p)(addr_Hex l a \<mapsto> ys)\<rparr>"
  show "xs \<noteq> [] \<and> by_nonce xs" if "pendingTxs ?p s = Some xs" for s xs
    using ok that ys(1,2) by (simp add: pool_ok_def split: if_splits)
  have "pool_abs l ?p (b, n') = ((pool_abs l p)((a, n) \<mapsto> (k, pr))) (b, n')" for b n'
    using ys(3) [of n'] a unfolding pool_abs_update [OF assms(1) a] by (auto simp: pool_abs_def)
  then show "pool_abs l ?p = (pool_abs l p)((a, n) \<mapsto> (k, pr))" by auto
  fix k' b n'
  have "pool_abs l p (b, n') \<noteq> Some (k, pr')" for pr' using pool_index [OF ok] k by (metis option.distinct(1))
  then show "keyToNonce ?p k' = Some \<lparr>anp_Address = b, anp_Nonce = n'\<rparr> \<longleftrightarrow> (\<exists>pr'. ((pool_abs l p)((a, n) \<mapsto> (k, pr))) (b, n') = Some (k', pr'))"
    using pool_index [OF ok, of k' b n'] pool_index [OF ok, of k' a n] by (cases "k' = k") (auto simp: kn)
qed

lemma AddPendingNonce_refines:
  assumes hex: "hex_laws l" and ok: "pool_ok l p" and a: "length a = 20"
  shows "pool_ok l (AddPendingNonce l p k a n pr) \<and> pool_abs l (AddPendingNonce l p k a n pr) = pool_spec (AddPending k a n pr) (pool_abs l p)"
proof (cases "keyToNonce p k")
  case (Some x)
  then show ?thesis using ok known_iff [OF ok, of k] by (simp add: AddPendingNonce_def Let_def)
next
  case None
  let ?s = "addr_Hex l a" and ?e = "\<lparr>anp_Address = a, anp_Nonce = n\<rparr>"
  have sorted: "by_nonce (pendings p ?s)" by (rule pool_ok_sorted [OF ok])
  have at: "pool_abs l p (a, n) = slot n (pendings p ?s)" using a by (simp add: pool_abs_def)
  have spec: "k \<notin> fst ` ran (pool_abs l p)" using known_iff [OF ok] None by simp
  show ?thesis
  proof (cases "AddPendingNonce_loop k a ?s n pr p [] (pendings p ?s)")
    case None': None
    then have fresh: "n \<notin> set (nonces (pendings p ?s))" by (simp add: loop_None del: set_map)
    let ?x = "\<lparr>pt_Key = k, pt_Nonce = n, pt_Priority = pr\<rparr>"
    let ?ys = "sort_key pt_Nonce (pendings p ?s @ [?x])"
    have res: "AddPendingNonce l p k a n pr = p\<lparr>keyToNonce := (keyToNonce p)(k \<mapsto> ?e), pendingTxs := (pendingTxs p)(?s \<mapsto> ?ys)\<rparr>"
      using None None' by (simp add: AddPendingNonce_def Let_def)
    have free: "pool_abs l p (a, n) = None" using at fresh by (simp add: slot_None)
    have "?x \<in> set ?ys" by simp
    then have "?ys \<noteq> []" by (metis empty_iff list.set(1))
    then show ?thesis unfolding res
      using pool_put [OF hex ok a None, of ?ys n pr "(keyToNonce p)(k \<mapsto> ?e)"]
        by_nonce_insert [OF sorted, of ?x] slot_insert [OF sorted, of ?x] fresh free spec by (simp del: sort_key_const)
  next
    case (Some p')
    then obtain ys tx zs where xs: "pendings p ?s = ys @ tx # zs" "pt_Nonce tx = n"
      and p': "p' = (if sint pr > sint (pt_Priority tx) then
               p\<lparr>keyToNonce := (keyToNonce p)(pt_Key tx := None, k \<mapsto> ?e),
                 pendingTxs := (pendingTxs p)(?s \<mapsto> ys @ tx\<lparr>pt_Priority := pr, pt_Key := k\<rparr> # zs)\<rparr>
             else p)" using loop_Some [OF Some] by auto
    have res: "AddPendingNonce l p k a n pr = p'" using None Some by (simp add: AddPendingNonce_def Let_def)
    have held: "pool_abs l p (a, n) = Some (pt_Key tx, pt_Priority tx)"
      unfolding at slot_iff [OF sorted] using xs by auto
    show ?thesis
    proof (cases "sint pr > sint (pt_Priority tx)")
      case True
      then show ?thesis unfolding res p'
        using pool_put [OF hex ok a None, of "ys @ tx\<lparr>pt_Priority := pr, pt_Key := k\<rparr> # zs" n pr "(keyToNonce p)(pt_Key tx := None, k \<mapsto> ?e)"]
          slot_replace [of ys tx zs "tx\<lparr>pt_Priority := pr, pt_Key := k\<rparr>"] sorted xs held spec by simp
    next
      case False
      then show ?thesis unfolding res p' using ok held spec by simp
    qed
  qed
qed

lemma RemovePendingNonce_refines:
  assumes hex: "hex_laws l" and ok: "pool_ok l p"
  shows "pool_ok l (RemovePendingNonce l p k) \<and> pool_abs l (RemovePendingNonce l p k) = pool_spec (RemovePending k) (pool_abs l p)"
proof (cases "keyToNonce p k")
  case None
  then have "pool_abs l p x \<noteq> Some (k, pr)" for x pr using pool_index [OF ok] by (cases x) (metis option.distinct(1))
  then have "pool_spec (RemovePending k) (pool_abs l p) = pool_abs l p" by (auto simp: fun_eq_iff split: option.splits)
  with None ok show ?thesis by (simp add: RemovePendingNonce_def)
next
  case (Some e)
  obtain a n where e: "e = \<lparr>anp_Address = a, anp_Nonce = n\<rparr>" by (cases e) simp
  let ?s = "addr_Hex l a" and ?kn = "(keyToNonce p)(k := None)"
  let ?xs = "pendings p ?s" and ?i = "fst (find_nonce n (pendings p ?s))"
  let ?ys = "take ?i ?xs @ drop (Suc ?i) ?xs"
  have sorted: "by_nonce ?xs" by (rule pool_ok_sorted [OF ok])
  have lists: "xs \<noteq> [] \<and> by_nonce xs" if "pendingTxs p s = Some xs" for s xs using ok that by (simp add: pool_ok_def)
  obtain pr where held: "pool_abs l p (a, n) = Some (k, pr)" using pool_index [OF ok] Some e by blast
  then have a: "length a = 20" by (simp add: pool_abs_def split: if_splits)
  have at: "pool_abs l p (a, n') = slot n' ?xs" for n' using a by (simp add: pool_abs_def)
  have found: "snd (find_nonce n ?xs)" using held at slot_None [of n ?xs] by (simp add: find_nonce_correct(1) [OF sorted])
  have i: "?i < length ?xs" "pt_Nonce (?xs ! ?i) = n" using find_nonce_correct(2) [OF sorted found] by simp_all
  let ?v = "if ?ys = [] then None else Some ?ys"
  let ?p = "p\<lparr>keyToNonce := ?kn, pendingTxs := (pendingTxs p)(?s := ?v)\<rparr>"
  have res: "RemovePendingNonce l p k = ?p"
    using Some found by (simp add: RemovePendingNonce_def e Let_def pendings_def case_prod_unfold)
  have "pool_abs l ?p (b, n') = ((pool_abs l p)((a, n) := None)) (b, n')" for b n'
    using slot_remove [OF sorted i(1), of n'] i(2) at [of n'] by (auto simp: pool_abs_update [OF hex a] split: if_splits)
  then have abs: "pool_abs l ?p = (pool_abs l p)((a, n) := None)" by auto
  have "pool_ok l ?p \<and> pool_abs l ?p = (pool_abs l p)((a, n) := None)"
  proof (rule pool_okI)
    fix k' b n'
    show "keyToNonce ?p k' = Some \<lparr>anp_Address = b, anp_Nonce = n'\<rparr> \<longleftrightarrow> (\<exists>pr. ((pool_abs l p)((a, n) := None)) (b, n') = Some (k', pr))"
      using held Some e pool_index [OF ok, of k' b n'] by auto
  qed (use abs lists by_nonce_remove(1) [OF sorted i(1)] in \<open>auto split: if_splits\<close>)
  moreover have "pool_spec (RemovePending k) (pool_abs l p) = (pool_abs l p)((a, n) := None)"
  proof
    fix x :: "address \<times> uint64"
    show "pool_spec (RemovePending k) (pool_abs l p) x = ((pool_abs l p)((a, n) := None)) x"
      using held Some e pool_index [OF ok, of k "fst x" "snd x"] by (cases x) (auto split: option.splits)
  qed
  ultimately show ?thesis unfolding res by simp
qed

section \<open>Simulation\<close>

text \<open>Operations that keep an invariant and commute with an abstraction do so in every sequence.\<close>

locale simulation =
  fixes inv :: "'s \<Rightarrow> bool" and abs :: "'s \<Rightarrow> 'a" and op_ok :: "'op \<Rightarrow> bool"
    and step :: "'op \<Rightarrow> 's \<Rightarrow> 's" and spec :: "'op \<Rightarrow> 'a \<Rightarrow> 'a"
  assumes step: "inv s \<Longrightarrow> op_ok x \<Longrightarrow> inv (step x s) \<and> abs (step x s) = spec x (abs s)"
begin

lemma run: "inv s \<Longrightarrow> list_all op_ok xs \<Longrightarrow> inv (fold step xs s) \<and> abs (fold step xs s) = fold spec xs (abs s)"
  using step by (induction xs arbitrary: s) auto

end

text \<open>The laws of the address text are those of \<open>hex_laws\<close>: the simulation is over the pools of any library
  that satisfies them.\<close>

interpretation pool_sim: simulation "\<lambda>(l, p). hex_laws l \<and> pool_ok l p" "\<lambda>(l, p). pool_abs l p" pool_op_ok
  "\<lambda>x (l, p). (l, pool_step l x p)" pool_spec
proof
  fix s :: "lib \<times> nonce_pool" and x
  assume "case s of (l, p) \<Rightarrow> hex_laws l \<and> pool_ok l p" "pool_op_ok x"
  then show "(case (case s of (l, p) \<Rightarrow> (l, pool_step l x p)) of (l, p) \<Rightarrow> hex_laws l \<and> pool_ok l p) \<and>
    (case (case s of (l, p) \<Rightarrow> (l, pool_step l x p)) of (l, p) \<Rightarrow> pool_abs l p) = pool_spec x (case s of (l, p) \<Rightarrow> pool_abs l p)"
    by (cases x) (auto simp: AddPendingNonce_refines RemovePendingNonce_refines simp del: pool_spec.simps)
qed

definition empty_pool :: nonce_pool where
  "empty_pool = \<lparr>pendingTxs = Map.empty, keyToNonce = Map.empty\<rparr>"

lemma empty_pool_ok [simp]: "pool_ok l empty_pool" "pool_abs l empty_pool = Map.empty"
  by (auto simp: pool_ok_def empty_pool_def pool_abs_def pendings_def slot_def)

lemma fold_pool: "fold (\<lambda>x (l, p). (l, pool_step l x p)) xs (l, p) = (l, fold (pool_step l) xs p)"
  by (induction xs arbitrary: p) simp_all

text \<open>C26 (pool_refines): from the empty pool, any sequence of additions and removals keeps the lists strictly sorted by nonce
  and never empty, keeps the index the mirror of the lists, and does to them what it does to one map from
  sender and nonce to the key and priority that hold the place.\<close>

theorem pool_refines:
  assumes "hex_laws l" and "list_all pool_op_ok ops"
  shows "pool_ok l (fold (pool_step l) ops empty_pool) \<and>
    pool_abs l (fold (pool_step l) ops empty_pool) = fold pool_spec ops Map.empty"
  using pool_sim.run [of "(l, empty_pool)" ops] assms by (simp add: fold_pool)

theorem pool_refines_witness:
  "pool_abs lib_lower (fold (pool_step lib_lower)
      [AddPending [1] (replicate 20 7) 5 2, AddPending [2] (replicate 20 7) 5 9, RemovePending [1]] empty_pool) =
     [(replicate 20 7, 5) \<mapsto> ([2], 9)]"
proof -
  let ?ops = "[AddPending [1] (replicate 20 7) 5 2, AddPending [2] (replicate 20 7) 5 9, RemovePending [1]]"
  have "pool_abs lib_lower (fold (pool_step lib_lower) ?ops empty_pool) = fold pool_spec ?ops Map.empty"
    using pool_refines [of lib_lower ?ops] by simp
  also have "\<dots> = [(replicate 20 7, 5) \<mapsto> ([2], 9)]" by (auto simp: fun_eq_iff)
  finally show ?thesis .
qed

section \<open>The next nonce\<close>

lemma next_nonce_reaches:
  assumes "by_nonce xs"
  shows "(\<And>j. j < k \<Longrightarrow> n + word_of_nat j \<in> set (nonces xs)) \<Longrightarrow> n + word_of_nat k \<notin> set (nonces xs) \<Longrightarrow>
    CalculateNextNonce_loop xs n = Some (n + word_of_nat k)"
proof (induction k arbitrary: n)
  case 0
  then show ?case by (subst CalculateNextNonce_loop.simps) (simp add: find_nonce_correct(1) [OF assms])
next
  case (Suc k)
  have here: "n \<in> set (nonces xs)" using Suc.prems(1) [of 0] by simp
  have "n + 1 + word_of_nat j \<in> set (nonces xs)" if "j < k" for j using Suc.prems(1) [of "Suc j"] that by (simp add: ac_simps)
  moreover have "n + 1 + word_of_nat k \<notin> set (nonces xs)" using Suc.prems(2) by (simp add: ac_simps)
  ultimately have "CalculateNextNonce_loop xs (n + 1) = Some (n + 1 + word_of_nat k)" by (rule Suc.IH)
  then show ?case using here by (subst CalculateNextNonce_loop.simps) (simp add: find_nonce_correct(1) [OF assms] ac_simps)
qed

lemma inj_on_offset: "k \<le> 2 ^ 64 \<Longrightarrow> inj_on (\<lambda>j. n + word_of_nat j :: uint64) {..<k}"
proof (rule inj_onI)
  fix x y assume "k \<le> 2 ^ 64" "x \<in> {..<k}" "y \<in> {..<k}" "n + (word_of_nat x :: uint64) = n + word_of_nat y"
  then have "unat (word_of_nat x :: uint64) = unat (word_of_nat y :: uint64)" "x < 2 ^ 64" "y < 2 ^ 64" by auto
  then show "x = y" by (simp add: unat_of_nat)
qed

lemma pending_run_le:
  assumes "\<And>j. j < k \<Longrightarrow> n + word_of_nat j \<in> set (nonces xs)" and "k \<le> 2 ^ 64"
  shows "k \<le> length xs"
proof -
  have "k = card ((\<lambda>j. n + word_of_nat j :: uint64) ` {..<k})" using card_image [OF inj_on_offset [OF assms(2)]] by simp
  also have "\<dots> \<le> card (set (nonces xs))" using assms(1) by (intro card_mono) auto
  also have "\<dots> \<le> length (nonces xs)" by (rule card_length)
  finally show ?thesis by simp
qed

lemma next_nonce_exists:
  assumes "length xs < 2 ^ 64"
  shows "\<exists>k \<le> length xs. (\<forall>j < k. n + word_of_nat j \<in> set (nonces xs)) \<and> n + word_of_nat k \<notin> set (nonces xs)"
proof -
  let ?P = "\<lambda>k. n + word_of_nat k \<notin> set (nonces xs)"
  have "\<exists>k < Suc (length xs). ?P k"
  proof (rule ccontr)
    assume "\<not> (\<exists>k < Suc (length xs). ?P k)"
    then have "Suc (length xs) \<le> length xs" using assms by (intro pending_run_le [of _ n]) auto
    then show False by simp
  qed
  then obtain k where k: "k < Suc (length xs)" "?P k" by blast
  then have "?P (Least ?P)" "Least ?P \<le> k" "\<forall>j < Least ?P. \<not> ?P j"
    using LeastI [of ?P k] Least_le [of ?P k] not_less_Least [of _ ?P] by blast+
  with k(1) show ?thesis by (intro exI [of _ "Least ?P"]) auto
qed

text \<open>C27 (CalculateNextNonce_first_gap): in every state of the pool, with fewer than 2^64 transactions pending for the address, the loop of
  \<open>CalculateNextNonce\<close> ends: it returns the first nonce, counting up from the nonce of the account and
  wrapping at 64 bits, that no pending transaction of the address holds. Without pending transactions
  requested the result is the nonce of the account.\<close>

theorem CalculateNextNonce_first_gap:
  assumes "hex_laws l" and "list_all pool_op_ok ops" and "length a = 20" and "keeper_GetNonce c a = Done n"
    and p: "p = fold (pool_step l) ops empty_pool" and "length (pendings p (addr_Hex l a)) < 2 ^ 64"
  shows "CalculateNextNonce l p c a False = Done (Some n) \<and>
    (\<exists>k \<le> length (pendings p (addr_Hex l a)).
      CalculateNextNonce l p c a True = Done (Some (n + word_of_nat k)) \<and>
      pool_abs l p (a, n + word_of_nat k) = None \<and> (\<forall>j < k. pool_abs l p (a, n + word_of_nat j) \<noteq> None))"
proof -
  let ?xs = "pendings p (addr_Hex l a)"
  have "pool_ok l p" using pool_sim.run [of "(l, empty_pool)" ops] assms(1,2) by (simp add: fold_pool p)
  then have sorted: "by_nonce ?xs" by (rule pool_ok_sorted)
  obtain k where k: "k \<le> length ?xs" "\<forall>j < k. n + word_of_nat j \<in> set (nonces ?xs)" "n + word_of_nat k \<notin> set (nonces ?xs)"
    using next_nonce_exists [OF assms(6)] by blast
  then have "CalculateNextNonce_loop ?xs n = Some (n + word_of_nat k)" by (intro next_nonce_reaches [OF sorted]) auto
  moreover have "pool_abs l p (a, n') = None \<longleftrightarrow> n' \<notin> set (nonces ?xs)" for n' using assms(3) by (simp add: pool_abs_def slot_None)
  ultimately show ?thesis using k assms(4) by (intro conjI exI [of _ k]) (auto simp: CalculateNextNonce_def)
qed

theorem CalculateNextNonce_first_gap_witness:
  "CalculateNextNonce lib_lower (fold (pool_step lib_lower)
     [AddPending [1] (replicate 20 7) 1 2, AddPending [2] (replicate 20 7) 0 9, AddPending [3] (replicate 20 7) 3 9] empty_pool)
     ctx0 (replicate 20 7) True = Done (Some 2)"
proof -
  let ?a = "replicate 20 7 :: address"
  let ?ops = "[AddPending [1] ?a 1 2, AddPending [2] ?a 0 9, AddPending [3] ?a 3 9]"
  define p where p: "p = fold (pool_step lib_lower) ?ops empty_pool"
  have ok: "pool_ok lib_lower p \<and> pool_abs lib_lower p = fold pool_spec ?ops Map.empty"
    using pool_sim.run [of "(lib_lower, empty_pool)" ?ops] by (simp add: fold_pool p)
  have abs: "pool_abs lib_lower p (?a, n) = (if n = 0 then Some ([2], 9) else if n = 1 then Some ([1], 2) else if n = 3 then Some ([3], 9) else None)" for n
    using ok by simp
  let ?xs = "pendings p (addr_Hex lib_lower ?a)"
  have "n \<in> set (nonces ?xs) \<longleftrightarrow> n \<in> {0, 1, 3}" for n using abs [of n] slot_None [of n ?xs] by (auto simp: pool_abs_def split: if_splits)
  then have "set (nonces ?xs) = {0, 1, 3}" by blast
  moreover have "distinct (nonces ?xs)" using pool_ok_sorted [of lib_lower p] ok by (simp add: by_nonce_iff)
  ultimately have "length (nonces ?xs) = card {0, 1, 3 :: uint64}" by (metis distinct_card)
  then have len: "length ?xs < 2 ^ 64" by simp
  have "keeper_GetNonce ctx0 ?a = Done 0" by (simp add: keeper_GetNonce_def PrefixStore_Get_def)
  then obtain k where k: "CalculateNextNonce lib_lower p ctx0 ?a True = Done (Some (0 + word_of_nat k))"
      "pool_abs lib_lower p (?a, 0 + word_of_nat k) = None" "\<forall>j < k. pool_abs lib_lower p (?a, 0 + word_of_nat j) \<noteq> None"
    using CalculateNextNonce_first_gap [of lib_lower ?ops ?a ctx0 0 p] p len by auto
  have "\<not> 2 < k" using k(3) abs [of 2] by auto
  moreover have "k \<noteq> 0" using k(2) abs [of 0] by (intro notI) simp
  moreover have "k \<noteq> 1" using k(2) abs [of 1] by (intro notI) simp
  ultimately have "k = 2" by simp
  then show ?thesis using k(1) p by simp
qed

end
