(* ===== verification/Pb_EthTx.thy ===== *)
theory Pb_EthTx
  imports Pb_Types EthTx_Data
begin

text \<open>
  \<open>x/evm/types/ethtx/tx.pb.go\<close>: the encoding of the transactions, and \<open>UnpackTxData\<close> of \<open>x/evm/types/codec.go\<close>,
  which finds out the kind of a transaction by trying the decoders in turn. There is one definition per case of
  the switch of each \<open>Unmarshal\<close>. A field of type \<open>*sdk.Int\<close> is an \<open>int option\<close>: a pointer to an \<open>Int\<close> without a
  value and the nil pointer are the same, as \<open>BigInt\<close> gives nil for both.

  Decoding what was encoded gives the transaction back (\<open>LegacyTx_loop\<close> and its siblings).
\<close>

section \<open>Optional integers\<close>

definition int_bytes :: "int_codec \<Rightarrow> int \<Rightarrow> bytes" where
  "int_bytes ic x = (case Int_Marshal ic (Some x) of Inl _ \<Rightarrow> [] | Inr bz \<Rightarrow> bz)"

definition put_int :: "int_codec \<Rightarrow> byte \<Rightarrow> bigint \<Rightarrow> bytes" where
  "put_int ic tag v = (case v of None \<Rightarrow> [] | Some x \<Rightarrow> put_elem tag (int_bytes ic x))"

definition size_int :: "int_codec \<Rightarrow> bigint \<Rightarrow> nat" where
  "size_int ic v = (case v of None \<Rightarrow> 0 | Some x \<Rightarrow> size_elem (Int_Size ic (Some x)))"

text \<open>The error of \<open>Marshal\<close>: the fields are written from the last to the first, and the first integer that cannot
  be written ends it.\<close>

fun int_error :: "int_codec \<Rightarrow> bigint list \<Rightarrow> error" where
  "int_error ic [] = None"
| "int_error ic (v # vs) =
     (case v of
        None \<Rightarrow> int_error ic vs
      | Some x \<Rightarrow> (case Int_Marshal ic (Some x) of Inl e \<Rightarrow> Some e | Inr _ \<Rightarrow> int_error ic vs))"

definition int_fits :: "bigint \<Rightarrow> bool" where
  "int_fits v \<longleftrightarrow> (case v of None \<Rightarrow> True | Some x \<Rightarrow> big_BitLen x \<le> 256)"

named_theorems pb_steps
named_theorems pb_defs

lemma length_put_int [simp]: "length (put_int ic tag v) = size_int ic v"
  by (simp add: put_int_def size_int_def int_bytes_def Int_Size_def split: option.splits sum.splits)

lemma int_error_None: "int_codec_laws ic \<Longrightarrow> list_all int_fits vs \<Longrightarrow> int_error ic vs = None"
  by (induction vs) (auto simp: int_fits_def int_codec_laws_def split: option.splits sum.splits)

lemma pb_loop_put_int:
  assumes "unat tag < 128" and "0 < unat tag div 8" and "unat tag mod 8 = 2"
    and "h (int (unat tag div 8)) = Some (BytesField name (\<lambda>b m. case Int_Unmarshal ic b None of Inl e \<Rightarrow> Inl e | Inr v \<Rightarrow> Inr (upd v m)))"
    and "l < 2 ^ 63" and "int (length (put_int ic tag v @ r)) \<le> l" and "int_codec_laws ic" and "int_fits v" and "upd None m = m"
  shows "pb_loop h l (put_int ic tag v @ r) m = pb_loop h l r (upd v m)"
proof (cases v)
  case None
  then show ?thesis using assms(9) by (simp add: put_int_def)
next
  case (Some x)
  with assms(7,8) have "Int_Unmarshal ic (int_bytes ic x) None = Inr (Some x)"
    by (auto simp: int_codec_laws_def int_fits_def int_bytes_def split: sum.splits)
  then show ?thesis
    using pb_loop_put_elem [of tag h, OF assms(1-5), of "int_bytes ic x" r m "upd v m"] assms(6) Some by (simp add: put_int_def)
qed

definition put_opt :: "byte \<Rightarrow> ('s \<Rightarrow> bytes) \<Rightarrow> 's option \<Rightarrow> bytes" where
  "put_opt tag mar v = (case v of None \<Rightarrow> [] | Some s \<Rightarrow> put_elem tag (mar s))"

definition size_opt :: "('s \<Rightarrow> nat) \<Rightarrow> 's option \<Rightarrow> nat" where
  "size_opt siz v = (case v of None \<Rightarrow> 0 | Some s \<Rightarrow> size_elem (siz s))"

lemma length_put_opt [simp]: "length (put_opt tag mar v) = size_opt (\<lambda>s. length (mar s)) v"
  by (simp add: put_opt_def size_opt_def split: option.splits)

lemma pb_loop_put_opt:
  assumes "unat tag < 128" and "0 < unat tag div 8" and "unat tag mod 8 = 2"
    and "h (int (unat tag div 8)) = Some (BytesField name f)" and "l < 2 ^ 63" and "int (length (put_opt tag mar v @ r)) \<le> l"
    and "\<And>s. length (mar s) = siz s" and "\<And>s. v = Some s \<Longrightarrow> siz s < 2 ^ 63 \<Longrightarrow> f (mar s) m = Inr m'" and "v = None \<Longrightarrow> m' = m"
  shows "pb_loop h l (put_opt tag mar v @ r) m = pb_loop h l r m'"
proof (cases v)
  case (Some s)
  then have "siz s < 2 ^ 63" using assms(5,6) by (simp add: size_opt_def size_elem_def assms(7))
  then show ?thesis
    using pb_loop_put_elem [of tag h, OF assms(1-5), of "mar s" r m m'] assms(6,8) Some by (simp add: put_opt_def)
qed (use assms(9) in \<open>simp add: put_opt_def\<close>)

lemma pb_loop_put_msgs:
  assumes "unat tag < 128" and "0 < unat tag div 8" and "unat tag mod 8 = 2"
    and "h (int (unat tag div 8)) = Some (BytesField name f)" and "l < 2 ^ 63"
    and "int (length (concat (map (\<lambda>e. put_elem tag (mar e)) es) @ r)) \<le> l"
    and "\<And>e. length (mar e) = siz e" and "\<And>e. siz e < 2 ^ 63 \<Longrightarrow> unm (mar e) = Inr e"
    and "f = (\<lambda>b m. case unm b of Inl e \<Rightarrow> Inl e | Inr v \<Rightarrow> Inr (upd (get m @ [v]) m))"
    and "\<And>xs. get (upd xs m) = xs" and "\<And>xs ys. upd xs (upd ys m) = upd xs m" and "upd [] m = m"
  shows "pb_loop h l (concat (map (\<lambda>e. put_elem tag (mar e)) es) @ r) m = pb_loop h l r (upd es m)"
proof -
  have "siz e < 2 ^ 63" if "e \<in> set es" for e
  proof -
    from that have "size_elem (siz e) \<le> sum_list (map (\<lambda>e. size_elem (siz e)) es)" by (intro member_le_sum_list) auto
    then show ?thesis using assms(5,6) by (simp add: length_concat_put_elem size_elem_def assms(7))
  qed
  then show ?thesis
    by (intro pb_loop_put_list [of tag h name f l es mar "\<lambda>xs. upd xs m"]) (use assms in simp_all)
qed

section \<open>AccessTuple\<close>

definition AccessTuple_zero :: AccessTuple where
  "AccessTuple_zero = \<lparr>at_Address = '''', at_StorageKeys = []\<rparr>"

definition AccessTuple_Marshal :: "AccessTuple \<Rightarrow> bytes" where
  "AccessTuple_Marshal m =
     put_bytes 0x0A (str_bytes (at_Address m)) @
     concat (map (\<lambda>s. put_elem 0x12 (str_bytes s)) (at_StorageKeys m))"

definition AccessTuple_Size :: "AccessTuple \<Rightarrow> nat" where
  "AccessTuple_Size m =
     size_bytes (length (at_Address m)) +
     sum_list (map (\<lambda>s. size_elem (length s)) (at_StorageKeys m))"

definition AccessTuple_Address_case :: "AccessTuple pb_case" where
  "AccessTuple_Address_case = BytesField ''Address'' (\<lambda>b m. Inr (m\<lparr>at_Address := bytes_str b\<rparr>))"

definition AccessTuple_StorageKeys_case :: "AccessTuple pb_case" where
  "AccessTuple_StorageKeys_case = BytesField ''StorageKeys'' (\<lambda>b m. Inr (m\<lparr>at_StorageKeys := at_StorageKeys m @ [bytes_str b]\<rparr>))"

definition AccessTuple_field :: "int \<Rightarrow> AccessTuple pb_case option" where
  "AccessTuple_field n =
     (if n = 1 then Some AccessTuple_Address_case
      else if n = 2 then Some AccessTuple_StorageKeys_case
      else None)"

definition AccessTuple_Unmarshal :: "bytes \<Rightarrow> AccessTuple \<Rightarrow> string + AccessTuple" where
  "AccessTuple_Unmarshal dAtA m = pb_unmarshal AccessTuple_field dAtA m"

lemmas AccessTuple_cases [pb_defs] = AccessTuple_field_def AccessTuple_Address_case_def AccessTuple_StorageKeys_case_def

lemma AccessTuple_Address_step [pb_steps]:
  "l < 2 ^ 63 \<Longrightarrow> int (length (put_bytes 0x0A (str_bytes v) @ r)) \<le> l \<Longrightarrow> at_Address m = [] \<Longrightarrow>
     pb_loop AccessTuple_field l (put_bytes 0x0A (str_bytes v) @ r) m = pb_loop AccessTuple_field l r (m\<lparr>at_Address := v\<rparr>)"
  by (subst pb_loop_put_bytes [where g = "\<lambda>b. m\<lparr>at_Address := bytes_str b\<rparr>" and f = "\<lambda>b m. Inr (m\<lparr>at_Address := bytes_str b\<rparr>)"]) (simp_all add: pb_defs)

lemma AccessTuple_StorageKeys_step [pb_steps]:
  "l < 2 ^ 63 \<Longrightarrow> int (length (concat (map (\<lambda>s. put_elem 0x12 (str_bytes s)) v) @ r)) \<le> l \<Longrightarrow> at_StorageKeys m = [] \<Longrightarrow>
     pb_loop AccessTuple_field l (concat (map (\<lambda>s. put_elem 0x12 (str_bytes s)) v) @ r) m = pb_loop AccessTuple_field l r (m\<lparr>at_StorageKeys := v\<rparr>)"
  by (rule pb_loop_put_list [where f = "\<lambda>b m. Inr (m\<lparr>at_StorageKeys := at_StorageKeys m @ [bytes_str b]\<rparr>)"]) (simp_all add: pb_defs)

lemma length_AccessTuple [simp]: "length (AccessTuple_Marshal m) = AccessTuple_Size m"
  by (simp add: AccessTuple_Marshal_def AccessTuple_Size_def length_concat_put_elem split: option.splits)

lemma AccessTuple_loop:
  "l < 2 ^ 63 \<Longrightarrow> int (AccessTuple_Size m + length r) \<le> l \<Longrightarrow>
     pb_loop AccessTuple_field l (AccessTuple_Marshal m @ r) AccessTuple_zero = pb_loop AccessTuple_field l r m"
  unfolding AccessTuple_Marshal_def append_assoc
  by (cases m) (simp add: pb_steps length_concat_put_elem AccessTuple_Size_def AccessTuple_zero_def)

lemma AccessTuple_Unmarshal_Marshal: "AccessTuple_Size m < 2 ^ 63 \<Longrightarrow> AccessTuple_Unmarshal (AccessTuple_Marshal m) AccessTuple_zero = Inr m"
  using AccessTuple_loop [of "int (AccessTuple_Size m)" m "[]"] by (simp add: AccessTuple_Unmarshal_def pb_unmarshal_def)

interpretation tuple_pb: pb_message AccessTuple_Marshal AccessTuple_Size AccessTuple_Unmarshal AccessTuple_zero
  by unfold_locales (simp_all add: AccessTuple_Unmarshal_Marshal)

section \<open>AssociateTx\<close>

definition AssociateTx_zero :: AssociateTx where
  "AssociateTx_zero = \<lparr>as_V = [], as_R = [], as_S = [], as_CustomMessage = ''''\<rparr>"

definition AssociateTx_Marshal :: "AssociateTx \<Rightarrow> bytes" where
  "AssociateTx_Marshal m =
     put_bytes 0x0A (as_V m) @
     put_bytes 0x12 (as_R m) @
     put_bytes 0x1A (as_S m) @
     put_bytes 0x22 (str_bytes (as_CustomMessage m))"

definition AssociateTx_Size :: "AssociateTx \<Rightarrow> nat" where
  "AssociateTx_Size m =
     size_bytes (length (as_V m)) +
     size_bytes (length (as_R m)) +
     size_bytes (length (as_S m)) +
     size_bytes (length (as_CustomMessage m))"

definition AssociateTx_V_case :: "AssociateTx pb_case" where
  "AssociateTx_V_case = BytesField ''V'' (\<lambda>b m. Inr (m\<lparr>as_V := b\<rparr>))"

definition AssociateTx_R_case :: "AssociateTx pb_case" where
  "AssociateTx_R_case = BytesField ''R'' (\<lambda>b m. Inr (m\<lparr>as_R := b\<rparr>))"

definition AssociateTx_S_case :: "AssociateTx pb_case" where
  "AssociateTx_S_case = BytesField ''S'' (\<lambda>b m. Inr (m\<lparr>as_S := b\<rparr>))"

definition AssociateTx_CustomMessage_case :: "AssociateTx pb_case" where
  "AssociateTx_CustomMessage_case = BytesField ''CustomMessage'' (\<lambda>b m. Inr (m\<lparr>as_CustomMessage := bytes_str b\<rparr>))"

definition AssociateTx_field :: "int \<Rightarrow> AssociateTx pb_case option" where
  "AssociateTx_field n =
     (if n = 1 then Some AssociateTx_V_case
      else if n = 2 then Some AssociateTx_R_case
      else if n = 3 then Some AssociateTx_S_case
      else if n = 4 then Some AssociateTx_CustomMessage_case
      else None)"

definition AssociateTx_Unmarshal :: "bytes \<Rightarrow> AssociateTx \<Rightarrow> string + AssociateTx" where
  "AssociateTx_Unmarshal dAtA m = pb_unmarshal AssociateTx_field dAtA m"

lemmas AssociateTx_cases [pb_defs] = AssociateTx_field_def AssociateTx_V_case_def AssociateTx_R_case_def AssociateTx_S_case_def AssociateTx_CustomMessage_case_def

lemma AssociateTx_V_step [pb_steps]:
  "l < 2 ^ 63 \<Longrightarrow> int (length (put_bytes 0x0A v @ r)) \<le> l \<Longrightarrow> as_V m = [] \<Longrightarrow>
     pb_loop AssociateTx_field l (put_bytes 0x0A v @ r) m = pb_loop AssociateTx_field l r (m\<lparr>as_V := v\<rparr>)"
  by (subst pb_loop_put_bytes [where g = "\<lambda>b. m\<lparr>as_V := b\<rparr>" and f = "\<lambda>b m. Inr (m\<lparr>as_V := b\<rparr>)"]) (simp_all add: pb_defs)

lemma AssociateTx_R_step [pb_steps]:
  "l < 2 ^ 63 \<Longrightarrow> int (length (put_bytes 0x12 v @ r)) \<le> l \<Longrightarrow> as_R m = [] \<Longrightarrow>
     pb_loop AssociateTx_field l (put_bytes 0x12 v @ r) m = pb_loop AssociateTx_field l r (m\<lparr>as_R := v\<rparr>)"
  by (subst pb_loop_put_bytes [where g = "\<lambda>b. m\<lparr>as_R := b\<rparr>" and f = "\<lambda>b m. Inr (m\<lparr>as_R := b\<rparr>)"]) (simp_all add: pb_defs)

lemma AssociateTx_S_step [pb_steps]:
  "l < 2 ^ 63 \<Longrightarrow> int (length (put_bytes 0x1A v @ r)) \<le> l \<Longrightarrow> as_S m = [] \<Longrightarrow>
     pb_loop AssociateTx_field l (put_bytes 0x1A v @ r) m = pb_loop AssociateTx_field l r (m\<lparr>as_S := v\<rparr>)"
  by (subst pb_loop_put_bytes [where g = "\<lambda>b. m\<lparr>as_S := b\<rparr>" and f = "\<lambda>b m. Inr (m\<lparr>as_S := b\<rparr>)"]) (simp_all add: pb_defs)

lemma AssociateTx_CustomMessage_step [pb_steps]:
  "l < 2 ^ 63 \<Longrightarrow> int (length (put_bytes 0x22 (str_bytes v) @ r)) \<le> l \<Longrightarrow> as_CustomMessage m = [] \<Longrightarrow>
     pb_loop AssociateTx_field l (put_bytes 0x22 (str_bytes v) @ r) m = pb_loop AssociateTx_field l r (m\<lparr>as_CustomMessage := v\<rparr>)"
  by (subst pb_loop_put_bytes [where g = "\<lambda>b. m\<lparr>as_CustomMessage := bytes_str b\<rparr>" and f = "\<lambda>b m. Inr (m\<lparr>as_CustomMessage := bytes_str b\<rparr>)"]) (simp_all add: pb_defs)

lemma length_AssociateTx [simp]: "length (AssociateTx_Marshal m) = AssociateTx_Size m"
  by (simp add: AssociateTx_Marshal_def AssociateTx_Size_def length_concat_put_elem split: option.splits)

lemma AssociateTx_loop:
  "l < 2 ^ 63 \<Longrightarrow> int (AssociateTx_Size m + length r) \<le> l \<Longrightarrow>
     pb_loop AssociateTx_field l (AssociateTx_Marshal m @ r) AssociateTx_zero = pb_loop AssociateTx_field l r m"
  unfolding AssociateTx_Marshal_def append_assoc
  by (cases m) (simp add: pb_steps length_concat_put_elem AssociateTx_Size_def AssociateTx_zero_def)

lemma AssociateTx_Unmarshal_Marshal: "AssociateTx_Size m < 2 ^ 63 \<Longrightarrow> AssociateTx_Unmarshal (AssociateTx_Marshal m) AssociateTx_zero = Inr m"
  using AssociateTx_loop [of "int (AssociateTx_Size m)" m "[]"] by (simp add: AssociateTx_Unmarshal_def pb_unmarshal_def)

interpretation associate_pb: pb_message AssociateTx_Marshal AssociateTx_Size AssociateTx_Unmarshal AssociateTx_zero
  by unfold_locales (simp_all add: AssociateTx_Unmarshal_Marshal)

section \<open>LegacyTx\<close>

definition LegacyTx_zero :: LegacyTx where
  "LegacyTx_zero = \<lparr>lt_Nonce = 0, lt_GasPrice = None, lt_GasLimit = 0, lt_To = '''', lt_Amount = None, lt_Data = [], lt_V = [], lt_R = [], lt_S = []\<rparr>"

definition LegacyTx_bytes :: "int_codec \<Rightarrow> LegacyTx \<Rightarrow> bytes" where
  "LegacyTx_bytes ic m =
     put_varint 0x08 (lt_Nonce m) @
     put_int ic 0x12 (lt_GasPrice m) @
     put_varint 0x18 (lt_GasLimit m) @
     put_bytes 0x22 (str_bytes (lt_To m)) @
     put_int ic 0x2A (lt_Amount m) @
     put_bytes 0x32 (lt_Data m) @
     put_bytes 0x3A (lt_V m) @
     put_bytes 0x42 (lt_R m) @
     put_bytes 0x4A (lt_S m)"

definition LegacyTx_Marshal :: "int_codec \<Rightarrow> LegacyTx \<Rightarrow> string + bytes" where
  "LegacyTx_Marshal ic m =
     (case int_error ic [lt_Amount m, lt_GasPrice m] of Some e \<Rightarrow> Inl e | None \<Rightarrow> Inr (LegacyTx_bytes ic m))"

definition LegacyTx_Size :: "int_codec \<Rightarrow> LegacyTx \<Rightarrow> nat" where
  "LegacyTx_Size ic m =
     size_varint (lt_Nonce m) +
     size_int ic (lt_GasPrice m) +
     size_varint (lt_GasLimit m) +
     size_bytes (length (lt_To m)) +
     size_int ic (lt_Amount m) +
     size_bytes (length (lt_Data m)) +
     size_bytes (length (lt_V m)) +
     size_bytes (length (lt_R m)) +
     size_bytes (length (lt_S m))"

definition LegacyTx_Nonce_case :: "LegacyTx pb_case" where
  "LegacyTx_Nonce_case = Varint64Field ''Nonce'' (\<lambda>v m. m\<lparr>lt_Nonce := v\<rparr>)"

definition LegacyTx_GasPrice_case :: "int_codec \<Rightarrow> LegacyTx pb_case" where
  "LegacyTx_GasPrice_case ic = BytesField ''GasPrice'' (\<lambda>b m. case Int_Unmarshal ic b None of Inl e \<Rightarrow> Inl e | Inr v \<Rightarrow> Inr (m\<lparr>lt_GasPrice := v\<rparr>))"

definition LegacyTx_GasLimit_case :: "LegacyTx pb_case" where
  "LegacyTx_GasLimit_case = Varint64Field ''GasLimit'' (\<lambda>v m. m\<lparr>lt_GasLimit := v\<rparr>)"

definition LegacyTx_To_case :: "LegacyTx pb_case" where
  "LegacyTx_To_case = BytesField ''To'' (\<lambda>b m. Inr (m\<lparr>lt_To := bytes_str b\<rparr>))"

definition LegacyTx_Amount_case :: "int_codec \<Rightarrow> LegacyTx pb_case" where
  "LegacyTx_Amount_case ic = BytesField ''Amount'' (\<lambda>b m. case Int_Unmarshal ic b None of Inl e \<Rightarrow> Inl e | Inr v \<Rightarrow> Inr (m\<lparr>lt_Amount := v\<rparr>))"

definition LegacyTx_Data_case :: "LegacyTx pb_case" where
  "LegacyTx_Data_case = BytesField ''Data'' (\<lambda>b m. Inr (m\<lparr>lt_Data := b\<rparr>))"

definition LegacyTx_V_case :: "LegacyTx pb_case" where
  "LegacyTx_V_case = BytesField ''V'' (\<lambda>b m. Inr (m\<lparr>lt_V := b\<rparr>))"

definition LegacyTx_R_case :: "LegacyTx pb_case" where
  "LegacyTx_R_case = BytesField ''R'' (\<lambda>b m. Inr (m\<lparr>lt_R := b\<rparr>))"

definition LegacyTx_S_case :: "LegacyTx pb_case" where
  "LegacyTx_S_case = BytesField ''S'' (\<lambda>b m. Inr (m\<lparr>lt_S := b\<rparr>))"

definition LegacyTx_field :: "int_codec \<Rightarrow> int \<Rightarrow> LegacyTx pb_case option" where
  "LegacyTx_field ic n =
     (if n = 1 then Some LegacyTx_Nonce_case
      else if n = 2 then Some (LegacyTx_GasPrice_case ic)
      else if n = 3 then Some LegacyTx_GasLimit_case
      else if n = 4 then Some LegacyTx_To_case
      else if n = 5 then Some (LegacyTx_Amount_case ic)
      else if n = 6 then Some LegacyTx_Data_case
      else if n = 7 then Some LegacyTx_V_case
      else if n = 8 then Some LegacyTx_R_case
      else if n = 9 then Some LegacyTx_S_case
      else None)"

definition LegacyTx_Unmarshal :: "int_codec \<Rightarrow> bytes \<Rightarrow> LegacyTx \<Rightarrow> string + LegacyTx" where
  "LegacyTx_Unmarshal ic dAtA m = pb_unmarshal (LegacyTx_field ic) dAtA m"

lemmas LegacyTx_cases [pb_defs] = LegacyTx_field_def LegacyTx_Nonce_case_def LegacyTx_GasPrice_case_def LegacyTx_GasLimit_case_def LegacyTx_To_case_def LegacyTx_Amount_case_def LegacyTx_Data_case_def LegacyTx_V_case_def LegacyTx_R_case_def LegacyTx_S_case_def

lemma LegacyTx_Nonce_step [pb_steps]:
  "lt_Nonce m = 0 \<Longrightarrow> pb_loop (LegacyTx_field ic) l (put_varint 0x08 v @ r) m = pb_loop (LegacyTx_field ic) l r (m\<lparr>lt_Nonce := v\<rparr>)"
  by (subst pb_loop_put_varint) (simp_all add: pb_defs)

lemma LegacyTx_GasPrice_step [pb_steps]:
  "int_codec_laws ic \<Longrightarrow> int_fits v \<Longrightarrow> l < 2 ^ 63 \<Longrightarrow> int (length (put_int ic 0x12 v @ r)) \<le> l \<Longrightarrow> lt_GasPrice m = None \<Longrightarrow>
     pb_loop (LegacyTx_field ic) l (put_int ic 0x12 v @ r) m = pb_loop (LegacyTx_field ic) l r (m\<lparr>lt_GasPrice := v\<rparr>)"
  by (rule pb_loop_put_int [where upd = "\<lambda>v m. m\<lparr>lt_GasPrice := v\<rparr>"]) (simp_all add: pb_defs)

lemma LegacyTx_GasLimit_step [pb_steps]:
  "lt_GasLimit m = 0 \<Longrightarrow> pb_loop (LegacyTx_field ic) l (put_varint 0x18 v @ r) m = pb_loop (LegacyTx_field ic) l r (m\<lparr>lt_GasLimit := v\<rparr>)"
  by (subst pb_loop_put_varint) (simp_all add: pb_defs)

lemma LegacyTx_To_step [pb_steps]:
  "l < 2 ^ 63 \<Longrightarrow> int (length (put_bytes 0x22 (str_bytes v) @ r)) \<le> l \<Longrightarrow> lt_To m = [] \<Longrightarrow>
     pb_loop (LegacyTx_field ic) l (put_bytes 0x22 (str_bytes v) @ r) m = pb_loop (LegacyTx_field ic) l r (m\<lparr>lt_To := v\<rparr>)"
  by (subst pb_loop_put_bytes [where g = "\<lambda>b. m\<lparr>lt_To := bytes_str b\<rparr>" and f = "\<lambda>b m. Inr (m\<lparr>lt_To := bytes_str b\<rparr>)"]) (simp_all add: pb_defs)

lemma LegacyTx_Amount_step [pb_steps]:
  "int_codec_laws ic \<Longrightarrow> int_fits v \<Longrightarrow> l < 2 ^ 63 \<Longrightarrow> int (length (put_int ic 0x2A v @ r)) \<le> l \<Longrightarrow> lt_Amount m = None \<Longrightarrow>
     pb_loop (LegacyTx_field ic) l (put_int ic 0x2A v @ r) m = pb_loop (LegacyTx_field ic) l r (m\<lparr>lt_Amount := v\<rparr>)"
  by (rule pb_loop_put_int [where upd = "\<lambda>v m. m\<lparr>lt_Amount := v\<rparr>"]) (simp_all add: pb_defs)

lemma LegacyTx_Data_step [pb_steps]:
  "l < 2 ^ 63 \<Longrightarrow> int (length (put_bytes 0x32 v @ r)) \<le> l \<Longrightarrow> lt_Data m = [] \<Longrightarrow>
     pb_loop (LegacyTx_field ic) l (put_bytes 0x32 v @ r) m = pb_loop (LegacyTx_field ic) l r (m\<lparr>lt_Data := v\<rparr>)"
  by (subst pb_loop_put_bytes [where g = "\<lambda>b. m\<lparr>lt_Data := b\<rparr>" and f = "\<lambda>b m. Inr (m\<lparr>lt_Data := b\<rparr>)"]) (simp_all add: pb_defs)

lemma LegacyTx_V_step [pb_steps]:
  "l < 2 ^ 63 \<Longrightarrow> int (length (put_bytes 0x3A v @ r)) \<le> l \<Longrightarrow> lt_V m = [] \<Longrightarrow>
     pb_loop (LegacyTx_field ic) l (put_bytes 0x3A v @ r) m = pb_loop (LegacyTx_field ic) l r (m\<lparr>lt_V := v\<rparr>)"
  by (subst pb_loop_put_bytes [where g = "\<lambda>b. m\<lparr>lt_V := b\<rparr>" and f = "\<lambda>b m. Inr (m\<lparr>lt_V := b\<rparr>)"]) (simp_all add: pb_defs)

lemma LegacyTx_R_step [pb_steps]:
  "l < 2 ^ 63 \<Longrightarrow> int (length (put_bytes 0x42 v @ r)) \<le> l \<Longrightarrow> lt_R m = [] \<Longrightarrow>
     pb_loop (LegacyTx_field ic) l (put_bytes 0x42 v @ r) m = pb_loop (LegacyTx_field ic) l r (m\<lparr>lt_R := v\<rparr>)"
  by (subst pb_loop_put_bytes [where g = "\<lambda>b. m\<lparr>lt_R := b\<rparr>" and f = "\<lambda>b m. Inr (m\<lparr>lt_R := b\<rparr>)"]) (simp_all add: pb_defs)

lemma LegacyTx_S_step [pb_steps]:
  "l < 2 ^ 63 \<Longrightarrow> int (length (put_bytes 0x4A v @ r)) \<le> l \<Longrightarrow> lt_S m = [] \<Longrightarrow>
     pb_loop (LegacyTx_field ic) l (put_bytes 0x4A v @ r) m = pb_loop (LegacyTx_field ic) l r (m\<lparr>lt_S := v\<rparr>)"
  by (subst pb_loop_put_bytes [where g = "\<lambda>b. m\<lparr>lt_S := b\<rparr>" and f = "\<lambda>b m. Inr (m\<lparr>lt_S := b\<rparr>)"]) (simp_all add: pb_defs)

lemma length_LegacyTx_bytes [simp]: "length (LegacyTx_bytes ic m) = LegacyTx_Size ic m"
  by (simp add: LegacyTx_bytes_def LegacyTx_Size_def length_concat_put_elem split: option.splits)

lemma LegacyTx_loop:
  "int_codec_laws ic \<Longrightarrow> list_all int_fits [lt_Amount m, lt_GasPrice m] \<Longrightarrow> l < 2 ^ 63 \<Longrightarrow> int (LegacyTx_Size ic m + length r) \<le> l \<Longrightarrow>
     pb_loop (LegacyTx_field ic) l (LegacyTx_bytes ic m @ r) LegacyTx_zero = pb_loop (LegacyTx_field ic) l r m"
  unfolding LegacyTx_bytes_def append_assoc
  by (cases m) (simp add: pb_steps length_concat_put_elem LegacyTx_Size_def LegacyTx_zero_def)

lemma LegacyTx_Unmarshal_Marshal:
  assumes "int_codec_laws ic" and "list_all int_fits [lt_Amount m, lt_GasPrice m]" and "LegacyTx_Size ic m < 2 ^ 63"
  shows "LegacyTx_Marshal ic m = Inr (LegacyTx_bytes ic m)" and "LegacyTx_Unmarshal ic (LegacyTx_bytes ic m) LegacyTx_zero = Inr m"
  using int_error_None [OF assms(1,2)] LegacyTx_loop [OF assms(1,2), of "int (LegacyTx_Size ic m)" "[]"] assms(3)
  by (simp_all add: LegacyTx_Marshal_def LegacyTx_Unmarshal_def pb_unmarshal_def)

section \<open>AccessListTx\<close>

definition AccessListTx_zero :: AccessListTx where
  "AccessListTx_zero = \<lparr>al_ChainID = None, al_Nonce = 0, al_GasPrice = None, al_GasLimit = 0, al_To = '''', al_Amount = None, al_Data = [], al_Accesses = [], al_V = [], al_R = [], al_S = []\<rparr>"

definition AccessListTx_bytes :: "int_codec \<Rightarrow> AccessListTx \<Rightarrow> bytes" where
  "AccessListTx_bytes ic m =
     put_int ic 0x0A (al_ChainID m) @
     put_varint 0x10 (al_Nonce m) @
     put_int ic 0x1A (al_GasPrice m) @
     put_varint 0x20 (al_GasLimit m) @
     put_bytes 0x2A (str_bytes (al_To m)) @
     put_int ic 0x32 (al_Amount m) @
     put_bytes 0x3A (al_Data m) @
     concat (map (\<lambda>e. put_elem 0x42 (AccessTuple_Marshal e)) (al_Accesses m)) @
     put_bytes 0x4A (al_V m) @
     put_bytes 0x52 (al_R m) @
     put_bytes 0x5A (al_S m)"

definition AccessListTx_Marshal :: "int_codec \<Rightarrow> AccessListTx \<Rightarrow> string + bytes" where
  "AccessListTx_Marshal ic m =
     (case int_error ic [al_Amount m, al_GasPrice m, al_ChainID m] of Some e \<Rightarrow> Inl e | None \<Rightarrow> Inr (AccessListTx_bytes ic m))"

definition AccessListTx_Size :: "int_codec \<Rightarrow> AccessListTx \<Rightarrow> nat" where
  "AccessListTx_Size ic m =
     size_int ic (al_ChainID m) +
     size_varint (al_Nonce m) +
     size_int ic (al_GasPrice m) +
     size_varint (al_GasLimit m) +
     size_bytes (length (al_To m)) +
     size_int ic (al_Amount m) +
     size_bytes (length (al_Data m)) +
     sum_list (map (\<lambda>e. size_elem (AccessTuple_Size e)) (al_Accesses m)) +
     size_bytes (length (al_V m)) +
     size_bytes (length (al_R m)) +
     size_bytes (length (al_S m))"

definition AccessListTx_ChainID_case :: "int_codec \<Rightarrow> AccessListTx pb_case" where
  "AccessListTx_ChainID_case ic = BytesField ''ChainID'' (\<lambda>b m. case Int_Unmarshal ic b None of Inl e \<Rightarrow> Inl e | Inr v \<Rightarrow> Inr (m\<lparr>al_ChainID := v\<rparr>))"

definition AccessListTx_Nonce_case :: "AccessListTx pb_case" where
  "AccessListTx_Nonce_case = Varint64Field ''Nonce'' (\<lambda>v m. m\<lparr>al_Nonce := v\<rparr>)"

definition AccessListTx_GasPrice_case :: "int_codec \<Rightarrow> AccessListTx pb_case" where
  "AccessListTx_GasPrice_case ic = BytesField ''GasPrice'' (\<lambda>b m. case Int_Unmarshal ic b None of Inl e \<Rightarrow> Inl e | Inr v \<Rightarrow> Inr (m\<lparr>al_GasPrice := v\<rparr>))"

definition AccessListTx_GasLimit_case :: "AccessListTx pb_case" where
  "AccessListTx_GasLimit_case = Varint64Field ''GasLimit'' (\<lambda>v m. m\<lparr>al_GasLimit := v\<rparr>)"

definition AccessListTx_To_case :: "AccessListTx pb_case" where
  "AccessListTx_To_case = BytesField ''To'' (\<lambda>b m. Inr (m\<lparr>al_To := bytes_str b\<rparr>))"

definition AccessListTx_Amount_case :: "int_codec \<Rightarrow> AccessListTx pb_case" where
  "AccessListTx_Amount_case ic = BytesField ''Amount'' (\<lambda>b m. case Int_Unmarshal ic b None of Inl e \<Rightarrow> Inl e | Inr v \<Rightarrow> Inr (m\<lparr>al_Amount := v\<rparr>))"

definition AccessListTx_Data_case :: "AccessListTx pb_case" where
  "AccessListTx_Data_case = BytesField ''Data'' (\<lambda>b m. Inr (m\<lparr>al_Data := b\<rparr>))"

definition AccessListTx_Accesses_case :: "AccessListTx pb_case" where
  "AccessListTx_Accesses_case = BytesField ''Accesses'' (\<lambda>b m. case AccessTuple_Unmarshal b AccessTuple_zero of Inl e \<Rightarrow> Inl e | Inr v \<Rightarrow> Inr (m\<lparr>al_Accesses := al_Accesses m @ [v]\<rparr>))"

definition AccessListTx_V_case :: "AccessListTx pb_case" where
  "AccessListTx_V_case = BytesField ''V'' (\<lambda>b m. Inr (m\<lparr>al_V := b\<rparr>))"

definition AccessListTx_R_case :: "AccessListTx pb_case" where
  "AccessListTx_R_case = BytesField ''R'' (\<lambda>b m. Inr (m\<lparr>al_R := b\<rparr>))"

definition AccessListTx_S_case :: "AccessListTx pb_case" where
  "AccessListTx_S_case = BytesField ''S'' (\<lambda>b m. Inr (m\<lparr>al_S := b\<rparr>))"

definition AccessListTx_field :: "int_codec \<Rightarrow> int \<Rightarrow> AccessListTx pb_case option" where
  "AccessListTx_field ic n =
     (if n = 1 then Some (AccessListTx_ChainID_case ic)
      else if n = 2 then Some AccessListTx_Nonce_case
      else if n = 3 then Some (AccessListTx_GasPrice_case ic)
      else if n = 4 then Some AccessListTx_GasLimit_case
      else if n = 5 then Some AccessListTx_To_case
      else if n = 6 then Some (AccessListTx_Amount_case ic)
      else if n = 7 then Some AccessListTx_Data_case
      else if n = 8 then Some AccessListTx_Accesses_case
      else if n = 9 then Some AccessListTx_V_case
      else if n = 10 then Some AccessListTx_R_case
      else if n = 11 then Some AccessListTx_S_case
      else None)"

definition AccessListTx_Unmarshal :: "int_codec \<Rightarrow> bytes \<Rightarrow> AccessListTx \<Rightarrow> string + AccessListTx" where
  "AccessListTx_Unmarshal ic dAtA m = pb_unmarshal (AccessListTx_field ic) dAtA m"

lemmas AccessListTx_cases [pb_defs] = AccessListTx_field_def AccessListTx_ChainID_case_def AccessListTx_Nonce_case_def AccessListTx_GasPrice_case_def AccessListTx_GasLimit_case_def AccessListTx_To_case_def AccessListTx_Amount_case_def AccessListTx_Data_case_def AccessListTx_Accesses_case_def AccessListTx_V_case_def AccessListTx_R_case_def AccessListTx_S_case_def

lemma AccessListTx_ChainID_step [pb_steps]:
  "int_codec_laws ic \<Longrightarrow> int_fits v \<Longrightarrow> l < 2 ^ 63 \<Longrightarrow> int (length (put_int ic 0x0A v @ r)) \<le> l \<Longrightarrow> al_ChainID m = None \<Longrightarrow>
     pb_loop (AccessListTx_field ic) l (put_int ic 0x0A v @ r) m = pb_loop (AccessListTx_field ic) l r (m\<lparr>al_ChainID := v\<rparr>)"
  by (rule pb_loop_put_int [where upd = "\<lambda>v m. m\<lparr>al_ChainID := v\<rparr>"]) (simp_all add: pb_defs)

lemma AccessListTx_Nonce_step [pb_steps]:
  "al_Nonce m = 0 \<Longrightarrow> pb_loop (AccessListTx_field ic) l (put_varint 0x10 v @ r) m = pb_loop (AccessListTx_field ic) l r (m\<lparr>al_Nonce := v\<rparr>)"
  by (subst pb_loop_put_varint) (simp_all add: pb_defs)

lemma AccessListTx_GasPrice_step [pb_steps]:
  "int_codec_laws ic \<Longrightarrow> int_fits v \<Longrightarrow> l < 2 ^ 63 \<Longrightarrow> int (length (put_int ic 0x1A v @ r)) \<le> l \<Longrightarrow> al_GasPrice m = None \<Longrightarrow>
     pb_loop (AccessListTx_field ic) l (put_int ic 0x1A v @ r) m = pb_loop (AccessListTx_field ic) l r (m\<lparr>al_GasPrice := v\<rparr>)"
  by (rule pb_loop_put_int [where upd = "\<lambda>v m. m\<lparr>al_GasPrice := v\<rparr>"]) (simp_all add: pb_defs)

lemma AccessListTx_GasLimit_step [pb_steps]:
  "al_GasLimit m = 0 \<Longrightarrow> pb_loop (AccessListTx_field ic) l (put_varint 0x20 v @ r) m = pb_loop (AccessListTx_field ic) l r (m\<lparr>al_GasLimit := v\<rparr>)"
  by (subst pb_loop_put_varint) (simp_all add: pb_defs)

lemma AccessListTx_To_step [pb_steps]:
  "l < 2 ^ 63 \<Longrightarrow> int (length (put_bytes 0x2A (str_bytes v) @ r)) \<le> l \<Longrightarrow> al_To m = [] \<Longrightarrow>
     pb_loop (AccessListTx_field ic) l (put_bytes 0x2A (str_bytes v) @ r) m = pb_loop (AccessListTx_field ic) l r (m\<lparr>al_To := v\<rparr>)"
  by (subst pb_loop_put_bytes [where g = "\<lambda>b. m\<lparr>al_To := bytes_str b\<rparr>" and f = "\<lambda>b m. Inr (m\<lparr>al_To := bytes_str b\<rparr>)"]) (simp_all add: pb_defs)

lemma AccessListTx_Amount_step [pb_steps]:
  "int_codec_laws ic \<Longrightarrow> int_fits v \<Longrightarrow> l < 2 ^ 63 \<Longrightarrow> int (length (put_int ic 0x32 v @ r)) \<le> l \<Longrightarrow> al_Amount m = None \<Longrightarrow>
     pb_loop (AccessListTx_field ic) l (put_int ic 0x32 v @ r) m = pb_loop (AccessListTx_field ic) l r (m\<lparr>al_Amount := v\<rparr>)"
  by (rule pb_loop_put_int [where upd = "\<lambda>v m. m\<lparr>al_Amount := v\<rparr>"]) (simp_all add: pb_defs)

lemma AccessListTx_Data_step [pb_steps]:
  "l < 2 ^ 63 \<Longrightarrow> int (length (put_bytes 0x3A v @ r)) \<le> l \<Longrightarrow> al_Data m = [] \<Longrightarrow>
     pb_loop (AccessListTx_field ic) l (put_bytes 0x3A v @ r) m = pb_loop (AccessListTx_field ic) l r (m\<lparr>al_Data := v\<rparr>)"
  by (subst pb_loop_put_bytes [where g = "\<lambda>b. m\<lparr>al_Data := b\<rparr>" and f = "\<lambda>b m. Inr (m\<lparr>al_Data := b\<rparr>)"]) (simp_all add: pb_defs)

lemma AccessListTx_Accesses_step [pb_steps]:
  "l < 2 ^ 63 \<Longrightarrow> int (length (concat (map (\<lambda>e. put_elem 0x42 (AccessTuple_Marshal e)) v) @ r)) \<le> l \<Longrightarrow> al_Accesses m = [] \<Longrightarrow>
     pb_loop (AccessListTx_field ic) l (concat (map (\<lambda>e. put_elem 0x42 (AccessTuple_Marshal e)) v) @ r) m = pb_loop (AccessListTx_field ic) l r (m\<lparr>al_Accesses := v\<rparr>)"
  by (rule pb_loop_put_msgs [where siz = AccessTuple_Size and unm = "\<lambda>b. AccessTuple_Unmarshal b AccessTuple_zero" and get = "al_Accesses" and upd = "\<lambda>xs m. m\<lparr>al_Accesses := xs\<rparr>"])
    (simp_all add: pb_defs AccessTuple_Unmarshal_Marshal)

lemma AccessListTx_V_step [pb_steps]:
  "l < 2 ^ 63 \<Longrightarrow> int (length (put_bytes 0x4A v @ r)) \<le> l \<Longrightarrow> al_V m = [] \<Longrightarrow>
     pb_loop (AccessListTx_field ic) l (put_bytes 0x4A v @ r) m = pb_loop (AccessListTx_field ic) l r (m\<lparr>al_V := v\<rparr>)"
  by (subst pb_loop_put_bytes [where g = "\<lambda>b. m\<lparr>al_V := b\<rparr>" and f = "\<lambda>b m. Inr (m\<lparr>al_V := b\<rparr>)"]) (simp_all add: pb_defs)

lemma AccessListTx_R_step [pb_steps]:
  "l < 2 ^ 63 \<Longrightarrow> int (length (put_bytes 0x52 v @ r)) \<le> l \<Longrightarrow> al_R m = [] \<Longrightarrow>
     pb_loop (AccessListTx_field ic) l (put_bytes 0x52 v @ r) m = pb_loop (AccessListTx_field ic) l r (m\<lparr>al_R := v\<rparr>)"
  by (subst pb_loop_put_bytes [where g = "\<lambda>b. m\<lparr>al_R := b\<rparr>" and f = "\<lambda>b m. Inr (m\<lparr>al_R := b\<rparr>)"]) (simp_all add: pb_defs)

lemma AccessListTx_S_step [pb_steps]:
  "l < 2 ^ 63 \<Longrightarrow> int (length (put_bytes 0x5A v @ r)) \<le> l \<Longrightarrow> al_S m = [] \<Longrightarrow>
     pb_loop (AccessListTx_field ic) l (put_bytes 0x5A v @ r) m = pb_loop (AccessListTx_field ic) l r (m\<lparr>al_S := v\<rparr>)"
  by (subst pb_loop_put_bytes [where g = "\<lambda>b. m\<lparr>al_S := b\<rparr>" and f = "\<lambda>b m. Inr (m\<lparr>al_S := b\<rparr>)"]) (simp_all add: pb_defs)

lemma length_AccessListTx_bytes [simp]: "length (AccessListTx_bytes ic m) = AccessListTx_Size ic m"
  by (simp add: AccessListTx_bytes_def AccessListTx_Size_def length_concat_put_elem split: option.splits)

lemma AccessListTx_loop:
  "int_codec_laws ic \<Longrightarrow> list_all int_fits [al_Amount m, al_GasPrice m, al_ChainID m] \<Longrightarrow> l < 2 ^ 63 \<Longrightarrow> int (AccessListTx_Size ic m + length r) \<le> l \<Longrightarrow>
     pb_loop (AccessListTx_field ic) l (AccessListTx_bytes ic m @ r) AccessListTx_zero = pb_loop (AccessListTx_field ic) l r m"
  unfolding AccessListTx_bytes_def append_assoc
  by (cases m) (simp add: pb_steps length_concat_put_elem AccessListTx_Size_def AccessListTx_zero_def)

lemma AccessListTx_Unmarshal_Marshal:
  assumes "int_codec_laws ic" and "list_all int_fits [al_Amount m, al_GasPrice m, al_ChainID m]" and "AccessListTx_Size ic m < 2 ^ 63"
  shows "AccessListTx_Marshal ic m = Inr (AccessListTx_bytes ic m)" and "AccessListTx_Unmarshal ic (AccessListTx_bytes ic m) AccessListTx_zero = Inr m"
  using int_error_None [OF assms(1,2)] AccessListTx_loop [OF assms(1,2), of "int (AccessListTx_Size ic m)" "[]"] assms(3)
  by (simp_all add: AccessListTx_Marshal_def AccessListTx_Unmarshal_def pb_unmarshal_def)

section \<open>DynamicFeeTx\<close>

definition DynamicFeeTx_zero :: DynamicFeeTx where
  "DynamicFeeTx_zero = \<lparr>df_ChainID = None, df_Nonce = 0, df_GasTipCap = None, df_GasFeeCap = None, df_GasLimit = 0, df_To = '''', df_Amount = None, df_Data = [], df_Accesses = [], df_V = [], df_R = [], df_S = []\<rparr>"

definition DynamicFeeTx_bytes :: "int_codec \<Rightarrow> DynamicFeeTx \<Rightarrow> bytes" where
  "DynamicFeeTx_bytes ic m =
     put_int ic 0x0A (df_ChainID m) @
     put_varint 0x10 (df_Nonce m) @
     put_int ic 0x1A (df_GasTipCap m) @
     put_int ic 0x22 (df_GasFeeCap m) @
     put_varint 0x28 (df_GasLimit m) @
     put_bytes 0x32 (str_bytes (df_To m)) @
     put_int ic 0x3A (df_Amount m) @
     put_bytes 0x42 (df_Data m) @
     concat (map (\<lambda>e. put_elem 0x4A (AccessTuple_Marshal e)) (df_Accesses m)) @
     put_bytes 0x52 (df_V m) @
     put_bytes 0x5A (df_R m) @
     put_bytes 0x62 (df_S m)"

definition DynamicFeeTx_Marshal :: "int_codec \<Rightarrow> DynamicFeeTx \<Rightarrow> string + bytes" where
  "DynamicFeeTx_Marshal ic m =
     (case int_error ic [df_Amount m, df_GasFeeCap m, df_GasTipCap m, df_ChainID m] of Some e \<Rightarrow> Inl e | None \<Rightarrow> Inr (DynamicFeeTx_bytes ic m))"

definition DynamicFeeTx_Size :: "int_codec \<Rightarrow> DynamicFeeTx \<Rightarrow> nat" where
  "DynamicFeeTx_Size ic m =
     size_int ic (df_ChainID m) +
     size_varint (df_Nonce m) +
     size_int ic (df_GasTipCap m) +
     size_int ic (df_GasFeeCap m) +
     size_varint (df_GasLimit m) +
     size_bytes (length (df_To m)) +
     size_int ic (df_Amount m) +
     size_bytes (length (df_Data m)) +
     sum_list (map (\<lambda>e. size_elem (AccessTuple_Size e)) (df_Accesses m)) +
     size_bytes (length (df_V m)) +
     size_bytes (length (df_R m)) +
     size_bytes (length (df_S m))"

definition DynamicFeeTx_ChainID_case :: "int_codec \<Rightarrow> DynamicFeeTx pb_case" where
  "DynamicFeeTx_ChainID_case ic = BytesField ''ChainID'' (\<lambda>b m. case Int_Unmarshal ic b None of Inl e \<Rightarrow> Inl e | Inr v \<Rightarrow> Inr (m\<lparr>df_ChainID := v\<rparr>))"

definition DynamicFeeTx_Nonce_case :: "DynamicFeeTx pb_case" where
  "DynamicFeeTx_Nonce_case = Varint64Field ''Nonce'' (\<lambda>v m. m\<lparr>df_Nonce := v\<rparr>)"

definition DynamicFeeTx_GasTipCap_case :: "int_codec \<Rightarrow> DynamicFeeTx pb_case" where
  "DynamicFeeTx_GasTipCap_case ic = BytesField ''GasTipCap'' (\<lambda>b m. case Int_Unmarshal ic b None of Inl e \<Rightarrow> Inl e | Inr v \<Rightarrow> Inr (m\<lparr>df_GasTipCap := v\<rparr>))"

definition DynamicFeeTx_GasFeeCap_case :: "int_codec \<Rightarrow> DynamicFeeTx pb_case" where
  "DynamicFeeTx_GasFeeCap_case ic = BytesField ''GasFeeCap'' (\<lambda>b m. case Int_Unmarshal ic b None of Inl e \<Rightarrow> Inl e | Inr v \<Rightarrow> Inr (m\<lparr>df_GasFeeCap := v\<rparr>))"

definition DynamicFeeTx_GasLimit_case :: "DynamicFeeTx pb_case" where
  "DynamicFeeTx_GasLimit_case = Varint64Field ''GasLimit'' (\<lambda>v m. m\<lparr>df_GasLimit := v\<rparr>)"

definition DynamicFeeTx_To_case :: "DynamicFeeTx pb_case" where
  "DynamicFeeTx_To_case = BytesField ''To'' (\<lambda>b m. Inr (m\<lparr>df_To := bytes_str b\<rparr>))"

definition DynamicFeeTx_Amount_case :: "int_codec \<Rightarrow> DynamicFeeTx pb_case" where
  "DynamicFeeTx_Amount_case ic = BytesField ''Amount'' (\<lambda>b m. case Int_Unmarshal ic b None of Inl e \<Rightarrow> Inl e | Inr v \<Rightarrow> Inr (m\<lparr>df_Amount := v\<rparr>))"

definition DynamicFeeTx_Data_case :: "DynamicFeeTx pb_case" where
  "DynamicFeeTx_Data_case = BytesField ''Data'' (\<lambda>b m. Inr (m\<lparr>df_Data := b\<rparr>))"

definition DynamicFeeTx_Accesses_case :: "DynamicFeeTx pb_case" where
  "DynamicFeeTx_Accesses_case = BytesField ''Accesses'' (\<lambda>b m. case AccessTuple_Unmarshal b AccessTuple_zero of Inl e \<Rightarrow> Inl e | Inr v \<Rightarrow> Inr (m\<lparr>df_Accesses := df_Accesses m @ [v]\<rparr>))"

definition DynamicFeeTx_V_case :: "DynamicFeeTx pb_case" where
  "DynamicFeeTx_V_case = BytesField ''V'' (\<lambda>b m. Inr (m\<lparr>df_V := b\<rparr>))"

definition DynamicFeeTx_R_case :: "DynamicFeeTx pb_case" where
  "DynamicFeeTx_R_case = BytesField ''R'' (\<lambda>b m. Inr (m\<lparr>df_R := b\<rparr>))"

definition DynamicFeeTx_S_case :: "DynamicFeeTx pb_case" where
  "DynamicFeeTx_S_case = BytesField ''S'' (\<lambda>b m. Inr (m\<lparr>df_S := b\<rparr>))"

definition DynamicFeeTx_field :: "int_codec \<Rightarrow> int \<Rightarrow> DynamicFeeTx pb_case option" where
  "DynamicFeeTx_field ic n =
     (if n = 1 then Some (DynamicFeeTx_ChainID_case ic)
      else if n = 2 then Some DynamicFeeTx_Nonce_case
      else if n = 3 then Some (DynamicFeeTx_GasTipCap_case ic)
      else if n = 4 then Some (DynamicFeeTx_GasFeeCap_case ic)
      else if n = 5 then Some DynamicFeeTx_GasLimit_case
      else if n = 6 then Some DynamicFeeTx_To_case
      else if n = 7 then Some (DynamicFeeTx_Amount_case ic)
      else if n = 8 then Some DynamicFeeTx_Data_case
      else if n = 9 then Some DynamicFeeTx_Accesses_case
      else if n = 10 then Some DynamicFeeTx_V_case
      else if n = 11 then Some DynamicFeeTx_R_case
      else if n = 12 then Some DynamicFeeTx_S_case
      else None)"

definition DynamicFeeTx_Unmarshal :: "int_codec \<Rightarrow> bytes \<Rightarrow> DynamicFeeTx \<Rightarrow> string + DynamicFeeTx" where
  "DynamicFeeTx_Unmarshal ic dAtA m = pb_unmarshal (DynamicFeeTx_field ic) dAtA m"

lemmas DynamicFeeTx_cases [pb_defs] = DynamicFeeTx_field_def DynamicFeeTx_ChainID_case_def DynamicFeeTx_Nonce_case_def DynamicFeeTx_GasTipCap_case_def DynamicFeeTx_GasFeeCap_case_def DynamicFeeTx_GasLimit_case_def DynamicFeeTx_To_case_def DynamicFeeTx_Amount_case_def DynamicFeeTx_Data_case_def DynamicFeeTx_Accesses_case_def DynamicFeeTx_V_case_def DynamicFeeTx_R_case_def DynamicFeeTx_S_case_def

lemma DynamicFeeTx_ChainID_step [pb_steps]:
  "int_codec_laws ic \<Longrightarrow> int_fits v \<Longrightarrow> l < 2 ^ 63 \<Longrightarrow> int (length (put_int ic 0x0A v @ r)) \<le> l \<Longrightarrow> df_ChainID m = None \<Longrightarrow>
     pb_loop (DynamicFeeTx_field ic) l (put_int ic 0x0A v @ r) m = pb_loop (DynamicFeeTx_field ic) l r (m\<lparr>df_ChainID := v\<rparr>)"
  by (rule pb_loop_put_int [where upd = "\<lambda>v m. m\<lparr>df_ChainID := v\<rparr>"]) (simp_all add: pb_defs)

lemma DynamicFeeTx_Nonce_step [pb_steps]:
  "df_Nonce m = 0 \<Longrightarrow> pb_loop (DynamicFeeTx_field ic) l (put_varint 0x10 v @ r) m = pb_loop (DynamicFeeTx_field ic) l r (m\<lparr>df_Nonce := v\<rparr>)"
  by (subst pb_loop_put_varint) (simp_all add: pb_defs)

lemma DynamicFeeTx_GasTipCap_step [pb_steps]:
  "int_codec_laws ic \<Longrightarrow> int_fits v \<Longrightarrow> l < 2 ^ 63 \<Longrightarrow> int (length (put_int ic 0x1A v @ r)) \<le> l \<Longrightarrow> df_GasTipCap m = None \<Longrightarrow>
     pb_loop (DynamicFeeTx_field ic) l (put_int ic 0x1A v @ r) m = pb_loop (DynamicFeeTx_field ic) l r (m\<lparr>df_GasTipCap := v\<rparr>)"
  by (rule pb_loop_put_int [where upd = "\<lambda>v m. m\<lparr>df_GasTipCap := v\<rparr>"]) (simp_all add: pb_defs)

lemma DynamicFeeTx_GasFeeCap_step [pb_steps]:
  "int_codec_laws ic \<Longrightarrow> int_fits v \<Longrightarrow> l < 2 ^ 63 \<Longrightarrow> int (length (put_int ic 0x22 v @ r)) \<le> l \<Longrightarrow> df_GasFeeCap m = None \<Longrightarrow>
     pb_loop (DynamicFeeTx_field ic) l (put_int ic 0x22 v @ r) m = pb_loop (DynamicFeeTx_field ic) l r (m\<lparr>df_GasFeeCap := v\<rparr>)"
  by (rule pb_loop_put_int [where upd = "\<lambda>v m. m\<lparr>df_GasFeeCap := v\<rparr>"]) (simp_all add: pb_defs)

lemma DynamicFeeTx_GasLimit_step [pb_steps]:
  "df_GasLimit m = 0 \<Longrightarrow> pb_loop (DynamicFeeTx_field ic) l (put_varint 0x28 v @ r) m = pb_loop (DynamicFeeTx_field ic) l r (m\<lparr>df_GasLimit := v\<rparr>)"
  by (subst pb_loop_put_varint) (simp_all add: pb_defs)

lemma DynamicFeeTx_To_step [pb_steps]:
  "l < 2 ^ 63 \<Longrightarrow> int (length (put_bytes 0x32 (str_bytes v) @ r)) \<le> l \<Longrightarrow> df_To m = [] \<Longrightarrow>
     pb_loop (DynamicFeeTx_field ic) l (put_bytes 0x32 (str_bytes v) @ r) m = pb_loop (DynamicFeeTx_field ic) l r (m\<lparr>df_To := v\<rparr>)"
  by (subst pb_loop_put_bytes [where g = "\<lambda>b. m\<lparr>df_To := bytes_str b\<rparr>" and f = "\<lambda>b m. Inr (m\<lparr>df_To := bytes_str b\<rparr>)"]) (simp_all add: pb_defs)

lemma DynamicFeeTx_Amount_step [pb_steps]:
  "int_codec_laws ic \<Longrightarrow> int_fits v \<Longrightarrow> l < 2 ^ 63 \<Longrightarrow> int (length (put_int ic 0x3A v @ r)) \<le> l \<Longrightarrow> df_Amount m = None \<Longrightarrow>
     pb_loop (DynamicFeeTx_field ic) l (put_int ic 0x3A v @ r) m = pb_loop (DynamicFeeTx_field ic) l r (m\<lparr>df_Amount := v\<rparr>)"
  by (rule pb_loop_put_int [where upd = "\<lambda>v m. m\<lparr>df_Amount := v\<rparr>"]) (simp_all add: pb_defs)

lemma DynamicFeeTx_Data_step [pb_steps]:
  "l < 2 ^ 63 \<Longrightarrow> int (length (put_bytes 0x42 v @ r)) \<le> l \<Longrightarrow> df_Data m = [] \<Longrightarrow>
     pb_loop (DynamicFeeTx_field ic) l (put_bytes 0x42 v @ r) m = pb_loop (DynamicFeeTx_field ic) l r (m\<lparr>df_Data := v\<rparr>)"
  by (subst pb_loop_put_bytes [where g = "\<lambda>b. m\<lparr>df_Data := b\<rparr>" and f = "\<lambda>b m. Inr (m\<lparr>df_Data := b\<rparr>)"]) (simp_all add: pb_defs)

lemma DynamicFeeTx_Accesses_step [pb_steps]:
  "l < 2 ^ 63 \<Longrightarrow> int (length (concat (map (\<lambda>e. put_elem 0x4A (AccessTuple_Marshal e)) v) @ r)) \<le> l \<Longrightarrow> df_Accesses m = [] \<Longrightarrow>
     pb_loop (DynamicFeeTx_field ic) l (concat (map (\<lambda>e. put_elem 0x4A (AccessTuple_Marshal e)) v) @ r) m = pb_loop (DynamicFeeTx_field ic) l r (m\<lparr>df_Accesses := v\<rparr>)"
  by (rule pb_loop_put_msgs [where siz = AccessTuple_Size and unm = "\<lambda>b. AccessTuple_Unmarshal b AccessTuple_zero" and get = "df_Accesses" and upd = "\<lambda>xs m. m\<lparr>df_Accesses := xs\<rparr>"])
    (simp_all add: pb_defs AccessTuple_Unmarshal_Marshal)

lemma DynamicFeeTx_V_step [pb_steps]:
  "l < 2 ^ 63 \<Longrightarrow> int (length (put_bytes 0x52 v @ r)) \<le> l \<Longrightarrow> df_V m = [] \<Longrightarrow>
     pb_loop (DynamicFeeTx_field ic) l (put_bytes 0x52 v @ r) m = pb_loop (DynamicFeeTx_field ic) l r (m\<lparr>df_V := v\<rparr>)"
  by (subst pb_loop_put_bytes [where g = "\<lambda>b. m\<lparr>df_V := b\<rparr>" and f = "\<lambda>b m. Inr (m\<lparr>df_V := b\<rparr>)"]) (simp_all add: pb_defs)

lemma DynamicFeeTx_R_step [pb_steps]:
  "l < 2 ^ 63 \<Longrightarrow> int (length (put_bytes 0x5A v @ r)) \<le> l \<Longrightarrow> df_R m = [] \<Longrightarrow>
     pb_loop (DynamicFeeTx_field ic) l (put_bytes 0x5A v @ r) m = pb_loop (DynamicFeeTx_field ic) l r (m\<lparr>df_R := v\<rparr>)"
  by (subst pb_loop_put_bytes [where g = "\<lambda>b. m\<lparr>df_R := b\<rparr>" and f = "\<lambda>b m. Inr (m\<lparr>df_R := b\<rparr>)"]) (simp_all add: pb_defs)

lemma DynamicFeeTx_S_step [pb_steps]:
  "l < 2 ^ 63 \<Longrightarrow> int (length (put_bytes 0x62 v @ r)) \<le> l \<Longrightarrow> df_S m = [] \<Longrightarrow>
     pb_loop (DynamicFeeTx_field ic) l (put_bytes 0x62 v @ r) m = pb_loop (DynamicFeeTx_field ic) l r (m\<lparr>df_S := v\<rparr>)"
  by (subst pb_loop_put_bytes [where g = "\<lambda>b. m\<lparr>df_S := b\<rparr>" and f = "\<lambda>b m. Inr (m\<lparr>df_S := b\<rparr>)"]) (simp_all add: pb_defs)

lemma length_DynamicFeeTx_bytes [simp]: "length (DynamicFeeTx_bytes ic m) = DynamicFeeTx_Size ic m"
  by (simp add: DynamicFeeTx_bytes_def DynamicFeeTx_Size_def length_concat_put_elem split: option.splits)

lemma DynamicFeeTx_loop:
  "int_codec_laws ic \<Longrightarrow> list_all int_fits [df_Amount m, df_GasFeeCap m, df_GasTipCap m, df_ChainID m] \<Longrightarrow> l < 2 ^ 63 \<Longrightarrow> int (DynamicFeeTx_Size ic m + length r) \<le> l \<Longrightarrow>
     pb_loop (DynamicFeeTx_field ic) l (DynamicFeeTx_bytes ic m @ r) DynamicFeeTx_zero = pb_loop (DynamicFeeTx_field ic) l r m"
  unfolding DynamicFeeTx_bytes_def append_assoc
  by (cases m) (simp add: pb_steps length_concat_put_elem DynamicFeeTx_Size_def DynamicFeeTx_zero_def)

lemma DynamicFeeTx_Unmarshal_Marshal:
  assumes "int_codec_laws ic" and "list_all int_fits [df_Amount m, df_GasFeeCap m, df_GasTipCap m, df_ChainID m]" and "DynamicFeeTx_Size ic m < 2 ^ 63"
  shows "DynamicFeeTx_Marshal ic m = Inr (DynamicFeeTx_bytes ic m)" and "DynamicFeeTx_Unmarshal ic (DynamicFeeTx_bytes ic m) DynamicFeeTx_zero = Inr m"
  using int_error_None [OF assms(1,2)] DynamicFeeTx_loop [OF assms(1,2), of "int (DynamicFeeTx_Size ic m)" "[]"] assms(3)
  by (simp_all add: DynamicFeeTx_Marshal_def DynamicFeeTx_Unmarshal_def pb_unmarshal_def)

section \<open>BlobTxSidecar\<close>

definition BlobTxSidecar_zero :: BlobTxSidecar where
  "BlobTxSidecar_zero = \<lparr>sc_Blobs = [], sc_Commitments = [], sc_Proofs = []\<rparr>"

definition BlobTxSidecar_Marshal :: "BlobTxSidecar \<Rightarrow> bytes" where
  "BlobTxSidecar_Marshal m =
     concat (map (put_elem 0x0A) (sc_Blobs m)) @
     concat (map (put_elem 0x12) (sc_Commitments m)) @
     concat (map (put_elem 0x1A) (sc_Proofs m))"

definition BlobTxSidecar_Size :: "BlobTxSidecar \<Rightarrow> nat" where
  "BlobTxSidecar_Size m =
     sum_list (map (\<lambda>s. size_elem (length s)) (sc_Blobs m)) +
     sum_list (map (\<lambda>s. size_elem (length s)) (sc_Commitments m)) +
     sum_list (map (\<lambda>s. size_elem (length s)) (sc_Proofs m))"

definition BlobTxSidecar_Blobs_case :: "BlobTxSidecar pb_case" where
  "BlobTxSidecar_Blobs_case = BytesField ''Blobs'' (\<lambda>b m. Inr (m\<lparr>sc_Blobs := sc_Blobs m @ [b]\<rparr>))"

definition BlobTxSidecar_Commitments_case :: "BlobTxSidecar pb_case" where
  "BlobTxSidecar_Commitments_case = BytesField ''Commitments'' (\<lambda>b m. Inr (m\<lparr>sc_Commitments := sc_Commitments m @ [b]\<rparr>))"

definition BlobTxSidecar_Proofs_case :: "BlobTxSidecar pb_case" where
  "BlobTxSidecar_Proofs_case = BytesField ''Proofs'' (\<lambda>b m. Inr (m\<lparr>sc_Proofs := sc_Proofs m @ [b]\<rparr>))"

definition BlobTxSidecar_field :: "int \<Rightarrow> BlobTxSidecar pb_case option" where
  "BlobTxSidecar_field n =
     (if n = 1 then Some BlobTxSidecar_Blobs_case
      else if n = 2 then Some BlobTxSidecar_Commitments_case
      else if n = 3 then Some BlobTxSidecar_Proofs_case
      else None)"

definition BlobTxSidecar_Unmarshal :: "bytes \<Rightarrow> BlobTxSidecar \<Rightarrow> string + BlobTxSidecar" where
  "BlobTxSidecar_Unmarshal dAtA m = pb_unmarshal BlobTxSidecar_field dAtA m"

lemmas BlobTxSidecar_cases [pb_defs] = BlobTxSidecar_field_def BlobTxSidecar_Blobs_case_def BlobTxSidecar_Commitments_case_def BlobTxSidecar_Proofs_case_def

lemma BlobTxSidecar_Blobs_step [pb_steps]:
  "l < 2 ^ 63 \<Longrightarrow> int (length (concat (map (put_elem 0x0A) v) @ r)) \<le> l \<Longrightarrow> sc_Blobs m = [] \<Longrightarrow>
     pb_loop BlobTxSidecar_field l (concat (map (put_elem 0x0A) v) @ r) m = pb_loop BlobTxSidecar_field l r (m\<lparr>sc_Blobs := v\<rparr>)"
  by (rule pb_loop_put_list [where f = "\<lambda>b m. Inr (m\<lparr>sc_Blobs := sc_Blobs m @ [b]\<rparr>)" and g = "\<lambda>b. b" and upd = "\<lambda>xs. m\<lparr>sc_Blobs := xs\<rparr>"]) (simp_all add: pb_defs)

lemma BlobTxSidecar_Commitments_step [pb_steps]:
  "l < 2 ^ 63 \<Longrightarrow> int (length (concat (map (put_elem 0x12) v) @ r)) \<le> l \<Longrightarrow> sc_Commitments m = [] \<Longrightarrow>
     pb_loop BlobTxSidecar_field l (concat (map (put_elem 0x12) v) @ r) m = pb_loop BlobTxSidecar_field l r (m\<lparr>sc_Commitments := v\<rparr>)"
  by (rule pb_loop_put_list [where f = "\<lambda>b m. Inr (m\<lparr>sc_Commitments := sc_Commitments m @ [b]\<rparr>)" and g = "\<lambda>b. b" and upd = "\<lambda>xs. m\<lparr>sc_Commitments := xs\<rparr>"]) (simp_all add: pb_defs)

lemma BlobTxSidecar_Proofs_step [pb_steps]:
  "l < 2 ^ 63 \<Longrightarrow> int (length (concat (map (put_elem 0x1A) v) @ r)) \<le> l \<Longrightarrow> sc_Proofs m = [] \<Longrightarrow>
     pb_loop BlobTxSidecar_field l (concat (map (put_elem 0x1A) v) @ r) m = pb_loop BlobTxSidecar_field l r (m\<lparr>sc_Proofs := v\<rparr>)"
  by (rule pb_loop_put_list [where f = "\<lambda>b m. Inr (m\<lparr>sc_Proofs := sc_Proofs m @ [b]\<rparr>)" and g = "\<lambda>b. b" and upd = "\<lambda>xs. m\<lparr>sc_Proofs := xs\<rparr>"]) (simp_all add: pb_defs)

lemma length_BlobTxSidecar [simp]: "length (BlobTxSidecar_Marshal m) = BlobTxSidecar_Size m"
  by (simp add: BlobTxSidecar_Marshal_def BlobTxSidecar_Size_def length_concat_put_elem split: option.splits)

lemma BlobTxSidecar_loop:
  "l < 2 ^ 63 \<Longrightarrow> int (BlobTxSidecar_Size m + length r) \<le> l \<Longrightarrow>
     pb_loop BlobTxSidecar_field l (BlobTxSidecar_Marshal m @ r) BlobTxSidecar_zero = pb_loop BlobTxSidecar_field l r m"
  unfolding BlobTxSidecar_Marshal_def append_assoc
  by (cases m) (simp add: pb_steps length_concat_put_elem BlobTxSidecar_Size_def BlobTxSidecar_zero_def)

lemma BlobTxSidecar_Unmarshal_Marshal: "BlobTxSidecar_Size m < 2 ^ 63 \<Longrightarrow> BlobTxSidecar_Unmarshal (BlobTxSidecar_Marshal m) BlobTxSidecar_zero = Inr m"
  using BlobTxSidecar_loop [of "int (BlobTxSidecar_Size m)" m "[]"] by (simp add: BlobTxSidecar_Unmarshal_def pb_unmarshal_def)

interpretation sidecar_pb: pb_message BlobTxSidecar_Marshal BlobTxSidecar_Size BlobTxSidecar_Unmarshal BlobTxSidecar_zero
  by unfold_locales (simp_all add: BlobTxSidecar_Unmarshal_Marshal)

section \<open>BlobTx\<close>

definition BlobTx_zero :: BlobTx where
  "BlobTx_zero = \<lparr>bt_ChainID = None, bt_Nonce = 0, bt_GasTipCap = None, bt_GasFeeCap = None, bt_GasLimit = 0, bt_To = '''', bt_Amount = None, bt_Data = [], bt_Accesses = [], bt_BlobFeeCap = None, bt_BlobHashes = [], bt_Sidecar = None, bt_V = [], bt_R = [], bt_S = []\<rparr>"

definition BlobTx_bytes :: "int_codec \<Rightarrow> BlobTx \<Rightarrow> bytes" where
  "BlobTx_bytes ic m =
     put_int ic 0x0A (bt_ChainID m) @
     put_varint 0x10 (bt_Nonce m) @
     put_int ic 0x1A (bt_GasTipCap m) @
     put_int ic 0x22 (bt_GasFeeCap m) @
     put_varint 0x28 (bt_GasLimit m) @
     put_bytes 0x32 (str_bytes (bt_To m)) @
     put_int ic 0x3A (bt_Amount m) @
     put_bytes 0x42 (bt_Data m) @
     concat (map (\<lambda>e. put_elem 0x4A (AccessTuple_Marshal e)) (bt_Accesses m)) @
     put_int ic 0x52 (bt_BlobFeeCap m) @
     concat (map (put_elem 0x5A) (bt_BlobHashes m)) @
     put_opt 0x62 BlobTxSidecar_Marshal (bt_Sidecar m) @
     put_bytes 0x6A (bt_V m) @
     put_bytes 0x72 (bt_R m) @
     put_bytes 0x7A (bt_S m)"

definition BlobTx_Marshal :: "int_codec \<Rightarrow> BlobTx \<Rightarrow> string + bytes" where
  "BlobTx_Marshal ic m =
     (case int_error ic [bt_BlobFeeCap m, bt_Amount m, bt_GasFeeCap m, bt_GasTipCap m, bt_ChainID m] of Some e \<Rightarrow> Inl e | None \<Rightarrow> Inr (BlobTx_bytes ic m))"

definition BlobTx_Size :: "int_codec \<Rightarrow> BlobTx \<Rightarrow> nat" where
  "BlobTx_Size ic m =
     size_int ic (bt_ChainID m) +
     size_varint (bt_Nonce m) +
     size_int ic (bt_GasTipCap m) +
     size_int ic (bt_GasFeeCap m) +
     size_varint (bt_GasLimit m) +
     size_bytes (length (bt_To m)) +
     size_int ic (bt_Amount m) +
     size_bytes (length (bt_Data m)) +
     sum_list (map (\<lambda>e. size_elem (AccessTuple_Size e)) (bt_Accesses m)) +
     size_int ic (bt_BlobFeeCap m) +
     sum_list (map (\<lambda>s. size_elem (length s)) (bt_BlobHashes m)) +
     size_opt BlobTxSidecar_Size (bt_Sidecar m) +
     size_bytes (length (bt_V m)) +
     size_bytes (length (bt_R m)) +
     size_bytes (length (bt_S m))"

definition BlobTx_ChainID_case :: "int_codec \<Rightarrow> BlobTx pb_case" where
  "BlobTx_ChainID_case ic = BytesField ''ChainID'' (\<lambda>b m. case Int_Unmarshal ic b None of Inl e \<Rightarrow> Inl e | Inr v \<Rightarrow> Inr (m\<lparr>bt_ChainID := v\<rparr>))"

definition BlobTx_Nonce_case :: "BlobTx pb_case" where
  "BlobTx_Nonce_case = Varint64Field ''Nonce'' (\<lambda>v m. m\<lparr>bt_Nonce := v\<rparr>)"

definition BlobTx_GasTipCap_case :: "int_codec \<Rightarrow> BlobTx pb_case" where
  "BlobTx_GasTipCap_case ic = BytesField ''GasTipCap'' (\<lambda>b m. case Int_Unmarshal ic b None of Inl e \<Rightarrow> Inl e | Inr v \<Rightarrow> Inr (m\<lparr>bt_GasTipCap := v\<rparr>))"

definition BlobTx_GasFeeCap_case :: "int_codec \<Rightarrow> BlobTx pb_case" where
  "BlobTx_GasFeeCap_case ic = BytesField ''GasFeeCap'' (\<lambda>b m. case Int_Unmarshal ic b None of Inl e \<Rightarrow> Inl e | Inr v \<Rightarrow> Inr (m\<lparr>bt_GasFeeCap := v\<rparr>))"

definition BlobTx_GasLimit_case :: "BlobTx pb_case" where
  "BlobTx_GasLimit_case = Varint64Field ''GasLimit'' (\<lambda>v m. m\<lparr>bt_GasLimit := v\<rparr>)"

definition BlobTx_To_case :: "BlobTx pb_case" where
  "BlobTx_To_case = BytesField ''To'' (\<lambda>b m. Inr (m\<lparr>bt_To := bytes_str b\<rparr>))"

definition BlobTx_Amount_case :: "int_codec \<Rightarrow> BlobTx pb_case" where
  "BlobTx_Amount_case ic = BytesField ''Amount'' (\<lambda>b m. case Int_Unmarshal ic b None of Inl e \<Rightarrow> Inl e | Inr v \<Rightarrow> Inr (m\<lparr>bt_Amount := v\<rparr>))"

definition BlobTx_Data_case :: "BlobTx pb_case" where
  "BlobTx_Data_case = BytesField ''Data'' (\<lambda>b m. Inr (m\<lparr>bt_Data := b\<rparr>))"

definition BlobTx_Accesses_case :: "BlobTx pb_case" where
  "BlobTx_Accesses_case = BytesField ''Accesses'' (\<lambda>b m. case AccessTuple_Unmarshal b AccessTuple_zero of Inl e \<Rightarrow> Inl e | Inr v \<Rightarrow> Inr (m\<lparr>bt_Accesses := bt_Accesses m @ [v]\<rparr>))"

definition BlobTx_BlobFeeCap_case :: "int_codec \<Rightarrow> BlobTx pb_case" where
  "BlobTx_BlobFeeCap_case ic = BytesField ''BlobFeeCap'' (\<lambda>b m. case Int_Unmarshal ic b None of Inl e \<Rightarrow> Inl e | Inr v \<Rightarrow> Inr (m\<lparr>bt_BlobFeeCap := v\<rparr>))"

definition BlobTx_BlobHashes_case :: "BlobTx pb_case" where
  "BlobTx_BlobHashes_case = BytesField ''BlobHashes'' (\<lambda>b m. Inr (m\<lparr>bt_BlobHashes := bt_BlobHashes m @ [b]\<rparr>))"

definition BlobTx_Sidecar_case :: "BlobTx pb_case" where
  "BlobTx_Sidecar_case = BytesField ''Sidecar'' (\<lambda>b m. case BlobTxSidecar_Unmarshal b (case bt_Sidecar m of None \<Rightarrow> BlobTxSidecar_zero | Some s \<Rightarrow> s) of Inl e \<Rightarrow> Inl e | Inr v \<Rightarrow> Inr (m\<lparr>bt_Sidecar := Some v\<rparr>))"

definition BlobTx_V_case :: "BlobTx pb_case" where
  "BlobTx_V_case = BytesField ''V'' (\<lambda>b m. Inr (m\<lparr>bt_V := b\<rparr>))"

definition BlobTx_R_case :: "BlobTx pb_case" where
  "BlobTx_R_case = BytesField ''R'' (\<lambda>b m. Inr (m\<lparr>bt_R := b\<rparr>))"

definition BlobTx_S_case :: "BlobTx pb_case" where
  "BlobTx_S_case = BytesField ''S'' (\<lambda>b m. Inr (m\<lparr>bt_S := b\<rparr>))"

definition BlobTx_field :: "int_codec \<Rightarrow> int \<Rightarrow> BlobTx pb_case option" where
  "BlobTx_field ic n =
     (if n = 1 then Some (BlobTx_ChainID_case ic)
      else if n = 2 then Some BlobTx_Nonce_case
      else if n = 3 then Some (BlobTx_GasTipCap_case ic)
      else if n = 4 then Some (BlobTx_GasFeeCap_case ic)
      else if n = 5 then Some BlobTx_GasLimit_case
      else if n = 6 then Some BlobTx_To_case
      else if n = 7 then Some (BlobTx_Amount_case ic)
      else if n = 8 then Some BlobTx_Data_case
      else if n = 9 then Some BlobTx_Accesses_case
      else if n = 10 then Some (BlobTx_BlobFeeCap_case ic)
      else if n = 11 then Some BlobTx_BlobHashes_case
      else if n = 12 then Some BlobTx_Sidecar_case
      else if n = 13 then Some BlobTx_V_case
      else if n = 14 then Some BlobTx_R_case
      else if n = 15 then Some BlobTx_S_case
      else None)"

definition BlobTx_Unmarshal :: "int_codec \<Rightarrow> bytes \<Rightarrow> BlobTx \<Rightarrow> string + BlobTx" where
  "BlobTx_Unmarshal ic dAtA m = pb_unmarshal (BlobTx_field ic) dAtA m"

lemmas BlobTx_cases [pb_defs] = BlobTx_field_def BlobTx_ChainID_case_def BlobTx_Nonce_case_def BlobTx_GasTipCap_case_def BlobTx_GasFeeCap_case_def BlobTx_GasLimit_case_def BlobTx_To_case_def BlobTx_Amount_case_def BlobTx_Data_case_def BlobTx_Accesses_case_def BlobTx_BlobFeeCap_case_def BlobTx_BlobHashes_case_def BlobTx_Sidecar_case_def BlobTx_V_case_def BlobTx_R_case_def BlobTx_S_case_def

lemma BlobTx_ChainID_step [pb_steps]:
  "int_codec_laws ic \<Longrightarrow> int_fits v \<Longrightarrow> l < 2 ^ 63 \<Longrightarrow> int (length (put_int ic 0x0A v @ r)) \<le> l \<Longrightarrow> bt_ChainID m = None \<Longrightarrow>
     pb_loop (BlobTx_field ic) l (put_int ic 0x0A v @ r) m = pb_loop (BlobTx_field ic) l r (m\<lparr>bt_ChainID := v\<rparr>)"
  by (rule pb_loop_put_int [where upd = "\<lambda>v m. m\<lparr>bt_ChainID := v\<rparr>"]) (simp_all add: pb_defs)

lemma BlobTx_Nonce_step [pb_steps]:
  "bt_Nonce m = 0 \<Longrightarrow> pb_loop (BlobTx_field ic) l (put_varint 0x10 v @ r) m = pb_loop (BlobTx_field ic) l r (m\<lparr>bt_Nonce := v\<rparr>)"
  by (subst pb_loop_put_varint) (simp_all add: pb_defs)

lemma BlobTx_GasTipCap_step [pb_steps]:
  "int_codec_laws ic \<Longrightarrow> int_fits v \<Longrightarrow> l < 2 ^ 63 \<Longrightarrow> int (length (put_int ic 0x1A v @ r)) \<le> l \<Longrightarrow> bt_GasTipCap m = None \<Longrightarrow>
     pb_loop (BlobTx_field ic) l (put_int ic 0x1A v @ r) m = pb_loop (BlobTx_field ic) l r (m\<lparr>bt_GasTipCap := v\<rparr>)"
  by (rule pb_loop_put_int [where upd = "\<lambda>v m. m\<lparr>bt_GasTipCap := v\<rparr>"]) (simp_all add: pb_defs)

lemma BlobTx_GasFeeCap_step [pb_steps]:
  "int_codec_laws ic \<Longrightarrow> int_fits v \<Longrightarrow> l < 2 ^ 63 \<Longrightarrow> int (length (put_int ic 0x22 v @ r)) \<le> l \<Longrightarrow> bt_GasFeeCap m = None \<Longrightarrow>
     pb_loop (BlobTx_field ic) l (put_int ic 0x22 v @ r) m = pb_loop (BlobTx_field ic) l r (m\<lparr>bt_GasFeeCap := v\<rparr>)"
  by (rule pb_loop_put_int [where upd = "\<lambda>v m. m\<lparr>bt_GasFeeCap := v\<rparr>"]) (simp_all add: pb_defs)

lemma BlobTx_GasLimit_step [pb_steps]:
  "bt_GasLimit m = 0 \<Longrightarrow> pb_loop (BlobTx_field ic) l (put_varint 0x28 v @ r) m = pb_loop (BlobTx_field ic) l r (m\<lparr>bt_GasLimit := v\<rparr>)"
  by (subst pb_loop_put_varint) (simp_all add: pb_defs)

lemma BlobTx_To_step [pb_steps]:
  "l < 2 ^ 63 \<Longrightarrow> int (length (put_bytes 0x32 (str_bytes v) @ r)) \<le> l \<Longrightarrow> bt_To m = [] \<Longrightarrow>
     pb_loop (BlobTx_field ic) l (put_bytes 0x32 (str_bytes v) @ r) m = pb_loop (BlobTx_field ic) l r (m\<lparr>bt_To := v\<rparr>)"
  by (subst pb_loop_put_bytes [where g = "\<lambda>b. m\<lparr>bt_To := bytes_str b\<rparr>" and f = "\<lambda>b m. Inr (m\<lparr>bt_To := bytes_str b\<rparr>)"]) (simp_all add: pb_defs)

lemma BlobTx_Amount_step [pb_steps]:
  "int_codec_laws ic \<Longrightarrow> int_fits v \<Longrightarrow> l < 2 ^ 63 \<Longrightarrow> int (length (put_int ic 0x3A v @ r)) \<le> l \<Longrightarrow> bt_Amount m = None \<Longrightarrow>
     pb_loop (BlobTx_field ic) l (put_int ic 0x3A v @ r) m = pb_loop (BlobTx_field ic) l r (m\<lparr>bt_Amount := v\<rparr>)"
  by (rule pb_loop_put_int [where upd = "\<lambda>v m. m\<lparr>bt_Amount := v\<rparr>"]) (simp_all add: pb_defs)

lemma BlobTx_Data_step [pb_steps]:
  "l < 2 ^ 63 \<Longrightarrow> int (length (put_bytes 0x42 v @ r)) \<le> l \<Longrightarrow> bt_Data m = [] \<Longrightarrow>
     pb_loop (BlobTx_field ic) l (put_bytes 0x42 v @ r) m = pb_loop (BlobTx_field ic) l r (m\<lparr>bt_Data := v\<rparr>)"
  by (subst pb_loop_put_bytes [where g = "\<lambda>b. m\<lparr>bt_Data := b\<rparr>" and f = "\<lambda>b m. Inr (m\<lparr>bt_Data := b\<rparr>)"]) (simp_all add: pb_defs)

lemma BlobTx_Accesses_step [pb_steps]:
  "l < 2 ^ 63 \<Longrightarrow> int (length (concat (map (\<lambda>e. put_elem 0x4A (AccessTuple_Marshal e)) v) @ r)) \<le> l \<Longrightarrow> bt_Accesses m = [] \<Longrightarrow>
     pb_loop (BlobTx_field ic) l (concat (map (\<lambda>e. put_elem 0x4A (AccessTuple_Marshal e)) v) @ r) m = pb_loop (BlobTx_field ic) l r (m\<lparr>bt_Accesses := v\<rparr>)"
  by (rule pb_loop_put_msgs [where siz = AccessTuple_Size and unm = "\<lambda>b. AccessTuple_Unmarshal b AccessTuple_zero" and get = "bt_Accesses" and upd = "\<lambda>xs m. m\<lparr>bt_Accesses := xs\<rparr>"])
    (simp_all add: pb_defs AccessTuple_Unmarshal_Marshal)

lemma BlobTx_BlobFeeCap_step [pb_steps]:
  "int_codec_laws ic \<Longrightarrow> int_fits v \<Longrightarrow> l < 2 ^ 63 \<Longrightarrow> int (length (put_int ic 0x52 v @ r)) \<le> l \<Longrightarrow> bt_BlobFeeCap m = None \<Longrightarrow>
     pb_loop (BlobTx_field ic) l (put_int ic 0x52 v @ r) m = pb_loop (BlobTx_field ic) l r (m\<lparr>bt_BlobFeeCap := v\<rparr>)"
  by (rule pb_loop_put_int [where upd = "\<lambda>v m. m\<lparr>bt_BlobFeeCap := v\<rparr>"]) (simp_all add: pb_defs)

lemma BlobTx_BlobHashes_step [pb_steps]:
  "l < 2 ^ 63 \<Longrightarrow> int (length (concat (map (put_elem 0x5A) v) @ r)) \<le> l \<Longrightarrow> bt_BlobHashes m = [] \<Longrightarrow>
     pb_loop (BlobTx_field ic) l (concat (map (put_elem 0x5A) v) @ r) m = pb_loop (BlobTx_field ic) l r (m\<lparr>bt_BlobHashes := v\<rparr>)"
  by (rule pb_loop_put_list [where f = "\<lambda>b m. Inr (m\<lparr>bt_BlobHashes := bt_BlobHashes m @ [b]\<rparr>)" and g = "\<lambda>b. b" and upd = "\<lambda>xs. m\<lparr>bt_BlobHashes := xs\<rparr>"]) (simp_all add: pb_defs)

lemma BlobTx_Sidecar_step [pb_steps]:
  "l < 2 ^ 63 \<Longrightarrow> int (length (put_opt 0x62 BlobTxSidecar_Marshal v @ r)) \<le> l \<Longrightarrow> bt_Sidecar m = None \<Longrightarrow>
     pb_loop (BlobTx_field ic) l (put_opt 0x62 BlobTxSidecar_Marshal v @ r) m = pb_loop (BlobTx_field ic) l r (m\<lparr>bt_Sidecar := v\<rparr>)"
  by (rule pb_loop_put_opt [where siz = BlobTxSidecar_Size and f = "\<lambda>b m. case BlobTxSidecar_Unmarshal b (case bt_Sidecar m of None \<Rightarrow> BlobTxSidecar_zero | Some s \<Rightarrow> s) of Inl e \<Rightarrow> Inl e | Inr v \<Rightarrow> Inr (m\<lparr>bt_Sidecar := Some v\<rparr>)"]) (simp_all add: pb_defs BlobTxSidecar_Unmarshal_Marshal)

lemma BlobTx_V_step [pb_steps]:
  "l < 2 ^ 63 \<Longrightarrow> int (length (put_bytes 0x6A v @ r)) \<le> l \<Longrightarrow> bt_V m = [] \<Longrightarrow>
     pb_loop (BlobTx_field ic) l (put_bytes 0x6A v @ r) m = pb_loop (BlobTx_field ic) l r (m\<lparr>bt_V := v\<rparr>)"
  by (subst pb_loop_put_bytes [where g = "\<lambda>b. m\<lparr>bt_V := b\<rparr>" and f = "\<lambda>b m. Inr (m\<lparr>bt_V := b\<rparr>)"]) (simp_all add: pb_defs)

lemma BlobTx_R_step [pb_steps]:
  "l < 2 ^ 63 \<Longrightarrow> int (length (put_bytes 0x72 v @ r)) \<le> l \<Longrightarrow> bt_R m = [] \<Longrightarrow>
     pb_loop (BlobTx_field ic) l (put_bytes 0x72 v @ r) m = pb_loop (BlobTx_field ic) l r (m\<lparr>bt_R := v\<rparr>)"
  by (subst pb_loop_put_bytes [where g = "\<lambda>b. m\<lparr>bt_R := b\<rparr>" and f = "\<lambda>b m. Inr (m\<lparr>bt_R := b\<rparr>)"]) (simp_all add: pb_defs)

lemma BlobTx_S_step [pb_steps]:
  "l < 2 ^ 63 \<Longrightarrow> int (length (put_bytes 0x7A v @ r)) \<le> l \<Longrightarrow> bt_S m = [] \<Longrightarrow>
     pb_loop (BlobTx_field ic) l (put_bytes 0x7A v @ r) m = pb_loop (BlobTx_field ic) l r (m\<lparr>bt_S := v\<rparr>)"
  by (subst pb_loop_put_bytes [where g = "\<lambda>b. m\<lparr>bt_S := b\<rparr>" and f = "\<lambda>b m. Inr (m\<lparr>bt_S := b\<rparr>)"]) (simp_all add: pb_defs)

lemma length_BlobTx_bytes [simp]: "length (BlobTx_bytes ic m) = BlobTx_Size ic m"
  by (simp add: BlobTx_bytes_def BlobTx_Size_def length_concat_put_elem split: option.splits)

lemma BlobTx_loop:
  "int_codec_laws ic \<Longrightarrow> list_all int_fits [bt_BlobFeeCap m, bt_Amount m, bt_GasFeeCap m, bt_GasTipCap m, bt_ChainID m] \<Longrightarrow> l < 2 ^ 63 \<Longrightarrow> int (BlobTx_Size ic m + length r) \<le> l \<Longrightarrow>
     pb_loop (BlobTx_field ic) l (BlobTx_bytes ic m @ r) BlobTx_zero = pb_loop (BlobTx_field ic) l r m"
  unfolding BlobTx_bytes_def append_assoc
  by (cases m) (simp add: pb_steps length_concat_put_elem BlobTx_Size_def BlobTx_zero_def)

lemma BlobTx_Unmarshal_Marshal:
  assumes "int_codec_laws ic" and "list_all int_fits [bt_BlobFeeCap m, bt_Amount m, bt_GasFeeCap m, bt_GasTipCap m, bt_ChainID m]" and "BlobTx_Size ic m < 2 ^ 63"
  shows "BlobTx_Marshal ic m = Inr (BlobTx_bytes ic m)" and "BlobTx_Unmarshal ic (BlobTx_bytes ic m) BlobTx_zero = Inr m"
  using int_error_None [OF assms(1,2)] BlobTx_loop [OF assms(1,2), of "int (BlobTx_Size ic m)" "[]"] assms(3)
  by (simp_all add: BlobTx_Marshal_def BlobTx_Unmarshal_def pb_unmarshal_def)

end
