(* ===== verification/Evm_Codec.thy ===== *)
theory Evm_Codec
  imports Pb_EthTx
begin

text \<open>
  \<open>PackTxData\<close> and \<open>UnpackTxData\<close> of \<open>x/evm/types/codec.go\<close>. An \<open>Any\<close> holds the encoding of a message and, once it
  has been unpacked, the message itself; here the message is a transaction or absent. \<open>NewAnyWithValue\<close> of the
  Cosmos SDK keeps both.
\<close>

record Any =
  any_cachedValue :: "TxData option"
  any_Value :: bytes

definition TxData_Marshal :: "int_codec \<Rightarrow> TxData \<Rightarrow> string + bytes" where
  "TxData_Marshal ic tx =
     (case tx of
        TxLegacy t \<Rightarrow> LegacyTx_Marshal ic t
      | TxAccessList t \<Rightarrow> AccessListTx_Marshal ic t
      | TxDynamicFee t \<Rightarrow> DynamicFeeTx_Marshal ic t
      | TxBlob t \<Rightarrow> BlobTx_Marshal ic t
      | TxAssociate t \<Rightarrow> Inr (AssociateTx_Marshal t))"

definition PackTxData :: "int_codec \<Rightarrow> TxData \<Rightarrow> string + Any" where
  "PackTxData ic txData =
     (case TxData_Marshal ic txData of
        Inl e \<Rightarrow> Inl e
      | Inr bz \<Rightarrow> Inr \<lparr>any_cachedValue = Some txData, any_Value = bz\<rparr>)"

definition UnpackTxData :: "int_codec \<Rightarrow> Any option \<Rightarrow> string + TxData" where
  "UnpackTxData ic any =
     (case any of
        None \<Rightarrow> Inl ''protobuf Any message cannot be nil''
      | Some a \<Rightarrow>
          (case any_cachedValue a of
             Some txData \<Rightarrow> Inr txData
           | None \<Rightarrow>
               (case LegacyTx_Unmarshal ic (any_Value a) LegacyTx_zero of Inr ltx \<Rightarrow> Inr (TxLegacy ltx) | Inl _ \<Rightarrow>
               (case AccessListTx_Unmarshal ic (any_Value a) AccessListTx_zero of Inr atx \<Rightarrow> Inr (TxAccessList atx) | Inl _ \<Rightarrow>
               (case DynamicFeeTx_Unmarshal ic (any_Value a) DynamicFeeTx_zero of Inr dtx \<Rightarrow> Inr (TxDynamicFee dtx) | Inl _ \<Rightarrow>
               (case BlobTx_Unmarshal ic (any_Value a) BlobTx_zero of Inr btx \<Rightarrow> Inr (TxBlob btx) | Inl _ \<Rightarrow>
               (case AssociateTx_Unmarshal (any_Value a) AssociateTx_zero of Inr astx \<Rightarrow> Inr (TxAssociate astx) | Inl _ \<Rightarrow>
                  Inl ''cannot unpack Any into TxData'')))))))"

section \<open>Which decoder takes an encoding\<close>

lemma legacy_rejects:
  "LegacyTx_Unmarshal ic (put_elem 0x0A b @ r) LegacyTx_zero = Inl (wrong_wireType ''Nonce'')"
  unfolding LegacyTx_Unmarshal_def pb_unmarshal_def
  by (rule pb_loop_wrong_wireType) (simp_all add: LegacyTx_field_def LegacyTx_Nonce_case_def)

lemma put_int_Some: "put_int ic tag (Some x) = put_elem tag (int_bytes ic x)"
  by (simp add: put_int_def)

text \<open>The first four fields of a dynamic fee transaction read as an access list transaction: the fee cap stands where
  the gas limit is expected.\<close>

lemma access_list_rejects:
  assumes "int_codec_laws ic" and "int_fits c" and "int_fits t"
    and "length (put_int ic 0x0A c @ put_varint 0x10 n @ put_int ic 0x1A t @ put_elem 0x22 b @ r) < 2 ^ 63"
  shows "AccessListTx_Unmarshal ic (put_int ic 0x0A c @ put_varint 0x10 n @ put_int ic 0x1A t @ put_elem 0x22 b @ r) AccessListTx_zero =
    Inl (wrong_wireType ''GasLimit'')"
proof -
  have last: "pb_loop (AccessListTx_field ic) l (put_elem 0x22 b @ r) m = Inl (wrong_wireType ''GasLimit'')" for l m
    by (rule pb_loop_wrong_wireType) (simp_all add: AccessListTx_field_def AccessListTx_GasLimit_case_def)
  show ?thesis
    using assms unfolding AccessListTx_Unmarshal_def pb_unmarshal_def
    by (simp add: pb_steps AccessListTx_zero_def last)
qed

text \<open>What a transaction needs for its encoding to be told apart: a chain ID, and a fee cap unless it is an access list
  transaction. Legacy transactions are tried first.\<close>

fun recognised :: "int_codec \<Rightarrow> TxData \<Rightarrow> bool" where
  "recognised ic (TxLegacy t) \<longleftrightarrow> list_all int_fits [lt_Amount t, lt_GasPrice t] \<and> LegacyTx_Size ic t < 2 ^ 63"
| "recognised ic (TxAccessList t) \<longleftrightarrow>
     list_all int_fits [al_Amount t, al_GasPrice t, al_ChainID t] \<and> AccessListTx_Size ic t < 2 ^ 63 \<and> al_ChainID t \<noteq> None"
| "recognised ic (TxDynamicFee t) \<longleftrightarrow>
     list_all int_fits [df_Amount t, df_GasFeeCap t, df_GasTipCap t, df_ChainID t] \<and> DynamicFeeTx_Size ic t < 2 ^ 63 \<and>
     df_ChainID t \<noteq> None \<and> df_GasFeeCap t \<noteq> None"
| "recognised ic (TxBlob t) \<longleftrightarrow> False"
| "recognised ic (TxAssociate t) \<longleftrightarrow> False"

text \<open>C31 (unpack_recognised): a packed transaction unpacks to itself while its value is cached. From the bytes alone, a legacy
  transaction does, an access list transaction with a chain ID does, and a dynamic fee transaction with a chain
  ID and a fee cap does: no earlier decoder accepts their encoding.\<close>

theorem unpack_recognised:
  assumes ic: "int_codec_laws ic" and tx: "recognised ic tx"
  shows "\<exists>any. PackTxData ic tx = Inr any \<and> UnpackTxData ic (Some any) = Inr tx \<and>
    UnpackTxData ic (Some (any\<lparr>any_cachedValue := None\<rparr>)) = Inr tx"
proof (cases tx)
  case (TxLegacy t)
  then show ?thesis
    using LegacyTx_Unmarshal_Marshal [OF ic, of t] tx by (simp add: PackTxData_def TxData_Marshal_def UnpackTxData_def)
next
  case (TxAccessList t)
  then obtain c where c: "al_ChainID t = Some c" using tx by auto
  have "LegacyTx_Unmarshal ic (AccessListTx_bytes ic t) LegacyTx_zero = Inl (wrong_wireType ''Nonce'')"
    unfolding AccessListTx_bytes_def c put_int_Some by (rule legacy_rejects)
  then show ?thesis
    using AccessListTx_Unmarshal_Marshal [OF ic, of t] tx TxAccessList by (simp add: PackTxData_def TxData_Marshal_def UnpackTxData_def)
next
  case (TxDynamicFee t)
  then obtain c f where c: "df_ChainID t = Some c" and f: "df_GasFeeCap t = Some f" using tx by auto
  have "LegacyTx_Unmarshal ic (DynamicFeeTx_bytes ic t) LegacyTx_zero = Inl (wrong_wireType ''Nonce'')"
    unfolding DynamicFeeTx_bytes_def c put_int_Some by (rule legacy_rejects)
  moreover have "length (DynamicFeeTx_bytes ic t) < 2 ^ 63" using tx TxDynamicFee by simp
  then have "AccessListTx_Unmarshal ic (DynamicFeeTx_bytes ic t) AccessListTx_zero = Inl (wrong_wireType ''GasLimit'')"
    unfolding DynamicFeeTx_bytes_def f put_int_Some [of ic "0x22"]
    by (rule access_list_rejects [OF ic, rotated 2]) (use tx TxDynamicFee in simp_all)
  ultimately show ?thesis
    using DynamicFeeTx_Unmarshal_Marshal [OF ic, of t] tx TxDynamicFee by (simp add: PackTxData_def TxData_Marshal_def UnpackTxData_def)
qed (use tx in simp_all)

definition dynamic_example :: DynamicFeeTx where
  "dynamic_example = DynamicFeeTx_zero\<lparr>df_ChainID := Some 1, df_Nonce := 3, df_GasFeeCap := Some 1, df_To := ''0x1''\<rparr>"

lemma size_bounds:
  "size_varint v \<le> 11" "size_bytes n \<le> n + 11" "size_elem n \<le> n + 11"
  using sov_le [of v] sov_le [of "word_of_nat n"] by (auto simp: size_varint_def size_elem_def size_bytes_def)

lemma size_int_bytes: "int_fits v \<Longrightarrow> size_int int_codec_bytes v \<le> 1100"
proof (cases v)
  case (Some x)
  assume "int_fits v"
  then have "Int_Size int_codec_bytes (Some x) < 2 ^ 10"
    using int_codec_bytes_laws Some by (auto simp: int_codec_laws_def Int_Size_def int_fits_def simp del: int_codec_bytes_laws)
  then show ?thesis using size_bounds(3) [of "Int_Size int_codec_bytes (Some x)"] Some by (simp add: size_int_def)
qed (simp add: size_int_def)

theorem unpack_recognised_witness:
  "\<exists>any. PackTxData int_codec_bytes (TxDynamicFee dynamic_example) = Inr any \<and>
     UnpackTxData int_codec_bytes (Some (any\<lparr>any_cachedValue := None\<rparr>)) = Inr (TxDynamicFee dynamic_example)"
proof -
  have fits: "int_fits (Some 1)" "int_fits None" by (simp_all add: int_fits_def big_BitLen_le_iff)
  have "DynamicFeeTx_Size int_codec_bytes dynamic_example \<le> 10000"
    using size_int_bytes [OF fits(1)] size_int_bytes [OF fits(2)] size_bounds(1) [of 3] size_bounds(1) [of 0] size_bounds(2) [of 3] size_bounds(2) [of 0]
    by (simp add: DynamicFeeTx_Size_def dynamic_example_def DynamicFeeTx_zero_def numeral_3_eq_3)
  then have "recognised int_codec_bytes (TxDynamicFee dynamic_example)"
    using fits by (simp add: dynamic_example_def DynamicFeeTx_zero_def)
  then show ?thesis using unpack_recognised [OF int_codec_bytes_laws] by blast
qed

section \<open>Blob transactions\<close>

text \<open>The fields of a blob transaction after the access list, read as a dynamic fee transaction.\<close>

lemma dynamic_reads_blob_fields:
  assumes "l < 2 ^ 63"
  shows "int (length (put_int ic 0x52 v @ r)) \<le> l \<Longrightarrow> \<exists>d'. df_Nonce d' = df_Nonce d \<and>
      df_V d' = (case v of None \<Rightarrow> df_V d | Some x \<Rightarrow> int_bytes ic x) \<and>
      pb_loop (DynamicFeeTx_field ic) l (put_int ic 0x52 v @ r) d = pb_loop (DynamicFeeTx_field ic) l r d'"
    and "int (length (concat (map (put_elem 0x5A) hs) @ r)) \<le> l \<Longrightarrow> \<exists>d'. df_Nonce d' = df_Nonce d \<and> df_V d' = df_V d \<and>
      pb_loop (DynamicFeeTx_field ic) l (concat (map (put_elem 0x5A) hs) @ r) d = pb_loop (DynamicFeeTx_field ic) l r d'"
    and "int (length (put_opt 0x62 BlobTxSidecar_Marshal s @ r)) \<le> l \<Longrightarrow> \<exists>d'. df_Nonce d' = df_Nonce d \<and> df_V d' = df_V d \<and>
      pb_loop (DynamicFeeTx_field ic) l (put_opt 0x62 BlobTxSidecar_Marshal s @ r) d = pb_loop (DynamicFeeTx_field ic) l r d'"
    and "tag \<in> {0x6A, 0x72, 0x7A} \<Longrightarrow> int (length (put_bytes tag b @ r)) \<le> l \<Longrightarrow>
      pb_loop (DynamicFeeTx_field ic) l (put_bytes tag b @ r) d = pb_loop (DynamicFeeTx_field ic) l r d"
proof -
  have R: "pb_loop (DynamicFeeTx_field ic) l (put_elem 0x5A b @ r) d = pb_loop (DynamicFeeTx_field ic) l r (d\<lparr>df_R := b\<rparr>)"
    if "int (length (put_elem 0x5A b @ r)) \<le> l" for b r d
    using assms that by (intro pb_loop_put_elem) (simp_all add: pb_defs)
  show "int (length (put_int ic 0x52 v @ r)) \<le> l \<Longrightarrow> \<exists>d'. df_Nonce d' = df_Nonce d \<and>
      df_V d' = (case v of None \<Rightarrow> df_V d | Some x \<Rightarrow> int_bytes ic x) \<and>
      pb_loop (DynamicFeeTx_field ic) l (put_int ic 0x52 v @ r) d = pb_loop (DynamicFeeTx_field ic) l r d'"
  proof (cases v)
    case (Some x)
    assume "int (length (put_int ic 0x52 v @ r)) \<le> l"
    then have "int (length (put_elem 0x52 (int_bytes ic x) @ r)) \<le> l" using Some by (simp add: put_int_Some)
    then have "pb_loop (DynamicFeeTx_field ic) l (put_elem 0x52 (int_bytes ic x) @ r) d =
        pb_loop (DynamicFeeTx_field ic) l r (d\<lparr>df_V := int_bytes ic x\<rparr>)"
      using assms by (intro pb_loop_put_elem) (simp_all add: pb_defs)
    then show ?thesis using Some by (intro exI [of _ "d\<lparr>df_V := int_bytes ic x\<rparr>"]) (simp add: put_int_Some)
  qed (auto simp: put_int_def)
  show "int (length (concat (map (put_elem 0x5A) hs) @ r)) \<le> l \<Longrightarrow> \<exists>d'. df_Nonce d' = df_Nonce d \<and> df_V d' = df_V d \<and>
      pb_loop (DynamicFeeTx_field ic) l (concat (map (put_elem 0x5A) hs) @ r) d = pb_loop (DynamicFeeTx_field ic) l r d'"
  proof (induction hs arbitrary: d)
    case (Cons h hs)
    then have "int (length (concat (map (put_elem 0x5A) hs) @ r)) \<le> l" by simp
    from Cons.IH [OF this, of "d\<lparr>df_R := h\<rparr>"] R [of h "concat (map (put_elem 0x5A) hs) @ r" d] Cons.prems show ?case by simp
  qed auto
  show "int (length (put_opt 0x62 BlobTxSidecar_Marshal s @ r)) \<le> l \<Longrightarrow> \<exists>d'. df_Nonce d' = df_Nonce d \<and> df_V d' = df_V d \<and>
      pb_loop (DynamicFeeTx_field ic) l (put_opt 0x62 BlobTxSidecar_Marshal s @ r) d = pb_loop (DynamicFeeTx_field ic) l r d'"
  proof (cases s)
    case (Some x)
    assume "int (length (put_opt 0x62 BlobTxSidecar_Marshal s @ r)) \<le> l"
    then have "int (length (put_elem 0x62 (BlobTxSidecar_Marshal x) @ r)) \<le> l" using Some by (simp add: size_opt_def)
    then have "pb_loop (DynamicFeeTx_field ic) l (put_elem 0x62 (BlobTxSidecar_Marshal x) @ r) d =
        pb_loop (DynamicFeeTx_field ic) l r (d\<lparr>df_S := BlobTxSidecar_Marshal x\<rparr>)"
      using assms by (intro pb_loop_put_elem) (simp_all add: pb_defs)
    then show ?thesis using Some by (intro exI [of _ "d\<lparr>df_S := BlobTxSidecar_Marshal x\<rparr>"]) (simp add: put_opt_def)
  qed (auto simp: put_opt_def)
  show "tag \<in> {0x6A, 0x72, 0x7A} \<Longrightarrow> int (length (put_bytes tag b @ r)) \<le> l \<Longrightarrow>
      pb_loop (DynamicFeeTx_field ic) l (put_bytes tag b @ r) d = pb_loop (DynamicFeeTx_field ic) l r d"
    using assms pb_loop_unknown_elem [of tag "DynamicFeeTx_field ic" l b r d]
    by (cases "b = []") (auto simp: put_bytes_def size_bytes_def DynamicFeeTx_field_def)
qed

lemma dynamic_reads_blob:
  assumes ic: "int_codec_laws ic" and fits: "list_all int_fits [bt_Amount t, bt_GasFeeCap t, bt_GasTipCap t, bt_ChainID t]"
    and size: "BlobTx_Size ic t < 2 ^ 63"
  shows "\<exists>d. DynamicFeeTx_Unmarshal ic (BlobTx_bytes ic t) DynamicFeeTx_zero = Inr d \<and> df_Nonce d = bt_Nonce t \<and>
    df_V d = (case bt_BlobFeeCap t of None \<Rightarrow> [] | Some x \<Rightarrow> int_bytes ic x)"
proof -
  let ?l = "int (BlobTx_Size ic t)" and ?h = "DynamicFeeTx_field ic"
  define r5 where "r5 = put_bytes 0x6A (bt_V t) @ put_bytes 0x72 (bt_R t) @ put_bytes 0x7A (bt_S t) @ []"
  define r4 where "r4 = put_opt 0x62 BlobTxSidecar_Marshal (bt_Sidecar t) @ r5"
  define r3 where "r3 = concat (map (put_elem 0x5A) (bt_BlobHashes t)) @ r4"
  define r2 where "r2 = put_int ic 0x52 (bt_BlobFeeCap t) @ r3"
  define d where "d = DynamicFeeTx_zero\<lparr>df_ChainID := bt_ChainID t, df_Nonce := bt_Nonce t, df_GasTipCap := bt_GasTipCap t,
     df_GasFeeCap := bt_GasFeeCap t, df_GasLimit := bt_GasLimit t, df_To := bt_To t, df_Amount := bt_Amount t,
     df_Data := bt_Data t, df_Accesses := bt_Accesses t\<rparr>"
  have l: "?l < 2 ^ 63" using size by simp
  have lens: "int (length r2) \<le> ?l" "int (length r3) \<le> ?l" "int (length r4) \<le> ?l" "int (length r5) \<le> ?l"
    by (simp_all add: r2_def r3_def r4_def r5_def BlobTx_Size_def length_concat_put_elem)
  have "BlobTx_bytes ic t = put_int ic 0x0A (bt_ChainID t) @ put_varint 0x10 (bt_Nonce t) @ put_int ic 0x1A (bt_GasTipCap t) @
      put_int ic 0x22 (bt_GasFeeCap t) @ put_varint 0x28 (bt_GasLimit t) @ put_bytes 0x32 (str_bytes (bt_To t)) @
      put_int ic 0x3A (bt_Amount t) @ put_bytes 0x42 (bt_Data t) @ concat (map (\<lambda>e. put_elem 0x4A (AccessTuple_Marshal e)) (bt_Accesses t)) @ r2"
    by (simp add: BlobTx_bytes_def r2_def r3_def r4_def r5_def)
  moreover have "length (BlobTx_bytes ic t) = BlobTx_Size ic t" by simp
  ultimately have "pb_loop ?h ?l (BlobTx_bytes ic t) DynamicFeeTx_zero = pb_loop ?h ?l r2 d"
    using ic fits l by (simp add: pb_steps length_concat_put_elem DynamicFeeTx_zero_def d_def)
  moreover obtain d2 where "df_Nonce d2 = df_Nonce d" "df_V d2 = (case bt_BlobFeeCap t of None \<Rightarrow> df_V d | Some x \<Rightarrow> int_bytes ic x)"
      "pb_loop ?h ?l r2 d = pb_loop ?h ?l r3 d2"
    using dynamic_reads_blob_fields(1) [OF l] lens(1) unfolding r2_def by blast
  moreover obtain d3 where "df_Nonce d3 = df_Nonce d2" "df_V d3 = df_V d2" "pb_loop ?h ?l r3 d2 = pb_loop ?h ?l r4 d3"
    using dynamic_reads_blob_fields(2) [OF l] lens(2) unfolding r3_def by blast
  moreover obtain d4 where "df_Nonce d4 = df_Nonce d3" "df_V d4 = df_V d3" "pb_loop ?h ?l r4 d3 = pb_loop ?h ?l r5 d4"
    using dynamic_reads_blob_fields(3) [OF l] lens(3) unfolding r4_def by blast
  moreover have "pb_loop ?h ?l r5 d4 = Inr d4"
    using lens(4) unfolding r5_def by (simp add: dynamic_reads_blob_fields(4) [OF l] del: append_Nil2)
  moreover have "df_V d = []" "df_Nonce d = bt_Nonce t" by (simp_all add: d_def DynamicFeeTx_zero_def)
  ultimately show ?thesis
    by (intro exI [of _ d4]) (cases "bt_BlobFeeCap t"; simp add: DynamicFeeTx_Unmarshal_def pb_unmarshal_def)
qed

text \<open>C32 (blob_unpacks_as_dynamic): from the bytes alone a blob transaction with a chain ID and a fee cap never unpacks as one: the decoder of dynamic fee
  transactions, tried before, accepts every encoding of it, and takes the blob fee cap for the \<open>V\<close> of the signature.\<close>

theorem blob_unpacks_as_dynamic:
  assumes ic: "int_codec_laws ic" and fits: "list_all int_fits [bt_BlobFeeCap t, bt_Amount t, bt_GasFeeCap t, bt_GasTipCap t, bt_ChainID t]"
    and size: "BlobTx_Size ic t < 2 ^ 63" and some: "bt_ChainID t \<noteq> None" "bt_GasFeeCap t \<noteq> None"
  shows "\<exists>any d. PackTxData ic (TxBlob t) = Inr any \<and> UnpackTxData ic (Some (any\<lparr>any_cachedValue := None\<rparr>)) = Inr (TxDynamicFee d) \<and>
    df_Nonce d = bt_Nonce t \<and> df_V d = (case bt_BlobFeeCap t of None \<Rightarrow> [] | Some x \<Rightarrow> int_bytes ic x)"
proof -
  obtain c f where c: "bt_ChainID t = Some c" and f: "bt_GasFeeCap t = Some f" using some by auto
  have "LegacyTx_Unmarshal ic (BlobTx_bytes ic t) LegacyTx_zero = Inl (wrong_wireType ''Nonce'')"
    unfolding BlobTx_bytes_def c put_int_Some by (rule legacy_rejects)
  moreover have "length (BlobTx_bytes ic t) < 2 ^ 63" using size by simp
  then have "AccessListTx_Unmarshal ic (BlobTx_bytes ic t) AccessListTx_zero = Inl (wrong_wireType ''GasLimit'')"
    unfolding BlobTx_bytes_def f put_int_Some [of ic "0x22"]
    by (rule access_list_rejects [OF ic, rotated 2]) (use fits in simp_all)
  moreover obtain d where "DynamicFeeTx_Unmarshal ic (BlobTx_bytes ic t) DynamicFeeTx_zero = Inr d" "df_Nonce d = bt_Nonce t"
      "df_V d = (case bt_BlobFeeCap t of None \<Rightarrow> [] | Some x \<Rightarrow> int_bytes ic x)"
    using dynamic_reads_blob [OF ic _ size] fits by auto
  ultimately show ?thesis
    using int_error_None [OF ic fits] by (simp add: PackTxData_def TxData_Marshal_def UnpackTxData_def BlobTx_Marshal_def)
qed

definition blob_example :: BlobTx where
  "blob_example = BlobTx_zero\<lparr>bt_ChainID := Some 1, bt_Nonce := 3, bt_GasFeeCap := Some 1, bt_BlobFeeCap := Some 1\<rparr>"

theorem blob_unpacks_as_dynamic_witness:
  "\<exists>any d. PackTxData int_codec_bytes (TxBlob blob_example) = Inr any \<and>
     UnpackTxData int_codec_bytes (Some (any\<lparr>any_cachedValue := None\<rparr>)) = Inr (TxDynamicFee d) \<and> df_V d = int_bytes int_codec_bytes 1"
proof -
  have fits: "int_fits (Some 1)" "int_fits None" by (simp_all add: int_fits_def big_BitLen_le_iff)
  have "BlobTx_Size int_codec_bytes blob_example \<le> 10000"
    using size_int_bytes [OF fits(1)] size_int_bytes [OF fits(2)] size_bounds(1) [of 3] size_bounds(1) [of 0] size_bounds(2) [of 0]
    by (simp add: BlobTx_Size_def blob_example_def BlobTx_zero_def size_opt_def)
  then show ?thesis
    using blob_unpacks_as_dynamic [OF int_codec_bytes_laws, of blob_example] fits by (auto simp: blob_example_def BlobTx_zero_def)
qed

end
