(* ===== verification/Evm_Msg.thy ===== *)
theory Evm_Msg
  imports Evm_Codec EthTx_Iface Keeper_Receipt Keeper_Pointer
begin

text \<open>
  The messages of the module: \<open>x/evm/types/message_*.go\<close> with \<open>errors.go\<close>, \<open>whitelist.go\<close> and \<open>constants.go\<close>, and the
  derived fields of a message (\<open>x/evm/derived\<close>). A \<open>sdk.Tx\<close> is the list of its messages; messages of other modules
  are opaque. The amount of coins of a \<open>MsgSend\<close> belongs to the Cosmos SDK, whose two checks of it are parameters.
\<close>

section \<open>EVM transactions\<close>

datatype SignerVersion = London | Cancun

record Derived =
  dv_SenderEVMAddr :: address
  dv_SenderTabiAddr :: bytes
  dv_PubKey :: "bytes option"
  dv_IsAssociate :: bool
  dv_Version :: SignerVersion

record MsgEVMTransaction =
  me_Data :: "Any option"
  me_Derived :: "Derived option"

record MsgEVMTransactionResponse =
  mr_GasUsed :: uint64
  mr_VmError :: string
  mr_ReturnData :: bytes
  mr_Hash :: string
  mr_Logs :: "evm_Log list"

definition MsgEVMTransactionResponse_zero :: MsgEVMTransactionResponse where
  "MsgEVMTransactionResponse_zero = \<lparr>mr_GasUsed = 0, mr_VmError = [], mr_ReturnData = [], mr_Hash = [], mr_Logs = []\<rparr>"

definition MaxAssociateCustomMessageLength :: nat where
  "MaxAssociateCustomMessageLength = 64"

definition NewMsgEVMTransaction :: "int_codec \<Rightarrow> TxData \<Rightarrow> string + MsgEVMTransaction" where
  "NewMsgEVMTransaction ic txData =
     (case PackTxData ic txData of
        Inl e \<Rightarrow> Inl e
      | Inr txDataAny \<Rightarrow> Inr \<lparr>me_Data = Some txDataAny, me_Derived = None\<rparr>)"

definition GetAssociateTx :: "int_codec \<Rightarrow> MsgEVMTransaction \<Rightarrow> AssociateTx option go" where
  "GetAssociateTx ic msg =
     (case UnpackTxData ic (me_Data msg) of
        Inl err \<Rightarrow> Panic err
      | Inr txData \<Rightarrow> Done (case txData of TxAssociate amsg \<Rightarrow> Some amsg | _ \<Rightarrow> None))"

definition IsAssociateTx :: "int_codec \<Rightarrow> MsgEVMTransaction \<Rightarrow> bool go" where
  "IsAssociateTx ic msg = go_map (\<lambda>a. a \<noteq> None) (GetAssociateTx ic msg)"

definition MsgEVMTransaction_ValidateBasic :: "int_codec \<Rightarrow> MsgEVMTransaction \<Rightarrow> error go" where
  "MsgEVMTransaction_ValidateBasic ic msg =
     go_map (\<lambda>amsg. case amsg of
         Some a \<Rightarrow> if length (as_CustomMessage a) > MaxAssociateCustomMessageLength
                   then Some ''custom message can have at most 64 characters: tx too large'' else None
       | None \<Rightarrow> None) (GetAssociateTx ic msg)"

text \<open>\<open>AsTransaction\<close> returns two nil values when the data does not unpack.\<close>

definition AsTransaction :: "lib \<Rightarrow> eth_funs \<Rightarrow> int_codec \<Rightarrow> MsgEVMTransaction \<Rightarrow> (eth_Transaction \<times> TxData) option go" where
  "AsTransaction l e ic msg =
     (case UnpackTxData ic (me_Data msg) of
        Inl err \<Rightarrow> Done None
      | Inr txData \<Rightarrow> go_map (\<lambda>d. Some (NewTx e d, txData)) (TxData_AsEthereumData l txData))"

text \<open>\<open>GetSigners\<close> and \<open>GetSignBytes\<close> of an EVM transaction are never to be called.\<close>

definition MsgEVMTransaction_GetSigners :: "MsgEVMTransaction \<Rightarrow> bytes list go" where
  "MsgEVMTransaction_GetSigners msg = Panic ''signer should be accessed on EVM transaction level''"

definition MsgEVMTransaction_GetSignBytes :: "MsgEVMTransaction \<Rightarrow> bytes go" where
  "MsgEVMTransaction_GetSignBytes msg = Panic ''sign bytes should be accessed on EVM transaction level''"

section \<open>The other messages\<close>

record MsgAssociate =
  ma_Sender :: string
  ma_CustomMessage :: string

record 'coins MsgSend =
  ms_FromAddress :: string
  ms_ToAddress :: string
  ms_Amount :: 'coins

record MsgRegisterPointer =
  mp_Sender :: string
  mp_PointerType :: PointerType
  mp_ErcAddress :: string

record MsgAssociateContractAddress =
  mc_Sender :: string
  mc_Address :: string

record MsgInternalEVMCall =
  mi_Sender :: string
  mi_Value :: "bigint option"
  mi_To :: string
  mi_Data :: bytes

record MsgInternalEVMDelegateCall =
  md_Sender :: string
  md_CodeHash :: bytes
  md_To :: string
  md_Data :: bytes
  md_FromContract :: string

text \<open>\<open>GetSigners\<close>: the messages other than an EVM transaction are signed by one account, named by its text.\<close>

definition signer_of :: "lib \<Rightarrow> string \<Rightarrow> bytes list go" where
  "signer_of l s = (case AccAddressFromBech32 l s of Inl err \<Rightarrow> Panic err | Inr from \<Rightarrow> Done [from])"

definition MsgAssociate_GetSigners :: "lib \<Rightarrow> MsgAssociate \<Rightarrow> bytes list go" where
  "MsgAssociate_GetSigners l msg = signer_of l (ma_Sender msg)"

definition MsgSend_GetSigners :: "lib \<Rightarrow> 'coins MsgSend \<Rightarrow> bytes list go" where
  "MsgSend_GetSigners l msg = signer_of l (ms_FromAddress msg)"

definition MsgRegisterPointer_GetSigners :: "lib \<Rightarrow> MsgRegisterPointer \<Rightarrow> bytes list go" where
  "MsgRegisterPointer_GetSigners l msg = signer_of l (mp_Sender msg)"

definition MsgAssociateContractAddress_GetSigners :: "lib \<Rightarrow> MsgAssociateContractAddress \<Rightarrow> bytes list go" where
  "MsgAssociateContractAddress_GetSigners l msg = signer_of l (mc_Sender msg)"

definition MsgAssociate_ValidateBasic :: "lib \<Rightarrow> MsgAssociate \<Rightarrow> error" where
  "MsgAssociate_ValidateBasic l msg =
     (case AccAddressFromBech32 l (ma_Sender msg) of
        Inl err \<Rightarrow> Some ''Invalid sender address''
      | Inr _ \<Rightarrow>
          if length (ma_CustomMessage msg) > MaxAssociateCustomMessageLength
          then Some ''custom message can have at most 64 characters: tx too large'' else None)"

definition MsgSend_ValidateBasic :: "lib \<Rightarrow> ('coins \<Rightarrow> bool) \<Rightarrow> ('coins \<Rightarrow> bool) \<Rightarrow> 'coins MsgSend \<Rightarrow> error" where
  "MsgSend_ValidateBasic l IsValid IsAllPositive msg =
     (case AccAddressFromBech32 l (ms_FromAddress msg) of
        Inl err \<Rightarrow> Some ''Invalid sender address''
      | Inr _ \<Rightarrow>
          if \<not> IsValid (ms_Amount msg) then Some ''invalid coins''
          else if \<not> IsAllPositive (ms_Amount msg) then Some ''invalid coins'' else None)"

definition MsgRegisterPointer_ValidateBasic :: "lib \<Rightarrow> MsgRegisterPointer \<Rightarrow> error" where
  "MsgRegisterPointer_ValidateBasic l msg =
     (case AccAddressFromBech32 l (mp_Sender msg) of
        Inl err \<Rightarrow> Some ''Invalid sender address''
      | Inr _ \<Rightarrow> if \<not> IsHexAddress l (mp_ErcAddress msg) then Some ''invalid address'' else None)"

definition MsgAssociateContractAddress_ValidateBasic :: "lib \<Rightarrow> MsgAssociateContractAddress \<Rightarrow> error" where
  "MsgAssociateContractAddress_ValidateBasic l msg =
     (case AccAddressFromBech32 l (mc_Sender msg) of
        Inl err \<Rightarrow> Some ''Invalid sender address''
      | Inr _ \<Rightarrow> (case AccAddressFromBech32 l (mc_Address msg) of Inl err \<Rightarrow> Some ''invalid address'' | Inr _ \<Rightarrow> None))"

section \<open>Transactions of the chain\<close>

datatype sdk_msg = SdkEVM MsgEVMTransaction | SdkAssociate MsgAssociate | SdkOther

type_synonym sdk_Tx = "sdk_msg list"

definition MustGetEVMTransactionMessage :: "sdk_Tx \<Rightarrow> MsgEVMTransaction go" where
  "MustGetEVMTransactionMessage tx =
     (if length tx \<noteq> 1 then Panic ''EVM transaction must have exactly 1 message''
      else case tx ! 0 of SdkEVM msg \<Rightarrow> Done msg | _ \<Rightarrow> Panic ''not EVM message'')"

definition GetEVMTransactionMessage :: "sdk_Tx \<Rightarrow> MsgEVMTransaction option" where
  "GetEVMTransactionMessage tx =
     (if length tx \<noteq> 1 then None
      else case tx ! 0 of SdkEVM msg \<Rightarrow> Some msg | _ \<Rightarrow> None)"

definition IsTxMsgAssociate :: "sdk_Tx \<Rightarrow> bool" where
  "IsTxMsgAssociate tx = (if length tx \<noteq> 1 then False else case tx ! 0 of SdkAssociate _ \<Rightarrow> True | _ \<Rightarrow> False)"

definition IsEVMMessage :: "sdk_Tx \<Rightarrow> string + bool" where
  "IsEVMMessage tx =
     (let hasEVMMsg = fold (\<lambda>msg has. case msg of SdkEVM _ \<Rightarrow> True | _ \<Rightarrow> has) tx False in
      if hasEVMMsg \<and> length tx \<noteq> 1 then Inl ''EVM tx must have exactly one message'' else Inr hasEVMMsg)"

text \<open>\<open>DecorateSdkResult\<close>: the field \<open>EvmError\<close> of the result after it, from the field before.\<close>

definition DecorateSdkResult :: "MsgEVMTransactionResponse option \<Rightarrow> string \<Rightarrow> string" where
  "DecorateSdkResult res evmError =
     (case res of
        None \<Rightarrow> evmError
      | Some r \<Rightarrow> if mr_VmError r \<noteq> [] then mr_VmError r else evmError)"

definition AssociationMissingErr_Error :: "string \<Rightarrow> string" where
  "AssociationMissingErr_Error address = ''address '' @ address @ '' is not linked''"

definition AssociationMissingErr_AddressType :: "string \<Rightarrow> string" where
  "AssociationMissingErr_AddressType address = (if take 2 address = ''0x'' then ''evm'' else ''tabi'')"

fun IsHashInWhiteList_loop :: "lib \<Rightarrow> string list \<Rightarrow> hash \<Rightarrow> bool" where
  "IsHashInWhiteList_loop l [] h = False"
| "IsHashInWhiteList_loop l (s # hashes) h = (if s = hash_Hex l h then True else IsHashInWhiteList_loop l hashes h)"

definition IsHashInWhiteList :: "lib \<Rightarrow> Whitelist \<Rightarrow> hash \<Rightarrow> bool" where
  "IsHashInWhiteList l w h = IsHashInWhiteList_loop l (wl_Hashes w) h"

section \<open>Lemmas\<close>

lemma hasEVMMsg_fold:
  "fold (\<lambda>msg has. case msg of SdkEVM _ \<Rightarrow> True | _ \<Rightarrow> has) tx b = (b \<or> (\<exists>m. SdkEVM m \<in> set tx))"
  by (induction tx arbitrary: b) (auto split: sdk_msg.splits)

text \<open>The router sends a transaction to the EVM handlers exactly when \<open>MustGetEVMTransactionMessage\<close> there succeeds.\<close>

lemma IsEVMMessage_iff: "IsEVMMessage tx = Inr True \<longleftrightarrow> (\<exists>msg. MustGetEVMTransactionMessage tx = Done msg)"
proof (cases "length tx = 1")
  case True
  then obtain m where "tx = [m]" by (auto simp: length_Suc_conv)
  then show ?thesis by (cases m) (auto simp: IsEVMMessage_def MustGetEVMTransactionMessage_def)
qed (auto simp: IsEVMMessage_def MustGetEVMTransactionMessage_def Let_def)

lemma MustGet_Get: "MustGetEVMTransactionMessage tx = Done msg \<longleftrightarrow> GetEVMTransactionMessage tx = Some msg"
  by (auto simp: MustGetEVMTransactionMessage_def GetEVMTransactionMessage_def split: sdk_msg.splits)

lemma IsHashInWhiteList_iff: "IsHashInWhiteList l w h \<longleftrightarrow> hash_Hex l h \<in> set (wl_Hashes w)"
proof -
  have "IsHashInWhiteList_loop l hs h \<longleftrightarrow> hash_Hex l h \<in> set hs" for hs by (induction hs) auto
  then show ?thesis by (simp add: IsHashInWhiteList_def)
qed

end
