(* ===== verification/Keeper_Deferred.thy ===== *)
theory Keeper_Deferred
  imports Evm_Msg
begin

text \<open>
  \<open>x/evm/keeper/deferred.go\<close>, \<open>ante.go\<close> and \<open>tx.go\<close>: what a transaction leaves in the transient store for the end
  of the block - its bloom filter, its hash and the surplus its state database returned - and the removal of old
  transaction hashes. Lines written to the log at the error level are part of the result.
\<close>

section \<open>Operations\<close>

record ExecTxResult =
  xr_Code :: uint32
  xr_Log :: string

text \<open>The fields \<open>msgs\<close> and \<open>txResults\<close> of the keeper: one entry for each transaction of the block, the message nil
  unless the transaction runs on the EVM.\<close>

record keeper_block =
  kb_msgs :: "MsgEVMTransaction option list"
  kb_txResults :: "ExecTxResult list"

definition DeferredInfoKey :: "uint64 \<Rightarrow> bytes" where
  "DeferredInfoKey txIdx = DeferredInfoPrefix @ PutUint64 txIdx"

fun GetAllEVMTxDeferredInfo_loop ::
    "lib \<Rightarrow> eth_funs \<Rightarrow> int_codec \<Rightarrow> 'x ctx \<Rightarrow> ExecTxResult list \<Rightarrow> nat \<Rightarrow> MsgEVMTransaction option list \<Rightarrow> (DeferredInfo list \<times> string list) go" where
  "GetAllEVMTxDeferredInfo_loop l e ic c txResults txIdx [] = Done ([], [])"
| "GetAllEVMTxDeferredInfo_loop l e ic c txResults txIdx (msg # msgs) =
     (if txIdx \<ge> length txResults then Panic ''index out of range''
      else
        let txRes = txResults ! txIdx;
            rest = GetAllEVMTxDeferredInfo_loop l e ic c txResults (txIdx + 1) msgs in
        case kv_get (TransientStore c) (DeferredInfoKey (word_of_nat txIdx)) of
          None \<Rightarrow>
            (case msg of
               None \<Rightarrow> rest
             | Some m \<Rightarrow>
                 go_bind (AsTransaction l e ic m) (\<lambda>etx.
                   case etx of
                     None \<Rightarrow> Panic ''etx is nil for EVM DeferredInfo msg.AsTransaction(). This should never happen.''
                   | Some (tx, _) \<Rightarrow>
                       go_map (\<lambda>(infos, logs).
                         (DeferredInfo_zero\<lparr>di_TxIndex := word_of_nat txIdx, di_TxHash := tx_Hash e tx, di_Error := xr_Log txRes\<rparr> # infos,
                          (if xr_Code txRes = 0 then [''transaction has code 0 but no deferred info''] else []) @ logs)) rest))
        | Some val \<Rightarrow>
            (case DeferredInfo_Unmarshal ic val DeferredInfo_zero of
               Inl err \<Rightarrow> Panic err
             | Inr info \<Rightarrow> go_map (\<lambda>(infos, logs). (info # infos, logs)) rest))"

definition GetAllEVMTxDeferredInfo ::
    "lib \<Rightarrow> eth_funs \<Rightarrow> int_codec \<Rightarrow> 'x ctx \<Rightarrow> keeper_block \<Rightarrow> (DeferredInfo list \<times> string list) go" where
  "GetAllEVMTxDeferredInfo l e ic c kb = GetAllEVMTxDeferredInfo_loop l e ic c (kb_txResults kb) 0 (kb_msgs kb)"

definition AppendToEvmTxDeferredInfo :: "int_codec \<Rightarrow> 'x ctx \<Rightarrow> bytes \<Rightarrow> hash \<Rightarrow> bigint \<Rightarrow> 'x ctx go" where
  "AppendToEvmTxDeferredInfo ic c bloom txHash surplus =
     (case DeferredInfo_Marshal ic (DeferredInfo_zero\<lparr>di_TxIndex := ucast (cx_TxIndex c), di_TxBloom := bloom, di_TxHash := txHash, di_Surplus := surplus\<rparr>) of
        Inl err \<Rightarrow> Panic err
      | Inr bz \<Rightarrow> Done (with_transient (\<lambda>s. kv_set s (DeferredInfoKey (cx_TxIndex c)) bz) c))"

text \<open>A deferred info that does not decode counts as absent.\<close>

definition GetEVMTxDeferredInfo :: "int_codec \<Rightarrow> 'x ctx \<Rightarrow> DeferredInfo option" where
  "GetEVMTxDeferredInfo ic c =
     (case kv_get (TransientStore c) (DeferredInfoKey (cx_TxIndex c)) of
        None \<Rightarrow> None
      | Some bz \<Rightarrow> (case DeferredInfo_Unmarshal ic bz DeferredInfo_zero of Inl err \<Rightarrow> None | Inr val \<Rightarrow> Some val))"

definition AddAnteSurplus :: "int_codec \<Rightarrow> 'x ctx \<Rightarrow> hash \<Rightarrow> bigint \<Rightarrow> error \<times> 'x ctx" where
  "AddAnteSurplus ic c txHash surplus =
     (case Int_Marshal ic surplus of
        Inl err \<Rightarrow> (Some err, c)
      | Inr bz \<Rightarrow> (None, with_transient (\<lambda>s. kv_set s (AnteSurplusPrefix @ txHash) bz) c))"

text \<open>The error of \<open>Unmarshal\<close> is dropped: \<open>junk\<close> is the value that the failed call leaves in its receiver.\<close>

fun GetAnteSurplusSum_loop :: "lib \<Rightarrow> int_codec \<Rightarrow> (bytes \<Rightarrow> bigint) \<Rightarrow> int \<Rightarrow> (bytes \<times> bytes) list \<Rightarrow> int go" where
  "GetAnteSurplusSum_loop l ic junk res [] = Done res"
| "GetAnteSurplusSum_loop l ic junk res ((key, v) # iter) =
     (let surplus = (case Int_Unmarshal ic v None of Inl err \<Rightarrow> junk v | Inr s \<Rightarrow> s) in
      deref surplus (\<lambda>s. go_bind (sdk_Int_Add l res s) (\<lambda>res'. GetAnteSurplusSum_loop l ic junk res' iter)))"

definition GetAnteSurplusSum :: "lib \<Rightarrow> int_codec \<Rightarrow> (bytes \<Rightarrow> bigint) \<Rightarrow> 'x ctx \<Rightarrow> int go" where
  "GetAnteSurplusSum l ic junk c = GetAnteSurplusSum_loop l ic junk 0 (prefix_iterator (TransientStore c) AnteSurplusPrefix)"

definition DefaultTxHashesToRemove :: nat where "DefaultTxHashesToRemove = 100"

definition RemoveFirstNTxHashes :: "'x ctx \<Rightarrow> nat \<Rightarrow> 'x ctx" where
  "RemoveFirstNTxHashes c n =
     (let keysToDelete = map fst (take n (prefix_iterator (KVStore c) TxHashesPrefix)) in
      with_kv (\<lambda>s. fold (\<lambda>key s. kv_delete s (TxHashesPrefix @ key)) keysToDelete s) c)"

section \<open>Deferred infos\<close>

lemma RemoveFirst_access [simp]:
  "TransientStore (RemoveFirstNTxHashes c n) = TransientStore c" "ctx_ext (RemoveFirstNTxHashes c n) = ctx_ext c"
  by (simp_all add: RemoveFirstNTxHashes_def Let_def)

lemma DeferredInfoKey_inj: "DeferredInfoKey i = DeferredInfoKey j \<longleftrightarrow> i = j"
  by (simp add: DeferredInfoKey_def PutUint64_inj)

lemma size_info:
  assumes "int_codec_laws ic" and "big_BitLen v \<le> 256" and "length b \<le> 2 ^ 20" and "length h \<le> 2 ^ 20"
  shows "DeferredInfo_Size ic (DeferredInfo_zero\<lparr>di_TxIndex := i, di_TxBloom := b, di_TxHash := h, di_Surplus := Some v\<rparr>) < 2 ^ 63"
proof -
  from assms(1,2) obtain bz where bz: "Int_Marshal ic (Some v) = Inr bz" "length bz < 2 ^ 10" by (auto simp: int_codec_laws_def)
  have "size_varint (ucast i) \<le> 11" "size_bytes (length h) \<le> 2 ^ 20 + 11" "size_bytes (length b) \<le> 2 ^ 20 + 11" "size_elem (length bz) \<le> 2 ^ 10 + 11"
    using size_bounds(1) [of "ucast i"] size_bounds(2) [of "length h"] size_bounds(2) [of "length b"] size_bounds(3) [of "length bz"] assms(3,4) bz(2)
    by linarith+
  then show ?thesis using bz(1) by (simp add: DeferredInfo_Size_def DeferredInfo_zero_def Int_Size_def) (simp add: size_bytes_def)
qed

text \<open>What \<open>AppendToEvmTxDeferredInfo\<close> writes reads back under the index of the transaction, and no other entry changes.\<close>

lemma Append_stores:
  assumes ic: "int_codec_laws ic" and s: "big_BitLen s \<le> 256" and "length b \<le> 2 ^ 20" and "length h \<le> 2 ^ 20"
  obtains bz where
    "AppendToEvmTxDeferredInfo ic c b h (Some s) = Done (with_transient (\<lambda>st. kv_set st (DeferredInfoKey (cx_TxIndex c)) bz) c)"
    "DeferredInfo_Unmarshal ic bz DeferredInfo_zero =
       Inr (DeferredInfo_zero\<lparr>di_TxIndex := ucast (cx_TxIndex c), di_TxBloom := b, di_TxHash := h, di_Surplus := Some s\<rparr>)"
  using DeferredInfo_Unmarshal_Marshal [OF ic _ s size_info [OF ic s assms(3,4), of "ucast (cx_TxIndex c)"]] that
  by (auto simp: AppendToEvmTxDeferredInfo_def)

lemma GetEVMTxDeferredInfo_Append:
  assumes "int_codec_laws ic" and "big_BitLen s \<le> 256" and "length b \<le> 2 ^ 20" and "length h \<le> 2 ^ 20"
    and "AppendToEvmTxDeferredInfo ic c b h (Some s) = Done c'"
  shows "GetEVMTxDeferredInfo ic c' = Some (DeferredInfo_zero\<lparr>di_TxIndex := ucast (cx_TxIndex c), di_TxBloom := b, di_TxHash := h, di_Surplus := Some s\<rparr>)"
  by (rule Append_stores [OF assms(1-4), of c]) (use assms(5) in \<open>auto simp: GetEVMTxDeferredInfo_def kv_get_kv_set\<close>)

lemma ucast_of_nat_32: "(ucast (word_of_nat n :: uint64) :: uint32) = word_of_nat n"
  by (rule bit_word_eqI) (simp add: bit_simps bit_of_nat_iff)

text \<open>The info that the end of the block sees for the message at an index: the one stored under the index, or else the error
  of the transaction.\<close>

definition info_of :: "lib \<Rightarrow> eth_funs \<Rightarrow> int_codec \<Rightarrow> store \<Rightarrow> ExecTxResult \<Rightarrow> uint64 \<Rightarrow> MsgEVMTransaction \<Rightarrow> DeferredInfo \<Rightarrow> bool" where
  "info_of l e ic st res i m info \<longleftrightarrow>
     (case kv_get st (DeferredInfoKey i) of
        Some bz \<Rightarrow> DeferredInfo_Unmarshal ic bz DeferredInfo_zero = Inr info
      | None \<Rightarrow> \<exists>tx td. AsTransaction l e ic m = Done (Some (tx, td)) \<and> xr_Code res \<noteq> 0 \<and>
          info = DeferredInfo_zero\<lparr>di_TxIndex := ucast i, di_TxHash := tx_Hash e tx, di_Error := xr_Log res\<rparr>)"

lemma GetAll_loop_entries:
  assumes "\<And>i. i < length msgs \<Longrightarrow>
      (case msgs ! i of
         None \<Rightarrow> kv_get (TransientStore c) (DeferredInfoKey (word_of_nat (n + i))) = None
       | Some m \<Rightarrow> info_of l e ic (TransientStore c) (results ! (n + i)) (word_of_nat (n + i)) m (info (n + i)))"
    and "n + length msgs \<le> length results"
  shows "GetAllEVMTxDeferredInfo_loop l e ic c results n msgs =
    Done (map info (filter (\<lambda>i. msgs ! (i - n) \<noteq> None) [n..<n + length msgs]), [])"
  using assms
proof (induction msgs arbitrary: n)
  case (Cons m msgs)
  have IH: "GetAllEVMTxDeferredInfo_loop l e ic c results (Suc n) msgs =
      Done (map info (filter (\<lambda>i. msgs ! (i - Suc n) \<noteq> None) [Suc n..<Suc n + length msgs]), [])"
  proof (rule Cons.IH)
    fix i assume "i < length msgs"
    then show "case msgs ! i of
         None \<Rightarrow> kv_get (TransientStore c) (DeferredInfoKey (word_of_nat (Suc n + i))) = None
       | Some m \<Rightarrow> info_of l e ic (TransientStore c) (results ! (Suc n + i)) (word_of_nat (Suc n + i)) m (info (Suc n + i))"
      using Cons.prems(1) [of "Suc i"] by (simp only: add_Suc_right add_Suc length_Cons Suc_less_eq nth_Cons_Suc)
  qed (use Cons.prems(2) in simp)
  have "filter (\<lambda>i. (m # msgs) ! (i - n) \<noteq> None) [n..<n + length (m # msgs)] =
      (if m \<noteq> None then [n] else []) @ filter (\<lambda>i. msgs ! (i - Suc n) \<noteq> None) [Suc n..<Suc n + length msgs]"
  proof -
    have a: "[n..<n + length (m # msgs)] = n # [Suc n..<Suc n + length msgs]"
      by (subst upt_conv_Cons) simp_all
    have b: "filter (\<lambda>i. (m # msgs) ! (i - n) \<noteq> None) [Suc n..<Suc n + length msgs] = filter (\<lambda>i. msgs ! (i - Suc n) \<noteq> None) [Suc n..<Suc n + length msgs]"
      by (rule filter_cong) (auto simp: nth_Cons' Suc_diff_Suc)
    show ?thesis unfolding a filter.simps b by (simp del: upt_Suc)
  qed
  moreover have "GetAllEVMTxDeferredInfo_loop l e ic c results n (m # msgs) =
      Done ((if m \<noteq> None then [info n] else []) @ map info (filter (\<lambda>i. msgs ! (i - Suc n) \<noteq> None) [Suc n..<Suc n + length msgs]), [])"
    using Cons.prems(1) [of 0] Cons.prems(2) IH
    by (cases m; cases "kv_get (TransientStore c) (DeferredInfoKey (word_of_nat n))")
      (auto simp: Let_def go_map_def info_of_def ucast_of_nat_32 simp del: upt_Suc)
  ultimately show ?case by (cases m) (simp_all del: upt_Suc GetAllEVMTxDeferredInfo_loop.simps)
qed simp

section \<open>The surplus of the ante handlers\<close>

lemma GetAnteSurplusSum_Done:
  assumes "sdk_int_laws l"
  shows "GetAnteSurplusSum_loop l ic junk res iter = Done r \<Longrightarrow>
    \<exists>ss. r = res + sum_list ss \<and> map Some ss = map (\<lambda>(key, v). case Int_Unmarshal ic v None of Inl err \<Rightarrow> junk v | Inr s \<Rightarrow> s) iter"
proof (induction iter arbitrary: res)
  case (Cons kv iter)
  obtain key v where kv: "kv = (key, v)" by fastforce
  let ?s = "case Int_Unmarshal ic v None of Inl err \<Rightarrow> junk v | Inr s \<Rightarrow> s"
  obtain s res' where s: "?s = Some s" "sdk_Int_Add l res s = Done res'" "GetAnteSurplusSum_loop l ic junk res' iter = Done r"
    using Cons.prems unfolding kv by (auto simp: Let_def go_Done_iffs)
  then have "res' = res + s" using NewInt_Done [OF assms] by (simp add: sdk_Int_Add_def)
  moreover obtain ss where "r = res' + sum_list ss" "map Some ss = map (\<lambda>(key, v). case Int_Unmarshal ic v None of Inl err \<Rightarrow> junk v | Inr s \<Rightarrow> s) iter"
    using Cons.IH [OF s(3)] by blast
  ultimately show ?case using s(1) kv by (intro exI [of _ "s # ss"]) auto
qed auto

lemma GetAnteSurplusSum_cong: "TransientStore c' = TransientStore c \<Longrightarrow> GetAnteSurplusSum l ic junk c' = GetAnteSurplusSum l ic junk c"
  by (simp add: GetAnteSurplusSum_def)

end
