(* ===== verification/Evm_Params.thy ===== *)
theory Evm_Params
  imports Keeper_Account Evm_Config
begin

text \<open>
  \<open>x/evm/types/params.go\<close>, \<open>x/evm/types/genesis.go\<close> and \<open>x/evm/keeper/params.go\<close>: the parameters of the
  module, their validation and the accessors of the keeper. An \<open>sdk.Dec\<close> is an integer scaled by \<open>10 ^ 18\<close>
  behind a pointer, so it is an \<open>int option\<close>; its operations that round or may overflow are those of the
  Cosmos SDK, a record of parameters with the rounding of the SDK as their contract. The parameters live in the
  store of the params module, which is part of the state of the other modules.
\<close>

section \<open>sdk.Dec\<close>

record dec_funs =
  Dec_Add :: "int \<Rightarrow> int \<Rightarrow> int go"
  Dec_Sub :: "int \<Rightarrow> int \<Rightarrow> int go"
  Dec_Mul :: "int \<Rightarrow> int \<Rightarrow> int go"
  Dec_Quo :: "int \<Rightarrow> int \<Rightarrow> int go"
  Dec_TruncateInt :: "int \<Rightarrow> int"
  Dec_MulInt64 :: "int \<Rightarrow> int64 \<Rightarrow> int go"
  Dec_MarshalJSON :: "bigint \<Rightarrow> string + bytes"
  Dec_UnmarshalJSON :: "bytes \<Rightarrow> string + bigint"

definition dec_one :: int where "dec_one = 1000000000000000000"

definition NewDec :: "int64 \<Rightarrow> int" where "NewDec i = sint i * dec_one"

text \<open>Division by \<open>10 ^ 18\<close>, rounded to the nearest integer and to the even one when both are as near.\<close>

definition dec_round :: "int \<Rightarrow> int" where
  "dec_round n =
     (let q = \<bar>n\<bar> div dec_one; r = \<bar>n\<bar> mod dec_one;
          m = (if 2 * r < dec_one then q else if 2 * r > dec_one then q + 1 else if even q then q else q + 1) in
      sgn n * m)"

definition dec_laws :: "dec_funs \<Rightarrow> bool" where
  "dec_laws d \<longleftrightarrow>
     (\<forall>x y. \<bar>x + y\<bar> < 2 ^ 315 \<longrightarrow> Dec_Add d x y = Done (x + y)) \<and>
     (\<forall>x y. \<bar>x - y\<bar> < 2 ^ 315 \<longrightarrow> Dec_Sub d x y = Done (x - y)) \<and>
     (\<forall>x y. \<bar>dec_round (x * y)\<bar> < 2 ^ 315 \<longrightarrow> Dec_Mul d x y = Done (dec_round (x * y))) \<and>
     (\<forall>x y. y \<noteq> 0 \<and> \<bar>dec_round (big_Quo (x * dec_one * dec_one) y)\<bar> < 2 ^ 315 \<longrightarrow>
        Dec_Quo d x y = Done (dec_round (big_Quo (x * dec_one * dec_one) y))) \<and>
     (\<forall>x. \<exists>e. Dec_Quo d x 0 = Panic e) \<and>
     (\<forall>x. Dec_TruncateInt d x = big_Quo x dec_one) \<and>
     (\<forall>x i. \<bar>x * sint i\<bar> < 2 ^ 315 \<longrightarrow> Dec_MulInt64 d x i = Done (x * sint i)) \<and>
     (\<forall>x. \<bar>x\<bar> < 2 ^ 315 \<longrightarrow> (\<exists>bz. Dec_MarshalJSON d (Some x) = Inr bz \<and> Dec_UnmarshalJSON d bz = Inr (Some x)))"

section \<open>The parameters\<close>

record Params =
  PriorityNormalizer :: bigint
  BaseFeePerGas :: bigint
  MinimumFeePerGas :: bigint
  WhitelistedCwCodeHashesForDelegateCall :: "bytes list"
  DeliverTxHookWasmGasLimit :: uint64
  MaxDynamicBaseFeeUpwardAdjustment :: bigint
  MaxDynamicBaseFeeDownwardAdjustment :: bigint
  TargetGasUsedPerBlock :: uint64
  MaximumFeePerGas :: bigint
  RegisterPointerDisabled :: bool

definition DefaultPriorityNormalizer :: bigint where "DefaultPriorityNormalizer = Some (NewDec 1)"
definition DefaultBaseFeePerGas :: bigint where "DefaultBaseFeePerGas = Some (NewDec 0)"
definition DefaultMinFeePerGas :: bigint where "DefaultMinFeePerGas = Some (NewDec 1000000000)"
definition DefaultDeliverTxHookWasmGasLimit :: uint64 where "DefaultDeliverTxHookWasmGasLimit = 300000"
definition DefaultMaxDynamicBaseFeeUpwardAdjustment :: bigint where
  "DefaultMaxDynamicBaseFeeUpwardAdjustment = Some 18900000000000000"
definition DefaultMaxDynamicBaseFeeDownwardAdjustment :: bigint where
  "DefaultMaxDynamicBaseFeeDownwardAdjustment = Some 3900000000000000"
definition DefaultTargetGasUsedPerBlock :: uint64 where "DefaultTargetGasUsedPerBlock = 250000"
definition DefaultMaxFeePerGas :: bigint where "DefaultMaxFeePerGas = Some (NewDec 1000000000000)"
definition DefaultRegisterPointerDisabled :: bool where "DefaultRegisterPointerDisabled = False"

definition generateDefaultWhitelistedCwCodeHashesForDelegateCall :: "bytes list" where
  "generateDefaultWhitelistedCwCodeHashesForDelegateCall = []"

definition DefaultParams :: Params where
  "DefaultParams = \<lparr>
     PriorityNormalizer = DefaultPriorityNormalizer,
     BaseFeePerGas = DefaultBaseFeePerGas,
     MinimumFeePerGas = DefaultMinFeePerGas,
     WhitelistedCwCodeHashesForDelegateCall = generateDefaultWhitelistedCwCodeHashesForDelegateCall,
     DeliverTxHookWasmGasLimit = DefaultDeliverTxHookWasmGasLimit,
     MaxDynamicBaseFeeUpwardAdjustment = DefaultMaxDynamicBaseFeeUpwardAdjustment,
     MaxDynamicBaseFeeDownwardAdjustment = DefaultMaxDynamicBaseFeeDownwardAdjustment,
     TargetGasUsedPerBlock = DefaultTargetGasUsedPerBlock,
     MaximumFeePerGas = DefaultMaxFeePerGas,
     RegisterPointerDisabled = DefaultRegisterPointerDisabled\<rparr>"

text \<open>The validators take an empty interface: the value of a parameter with its dynamic type.\<close>

datatype param_value = PDec bigint | PUint64 uint64 | PHashes "bytes list" | PBool bool | POther

definition ErrParamType :: error where "ErrParamType = Some ''invalid parameter type''"

fun validateBaseFeeAdjustment :: "param_value \<Rightarrow> error go" where
  "validateBaseFeeAdjustment (PDec v) = deref v (\<lambda>adjustment.
     Done (if adjustment < 0 then Some ''negative base fee adjustment''
           else if adjustment > dec_one then Some ''base fee adjustment must be less than or equal to 1'' else None))"
| "validateBaseFeeAdjustment _ = Done ErrParamType"

fun validatePriorityNormalizer :: "param_value \<Rightarrow> error go" where
  "validatePriorityNormalizer (PDec v) = deref v (\<lambda>v. Done (if \<not> v > 0 then Some ''nonpositive priority normalizer'' else None))"
| "validatePriorityNormalizer _ = Done ErrParamType"

fun validateBaseFeePerGas :: "param_value \<Rightarrow> error go" where
  "validateBaseFeePerGas (PDec v) = deref v (\<lambda>v. Done (if v < 0 then Some ''negative base fee per gas'' else None))"
| "validateBaseFeePerGas _ = Done ErrParamType"

fun validateMinFeePerGas :: "param_value \<Rightarrow> error go" where
  "validateMinFeePerGas (PDec v) = deref v (\<lambda>v. Done (if v < 0 then Some ''negative min fee per gas'' else None))"
| "validateMinFeePerGas _ = Done ErrParamType"

fun validateMaxFeePerGas :: "param_value \<Rightarrow> error go" where
  "validateMaxFeePerGas (PDec v) = deref v (\<lambda>v. Done (if v < 0 then Some ''negative max fee per gas'' else None))"
| "validateMaxFeePerGas _ = Done ErrParamType"

fun validateDeliverTxHookWasmGasLimit :: "param_value \<Rightarrow> error go" where
  "validateDeliverTxHookWasmGasLimit (PUint64 v) =
     Done (if v = 0 then Some ''invalid deliver_tx_hook_wasm_gas_limit: must be greater than 0'' else None)"
| "validateDeliverTxHookWasmGasLimit _ = Done ErrParamType"

fun validateWhitelistedCwHashesForDelegateCall :: "param_value \<Rightarrow> error go" where
  "validateWhitelistedCwHashesForDelegateCall (PHashes v) = Done None"
| "validateWhitelistedCwHashesForDelegateCall _ = Done ErrParamType"

fun validateRegisterPointerDisabled :: "param_value \<Rightarrow> error go" where
  "validateRegisterPointerDisabled (PBool v) = Done None"
| "validateRegisterPointerDisabled _ = Done ErrParamType"

text \<open>A check followed by an early return.\<close>

definition check_then :: "error go \<Rightarrow> error go \<Rightarrow> error go" where
  "check_then check rest = go_bind check (\<lambda>e. if e \<noteq> None then Done e else rest)"

definition Params_Validate :: "Params \<Rightarrow> error go" where
  "Params_Validate p =
     check_then (validatePriorityNormalizer (PDec (PriorityNormalizer p)))
     (check_then (validateBaseFeePerGas (PDec (BaseFeePerGas p)))
     (check_then (validateMinFeePerGas (PDec (MinimumFeePerGas p)))
     (check_then (validateMaxFeePerGas (PDec (MaximumFeePerGas p)))
     (check_then (validateDeliverTxHookWasmGasLimit (PUint64 (DeliverTxHookWasmGasLimit p)))
     (deref (MinimumFeePerGas p) (\<lambda>mn. deref (BaseFeePerGas p) (\<lambda>bs.
        if mn < bs then Done (Some ''minimum fee cannot be lower than base fee'')
        else
     check_then (go_map (map_option (\<lambda>e. ''invalid max dynamic base fee upward adjustment: '' @ e))
        (validateBaseFeeAdjustment (PDec (MaxDynamicBaseFeeUpwardAdjustment p))))
     (check_then (go_map (map_option (\<lambda>e. ''invalid max dynamic base fee downward adjustment: '' @ e))
        (validateBaseFeeAdjustment (PDec (MaxDynamicBaseFeeDownwardAdjustment p))))
     (validateWhitelistedCwHashesForDelegateCall (PHashes (WhitelistedCwCodeHashesForDelegateCall p)))))))))))"

text \<open>The pairs of \<open>ParamSetPairs\<close>, as the validator that a write of the parameter runs; \<open>None\<close> for a key that
  is not registered.\<close>

definition ParamSetPairs :: "string \<Rightarrow> (param_value \<Rightarrow> error go) option" where
  "ParamSetPairs = map_of [
     (''KeyPriorityNormalizer'', validatePriorityNormalizer),
     (''KeyBaseFeePerGas'', validateBaseFeePerGas),
     (''KeyMaxDynamicBaseFeeUpwardAdjustment'', validateBaseFeeAdjustment),
     (''KeyMaxDynamicBaseFeeDownwardAdjustment'', validateBaseFeeAdjustment),
     (''KeyMinFeePerGas'', validateMinFeePerGas),
     (''KeyWhitelistedCwCodeHashesForDelegateCall'', validateWhitelistedCwHashesForDelegateCall),
     (''KeyDeliverTxHookWasmGasLimit'', validateDeliverTxHookWasmGasLimit),
     (''KeyTargetGasUsedPerBlock'', \<lambda>_. Done None),
     (''KeyMaximumFeePerGas'', validateMaxFeePerGas),
     (''KeyRegisterPointerDisabled'', validateRegisterPointerDisabled)]"

section \<open>Genesis\<close>

record AddressAssociation =
  as_TabiAddress :: string
  as_EthAddress :: string

text \<open>The fields of the genesis state that \<open>DefaultGenesis\<close> and \<open>Validate\<close> use.\<close>

record GenesisState =
  gs_Params :: Params
  gs_AddressAssociations :: "AddressAssociation list"

definition DefaultGenesis :: GenesisState where
  "DefaultGenesis = \<lparr>gs_Params = DefaultParams, gs_AddressAssociations = []\<rparr>"

definition GenesisState_Validate :: "GenesisState \<Rightarrow> error go" where
  "GenesisState_Validate gs = Params_Validate (gs_Params gs)"

text \<open>The states of the channel as a list.\<close>

fun ValidateStream_loop :: "GenesisState list \<Rightarrow> bool \<Rightarrow> error \<Rightarrow> (bool \<times> error) go" where
  "ValidateStream_loop [] passedParamCheck paramCheckErr = Done (passedParamCheck, paramCheckErr)"
| "ValidateStream_loop (gs # ch) passedParamCheck paramCheckErr =
     go_bind (GenesisState_Validate gs) (\<lambda>err.
       if err \<noteq> None then ValidateStream_loop ch passedParamCheck err
       else ValidateStream_loop ch True paramCheckErr)"

definition ValidateStream :: "GenesisState list \<Rightarrow> error go" where
  "ValidateStream ch =
     go_bind (ValidateStream_loop ch False None) (\<lambda>(passedParamCheck, paramCheckErr).
       if \<not> passedParamCheck then Done paramCheckErr else Done None)"

section \<open>The accessors of the keeper\<close>

record 'x param_store =
  GetParamSetIfExists :: "'x \<Rightarrow> Params"
  SetParamSet :: "'x \<Rightarrow> Params \<Rightarrow> 'x go"

definition SetParams :: "'x param_store \<Rightarrow> 'x ctx \<Rightarrow> Params \<Rightarrow> 'x ctx go" where
  "SetParams ps c params = go_map (\<lambda>x. with_ext x c) (SetParamSet ps (ctx_ext c) params)"

definition GetParamsIfExists :: "'x param_store \<Rightarrow> 'x ctx \<Rightarrow> Params" where
  "GetParamsIfExists ps c = GetParamSetIfExists ps (ctx_ext c)"

definition GetParams :: "'x param_store \<Rightarrow> 'x ctx \<Rightarrow> Params" where
  "GetParams ps c = GetParamsIfExists ps c"

definition GetBaseDenom :: string where "GetBaseDenom = ''atabi''"

definition GetPriorityNormalizer :: "'x param_store \<Rightarrow> 'x ctx \<Rightarrow> bigint" where
  "GetPriorityNormalizer ps c = PriorityNormalizer (GetParams ps c)"

definition GetBaseFeePerGas :: "'x param_store \<Rightarrow> 'x ctx \<Rightarrow> bigint" where
  "GetBaseFeePerGas ps c = BaseFeePerGas (GetParams ps c)"

definition GetMaxDynamicBaseFeeUpwardAdjustment :: "'x param_store \<Rightarrow> 'x ctx \<Rightarrow> bigint" where
  "GetMaxDynamicBaseFeeUpwardAdjustment ps c = MaxDynamicBaseFeeUpwardAdjustment (GetParams ps c)"

definition GetMaxDynamicBaseFeeDownwardAdjustment :: "'x param_store \<Rightarrow> 'x ctx \<Rightarrow> bigint" where
  "GetMaxDynamicBaseFeeDownwardAdjustment ps c = MaxDynamicBaseFeeDownwardAdjustment (GetParams ps c)"

definition GetMinimumFeePerGas :: "'x param_store \<Rightarrow> 'x ctx \<Rightarrow> bigint" where
  "GetMinimumFeePerGas ps c = MinimumFeePerGas (GetParams ps c)"

definition GetMaximumFeePerGas :: "'x param_store \<Rightarrow> 'x ctx \<Rightarrow> bigint" where
  "GetMaximumFeePerGas ps c = MaximumFeePerGas (GetParams ps c)"

definition GetTargetGasUsedPerBlock :: "'x param_store \<Rightarrow> 'x ctx \<Rightarrow> uint64" where
  "GetTargetGasUsedPerBlock ps c = TargetGasUsedPerBlock (GetParams ps c)"

definition GetDeliverTxHookWasmGasLimit :: "'x param_store \<Rightarrow> 'x ctx \<Rightarrow> uint64" where
  "GetDeliverTxHookWasmGasLimit ps c = DeliverTxHookWasmGasLimit (GetParams ps c)"

definition BigMaxU64 :: int where "BigMaxU64 = 18446744073709551615"

definition GetCosmosGasLimitFromEVMGas :: "dec_funs \<Rightarrow> 'x param_store \<Rightarrow> 'x ctx \<Rightarrow> uint64 \<Rightarrow> uint64 go" where
  "GetCosmosGasLimitFromEVMGas d ps c evmGas =
     deref (GetPriorityNormalizer ps c) (\<lambda>gasMultipler.
     go_bind (Dec_Mul d (uint evmGas * dec_one) gasMultipler) (\<lambda>g.
       let gasLimitBigInt = Dec_TruncateInt d g in
       Done (word_of_int (if gasLimitBigInt > BigMaxU64 then BigMaxU64 else gasLimitBigInt))))"

section \<open>A concrete decimal\<close>

definition dec_check :: "int \<Rightarrow> int go" where
  "dec_check x = (if \<bar>x\<bar> < 2 ^ 315 then Done x else Panic ''Int overflow'')"

definition dec_exact :: dec_funs where
  "dec_exact = \<lparr>
     Dec_Add = (\<lambda>x y. dec_check (x + y)), Dec_Sub = (\<lambda>x y. dec_check (x - y)),
     Dec_Mul = (\<lambda>x y. dec_check (dec_round (x * y))),
     Dec_Quo = (\<lambda>x y. if y = 0 then Panic ''division by zero'' else dec_check (dec_round (big_Quo (x * dec_one * dec_one) y))),
     Dec_TruncateInt = (\<lambda>x. big_Quo x dec_one),
     Dec_MulInt64 = (\<lambda>x i. dec_check (x * sint i)),
     Dec_MarshalJSON = (\<lambda>v. case v of None \<Rightarrow> Inr [] | Some x \<Rightarrow> Inr ((if x < 0 then 1 else 0) # big_Bytes x)),
     Dec_UnmarshalJSON = (\<lambda>b. case b of [] \<Rightarrow> Inr None | s # bs \<Rightarrow> Inr (Some (if s = 1 then - big_SetBytes bs else big_SetBytes bs)))\<rparr>"

lemma dec_exact_laws [simp]: "dec_laws dec_exact"
  by (simp add: dec_laws_def dec_exact_def dec_check_def big_SetBytes_Bytes)

end
