(* ===== verification/Evm_Server.thy ===== *)
theory Evm_Server
  imports Keeper_Deferred Evm_Params
begin

text \<open>
  The execution of messages: \<open>x/evm/keeper/msg_server.go\<close>, \<open>evm.go\<close>, \<open>precompile.go\<close> and the block context and the
  custom precompiles of \<open>keeper.go\<close>. The EVM itself is go-ethereum: a function of the block context, the chain
  configuration, the precompiles and the message that works on the state database (\<open>TransitionDb\<close>). The gas meter of the
  context is not part of the model: the gas that a handler consumes on it is part of its result. The facts about the
  block and the transaction that \<open>sdk.Context\<close> holds besides the stores are in \<open>tx_env\<close>. The replay of Ethereum blocks and
  the block tests are off.
\<close>

section \<open>The block context\<close>

record tx_env =
  te_IsEVM :: bool
  te_EVMEntryViaWasmdPrecompile :: bool
  te_TxSum :: hash
  te_HeaderTime_Unix :: int64
  te_HeaderTime_MarshalBinary :: "string + bytes"
  te_HeaderHash :: bytes
  te_MaxGas :: "int64 option"
  te_HistoricalInfo :: "int64 \<Rightarrow> bytes option"
  te_GasLimit :: uint64
  te_GasConsumedToLimit :: uint64

record 'x BlockContext =
  bc_Transfer :: "address \<Rightarrow> address \<Rightarrow> int \<Rightarrow> 'x DBImpl \<Rightarrow> 'x DBImpl go"
  bc_GetHash :: "uint64 \<Rightarrow> hash"
  bc_Coinbase :: address
  bc_GasLimit :: uint64
  bc_BlockNumber :: int
  bc_Time :: uint64
  bc_Difficulty :: int
  bc_BaseFee :: int
  bc_BlobBaseFee :: int
  bc_Random :: hash

record ExecutionResult =
  er_UsedGas :: uint64
  er_Err :: error
  er_ReturnData :: bytes

type_synonym 'p precompile_map = "(address \<times> 'p option) list"

record ('x, 'p) evm_funs =
  core_Transfer :: "address \<Rightarrow> address \<Rightarrow> int \<Rightarrow> 'x DBImpl \<Rightarrow> 'x DBImpl go"
  TransitionDb :: "'x BlockContext \<Rightarrow> params_ChainConfig \<Rightarrow> 'p precompile_map \<Rightarrow> core_Message \<Rightarrow> 'x DBImpl \<Rightarrow> ((string + ExecutionResult) \<times> 'x DBImpl) go"

definition payablePrecompiles :: "string list" where
  "payablePrecompiles =
     [''0x0000000000000000000000000000000000001001'', ''0x0000000000000000000000000000000000001005'',
      ''0x0000000000000000000000000000000000001006'', ''0x0000000000000000000000000000000000001002'']"

definition IsPayablePrecompile :: "lib \<Rightarrow> address option \<Rightarrow> bool" where
  "IsPayablePrecompile l addr = (case addr of None \<Rightarrow> False | Some a \<Rightarrow> addr_Hex l a \<in> set payablePrecompiles)"

definition WasmdAddress :: string where
  "WasmdAddress = ''0x0000000000000000000000000000000000001002''"

definition IsWasmdCall :: "lib \<Rightarrow> address option \<Rightarrow> bool" where
  "IsWasmdCall l to = (case to of None \<Rightarrow> False | Some a \<Rightarrow> a = HexToAddress l WasmdAddress)"

definition DefaultBlockGasLimit :: uint64 where "DefaultBlockGasLimit = 35000000"

definition getHistoricalHash :: "lib \<Rightarrow> tx_env \<Rightarrow> int64 \<Rightarrow> hash" where
  "getHistoricalHash l env h =
     (case te_HistoricalInfo env h of None \<Rightarrow> replicate 32 0 | Some headerHash \<Rightarrow> BytesToHash l headerHash)"

definition GetHashFn :: "lib \<Rightarrow> tx_env \<Rightarrow> 'x ctx \<Rightarrow> uint64 \<Rightarrow> hash" where
  "GetHashFn l env c height =
     (if uint height > 9223372036854775807 then replicate 32 0
      else if cx_BlockHeight c = height then BytesToHash l (te_HeaderHash env)
      else if sint (cx_BlockHeight c) < sint height then replicate 32 0
      else getHistoricalHash l env height)"

definition GetVMBlockContext ::
    "lib \<Rightarrow> 'x keepers \<Rightarrow> dec_funs \<Rightarrow> 'x param_store \<Rightarrow> ('x, 'p) evm_funs \<Rightarrow> tx_env \<Rightarrow> 'x ctx \<Rightarrow> (string + 'x BlockContext) go" where
  "GetVMBlockContext l k d ps evm env c =
     (case GetFeeCollectorAddress k c of
        Inl err \<Rightarrow> Done (Inl err)
      | Inr coinbase \<Rightarrow>
          (case te_HeaderTime_MarshalBinary env of
             Inl err \<Rightarrow> Done (Inl err)
           | Inr r \<Rightarrow>
               deref (GetBaseFeePerGas ps c) (\<lambda>baseFee.
                 Done (Inr \<lparr>
                   bc_Transfer = (\<lambda>sender recipient amount db.
                     if IsPayablePrecompile l (Some recipient) then TransferWithoutEvents l (k :: 'x keepers) sender recipient amount db
                     else core_Transfer evm sender recipient amount db),
                   bc_GetHash = GetHashFn l env c,
                   bc_Coinbase = coinbase,
                   bc_GasLimit = (case te_MaxGas env of Some mg \<Rightarrow> if sint mg > 0 then mg else DefaultBlockGasLimit | None \<Rightarrow> DefaultBlockGasLimit),
                   bc_BlockNumber = sint (cx_BlockHeight c),
                   bc_Time = te_HeaderTime_Unix env,
                   bc_Difficulty = 0,
                   bc_BaseFee = Dec_TruncateInt d baseFee,
                   bc_BlobBaseFee = 1,
                   bc_Random = Keccak256 l r\<rparr>))))"

section \<open>Custom precompiles\<close>

text \<open>The versions of each precompile by the name of the upgrade that brought them. A version that an upgrade does not
  have is a nil contract.\<close>

record 'p precompile_registry =
  pr_customPrecompiles :: "(address \<times> (string \<times> 'p) list) list"
  pr_latestUpgrade :: string
  pr_latestCustomPrecompiles :: "'p precompile_map"

definition SetCustomPrecompiles :: "(address \<times> (string \<times> 'p) list) list \<Rightarrow> string \<Rightarrow> 'p precompile_registry" where
  "SetCustomPrecompiles cp latestUpgrade =
     \<lparr>pr_customPrecompiles = cp, pr_latestUpgrade = latestUpgrade,
      pr_latestCustomPrecompiles = map (\<lambda>(addr, versioned). (addr, map_of versioned latestUpgrade)) cp\<rparr>"

text \<open>The inner loop, over the versions of one precompile in the order the range takes them; \<open>GetDoneHeight\<close> of the upgrade
  keeper is a parameter. The result is the height of the upgrade found, the upgrade, and whether no upgrade has a height.\<close>

fun precompile_version_loop :: "(string \<Rightarrow> int64) \<Rightarrow> int64 \<Rightarrow> string list \<Rightarrow> int64 \<Rightarrow> string option \<Rightarrow> bool \<Rightarrow> string option \<times> bool" where
  "precompile_version_loop GetDoneHeight height [] mostRecentUpgradeHeight version noForkHistory = (version, noForkHistory)"
| "precompile_version_loop GetDoneHeight height (upgrade # upgrades) mostRecentUpgradeHeight version noForkHistory =
     (let upgradeHeight = GetDoneHeight upgrade;
          noForkHistory' = (if upgradeHeight \<noteq> 0 then False else noForkHistory) in
      if sint height < sint upgradeHeight then
        precompile_version_loop GetDoneHeight height upgrades mostRecentUpgradeHeight version noForkHistory'
      else if sint upgradeHeight > sint mostRecentUpgradeHeight then
        precompile_version_loop GetDoneHeight height upgrades upgradeHeight (Some upgrade) noForkHistory'
      else precompile_version_loop GetDoneHeight height upgrades mostRecentUpgradeHeight version noForkHistory')"

definition precompile_version :: "(string list \<Rightarrow> string list) \<Rightarrow> (string \<Rightarrow> int64) \<Rightarrow> int64 \<Rightarrow> string \<Rightarrow> string list \<Rightarrow> string option" where
  "precompile_version rng GetDoneHeight height latestUpgrade upgrades =
     (case precompile_version_loop GetDoneHeight height (rng upgrades) 0 None True of
        (version, noForkHistory) \<Rightarrow> if noForkHistory then Some latestUpgrade else version)"

definition GetCustomPrecompilesVersions ::
    "(string list \<Rightarrow> string list) \<Rightarrow> (string \<Rightarrow> int64) \<Rightarrow> 'p precompile_registry \<Rightarrow> 'x ctx \<Rightarrow> (address \<times> string option) list" where
  "GetCustomPrecompilesVersions rng GetDoneHeight reg c =
     map (\<lambda>(addr, versioned). (addr, precompile_version rng GetDoneHeight (cx_BlockHeight c) (pr_latestUpgrade reg) (map fst versioned)))
       (pr_customPrecompiles reg)"

text \<open>An address without a version reads as the empty string.\<close>

definition CustomPrecompiles ::
    "(string list \<Rightarrow> string list) \<Rightarrow> (string \<Rightarrow> int64) \<Rightarrow> 'p precompile_registry \<Rightarrow> 'x ctx \<Rightarrow> 'p precompile_map" where
  "CustomPrecompiles rng GetDoneHeight reg c =
     (if \<not> cx_IsTracing c then pr_latestCustomPrecompiles reg
      else
        let versions = GetCustomPrecompilesVersions rng GetDoneHeight reg c in
        map (\<lambda>(addr, versioned). (addr, map_of versioned (case map_of versions addr of Some (Some v) \<Rightarrow> v | _ \<Rightarrow> [])))
          (pr_customPrecompiles reg))"

section \<open>EVM transactions\<close>

definition GetGasPool :: uint64 where "GetGasPool = 18446744073709551615"

definition GetBaseFee :: "'x ctx \<Rightarrow> bigint" where "GetBaseFee c = None"

definition GetEVMMessage :: "'x ctx \<Rightarrow> eth_Transaction \<Rightarrow> address \<Rightarrow> core_Message go" where
  "GetEVMMessage c tx sender =
     deref (tx_GasPrice tx) (\<lambda>gasPrice. deref (tx_GasFeeCap tx) (\<lambda>gasFeeCap. deref (tx_GasTipCap tx) (\<lambda>gasTipCap.
       let msg = \<lparr>msg_To = tx_To tx, msg_From = sender, msg_Nonce = tx_Nonce tx, msg_Value = tx_Value tx, msg_GasLimit = tx_Gas tx,
                  msg_GasPrice = Some gasPrice, msg_GasFeeCap = Some gasFeeCap, msg_GasTipCap = Some gasTipCap, msg_Data = tx_Data tx,
                  msg_AccessList = tx_AccessList tx, msg_BlobGasFeeCap = tx_BlobGasFeeCap tx, msg_BlobHashes = tx_BlobHashes tx,
                  msg_SkipAccountChecks = False\<rparr> in
       Done (case GetBaseFee c of
           None \<Rightarrow> msg
         | Some baseFee \<Rightarrow> msg\<lparr>msg_GasPrice := Some (min (gasTipCap + baseFee) gasFeeCap)\<rparr>))))"

definition applyEVMMessage ::
    "lib \<Rightarrow> 'x keepers \<Rightarrow> dec_funs \<Rightarrow> 'x param_store \<Rightarrow> ('x, 'p) evm_funs \<Rightarrow> 'p precompile_map \<Rightarrow> tx_env \<Rightarrow> 'x ctx \<Rightarrow> core_Message \<Rightarrow> 'x DBImpl \<Rightarrow>
     ((string + ExecutionResult) \<times> 'x DBImpl) go" where
  "applyEVMMessage l k d ps evm pcs env c msg stateDB =
     go_bind (GetVMBlockContext l k d ps evm env c) (\<lambda>blockCtx.
       case blockCtx of
         Inl err \<Rightarrow> Done (Inl err, stateDB)
       | Inr bc \<Rightarrow> TransitionDb evm bc (EthereumConfig DefaultChainConfig (Some (keeper_ChainID c))) pcs msg stateDB)"

text \<open>\<open>sdk.Int.Uint64\<close> panics on a value that does not fit.\<close>

definition Int_Uint64 :: "int \<Rightarrow> uint64 go" where
  "Int_Uint64 i = (if 0 \<le> i \<and> i < 18446744073709551616 then Done (word_of_int i) else Panic ''Uint64() out of bounds'')"

text \<open>The base context after \<open>Finalize\<close>: the context the database was created on, with the flushed stores and events.\<close>

definition base_ctx :: "'x DBImpl \<Rightarrow> 'x ctx" where
  "base_ctx db = hd (db_snapshottedCtxs db)"

definition synthetic_logs :: "lib \<Rightarrow> Receipt \<Rightarrow> eth_Log list" where
  "synthetic_logs l receipt =
     map (\<lambda>lg. \<lparr>elog_Address = HexToAddress l (log_Address lg), elog_Topics = map (HexToHash l) (log_Topics lg), elog_Data = log_Data lg,
               elog_BlockNumber = 0, elog_TxHash = replicate 32 0, elog_TxIndex = 0, elog_Index = 0\<rparr>) (rc_Logs receipt)"

text \<open>What an EVM transaction leaves: the response, the error, the context, the gas charged to the caller's meter and the
  state database, for the properties to refer to.\<close>

record 'x tx_outcome =
  to_res :: MsgEVMTransactionResponse
  to_err :: error
  to_ctx :: "'x ctx"
  to_gas :: uint64
  to_db :: "'x DBImpl option"

text \<open>The part of the deferred function for a call that entered through the wasmd precompile: the logs and the error of a
  receipt that a nested call left, and its surplus.\<close>

definition merge_synthetic ::
    "lib \<Rightarrow> int_codec \<Rightarrow> tx_env \<Rightarrow> MsgEVMTransactionResponse \<Rightarrow> 'x DBImpl \<Rightarrow> 'x ctx \<Rightarrow> (int \<times> MsgEVMTransactionResponse \<times> 'x DBImpl \<times> 'x ctx) go" where
  "merge_synthetic l ic env serverRes stateDB c =
     (let (serverRes1, stateDB1, c1) =
        (case GetTransientReceipt c (te_TxSum env) of
           Inl err \<Rightarrow> (serverRes, stateDB, c)
         | Inr syntheticReceipt \<Rightarrow>
             ((if rc_VmError syntheticReceipt \<noteq> []
               then serverRes\<lparr>mr_VmError := mr_VmError serverRes @ [CHR 0x0A] @ rc_VmError syntheticReceipt @ [CHR 0x0A]\<rparr> else serverRes),
              fold AddLog (synthetic_logs l syntheticReceipt) stateDB,
              DeleteTransientReceipt c (te_TxSum env))) in
      case GetEVMTxDeferredInfo ic c1 of
        None \<Rightarrow> Done (0, serverRes1, stateDB1, c1)
      | Some syntheticDeferredInfo \<Rightarrow>
          deref (di_Surplus syntheticDeferredInfo) (\<lambda>s.
          go_bind (sdk_Int_Add l 0 s) (\<lambda>extraSurplus. Done (extraSurplus, serverRes1, stateDB1, c1))))"

definition EVMTransaction_deferred ::
    "lib \<Rightarrow> eth_funs \<Rightarrow> dec_funs \<Rightarrow> 'x param_store \<Rightarrow> 'x keepers \<Rightarrow> int_codec \<Rightarrow> map_order \<Rightarrow> tx_env \<Rightarrow> 'x ctx \<Rightarrow> eth_Transaction \<Rightarrow> core_Message \<Rightarrow>
     MsgEVMTransactionResponse \<Rightarrow> 'x DBImpl \<Rightarrow> 'x tx_outcome go" where
  "EVMTransaction_deferred l e d ps k ic rng env c tx emsg serverRes stateDB =
     go_bind (Finalize l k rng stateDB) (\<lambda>((surplus, ferr), db1).
       if ferr \<noteq> None then Done \<lparr>to_res = serverRes, to_err = ferr, to_ctx = c, to_gas = 0, to_db = Some db1\<rparr>
       else
         go_bind (if te_EVMEntryViaWasmdPrecompile env then merge_synthetic l ic env serverRes db1 (base_ctx db1)
                  else Done (0, serverRes, db1, base_ctx db1)) (\<lambda>(extraSurplus, serverRes1, db2, c2).
         go_bind (WriteReceipt l e c2 db2 emsg (ucast (tx_Type tx)) (tx_Hash e tx) (mr_GasUsed serverRes1) (mr_VmError serverRes1)) (\<lambda>(receipt, c3).
         deref surplus (\<lambda>s.
         go_bind (sdk_Int_Add l s extraSurplus) (\<lambda>total.
         go_bind (Bloom_SetBytes e (rc_LogsBloom receipt)) (\<lambda>bloom.
         go_bind (AppendToEvmTxDeferredInfo ic c3 bloom (tx_Hash e tx) (Some total)) (\<lambda>c4.
         deref (GetPriorityNormalizer ps c4) (\<lambda>normalizer.
         go_bind (Dec_MulInt64 d normalizer (mr_GasUsed serverRes1)) (\<lambda>adjustedGasUsed.
         go_bind (Int_Uint64 (Dec_TruncateInt d adjustedGasUsed)) (\<lambda>gas.
           Done \<lparr>to_res = serverRes1, to_err = None, to_ctx = c4, to_gas = gas, to_db = Some db1\<rparr>))))))))))"

definition PrepareCtxForEVMTransaction :: "lib \<Rightarrow> tx_env \<Rightarrow> eth_Transaction \<Rightarrow> tx_env" where
  "PrepareCtxForEVMTransaction l env tx =
     (if IsWasmdCall l (tx_To tx) then env\<lparr>te_EVMEntryViaWasmdPrecompile := True\<rparr> else env)"

definition EVMTransaction ::
    "lib \<Rightarrow> eth_funs \<Rightarrow> dec_funs \<Rightarrow> 'x param_store \<Rightarrow> 'x keepers \<Rightarrow> int_codec \<Rightarrow> ('x, 'p) evm_funs \<Rightarrow> 'p precompile_map \<Rightarrow> map_order \<Rightarrow> tx_env \<Rightarrow> 'x ctx \<Rightarrow>
     MsgEVMTransaction \<Rightarrow> 'x tx_outcome go" where
  "EVMTransaction l e d ps k ic evm pcs rng env0 c msg =
     go_bind (IsAssociateTx ic msg) (\<lambda>isAssociate.
       if isAssociate then Done \<lparr>to_res = MsgEVMTransactionResponse_zero, to_err = None, to_ctx = c, to_gas = 0, to_db = None\<rparr>
       else
         go_bind (AsTransaction l e ic msg) (\<lambda>etx.
         deref etx (\<lambda>(tx, _).
         let env = PrepareCtxForEVMTransaction l env0 tx;
             stateDB = NewDBImpl k c False in
         deref (me_Derived msg) (\<lambda>derived.
         go_bind (GetEVMMessage c tx (dv_SenderEVMAddr derived)) (\<lambda>emsg.
         go_bind (applyEVMMessage l k d ps evm pcs env c emsg stateDB) (\<lambda>(res, db1).
           let serverRes = MsgEVMTransactionResponse_zero\<lparr>mr_Hash := hash_Hex l (tx_Hash e tx)\<rparr> in
           case res of
             Inl applyErr \<Rightarrow> Done \<lparr>to_res = serverRes, to_err = Some applyErr, to_ctx = c, to_gas = 0, to_db = Some db1\<rparr>
           | Inr r \<Rightarrow>
               EVMTransaction_deferred l e d ps k ic rng env c tx emsg
                 (serverRes\<lparr>mr_VmError := (case er_Err r of Some vmErr \<Rightarrow> vmErr | None \<Rightarrow> mr_VmError serverRes), mr_GasUsed := er_UsedGas r,
                            mr_ReturnData := er_ReturnData r, mr_Logs := NewLogsFromEth l (GetAllLogs db1)\<rparr>) db1))))))"

section \<open>Calls from the other modules\<close>

definition MaxUint64BigInt :: int where "MaxUint64BigInt = 18446744073709551615"

definition MaxInitCodeSize :: nat where "MaxInitCodeSize = 49152"

text \<open>\<open>Limit\<close> is unsigned, so the test for a limit of at most zero is one for zero.\<close>

definition getEvmGasLimitFromCtx :: "dec_funs \<Rightarrow> 'x param_store \<Rightarrow> tx_env \<Rightarrow> 'x ctx \<Rightarrow> uint64 go" where
  "getEvmGasLimitFromCtx d ps env c =
     (let tabiGasRemaining = te_GasLimit env - te_GasConsumedToLimit env in
      if te_GasLimit env = 0 then Done 18446744073709551615
      else
        deref (GetPriorityNormalizer ps c) (\<lambda>normalizer.
        go_bind (Dec_Quo d (uint tabiGasRemaining * dec_one) normalizer) (\<lambda>q.
          let evmGasBig = Dec_TruncateInt d q in
          Done (word_of_int (if evmGasBig > MaxUint64BigInt then MaxUint64BigInt else evmGasBig)))))"

definition consumeEvmGas :: "dec_funs \<Rightarrow> 'x param_store \<Rightarrow> 'x ctx \<Rightarrow> uint64 \<Rightarrow> uint64 go" where
  "consumeEvmGas d ps c usedEvmGas =
     deref (GetPriorityNormalizer ps c) (\<lambda>normalizer.
     go_bind (Dec_Mul d (uint usedEvmGas * dec_one) normalizer) (\<lambda>g. Int_Uint64 (Dec_TruncateInt d g)))"

text \<open>The result of a call: the returned data or an error, the context and the gas charged.\<close>

definition CallEVM ::
    "lib \<Rightarrow> eth_funs \<Rightarrow> dec_funs \<Rightarrow> 'x param_store \<Rightarrow> 'x keepers \<Rightarrow> int_codec \<Rightarrow> ('x, 'p) evm_funs \<Rightarrow> 'p precompile_map \<Rightarrow> map_order \<Rightarrow> tx_env \<Rightarrow> 'x ctx \<Rightarrow>
     address \<Rightarrow> address option \<Rightarrow> bigint option \<Rightarrow> bytes \<Rightarrow> ((string + bytes) \<times> 'x ctx \<times> uint64) go" where
  "CallEVM l e d ps k ic evm pcs rng env c from to val data =
     (if te_IsEVM env \<and> \<not> te_EVMEntryViaWasmdPrecompile env then Done (Inl ''tabi does not support EVM->CW->EVM call pattern'', c, 0)
      else if to = None \<and> length data > MaxInitCodeSize then Done (Inl ''max initcode size exceeded'', c, 0)
      else
        go_bind (case val of None \<Rightarrow> Done (Inr 0) | Some v \<Rightarrow> deref v (\<lambda>i. Done (if i < 0 then Inl ''invalid coins'' else Inr i))) (\<lambda>valueOrErr.
        case valueOrErr of
          Inl err \<Rightarrow> Done (Inl err, c, 0)
        | Inr i \<Rightarrow>
            let stateDB = NewDBImpl k c False in
            go_bind (db_GetNonce from stateDB) (\<lambda>nonce.
            go_bind (getEvmGasLimitFromCtx d ps env c) (\<lambda>gasLimit.
            let evmMsg = \<lparr>msg_To = to, msg_From = from, msg_Nonce = nonce, msg_Value = Some i, msg_GasLimit = gasLimit, msg_GasPrice = Some 0,
                          msg_GasFeeCap = Some 0, msg_GasTipCap = Some 0, msg_Data = data, msg_AccessList = [], msg_BlobGasFeeCap = None,
                          msg_BlobHashes = [], msg_SkipAccountChecks = False\<rparr> in
            go_bind (applyEVMMessage l k d ps evm pcs env c evmMsg stateDB) (\<lambda>(res, db1).
            case res of
              Inl err \<Rightarrow> Done (Inl err, c, 0)
            | Inr r \<Rightarrow>
                go_bind (consumeEvmGas d ps c (er_UsedGas r)) (\<lambda>gas.
                if er_Err r \<noteq> None then Done (Inl (the (er_Err r)), c, gas)
                else
                  go_bind (Finalize l k rng db1) (\<lambda>((surplus, ferr), db2).
                  if ferr \<noteq> None then Done (Inl (the ferr), c, gas)
                  else
                    let c1 = base_ctx db2;
                        (vmErr, db3) = (case GetTransientReceipt c1 (te_TxSum env) of
                            Inl _ \<Rightarrow> ([], db2)
                          | Inr existing \<Rightarrow>
                              (if rc_VmError existing \<noteq> [] then rc_VmError existing @ [CHR 0x0A] @ [CHR 0x0A] else [],
                               fold AddLog (synthetic_logs l existing) db2)) in
                    deref surplus (\<lambda>s.
                    go_bind (case GetEVMTxDeferredInfo ic c1 of
                        None \<Rightarrow> Done s
                      | Some existing \<Rightarrow> deref (di_Surplus existing) (\<lambda>x. sdk_Int_Add l s x)) (\<lambda>total.
                    go_bind (WriteReceipt l e c1 db3 evmMsg 0 (te_TxSum env) (er_UsedGas r) vmErr) (\<lambda>(receipt, c2).
                    go_bind (Bloom_SetBytes e (rc_LogsBloom receipt)) (\<lambda>bloom.
                    go_bind (AppendToEvmTxDeferredInfo ic c2 bloom (te_TxSum env) (Some total)) (\<lambda>c3.
                      Done (Inr (er_ReturnData r), c3, gas)))))))))))))"

definition HandleInternalEVMCall ::
    "lib \<Rightarrow> eth_funs \<Rightarrow> dec_funs \<Rightarrow> 'x param_store \<Rightarrow> 'x keepers \<Rightarrow> int_codec \<Rightarrow> ('x, 'p) evm_funs \<Rightarrow> 'p precompile_map \<Rightarrow> map_order \<Rightarrow> tx_env \<Rightarrow> 'x ctx \<Rightarrow>
     MsgInternalEVMCall \<Rightarrow> ((string + bytes) \<times> 'x ctx \<times> uint64) go" where
  "HandleInternalEVMCall l e d ps k ic evm pcs rng env c req =
     (let to = (if mi_To req \<noteq> [] then Some (HexToAddress l (mi_To req)) else None) in
      case AccAddressFromBech32 l (mi_Sender req) of
        Inl err \<Rightarrow> Done (Inl err, c, 0)
      | Inr senderAddr \<Rightarrow>
          CallEVM l e d ps k ic evm pcs rng env c (GetEVMAddressOrDefault l c senderAddr) to (mi_Value req) (mi_Data req))"

definition HandleInternalEVMDelegateCall ::
    "lib \<Rightarrow> eth_funs \<Rightarrow> dec_funs \<Rightarrow> 'x param_store \<Rightarrow> 'x keepers \<Rightarrow> int_codec \<Rightarrow> ('x, 'p) evm_funs \<Rightarrow> 'p precompile_map \<Rightarrow> map_order \<Rightarrow> tx_env \<Rightarrow> 'x ctx \<Rightarrow>
     MsgInternalEVMDelegateCall \<Rightarrow> ((string + bytes) \<times> 'x ctx \<times> uint64) go" where
  "HandleInternalEVMDelegateCall l e d ps k ic evm pcs rng env c req =
     (if md_To req = [] then Done (Inl ''cannot use a CosmWasm contract to delegate-create an EVM contract'', c, 0)
      else
        let to = HexToAddress l (md_To req) in
        go_bind (GetAnyPointerInfo c (PointerReverseRegistryKey (BytesToAddress l (str_bytes (md_FromContract req))))) (\<lambda>info.
        if (case info of None \<Rightarrow> True | Some (addr, _) \<Rightarrow> BytesToAddress l addr \<noteq> to)
        then Done (Inl ''only pointer contract can make delegatecalls'', c, 0)
        else
          case AccAddressFromBech32 l (md_Sender req) of
            Inl err \<Rightarrow> Done (Inl err, c, 0)
          | Inr senderAddr \<Rightarrow>
              (case GetEVMAddress c senderAddr of
                 None \<Rightarrow> Done (Inl (AssociationMissingErr_Error (md_Sender req)), c, 0)
               | Some senderEvmAddr \<Rightarrow> CallEVM l e d ps k ic evm pcs rng env c senderEvmAddr (Some to) (Some (Some 0)) (md_Data req))))"

text \<open>A read-only call: the EVM of go-ethereum runs on a database in simulation mode, which is then dropped.\<close>

definition StaticCallEVM ::
    "lib \<Rightarrow> dec_funs \<Rightarrow> 'x param_store \<Rightarrow> 'x keepers \<Rightarrow> ('x, 'p) evm_funs \<Rightarrow>
     ('x BlockContext \<Rightarrow> address \<Rightarrow> 'x DBImpl \<Rightarrow> address \<Rightarrow> bytes \<Rightarrow> uint64 \<Rightarrow> ((string + bytes) \<times> uint64) go) \<Rightarrow> tx_env \<Rightarrow> 'x ctx \<Rightarrow> bytes \<Rightarrow>
     address option \<Rightarrow> bytes \<Rightarrow> ((string + bytes) \<times> uint64) go" where
  "StaticCallEVM l d ps k evm StaticCall env c from to data =
     go_bind (GetVMBlockContext l k d ps evm env c) (\<lambda>blockCtx.
       case blockCtx of
         Inl err \<Rightarrow> Done (Inl err, 0)
       | Inr bc \<Rightarrow>
           go_bind (getEvmGasLimitFromCtx d ps env c) (\<lambda>evmGasLimit.
           deref to (\<lambda>addr.
           go_bind (StaticCall bc (GetEVMAddressOrDefault l c from) (NewDBImpl k c True) addr data evmGasLimit) (\<lambda>(ret, leftoverGas).
           go_bind (consumeEvmGas d ps c (evmGasLimit - leftoverGas)) (\<lambda>gas. Done (ret, gas))))))"

section \<open>The other messages\<close>

record 'x wasm_keeper =
  wasm_Migrate :: "'x \<Rightarrow> bytes \<Rightarrow> bytes \<Rightarrow> uint64 \<Rightarrow> bytes \<Rightarrow> error \<times> 'x"
  wasm_Instantiate :: "'x \<Rightarrow> uint64 \<Rightarrow> bytes \<Rightarrow> bytes \<Rightarrow> bytes \<Rightarrow> string \<Rightarrow> (string + bytes) \<times> 'x"
  wasm_GetContractInfo :: "'x \<Rightarrow> bytes \<Rightarrow> bool"
  wasm_Create :: "'x \<Rightarrow> bytes \<Rightarrow> string \<Rightarrow> (string + uint64) \<times> 'x"
  json_Marshal :: "(string \<times> string) list \<Rightarrow> string + bytes"

definition Send ::
    "lib \<Rightarrow> ('x \<Rightarrow> string \<Rightarrow> string \<Rightarrow> 'coins \<Rightarrow> 'x \<times> event list \<times> error) \<Rightarrow> 'x ctx \<Rightarrow> 'coins MsgSend \<Rightarrow> error \<times> 'x ctx" where
  "Send l bank_Send c msg =
     (let recipient = GetTabiAddressOrDefault c (HexToAddress l (ms_ToAddress msg)) in
      case bank_Send (ctx_ext c) (ms_FromAddress msg) (AccAddress_String l recipient) (ms_Amount msg) of
        (x, es, err) \<Rightarrow> (err, EmitEvents es (with_ext x c)))"

text \<open>The three kinds of pointers that a message can register: the existing pointer, the version of the artifact, the field of
  the payload, the setter and the name of the kind.\<close>

definition pointer_kind ::
    "lib \<Rightarrow> 'x ctx \<Rightarrow> PointerType \<Rightarrow> address \<Rightarrow> ((bytes \<times> uint16) option go \<times> uint16 \<times> string \<times> ('x ctx \<Rightarrow> string \<Rightarrow> (error \<times> 'x ctx) go) \<times> string) option" where
  "pointer_kind l c ty addr =
     (case ty of
        PointerType_ERC20 \<Rightarrow> Some (GetCW20ERC20Pointer l c addr, erc20_CurrentVersion, ''erc20_address'', \<lambda>c. SetCW20ERC20Pointer l c addr, ''erc20'')
      | PointerType_ERC721 \<Rightarrow> Some (GetCW721ERC721Pointer l c addr, erc721_CurrentVersion, ''erc721_address'', \<lambda>c. SetCW721ERC721Pointer l c addr, ''erc721'')
      | PointerType_ERC1155 \<Rightarrow> Some (GetCW1155ERC1155Pointer l c addr, erc1155_CurrentVersion, ''erc1155_address'', \<lambda>c. SetCW1155ERC1155Pointer l c addr, ''erc1155'')
      | _ \<Rightarrow> None)"

definition pointer_event :: "lib \<Rightarrow> string \<Rightarrow> bytes \<Rightarrow> string \<Rightarrow> (uint16 \<Rightarrow> string) \<Rightarrow> uint16 \<Rightarrow> event" where
  "pointer_event l name pointerAddr pointee fmt version =
     (''pointer_registered'', [(''pointer_type'', name), (''pointer_address'', AccAddress_String l pointerAddr), (''pointee'', pointee), (''pointer_version'', fmt version)])"

text \<open>\<open>fmt\<close> prints a number. The event is emitted even when the registration failed.\<close>

definition RegisterPointer ::
    "lib \<Rightarrow> 'x param_store \<Rightarrow> 'x keepers \<Rightarrow> 'x wasm_keeper \<Rightarrow> (uint16 \<Rightarrow> string) \<Rightarrow> 'x ctx \<Rightarrow> MsgRegisterPointer \<Rightarrow> ((string + string) \<times> 'x ctx) go" where
  "RegisterPointer l ps k wk fmt c msg =
     (if RegisterPointerDisabled (GetParams ps c) then Done (Inl ''registering CW->ERC pointers has been disabled'', c)
      else
        case pointer_kind l c (mp_PointerType msg) (HexToAddress l (mp_ErcAddress msg)) of
          None \<Rightarrow> Panic ''unknown pointer type''
        | Some (existing, currentVersion, field, set_pointer, name) \<Rightarrow>
            go_bind existing (\<lambda>found.
            if (case found of Some (_, existingVersion) \<Rightarrow> existingVersion \<ge> currentVersion | None \<Rightarrow> False)
            then Done (Inl ''pointer already registered'', c)
            else
              go_bind (GetStoredPointerCodeID c (mp_PointerType msg)) (\<lambda>codeID.
              let moduleAcct = GetModuleAddress k ''evm'' in
              go_bind (case found of
                  Some (existingPointer, _) \<Rightarrow>
                    (let bz = (case json_Marshal wk [] of Inl _ \<Rightarrow> [] | Inr b \<Rightarrow> b);
                         (err, x) = wasm_Migrate wk (ctx_ext c) existingPointer moduleAcct codeID bz in
                     Done (case err of Some e \<Rightarrow> Inl e | None \<Rightarrow> Inr existingPointer, with_ext x c))
                | None \<Rightarrow>
                    (case json_Marshal wk [(field, mp_ErcAddress msg)] of
                       Inl jerr \<Rightarrow> Done (Inl jerr, c)
                     | Inr bz \<Rightarrow>
                         (let (r, x) = wasm_Instantiate wk (ctx_ext c) codeID moduleAcct moduleAcct bz (''Pointer of '' @ mp_ErcAddress msg) in
                          Done (r, with_ext x c)))) (\<lambda>(r, c1).
              case r of
                Inl err \<Rightarrow> Done (Inl err, c1)
              | Inr pointerAddr \<Rightarrow>
                  go_bind (set_pointer c1 (AccAddress_String l pointerAddr)) (\<lambda>(err, c2).
                    let c3 = EmitEvents [pointer_event l name pointerAddr (mp_ErcAddress msg) fmt currentVersion] c2 in
                    Done (case err of Some e \<Rightarrow> Inl e | None \<Rightarrow> Inr (AccAddress_String l pointerAddr), c3))))))"

definition AssociateContractAddress :: "lib \<Rightarrow> 'x keepers \<Rightarrow> 'x wasm_keeper \<Rightarrow> 'x ctx \<Rightarrow> MsgAssociateContractAddress \<Rightarrow> (error \<times> 'x ctx) go" where
  "AssociateContractAddress l k wk c msg =
     go_bind (MustAccAddressFromBech32 l (mc_Address msg)) (\<lambda>addr.
       if \<not> wasm_GetContractInfo wk (ctx_ext c) addr then Done (Some ''no wasm contract found at the given address'', c)
       else
         case GetEVMAddress c addr of
           Some existingEvmAddr \<Rightarrow> Done (Some ''contract already has an associated address'', c)
         | None \<Rightarrow> Done (None, SetAddressMapping l k c addr (BytesToAddress l addr)))"

definition Associate :: "MsgAssociate \<Rightarrow> error" where
  "Associate msg = None"

end
