(* ===== verification/Keeper_Fee.thy ===== *)
theory Keeper_Fee
  imports Evm_Params
begin

text \<open>
  \<open>x/evm/keeper/fee.go\<close>: the base fee of a block and its adjustment at the end of a block. The consensus
  parameters reach the function as the gas limit of a block, \<open>None\<close> when they are absent.
\<close>

definition get_base_fee :: "dec_funs \<Rightarrow> 'x param_store \<Rightarrow> bytes \<Rightarrow> 'x ctx \<Rightarrow> bigint go" where
  "get_base_fee d ps key c =
     (case kv_get (KVStore c) key of
        None \<Rightarrow> Done (case GetMinimumFeePerGas ps c of None \<Rightarrow> MinimumFeePerGas DefaultParams | Some m \<Rightarrow> Some m)
      | Some bz \<Rightarrow> (case Dec_UnmarshalJSON d bz of Inl e \<Rightarrow> Panic e | Inr v \<Rightarrow> Done v))"

definition set_base_fee :: "dec_funs \<Rightarrow> bytes \<Rightarrow> 'x ctx \<Rightarrow> bigint \<Rightarrow> 'x ctx go" where
  "set_base_fee d key c baseFeePerGas =
     (case Dec_MarshalJSON d baseFeePerGas of
        Inl e \<Rightarrow> Panic e
      | Inr bz \<Rightarrow> Done (with_kv (\<lambda>s. kv_set s key bz) c))"

definition GetCurrBaseFeePerGas :: "dec_funs \<Rightarrow> 'x param_store \<Rightarrow> 'x ctx \<Rightarrow> bigint go" where
  "GetCurrBaseFeePerGas d ps c = get_base_fee d ps BaseFeePerGasPrefix c"

definition SetCurrBaseFeePerGas :: "dec_funs \<Rightarrow> 'x ctx \<Rightarrow> bigint \<Rightarrow> 'x ctx go" where
  "SetCurrBaseFeePerGas d c baseFeePerGas = set_base_fee d BaseFeePerGasPrefix c baseFeePerGas"

definition SetNextBaseFeePerGas :: "dec_funs \<Rightarrow> 'x ctx \<Rightarrow> bigint \<Rightarrow> 'x ctx go" where
  "SetNextBaseFeePerGas d c baseFeePerGas = set_base_fee d NextBaseFeePerGasPrefix c baseFeePerGas"

definition GetNextBaseFeePerGas :: "dec_funs \<Rightarrow> 'x param_store \<Rightarrow> 'x ctx \<Rightarrow> bigint go" where
  "GetNextBaseFeePerGas d ps c = get_base_fee d ps NextBaseFeePerGasPrefix c"

text \<open>The two branches of the adjustment, from the gas used, the target and the gas limit as decimals.\<close>

definition fee_upward :: "dec_funs \<Rightarrow> bigint \<Rightarrow> int \<Rightarrow> int \<Rightarrow> int \<Rightarrow> int \<Rightarrow> int go" where
  "fee_upward d adjustment prevBaseFee blockGasUsedDec targetGasUsed blockGasLimit =
     go_bind (Dec_Sub d blockGasUsedDec targetGasUsed) (\<lambda>numerator.
     go_bind (Dec_Sub d blockGasLimit targetGasUsed) (\<lambda>denominator.
     go_bind (Dec_Quo d numerator denominator) (\<lambda>percentageFull.
     deref adjustment (\<lambda>adj.
     go_bind (Dec_Mul d adj percentageFull) (\<lambda>adjustmentFactor.
     go_bind (Dec_Add d (NewDec 1) adjustmentFactor) (\<lambda>f.
     Dec_Mul d prevBaseFee f))))))"

definition fee_downward :: "dec_funs \<Rightarrow> bigint \<Rightarrow> int \<Rightarrow> int \<Rightarrow> int \<Rightarrow> int go" where
  "fee_downward d adjustment prevBaseFee blockGasUsedDec targetGasUsed =
     go_bind (Dec_Sub d targetGasUsed blockGasUsedDec) (\<lambda>numerator.
     go_bind (Dec_Quo d numerator targetGasUsed) (\<lambda>percentageEmpty.
     deref adjustment (\<lambda>adj.
     go_bind (Dec_Mul d adj percentageEmpty) (\<lambda>adjustmentFactor.
     go_bind (Dec_Sub d (NewDec 1) adjustmentFactor) (\<lambda>f.
     Dec_Mul d prevBaseFee f)))))"

definition clamp_fee :: "int \<Rightarrow> int \<Rightarrow> int \<Rightarrow> int" where
  "clamp_fee minimumFeePerGas maximumFeePerGas newBaseFee =
     (let f = (if newBaseFee < minimumFeePerGas then minimumFeePerGas else newBaseFee) in
      if f > maximumFeePerGas then maximumFeePerGas else f)"

definition AdjustDynamicBaseFeePerGas ::
  "dec_funs \<Rightarrow> 'x param_store \<Rightarrow> 'x ctx \<Rightarrow> int64 option \<Rightarrow> uint64 \<Rightarrow> (bigint \<times> 'x ctx) go" where
  "AdjustDynamicBaseFeePerGas d ps c maxGas blockGasUsed =
     (case maxGas of
        None \<Rightarrow> Done (None, c)
      | Some MaxGas \<Rightarrow>
          go_bind (GetNextBaseFeePerGas d ps c) (\<lambda>prevBaseFee.
          go_bind (SetCurrBaseFeePerGas d c prevBaseFee) (\<lambda>c1.
          let targetGasUsed = NewDec (GetTargetGasUsedPerBlock ps c1) in
          if targetGasUsed = 0 then Done (prevBaseFee, c1)
          else
            let blockGasLimit = NewDec MaxGas;
                used = NewDec blockGasUsed;
                blockGasUsedDec = (if used > blockGasLimit then blockGasLimit else used) in
            deref prevBaseFee (\<lambda>prev.
            go_bind (if blockGasUsedDec > targetGasUsed
                     then fee_upward d (GetMaxDynamicBaseFeeUpwardAdjustment ps c1) prev blockGasUsedDec targetGasUsed blockGasLimit
                     else fee_downward d (GetMaxDynamicBaseFeeDownwardAdjustment ps c1) prev blockGasUsedDec targetGasUsed) (\<lambda>newBaseFee.
            deref (MinimumFeePerGas (GetParams ps c1)) (\<lambda>minimumFeePerGas.
            deref (MaximumFeePerGas (GetParams ps c1)) (\<lambda>maximumFeePerGas.
              let fee = clamp_fee minimumFeePerGas maximumFeePerGas newBaseFee in
              go_map (\<lambda>c2. (Some fee, c2)) (SetNextBaseFeePerGas d c1 (Some fee)))))))))"

section \<open>Rounding\<close>

lemma dec_round_near: "2 * \<bar>dec_round n * dec_one - n\<bar> \<le> dec_one"
proof -
  define q r where "q = \<bar>n\<bar> div dec_one" and "r = \<bar>n\<bar> mod dec_one"
  have n: "\<bar>n\<bar> = q * dec_one + r" and r: "0 \<le> r" "r < dec_one" by (simp_all add: q_def r_def dec_one_def)
  define m where "m = (if 2 * r < dec_one then q else if 2 * r > dec_one then q + 1 else if even q then q else q + 1)"
  have m: "dec_round n = sgn n * m" by (simp add: dec_round_def Let_def m_def q_def r_def)
  have near: "2 * \<bar>m * dec_one - \<bar>n\<bar>\<bar> \<le> dec_one"
    unfolding n m_def using r by (auto simp: algebra_simps)
  have "\<bar>sgn n * m * dec_one - n\<bar> = \<bar>m * dec_one - \<bar>n\<bar>\<bar>" if "n \<noteq> 0"
    using that by (cases "n > 0") (auto simp: abs_if algebra_simps)
  then show ?thesis using near m by (cases "n = 0") (simp_all add: dec_one_def)
qed

lemma dec_round_ge: "m * dec_one \<le> n \<Longrightarrow> m \<le> dec_round n"
proof (rule ccontr)
  assume le: "m * dec_one \<le> n" and "\<not> m \<le> dec_round n"
  then have "dec_round n * dec_one \<le> (m - 1) * dec_one" by (intro mult_right_mono) (simp_all add: dec_one_def)
  then show False using dec_round_near [of n] le by (simp add: dec_one_def algebra_simps)
qed

lemma dec_round_le: "n \<le> m * dec_one \<Longrightarrow> dec_round n \<le> m"
proof (rule ccontr)
  assume le: "n \<le> m * dec_one" and "\<not> dec_round n \<le> m"
  then have "(m + 1) * dec_one \<le> dec_round n * dec_one" by (intro mult_right_mono) (simp_all add: dec_one_def)
  then show False using dec_round_near [of n] le by (simp add: dec_one_def algebra_simps)
qed

lemma dec_round_mono: "x \<le> y \<Longrightarrow> dec_round x \<le> dec_round y"
proof (rule ccontr)
  assume le: "x \<le> y" and "\<not> dec_round x \<le> dec_round y"
  then have "(dec_round y + 1) * dec_one \<le> dec_round x * dec_one" by (intro mult_right_mono) (simp_all add: dec_one_def)
  then have "y \<le> x" using dec_round_near [of x] dec_round_near [of y] by (simp add: dec_one_def algebra_simps)
  with le \<open>\<not> dec_round x \<le> dec_round y\<close> show False by simp
qed

text \<open>A fraction between zero and \<open>m\<close> is a decimal between zero and \<open>m\<close>.\<close>

lemma big_Quo_fraction:
  assumes "0 \<le> x" and "x \<le> m * y" and "0 < y"
  shows "0 \<le> big_Quo (x * dec_one * dec_one) y" and "big_Quo (x * dec_one * dec_one) y \<le> m * dec_one * dec_one"
proof -
  have "x * dec_one * dec_one div y \<le> (m * dec_one * dec_one) * y div y"
    using assms by (intro zdiv_mono1) (simp_all add: dec_one_def)
  also have "\<dots> = m * dec_one * dec_one" using assms by simp
  finally show "0 \<le> big_Quo (x * dec_one * dec_one) y" and "big_Quo (x * dec_one * dec_one) y \<le> m * dec_one * dec_one"
    using assms by (auto simp: big_Quo_def sgn_if dec_one_def pos_imp_zdiv_nonneg_iff)
qed

lemma dec_quotient:
  assumes "dec_laws d" and "0 \<le> x" and "x \<le> m * y" and "0 < y" and "m \<le> 2"
  obtains q where "Dec_Quo d x y = Done q" and "0 \<le> q" and "q \<le> m * dec_one"
proof -
  let ?q = "dec_round (big_Quo (x * dec_one * dec_one) y)"
  have q: "0 \<le> ?q" "?q \<le> m * dec_one" using big_Quo_fraction [OF assms(2-4)] by (auto intro: dec_round_ge [of 0, simplified] dec_round_le)
  then have "\<bar>?q\<bar> < 2 ^ 315" using assms(5) by (simp add: dec_one_def)
  then show thesis using that q assms(1,4) by (simp add: dec_laws_def)
qed

lemma dec_fraction:
  assumes "dec_laws d" and "0 \<le> x" and "x \<le> y" and "0 < y"
  obtains q where "Dec_Quo d x y = Done q" and "0 \<le> q" and "q \<le> dec_one"
  using dec_quotient [OF assms(1,2), of 1 y] assms(3,4) by auto

lemma dec_factor:
  assumes "dec_laws d" and "0 \<le> adj" and "adj \<le> dec_one" and "0 \<le> q" and "q \<le> dec_one"
  obtains f where "Dec_Mul d adj q = Done f" and "0 \<le> f" and "f \<le> adj"
proof -
  have "0 \<le> adj * q" "adj * q \<le> adj * dec_one" using assms by (auto intro: mult_left_mono)
  then have f: "0 \<le> dec_round (adj * q)" "dec_round (adj * q) \<le> adj" by (auto intro: dec_round_ge [of 0, simplified] dec_round_le)
  then have "\<bar>dec_round (adj * q)\<bar> < 2 ^ 315" using assms(3) by (simp add: dec_one_def)
  then show thesis using that f assms(1) by (simp add: dec_laws_def)
qed

section \<open>The adjustment\<close>

lemma NewDec_1: "NewDec 1 = dec_one"
  by (simp add: NewDec_def)

lemma NewDec_bound: "\<bar>NewDec x\<bar> < 2 ^ 123"
proof -
  have "\<bar>sint x\<bar> \<le> 2 ^ 63" using sint_greater_eq [of x] sint_less [of x] by (simp add: abs_le_iff)
  then have "\<bar>sint x\<bar> * dec_one \<le> 2 ^ 63 * dec_one" by (intro mult_right_mono) (simp_all add: dec_one_def)
  then show ?thesis by (simp add: NewDec_def abs_mult dec_one_def)
qed

lemma NewDec_less: "NewDec x < NewDec y \<longleftrightarrow> sint x < sint y"
  by (simp add: NewDec_def dec_one_def)

lemma fee_mul:
  assumes "dec_laws d" and "0 \<le> prev" and "prev < 2 ^ 128" and "0 \<le> f" and "f \<le> 2 * dec_one"
  shows "Dec_Mul d prev f = Done (dec_round (prev * f))"
proof -
  have "0 \<le> prev * f" "prev * f \<le> (2 * prev) * dec_one"
    using assms mult_left_mono [of f "2 * dec_one" prev] by (auto simp: algebra_simps)
  then have "0 \<le> dec_round (prev * f)" "dec_round (prev * f) \<le> 2 * prev" by (auto intro: dec_round_ge [of 0, simplified] dec_round_le)
  then have "\<bar>dec_round (prev * f)\<bar> < 2 ^ 315" using assms(3) by simp
  then show ?thesis using assms(1) by (simp add: dec_laws_def)
qed

lemma dec_lawsD:
  assumes "dec_laws d"
  shows "\<bar>x + y\<bar> < 2 ^ 315 \<Longrightarrow> Dec_Add d x y = Done (x + y)" "\<bar>x - y\<bar> < 2 ^ 315 \<Longrightarrow> Dec_Sub d x y = Done (x - y)"
  using assms by (simp_all add: dec_laws_def)

lemma fee_upward_bounds:
  assumes d: "dec_laws d" and prev: "0 \<le> prev" "prev < 2 ^ 128" and adj: "0 \<le> adj" "adj \<le> dec_one"
    and gas: "target < used" "used \<le> limit" "\<bar>target\<bar> < 2 ^ 123" "\<bar>limit\<bar> < 2 ^ 123" "\<bar>used\<bar> < 2 ^ 123"
  shows "\<exists>f. fee_upward d (Some adj) prev used target limit = Done f \<and> prev \<le> f \<and> f \<le> dec_round (prev * (dec_one + adj))"
proof -
  have subs: "Dec_Sub d used target = Done (used - target)" "Dec_Sub d limit target = Done (limit - target)"
    using gas by (auto intro!: dec_lawsD(2) [OF d] simp: abs_less_iff)
  obtain q where q: "Dec_Quo d (used - target) (limit - target) = Done q" "0 \<le> q" "q \<le> dec_one"
    using dec_fraction [OF d, of "used - target" "limit - target"] gas by auto
  obtain f where f: "Dec_Mul d adj q = Done f" "0 \<le> f" "f \<le> adj" using dec_factor [OF d adj q(2,3)] .
  have "Dec_Add d (NewDec 1) f = Done (dec_one + f)"
    unfolding NewDec_1 using f(2,3) adj(2) by (intro dec_lawsD(1) [OF d]) (simp add: dec_one_def)
  moreover have "Dec_Mul d prev (dec_one + f) = Done (dec_round (prev * (dec_one + f)))"
    using f adj by (intro fee_mul [OF d prev]) (simp_all add: dec_one_def)
  ultimately have "fee_upward d (Some adj) prev used target limit = Done (dec_round (prev * (dec_one + f)))"
    by (simp add: fee_upward_def subs q f)
  moreover have "prev \<le> dec_round (prev * (dec_one + f))"
    using prev f(2) by (intro dec_round_ge mult_left_mono) simp_all
  moreover have "dec_round (prev * (dec_one + f)) \<le> dec_round (prev * (dec_one + adj))"
    using prev f(3) by (intro dec_round_mono mult_left_mono) simp_all
  ultimately show ?thesis by blast
qed

lemma fee_downward_bounds:
  assumes d: "dec_laws d" and prev: "0 \<le> prev" "prev < 2 ^ 128" and adj: "0 \<le> adj" "adj \<le> dec_one"
    and gas: "used \<le> target" "0 < target" "0 \<le> used" "target < 2 ^ 123"
  shows "\<exists>f. fee_downward d (Some adj) prev used target = Done f \<and> f \<le> prev \<and> dec_round (prev * (dec_one - adj)) \<le> f"
proof -
  have sub: "Dec_Sub d target used = Done (target - used)" using gas by (intro dec_lawsD(2) [OF d]) simp
  obtain q where q: "Dec_Quo d (target - used) target = Done q" "0 \<le> q" "q \<le> dec_one"
    using dec_fraction [OF d, of "target - used" target] gas by auto
  obtain f where f: "Dec_Mul d adj q = Done f" "0 \<le> f" "f \<le> adj" using dec_factor [OF d adj q(2,3)] .
  have "Dec_Sub d (NewDec 1) f = Done (dec_one - f)"
    unfolding NewDec_1 using f(2,3) adj(2) by (intro dec_lawsD(2) [OF d]) (simp add: dec_one_def)
  moreover have "Dec_Mul d prev (dec_one - f) = Done (dec_round (prev * (dec_one - f)))"
    using f adj by (intro fee_mul [OF d prev]) (simp_all add: dec_one_def)
  ultimately have "fee_downward d (Some adj) prev used target = Done (dec_round (prev * (dec_one - f)))"
    by (simp add: fee_downward_def sub q f)
  moreover have "dec_round (prev * (dec_one - f)) \<le> prev"
    using prev f(2) by (intro dec_round_le mult_left_mono) simp_all
  moreover have "dec_round (prev * (dec_one - adj)) \<le> dec_round (prev * (dec_one - f))"
    using prev f(3) by (intro dec_round_mono mult_left_mono) simp_all
  ultimately show ?thesis by blast
qed

text \<open>The downward branch with the gas used at minus one: a decrease by a little more than the whole adjustment.\<close>

lemma fee_downward_over:
  assumes d: "dec_laws d" and prev: "0 \<le> prev" "prev < 2 ^ 128" and adj: "0 \<le> adj" "adj \<le> dec_one"
    and gas: "dec_one \<le> target" "target < 2 ^ 123"
  shows "\<exists>f. fee_downward d (Some adj) prev (- dec_one) target = Done f \<and> f \<le> prev"
proof -
  have sub: "Dec_Sub d target (- dec_one) = Done (target + dec_one)"
    using dec_lawsD(2) [OF d, of target "- dec_one"] gas by (simp add: dec_one_def)
  obtain q where q: "Dec_Quo d (target + dec_one) target = Done q" "0 \<le> q" "q \<le> 2 * dec_one"
    using dec_quotient [OF d, of "target + dec_one" 2 target] gas by (auto simp: dec_one_def)
  let ?f = "dec_round (adj * q)"
  have "0 \<le> adj * q" "adj * q \<le> (2 * adj) * dec_one" using adj q mult_left_mono [of q "2 * dec_one" adj] by (simp_all add: algebra_simps)
  then have f: "0 \<le> ?f" "?f \<le> 2 * dec_one" using adj dec_round_le [of "adj * q" "2 * adj"] by (auto intro: dec_round_ge [of 0, simplified])
  have mul: "Dec_Mul d adj q = Done ?f" using f d by (simp add: dec_laws_def dec_one_def)
  have diff: "Dec_Sub d (NewDec 1) ?f = Done (dec_one - ?f)"
    unfolding NewDec_1 using f by (intro dec_lawsD(2) [OF d]) (simp add: dec_one_def)
  have "prev * (- dec_one) \<le> prev * (dec_one - ?f)" "prev * (dec_one - ?f) \<le> prev * dec_one"
    using prev f by (intro mult_left_mono; simp)+
  then have r: "dec_round (prev * (dec_one - ?f)) \<le> prev" "- prev \<le> dec_round (prev * (dec_one - ?f))"
    using dec_round_le [of _ prev] dec_round_ge [of "- prev"] by simp_all
  then have "Dec_Mul d prev (dec_one - ?f) = Done (dec_round (prev * (dec_one - ?f)))"
    using d prev by (simp add: dec_laws_def)
  then show ?thesis using r(1) by (simp add: fee_downward_def sub q mul diff)
qed

lemma set_base_fee_Done:
  assumes "dec_laws d" and "\<bar>v\<bar> < 2 ^ 315"
  obtains c' where "set_base_fee d key c (Some v) = Done c'" and "get_base_fee d ps key c' = Done (Some v)"
    and "\<And>key'. key' \<noteq> key \<Longrightarrow> get_base_fee d ps key' c' = get_base_fee d ps key' c" and "ctx_ext c' = ctx_ext c"
proof -
  obtain bz where bz: "Dec_MarshalJSON d (Some v) = Inr bz" "Dec_UnmarshalJSON d bz = Inr (Some v)"
    using assms unfolding dec_laws_def by blast
  let ?c = "with_kv (\<lambda>s. kv_set s key bz) c"
  have "GetMinimumFeePerGas ps ?c = GetMinimumFeePerGas ps c"
    by (simp add: GetMinimumFeePerGas_def GetParams_def GetParamsIfExists_def)
  then have "get_base_fee d ps key' ?c = get_base_fee d ps key' c" if "key' \<noteq> key" for key'
    using that by (cases "kv_get (KVStore c) key'") (simp_all add: get_base_fee_def)
  with bz show thesis by (intro that [of ?c]) (simp_all add: set_base_fee_def get_base_fee_def)
qed

lemma base_fee_keys: "BaseFeePerGasPrefix \<noteq> NextBaseFeePerGasPrefix"
  by (simp add: BaseFeePerGasPrefix_def NextBaseFeePerGasPrefix_def)

text \<open>Parameters that \<open>Validate\<close> accepts and that satisfy more than it checks: the minimum is not above the maximum, the maximum is below
  \<open>2 ^ 128\<close> units of the eighteenth decimal, and the gas target is positive.\<close>

definition fee_params :: "Params \<Rightarrow> int \<Rightarrow> int \<Rightarrow> int \<Rightarrow> int \<Rightarrow> bool" where
  "fee_params p mn mx up dn \<longleftrightarrow>
     MinimumFeePerGas p = Some mn \<and> MaximumFeePerGas p = Some mx \<and>
     MaxDynamicBaseFeeUpwardAdjustment p = Some up \<and> MaxDynamicBaseFeeDownwardAdjustment p = Some dn \<and>
     0 \<le> mn \<and> mn \<le> mx \<and> mx < 2 ^ 128 \<and> 0 \<le> up \<and> up \<le> dec_one \<and> 0 \<le> dn \<and> dn \<le> dec_one \<and>
     0 < sint (TargetGasUsedPerBlock p)"

text \<open>C28 (base_fee_adjusted): with valid parameters whose minimum is not above the maximum, whose maximum is below \<open>2 ^ 128\<close> units of the eighteenth
  decimal and whose gas target is positive, none of which \<open>Params.Validate\<close> checks, an old fee that is not negative and below the same bound, and gas
  used and a block gas limit that are not negative, the adjustment never panics. The base fee of the block becomes the fee computed at the end of the block before, and the new fee is clamped between the
  minimum and the maximum. When the gas used, capped at the gas limit, is above the target, the fee does not fall, unless
  to a maximum below it, and rises by at most the upward adjustment, unless to a minimum above that; otherwise it does not rise, unless to a
  minimum above it, and falls by at most the downward adjustment, unless to a maximum below that.\<close>

theorem base_fee_adjusted:
  assumes d: "dec_laws d" and p: "fee_params (GetParams ps c) mn mx up dn"
    and prev: "GetNextBaseFeePerGas d ps c = Done (Some prev)" "0 \<le> prev" "prev < 2 ^ 128"
    and gas: "0 \<le> sint MaxGas" "0 \<le> sint used"
  shows "\<exists>fee c'. AdjustDynamicBaseFeePerGas d ps c (Some MaxGas) used = Done (Some fee, c') \<and>
    GetCurrBaseFeePerGas d ps c' = Done (Some prev) \<and> GetNextBaseFeePerGas d ps c' = Done (Some fee) \<and> mn \<le> fee \<and> fee \<le> mx \<and>
    (if min (sint used) (sint MaxGas) > sint (TargetGasUsedPerBlock (GetParams ps c))
     then min prev mx \<le> fee \<and> fee \<le> max mn (dec_round (prev * (dec_one + up)))
     else fee \<le> max prev mn \<and> min mx (dec_round (prev * (dec_one - dn))) \<le> fee)"
proof -
  let ?t = "TargetGasUsedPerBlock (GetParams ps c)"
  let ?T = "NewDec ?t" and ?L = "NewDec MaxGas"
  define g where "g = (if NewDec used > ?L then ?L else NewDec used)"
  obtain c1 where c1: "SetCurrBaseFeePerGas d c (Some prev) = Done c1" "GetCurrBaseFeePerGas d ps c1 = Done (Some prev)"
      "ctx_ext c1 = ctx_ext c"
    using set_base_fee_Done [OF d, of prev BaseFeePerGasPrefix c ps] prev
    by (auto simp: SetCurrBaseFeePerGas_def GetCurrBaseFeePerGas_def)
  have par: "GetParams ps c1 = GetParams ps c" using c1(3) by (simp add: GetParams_def GetParamsIfExists_def)
  note P = p [unfolded fee_params_def]
  have T: "0 < ?T" "?T < 2 ^ 123" using P NewDec_bound [of ?t] by (simp_all add: NewDec_def dec_one_def)
  have G: "0 \<le> g" "g \<le> ?L" "g < 2 ^ 123" "\<bar>?L\<bar> < 2 ^ 123"
    using gas NewDec_bound [of used] NewDec_bound [of MaxGas] by (simp_all add: g_def NewDec_def dec_one_def)
  have cmp: "g > ?T \<longleftrightarrow> min (sint used) (sint MaxGas) > sint ?t" by (auto simp: g_def NewDec_less min_def)
  let ?body = "if g > ?T then fee_upward d (Some up) prev g ?T ?L else fee_downward d (Some dn) prev g ?T"
  obtain f where f: "?body = Done f"
      "if g > ?T then prev \<le> f \<and> f \<le> dec_round (prev * (dec_one + up)) else f \<le> prev \<and> dec_round (prev * (dec_one - dn)) \<le> f"
    using fee_upward_bounds [OF d prev(2,3), of up ?T g ?L] fee_downward_bounds [OF d prev(2,3), of dn g ?T] P T G
    by (cases "g > ?T") fastforce+
  define fee where "fee = clamp_fee mn mx f"
  have fee: "mn \<le> fee" "fee \<le> mx" "fee = max mn (min f mx)" using P by (auto simp: fee_def clamp_fee_def Let_def)
  have "\<bar>fee\<bar> < 2 ^ 315" using P fee(1,2) by simp
  then obtain c2 where c2: "SetNextBaseFeePerGas d c1 (Some fee) = Done c2" "GetNextBaseFeePerGas d ps c2 = Done (Some fee)"
      "GetCurrBaseFeePerGas d ps c2 = GetCurrBaseFeePerGas d ps c1"
    unfolding SetNextBaseFeePerGas_def GetNextBaseFeePerGas_def GetCurrBaseFeePerGas_def
    using set_base_fee_Done [OF d, of fee NextBaseFeePerGasPrefix c1 ps] base_fee_keys by metis
  have "AdjustDynamicBaseFeePerGas d ps c (Some MaxGas) used = Done (Some fee, c2)"
    using f(1) c1 c2(1) P T(1) prev(1)
    by (cases "g > ?T") (simp_all add: AdjustDynamicBaseFeePerGas_def GetTargetGasUsedPerBlock_def GetMaxDynamicBaseFeeUpwardAdjustment_def
        GetMaxDynamicBaseFeeDownwardAdjustment_def par Let_def g_def [symmetric] fee_def)
  moreover have "if g > ?T then min prev mx \<le> fee \<and> fee \<le> max mn (dec_round (prev * (dec_one + up)))
      else fee \<le> max prev mn \<and> min mx (dec_round (prev * (dec_one - dn))) \<le> fee"
    using f(2) unfolding fee(3) by (cases "g > ?T") auto
  ultimately show ?thesis using c1(2) c2 fee cmp by auto
qed

definition default_store :: "'x param_store" where
  "default_store = \<lparr>GetParamSetIfExists = (\<lambda>_. DefaultParams), SetParamSet = (\<lambda>x p. Done x)\<rparr>"

lemma default_params:
  "fee_params (GetParams default_store c) 1000000000000000000000000000 1000000000000000000000000000000 18900000000000000 3900000000000000"
  by (simp add: fee_params_def GetParams_def GetParamsIfExists_def default_store_def DefaultParams_def DefaultMinFeePerGas_def
      DefaultMaxFeePerGas_def DefaultMaxDynamicBaseFeeUpwardAdjustment_def DefaultMaxDynamicBaseFeeDownwardAdjustment_def
      DefaultTargetGasUsedPerBlock_def NewDec_def dec_one_def)

lemma default_prev: "GetNextBaseFeePerGas dec_exact default_store ctx0 = Done (Some 1000000000000000000000000000)"
  by (simp add: GetNextBaseFeePerGas_def get_base_fee_def GetMinimumFeePerGas_def GetParams_def GetParamsIfExists_def
      default_store_def DefaultParams_def DefaultMinFeePerGas_def NewDec_def dec_one_def)

theorem base_fee_adjusted_witness:
  "\<exists>fee c'. AdjustDynamicBaseFeePerGas dec_exact default_store ctx0 (Some 10000000) 500000 = Done (Some fee, c') \<and>
     1000000000000000000000000000 \<le> fee \<and> fee \<le> 1018900000000000000000000000"
proof -
  have "GetParams default_store ctx0 = DefaultParams" by (simp add: GetParams_def GetParamsIfExists_def default_store_def)
  moreover have "TargetGasUsedPerBlock DefaultParams = 250000" by (simp add: DefaultParams_def DefaultTargetGasUsedPerBlock_def)
  moreover have "dec_round (1000000000000000000000000000 * (dec_one + 18900000000000000)) = 1018900000000000000000000000"
    by (simp add: dec_round_def dec_one_def Let_def)
  ultimately show ?thesis
    using base_fee_adjusted [OF dec_exact_laws default_params default_prev, of 10000000 500000] by auto
qed

text \<open>C29 (base_fee_unlimited_gas): with the block gas limit that stands for no limit, minus one, the gas used is capped at minus one: whatever
  the block used, the new fee is at most the larger of the fee before and the minimum, so it rises only to a minimum above it.\<close>

theorem base_fee_unlimited_gas:
  assumes d: "dec_laws d" and p: "fee_params (GetParams ps c) mn mx up dn"
    and prev: "GetNextBaseFeePerGas d ps c = Done (Some prev)" "0 \<le> prev" "prev < 2 ^ 128" and used: "0 \<le> sint used"
  shows "\<exists>fee c'. AdjustDynamicBaseFeePerGas d ps c (Some (- 1)) used = Done (Some fee, c') \<and> mn \<le> fee \<and> fee \<le> mx \<and> fee \<le> max prev mn"
proof -
  let ?T = "NewDec (TargetGasUsedPerBlock (GetParams ps c))"
  note P = p [unfolded fee_params_def]
  have T: "0 < ?T" and U: "dec_one \<le> ?T" using P by (simp_all add: NewDec_def dec_one_def)
  have L: "NewDec (- 1) = - dec_one" by (simp add: NewDec_def)
  then have g: "- dec_one < NewDec used" using used by (simp add: NewDec_def dec_one_def)
  obtain f where f: "fee_downward d (Some dn) prev (- dec_one) ?T = Done f" "f \<le> prev"
    using fee_downward_over [OF d prev(2,3), of dn ?T] P U NewDec_bound [of "TargetGasUsedPerBlock (GetParams ps c)"] by auto
  obtain c1 where c1: "SetCurrBaseFeePerGas d c (Some prev) = Done c1" "ctx_ext c1 = ctx_ext c"
    using set_base_fee_Done [OF d, of prev BaseFeePerGasPrefix c ps] prev by (auto simp: SetCurrBaseFeePerGas_def)
  have par: "GetParams ps c1 = GetParams ps c" using c1(2) by (simp add: GetParams_def GetParamsIfExists_def)
  define fee where "fee = clamp_fee mn mx f"
  have fee: "mn \<le> fee" "fee \<le> mx" "fee \<le> max prev mn" using P f(2) by (auto simp: fee_def clamp_fee_def Let_def)
  have "\<bar>fee\<bar> < 2 ^ 315" using P fee(1,2) by simp
  then obtain c2 where c2: "SetNextBaseFeePerGas d c1 (Some fee) = Done c2"
    unfolding SetNextBaseFeePerGas_def using set_base_fee_Done [OF d, of fee NextBaseFeePerGasPrefix c1 ps] by metis
  have "AdjustDynamicBaseFeePerGas d ps c (Some (- 1)) used = Done (Some fee, c2)"
    using f(1) c1(1) c2 P T g prev(1)
    by (simp add: AdjustDynamicBaseFeePerGas_def GetTargetGasUsedPerBlock_def GetMaxDynamicBaseFeeUpwardAdjustment_def
        GetMaxDynamicBaseFeeDownwardAdjustment_def par Let_def L fee_def)
  with fee show ?thesis by blast
qed

theorem base_fee_unlimited_gas_witness:
  "\<exists>fee c'. AdjustDynamicBaseFeePerGas dec_exact default_store ctx0 (Some (- 1)) 500000 = Done (Some fee, c') \<and> fee \<le> 1000000000000000000000000000"
  using base_fee_unlimited_gas [OF dec_exact_laws default_params default_prev, of 500000] by auto

end
