(* ===== verification/Evm_Module.thy ===== *)
theory Evm_Module
  imports Evm_Server Keeper_Fee StateDB_Props
begin

text \<open>
  The life of a block in the module: \<open>BeginBlock\<close> and \<open>EndBlock\<close> of \<open>x/evm/module.go\<close>. Lines logged at the error level are
  part of the result, because they are the only trace of a transfer that failed. Metrics are left out; the replay of
  Ethereum blocks and the block tests are off.
\<close>

definition BeginBlock :: "'x ctx \<Rightarrow> keeper_block \<Rightarrow> keeper_block" where
  "BeginBlock c kb = (if \<not> cx_IsTracing c then kb\<lparr>kb_msgs := [], kb_txResults := []\<rparr> else kb)"

text \<open>\<open>ethtypes.EmptyTxsHash\<close>, the root of the empty trie.\<close>

definition EmptyTxsHash :: hash where
  "EmptyTxsHash =
     [0x56, 0xe8, 0x1f, 0x17, 0x1b, 0xcc, 0x55, 0xa6, 0xff, 0x83, 0x45, 0xe6, 0x92, 0xc0, 0xf8, 0x6e,
      0x5b, 0x48, 0xe0, 0x1b, 0x99, 0x6c, 0xad, 0xc0, 0x01, 0x62, 0x2f, 0xb5, 0xe3, 0x63, 0xb4, 0x21]"

text \<open>A call to the bank keeper on a context, and the line logged when it fails.\<close>

definition ctx_bank :: "string \<Rightarrow> 'x ctx \<Rightarrow> 'x \<times> event list \<times> error \<Rightarrow> string list \<times> 'x ctx" where
  "ctx_bank line c r = (case r of (x, es, err) \<Rightarrow> (if err \<noteq> None then [line] else [], EmitEvents es (with_ext x c)))"

definition failed_tx :: "lib \<Rightarrow> DeferredInfo \<Rightarrow> bool" where
  "failed_tx l info \<longleftrightarrow> di_Error info \<noteq> [] \<and> BytesToHash l (di_TxHash info) \<noteq> EmptyTxsHash"

fun EndBlock_loop :: "lib \<Rightarrow> 'x keepers \<Rightarrow> bytes \<Rightarrow> DeferredInfo list \<Rightarrow> int \<Rightarrow> 'x ctx \<Rightarrow> (int \<times> string list \<times> 'x ctx) go" where
  "EndBlock_loop l k coinbase [] surplus c = Done (surplus, [], c)"
| "EndBlock_loop l k coinbase (deferredInfo # infos) surplus c =
     (if failed_tx l deferredInfo then
        let txHash = BytesToHash l (di_TxHash deferredInfo) in
        EndBlock_loop l k coinbase infos surplus
          (SetTransientReceipt c txHash (Receipt_zero\<lparr>
             rc_TxHashHex := hash_Hex l txHash, rc_TransactionIndex := di_TxIndex deferredInfo, rc_VmError := di_Error deferredInfo,
             rc_BlockNumber := cx_BlockHeight c\<rparr>))
      else
        let coinbaseAddress = GetCoinbaseAddress (ucast (di_TxIndex deferredInfo)) in
        go_bind (sdk_Int_Sub l (bank_GetBalance k (ctx_ext c) coinbaseAddress) (bank_LockedCoins k (ctx_ext c) coinbaseAddress)) (\<lambda>balance.
        let weiBalance = bank_GetWeiBalance k (ctx_ext c) coinbaseAddress;
            (logs, c1) = (if balance \<noteq> 0 \<or> weiBalance \<noteq> 0
                          then ctx_bank ''failed to send atabisurplus to coinbase account'' c (SendCoinsAndWei k (ctx_ext c) coinbaseAddress coinbase balance weiBalance)
                          else ([], c)) in
        deref (di_Surplus deferredInfo) (\<lambda>s.
        go_bind (sdk_Int_Add l surplus s) (\<lambda>surplus'.
        go_map (\<lambda>(r, lg, c'). (r, logs @ lg, c')) (EndBlock_loop l k coinbase infos surplus' c1)))))"

definition credit_surplus :: "lib \<Rightarrow> 'x keepers \<Rightarrow> int \<Rightarrow> 'x ctx \<Rightarrow> (string list \<times> 'x ctx) go" where
  "credit_surplus l k surplus c =
     (if surplus > 0 then
        go_bind (SplitAtabiWeiAmount l surplus) (\<lambda>(surplusAtabi, surplusWei).
          let module = GetModuleAddress k ''evm'';
              (logs1, c1) = (if surplusAtabi > 0
                then ctx_bank ''failed to send atabisurplus to EVM module account'' c (AddCoins k (ctx_ext c) module surplusAtabi) else ([], c));
              (logs2, c2) = (if surplusWei > 0
                then ctx_bank ''failed to send wei surplus to EVM module account'' c1 (AddWei k (ctx_ext c1) module surplusWei) else ([], c1)) in
          Done (logs1 @ logs2, c2))
      else Done ([], c))"

fun BytesToBlooms :: "eth_funs \<Rightarrow> DeferredInfo list \<Rightarrow> bytes list go" where
  "BytesToBlooms e [] = Done []"
| "BytesToBlooms e (i # infos) = go_bind (Bloom_SetBytes e (di_TxBloom i)) (\<lambda>b. go_map ((#) b) (BytesToBlooms e infos))"

definition EndBlock ::
    "lib \<Rightarrow> eth_funs \<Rightarrow> dec_funs \<Rightarrow> 'x param_store \<Rightarrow> 'x keepers \<Rightarrow> int_codec \<Rightarrow> (bytes \<Rightarrow> bigint) \<Rightarrow> int64 option \<Rightarrow> keeper_block \<Rightarrow> uint64 \<Rightarrow> 'x ctx \<Rightarrow>
     (string list \<times> 'x ctx) go" where
  "EndBlock l e d ps k ic junk maxGas kb blockGasUsed c =
     (let c1 = RemoveFirstNTxHashes c DefaultTxHashesToRemove in
      go_bind (AdjustDynamicBaseFeePerGas d ps c1 maxGas blockGasUsed) (\<lambda>(newBaseFee, c2).
      let coinbase = GetModuleAddress k ''fee_collector'' in
      go_bind (GetAllEVMTxDeferredInfo l e ic c2 kb) (\<lambda>(evmTxDeferredInfoList, logs1).
      go_bind (GetAnteSurplusSum l ic junk c2) (\<lambda>anteSurplus.
      go_bind (EndBlock_loop l k coinbase evmTxDeferredInfoList anteSurplus c2) (\<lambda>(surplus, logs2, c3).
      go_bind (credit_surplus l k surplus c3) (\<lambda>(logs3, c4).
      go_bind (BytesToBlooms e evmTxDeferredInfoList) (\<lambda>blooms.
        Done (logs1 @ logs2 @ logs3, SetBlockBloom e c4 blooms))))))))"

section \<open>What the end of a block does to the supply\<close>

text \<open>A transfer of coins and wei that succeeds keeps the supply.\<close>

definition send_law :: "'x keepers \<Rightarrow> ('x \<Rightarrow> int) \<Rightarrow> bool" where
  "send_law k T \<longleftrightarrow> (\<forall>x a b n w. snd (snd (SendCoinsAndWei k x a b n w)) = None \<longrightarrow> T (fst (SendCoinsAndWei k x a b n w)) = T x)"

lemma ledger_send_law: "send_law ledger_keepers lg_total"
proof -
  have "lg_total x' = lg_total x" if "lg_send x a b n w = (x', es, None)" for x a b n w x' es
  proof -
    obtain x1 es1 err where add: "lg_add 1 x a (- (1000000000000 * n + w)) = (x1, es1, err)" by (cases rule: prod_cases3)
    then have "err = None" "lg_add 1 x1 b (1000000000000 * n + w) = (x', es, None)"
      using that by (simp_all add: lg_send_def split: option.splits)
    then show ?thesis using lg_add_total [of 1 x a "- (1000000000000 * n + w)"] lg_add_total [of 1 x1 b] add by simp
  qed
  then have "lg_total (fst (lg_send x a b n w)) = lg_total x" if "snd (snd (lg_send x a b n w)) = None" for x a b n w
    using that by (cases "lg_send x a b n w") auto
  then show ?thesis by (simp add: send_law_def ledger_keepers_def)
qed

lemma AdjustDynamic_access:
  assumes "AdjustDynamicBaseFeePerGas d ps c mg g = Done (f, c')"
  shows "ctx_ext c' = ctx_ext c" "TransientStore c' = TransientStore c"
proof -
  have set: "ctx_ext c' = ctx_ext c \<and> TransientStore c' = TransientStore c" if "set_base_fee d pref c v = Done c'" for pref v c c'
    using that by (auto simp: set_base_fee_def split: sum.splits)
  show "ctx_ext c' = ctx_ext c" "TransientStore c' = TransientStore c"
    using assms by (auto simp: AdjustDynamicBaseFeePerGas_def SetCurrBaseFeePerGas_def SetNextBaseFeePerGas_def Let_def go_Done_iffs
        dest!: set split: option.splits if_splits)
qed

lemma SetTransientReceipt_access [simp]:
  "ctx_ext (SetTransientReceipt c h r) = ctx_ext c" "cx_TxIndex (SetTransientReceipt c h r) = cx_TxIndex c"
  "TransientStore (SetTransientReceipt c h r) = kv_set (TransientStore c) (ReceiptKey h) (Receipt_Marshal r)"
  by (simp_all add: SetTransientReceipt_def)

lemma ctx_bank_Done: "ctx_bank line c r = ([], c') \<Longrightarrow> snd (snd r) = None \<and> ctx_ext c' = fst r"
  by (auto simp: ctx_bank_def split: prod.splits if_splits)

lemma EndBlock_loop_supply:
  assumes "sdk_int_laws l" and "send_law k T"
  shows "EndBlock_loop l k coinbase infos surplus c = Done (r, [], c') \<Longrightarrow>
    T (ctx_ext c') = T (ctx_ext c) \<and> r = surplus + sum_list (map (\<lambda>i. the (di_Surplus i)) (filter (\<lambda>i. \<not> failed_tx l i) infos))"
proof (induction infos arbitrary: surplus c)
  case (Cons info infos)
  show ?case
  proof (cases "failed_tx l info")
    case True
    from Cons.prems have "EndBlock_loop l k coinbase infos surplus
        (SetTransientReceipt c (BytesToHash l (di_TxHash info)) (Receipt_zero\<lparr>rc_TxHashHex := hash_Hex l (BytesToHash l (di_TxHash info)),
           rc_TransactionIndex := di_TxIndex info, rc_VmError := di_Error info, rc_BlockNumber := cx_BlockHeight c\<rparr>)) = Done (r, [], c')"
      by (simp add: True Let_def)
    from Cons.IH [OF this] True show ?thesis by simp
  next
    case False
    let ?a = "GetCoinbaseAddress (ucast (di_TxIndex info))"
    let ?send = "\<lambda>b. if b \<noteq> 0 \<or> bank_GetWeiBalance k (ctx_ext c) ?a \<noteq> 0
        then ctx_bank ''failed to send atabisurplus to coinbase account'' c (SendCoinsAndWei k (ctx_ext c) ?a coinbase b (bank_GetWeiBalance k (ctx_ext c) ?a))
        else ([], c)"
    obtain b s surplus' c1 where step: "?send b = ([], c1)"
      "di_Surplus info = Some s" "sdk_Int_Add l surplus s = Done surplus'" "EndBlock_loop l k coinbase infos surplus' c1 = Done (r, [], c')"
    proof -
      from Cons.prems obtain b where b: "go_bind (deref (di_Surplus info) (\<lambda>s. sdk_Int_Add l surplus s)) (\<lambda>surplus'.
          go_map (\<lambda>(r, lg, c'). (r, fst (?send b) @ lg, c')) (EndBlock_loop l k coinbase infos surplus' (snd (?send b)))) = Done (r, [], c')"
        by (auto simp: False Let_def go_Done_iffs case_prod_unfold)
      then show thesis using that [of b "snd (?send b)"] by (cases "?send b") (auto simp: go_Done_iffs)
    qed
    have "T (ctx_ext c1) = T (ctx_ext c)"
    proof (cases "b \<noteq> 0 \<or> bank_GetWeiBalance k (ctx_ext c) ?a \<noteq> 0")
      case True
      with step(1) have "ctx_bank ''failed to send atabisurplus to coinbase account'' c
          (SendCoinsAndWei k (ctx_ext c) ?a coinbase b (bank_GetWeiBalance k (ctx_ext c) ?a)) = ([], c1)"
        by (simp only: if_True)
      from ctx_bank_Done [OF this] assms(2) show ?thesis by (simp add: send_law_def)
    qed (use step(1) in simp)
    moreover have "surplus' = surplus + s" using step(3) NewInt_Done [OF assms(1)] by (simp add: sdk_Int_Add_def)
    ultimately show ?thesis using Cons.IH [OF step(4)] step(2) False by simp
  qed
qed simp

lemma credit_surplus_supply:
  assumes "sdk_int_laws l" and "supply_laws k T" and "credit_surplus l k surplus c = Done ([], c')"
  shows "T (ctx_ext c') = T (ctx_ext c) + max 0 surplus"
proof (cases "surplus > 0")
  case True
  let ?m = "GetModuleAddress k ''evm''"
  let ?coins = "\<lambda>a. if a > 0 then ctx_bank ''failed to send atabisurplus to EVM module account'' c (AddCoins k (ctx_ext c) ?m a) else ([], c)"
  let ?wei = "\<lambda>c1 w. if w > 0 then ctx_bank ''failed to send wei surplus to EVM module account'' c1 (AddWei k (ctx_ext c1) ?m w) else ([], c1)"
  obtain a w where aw: "SplitAtabiWeiAmount l surplus = Done (a, w)"
    using assms(3) True by (auto simp: credit_surplus_def go_Done_iffs)
  obtain logs1 c1 logs2 c2' where c1: "?coins a = (logs1, c1)" and c2: "?wei c1 w = (logs2, c2')" by (metis surj_pair)
  have "Done (logs1 @ logs2, c2') = Done ([], c')"
    using assms(3) True unfolding credit_surplus_def aw go_bind_def Let_def go.case prod.case c1 c2 by simp
  then have c1: "?coins a = ([], c1)" and c2: "?wei c1 w = ([], c')" using c1 c2 by simp_all
  from Split_recombine [OF assms(1) aw] True have split: "1000000000000 * a + w = surplus" "0 \<le> a" "0 \<le> w" by auto
  have "T (ctx_ext c1) = T (ctx_ext c) + 1000000000000 * a"
  proof (cases "a > 0")
    case True
    then have "ctx_bank ''failed to send atabisurplus to EVM module account'' c (AddCoins k (ctx_ext c) ?m a) = ([], c1)" using c1 by simp
    from ctx_bank_Done [OF this] supply_lawsD(2) [OF assms(2)] show ?thesis by simp
  qed (use c1 split in auto)
  moreover have "T (ctx_ext c') = T (ctx_ext c1) + w"
  proof (cases "w > 0")
    case True
    then have "ctx_bank ''failed to send wei surplus to EVM module account'' c1 (AddWei k (ctx_ext c1) ?m w) = ([], c')" using c2 by simp
    from ctx_bank_Done [OF this] supply_lawsD(4) [OF assms(2)] show ?thesis by simp
  qed (use c2 split in auto)
  ultimately show ?thesis using split True by simp
qed (use assms(3) in \<open>auto simp: credit_surplus_def\<close>)

lemma EndBlock_loop_surplus:
  "EndBlock_loop l k coinbase infos surplus c = Done r \<Longrightarrow> i \<in> set infos \<Longrightarrow> \<not> failed_tx l i \<Longrightarrow> di_Surplus i \<noteq> None"
proof (induction infos arbitrary: surplus c r)
  case (Cons info infos)
  show ?case
  proof (cases "failed_tx l info")
    case True
    then show ?thesis using Cons.prems Cons.IH by (cases r rule: prod_cases3) (auto simp: Let_def)
  next
    case False
    obtain s surplus' c1 r' where "di_Surplus info = Some s" "EndBlock_loop l k coinbase infos surplus' c1 = Done r'"
      using Cons.prems(1) by (auto simp: False Let_def go_Done_iffs case_prod_unfold)
    then show ?thesis using Cons.prems(2,3) Cons.IH by (cases r' rule: prod_cases3) auto
  qed
qed simp

text \<open>When nothing is logged, the end of the block adds exactly the surplus of the block to the supply, or nothing when
  the surplus is negative.\<close>

lemma EndBlock_supply:
  assumes "sdk_int_laws l" and "supply_laws k T" and "send_law k T"
    and "EndBlock l e d ps k ic junk maxGas kb blockGasUsed c = Done ([], c')"
  obtains infos ante where "GetAllEVMTxDeferredInfo l e ic c kb = Done (infos, [])" "GetAnteSurplusSum l ic junk c = Done ante"
    "\<forall>i \<in> set infos. \<not> failed_tx l i \<longrightarrow> di_Surplus i \<noteq> None"
    "T (ctx_ext c') = T (ctx_ext c) + max 0 (ante + sum_list (map (\<lambda>i. the (di_Surplus i)) (filter (\<lambda>i. \<not> failed_tx l i) infos)))"
proof -
  obtain f c2 infos a r c3 c4 where
    c2: "AdjustDynamicBaseFeePerGas d ps (RemoveFirstNTxHashes c DefaultTxHashesToRemove) maxGas blockGasUsed = Done (f, c2)"
    and infos: "GetAllEVMTxDeferredInfo l e ic c2 kb = Done (infos, [])" and a: "GetAnteSurplusSum l ic junk c2 = Done a"
    and loop: "EndBlock_loop l k (GetModuleAddress k ''fee_collector'') infos a c2 = Done (r, [], c3)"
    and credit: "credit_surplus l k r c3 = Done ([], c4)" and c': "ctx_ext c' = ctx_ext c4"
    using assms(4) by (auto simp: EndBlock_def Let_def go_Done_iffs SetBlockBloom_def)
  have acc: "ctx_ext c2 = ctx_ext c" "TransientStore c2 = TransientStore c" using AdjustDynamic_access [OF c2] by simp_all
  have "GetAllEVMTxDeferredInfo_loop l e ic c2 rs n ms = GetAllEVMTxDeferredInfo_loop l e ic c rs n ms" for rs n ms
    by (induction ms arbitrary: n) (simp_all add: acc)
  then have "GetAllEVMTxDeferredInfo l e ic c kb = Done (infos, [])" using infos by (simp add: GetAllEVMTxDeferredInfo_def)
  moreover have "GetAnteSurplusSum l ic junk c = Done a" using a GetAnteSurplusSum_cong [OF acc(2)] by simp
  moreover have "\<forall>i \<in> set infos. \<not> failed_tx l i \<longrightarrow> di_Surplus i \<noteq> None" using EndBlock_loop_surplus [OF loop] by blast
  ultimately show thesis
    using that EndBlock_loop_supply [OF assms(1,3) loop] credit_surplus_supply [OF assms(1,2) credit] acc(1) c' by simp
qed

end
