(* ===== verification/Evm_Transient.thy ===== *)
theory Evm_Transient
  imports Evm_Module
begin

text \<open>
  Who writes to the transient store. The state database never does, so a transaction changes it only through its
  receipt and its deferred info, and the surpluses that the ante handlers left survive until the end of the block.
\<close>

section \<open>The state database leaves the transient store alone\<close>

definition tsame :: "'x DBImpl \<Rightarrow> 'x DBImpl \<Rightarrow> bool" where
  "tsame db db' \<longleftrightarrow> TransientStore (db_ctx db') = TransientStore (db_ctx db)"

named_theorems tsame_intros

lemma tsame_refl [simp]: "tsame db db"
  by (simp add: tsame_def)

lemma tsame_trans: "tsame a b \<Longrightarrow> tsame b c \<Longrightarrow> tsame a c"
  by (simp add: tsame_def)

lemma transient_deleteIfExists [simp]: "TransientStore (deleteIfExists p a c) = TransientStore c"
  by (simp add: deleteIfExists_def)

lemma transient_ctx_ops [simp]:
  "TransientStore (clearAccountState_ctx a c) = TransientStore c"
  "TransientStore (keeper_SetNonce c a n) = TransientStore c"
  "TransientStore (keeper_SetState c a s v) = TransientStore c"
  "TransientStore (DeleteAddressMapping c t a) = TransientStore c"
  "TransientStore (SetAddressMapping l k c t a) = TransientStore c"
  "TransientStore (keeper_SetCode l k c a code) = TransientStore c"
  "TransientStore (c\<lparr>cx_events := es\<rparr>) = TransientStore c"
  by (simp_all add: clearAccountState_ctx_def keeper_SetNonce_def keeper_SetState_def DeleteAddressMapping_def SetAddressMapping_def
      keeper_SetCode_def Let_def) (simp add: TransientStore_def)

lemma tsame_simple [tsame_intros]:
  "tsame db (CreateAccount l a db)"
  "tsame db (MarkAccount l a st db)"
  "tsame db (db_SetState a s v db)"
  "tsame db (SetTransientState l a s v db)"
  "tsame db (db_SetNonce a n db)"
  "tsame db (db_SetCode l k a code db)"
  "tsame db (AddLog lg db)"
  "tsame db (set_refund r db)"
  "tsame db (set_acl f db)"
  "tsame db (AddAddressToAccessList a db)"
  "tsame db (SetPrecompileError e db)"
  "tsame db (clearAccountState a db)"
  "tsame db (snd (Snapshot db))"
  by (auto simp: CreateAccount_def MarkAccount_def db_SetState_def SetTransientState_def db_SetNonce_def db_SetCode_def AddLog_def
      set_refund_def set_acl_def AddAddressToAccessList_def clearAccountState_def Let_def SetPrecompileError_def
      tsame_def set_cur_def)

lemma tsame_bank_call [simp]: "TransientStore (db_ctx (snd (bank_call db r))) = TransientStore (db_ctx db)"
  by (simp add: bank_call_def split: prod.splits)

lemma tsame_balance [tsame_intros]:
  "SubBalance l k a amt db = Done db' \<Longrightarrow> tsame db db'"
  "AddBalance l k a amt db = Done db' \<Longrightarrow> tsame db db'"
proof -
  have "tsame db db'" if "SubBalance_pos l k a n db = Done db'" for n
    using that by (auto simp: SubBalance_pos_def case_prod_unfold Let_def go_Done_iffs tsame_def set_cur_def split: if_splits)
  moreover have "tsame db db'" if "AddBalance_pos l k a n db = Done db'" for n
    using that by (auto simp: AddBalance_pos_def case_prod_unfold Let_def go_Done_iffs tsame_def set_cur_def split: if_splits)
  ultimately show "SubBalance l k a amt db = Done db' \<Longrightarrow> tsame db db'" "AddBalance l k a amt db = Done db' \<Longrightarrow> tsame db db'"
    by (auto simp: SubBalance_def AddBalance_def split: if_splits)
qed

lemma tsame_Transfer [tsame_intros]: "TransferWithoutEvents l k a b n db = Done db' \<Longrightarrow> tsame db db'"
  using tsame_balance by (fastforce simp: TransferWithoutEvents_def go_Done_iffs tsame_def DisableEvents_def EnableEvents_def)

lemma tsame_SelfDestruct [tsame_intros]: "SelfDestruct l k a db = Done db' \<Longrightarrow> tsame db db'"
  using tsame_balance(1) by (fastforce simp: SelfDestruct_def MarkAccount_def set_cur_def Let_def go_Done_iffs tsame_def split: option.splits)

lemma tsame_others [tsame_intros]:
  "Selfdestruct6780 l k a db = Done db' \<Longrightarrow> tsame db db'"
  "AddRefund g db = Done db' \<Longrightarrow> tsame db db'"
  "SubRefund g db = Done db' \<Longrightarrow> tsame db db'"
  "AddSlotToAccessList a s db = Done db' \<Longrightarrow> tsame db db'"
  by (auto simp: Selfdestruct6780_def AddRefund_def SubRefund_def AddSlotToAccessList_def Let_def go_Done_iffs
      intro: tsame_SelfDestruct tsame_simple split: if_splits)

lemma tsame_Prepare_slots: "Prepare_slots a ks db = Done db' \<Longrightarrow> tsame db db'"
  by (induction ks arbitrary: db) (auto simp: go_Done_iffs dest!: tsame_others(4) simp: tsame_def)

lemma tsame_Prepare_accesses: "Prepare_accesses els db = Done db' \<Longrightarrow> tsame db db'"
proof (induction els arbitrary: db)
  case (Cons el els)
  obtain a ks where el: "el = (a, ks)" by fastforce
  then obtain db1 where "Prepare_slots a ks (AddAddressToAccessList a db) = Done db1" "Prepare_accesses els db1 = Done db'"
    using Cons.prems by (auto simp: go_Done_iffs)
  then have "tsame (AddAddressToAccessList a db) db1" "tsame db1 db'" using Cons.IH tsame_Prepare_slots by blast+
  with tsame_simple(10) show ?case by (blast intro: tsame_trans)
qed simp

lemma tsame_precompiles:
  "tsame db (fold (\<lambda>addr db. if addr \<ge> CustomPrecompileStartingAddr \<and> \<not> cx_IsTracing (db_ctx db) then db
                       else AddAddressToAccessList addr db) ps db)"
proof (induction ps arbitrary: db)
  case (Cons p ps)
  have "tsame db (if p \<ge> CustomPrecompileStartingAddr \<and> \<not> cx_IsTracing (db_ctx db) then db else AddAddressToAccessList p db)"
    by (simp add: tsame_simple)
  from tsame_trans [OF this Cons.IH] show ?case by simp
qed simp

lemma tsame_Prepare [tsame_intros]:
  assumes "Prepare s c d ps al db = Done db'"
  shows "tsame db db'"
proof -
  let ?d1 = "AddAddressToAccessList s (snd (Snapshot db))"
  let ?d2 = "case d of None \<Rightarrow> ?d1 | Some a \<Rightarrow> AddAddressToAccessList a ?d1"
  let ?d3 = "fold (\<lambda>addr db. if addr \<ge> CustomPrecompileStartingAddr \<and> \<not> cx_IsTracing (db_ctx db) then db
      else AddAddressToAccessList addr db) ps ?d2"
  obtain d4 where "Prepare_accesses al ?d3 = Done d4" "db' = AddAddressToAccessList c d4"
    using assms by (auto simp: Prepare_def Let_def go_Done_iffs)
  then have "tsame ?d3 d4" "tsame d4 db'" by (auto intro: tsame_Prepare_accesses tsame_simple)
  moreover have "tsame db ?d1" by (rule tsame_trans [OF tsame_simple(13) tsame_simple(10)])
  moreover have "tsame ?d1 ?d2" by (auto intro: tsame_simple split: option.splits)
  moreover have "tsame ?d2 ?d3" by (rule tsame_precompiles)
  ultimately show ?thesis by (blast intro: tsame_trans)
qed

lemma tsame_step: "db_step l k op db = Done db' \<Longrightarrow> \<forall>r. op \<noteq> OpRevertToSnapshot r \<Longrightarrow> tsame db db'"
  by (cases op) (auto intro: tsame_intros)

lemma tsame_finalize_layers: "finalize_layers l k rng ts db = Done db' \<Longrightarrow> tsame db db'"
  by (rule finalize_layers_rel [where R = tsame]) (auto intro: tsame_trans tsame_intros)

text \<open>Every context of a database has the transient store of the context it was created on, which stays at the base.\<close>

definition transient_ok :: "'x ctx \<Rightarrow> 'x DBImpl \<Rightarrow> bool" where
  "transient_ok c db \<longleftrightarrow>
     db_snapshottedCtxs db \<noteq> [] \<and> hd (db_snapshottedCtxs db) = c \<and> TransientStore (db_ctx db) = TransientStore c \<and>
     (\<forall>s \<in> set (db_snapshottedCtxs db). TransientStore s = TransientStore c)"

lemma transient_ok_reachable: "db_reachable l k c sim db \<Longrightarrow> transient_ok c db"
proof (induction rule: db_reachable.induct)
  case new
  then show ?case by (simp add: NewDBImpl_def Let_def transient_ok_def)
next
  case (step db op db')
  show ?case
  proof (cases "\<exists>r. op = OpRevertToSnapshot r")
    case True
    then obtain r where rv: "RevertToSnapshot r db = Done db'" using step.hyps(2) by auto
    then have r: "r < length (db_snapshottedCtxs db)" by (simp add: RevertToSnapshot_def split: if_splits)
    have s: "db_snapshottedCtxs db' = take (Suc r) (db_snapshottedCtxs db)" "TransientStore (db_ctx db') = TransientStore (db_snapshottedCtxs db ! r)"
      using rv by (auto simp: RevertToSnapshot_def take_Suc_conv_app_nth split: if_splits)
    have "TransientStore (db_snapshottedCtxs db ! r) = TransientStore c" using step.IH r by (simp add: transient_ok_def)
    with s step.IH show ?thesis by (auto simp: transient_ok_def dest: in_set_takeD)
  next
    case False
    then have ts: "TransientStore (db_ctx db') = TransientStore c"
      using tsame_step [OF step.hyps(2)] step.IH by (simp add: tsame_def transient_ok_def)
    from step.hyps(2) show ?thesis
    proof (cases rule: db_step_frames)
      case local
      then show ?thesis using ts step.IH by (simp add: transient_ok_def frames_def)
    next
      case branch
      then show ?thesis using ts step.IH by (auto simp: transient_ok_def frames_def)
    next
      case (revert r)
      then show ?thesis using False by blast
    qed
  qed
qed

lemma Finalize_transient:
  assumes "db_reachable l k c sim db" and "Finalize l k rng db = Done ((Some sp, None), db')"
  shows "TransientStore (base_ctx db') = TransientStore c" and "cx_TxIndex (base_ctx db') = cx_TxIndex c"
    and "cx_BlockHeight (base_ctx db') = cx_BlockHeight c"
proof -
  obtain db1 b rest where fin: "finalize_layers l k rng (db_tempStateCurrent db # db_tempStatesHist db) db = Done db1"
    and snap1: "db_snapshottedCtxs db1 = b # rest"
    and snap: "db_snapshottedCtxs db' = EmitEvents (concat (map cx_events rest) @ cx_events (db_ctx db1)) (b\<lparr>cx_ms := cx_ms (db_ctx db1)\<rparr>)
      # map (\<lambda>c. c\<lparr>cx_ms := cx_ms (db_ctx db1)\<rparr>) rest"
    by (rule Finalize_Done [OF assms(2)]) blast
  have "db_snapshottedCtxs db = b # rest" using frames_finalize_layers [OF fin] snap1 by (simp add: frames_def)
  then have "b = c" "TransientStore (db_ctx db1) = TransientStore c"
    using transient_ok_reachable [OF assms(1)] tsame_finalize_layers [OF fin] by (simp_all add: transient_ok_def tsame_def)
  with snap show "TransientStore (base_ctx db') = TransientStore c" "cx_TxIndex (base_ctx db') = cx_TxIndex c"
    "cx_BlockHeight (base_ctx db') = cx_BlockHeight c"
    by (simp_all add: base_ctx_def) (simp add: TransientStore_def)
qed

section \<open>Iterators and writes elsewhere\<close>

lemma prefix_iterator_set_other: "\<not> prefix p key \<Longrightarrow> prefix_iterator (kv_set s key v) p = prefix_iterator s p"
  unfolding prefix_iterator_def by (induction s) auto

lemma prefix_iterator_delete_other: "\<not> prefix p key \<Longrightarrow> prefix_iterator (kv_delete s key) p = prefix_iterator s p"
  unfolding prefix_iterator_def kv_delete_def by (induction s) auto

end
