(* ===== verification/Evm_Ante.thy ===== *)
theory Evm_Ante
  imports Helpers_Associate Helpers_Address Keeper_Nonce Evm_Transient
begin

text \<open>
  \<open>x/evm/ante\<close>: the handlers that a transaction passes before its message runs, with the order in which \<open>app/ante.go\<close>
  chains them. A decorator is a function of the context, the transaction and the rest of the chain. Its result has the
  transaction, because \<open>Preprocess\<close> writes the sender it recovered into the message. An error of the Cosmos SDK or of
  go-ethereum is named by its variable. The context of a handler is \<open>sdk.Context\<close> with the fields that the handlers set;
  a callback that a handler leaves in the context is a function. The replay of Ethereum blocks and block tests are off;
  log lines and metrics are left out.
\<close>

section \<open>Contexts\<close>

datatype gas_meter = InfiniteGasMeter | GasMeter uint64

datatype PendingTxCheckerResponse = Accepted | Rejected | Pending

record 'x ante_ctx =
  ac_ctx :: "'x ctx"
  ac_env :: tx_env
  ac_IsCheckTx :: bool
  ac_IsReCheckTx :: bool
  ac_TxBytes :: bytes
  ac_Priority :: int64
  ac_GasMeter :: gas_meter
  ac_GasEstimate :: uint64
  ac_EVMNonce :: uint64
  ac_EVMSenderAddress :: string
  ac_EVMTxHash :: string
  ac_DeliverTxCallback :: "('x ctx \<Rightarrow> 'x ctx go) option"
  ac_CheckTxCallback :: "(int64 \<Rightarrow> error \<Rightarrow> nonce_pool \<Rightarrow> nonce_pool) option"
  ac_ExpireTxHandler :: "(nonce_pool \<Rightarrow> nonce_pool) option"
  ac_PendingTxChecker :: "('x ctx \<Rightarrow> nonce_pool \<Rightarrow> PendingTxCheckerResponse option go) option"

type_synonym 'x ante_result = "(error \<times> 'x ante_ctx \<times> sdk_Tx) go"

type_synonym 'x AnteHandler = "'x ante_ctx \<Rightarrow> sdk_Tx \<Rightarrow> bool \<Rightarrow> 'x ante_result"

text \<open>Functions of go-ethereum and Tendermint. \<open>signer_Hash\<close> is the hash of the signer of a version for a chain ID;
  \<open>StatelessChecks\<close> and \<open>BuyGas\<close> are those of a state transition on the database. \<open>ParsePubKey\<close> is that of btcec, with
  \<open>SerializeUncompressed\<close>.\<close>

record 'x ante_funs =
  IsCancun :: "params_ChainConfig \<Rightarrow> int \<Rightarrow> uint64 \<Rightarrow> bool"
  signer_Hash :: "SignerVersion \<Rightarrow> bigint \<Rightarrow> eth_Transaction \<Rightarrow> hash"
  FrontierSigner_Hash :: "eth_Transaction \<Rightarrow> hash"
  tx_Protected :: "eth_Transaction \<Rightarrow> bool"
  tx_Cost :: "eth_Transaction \<Rightarrow> int go"
  IntrinsicGas :: "bytes \<Rightarrow> eth_AccessTuple list \<Rightarrow> bool \<Rightarrow> bool \<Rightarrow> bool \<Rightarrow> bool \<Rightarrow> string + uint64"
  CalcBlobFee :: "uint64 \<Rightarrow> int"
  StatelessChecks :: "'x BlockContext \<Rightarrow> params_ChainConfig \<Rightarrow> core_Message \<Rightarrow> 'x DBImpl \<Rightarrow> error go"
  BuyGas :: "'x BlockContext \<Rightarrow> params_ChainConfig \<Rightarrow> core_Message \<Rightarrow> 'x DBImpl \<Rightarrow> (error \<times> 'x DBImpl) go"
  tm_Key :: "bytes \<Rightarrow> bytes"
  ParsePubKey :: "bytes \<Rightarrow> string + bytes"

section \<open>Preprocessing: the sender\<close>

fun AllowedTxTypes :: "SignerVersion \<Rightarrow> uint8 list" where
  "AllowedTxTypes London = [LegacyTxType, AccessListTxType, DynamicFeeTxType]"
| "AllowedTxTypes Cancun = [LegacyTxType, AccessListTxType, DynamicFeeTxType, BlobTxType]"

definition isTxTypeAllowed :: "SignerVersion \<Rightarrow> uint8 \<Rightarrow> bool" where
  "isTxTypeAllowed version txType = list_ex (\<lambda>t. t = txType) (AllowedTxTypes version)"

definition AdjustV :: "int \<Rightarrow> uint8 \<Rightarrow> bigint \<Rightarrow> int go" where
  "AdjustV V txType chainID =
     (if txType \<noteq> LegacyTxType then Done (V + 27)
      else deref chainID (\<lambda>c. Done (V - c * 2 - 8)))"

definition GetVersion :: "'x ante_funs \<Rightarrow> 'x ante_ctx \<Rightarrow> params_ChainConfig \<Rightarrow> SignerVersion" where
  "GetVersion af a ethCfg =
     (if IsCancun af ethCfg (sint (cx_BlockHeight (ac_ctx a))) (te_HeaderTime_Unix (ac_env a)) then Cancun else London)"

text \<open>The signature and the hash that the sender is recovered from.\<close>

definition signed_parts :: "'x ante_funs \<Rightarrow> SignerVersion \<Rightarrow> params_ChainConfig \<Rightarrow> eth_Transaction \<Rightarrow> (int \<times> int \<times> int \<times> hash) go" where
  "signed_parts af version ethCfg ethTx =
     deref (tx_R ethTx) (\<lambda>R. deref (tx_S ethTx) (\<lambda>S. deref (tx_V ethTx) (\<lambda>V.
     if tx_Protected af ethTx
     then go_bind (AdjustV V (tx_Type ethTx) (pc_ChainID ethCfg)) (\<lambda>V'. Done (V', R, S, signer_Hash af version (tx_ChainId ethTx) ethTx))
     else Done (V, R, S, FrontierSigner_Hash af ethTx))))"

definition Preprocess ::
    "lib \<Rightarrow> eth_funs \<Rightarrow> sig_lib \<Rightarrow> int_codec \<Rightarrow> 'x ante_funs \<Rightarrow> 'x ante_ctx \<Rightarrow> MsgEVMTransaction \<Rightarrow> (error \<times> MsgEVMTransaction) go" where
  "Preprocess l e sg ic af a msg =
     (case me_Derived msg of
        Some dv \<Rightarrow> Done (if dv_PubKey dv = None then Some ''ErrInvalidPubKey'' else None, msg)
      | None \<Rightarrow>
          (case UnpackTxData ic (me_Data msg) of
             Inl err \<Rightarrow> Done (Some err, msg)
           | Inr (TxAssociate atx) \<Rightarrow>
               (case TxData_GetRawSignatureValues (TxAssociate atx) of (V, R, S) \<Rightarrow>
                  go_bind (GetAddresses l sg (V + 27) R S (Keccak256 l (str_bytes (as_CustomMessage atx)))) (\<lambda>r.
                  case r of
                    Inl err \<Rightarrow> Done (Some err, msg)
                  | Inr (evmAddr, tabiAddr, pubkey) \<Rightarrow>
                      Done (None, msg\<lparr>me_Derived := Some \<lparr>dv_SenderEVMAddr = evmAddr, dv_SenderTabiAddr = tabiAddr, dv_PubKey = Some pubkey,
                                                           dv_IsAssociate = True, dv_Version = Cancun\<rparr>\<rparr>)))
           | Inr txData \<Rightarrow>
               go_bind (TxData_AsEthereumData l txData) (\<lambda>data.
               let ethTx = NewTx e data;
                   ethCfg = EthereumConfig DefaultChainConfig (tx_ChainId ethTx);
                   version = GetVersion af a ethCfg in
               if \<not> isTxTypeAllowed version (tx_Type ethTx) then Done (Some ''ErrInvalidChainId'', msg)
               else
                 go_bind (signed_parts af version ethCfg ethTx) (\<lambda>(V, R, S, txHash).
                 go_bind (GetAddresses l sg V R S txHash) (\<lambda>r.
                 case r of
                   Inl err \<Rightarrow> Done (Some err, msg)
                 | Inr (evmAddr, tabiAddr, pubkey) \<Rightarrow>
                     Done (None, msg\<lparr>me_Derived := Some \<lparr>dv_SenderEVMAddr = evmAddr, dv_SenderTabiAddr = tabiAddr, dv_PubKey = Some pubkey,
                                                          dv_IsAssociate = False, dv_Version = version\<rparr>\<rparr>))))))"

definition EVMAssociatePriority :: int64 where "EVMAssociatePriority = 9223372036854775706"
definition MaxPriority :: int where "MaxPriority = 9223372036854774807"

definition EventTypeSigner :: string where "EventTypeSigner = ''signer''"

definition signer_event :: "lib \<Rightarrow> address option \<Rightarrow> bytes \<Rightarrow> event" where
  "signer_event l evmAddr tabiAddr =
     (EventTypeSigner, (case evmAddr of Some a \<Rightarrow> [(AttributeKeyEvmAddress, addr_Hex l a)] | None \<Rightarrow> []) @ [(AttributeKeyTabiAddress, AccAddress_String l tabiAddr)])"

definition IsAccountBalancePositive :: "'x keepers \<Rightarrow> 'x ctx \<Rightarrow> bytes \<Rightarrow> address \<Rightarrow> bool" where
  "IsAccountBalancePositive k c tabiAddr evmAddr =
     (if bank_GetBalance k (ctx_ext c) tabiAddr > 0 then True
      else if bank_GetBalance k (ctx_ext c) evmAddr > 0 then True
      else if bank_GetWeiBalance k (ctx_ext c) tabiAddr > 0 then True
      else bank_GetWeiBalance k (ctx_ext c) evmAddr > 0)"

definition EVMPreprocessDecorator ::
    "lib \<Rightarrow> eth_funs \<Rightarrow> sig_lib \<Rightarrow> int_codec \<Rightarrow> 'x keepers \<Rightarrow> 'x auth_keeper \<Rightarrow> 'x ante_funs \<Rightarrow> 'x AnteHandler \<Rightarrow> 'x AnteHandler" where
  "EVMPreprocessDecorator l e sg ic k ak af next a tx simulate =
     go_bind (MustGetEVMTransactionMessage tx) (\<lambda>msg.
     go_bind (Preprocess l e sg ic af a msg) (\<lambda>(err, msg1).
     let tx1 = [SdkEVM msg1] in
     if err \<noteq> None then Done (err, a, tx1)
     else
       deref (me_Derived msg1) (\<lambda>dv.
       let c = EmitEvents [signer_event l (Some (dv_SenderEVMAddr dv)) (dv_SenderTabiAddr dv)] (ac_ctx a);
           a1 = a\<lparr>ac_GasMeter := InfiniteGasMeter, ac_ctx := c\<rparr>;
           isAssociated = (GetEVMAddress c (dv_SenderTabiAddr dv) \<noteq> None) in
       if dv_IsAssociate dv \<and> isAssociated then Done (Some ''account already has association set'', a1, tx1)
       else if dv_IsAssociate dv then
         if \<not> IsAccountBalancePositive k c (dv_SenderTabiAddr dv) (dv_SenderEVMAddr dv)
         then Done (Some ''account needs to have a positive balance to force association'', a1, tx1)
         else
           go_bind (AssociateAddresses l k ak c (dv_SenderTabiAddr dv) (dv_SenderEVMAddr dv) (dv_PubKey dv)) (\<lambda>(err2, c2).
           if err2 \<noteq> None then Done (err2, a1\<lparr>ac_ctx := c2\<rparr>, tx1)
           else Done (None, a1\<lparr>ac_ctx := c2, ac_Priority := EVMAssociatePriority\<rparr>, tx1))
       else if isAssociated then next a1 tx1 simulate
       else
         go_bind (AssociateAddresses l k ak c (dv_SenderTabiAddr dv) (dv_SenderEVMAddr dv) (dv_PubKey dv)) (\<lambda>(err2, c2).
         if err2 \<noteq> None then Done (err2, a1\<lparr>ac_ctx := c2\<rparr>, tx1)
         else next (a1\<lparr>ac_ctx := c2\<rparr>) tx1 simulate))))"

section \<open>Basic checks\<close>

text \<open>The callback that \<open>BasicDecorator\<close> leaves: after the transaction it moves the nonce on if nothing else has.\<close>

definition bump_nonce :: "address \<Rightarrow> uint64 \<Rightarrow> 'x ctx \<Rightarrow> 'x ctx go" where
  "bump_nonce addr startingNonce callCtx =
     go_bind (keeper_GetNonce callCtx addr) (\<lambda>n.
     Done (if n = startingNonce then keeper_SetNonce callCtx addr (startingNonce + 1) else callCtx))"

definition BasicDecorator ::
    "lib \<Rightarrow> eth_funs \<Rightarrow> int_codec \<Rightarrow> 'x ante_funs \<Rightarrow> 'x AnteHandler \<Rightarrow> 'x AnteHandler" where
  "BasicDecorator l e ic af next a tx simulate =
     go_bind (MustGetEVMTransactionMessage tx) (\<lambda>msg.
     go_bind (AsTransaction l e ic msg) (\<lambda>etx0.
     go_bind (case me_Derived msg of
         None \<Rightarrow> Done a
       | Some dv \<Rightarrow>
           go_bind (keeper_GetNonce (ac_ctx a) (dv_SenderEVMAddr dv)) (\<lambda>startingNonce.
           deref etx0 (\<lambda>(etx, _).
           Done (if \<not> ac_IsCheckTx a \<and> \<not> ac_IsReCheckTx a \<and> startingNonce = tx_Nonce etx
                 then a\<lparr>ac_DeliverTxCallback := Some (bump_nonce (dv_SenderEVMAddr dv) startingNonce)\<rparr> else a)))) (\<lambda>a1.
     deref etx0 (\<lambda>(etx, _).
     if tx_To etx = None \<and> length (tx_Data etx) > MaxInitCodeSize then Done (Some ''ErrMaxInitCodeSizeExceeded'', a1, tx)
     else
       deref (tx_Value etx) (\<lambda>v.
       if v < 0 then Done (Some ''ErrInvalidCoins'', a1, tx)
       else
         case IntrinsicGas af (tx_Data etx) (tx_AccessList etx) (tx_To etx = None) True True True of
           Inl err \<Rightarrow> Done (Some err, a1, tx)
         | Inr intrGas \<Rightarrow>
             if tx_Gas etx < intrGas then Done (Some ''ErrOutOfGas'', a1, tx)
             else if tx_Type etx = BlobTxType then Done (Some ''ErrUnsupportedTxType'', a1, tx)
             else if (case te_MaxGas (ac_env a1) of Some maxGas \<Rightarrow> sint maxGas > 0 \<and> tx_Gas etx > maxGas | None \<Rightarrow> False)
             then Done (Some ''tx gas limit exceeds block max gas'', a1, tx)
             else next a1 tx simulate)))))"

section \<open>Fees\<close>

definition getBaseFee :: "dec_funs \<Rightarrow> 'x param_store \<Rightarrow> 'x ctx \<Rightarrow> int go" where
  "getBaseFee d ps c = deref (GetBaseFeePerGas ps c) (\<lambda>f. Done (Dec_TruncateInt d f))"

definition getMinimumFee :: "dec_funs \<Rightarrow> 'x param_store \<Rightarrow> 'x ctx \<Rightarrow> int go" where
  "getMinimumFee d ps c = deref (GetMinimumFeePerGas ps c) (\<lambda>f. Done (Dec_TruncateInt d f))"

definition CalculatePriority :: "dec_funs \<Rightarrow> 'x param_store \<Rightarrow> 'x ctx \<Rightarrow> TxData \<Rightarrow> int go" where
  "CalculatePriority d ps c txData =
     go_bind (TxData_EffectiveGasPrice (Some 0) txData) (\<lambda>gp0.
     deref gp0 (\<lambda>gp.
     deref (GetPriorityNormalizer ps c) (\<lambda>normalizer.
     go_bind (Dec_Quo d (gp * dec_one) normalizer) (\<lambda>q.
     let priority = Dec_TruncateInt d q in
     Done (if priority > MaxPriority then MaxPriority else priority)))))"

text \<open>The comparison of the fees that a transaction offers with those the chain asks for: an error, or nothing.\<close>

definition check_fee_caps :: "dec_funs \<Rightarrow> 'x param_store \<Rightarrow> 'x ante_funs \<Rightarrow> 'x ctx \<Rightarrow> SignerVersion \<Rightarrow> TxData \<Rightarrow> error go" where
  "check_fee_caps d ps af c ver txData =
     go_bind (TxData_GetGasFeeCap txData) (\<lambda>cap0.
     go_bind (getBaseFee d ps c) (\<lambda>baseFee. deref cap0 (\<lambda>feeCap.
     if feeCap < baseFee then Done (Some ''ErrInsufficientFee'')
     else
       go_bind (getMinimumFee d ps c) (\<lambda>minimumFee.
       if feeCap < minimumFee then Done (Some ''ErrInsufficientFee'')
       else
         go_bind (TxData_GetGasTipCap txData) (\<lambda>tip0. deref tip0 (\<lambda>tipCap.
         if tipCap < 0 then Done (Some ''gas fee cap cannot be negative'')
         else if ver = Cancun then
           go_bind (TxData_GetBlobHashes txData) (\<lambda>hashes.
           if length hashes > 0 then
             go_bind (TxData_GetBlobFeeCap txData) (\<lambda>bcap0. deref bcap0 (\<lambda>blobFeeCap.
             Done (if blobFeeCap < CalcBlobFee af 0 then Some ''ErrInsufficientFee'' else None)))
           else Done None)
         else Done None))))))"

text \<open>The charge for the gas: the context and an error. In \<open>CheckTx\<close> the database is dropped.\<close>

definition charge_gas ::
    "lib \<Rightarrow> eth_funs \<Rightarrow> dec_funs \<Rightarrow> 'x param_store \<Rightarrow> 'x keepers \<Rightarrow> int_codec \<Rightarrow> ('x, 'p) evm_funs \<Rightarrow> 'x ante_funs \<Rightarrow> map_order \<Rightarrow> 'x ante_ctx \<Rightarrow>
     eth_Transaction \<Rightarrow> address \<Rightarrow> (error \<times> 'x ctx) go" where
  "charge_gas l e d ps k ic evm af rng a etx sender =
     (let c = ac_ctx a; check = (ac_IsCheckTx a \<or> ac_IsReCheckTx a) in
      go_bind (GetEVMMessage c etx sender) (\<lambda>emsg.
      let stateDB = NewDBImpl k c False in
      go_bind (GetVMBlockContext l k d ps evm (ac_env a) c) (\<lambda>blockCtx.
      case blockCtx of
        Inl err \<Rightarrow> Done (Some err, c)
      | Inr bc \<Rightarrow>
          let cfg = EthereumConfig DefaultChainConfig (Some (keeper_ChainID c)) in
          go_bind (if check then Done None else StatelessChecks af bc cfg emsg stateDB) (\<lambda>err.
          if err \<noteq> None then Done (Some (''ErrWrongSequence: '' @ the err), c)
          else
            go_bind (BuyGas af bc cfg emsg stateDB) (\<lambda>(err, db1).
            if err \<noteq> None then Done (Some (''ErrInsufficientFunds: '' @ the err), c)
            else if check then Done (None, c)
            else
              go_bind (Finalize l k rng db1) (\<lambda>((surplus, ferr), db2).
              if ferr \<noteq> None then Done (ferr, c)
              else Done (AddAnteSurplus ic (base_ctx db2) (tx_Hash e etx) surplus)))))))"

definition EVMFeeCheckDecorator ::
    "lib \<Rightarrow> eth_funs \<Rightarrow> dec_funs \<Rightarrow> 'x param_store \<Rightarrow> 'x keepers \<Rightarrow> int_codec \<Rightarrow> ('x, 'p) evm_funs \<Rightarrow> 'x ante_funs \<Rightarrow> map_order \<Rightarrow>
     'x AnteHandler \<Rightarrow> 'x AnteHandler" where
  "EVMFeeCheckDecorator l e d ps k ic evm af rng next a tx simulate =
     (if simulate then next a tx simulate
      else
        go_bind (MustGetEVMTransactionMessage tx) (\<lambda>msg.
        case UnpackTxData ic (me_Data msg) of
          Inl err \<Rightarrow> Done (Some err, a, tx)
        | Inr txData \<Rightarrow>
            deref (me_Derived msg) (\<lambda>dv.
            go_bind (check_fee_caps d ps af (ac_ctx a) (dv_Version dv) txData) (\<lambda>err.
            if err \<noteq> None then Done (err, a, tx)
            else
              go_bind (AsTransaction l e ic msg) (\<lambda>etx0. deref etx0 (\<lambda>(etx, _).
              go_bind (charge_gas l e d ps k ic evm af rng a etx (dv_SenderEVMAddr dv)) (\<lambda>(err, c1).
              if err \<noteq> None then Done (err, a\<lparr>ac_ctx := c1\<rparr>, tx)
              else
                go_bind (CalculatePriority d ps c1 txData) (\<lambda>priority.
                next (a\<lparr>ac_ctx := c1, ac_Priority := word_of_int priority\<rparr>) tx simulate))))))))"

section \<open>Chain ID and nonce\<close>

definition hasSufficientBalance :: "lib \<Rightarrow> 'x keepers \<Rightarrow> 'x ante_funs \<Rightarrow> 'x ctx \<Rightarrow> address \<Rightarrow> eth_Transaction \<Rightarrow> bool go" where
  "hasSufficientBalance l k af c evmAddr etx =
     go_bind (keeper_GetBalance l k c (GetTabiAddressOrDefault c evmAddr)) (\<lambda>balanceWei.
     go_bind (tx_Cost af etx) (\<lambda>maxCostWei. Done (balanceWei \<ge> maxCostWei)))"

text \<open>The checker for a pending transaction, on the latest context and the pool of nonces at the time it is called. The
  result is \<open>None\<close> when the search for the next nonce does not end.\<close>

definition pending_checker ::
    "lib \<Rightarrow> 'x keepers \<Rightarrow> 'x ante_funs \<Rightarrow> address \<Rightarrow> eth_Transaction \<Rightarrow> 'x ctx \<Rightarrow> nonce_pool \<Rightarrow> PendingTxCheckerResponse option go" where
  "pending_checker l k af evmAddr etx latestCtx pool =
     go_bind (keeper_GetNonce latestCtx evmAddr) (\<lambda>nextNonceToBeMined.
     go_bind (CalculateNextNonce l pool latestCtx evmAddr True) (\<lambda>r.
     case r of
       None \<Rightarrow> Done None
     | Some nextPendingNonce \<Rightarrow>
         if tx_Nonce etx < nextNonceToBeMined then Done (Some Rejected)
         else if tx_Nonce etx < nextPendingNonce then
           go_bind (hasSufficientBalance l k af latestCtx evmAddr etx) (\<lambda>enough.
           Done (Some (if \<not> enough then Pending else Accepted)))
         else Done (Some Pending)))"

definition chain_id_matches :: "int \<Rightarrow> eth_Transaction \<Rightarrow> bool go" where
  "chain_id_matches chainID etx =
     deref (tx_ChainId etx) (\<lambda>txChainID.
     Done (if tx_Type etx = LegacyTxType then txChainID = 0 \<or> txChainID = chainID else txChainID = chainID))"

definition EVMSigVerifyDecorator ::
    "lib \<Rightarrow> eth_funs \<Rightarrow> 'x keepers \<Rightarrow> int_codec \<Rightarrow> 'x ante_funs \<Rightarrow> 'x AnteHandler \<Rightarrow> 'x AnteHandler" where
  "EVMSigVerifyDecorator l e k ic af next a tx simulate =
     go_bind (MustGetEVMTransactionMessage tx) (\<lambda>msg.
     go_bind (AsTransaction l e ic msg) (\<lambda>etx0.
     deref (me_Derived msg) (\<lambda>dv.
     let evmAddr = dv_SenderEVMAddr dv in
     go_bind (keeper_GetNonce (ac_ctx a) evmAddr) (\<lambda>nextNonce.
     deref etx0 (\<lambda>(etx, _).
     let txNonce = tx_Nonce etx;
         a1 = a\<lparr>ac_env := (ac_env a)\<lparr>te_IsEVM := True\<rparr>, ac_EVMNonce := txNonce, ac_EVMSenderAddress := addr_Hex l evmAddr,
                ac_EVMTxHash := hash_Hex l (tx_Hash e etx)\<rparr> in
     go_bind (chain_id_matches (keeper_ChainID (ac_ctx a)) etx) (\<lambda>ok.
     if \<not> ok then Done (Some ''ErrInvalidChainID'', a1, tx)
     else if ac_IsCheckTx a then
       if txNonce < nextNonce then Done (Some ''ErrWrongSequence'', a1, tx)
       else
         let txKey = tm_Key af (ac_TxBytes a);
             a2 = a1\<lparr>ac_CheckTxCallback := Some (\<lambda>priority err pool. if err \<noteq> None then pool else AddPendingNonce l pool txKey evmAddr txNonce priority),
                     ac_ExpireTxHandler := Some (\<lambda>pool. RemovePendingNonce l pool txKey)\<rparr>;
             a3 = (if txNonce > nextNonce then a2\<lparr>ac_PendingTxChecker := Some (pending_checker l k af evmAddr etx)\<rparr> else a2) in
         next a3 tx simulate
     else if txNonce \<noteq> nextNonce then Done (Some ''ErrWrongSequence'', a1, tx)
     else next a1 tx simulate))))))"

section \<open>Gas\<close>

definition MinGasEVMTx :: uint64 where "MinGasEVMTx = 21000"

text \<open>\<open>estimate\<close> is the gas estimate of the transaction.\<close>

definition GasDecorator ::
    "dec_funs \<Rightarrow> 'x param_store \<Rightarrow> int_codec \<Rightarrow> uint64 \<Rightarrow> 'x AnteHandler \<Rightarrow> 'x AnteHandler" where
  "GasDecorator d ps ic estimate next a tx simulate =
     go_bind (MustGetEVMTransactionMessage tx) (\<lambda>msg.
     case UnpackTxData ic (me_Data msg) of
       Inl err \<Rightarrow> Done (Some err, a, tx)
     | Inr txData \<Rightarrow>
         deref (GetPriorityNormalizer ps (ac_ctx a)) (\<lambda>normalizer.
         go_bind (TxData_GetGas txData) (\<lambda>gas.
         go_bind (Dec_MulInt64 d normalizer gas) (\<lambda>adjustedGasLimit.
         go_bind (Int_Uint64 (Dec_TruncateInt d adjustedGasLimit)) (\<lambda>limit.
         next (a\<lparr>ac_GasMeter := GasMeter limit, ac_GasEstimate := (if estimate \<ge> MinGasEVMTx then estimate else limit)\<rparr>) tx simulate)))))"

section \<open>The chains\<close>

definition ante_end :: "'x AnteHandler" where
  "ante_end a tx simulate = Done (None, a, tx)"

definition evmAnteHandler ::
    "lib \<Rightarrow> eth_funs \<Rightarrow> sig_lib \<Rightarrow> dec_funs \<Rightarrow> 'x param_store \<Rightarrow> 'x keepers \<Rightarrow> 'x auth_keeper \<Rightarrow> int_codec \<Rightarrow> ('x, 'p) evm_funs \<Rightarrow> 'x ante_funs \<Rightarrow> map_order \<Rightarrow>
     uint64 \<Rightarrow> 'x AnteHandler" where
  "evmAnteHandler l e sg d ps k ak ic evm af rng estimate =
     EVMPreprocessDecorator l e sg ic k ak af
       (BasicDecorator l e ic af
         (EVMFeeCheckDecorator l e d ps k ic evm af rng
           (EVMSigVerifyDecorator l e k ic af
             (GasDecorator d ps ic estimate ante_end))))"

definition tracerAnteHandler ::
    "lib \<Rightarrow> eth_funs \<Rightarrow> sig_lib \<Rightarrow> 'x keepers \<Rightarrow> 'x auth_keeper \<Rightarrow> int_codec \<Rightarrow> 'x ante_funs \<Rightarrow> 'x AnteHandler" where
  "tracerAnteHandler l e sg k ak ic af =
     EVMPreprocessDecorator l e sg ic k ak af (BasicDecorator l e ic af (EVMSigVerifyDecorator l e k ic af ante_end))"

definition EVMRouterDecorator :: "'x AnteHandler \<Rightarrow> 'x AnteHandler \<Rightarrow> 'x AnteHandler" where
  "EVMRouterDecorator defaultAnteHandler evmAnte a tx simulate =
     (case IsEVMMessage tx of
        Inl err \<Rightarrow> Done (Some err, a, tx)
      | Inr isEVM \<Rightarrow> if isEVM then evmAnte a tx simulate else defaultAnteHandler a tx simulate)"

section \<open>Associating the signers of other transactions\<close>

text \<open>One signer of a transaction of the Cosmos side: the context, or an error that ends the handler.\<close>

definition EVMAddress_signer ::
    "lib \<Rightarrow> 'x keepers \<Rightarrow> 'x auth_keeper \<Rightarrow> 'x ante_funs \<Rightarrow> sdk_Tx \<Rightarrow> 'x ctx \<Rightarrow> bytes \<Rightarrow> (error \<times> 'x ctx) go" where
  "EVMAddress_signer l k ak af tx c signer =
     (case GetEVMAddress c signer of
        Some evmAddr \<Rightarrow> Done (None, EmitEvents [signer_event l (Some evmAddr) signer] c)
      | None \<Rightarrow>
          deref (acc_PubKey ak (ctx_ext c) signer) (\<lambda>pk.
          let plain = EmitEvents [signer_event l None signer] c in
          case pk of
            None \<Rightarrow> Done (None, plain)
          | Some bz \<Rightarrow>
              (case ParsePubKey af bz of
                 Inl err \<Rightarrow> Done (None, plain)
               | Inr uncompressed \<Rightarrow>
                   (case PubkeyToEVMAddress l uncompressed of
                      Inl err \<Rightarrow> Done (None, plain)
                    | Inr evmAddr \<Rightarrow>
                        let c1 = SetAddressMapping l k (EmitEvents [signer_event l (Some evmAddr) signer] c) signer evmAddr in
                        (case MigrateBalance k ak c1 evmAddr signer of
                           (Some err, c2) \<Rightarrow> Done (Some err, c2)
                         | (None, c2) \<Rightarrow>
                             Done (if IsTxMsgAssociate tx \<and> \<not> bank_GetBalance k (ctx_ext c2) signer > 0 \<and> \<not> bank_GetWeiBalance k (ctx_ext c2) signer > 0
                                   then Some ''account needs to have a positive balance to force association'' else None, c2))))))"

fun EVMAddress_loop ::
    "lib \<Rightarrow> 'x keepers \<Rightarrow> 'x auth_keeper \<Rightarrow> 'x ante_funs \<Rightarrow> sdk_Tx \<Rightarrow> 'x ctx \<Rightarrow> bytes list \<Rightarrow> (error \<times> 'x ctx) go" where
  "EVMAddress_loop l k ak af tx c [] = Done (None, c)"
| "EVMAddress_loop l k ak af tx c (signer # signers) =
     go_bind (EVMAddress_signer l k ak af tx c signer) (\<lambda>(err, c1).
     if err \<noteq> None then Done (err, c1) else EVMAddress_loop l k ak af tx c1 signers)"

text \<open>\<open>signers\<close> are the signers of the transaction, nothing when it has none to verify.\<close>

definition EVMAddressDecorator ::
    "lib \<Rightarrow> 'x keepers \<Rightarrow> 'x auth_keeper \<Rightarrow> 'x ante_funs \<Rightarrow> bytes list option \<Rightarrow> 'x AnteHandler \<Rightarrow> 'x AnteHandler" where
  "EVMAddressDecorator l k ak af signers next a tx simulate =
     (case signers of
        None \<Rightarrow> Done (Some ''invalid tx type'', a, tx)
      | Some ss \<Rightarrow>
          go_bind (EVMAddress_loop l k ak af tx (ac_ctx a) ss) (\<lambda>(err, c1).
          if err \<noteq> None then Done (err, a\<lparr>ac_ctx := c1\<rparr>, tx) else next (a\<lparr>ac_ctx := c1\<rparr>) tx simulate))"

end
