(* ===== verification/Ante_Example.thy ===== *)
theory Ante_Example
  imports Evm_Ante
begin

text \<open>
  A transaction that passes the ante handlers, on the concrete ledger: an unprotected legacy transaction from an account that
  is not associated yet. Each step of the chain is evaluated by itself.
\<close>

definition ante_example :: "ledger ante_funs" where
  "ante_example = \<lparr>IsCancun = (\<lambda>cfg n t. True), signer_Hash = (\<lambda>v c tx. replicate 32 3), FrontierSigner_Hash = (\<lambda>tx. replicate 32 2),
     tx_Protected = (\<lambda>tx. False), tx_Cost = (\<lambda>tx. deref (tx_GasPrice tx) (\<lambda>p. deref (tx_Value tx) (\<lambda>v. Done (uint (tx_Gas tx) * p + v)))),
     IntrinsicGas = (\<lambda>dt al cr x y z. Inr 21000), CalcBlobFee = (\<lambda>g. 1), StatelessChecks = (\<lambda>bc cfg m db. Done None),
     BuyGas = (\<lambda>bc cfg m db. deref (msg_GasPrice m) (\<lambda>p.
       go_map (Pair None) (SubBalance lib_lower ledger_keepers (msg_From m) (uint (msg_GasLimit m) * p) db))),
     tm_Key = (\<lambda>b. b), ParsePubKey = Inr\<rparr>"

definition sig_example :: sig_lib where
  "sig_example = \<lparr>ValidateSignatureValues = (\<lambda>v r s h. True), Ecrecover = (\<lambda>h sig. Inr (4 # replicate 64 7)),
     CompressPubkey = (\<lambda>b. Done (take 33 b)), PubKey_Address = (\<lambda>b. replicate 20 5)\<rparr>"

definition evm_idle :: "('x, unit) evm_funs" where
  "evm_idle = \<lparr>core_Transfer = (\<lambda>a b n db. Done db), TransitionDb = (\<lambda>bc cfg pcs m db. Done (Inr \<lparr>er_UsedGas = 21000, er_Err = None, er_ReturnData = []\<rparr>, db))\<rparr>"

definition env_example :: tx_env where
  "env_example = \<lparr>te_IsEVM = False, te_EVMEntryViaWasmdPrecompile = False, te_TxSum = replicate 32 0, te_HeaderTime_Unix = 1,
     te_HeaderTime_MarshalBinary = Inr [1], te_HeaderHash = [], te_MaxGas = Some 10000000, te_HistoricalInfo = (\<lambda>h. None), te_GasLimit = 0,
     te_GasConsumedToLimit = 0\<rparr>"

definition payer_ctx :: "ledger ctx" where
  "payer_ctx = with_kv (\<lambda>s. kv_set s (TabiAddressToEVMAddressKey (str_bytes ''fee_collector'')) (replicate 20 3))
     (with_ext \<lparr>lg_accounts = [], lg_wei = [(replicate 20 5, 5000000000000000)]\<rparr> ctx0)"

definition actx_example :: "ledger ante_ctx" where
  "actx_example = \<lparr>ac_ctx = payer_ctx, ac_env = env_example, ac_IsCheckTx = False, ac_IsReCheckTx = False, ac_TxBytes = [1], ac_Priority = 0,
     ac_GasMeter = InfiniteGasMeter, ac_GasEstimate = 0, ac_EVMNonce = 0, ac_EVMSenderAddress = [], ac_EVMTxHash = [], ac_DeliverTxCallback = None,
     ac_CheckTxCallback = None, ac_ExpireTxHandler = None, ac_PendingTxChecker = None\<rparr>"

definition legacy_example :: LegacyTx where
  "legacy_example = \<lparr>lt_Nonce = 0, lt_GasPrice = Some 1000000000, lt_GasLimit = 21000, lt_To = [], lt_Amount = Some 0, lt_Data = [], lt_V = [27], lt_R = [1], lt_S = [1]\<rparr>"

definition msg_example :: MsgEVMTransaction where
  "msg_example = \<lparr>me_Data = Some \<lparr>any_cachedValue = Some (TxLegacy legacy_example), any_Value = []\<rparr>, me_Derived = None\<rparr>"

definition derived_example :: Derived where
  "derived_example = \<lparr>dv_SenderEVMAddr = replicate 19 7 @ [1], dv_SenderTabiAddr = replicate 20 5, dv_PubKey = Some (4 # replicate 32 7),
     dv_IsAssociate = False, dv_Version = Cancun\<rparr>"

definition etx_example :: eth_Transaction where
  "etx_example = \<lparr>tx_Type = LegacyTxType, tx_Nonce = 0, tx_Data = [], tx_Gas = 21000, tx_To = None, tx_Value = Some 0, tx_GasPrice = Some 1000000000,
     tx_GasFeeCap = Some 1000000000, tx_GasTipCap = Some 1000000000, tx_AccessList = [], tx_BlobGasFeeCap = None, tx_BlobHashes = [],
     tx_BlobTxSidecar = None, tx_ChainId = Some 0, tx_V = Some 27, tx_R = Some 1, tx_S = Some 1\<rparr>"

lemma Unpack_example [simp]: "UnpackTxData int_codec_bytes (me_Data (msg_example\<lparr>me_Derived := dv\<rparr>)) = Inr (TxLegacy legacy_example)"
  "UnpackTxData int_codec_bytes (me_Data msg_example) = Inr (TxLegacy legacy_example)"
  by (simp_all add: UnpackTxData_def msg_example_def)

lemma AsEthereumData_example:
  "\<exists>data. TxData_AsEthereumData lib_lower (TxLegacy legacy_example) = Done data \<and> NewTx eth_simple data = etx_example"
  by (simp add: TxData_AsEthereumData_def LegacyTx_AsEthereumData_def legacy_example_def LegacyTx_GetRawSignatureValues_def rawSignatureValues_def
      legacy_defs LegacyTx_GetTo_def eth_simple_def etx_example_def big_SetBytes_def be_decode_def)

lemma AsTransaction_example [simp]:
  "AsTransaction lib_lower eth_simple int_codec_bytes (msg_example\<lparr>me_Derived := dv\<rparr>) = Done (Some (etx_example, TxLegacy legacy_example))"
  "AsTransaction lib_lower eth_simple int_codec_bytes msg_example = Done (Some (etx_example, TxLegacy legacy_example))"
  using AsEthereumData_example by (auto simp: AsTransaction_def)

lemma pubkey_example:
  "PubkeyToEVMAddress lib_lower (4 # replicate 64 7) = Inr (replicate 19 7 @ [1])" "take 33 (4 # replicate 64 7 :: bytes) = 4 # replicate 32 7"
  by code_simp+

lemma GetAddresses_example:
  "GetAddresses lib_lower sig_example 27 1 1 h = Done (Inr (replicate 19 7 @ [1], replicate 20 5, 4 # replicate 32 7))"
proof -
  have "length (nat_bytes 1) \<le> 32" using be_encode_pad [of 1 32] by simp
  then obtain sig where sig: "sig_bytes (big_Bytes 1) (big_Bytes 1) 0 = Done sig"
    by (simp add: sig_bytes_def copy_right_def big_Bytes_def)
  have "big_BitLen 27 \<le> 8" by (simp add: big_BitLen_le_iff)
  then have "RecoverPubkey sig_example h 1 1 27 True = Done (Inr (4 # replicate 64 7))"
    using sig by (simp add: RecoverPubkey_def sig_example_def Let_def)
  then show ?thesis
    by (simp only: GetAddresses_def go_bind_simps sum.case GetAddressesFromPubkeyBytes_def pubkey_example(1)) (simp add: sig_example_def pubkey_example(2) del: replicate.simps)
qed

lemma Preprocess_example:
  "Preprocess lib_lower eth_simple sig_example int_codec_bytes ante_example actx_example msg_example =
     Done (None, msg_example\<lparr>me_Derived := Some derived_example\<rparr>)"
  using AsEthereumData_example
  by (auto simp: Preprocess_def msg_example_def Let_def UnpackTxData_def isTxTypeAllowed_def GetVersion_def ante_example_def signed_parts_def
      etx_example_def GetAddresses_example derived_example_def)

abbreviation evm_addr :: address where "evm_addr \<equiv> replicate 19 7 @ [1]"

abbreviation tabi_addr :: bytes where "tabi_addr \<equiv> replicate 20 5"

abbreviation collector :: bytes where "collector \<equiv> str_bytes ''fee_collector''"

lemma example_addresses: "tabi_addr \<noteq> evm_addr" "evm_addr \<noteq> tabi_addr" "tabi_addr \<noteq> collector" "collector \<noteq> tabi_addr" "replicate 20 3 \<noteq> evm_addr"
  by code_simp+

lemma ledger_ops:
  "HasAccount ledger_keepers x a \<longleftrightarrow> a \<in> set (lg_accounts x)" "SetNewAccount ledger_keepers x a = x\<lparr>lg_accounts := a # lg_accounts x\<rparr>"
  "GetModuleAddress ledger_keepers name = str_bytes name" "bank_GetWeiBalance ledger_keepers x a = lg_get x a mod 1000000000000"
  "SubUnlockedCoins ledger_keepers x a n = lg_add (- 1000000000000) x a n" "SubWei ledger_keepers x a n = lg_add (- 1) x a n"
  by (simp_all add: ledger_keepers_def)

lemmas example_simps = example_addresses ledger_ops TabiAddressToEVMAddressKey_def EVMAddressToTabiAddressKey_def key_simps lg_get_def

definition signed_ctx :: "ledger ctx" where
  "signed_ctx = EmitEvents [signer_event lib_lower (Some evm_addr) tabi_addr] payer_ctx"

lemma signed_ctx_facts:
  "GetEVMAddress signed_ctx tabi_addr = None" "ctx_ext signed_ctx = \<lparr>lg_accounts = [], lg_wei = [(tabi_addr, 5000000000000000)]\<rparr>"
  "TransientStore signed_ctx = []" "KVStore signed_ctx = [(TabiAddressToEVMAddressKey collector, replicate 20 3)]"
  "cx_TxIndex signed_ctx = 1" "cx_ChainID signed_ctx = ''test-1''" "cx_BlockHeight signed_ctx = 8"
  by (simp_all add: signed_ctx_def payer_ctx_def GetEVMAddress_def example_simps del: replicate.simps) (simp_all add: ctx0_def)

definition linked_ctx :: "ledger ctx" where
  "linked_ctx = with_ext \<lparr>lg_accounts = [tabi_addr], lg_wei = [(tabi_addr, 5000000000000000)]\<rparr>
     (SetAddressMapping lib_lower ledger_keepers signed_ctx tabi_addr evm_addr)"

lemma Associate_example:
  "AssociateAddresses lib_lower ledger_keepers ledger_auth signed_ctx tabi_addr evm_addr pk = Done (None, linked_ctx)"
proof -
  have ext: "ctx_ext (SetAddressMapping lib_lower ledger_keepers signed_ctx tabi_addr evm_addr) = \<lparr>lg_accounts = [tabi_addr], lg_wei = [(tabi_addr, 5000000000000000)]\<rparr>"
    by (simp add: SetAddressMapping_def Let_def signed_ctx_facts example_simps del: replicate.simps)
  show ?thesis
    by (simp add: AssociateAddresses_def Let_def ext ledger_auth_def MigrateBalance_def Coins_IsZero_def example_simps linked_ctx_def
        del: replicate.simps) (simp add: with_ext_def)
qed

lemma linked_ctx_facts:
  "GetTabiAddress linked_ctx evm_addr = Some tabi_addr" "ctx_ext linked_ctx = \<lparr>lg_accounts = [tabi_addr], lg_wei = [(tabi_addr, 5000000000000000)]\<rparr>"
  "TransientStore linked_ctx = []" "GetFeeCollectorAddress ledger_keepers linked_ctx = Inr (replicate 20 3)"
  "keeper_GetNonce linked_ctx evm_addr = Done 0" "cx_TxIndex linked_ctx = 1" "cx_ChainID linked_ctx = ''test-1''" "cx_BlockHeight linked_ctx = 8"
  by (simp_all add: linked_ctx_def GetTabiAddress_def SetAddressMapping_def Let_def signed_ctx_facts GetFeeCollectorAddress_def GetEVMAddress_def
      keeper_GetNonce_def PrefixStore_Get_def example_simps copy_into_def del: replicate.simps)

section \<open>The charge\<close>

abbreviation db_example :: "ledger DBImpl" where "db_example \<equiv> NewDBImpl ledger_keepers linked_ctx False"

definition paid_ext :: ledger where
  "paid_ext = \<lparr>lg_accounts = [tabi_addr], lg_wei = [(tabi_addr, 4979000000000000)]\<rparr>"

lemma SubBalance_example:
  "\<exists>db1. SubBalance lib_lower ledger_keepers evm_addr 21000000000000 db_example = Done db1 \<and> db_err db1 = None \<and>
     db_ctx db1 = with_ext paid_ext (db_ctx db_example) \<and>
     db_snapshottedCtxs db1 = [linked_ctx] \<and> db_simulation db1 = False \<and> ts_surplus (db_tempStateCurrent db1) = 21000000000000 \<and>
     ts_transientAccounts (db_tempStateCurrent db1) = [] \<and> db_tempStatesHist db1 = [NewTemporaryState]"
proof -
  have db: "db_ctx db_example = linked_ctx\<lparr>cx_events := []\<rparr>" "db_snapshottedCtxs db_example = [linked_ctx]" "db_simulation db_example = False" "db_err db_example = None"
    "db_tempStateCurrent db_example = NewTemporaryState" "db_tempStatesHist db_example = [NewTemporaryState]"
    "db_coinbaseEvmAddress db_example = replicate 20 3" "db_eventsSuppressed db_example = False"
    by (simp_all add: NewDBImpl_def Let_def linked_ctx_facts Snapshot_def del: replicate.simps)
  have "getTabiAddress db_example evm_addr = tabi_addr"
    by (simp add: getTabiAddress_def db example_simps GetTabiAddressOrDefault_def del: replicate.simps)
      (use linked_ctx_facts(1) in \<open>simp add: GetTabiAddress_def KVStore_def del: replicate.simps\<close>)
  moreover have "ctx_ext (linked_ctx\<lparr>cx_events := []\<rparr>) = \<lparr>lg_accounts = [tabi_addr], lg_wei = [(tabi_addr, 5000000000000000)]\<rparr>"
    using linked_ctx_facts(2) by (simp add: ctx_ext_def del: replicate.simps)
  ultimately show ?thesis
    by (simp add: SubBalance_def SubBalance_pos_def SplitAtabiWeiAmount_def big_Mod_def big_Quo_def AtabiToWeiMultiplier_def lower_fits Let_def bank_call_def
        ledger_ops lg_add_def lg_get_def lg_put_def sdk_Int_Add_def set_cur_def db NewTemporaryState_def paid_ext_def del: replicate.simps)
      (simp add: EmitEvents_def with_ext_def)
qed

lemma linked_snapshot: "db_ctx db_example = linked_ctx\<lparr>cx_events := []\<rparr>"
  by (simp add: NewDBImpl_def Let_def Snapshot_def)

lemma Finalize_example:
  assumes "SubBalance lib_lower ledger_keepers evm_addr 21000000000000 db_example = Done db1"
  shows "\<exists>db2. Finalize lib_lower ledger_keepers id db1 = Done ((Some 21000000000000, None), db2) \<and> ctx_ext (base_ctx db2) = paid_ext \<and>
    KVStore (base_ctx db2) = KVStore linked_ctx \<and> TransientStore (base_ctx db2) = [] \<and> cx_ChainID (base_ctx db2) = ''test-1'' \<and> cx_TxIndex (base_ctx db2) = 1"
proof -
  have db1: "db_err db1 = None" "db_ctx db1 = with_ext paid_ext (linked_ctx\<lparr>cx_events := []\<rparr>)" "db_snapshottedCtxs db1 = [linked_ctx]" "db_simulation db1 = False"
    "ts_surplus (db_tempStateCurrent db1) = 21000000000000" "ts_transientAccounts (db_tempStateCurrent db1) = []" "db_tempStatesHist db1 = [NewTemporaryState]"
    using SubBalance_example assms unfolding linked_snapshot by auto
  have "KVStore (linked_ctx\<lparr>cx_events := []\<rparr>) = KVStore linked_ctx" "TransientStore (linked_ctx\<lparr>cx_events := []\<rparr>) = []"
    using linked_ctx_facts(3) by (simp_all add: KVStore_def TransientStore_def)
  then show ?thesis
    using db1 linked_ctx_facts(6,7)
    by (simp add: Finalize_def handleResidualFundsInDestructedAccounts_def clearAccountStateIfDestructed_def NewTemporaryState_def flushCtxs_all
        flushEvents_def Let_def sdk_Int_Add_def lower_fits base_ctx_def)
      (simp add: ctx_ext_def KVStore_def TransientStore_def with_ext_def)
qed

lemma BlockContext_example:
  "\<exists>bc. GetVMBlockContext lib_lower ledger_keepers dec_exact default_store evm_idle env_example linked_ctx = Done (Inr bc)"
  by (simp add: GetVMBlockContext_def linked_ctx_facts env_example_def GetBaseFeePerGas_def GetParams_def GetParamsIfExists_def default_store_def
      DefaultParams_def DefaultBaseFeePerGas_def del: replicate.simps)

abbreviation hash_example :: hash where "hash_example \<equiv> tx_Hash eth_simple etx_example"

lemma charge_example:
  assumes "ac_ctx a = linked_ctx" and "ac_env a = env_example" and "\<not> ac_IsCheckTx a" and "\<not> ac_IsReCheckTx a"
  shows "\<exists>c2 bz. charge_gas lib_lower eth_simple dec_exact default_store ledger_keepers int_codec_bytes evm_idle ante_example id a etx_example evm_addr = Done (None, c2) \<and>
    ctx_ext c2 = paid_ext \<and> KVStore c2 = KVStore linked_ctx \<and> TransientStore c2 = [(AnteSurplusPrefix @ hash_example, bz)] \<and>
    Int_Marshal int_codec_bytes (Some 21000000000000) = Inr bz \<and> cx_ChainID c2 = ''test-1'' \<and> cx_TxIndex c2 = 1"
proof -
  obtain bc where bc: "GetVMBlockContext lib_lower ledger_keepers dec_exact default_store evm_idle env_example linked_ctx = Done (Inr bc)"
    using BlockContext_example by blast
  obtain db1 where db1: "SubBalance lib_lower ledger_keepers evm_addr 21000000000000 db_example = Done db1" using SubBalance_example by blast
  obtain db2 where db2: "Finalize lib_lower ledger_keepers id db1 = Done ((Some 21000000000000, None), db2)" "ctx_ext (base_ctx db2) = paid_ext"
      "KVStore (base_ctx db2) = KVStore linked_ctx" "TransientStore (base_ctx db2) = []" "cx_ChainID (base_ctx db2) = ''test-1''" "cx_TxIndex (base_ctx db2) = 1"
    using Finalize_example [OF db1] by blast
  have "big_BitLen 21000000000000 \<le> 256" by (simp add: big_BitLen_le_iff)
  then obtain bz where bz: "Int_Marshal int_codec_bytes (Some 21000000000000) = Inr bz"
    using int_codec_bytes_laws by (auto simp: int_codec_laws_def simp del: int_codec_bytes_laws)
  obtain emsg where em: "GetEVMMessage linked_ctx etx_example evm_addr = Done emsg" "msg_GasPrice emsg = Some 1000000000" "msg_GasLimit emsg = 21000" "msg_From emsg = evm_addr"
    by (simp add: GetEVMMessage_def etx_example_def GetBaseFee_def)
  have "BuyGas ante_example bc cfg emsg db_example = Done (None, db1)" for cfg
    using db1 em by (simp add: ante_example_def go_map_def del: replicate.simps)
  moreover have "StatelessChecks ante_example bc cfg emsg db = Done None" for cfg db by (simp add: ante_example_def)
  ultimately show ?thesis
    using assms bc db2 bz em by (simp add: charge_gas_def Let_def AddAnteSurplus_def del: replicate.simps)
qed

section \<open>The whole chain\<close>

lemma params_example: "GetParams default_store c = DefaultParams"
  by (simp add: GetParams_def GetParamsIfExists_def default_store_def)

lemma dec_example:
  "Dec_Quo dec_exact (1000000000 * dec_one) (NewDec 1) = Done (1000000000 * dec_one)" "Dec_MulInt64 dec_exact (NewDec 1) 21000 = Done (21000 * dec_one)"
  "Dec_TruncateInt dec_exact (NewDec 1000000000) = 1000000000" "Dec_TruncateInt dec_exact (NewDec 0) = 0" "Dec_TruncateInt dec_exact (21000 * dec_one) = 21000"
  by code_simp+

lemma default_params_example:
  "GetPriorityNormalizer default_store c = Some (NewDec 1)" "GetBaseFeePerGas default_store c = Some (NewDec 0)"
  "GetMinimumFeePerGas default_store c = Some (NewDec 1000000000)"
  by (simp_all add: GetPriorityNormalizer_def GetBaseFeePerGas_def GetMinimumFeePerGas_def params_example DefaultParams_def DefaultPriorityNormalizer_def
      DefaultBaseFeePerGas_def DefaultMinFeePerGas_def)

lemma legacy_fees_example:
  "TxData_GetGasFeeCap (TxLegacy legacy_example) = Done (Some 1000000000)" "TxData_GetGasTipCap (TxLegacy legacy_example) = Done (Some 1000000000)"
  "TxData_GetBlobHashes (TxLegacy legacy_example) = Done []" "TxData_EffectiveGasPrice b (TxLegacy legacy_example) = Done (Some 1000000000)"
  "TxData_GetGas (TxLegacy legacy_example) = Done 21000"
  by (simp_all add: TxData_GetGasFeeCap_def TxData_GetGasTipCap_def TxData_GetBlobHashes_def TxData_EffectiveGasPrice_def TxData_GetGas_def legacy_defs
      LegacyTx_GetGasFeeCap_def LegacyTx_GetGasTipCap_def legacy_example_def)

lemma fee_caps_example: "check_fee_caps dec_exact default_store ante_example c Cancun (TxLegacy legacy_example) = Done None"
  by (simp add: check_fee_caps_def legacy_fees_example getBaseFee_def getMinimumFee_def default_params_example dec_example)

lemma priority_example: "\<exists>p. CalculatePriority dec_exact default_store c (TxLegacy legacy_example) = Done p"
  by (simp add: CalculatePriority_def legacy_fees_example default_params_example dec_example Let_def)

lemma gas_example:
  "\<exists>a'. GasDecorator dec_exact default_store int_codec_bytes 0 ante_end a [SdkEVM (msg_example\<lparr>me_Derived := dv\<rparr>)] False =
     Done (None, a', [SdkEVM (msg_example\<lparr>me_Derived := dv\<rparr>)]) \<and> ac_ctx a' = ac_ctx a \<and> ac_DeliverTxCallback a' = ac_DeliverTxCallback a \<and> ac_env a' = ac_env a"
  by (simp add: GasDecorator_def MustGetEVMTransactionMessage_def default_params_example legacy_fees_example dec_example Int_Uint64_def ante_end_def)

lemma ante_run_example:
  "\<exists>a' bz. evmAnteHandler lib_lower eth_simple sig_example dec_exact default_store ledger_keepers ledger_auth int_codec_bytes evm_idle ante_example id 0
      actx_example [SdkEVM msg_example] False = Done (None, a', [SdkEVM (msg_example\<lparr>me_Derived := Some derived_example\<rparr>)]) \<and>
    ctx_ext (ac_ctx a') = paid_ext \<and> TransientStore (ac_ctx a') = [(AnteSurplusPrefix @ hash_example, bz)] \<and>
    Int_Marshal int_codec_bytes (Some 21000000000000) = Inr bz \<and> KVStore (ac_ctx a') = KVStore linked_ctx \<and>
    ac_DeliverTxCallback a' = Some (bump_nonce evm_addr 0) \<and> ac_env a' = env_example\<lparr>te_IsEVM := True\<rparr> \<and> cx_TxIndex (ac_ctx a') = 1"
proof -
  let ?tx = "[SdkEVM (msg_example\<lparr>me_Derived := Some derived_example\<rparr>)]"
  let ?gas = "GasDecorator dec_exact default_store int_codec_bytes 0 ante_end"
  let ?sig = "EVMSigVerifyDecorator lib_lower eth_simple ledger_keepers int_codec_bytes ante_example ?gas"
  let ?fee = "EVMFeeCheckDecorator lib_lower eth_simple dec_exact default_store ledger_keepers int_codec_bytes evm_idle ante_example id ?sig"
  let ?basic = "BasicDecorator lib_lower eth_simple int_codec_bytes ante_example ?fee"
  define a0 where "a0 = actx_example\<lparr>ac_GasMeter := InfiniteGasMeter, ac_ctx := linked_ctx\<rparr>"
  define a1 where "a1 = a0\<lparr>ac_DeliverTxCallback := Some (bump_nonce evm_addr 0)\<rparr>"
  have dv: "dv_SenderEVMAddr derived_example = evm_addr" "dv_SenderTabiAddr derived_example = tabi_addr" "\<not> dv_IsAssociate derived_example" "dv_Version derived_example = Cancun"
    by (simp_all add: derived_example_def del: replicate.simps)
  have must: "MustGetEVMTransactionMessage [SdkEVM m] = Done m" for m by (simp add: MustGetEVMTransactionMessage_def)
  have start: "ac_ctx actx_example = payer_ctx" by (simp add: actx_example_def)
  have step1: "EVMPreprocessDecorator lib_lower eth_simple sig_example int_codec_bytes ledger_keepers ledger_auth ante_example ?basic actx_example [SdkEVM msg_example] False =
      ?basic a0 ?tx False"
    by (simp add: EVMPreprocessDecorator_def must Preprocess_example Let_def dv start signed_ctx_def [symmetric] signed_ctx_facts Associate_example a0_def
        del: replicate.simps)
  have a1: "ac_ctx a1 = linked_ctx" "ac_env a1 = env_example" "\<not> ac_IsCheckTx a1" "\<not> ac_IsReCheckTx a1"
    by (simp_all add: a1_def a0_def actx_example_def)
  have etx: "tx_Nonce etx_example = 0" "tx_To etx_example = None" "tx_Data etx_example = []" "tx_Value etx_example = Some 0" "tx_Gas etx_example = 21000"
    "tx_Type etx_example = LegacyTxType" "tx_ChainId etx_example = Some 0" by (simp_all add: etx_example_def)
  have step2: "?basic a0 ?tx False = ?fee a1 ?tx False"
    using linked_ctx_facts(5) a1
    by (simp add: BasicDecorator_def must dv etx a1_def a0_def actx_example_def env_example_def ante_example_def MaxInitCodeSize_def del: replicate.simps)
  obtain c2 bz where c2: "charge_gas lib_lower eth_simple dec_exact default_store ledger_keepers int_codec_bytes evm_idle ante_example id a1 etx_example evm_addr = Done (None, c2)"
      "ctx_ext c2 = paid_ext" "KVStore c2 = KVStore linked_ctx" "TransientStore c2 = [(AnteSurplusPrefix @ hash_example, bz)]"
      "Int_Marshal int_codec_bytes (Some 21000000000000) = Inr bz" "cx_ChainID c2 = ''test-1''" "cx_TxIndex c2 = 1"
    using charge_example [OF a1] by blast
  obtain p where p: "CalculatePriority dec_exact default_store c2 (TxLegacy legacy_example) = Done p" using priority_example by blast
  define a2 where "a2 = a1\<lparr>ac_ctx := c2, ac_Priority := word_of_int p\<rparr>"
  have step3: "?fee a1 ?tx False = ?sig a2 ?tx False"
    by (simp add: EVMFeeCheckDecorator_def must dv a1 fee_caps_example c2(1) p a2_def del: replicate.simps)
  have nonce: "keeper_GetNonce c2 evm_addr = Done 0" using linked_ctx_facts(5) c2(3) by (simp add: keeper_GetNonce_def PrefixStore_Get_def)
  define a3 where "a3 = a2\<lparr>ac_env := (ac_env a2)\<lparr>te_IsEVM := True\<rparr>, ac_EVMNonce := 0, ac_EVMSenderAddress := addr_Hex lib_lower evm_addr,
    ac_EVMTxHash := hash_Hex lib_lower hash_example\<rparr>"
  have a3: "ac_ctx a3 = c2" "ac_DeliverTxCallback a3 = Some (bump_nonce evm_addr 0)" "ac_env a3 = env_example\<lparr>te_IsEVM := True\<rparr>"
    using a1(2) by (simp_all add: a3_def a2_def) (simp add: a1_def)
  have step4: "?sig a2 ?tx False = ?gas a3 ?tx False"
    using a1 nonce by (simp add: EVMSigVerifyDecorator_def must dv etx Let_def chain_id_matches_def a2_def a3_def del: replicate.simps)
  obtain a' where a': "?gas a3 ?tx False = Done (None, a', ?tx)" "ac_ctx a' = ac_ctx a3" "ac_DeliverTxCallback a' = ac_DeliverTxCallback a3" "ac_env a' = ac_env a3"
    using gas_example by blast
  have "evmAnteHandler lib_lower eth_simple sig_example dec_exact default_store ledger_keepers ledger_auth int_codec_bytes evm_idle ante_example id 0
      actx_example [SdkEVM msg_example] False = Done (None, a', ?tx)"
    unfolding evmAnteHandler_def step1 step2 step3 step4 a'(1) ..
  then show ?thesis using a' a3 c2 by auto
qed

end
