(* ===== verification/Ante_Props.thy ===== *)
theory Ante_Props
  imports Ante_Example
begin

text \<open>
  What the ante handlers guarantee: which transactions reach the EVM, what they are charged before, that a nonce is never
  used twice, and when a pending transaction is accepted.
\<close>

section \<open>One decorator at a time\<close>

lemma MustGet_single [simp]: "MustGetEVMTransactionMessage [SdkEVM msg] = Done msg"
  by (simp add: MustGetEVMTransactionMessage_def)

lemma AsTransaction_Derived [simp]: "AsTransaction l e ic (msg\<lparr>me_Derived := dv\<rparr>) = AsTransaction l e ic msg"
  by (simp add: AsTransaction_def)

lemma AsTransaction_Done:
  assumes "AsTransaction l e ic msg = Done (Some (etx, td))"
  shows "UnpackTxData ic (me_Data msg) = Inr td" "\<exists>data. TxData_AsEthereumData l td = Done data \<and> etx = NewTx e data"
  using assms by (auto simp: AsTransaction_def go_Done_iffs split: sum.splits)

text \<open>What the basic checks leave: the limits that a transaction respects.\<close>

definition admissible :: "'x ante_funs \<Rightarrow> tx_env \<Rightarrow> eth_Transaction \<Rightarrow> bool" where
  "admissible af env etx \<longleftrightarrow>
     (\<exists>v. tx_Value etx = Some v \<and> 0 \<le> v) \<and> tx_Type etx \<noteq> BlobTxType \<and>
     (\<exists>g. IntrinsicGas af (tx_Data etx) (tx_AccessList etx) (tx_To etx = None) True True True = Inr g \<and> g \<le> tx_Gas etx) \<and>
     (tx_To etx = None \<longrightarrow> length (tx_Data etx) \<le> MaxInitCodeSize) \<and>
     (\<forall>m. te_MaxGas env = Some m \<and> sint m > 0 \<longrightarrow> tx_Gas etx \<le> m)"

text \<open>The sender of a message was recovered from the signature of its transaction.\<close>

definition recovered :: "lib \<Rightarrow> sig_lib \<Rightarrow> 'x ante_funs \<Rightarrow> 'x ante_ctx \<Rightarrow> eth_Transaction \<Rightarrow> Derived \<Rightarrow> bool" where
  "recovered l sg af a etx dv \<longleftrightarrow>
     (let ethCfg = EthereumConfig DefaultChainConfig (tx_ChainId etx); version = GetVersion af a ethCfg in
      \<exists>V R S h pk. dv = \<lparr>dv_SenderEVMAddr = dv_SenderEVMAddr dv, dv_SenderTabiAddr = dv_SenderTabiAddr dv, dv_PubKey = Some pk,
           dv_IsAssociate = False, dv_Version = version\<rparr> \<and>
        isTxTypeAllowed version (tx_Type etx) \<and> signed_parts af version ethCfg etx = Done (V, R, S, h) \<and>
        GetAddresses l sg V R S h = Done (Inr (dv_SenderEVMAddr dv, dv_SenderTabiAddr dv, pk)))"

lemma Preprocess_Done:
  assumes "Preprocess l e sg ic af a msg = Done (None, msg1)" and "me_Derived msg = None"
    and "UnpackTxData ic (me_Data msg) = Inr td" and "\<forall>t. td \<noteq> TxAssociate t"
  shows "\<exists>etx dv. AsTransaction l e ic msg = Done (Some (etx, td)) \<and> msg1 = msg\<lparr>me_Derived := Some dv\<rparr> \<and> recovered l sg af a etx dv"
proof -
  have "\<exists>data V R S h evm tabi pk. TxData_AsEthereumData l td = Done data \<and>
      isTxTypeAllowed (GetVersion af a (EthereumConfig DefaultChainConfig (tx_ChainId (NewTx e data)))) (tx_Type (NewTx e data)) \<and>
      signed_parts af (GetVersion af a (EthereumConfig DefaultChainConfig (tx_ChainId (NewTx e data))))
        (EthereumConfig DefaultChainConfig (tx_ChainId (NewTx e data))) (NewTx e data) = Done (V, R, S, h) \<and>
      GetAddresses l sg V R S h = Done (Inr (evm, tabi, pk)) \<and>
      msg1 = msg\<lparr>me_Derived := Some \<lparr>dv_SenderEVMAddr = evm, dv_SenderTabiAddr = tabi, dv_PubKey = Some pk, dv_IsAssociate = False,
        dv_Version = GetVersion af a (EthereumConfig DefaultChainConfig (tx_ChainId (NewTx e data)))\<rparr>\<rparr>"
    using assms by (cases td) (auto simp: Preprocess_def Let_def go_Done_iffs split: if_split_asm, auto split: sum.split_asm prod.split_asm)
  then obtain data V R S h evm tabi pk where p: "TxData_AsEthereumData l td = Done data"
      "isTxTypeAllowed (GetVersion af a (EthereumConfig DefaultChainConfig (tx_ChainId (NewTx e data)))) (tx_Type (NewTx e data))"
      "signed_parts af (GetVersion af a (EthereumConfig DefaultChainConfig (tx_ChainId (NewTx e data))))
        (EthereumConfig DefaultChainConfig (tx_ChainId (NewTx e data))) (NewTx e data) = Done (V, R, S, h)"
      "GetAddresses l sg V R S h = Done (Inr (evm, tabi, pk))"
      "msg1 = msg\<lparr>me_Derived := Some \<lparr>dv_SenderEVMAddr = evm, dv_SenderTabiAddr = tabi, dv_PubKey = Some pk, dv_IsAssociate = False,
        dv_Version = GetVersion af a (EthereumConfig DefaultChainConfig (tx_ChainId (NewTx e data)))\<rparr>\<rparr>"
    by blast
  then show ?thesis
    using assms(3) by (intro exI [of _ "NewTx e data"] exI conjI) (auto simp: AsTransaction_def go_map_def recovered_def Let_def)
qed

text \<open>The context that the first decorator passes on: the event of the signer, and the association if there was none.\<close>

definition associated_ctx :: "lib \<Rightarrow> 'x keepers \<Rightarrow> 'x auth_keeper \<Rightarrow> Derived \<Rightarrow> 'x ctx \<Rightarrow> 'x ctx \<Rightarrow> bool" where
  "associated_ctx l k ak dv c c1 \<longleftrightarrow>
     (let ce = EmitEvents [signer_event l (Some (dv_SenderEVMAddr dv)) (dv_SenderTabiAddr dv)] c in
      if GetEVMAddress ce (dv_SenderTabiAddr dv) \<noteq> None then c1 = ce
      else AssociateAddresses l k ak ce (dv_SenderTabiAddr dv) (dv_SenderEVMAddr dv) (dv_PubKey dv) = Done (None, c1))"

lemma EVMPreprocessDecorator_Done:
  assumes "EVMPreprocessDecorator l e sg ic k ak af next a [SdkEVM msg] simulate = Done (None, r)" and "me_Derived msg = None"
    and "UnpackTxData ic (me_Data msg) = Inr td" and "\<forall>t. td \<noteq> TxAssociate t"
  obtains etx dv c1 where "AsTransaction l e ic msg = Done (Some (etx, td))" "recovered l sg af a etx dv"
    "associated_ctx l k ak dv (ac_ctx a) c1"
    "next (a\<lparr>ac_GasMeter := InfiniteGasMeter, ac_ctx := c1\<rparr>) [SdkEVM (msg\<lparr>me_Derived := Some dv\<rparr>)] simulate = Done (None, r)"
proof -
  obtain err msg1 where pp: "Preprocess l e sg ic af a msg = Done (err, msg1)" "err = None"
    using assms(1) by (auto simp: EVMPreprocessDecorator_def go_Done_iffs Let_def split: if_splits)
  then have "Preprocess l e sg ic af a msg = Done (None, msg1)" by simp
  from Preprocess_Done [OF this assms(2-4)] obtain etx dv where
    p: "AsTransaction l e ic msg = Done (Some (etx, td))" "msg1 = msg\<lparr>me_Derived := Some dv\<rparr>" "recovered l sg af a etx dv" by blast
  from p(3) have na: "\<not> dv_IsAssociate dv" unfolding recovered_def Let_def by (metis Derived.select_convs(4))
  let ?ce = "EmitEvents [signer_event l (Some (dv_SenderEVMAddr dv)) (dv_SenderTabiAddr dv)] (ac_ctx a)"
  show thesis
  proof (cases "GetEVMAddress ?ce (dv_SenderTabiAddr dv) = None")
    case True
    then obtain c1 where "AssociateAddresses l k ak ?ce (dv_SenderTabiAddr dv) (dv_SenderEVMAddr dv) (dv_PubKey dv) = Done (None, c1)"
      "next (a\<lparr>ac_GasMeter := InfiniteGasMeter, ac_ctx := c1\<rparr>) [SdkEVM msg1] simulate = Done (None, r)"
      using assms(1) pp na by (auto simp: EVMPreprocessDecorator_def go_Done_iffs Let_def p(2) split: if_splits)
    with True that [OF p(1,3), of c1] p(2) show ?thesis by (simp add: associated_ctx_def)
  next
    case False
    then have "next (a\<lparr>ac_GasMeter := InfiniteGasMeter, ac_ctx := ?ce\<rparr>) [SdkEVM msg1] simulate = Done (None, r)"
      using assms(1) pp na by (auto simp: EVMPreprocessDecorator_def go_Done_iffs Let_def p(2) split: if_splits)
    with False that [OF p(1,3), of ?ce] p(2) show ?thesis by (simp add: associated_ctx_def)
  qed
qed

lemma BasicDecorator_Done:
  assumes "BasicDecorator l e ic af next a [SdkEVM msg] simulate = Done (None, r)" and "me_Derived msg = Some dv"
    and "AsTransaction l e ic msg = Done (Some (etx, td))"
  obtains n where "keeper_GetNonce (ac_ctx a) (dv_SenderEVMAddr dv) = Done n" "admissible af (ac_env a) etx"
    "next (if \<not> ac_IsCheckTx a \<and> \<not> ac_IsReCheckTx a \<and> n = tx_Nonce etx
           then a\<lparr>ac_DeliverTxCallback := Some (bump_nonce (dv_SenderEVMAddr dv) n)\<rparr> else a) [SdkEVM msg] simulate = Done (None, r)"
proof -
  from assms obtain n where n: "keeper_GetNonce (ac_ctx a) (dv_SenderEVMAddr dv) = Done n"
    by (auto simp: BasicDecorator_def go_Done_iffs)
  define a1 where "a1 = (if \<not> ac_IsCheckTx a \<and> \<not> ac_IsReCheckTx a \<and> n = tx_Nonce etx
           then a\<lparr>ac_DeliverTxCallback := Some (bump_nonce (dv_SenderEVMAddr dv) n)\<rparr> else a)"
  have env: "ac_env a1 = ac_env a" by (simp add: a1_def)
  have "admissible af (ac_env a) etx \<and> next a1 [SdkEVM msg] simulate = Done (None, r)"
    using assms(1) unfolding BasicDecorator_def
    by (auto simp: assms(2,3) n a1_def [symmetric] env go_Done_iffs admissible_def not_less split: if_splits option.splits sum.splits)
  then show thesis using that n a1_def by blast
qed


lemma EVMFeeCheckDecorator_Done:
  assumes "EVMFeeCheckDecorator l e d ps k ic evm af rng next a [SdkEVM msg] False = Done (None, r)" and "me_Derived msg = Some dv"
    and "AsTransaction l e ic msg = Done (Some (etx, td))"
  obtains c1 p where "check_fee_caps d ps af (ac_ctx a) (dv_Version dv) td = Done None"
    "charge_gas l e d ps k ic evm af rng a etx (dv_SenderEVMAddr dv) = Done (None, c1)"
    "next (a\<lparr>ac_ctx := c1, ac_Priority := p\<rparr>) [SdkEVM msg] False = Done (None, r)"
  using assms(1) AsTransaction_Done(1) [OF assms(3)] assms(2,3) that
  by (auto simp: EVMFeeCheckDecorator_def go_Done_iffs split: if_splits)

lemma EVMSigVerifyDecorator_Done:
  assumes "EVMSigVerifyDecorator l e k ic af next a [SdkEVM msg] simulate = Done (None, r)" and "me_Derived msg = Some dv"
    and "AsTransaction l e ic msg = Done (Some (etx, td))" and "\<not> ac_IsCheckTx a"
  shows "keeper_GetNonce (ac_ctx a) (dv_SenderEVMAddr dv) = Done (tx_Nonce etx)"
    and "chain_id_matches (keeper_ChainID (ac_ctx a)) etx = Done True"
    and "next (a\<lparr>ac_env := (ac_env a)\<lparr>te_IsEVM := True\<rparr>, ac_EVMNonce := tx_Nonce etx, ac_EVMSenderAddress := addr_Hex l (dv_SenderEVMAddr dv),
                ac_EVMTxHash := hash_Hex l (tx_Hash e etx)\<rparr>) [SdkEVM msg] simulate = Done (None, r)"
  using assms by (auto simp: EVMSigVerifyDecorator_def go_Done_iffs Let_def split: if_splits)

lemma GasDecorator_Done:
  assumes "GasDecorator d ps ic estimate ante_end a [SdkEVM msg] simulate = Done (None, a', tx')"
  shows "tx' = [SdkEVM msg]" "ac_ctx a' = ac_ctx a" "ac_DeliverTxCallback a' = ac_DeliverTxCallback a"
  using assms by (auto simp: GasDecorator_def ante_end_def go_Done_iffs split: sum.splits)

section \<open>The charge for gas\<close>

text \<open>\<open>buyGas\<close> of go-ethereum takes the price of the gas limit from the sender, and of the blobs if there are any.\<close>

definition buy_gas_law :: "lib \<Rightarrow> 'x keepers \<Rightarrow> 'x ante_funs \<Rightarrow> bool" where
  "buy_gas_law l k af \<longleftrightarrow>
     (\<forall>bc cfg m db db'. BuyGas af bc cfg m db = Done (None, db') \<longrightarrow>
        (\<exists>amt. SubBalance l k (msg_From m) amt db = Done db' \<and>
           (\<forall>p. msg_GasPrice m = Some p \<and> msg_BlobHashes m = [] \<longrightarrow> amt = uint (msg_GasLimit m) * p)))"

lemma buy_gas_lawD:
  assumes "buy_gas_law l k af" and "BuyGas af bc cfg m db = Done (None, db')"
  shows "\<exists>amt. SubBalance l k (msg_From m) amt db = Done db' \<and>
    (\<forall>p. msg_GasPrice m = Some p \<and> msg_BlobHashes m = [] \<longrightarrow> amt = uint (msg_GasLimit m) * p)"
  by (rule assms(1) [unfolded buy_gas_law_def, rule_format, OF assms(2)])

definition pay_only :: "int \<Rightarrow> 'x DBImpl \<Rightarrow> 'x DBImpl \<Rightarrow> bool" where
  "pay_only n db db' \<longleftrightarrow> KVStore (db_ctx db') = KVStore (db_ctx db) \<and> db_tempStatesHist db' = db_tempStatesHist db \<and>
     ts_transientAccounts (db_tempStateCurrent db') = ts_transientAccounts (db_tempStateCurrent db) \<and>
     (db_err db' = None \<longrightarrow> ts_surplus (db_tempStateCurrent db') = ts_surplus (db_tempStateCurrent db) + n \<and> \<bar>n\<bar> < 2 ^ 256)"

lemma bank_call_frame:
  "KVStore (db_ctx (snd (bank_call db r))) = KVStore (db_ctx db)" "db_tempStatesHist (snd (bank_call db r)) = db_tempStatesHist db"
  "db_tempStateCurrent (snd (bank_call db r)) = db_tempStateCurrent db" "db_err (snd (bank_call db r)) = db_err db"
  by (simp_all add: bank_call_def split: prod.splits)

text \<open>The two calls of a debit or a credit: either one fails and its error is kept, or the rest runs.\<close>

lemma two_bank_calls:
  assumes "(let (err1, db1) = bank_call db r1 in
      if err1 \<noteq> None then Done (db1\<lparr>db_err := err1\<rparr>) else
      let (err2, db2) = bank_call db1 (r2 db1) in
      if err2 \<noteq> None then Done (db2\<lparr>db_err := err2\<rparr>) else f db2) = Done db'"
  obtains (failed) db2 where "pay_only 0 db (db2\<lparr>db_err := db_err db'\<rparr>)" "db' = db2\<lparr>db_err := db_err db'\<rparr>" "db_err db' \<noteq> None"
    | (passed) db2 where "KVStore (db_ctx db2) = KVStore (db_ctx db)" "db_tempStatesHist db2 = db_tempStatesHist db"
        "db_tempStateCurrent db2 = db_tempStateCurrent db" "f db2 = Done db'"
proof -
  obtain e1 d1 where c1: "bank_call db r1 = (e1, d1)" by fastforce
  obtain e2 d2 where c2: "bank_call d1 (r2 d1) = (e2, d2)" by fastforce
  note f1 = bank_call_frame [of db r1, unfolded c1 snd_conv] and f2 = bank_call_frame [of d1 "r2 d1", unfolded c2 snd_conv]
  show thesis
  proof (cases "e1 = None")
    case False
    then have "db' = d1\<lparr>db_err := e1\<rparr>" using assms unfolding c1 Let_def prod.case by simp
    with False f1 show ?thesis using failed [of d1] by (auto simp: pay_only_def)
  next
    case True
    then have rest: "(if e2 \<noteq> None then Done (d2\<lparr>db_err := e2\<rparr>) else f d2) = Done db'"
      using assms unfolding c1 Let_def prod.case by (simp add: c2)
    show ?thesis
    proof (cases "e2 = None")
      case True
      with rest f1 f2 passed [of d2] show ?thesis by simp
    next
      case False
      with rest have "db' = d2\<lparr>db_err := e2\<rparr>" by simp
      with False f1 f2 show ?thesis using failed [of d2] by (auto simp: pay_only_def)
    qed
  qed
qed

lemma SubBalance_pay:
  assumes "sdk_int_laws l" and "SubBalance l k a n db = Done db'"
  shows "pay_only n db db'"
proof -
  have add: "sdk_Int_Add l x y = Done z \<Longrightarrow> z = x + y" "sdk_Int_Sub l x y = Done z \<Longrightarrow> z = x - y" for x y z
    using NewInt_Done [OF assms(1)] by (simp_all add: sdk_Int_Add_def sdk_Int_Sub_def)
  have sub: "pay_only m db db'" if m: "SubBalance_pos l k a m db = Done db'" for m
  proof -
    obtain x w where sp: "SplitAtabiWeiAmount l m = Done (x, w)" using m by (auto simp: SubBalance_pos_def go_Done_iffs)
    from m [unfolded SubBalance_pos_def sp go_bind_def go.case prod.case Let_def [of "getTabiAddress db a"]] show ?thesis
    proof (cases rule: two_bank_calls)
      case (passed db2)
      then show ?thesis using add(1) NewInt_Done [OF assms(1), of m]
        by (auto simp: pay_only_def set_cur_def split: go.splits)
    qed (auto simp: pay_only_def)
  qed
  have add: "pay_only (- m) db db'" if m: "AddBalance_pos l k a m db = Done db'" for m
  proof -
    obtain x w where sp: "SplitAtabiWeiAmount l m = Done (x, w)" using m by (auto simp: AddBalance_pos_def go_Done_iffs)
    from m [unfolded AddBalance_pos_def sp go_bind_def go.case prod.case Let_def [of "getTabiAddress db a"]] show ?thesis
    proof (cases rule: two_bank_calls)
      case (passed db2)
      then show ?thesis using add(2) NewInt_Done [OF assms(1), of m]
        by (auto simp: pay_only_def set_cur_def split: go.splits)
    qed (auto simp: pay_only_def)
  qed
  show ?thesis using assms(2) sub [of n] add [of "- n"] by (auto simp: SubBalance_def pay_only_def split: if_splits)
qed

text \<open>A database on which only a payment happened is finalised without touching an account.\<close>

lemma finalize_layers_none:
  assumes "rng [] = []" and "\<forall>t \<in> set ts. ts_transientAccounts t = []"
  shows "finalize_layers l k rng ts db = Done db"
  using assms by (induction ts) (simp_all add: handleResidualFundsInDestructedAccounts_def clearAccountStateIfDestructed_def)

lemma Finalize_pay:
  assumes "sdk_int_laws l" and "rng [] = []" and "SubBalance l k a n (NewDBImpl k c False) = Done db1"
    and "Finalize l k rng db1 = Done ((Some s, None), db2)"
  shows "KVStore (base_ctx db2) = KVStore c" "s = n" "db_err db2 = None" "\<bar>s\<bar> < 2 ^ 256"
proof -
  have pay: "pay_only n (NewDBImpl k c False) db1" by (rule SubBalance_pay [OF assms(1,3)])
  then have "\<forall>t \<in> set (db_tempStateCurrent db1 # db_tempStatesHist db1). ts_transientAccounts t = []"
    by (auto simp: pay_only_def NewDBImpl_def Let_def Snapshot_def NewTemporaryState_def)
  from finalize_layers_none [of rng, OF assms(2) this, of l k db1] have fin: "finalize_layers l k rng (db_tempStateCurrent db1 # db_tempStatesHist db1) db1 = Done db1" .
  obtain b rest where err: "db_err db1 = None" and
      snap: "db_snapshottedCtxs db2 = EmitEvents (concat (map cx_events rest) @ cx_events (db_ctx db1)) (b\<lparr>cx_ms := cx_ms (db_ctx db1)\<rparr>)
        # map (\<lambda>c. c\<lparr>cx_ms := cx_ms (db_ctx db1)\<rparr>) rest" and e2: "db_err db2 = db_err db1"
      and sum: "sum_surplus l (ts_surplus (db_tempStateCurrent db1)) (db_tempStatesHist db1) = Done s"
  proof (rule Finalize_Done [OF assms(4)])
    fix db1' b rest
    assume "finalize_layers l k rng (db_tempStateCurrent db1 # db_tempStatesHist db1) db1 = Done db1'"
    then have "db1' = db1" unfolding fin by simp
    moreover assume "db_err db1 = None" "db_err db2 = db_err db1'"
      "db_snapshottedCtxs db2 = EmitEvents (concat (map cx_events rest) @ cx_events (db_ctx db1')) (b\<lparr>cx_ms := cx_ms (db_ctx db1')\<rparr>)
        # map (\<lambda>c. c\<lparr>cx_ms := cx_ms (db_ctx db1')\<rparr>) rest"
      "sum_surplus l (ts_surplus (db_tempStateCurrent db1')) (db_tempStatesHist db1') = Done s"
    ultimately show thesis using that by blast
  qed
  have "KVStore (base_ctx db2) = KVStore (db_ctx db1)" using snap by (simp add: base_ctx_def) (simp add: KVStore_def)
  with pay show "KVStore (base_ctx db2) = KVStore c" by (simp add: pay_only_def NewDBImpl_def Let_def Snapshot_def) (simp add: KVStore_def)
  show "s = n" "\<bar>s\<bar> < 2 ^ 256"
    using sum_surplus_Done [OF assms(1) sum] pay err
    by (simp_all add: pay_only_def NewDBImpl_def Let_def Snapshot_def NewTemporaryState_def)
  show "db_err db2 = None" using e2 err by simp
qed

text \<open>In delivery, a charge that succeeds leaves the module's store alone, records the payment under the hash of the
  transaction, and takes exactly that from the supply.\<close>

lemma charge_gas_deliver:
  assumes "sdk_int_laws l" and "supply_laws k T" and "buy_gas_law l k af" and "rng [] = []"
    and "\<not> ac_IsCheckTx a" and "\<not> ac_IsReCheckTx a" and "charge_gas l e d ps k ic evm af rng a etx sender = Done (None, c')"
  obtains s bz where "T (ctx_ext c') + s = T (ctx_ext (ac_ctx a))" "Int_Marshal ic (Some s) = Inr bz" "KVStore c' = KVStore (ac_ctx a)"
    "TransientStore c' = kv_set (TransientStore (ac_ctx a)) (AnteSurplusPrefix @ tx_Hash e etx) bz" "\<bar>s\<bar> < 2 ^ 256"
    "cx_TxIndex c' = cx_TxIndex (ac_ctx a)" "cx_BlockHeight c' = cx_BlockHeight (ac_ctx a)"
    "\<And>p. tx_GasPrice etx = Some p \<Longrightarrow> tx_BlobHashes etx = [] \<Longrightarrow> s = uint (tx_Gas etx) * p"
proof -
  let ?c = "ac_ctx a"
  let ?db0 = "NewDBImpl k ?c False"
  let ?cfg = "EthereumConfig DefaultChainConfig (Some (keeper_ChainID ?c))"
  obtain emsg where em: "GetEVMMessage ?c etx sender = Done emsg"
    using assms(7) unfolding charge_gas_def Let_def by (cases "GetEVMMessage ?c etx sender") simp_all
  obtain r where r: "GetVMBlockContext l k d ps evm (ac_env a) ?c = Done r"
    using assms(7) unfolding charge_gas_def Let_def em by (cases "GetVMBlockContext l k d ps evm (ac_env a) ?c") simp_all
  obtain bc where bc: "r = Inr bc"
    using assms(7) unfolding charge_gas_def Let_def em r by (cases r) simp_all
  have chk: "(ac_IsCheckTx a \<or> ac_IsReCheckTx a) = False" using assms(5,6) by simp
  have run: "go_bind (StatelessChecks af bc ?cfg emsg ?db0) (\<lambda>err.
      if err \<noteq> None then Done (Some (''ErrWrongSequence: '' @ the err), ?c)
      else go_bind (BuyGas af bc ?cfg emsg ?db0) (\<lambda>(err, db1).
        if err \<noteq> None then Done (Some (''ErrInsufficientFunds: '' @ the err), ?c)
        else go_bind (Finalize l k rng db1) (\<lambda>((surplus, ferr), db2).
          if ferr \<noteq> None then Done (ferr, ?c) else Done (AddAnteSurplus ic (base_ctx db2) (tx_Hash e etx) surplus)))) = Done (None, c')"
    using assms(7) unfolding charge_gas_def Let_def em r bc chk if_False by simp
  then obtain se where se: "StatelessChecks af bc ?cfg emsg ?db0 = Done se" by (cases "StatelessChecks af bc ?cfg emsg ?db0") simp_all
  have "se = None" using run unfolding se by (cases se) simp_all
  with run have run1: "go_bind (BuyGas af bc ?cfg emsg ?db0) (\<lambda>(err, db1).
      if err \<noteq> None then Done (Some (''ErrInsufficientFunds: '' @ the err), ?c)
      else go_bind (Finalize l k rng db1) (\<lambda>((surplus, ferr), db2).
        if ferr \<noteq> None then Done (ferr, ?c) else Done (AddAnteSurplus ic (base_ctx db2) (tx_Hash e etx) surplus))) = Done (None, c')"
    unfolding se by simp
  then obtain err1 db1 where buy1: "BuyGas af bc ?cfg emsg ?db0 = Done (err1, db1)" by (cases "BuyGas af bc ?cfg emsg ?db0") auto
  have err1: "err1 = None" using run1 unfolding buy1 by (cases err1) simp_all
  have run2: "go_bind (Finalize l k rng db1) (\<lambda>((surplus, ferr), db2).
      if ferr \<noteq> None then Done (ferr, ?c) else Done (AddAnteSurplus ic (base_ctx db2) (tx_Hash e etx) surplus)) = Done (None, c')"
    using run1 unfolding buy1 err1 by simp
  then obtain surplus ferr db2 where fin1: "Finalize l k rng db1 = Done ((surplus, ferr), db2)"
    by (cases "Finalize l k rng db1") auto
  have "ferr = None" and add: "AddAnteSurplus ic (base_ctx db2) (tx_Hash e etx) surplus = (None, c')"
    using run2 unfolding fin1 by (cases ferr; simp)+
  with buy1 err1 fin1 have buy: "BuyGas af bc ?cfg emsg ?db0 = Done (None, db1)" and fin: "Finalize l k rng db1 = Done ((surplus, None), db2)" by simp_all
  obtain amt where sub: "SubBalance l k (msg_From emsg) amt ?db0 = Done db1"
    and amt: "\<And>p. msg_GasPrice emsg = Some p \<Longrightarrow> msg_BlobHashes emsg = [] \<Longrightarrow> amt = uint (msg_GasLimit emsg) * p"
    using buy_gas_lawD [OF assms(3) buy] by auto
  have reach: "db_reachable l k ?c False db1" by (rule db_reachable.step [OF db_reachable.new, where op = "OpSubBalance (msg_From emsg) amt"]) (simp add: sub)
  obtain s where s: "surplus = Some s"
    using fin by (auto simp: Finalize_def go_Done_iffs Let_def split: if_splits)
  note pay = Finalize_pay [OF assms(1,4) sub fin [unfolded s]]
  have "T (ctx_ext (base_ctx db2)) + s = T (ctx_ext ?c)"
    unfolding base_ctx_def by (rule finalize_supply [OF assms(1,2) reach fin [unfolded s] pay(3)])
  moreover obtain bz where bz: "Int_Marshal ic (Some s) = Inr bz" "c' = with_transient (\<lambda>st. kv_set st (AnteSurplusPrefix @ tx_Hash e etx) bz) (base_ctx db2)"
    using add unfolding s by (auto simp: AddAnteSurplus_def split: sum.splits)
  moreover have "amt = uint (tx_Gas etx) * p" if "tx_GasPrice etx = Some p" "tx_BlobHashes etx = []" for p
    using amt [of p] em that by (auto simp: GetEVMMessage_def GetBaseFee_def Let_def go_Done_iffs)
  ultimately show thesis using that [of s bz] pay Finalize_transient [OF reach fin [unfolded s]] by simp
qed

section \<open>The chain in delivery\<close>

text \<open>A transaction that passes the handlers in delivery, decorator by decorator. \<open>c1\<close> is the context after the association,
  \<open>c2\<close> the one after the charge, in which the message runs.\<close>

lemma evmAnteHandler_deliver:
  assumes "evmAnteHandler l e sg d ps k ak ic evm af rng est a [SdkEVM msg] False = Done (None, a', tx')"
    and "\<not> ac_IsCheckTx a" and "\<not> ac_IsReCheckTx a" and "me_Derived msg = None"
    and "UnpackTxData ic (me_Data msg) = Inr td" and "\<forall>t. td \<noteq> TxAssociate t"
  obtains etx dv c1 c2 a1 where "AsTransaction l e ic msg = Done (Some (etx, td))" "recovered l sg af a etx dv"
    "tx' = [SdkEVM (msg\<lparr>me_Derived := Some dv\<rparr>)]" "associated_ctx l k ak dv (ac_ctx a) c1" "admissible af (ac_env a) etx"
    "check_fee_caps d ps af c1 (dv_Version dv) td = Done None" "ac_ctx a1 = c1" "\<not> ac_IsCheckTx a1" "\<not> ac_IsReCheckTx a1"
    "charge_gas l e d ps k ic evm af rng a1 etx (dv_SenderEVMAddr dv) = Done (None, c2)" "ac_ctx a' = c2"
    "keeper_GetNonce c2 (dv_SenderEVMAddr dv) = Done (tx_Nonce etx)" "chain_id_matches (keeper_ChainID c2) etx = Done True"
proof -
  from EVMPreprocessDecorator_Done [OF assms(1) [unfolded evmAnteHandler_def] assms(4-6)] obtain etx dv c1 where
    pre: "AsTransaction l e ic msg = Done (Some (etx, td))" "recovered l sg af a etx dv" "associated_ctx l k ak dv (ac_ctx a) c1"
    and next1: "BasicDecorator l e ic af (EVMFeeCheckDecorator l e d ps k ic evm af rng (EVMSigVerifyDecorator l e k ic af (GasDecorator d ps ic est ante_end)))
      (a\<lparr>ac_GasMeter := InfiniteGasMeter, ac_ctx := c1\<rparr>) [SdkEVM (msg\<lparr>me_Derived := Some dv\<rparr>)] False = Done (None, a', tx')" .
  let ?msg = "msg\<lparr>me_Derived := Some dv\<rparr>"
  have msg: "me_Derived ?msg = Some dv" "AsTransaction l e ic ?msg = Done (Some (etx, td))" using pre(1) by simp_all
  define a0 where "a0 = a\<lparr>ac_GasMeter := InfiniteGasMeter, ac_ctx := c1\<rparr>"
  have a0: "ac_env a0 = ac_env a" "ac_ctx a0 = c1" "ac_IsCheckTx a0 = ac_IsCheckTx a" "ac_IsReCheckTx a0 = ac_IsReCheckTx a"
    by (simp_all add: a0_def)
  from BasicDecorator_Done [OF next1 [folded a0_def] msg] obtain n where adm0: "admissible af (ac_env a0) etx"
    and next2: "EVMFeeCheckDecorator l e d ps k ic evm af rng (EVMSigVerifyDecorator l e k ic af (GasDecorator d ps ic est ante_end))
      (if \<not> ac_IsCheckTx a0 \<and> \<not> ac_IsReCheckTx a0 \<and> n = tx_Nonce etx
       then a0\<lparr>ac_DeliverTxCallback := Some (bump_nonce (dv_SenderEVMAddr dv) n)\<rparr> else a0) [SdkEVM ?msg] False = Done (None, a', tx')" .
  define a1 where "a1 = (if \<not> ac_IsCheckTx a0 \<and> \<not> ac_IsReCheckTx a0 \<and> n = tx_Nonce etx
       then a0\<lparr>ac_DeliverTxCallback := Some (bump_nonce (dv_SenderEVMAddr dv) n)\<rparr> else a0)"
  have adm: "admissible af (ac_env a) etx" using adm0 a0 by simp
  have a1: "ac_ctx a1 = c1" "ac_IsCheckTx a1 = ac_IsCheckTx a" "ac_IsReCheckTx a1 = ac_IsReCheckTx a" by (simp_all add: a1_def a0)
  from EVMFeeCheckDecorator_Done [OF next2 [folded a1_def] msg] obtain c2 p where
    fee0: "check_fee_caps d ps af (ac_ctx a1) (dv_Version dv) td = Done None"
    and charge: "charge_gas l e d ps k ic evm af rng a1 etx (dv_SenderEVMAddr dv) = Done (None, c2)"
    and next3: "EVMSigVerifyDecorator l e k ic af (GasDecorator d ps ic est ante_end) (a1\<lparr>ac_ctx := c2, ac_Priority := p\<rparr>) [SdkEVM ?msg] False = Done (None, a', tx')" .
  have fee: "check_fee_caps d ps af c1 (dv_Version dv) td = Done None" using fee0 a1 by simp
  have check: "\<not> ac_IsCheckTx (a1\<lparr>ac_ctx := c2, ac_Priority := p\<rparr>)" using a1 assms(2) by simp
  note sig = EVMSigVerifyDecorator_Done [OF next3 msg check]
  note gas = GasDecorator_Done [OF sig(3)]
  show thesis
    using that [OF pre(1,2) gas(1) pre(3) adm fee a1(1) _ _ charge] a1 assms(2,3) gas(2) sig(1,2) by simp
qed


lemma example_unpack: "UnpackTxData int_codec_bytes (me_Data msg_example) = Inr (TxLegacy legacy_example)" "\<forall>t. TxLegacy legacy_example \<noteq> TxAssociate t"
  "me_Derived msg_example = None" "\<not> ac_IsCheckTx actx_example" "\<not> ac_IsReCheckTx actx_example"
  by (simp_all add: msg_example_def UnpackTxData_def actx_example_def)


section \<open>What is charged\<close>

lemma associated_ctx_effect:
  assumes "supply_laws k T" and "auth_laws k ak T" and "associated_ctx l k ak dv c c1"
  shows "T (ctx_ext c1) = T (ctx_ext c)" "TransientStore c1 = TransientStore c" "GetEVMAddress c1 (dv_SenderTabiAddr dv) \<noteq> None"
    "cx_TxIndex c1 = cx_TxIndex c" "cx_BlockHeight c1 = cx_BlockHeight c"
proof -
  let ?ce = "EmitEvents [signer_event l (Some (dv_SenderEVMAddr dv)) (dv_SenderTabiAddr dv)] c"
  have "T (ctx_ext c1) = T (ctx_ext c) \<and> TransientStore c1 = TransientStore c \<and> GetEVMAddress c1 (dv_SenderTabiAddr dv) \<noteq> None \<and>
    cx_TxIndex c1 = cx_TxIndex c \<and> cx_BlockHeight c1 = cx_BlockHeight c"
  proof (cases "GetEVMAddress ?ce (dv_SenderTabiAddr dv) = None")
    case True
    then have as: "AssociateAddresses l k ak ?ce (dv_SenderTabiAddr dv) (dv_SenderEVMAddr dv) (dv_PubKey dv) = Done (None, c1)"
      using assms(3) by (simp add: associated_ctx_def)
    note AssociateAddresses_Done [OF assms(1,2) as]
    then show ?thesis by (simp add: module_same_def GetEVMAddress_def) (simp add: SetAddressMapping_def Let_def)
  qed (use assms(3) in \<open>simp add: associated_ctx_def\<close>)
  then show "T (ctx_ext c1) = T (ctx_ext c)" "TransientStore c1 = TransientStore c" "GetEVMAddress c1 (dv_SenderTabiAddr dv) \<noteq> None"
    "cx_TxIndex c1 = cx_TxIndex c" "cx_BlockHeight c1 = cx_BlockHeight c" by blast+
qed

text \<open>The effect of the ante handlers on a transaction that passes them in delivery, for the end of the block.\<close>

lemma ante_effect:
  assumes "sdk_int_laws l" and "supply_laws k T" and "auth_laws k ak T" and "buy_gas_law l k af" and "rng [] = []"
    and "evmAnteHandler l e sg d ps k ak ic evm af rng est a [SdkEVM msg] False = Done (None, a', tx')"
    and "\<not> ac_IsCheckTx a" and "\<not> ac_IsReCheckTx a" and "me_Derived msg = None"
    and "UnpackTxData ic (me_Data msg) = Inr td" and "\<forall>t. td \<noteq> TxAssociate t"
  obtains etx dv s bz where "AsTransaction l e ic msg = Done (Some (etx, td))" "tx' = [SdkEVM (msg\<lparr>me_Derived := Some dv\<rparr>)]"
    "T (ctx_ext (ac_ctx a')) + s = T (ctx_ext (ac_ctx a))" "Int_Marshal ic (Some s) = Inr bz" "\<bar>s\<bar> < 2 ^ 256"
    "TransientStore (ac_ctx a') = kv_set (TransientStore (ac_ctx a)) (AnteSurplusPrefix @ tx_Hash e etx) bz"
    "cx_TxIndex (ac_ctx a') = cx_TxIndex (ac_ctx a)" "cx_BlockHeight (ac_ctx a') = cx_BlockHeight (ac_ctx a)"
    "GetEVMAddress (ac_ctx a') (dv_SenderTabiAddr dv) \<noteq> None"
    "\<forall>p. tx_GasPrice etx = Some p \<and> tx_BlobHashes etx = [] \<longrightarrow> s = uint (tx_Gas etx) * p"
proof -
  from evmAnteHandler_deliver [OF assms(6-11)] obtain etx dv c1 c2 a1 where
    x: "AsTransaction l e ic msg = Done (Some (etx, td))" "tx' = [SdkEVM (msg\<lparr>me_Derived := Some dv\<rparr>)]"
    "associated_ctx l k ak dv (ac_ctx a) c1" "ac_ctx a1 = c1" "\<not> ac_IsCheckTx a1" "\<not> ac_IsReCheckTx a1"
    "charge_gas l e d ps k ic evm af rng a1 etx (dv_SenderEVMAddr dv) = Done (None, c2)" "ac_ctx a' = c2" .
  note as = associated_ctx_effect [OF assms(2,3) x(3)]
  from charge_gas_deliver [OF assms(1,2,4,5) x(5-7)] obtain s bz where
    c: "T (ctx_ext c2) + s = T (ctx_ext (ac_ctx a1))" "Int_Marshal ic (Some s) = Inr bz" "KVStore c2 = KVStore (ac_ctx a1)"
      "TransientStore c2 = kv_set (TransientStore (ac_ctx a1)) (AnteSurplusPrefix @ tx_Hash e etx) bz" "\<bar>s\<bar> < 2 ^ 256"
      "cx_TxIndex c2 = cx_TxIndex (ac_ctx a1)" "cx_BlockHeight c2 = cx_BlockHeight (ac_ctx a1)"
      "\<And>p. tx_GasPrice etx = Some p \<Longrightarrow> tx_BlobHashes etx = [] \<Longrightarrow> s = uint (tx_Gas etx) * p" by blast
  have "GetEVMAddress c2 (dv_SenderTabiAddr dv) \<noteq> None" using as(3) c(3) x(4) by (simp add: GetEVMAddress_def)
  then show thesis using that [OF x(1,2), of s bz] c as x(4,8) by simp
qed

text \<open>C17 (ante_charges): when a transaction passes the ante handlers in delivery, the price of its whole gas limit has left the supply and
  is recorded under the hash of the transaction, to be settled at the end of the block; the association of the sender, which may move
  balances between its two addresses, changes no supply; and afterwards the sender is associated.\<close>

theorem ante_charges:
  assumes "sdk_int_laws l" and "supply_laws k T" and "auth_laws k ak T" and "buy_gas_law l k af" and "rng [] = []"
    and "evmAnteHandler l e sg d ps k ak ic evm af rng est a [SdkEVM msg] False = Done (None, a', tx')"
    and "\<not> ac_IsCheckTx a" and "\<not> ac_IsReCheckTx a" and "me_Derived msg = None"
    and "UnpackTxData ic (me_Data msg) = Inr td" and "\<forall>t. td \<noteq> TxAssociate t"
    and "AsTransaction l e ic msg = Done (Some (etx, td))" and "tx_GasPrice etx = Some p" and "tx_BlobHashes etx = []"
  shows "\<exists>dv bz. tx' = [SdkEVM (msg\<lparr>me_Derived := Some dv\<rparr>)] \<and> GetEVMAddress (ac_ctx a') (dv_SenderTabiAddr dv) \<noteq> None \<and>
    T (ctx_ext (ac_ctx a')) = T (ctx_ext (ac_ctx a)) - uint (tx_Gas etx) * p \<and> Int_Marshal ic (Some (uint (tx_Gas etx) * p)) = Inr bz \<and>
    TransientStore (ac_ctx a') = kv_set (TransientStore (ac_ctx a)) (AnteSurplusPrefix @ tx_Hash e etx) bz"
proof -
  from ante_effect [OF assms(1-11)] obtain etx' dv s bz where
    x: "AsTransaction l e ic msg = Done (Some (etx', td))" "tx' = [SdkEVM (msg\<lparr>me_Derived := Some dv\<rparr>)]"
    "T (ctx_ext (ac_ctx a')) + s = T (ctx_ext (ac_ctx a))" "Int_Marshal ic (Some s) = Inr bz"
    "TransientStore (ac_ctx a') = kv_set (TransientStore (ac_ctx a)) (AnteSurplusPrefix @ tx_Hash e etx') bz"
    "GetEVMAddress (ac_ctx a') (dv_SenderTabiAddr dv) \<noteq> None"
    "\<forall>p. tx_GasPrice etx' = Some p \<and> tx_BlobHashes etx' = [] \<longrightarrow> s = uint (tx_Gas etx') * p" .
  have "etx' = etx" using x(1) assms(12) by simp
  then show ?thesis using x assms(13,14) by auto
qed

lemma ledger_auth_laws: "auth_laws ledger_keepers ledger_auth lg_total"
proof -
  have "lg_total (fst (lg_send x a b n w)) = lg_total x" if "snd (snd (lg_send x a b n w)) = None" for x a b n w
    using ledger_send_law that by (simp add: send_law_def ledger_keepers_def)
  then show ?thesis by (simp add: auth_laws_def ledger_auth_def ledger_keepers_def) (simp add: lg_total_def)
qed

lemma example_buy_gas: "buy_gas_law lib_lower ledger_keepers ante_example"
  by (auto simp: buy_gas_law_def ante_example_def go_Done_iffs)

theorem ante_charges_witness:
  "\<exists>a' tx'. evmAnteHandler lib_lower eth_simple sig_example dec_exact default_store ledger_keepers ledger_auth int_codec_bytes evm_idle ante_example id 0
      actx_example [SdkEVM msg_example] False = Done (None, a', tx') \<and>
    lg_total (ctx_ext (ac_ctx a')) = lg_total (ctx_ext (ac_ctx actx_example)) - 21000000000000"
proof -
  obtain a' where run: "evmAnteHandler lib_lower eth_simple sig_example dec_exact default_store ledger_keepers ledger_auth int_codec_bytes evm_idle ante_example id 0
      actx_example [SdkEVM msg_example] False = Done (None, a', [SdkEVM (msg_example\<lparr>me_Derived := Some derived_example\<rparr>)])"
    using ante_run_example by blast
  have etx: "tx_GasPrice etx_example = Some 1000000000" "tx_BlobHashes etx_example = []" "tx_Gas etx_example = 21000" by (simp_all add: etx_example_def)
  have rng: "id [] = []" by simp
  from ante_charges [OF lib_lower_laws(4) ledger_supply_laws ledger_auth_laws example_buy_gas rng run example_unpack(4,5,3,1,2) AsTransaction_example(2) etx(1,2)]
    run etx(3) show ?thesis by auto
qed

section \<open>Nonces\<close>

text \<open>A statement about every result that a computation can end with.\<close>

definition go_all :: "('a \<Rightarrow> bool) \<Rightarrow> 'a go \<Rightarrow> bool" where
  "go_all P m \<longleftrightarrow> (\<forall>x. m = Done x \<longrightarrow> P x)"

lemma go_all_simps [simp]:
  "go_all P (Done x) \<longleftrightarrow> P x" "go_all P (Panic err) \<longleftrightarrow> True" "go_all P (go_bind m f) \<longleftrightarrow> go_all (\<lambda>x. go_all P (f x)) m"
  "go_all P (deref v g) \<longleftrightarrow> (\<forall>x. v = Some x \<longrightarrow> go_all P (g x))"
  "go_all P (if b then m1 else m2) \<longleftrightarrow> (b \<longrightarrow> go_all P m1) \<and> (\<not> b \<longrightarrow> go_all P m2)"
  "go_all P (case pr of (y, z) \<Rightarrow> h y z) \<longleftrightarrow> (\<forall>y z. pr = (y, z) \<longrightarrow> go_all P (h y z))"
  by (auto simp: go_all_def deref_def go_Done_iffs split: option.splits prod.splits)

lemma go_all_any: "(\<And>x. P x) \<Longrightarrow> go_all P m"
  by (simp add: go_all_def)

text \<open>Only the basic checks set the callback that runs after the delivery.\<close>

abbreviation callback_is :: "('x ctx \<Rightarrow> 'x ctx go) option \<Rightarrow> error \<times> 'x ante_ctx \<times> sdk_Tx \<Rightarrow> bool" where
  "callback_is cb r \<equiv> ac_DeliverTxCallback (fst (snd r)) = cb"

definition keeps_callback :: "'x AnteHandler \<Rightarrow> bool" where
  "keeps_callback h \<longleftrightarrow> (\<forall>a tx simulate. go_all (callback_is (ac_DeliverTxCallback a)) (h a tx simulate))"

lemma keeps_callbackD: "keeps_callback h \<Longrightarrow> ac_DeliverTxCallback a = cb \<Longrightarrow> go_all (callback_is cb) (h a tx simulate)"
  by (auto simp: keeps_callback_def)

lemma keeps_callback_Gas: "keeps_callback (GasDecorator d ps ic est ante_end)"
  by (auto simp: keeps_callback_def GasDecorator_def ante_end_def intro!: go_all_any split: sum.split)

lemma keeps_callback_Sig: "keeps_callback next \<Longrightarrow> keeps_callback (EVMSigVerifyDecorator l e k ic af next)"
  by (auto simp: keeps_callback_def [of "EVMSigVerifyDecorator l e k ic af next"] EVMSigVerifyDecorator_def Let_def keeps_callbackD [of "next"] intro!: go_all_any)

lemma keeps_callback_Fee: "keeps_callback next \<Longrightarrow> keeps_callback (EVMFeeCheckDecorator l e d ps k ic evm af rng next)"
  by (auto simp: keeps_callback_def [of "EVMFeeCheckDecorator l e d ps k ic evm af rng next"] EVMFeeCheckDecorator_def
      keeps_callbackD [of "next"] intro!: go_all_any split: sum.split)

text \<open>The basic checks set it in delivery, on every path, when the nonce is the next one of the sender.\<close>

lemma Basic_callback:
  assumes "keeps_callback next" and "me_Derived msg = Some dv" and "AsTransaction l e ic msg = Done (Some (etx, td))"
    and "\<not> ac_IsCheckTx a" and "\<not> ac_IsReCheckTx a" and "keeper_GetNonce (ac_ctx a) (dv_SenderEVMAddr dv) = Done (tx_Nonce etx)"
  shows "go_all (callback_is (Some (bump_nonce (dv_SenderEVMAddr dv) (tx_Nonce etx)))) (BasicDecorator l e ic af next a [SdkEVM msg] simulate)"
  using assms by (auto simp: BasicDecorator_def keeps_callbackD [of "next"] intro!: go_all_any split: sum.split)

lemma bump_nonce_advances:
  assumes "keeper_GetNonce c a = Done n"
  shows "bump_nonce a m c = Done (if n = m then keeper_SetNonce c a (m + 1) else c)"
    and "keeper_GetNonce (if n = m then keeper_SetNonce c a (m + 1) else c) a = Done (if n = m then m + 1 else n)"
  using assms by (simp_all add: bump_nonce_def keeper_GetNonce_def keeper_SetNonce_def PrefixStore_Get_def)

text \<open>C18 (nonce_advances): whatever becomes of a transaction whose sender was recovered and whose nonce is the next one of the sender - it
  may fail a later check, or pass them all - the callback that is left for the end of its delivery moves the nonce of the
  sender on if nothing else has: it never panics where the nonce can be read, and afterwards the nonce is not that of the transaction, so the
  transaction cannot be delivered again.\<close>

theorem nonce_advances:
  assumes "evmAnteHandler l e sg d ps k ak ic evm af rng est a [SdkEVM msg] simulate = Done (err, a', tx')"
    and "Preprocess l e sg ic af a msg = Done (None, msg1)" and "me_Derived msg1 = Some dv" and "\<not> dv_IsAssociate dv"
    and "AsTransaction l e ic msg1 = Done (Some (etx, td))" and "\<not> ac_IsCheckTx a" and "\<not> ac_IsReCheckTx a"
    and "associated_ctx l k ak dv (ac_ctx a) c1" and "keeper_GetNonce c1 (dv_SenderEVMAddr dv) = Done (tx_Nonce etx)"
    and "keeper_GetNonce c (dv_SenderEVMAddr dv) = Done n"
  shows "\<exists>cb c' n'. ac_DeliverTxCallback a' = Some cb \<and> cb c = Done c' \<and> keeper_GetNonce c' (dv_SenderEVMAddr dv) = Done n' \<and> n' \<noteq> tx_Nonce etx"
proof -
  let ?sig = "EVMSigVerifyDecorator l e k ic af (GasDecorator d ps ic est ante_end)"
  let ?fee = "EVMFeeCheckDecorator l e d ps k ic evm af rng ?sig"
  let ?a0 = "a\<lparr>ac_GasMeter := InfiniteGasMeter, ac_ctx := c1\<rparr>"
  have run: "BasicDecorator l e ic af ?fee ?a0 [SdkEVM msg1] simulate = Done (err, a', tx')"
  proof (cases "GetEVMAddress (EmitEvents [signer_event l (Some (dv_SenderEVMAddr dv)) (dv_SenderTabiAddr dv)] (ac_ctx a)) (dv_SenderTabiAddr dv) = None")
    case True
    then show ?thesis using assms(1-4,8) by (simp add: evmAnteHandler_def EVMPreprocessDecorator_def associated_ctx_def Let_def)
  next
    case False
    then show ?thesis using assms(1-4,8) by (simp add: evmAnteHandler_def EVMPreprocessDecorator_def associated_ctx_def Let_def)
  qed
  have "keeps_callback ?fee" by (intro keeps_callback_Fee keeps_callback_Sig keeps_callback_Gas)
  from Basic_callback [OF this assms(3,5), of ?a0 af simulate] assms(6,7,9) run
  have "ac_DeliverTxCallback a' = Some (bump_nonce (dv_SenderEVMAddr dv) (tx_Nonce etx))"
    by (simp add: go_all_def)
  moreover have "tx_Nonce etx + 1 \<noteq> tx_Nonce etx" by simp
  ultimately show ?thesis using bump_nonce_advances [OF assms(10), of "tx_Nonce etx"] by auto
qed

theorem nonce_advances_witness:
  "\<exists>a' tx' cb c' n'. evmAnteHandler lib_lower eth_simple sig_example dec_exact default_store ledger_keepers ledger_auth int_codec_bytes evm_idle ante_example id 0
      actx_example [SdkEVM msg_example] False = Done (None, a', tx') \<and> ac_DeliverTxCallback a' = Some cb \<and> cb payer_ctx = Done c' \<and>
    keeper_GetNonce c' evm_addr = Done n' \<and> n' \<noteq> 0"
proof -
  obtain a' where run: "evmAnteHandler lib_lower eth_simple sig_example dec_exact default_store ledger_keepers ledger_auth int_codec_bytes evm_idle ante_example id 0
      actx_example [SdkEVM msg_example] False = Done (None, a', [SdkEVM (msg_example\<lparr>me_Derived := Some derived_example\<rparr>)])"
    using ante_run_example by blast
  have dv: "dv_SenderEVMAddr derived_example = evm_addr" "dv_SenderTabiAddr derived_example = tabi_addr" "\<not> dv_IsAssociate derived_example"
    "me_Derived (msg_example\<lparr>me_Derived := Some derived_example\<rparr>) = Some derived_example" "tx_Nonce etx_example = 0"
    by (simp_all add: derived_example_def etx_example_def del: replicate.simps)
  have as: "associated_ctx lib_lower ledger_keepers ledger_auth derived_example (ac_ctx actx_example) linked_ctx"
    by (simp add: associated_ctx_def dv Let_def actx_example_def signed_ctx_def [symmetric] signed_ctx_facts Associate_example del: replicate.simps)
  have n1: "keeper_GetNonce linked_ctx (dv_SenderEVMAddr derived_example) = Done (tx_Nonce etx_example)" using linked_ctx_facts(5) dv by simp
  have n2: "keeper_GetNonce payer_ctx (dv_SenderEVMAddr derived_example) = Done 0"
    by (simp add: keeper_GetNonce_def PrefixStore_Get_def payer_ctx_def dv example_simps del: replicate.simps)
  from nonce_advances [OF run Preprocess_example dv(4,3) AsTransaction_example(1) example_unpack(4,5) as n1 n2] run dv show ?thesis by auto
qed

section \<open>Pending transactions\<close>

lemma nonce_interval:
  assumes "uint m + int k < 2 ^ 64"
  shows "t < m + word_of_nat k \<and> m \<le> t \<longleftrightarrow> (\<exists>j < k. t = m + (word_of_nat j :: uint64))"
proof -
  have u: "uint (m + word_of_nat j :: uint64) = uint m + int j" if "j \<le> k" for j
    using assms that by (simp add: uint_word_ariths unsigned_of_nat mod_add_right_eq take_bit_eq_mod zmod_int)
  show ?thesis
  proof
    assume "t < m + word_of_nat k \<and> m \<le> t"
    then have t: "uint m \<le> uint t" "uint t < uint m + int k" using u [of k] by (simp_all add: word_less_def word_le_def)
    let ?j = "nat (uint t - uint m)"
    have "?j < k" "uint (m + word_of_nat ?j) = uint t" using t u [of ?j] by simp_all
    then show "\<exists>j < k. t = m + word_of_nat j" by (metis word_uint_eq_iff)
  next
    assume "\<exists>j < k. t = m + word_of_nat j"
    then obtain j where "j < k" "t = m + word_of_nat j" by blast
    then show "t < m + word_of_nat k \<and> m \<le> t" using u [of j] u [of k] by (simp add: word_less_def word_le_def)
  qed
qed

text \<open>C19 (pending_checker_decides): the mempool learns what to do with a transaction whose nonce was ahead of its sender. It is rejected
  exactly when the nonce has been used by then; it is accepted exactly when every nonce from the next one of the sender up to
  its own is held by a pending transaction and the sender can pay for it; otherwise it stays pending. The search for
  the next nonce that this takes always ends.\<close>

theorem pending_checker_decides:
  assumes "pool_ok l pool" and "length a = 20" and "keeper_GetNonce c a = Done mined"
    and "uint mined + int (length (pendings pool (addr_Hex l a))) < 2 ^ 64" and "hasSufficientBalance l k af c a etx = Done enough"
  shows "pending_checker l k af a etx c pool = Done (Some
    (if tx_Nonce etx < mined then Rejected
     else if (\<forall>n. mined \<le> n \<and> n \<le> tx_Nonce etx \<longrightarrow> pool_abs l pool (a, n) \<noteq> None) \<and> enough then Accepted
     else Pending))"
proof -
  let ?xs = "pendings pool (addr_Hex l a)" and ?t = "tx_Nonce etx"
  have "int (length ?xs) < 2 ^ 64" using assms(4) uint_ge_0 [of mined] by linarith
  then have len: "length ?xs < 2 ^ 64" by simp
  obtain j where j: "j \<le> length ?xs" "\<forall>i < j. mined + word_of_nat i \<in> set (nonces ?xs)" "mined + word_of_nat j \<notin> set (nonces ?xs)"
    using next_nonce_exists [OF len] by blast
  have loop: "CalculateNextNonce_loop ?xs mined = Some (mined + word_of_nat j)"
    using next_nonce_reaches [OF pool_ok_sorted [OF assms(1)], of j mined "addr_Hex l a"] j by blast
  have held: "pool_abs l pool (a, n) \<noteq> None \<longleftrightarrow> n \<in> set (nonces ?xs)" for n using assms(2) by (simp add: pool_abs_def slot_None)
  have bound: "uint mined + int j < 2 ^ 64" using assms(4) j(1) by simp
  note ival = nonce_interval [OF bound]
  have "?t < mined + word_of_nat j \<longleftrightarrow> (\<forall>n. mined \<le> n \<and> n \<le> ?t \<longrightarrow> n \<in> set (nonces ?xs))" if "mined \<le> ?t"
  proof
    assume "?t < mined + word_of_nat j"
    then have "\<exists>i < j. n = mined + word_of_nat i" if "mined \<le> n \<and> n \<le> ?t" for n using that ival [of n] by auto
    then show "\<forall>n. mined \<le> n \<and> n \<le> ?t \<longrightarrow> n \<in> set (nonces ?xs)" using j(2) by blast
  next
    assume all: "\<forall>n. mined \<le> n \<and> n \<le> ?t \<longrightarrow> n \<in> set (nonces ?xs)"
    have "mined \<le> mined + word_of_nat j"
      using bound by (simp add: word_le_def uint_word_ariths unsigned_of_nat mod_add_right_eq take_bit_eq_mod zmod_int)
    with all j(3) show "?t < mined + word_of_nat j" by (metis not_le)
  qed
  then have "?t < mined + word_of_nat j \<longleftrightarrow> (\<forall>n. mined \<le> n \<and> n \<le> ?t \<longrightarrow> pool_abs l pool (a, n) \<noteq> None)" if "\<not> ?t < mined"
    using that unfolding held by (simp add: not_less)
  then show ?thesis
    using assms(3,5) by (cases "?t < mined") (simp_all add: pending_checker_def CalculateNextNonce_def loop del: not_None_eq)
qed

theorem pending_checker_decides_witness:
  "pending_checker lib_lower ledger_keepers ante_example evm_addr (etx_example\<lparr>tx_Nonce := 3\<rparr>) payer_ctx empty_pool = Done (Some Pending)"
proof -
  have n: "keeper_GetNonce payer_ctx evm_addr = Done 0"
    by (simp add: keeper_GetNonce_def PrefixStore_Get_def payer_ctx_def example_simps del: replicate.simps)
  have len: "length evm_addr = 20" by simp
  have room: "uint (0 :: uint64) + int (length (pendings empty_pool (addr_Hex lib_lower evm_addr))) < 2 ^ 64" by (simp add: pendings_def empty_pool_def)
  have none: "pool_abs lib_lower empty_pool x = None" for x by (simp add: empty_pool_ok)
  have "GetTabiAddressOrDefault payer_ctx evm_addr = evm_addr"
    by (simp add: GetTabiAddressOrDefault_def GetTabiAddress_def payer_ctx_def example_simps del: replicate.simps)
  then have b: "hasSufficientBalance lib_lower ledger_keepers ante_example payer_ctx evm_addr (etx_example\<lparr>tx_Nonce := 3\<rparr>) = Done False"
    by (simp add: hasSufficientBalance_def keeper_GetBalance_def Let_def payer_ctx_def ledger_keepers_def lg_get_def sdk_Int_Sub_def sdk_Int_Mul_def sdk_Int_Add_def
        lower_fits example_addresses ante_example_def etx_example_def del: replicate.simps)
  from pending_checker_decides [OF empty_pool_ok(1) len n room b] show ?thesis by (simp add: none etx_example_def)
qed

end
