(* ===== verification/Block_Props.thy ===== *)
theory Block_Props
  imports Ante_Props
begin

text \<open>
  The life of a block: the deliveries of its transactions and \<open>EndBlock\<close>. A delivery follows the runner of the Cosmos SDK:
  what the ante handlers did is kept only when they pass, what the message did only when it succeeds, and the callback that the
  handlers left runs last in any case. Shown: what the transactions took from the supply and what they gave to it is
  settled at the end of the block.
\<close>

section \<open>What the transient store owes\<close>

definition ante_total :: "int_codec \<Rightarrow> (bytes \<Rightarrow> bigint) \<Rightarrow> store \<Rightarrow> int" where
  "ante_total ic junk st =
     sum_list (map (\<lambda>(key, v). the (case Int_Unmarshal ic v None of Inl err \<Rightarrow> junk v | Inr s \<Rightarrow> s)) (prefix_iterator st AnteSurplusPrefix))"

definition deferred_surplus :: "int_codec \<Rightarrow> store \<Rightarrow> uint64 \<Rightarrow> int" where
  "deferred_surplus ic st i =
     (case kv_get st (DeferredInfoKey i) of
        None \<Rightarrow> 0
      | Some bz \<Rightarrow> (case DeferredInfo_Unmarshal ic bz DeferredInfo_zero of Inl err \<Rightarrow> 0 | Inr info \<Rightarrow> the (di_Surplus info)))"

definition deferred_ok :: "int_codec \<Rightarrow> store \<Rightarrow> uint64 \<Rightarrow> bool" where
  "deferred_ok ic st i \<longleftrightarrow>
     (\<forall>bz. kv_get st (DeferredInfoKey i) = Some bz \<longrightarrow>
        (\<exists>info s. DeferredInfo_Unmarshal ic bz DeferredInfo_zero = Inr info \<and> di_Error info = [] \<and> di_Surplus info = Some s))"

lemma mset_kv_set: "kv_get s key = None \<Longrightarrow> mset (kv_set s key v) = add_mset (key, v) (mset s)"
  by (induction s) (auto split: if_splits)

lemma ante_total_mset:
  "ante_total ic junk st = (\<Sum>e \<in># filter_mset (\<lambda>e. prefix AnteSurplusPrefix (fst e)) (mset st).
     the (case Int_Unmarshal ic (snd e) None of Inl err \<Rightarrow> junk (snd e) | Inr s \<Rightarrow> s))"
proof -
  have "ante_total ic junk st = sum_list (map (\<lambda>e. the (case Int_Unmarshal ic (snd e) None of Inl err \<Rightarrow> junk (snd e) | Inr s \<Rightarrow> s))
      (filter (\<lambda>e. prefix AnteSurplusPrefix (fst e)) st))"
    unfolding ante_total_def prefix_iterator_def map_map by (rule arg_cong [where f = sum_list], rule map_cong) (auto split: prod.split sum.split)
  then show ?thesis by (simp only: mset_filter [symmetric] mset_map [symmetric] sum_mset_sum_list)
qed

lemma ante_total_charge:
  assumes "kv_get st (AnteSurplusPrefix @ h) = None" and "Int_Unmarshal ic bz None = Inr (Some s)"
  shows "ante_total ic junk (kv_set st (AnteSurplusPrefix @ h) bz) = ante_total ic junk st + s"
  using assms by (simp add: ante_total_mset mset_kv_set)

lemma ante_total_iterator:
  "prefix_iterator st' AnteSurplusPrefix = prefix_iterator st AnteSurplusPrefix \<Longrightarrow> ante_total ic junk st' = ante_total ic junk st"
  by (simp add: ante_total_def)

lemma GetAnteSurplusSum_total:
  assumes "sdk_int_laws l" and "GetAnteSurplusSum l ic junk c = Done r"
  shows "r = ante_total ic junk (TransientStore c)"
proof -
  let ?f = "\<lambda>(key, v). case Int_Unmarshal ic v None of Inl err \<Rightarrow> junk v | Inr s \<Rightarrow> s"
  let ?iter = "prefix_iterator (TransientStore c) AnteSurplusPrefix"
  obtain ss where ss: "r = sum_list ss" "map Some ss = map ?f ?iter"
    using GetAnteSurplusSum_Done [OF assms(1) assms(2) [unfolded GetAnteSurplusSum_def]] by auto
  have "ss = map the (map Some ss)" by (simp add: comp_def)
  also have "\<dots> = map (\<lambda>(key, v). the (case Int_Unmarshal ic v None of Inl err \<Rightarrow> junk v | Inr s \<Rightarrow> s)) ?iter"
    unfolding ss(2) map_map by (rule map_cong) auto
  finally show ?thesis using ss(1) by (simp add: ante_total_def)
qed

section \<open>The end of the block settles it\<close>

text \<open>Over all the indices of the block, the infos that count are exactly those that are stored.\<close>

lemma GetAll_loop_sum:
  assumes "\<And>j. j < length msgs \<Longrightarrow> deferred_ok ic (TransientStore c) (word_of_nat (n + j))"
    and "GetAllEVMTxDeferredInfo_loop l e ic c results n msgs = Done (infos, logs)"
    and "\<And>i. i \<in> set infos \<Longrightarrow> \<not> failed_tx l i \<Longrightarrow> di_Surplus i \<noteq> None"
  shows "sum_list (map (\<lambda>i. the (di_Surplus i)) (filter (\<lambda>i. \<not> failed_tx l i) infos)) =
    (\<Sum>j < length msgs. deferred_surplus ic (TransientStore c) (word_of_nat (n + j)))"
  using assms
proof (induction msgs arbitrary: n infos logs)
  case (Cons m msgs)
  let ?st = "TransientStore c"
  let ?sum = "\<lambda>infos. sum_list (map (\<lambda>i. the (di_Surplus i)) (filter (\<lambda>i. \<not> failed_tx l i) infos))"
  obtain infos' logs' where rest: "GetAllEVMTxDeferredInfo_loop l e ic c results (n + 1) msgs = Done (infos', logs')" "set infos' \<subseteq> set infos"
    and eq: "?sum infos = deferred_surplus ic ?st (word_of_nat n) + ?sum infos'"
  proof (cases "kv_get ?st (DeferredInfoKey (word_of_nat n))")
    case None
    then have "deferred_surplus ic ?st (word_of_nat n) = 0" by (simp add: deferred_surplus_def)
    moreover obtain infos' logs' where "GetAllEVMTxDeferredInfo_loop l e ic c results (n + 1) msgs = Done (infos', logs')"
      "infos = infos' \<or> (\<exists>i. infos = i # infos' \<and> di_Surplus i = None)"
      using Cons.prems(2) None
      by (auto simp: Let_def go_Done_iffs DeferredInfo_zero_def split: if_splits option.splits)
    moreover have "failed_tx l i" if "infos = i # infos'" "di_Surplus i = None" for i infos' using Cons.prems(3) [of i] that by auto
    ultimately show thesis using that by (auto simp: subset_insertI)
  next
    case (Some bz)
    obtain info s where info: "DeferredInfo_Unmarshal ic bz DeferredInfo_zero = Inr info" "di_Error info = []" "di_Surplus info = Some s"
      using Cons.prems(1) [of 0] Some by (auto simp: deferred_ok_def)
    then have "deferred_surplus ic ?st (word_of_nat n) = s" "\<not> failed_tx l info" using Some by (simp_all add: deferred_surplus_def failed_tx_def)
    moreover obtain infos' logs' where "GetAllEVMTxDeferredInfo_loop l e ic c results (n + 1) msgs = Done (infos', logs')" "infos = info # infos'"
      using Cons.prems(2) Some info(1) by (auto simp: Let_def go_Done_iffs split: if_splits)
    ultimately show thesis using that info(3) by auto
  qed
  have "?sum infos' = (\<Sum>j < length msgs. deferred_surplus ic ?st (word_of_nat (n + 1 + j)))"
    using Cons.IH [of "n + 1", OF _ rest(1)] Cons.prems(1) [of "Suc _"] Cons.prems(3) rest(2) by auto
  then show ?case using eq by (simp add: sum.lessThan_Suc_shift ac_simps del: sum.lessThan_Suc)
qed simp

section \<open>Steps that keep the balance\<close>

text \<open>Two stores that owe the same.\<close>

definition same_dues :: "store \<Rightarrow> store \<Rightarrow> bool" where
  "same_dues st st' \<longleftrightarrow> prefix_iterator st' AnteSurplusPrefix = prefix_iterator st AnteSurplusPrefix \<and>
     (\<forall>i. kv_get st' (DeferredInfoKey i) = kv_get st (DeferredInfoKey i))"

lemma same_dues_refl [simp]: "same_dues st st"
  by (simp add: same_dues_def)

lemma same_dues_trans: "same_dues a b \<Longrightarrow> same_dues b c \<Longrightarrow> same_dues a c"
  by (simp add: same_dues_def)

lemma same_dues_receipt [simp]:
  "same_dues st (kv_set st (ReceiptKey h) v)" "same_dues st (kv_delete st (ReceiptKey h))"
  by (simp_all add: same_dues_def prefix_iterator_set_other prefix_iterator_delete_other kv_get_kv_set DeferredInfoKey_def ReceiptKey_def
      AnteSurplusPrefix_def ReceiptKeyPrefix_def DeferredInfoPrefix_def)

text \<open>A step of the transaction at an index is balanced: what it takes from the supply is owed by the transient store.\<close>

definition balanced :: "int_codec \<Rightarrow> (bytes \<Rightarrow> bigint) \<Rightarrow> ('x \<Rightarrow> int) \<Rightarrow> uint64 \<Rightarrow> 'x ctx \<Rightarrow> 'x ctx \<Rightarrow> bool" where
  "balanced ic junk T i c c' \<longleftrightarrow>
     T (ctx_ext c') + ante_total ic junk (TransientStore c') + deferred_surplus ic (TransientStore c') i =
       T (ctx_ext c) + ante_total ic junk (TransientStore c) + deferred_surplus ic (TransientStore c) i \<and>
     (\<forall>j. j \<noteq> i \<longrightarrow> kv_get (TransientStore c') (DeferredInfoKey j) = kv_get (TransientStore c) (DeferredInfoKey j)) \<and>
     (deferred_ok ic (TransientStore c) i \<longrightarrow> deferred_ok ic (TransientStore c') i)"

lemma balanced_trans: "balanced ic junk T i a b \<Longrightarrow> balanced ic junk T i b c \<Longrightarrow> balanced ic junk T i a c"
  by (simp add: balanced_def)

lemma balanced_same: "T (ctx_ext c') = T (ctx_ext c) \<Longrightarrow> same_dues (TransientStore c) (TransientStore c') \<Longrightarrow> balanced ic junk T i c c'"
  by (simp add: balanced_def same_dues_def deferred_surplus_def deferred_ok_def ante_total_def)

lemma balanced_charge:
  assumes "T (ctx_ext c') + s = T (ctx_ext c)" and "TransientStore c' = kv_set (TransientStore c) (AnteSurplusPrefix @ h) bz"
    and "kv_get (TransientStore c) (AnteSurplusPrefix @ h) = None" and "Int_Unmarshal ic bz None = Inr (Some s)"
  shows "balanced ic junk T i c c'"
proof -
  have d: "kv_get (TransientStore c') (DeferredInfoKey j) = kv_get (TransientStore c) (DeferredInfoKey j)" for j
    by (simp add: assms(2) kv_get_kv_set DeferredInfoKey_def AnteSurplusPrefix_def DeferredInfoPrefix_def)
  have "ante_total ic junk (TransientStore c') = ante_total ic junk (TransientStore c) + s"
    unfolding assms(2) by (rule ante_total_charge [OF assms(3,4)])
  then show ?thesis using assms(1) d by (simp add: balanced_def deferred_surplus_def deferred_ok_def)
qed

text \<open>A deferred info that replaces the one of the same transaction.\<close>

lemma balanced_append:
  assumes "int_codec_laws ic" and "AppendToEvmTxDeferredInfo ic c1 b h (Some s) = Done c'" and "big_BitLen s \<le> 256" and "length b \<le> 2 ^ 20"
    and "length h \<le> 2 ^ 20" and "T (ctx_ext c1) + s = T (ctx_ext c) + deferred_surplus ic (TransientStore c) (cx_TxIndex c1)"
    and "same_dues (TransientStore c) (TransientStore c1)"
  shows "balanced ic junk T (cx_TxIndex c1) c c'"
proof (rule Append_stores [OF assms(1,3-5), of c1])
  fix bz
  let ?info = "DeferredInfo_zero\<lparr>di_TxIndex := ucast (cx_TxIndex c1), di_TxBloom := b, di_TxHash := h, di_Surplus := Some s\<rparr>"
  assume app: "AppendToEvmTxDeferredInfo ic c1 b h (Some s) = Done (with_transient (\<lambda>st. kv_set st (DeferredInfoKey (cx_TxIndex c1)) bz) c1)"
    and bz: "DeferredInfo_Unmarshal ic bz DeferredInfo_zero = Inr ?info"
  have c': "TransientStore c' = kv_set (TransientStore c1) (DeferredInfoKey (cx_TxIndex c1)) bz" "ctx_ext c' = ctx_ext c1" using app assms(2) by auto
  have "ante_total ic junk (TransientStore c') = ante_total ic junk (TransientStore c)"
    using assms(7) by (intro ante_total_iterator) (simp add: c' same_dues_def prefix_iterator_set_other DeferredInfoKey_def DeferredInfoPrefix_def AnteSurplusPrefix_def)
  moreover have "deferred_surplus ic (TransientStore c') (cx_TxIndex c1) = s" "deferred_ok ic (TransientStore c') (cx_TxIndex c1)"
    using bz by (simp_all add: c' deferred_surplus_def deferred_ok_def kv_get_kv_set) (simp add: DeferredInfo_zero_def)
  ultimately show ?thesis
    using assms(6,7) by (simp add: balanced_def c' kv_get_kv_set DeferredInfoKey_inj same_dues_def)
qed

section \<open>EVM transactions\<close>

text \<open>A run of the EVM that acts on the stores through the operations of the database only - so that no precompile of the
  chain is called - and whose database has recorded no failed balance operation at the end.\<close>

definition clean_run :: "lib \<Rightarrow> 'x keepers \<Rightarrow> ('x, 'p) evm_funs \<Rightarrow> 'p precompile_map \<Rightarrow> map_order \<Rightarrow> 'x ctx \<Rightarrow> core_Message \<Rightarrow> bool" where
  "clean_run l k evm pcs rng c m \<longleftrightarrow>
     (\<forall>bc cfg r db. TransitionDb evm bc cfg pcs m (NewDBImpl k c False) = Done (r, db) \<longrightarrow>
        db_reachable l k c False db \<and> (\<forall>sp db'. Finalize l k rng db = Done ((sp, None), db') \<longrightarrow> db_err db' = None))"

lemma clean_run_supply:
  assumes "sdk_int_laws l" and "supply_laws k T" and "clean_run l k evm pcs rng c m"
    and "TransitionDb evm bc cfg pcs m (NewDBImpl k c False) = Done (r, db)" and "Finalize l k rng db = Done ((Some s, None), db')"
  shows "T (ctx_ext (base_ctx db')) + s = T (ctx_ext c)" "TransientStore (base_ctx db') = TransientStore c" "cx_TxIndex (base_ctx db') = cx_TxIndex c"
proof -
  have reach: "db_reachable l k c False db" and clean: "db_err db' = None" using assms(3-5) unfolding clean_run_def by blast+
  show "T (ctx_ext (base_ctx db')) + s = T (ctx_ext c)"
    unfolding base_ctx_def by (rule finalize_supply [OF assms(1,2) reach assms(5) clean])
  show "TransientStore (base_ctx db') = TransientStore c" "cx_TxIndex (base_ctx db') = cx_TxIndex c"
    by (rule Finalize_transient [OF reach assms(5)])+
qed

lemma sdk_Int_Add_Done:
  assumes "sdk_int_laws l" and "sdk_Int_Add l x y = Done z"
  shows "z = x + y" "big_BitLen z \<le> 256"
proof -
  show z: "z = x + y" using assms(2) NewInt_Done [OF assms(1)] by (simp add: sdk_Int_Add_def)
  have "\<exists>err. NewIntFromBigInt l (x + y) = Panic err" if "big_BitLen (x + y) > 256" using assms(1) that by (simp add: sdk_int_laws_def)
  then show "big_BitLen z \<le> 256" using assms(2) by (force simp: z sdk_Int_Add_def not_less)
qed

lemma WriteReceipt_shape:
  assumes "WriteReceipt l e c db m ty h g err = Done (receipt, c')"
  shows "c' = SetTransientReceipt c h receipt" "rc_LogsBloom receipt = CreateBloom e (GetAllLogs db)"
proof -
  obtain p where p: "msg_GasPrice m = Some p" using assms by (cases "msg_GasPrice m") (simp_all add: WriteReceipt_def deref_def)
  show "c' = SetTransientReceipt c h receipt" using assms unfolding WriteReceipt_def p Let_def by (clarsimp simp: deref_def)
  show "rc_LogsBloom receipt = CreateBloom e (GetAllLogs db)"
    using assms unfolding WriteReceipt_def p Let_def
    by (cases "msg_To m"; cases "length (msg_Data m) > 0"; cases "db_precompileErr db") (auto simp: deref_def)
qed

lemma WriteReceipt_Done:
  assumes "eth_laws e" and "WriteReceipt l e c db m ty h g err = Done (receipt, c')"
  shows "ctx_ext c' = ctx_ext c" "cx_TxIndex c' = cx_TxIndex c" "same_dues (TransientStore c) (TransientStore c')"
    "length (rc_LogsBloom receipt) = BloomByteLength" "Bloom_SetBytes e (rc_LogsBloom receipt) = Done (rc_LogsBloom receipt)"
  using assms(1) by (simp_all add: WriteReceipt_shape [OF assms(2)] eth_laws_def)

lemma merge_synthetic_Done:
  assumes "sdk_int_laws l" and "merge_synthetic l ic env res db c = Done (x, res', db', c')"
    and "kv_get (TransientStore c) (DeferredInfoKey (cx_TxIndex c)) = None"
  shows "x = 0" "ctx_ext c' = ctx_ext c" "cx_TxIndex c' = cx_TxIndex c" "same_dues (TransientStore c) (TransientStore c')"
proof -
  define r where "r = (case GetTransientReceipt c (te_TxSum env) of
      Inl err \<Rightarrow> (res, db, c)
    | Inr rc \<Rightarrow> ((if rc_VmError rc \<noteq> [] then res\<lparr>mr_VmError := mr_VmError res @ [CHR 0x0A] @ rc_VmError rc @ [CHR 0x0A]\<rparr> else res),
        fold AddLog (synthetic_logs l rc) db, DeleteTransientReceipt c (te_TxSum env)))"
  obtain res1 db1 c1 where r1: "r = (res1, db1, c1)" by (cases r rule: prod_cases3)
  have c1: "ctx_ext c1 = ctx_ext c \<and> cx_TxIndex c1 = cx_TxIndex c \<and> same_dues (TransientStore c) (TransientStore c1)"
    using r1 unfolding r_def by (auto simp: DeleteTransientReceipt_def split: sum.splits)
  then have "GetEVMTxDeferredInfo ic c1 = None" using assms(3) by (simp add: GetEVMTxDeferredInfo_def same_dues_def)
  then have "x = 0 \<and> c' = c1" using assms(2) r1 unfolding merge_synthetic_def r_def by (simp add: Let_def)
  with c1 show "x = 0" "ctx_ext c' = ctx_ext c" "cx_TxIndex c' = cx_TxIndex c" "same_dues (TransientStore c) (TransientStore c')" by simp_all
qed

lemma EVMTransaction_balanced:
  assumes laws: "sdk_int_laws l" "supply_laws k T" "int_codec_laws ic" "eth_laws e"
    and run: "EVMTransaction l e d ps k ic evm pcs rng env c msg = Done r" "to_err r = None"
    and fresh: "kv_get (TransientStore c) (DeferredInfoKey (cx_TxIndex c)) = None"
    and clean: "\<And>m. msg_To m = tx_To etx \<Longrightarrow> msg_Data m = tx_Data etx \<Longrightarrow> clean_run l k evm pcs rng c m"
    and etx: "AsTransaction l e ic msg = Done (Some (etx, td))"
  shows "balanced ic junk T (cx_TxIndex c) c (to_ctx r)"
proof -
  obtain isA where isA: "IsAssociateTx ic msg = Done isA" using run(1) by (auto simp: EVMTransaction_def go_Done_iffs)
  show ?thesis
  proof (cases isA)
    case True
    then show ?thesis using run(1) isA by (auto simp: EVMTransaction_def intro: balanced_same)
  next
    case False
    define env1 where "env1 = PrepareCtxForEVMTransaction l env etx"
    obtain emsg r1 db1 res where emsg: "GetEVMMessage c etx (dv_SenderEVMAddr (the (me_Derived msg))) = Done emsg"
      and tr: "applyEVMMessage l k d ps evm pcs env1 c emsg (NewDBImpl k c False) = Done (Inr r1, db1)"
      and def1: "EVMTransaction_deferred l e d ps k ic rng env1 c etx emsg res db1 = Done r"
      using run isA False etx unfolding EVMTransaction_def
      by (auto simp: Let_def go_Done_iffs env1_def) (auto split: sum.split_asm)
    have m: "msg_To emsg = tx_To etx" "msg_Data emsg = tx_Data etx"
      using emsg by (auto simp: GetEVMMessage_def GetBaseFee_def Let_def go_Done_iffs)
    obtain bc cfg where trans: "TransitionDb evm bc cfg pcs emsg (NewDBImpl k c False) = Done (Inr r1, db1)"
      using tr by (auto simp: applyEVMMessage_def go_Done_iffs) (auto split: sum.split_asm)
    obtain sp ferr db2 where fin: "Finalize l k rng db1 = Done ((sp, ferr), db2)" using def1 by (auto simp: EVMTransaction_deferred_def go_Done_iffs)
    have ferr: "ferr = None" using def1 run(2) fin by (cases ferr) (auto simp: EVMTransaction_deferred_def)
    define mg where "mg = (if te_EVMEntryViaWasmdPrecompile env1 then merge_synthetic l ic env1 res db2 (base_ctx db2) else Done (0, res, db2, base_ctx db2))"
    have def2: "go_bind mg (\<lambda>(x, res1, db3, c2).
        go_bind (WriteReceipt l e c2 db3 emsg (ucast (tx_Type etx)) (tx_Hash e etx) (mr_GasUsed res1) (mr_VmError res1)) (\<lambda>(receipt, c3).
        deref sp (\<lambda>s. go_bind (sdk_Int_Add l s x) (\<lambda>total. go_bind (Bloom_SetBytes e (rc_LogsBloom receipt)) (\<lambda>bloom.
        go_bind (AppendToEvmTxDeferredInfo ic c3 bloom (tx_Hash e etx) (Some total)) (\<lambda>c4.
        deref (GetPriorityNormalizer ps c4) (\<lambda>normalizer. go_bind (Dec_MulInt64 d normalizer (mr_GasUsed res1)) (\<lambda>g.
        go_bind (Int_Uint64 (Dec_TruncateInt d g)) (\<lambda>gas.
          Done \<lparr>to_res = res1, to_err = None, to_ctx = c4, to_gas = gas, to_db = Some db2\<rparr>))))))))) = Done r"
      using def1 unfolding EVMTransaction_deferred_def fin ferr mg_def by simp
    obtain x res1 db3 c2 where merge: "mg = Done (x, res1, db3, c2)" using def2 by (cases mg) auto
    obtain receipt c3 s total bloom c4 where
      wr: "WriteReceipt l e c2 db3 emsg (ucast (tx_Type etx)) (tx_Hash e etx) (mr_GasUsed res1) (mr_VmError res1) = Done (receipt, c3)"
      and s: "sp = Some s" and total: "sdk_Int_Add l s x = Done total" and bl: "Bloom_SetBytes e (rc_LogsBloom receipt) = Done bloom"
      and app: "AppendToEvmTxDeferredInfo ic c3 bloom (tx_Hash e etx) (Some total) = Done c4" and c4: "to_ctx r = c4"
      using def2 unfolding merge by (auto simp: go_Done_iffs)
    note sup = clean_run_supply [OF laws(1,2) clean [OF m] trans fin [unfolded s ferr]]
    have c2: "x = 0 \<and> ctx_ext c2 = ctx_ext (base_ctx db2) \<and> cx_TxIndex c2 = cx_TxIndex c \<and> same_dues (TransientStore c) (TransientStore c2)"
    proof (cases "te_EVMEntryViaWasmdPrecompile env1")
      case True
      then have "merge_synthetic l ic env1 res db2 (base_ctx db2) = Done (x, res1, db3, c2)" using merge by (simp add: mg_def)
      from merge_synthetic_Done [OF laws(1) this] fresh sup show ?thesis by simp
    qed (use merge sup in \<open>auto simp: mg_def\<close>)
    note wr = WriteReceipt_Done [OF laws(4) wr]
    have "balanced ic junk T (cx_TxIndex c3) c c4"
    proof (rule balanced_append [OF laws(3)])
      show "AppendToEvmTxDeferredInfo ic c3 (rc_LogsBloom receipt) (tx_Hash e etx) (Some total) = Done c4" using app bl wr(5) by simp
      show "big_BitLen total \<le> 256" by (rule sdk_Int_Add_Done [OF laws(1) total])
      show "length (rc_LogsBloom receipt) \<le> 2 ^ 20" by (simp add: wr(4) BloomByteLength_def)
      show "length (tx_Hash e etx) \<le> 2 ^ 20" using laws(4) by (simp add: eth_laws_def)
      show "T (ctx_ext c3) + total = T (ctx_ext c) + deferred_surplus ic (TransientStore c) (cx_TxIndex c3)"
        using sdk_Int_Add_Done(1) [OF laws(1) total] c2 wr(1,2) sup(1) fresh by (simp add: deferred_surplus_def)
      show "same_dues (TransientStore c) (TransientStore c3)" using c2 wr(3) by (blast intro: same_dues_trans)
    qed
    then show ?thesis using c4 c2 wr(2) by simp
  qed
qed

section \<open>Callbacks\<close>

abbreviation callback_ok :: "('x ctx \<Rightarrow> 'x ctx go) option \<Rightarrow> error \<times> 'x ante_ctx \<times> sdk_Tx \<Rightarrow> bool" where
  "callback_ok cb r \<equiv> callback_is cb r \<or> (\<exists>x n. callback_is (Some (bump_nonce x n)) r)"

lemma go_all_mono: "go_all P m \<Longrightarrow> (\<And>x. P x \<Longrightarrow> Q x) \<Longrightarrow> go_all Q m"
  by (simp add: go_all_def)

lemma Basic_callback_ok:
  assumes "keeps_callback next" and "ac_DeliverTxCallback a = cb"
  shows "go_all (callback_ok cb) (BasicDecorator l e ic af next a tx simulate)"
proof -
  have k1: "go_all (callback_ok cb) (next a tx simulate)" by (rule go_all_mono [OF keeps_callbackD [OF assms]]) simp
  have k2: "go_all (callback_ok cb) (next (a\<lparr>ac_DeliverTxCallback := Some (bump_nonce x n)\<rparr>) tx simulate)" for x n
    by (rule go_all_mono [OF keeps_callbackD [OF assms(1)]]) auto
  show ?thesis using assms(2) k1 k2 by (auto simp: BasicDecorator_def intro!: go_all_any split: sum.split option.split)
qed

lemma Preprocess_callback_ok:
  assumes "\<And>a tx. go_all (callback_ok (ac_DeliverTxCallback a)) (next a tx simulate)"
  shows "go_all (callback_ok (ac_DeliverTxCallback a)) (EVMPreprocessDecorator l e sg ic k ak af next a tx simulate)"
  using assms [of "a\<lparr>ac_GasMeter := _, ac_ctx := _\<rparr>"] by (auto simp: EVMPreprocessDecorator_def Let_def intro!: go_all_any)

definition run_callback :: "'x ante_ctx \<Rightarrow> 'x ctx \<Rightarrow> 'x ctx go" where
  "run_callback a c = (case ac_DeliverTxCallback a of None \<Rightarrow> Done c | Some f \<Rightarrow> f c)"

lemma run_callback_keeps:
  assumes "evmAnteHandler l e sg d ps k ak ic evm af rng est a tx simulate = Done (err, a', tx')" and "ac_DeliverTxCallback a = None"
    and "run_callback a' c = Done c'"
  shows "ctx_ext c' = ctx_ext c" "TransientStore c' = TransientStore c"
proof -
  let ?fee = "EVMFeeCheckDecorator l e d ps k ic evm af rng (EVMSigVerifyDecorator l e k ic af (GasDecorator d ps ic est ante_end))"
  have "keeps_callback ?fee" by (intro keeps_callback_Fee keeps_callback_Sig keeps_callback_Gas)
  then have "go_all (callback_ok (ac_DeliverTxCallback a)) (EVMPreprocessDecorator l e sg ic k ak af (BasicDecorator l e ic af ?fee) a tx simulate)"
    by (intro Preprocess_callback_ok Basic_callback_ok refl)
  then have "callback_ok None (err, a', tx')" using assms(1,2) by (simp add: go_all_def evmAnteHandler_def)
  then show "ctx_ext c' = ctx_ext c" "TransientStore c' = TransientStore c"
    using assms(3) by (auto simp: run_callback_def bump_nonce_def keeper_SetNonce_def go_Done_iffs split: if_splits)
qed

section \<open>Deliveries\<close>

text \<open>The context in which the transaction at an index is delivered.\<close>

definition starts_at :: "nat \<Rightarrow> 'x ctx \<Rightarrow> 'x ante_ctx \<Rightarrow> bool" where
  "starts_at i c a \<longleftrightarrow> cx_ms (ac_ctx a) = cx_ms c \<and> cx_TxIndex (ac_ctx a) = word_of_nat i \<and> \<not> ac_IsCheckTx a \<and> \<not> ac_IsReCheckTx a \<and>
     ac_DeliverTxCallback a = None"

lemma starts_atD:
  assumes "starts_at i c a"
  shows "ctx_ext (ac_ctx a) = ctx_ext c" "TransientStore (ac_ctx a) = TransientStore c"
  using assms by (simp_all add: starts_at_def ctx_ext_def TransientStore_def)

text \<open>The delivery of an EVM transaction: refused by the handlers, charged by them and then failed or executed, or an association.
  The premise about the store says that the transaction has not been charged in this block before.\<close>

inductive delivery ::
  "lib \<Rightarrow> eth_funs \<Rightarrow> sig_lib \<Rightarrow> dec_funs \<Rightarrow> 'x param_store \<Rightarrow> 'x keepers \<Rightarrow> 'x auth_keeper \<Rightarrow> int_codec \<Rightarrow> ('x, 'p) evm_funs \<Rightarrow> 'p precompile_map \<Rightarrow>
   'x ante_funs \<Rightarrow> map_order \<Rightarrow> nat \<Rightarrow> 'x ctx \<Rightarrow> 'x ctx \<Rightarrow> bool"
  for l e sg d ps k ak ic evm pcs af rng i c where
  panicked: "starts_at i c a \<Longrightarrow> evmAnteHandler l e sg d ps k ak ic evm af rng est a [SdkEVM msg] False = Panic err \<Longrightarrow>
    delivery l e sg d ps k ak ic evm pcs af rng i c c"
| refused: "starts_at i c a \<Longrightarrow> evmAnteHandler l e sg d ps k ak ic evm af rng est a [SdkEVM msg] False = Done (Some err, a', tx') \<Longrightarrow>
    run_callback a' c = Done c' \<Longrightarrow> delivery l e sg d ps k ak ic evm pcs af rng i c c'"
| associated: "starts_at i c a \<Longrightarrow> evmAnteHandler l e sg d ps k ak ic evm af rng est a [SdkEVM msg] False = Done (None, a', tx') \<Longrightarrow>
    me_Derived msg = None \<Longrightarrow> UnpackTxData ic (me_Data msg) = Inr (TxAssociate atx) \<Longrightarrow> delivery l e sg d ps k ak ic evm pcs af rng i c (ac_ctx a')"
| failed: "starts_at i c a \<Longrightarrow> evmAnteHandler l e sg d ps k ak ic evm af rng est a [SdkEVM msg] False = Done (None, a', [SdkEVM msg']) \<Longrightarrow>
    me_Derived msg = None \<Longrightarrow> UnpackTxData ic (me_Data msg) = Inr td \<Longrightarrow> \<forall>t. td \<noteq> TxAssociate t \<Longrightarrow>
    AsTransaction l e ic msg = Done (Some (etx, td)) \<Longrightarrow> kv_get (TransientStore c) (AnteSurplusPrefix @ tx_Hash e etx) = None \<Longrightarrow>
    \<forall>r. EVMTransaction l e d ps k ic evm pcs rng (ac_env a') (ac_ctx a') msg' = Done r \<longrightarrow> to_err r \<noteq> None \<Longrightarrow>
    run_callback a' (ac_ctx a') = Done c' \<Longrightarrow> delivery l e sg d ps k ak ic evm pcs af rng i c c'"
| executed: "starts_at i c a \<Longrightarrow> evmAnteHandler l e sg d ps k ak ic evm af rng est a [SdkEVM msg] False = Done (None, a', [SdkEVM msg']) \<Longrightarrow>
    me_Derived msg = None \<Longrightarrow> UnpackTxData ic (me_Data msg) = Inr td \<Longrightarrow> \<forall>t. td \<noteq> TxAssociate t \<Longrightarrow>
    AsTransaction l e ic msg = Done (Some (etx, td)) \<Longrightarrow> kv_get (TransientStore c) (AnteSurplusPrefix @ tx_Hash e etx) = None \<Longrightarrow>
    EVMTransaction l e d ps k ic evm pcs rng (ac_env a') (ac_ctx a') msg' = Done r \<Longrightarrow> to_err r = None \<Longrightarrow>
    \<forall>m. msg_To m = tx_To etx \<and> msg_Data m = tx_Data etx \<longrightarrow> clean_run l k evm pcs rng (ac_ctx a') m \<Longrightarrow>
    run_callback a' (to_ctx r) = Done c' \<Longrightarrow> delivery l e sg d ps k ak ic evm pcs af rng i c c'"

lemma ante_balanced:
  assumes laws: "sdk_int_laws l" "supply_laws k T" "int_codec_laws ic" "auth_laws k ak T" "buy_gas_law l k af" "rng [] = []"
    and run: "starts_at i c a" "evmAnteHandler l e sg d ps k ak ic evm af rng est a [SdkEVM msg] False = Done (None, a', tx')"
    and msg: "me_Derived msg = None" "UnpackTxData ic (me_Data msg) = Inr td" "\<forall>t. td \<noteq> TxAssociate t"
      "AsTransaction l e ic msg = Done (Some (etx, td))"
    and fresh: "kv_get (TransientStore c) (AnteSurplusPrefix @ tx_Hash e etx) = None"
  obtains dv where "tx' = [SdkEVM (msg\<lparr>me_Derived := Some dv\<rparr>)]" "balanced ic junk T j c (ac_ctx a')" "cx_TxIndex (ac_ctx a') = word_of_nat i"
    "\<forall>j. kv_get (TransientStore (ac_ctx a')) (DeferredInfoKey j) = kv_get (TransientStore c) (DeferredInfoKey j)"
proof -
  have chk: "\<not> ac_IsCheckTx a" "\<not> ac_IsReCheckTx a" "cx_TxIndex (ac_ctx a) = word_of_nat i" using run(1) by (simp_all add: starts_at_def)
  from ante_effect [OF laws(1,2,4-6) run(2) chk(1,2) msg(1-3)] obtain etx' dv s bz where
    x: "AsTransaction l e ic msg = Done (Some (etx', td))" "tx' = [SdkEVM (msg\<lparr>me_Derived := Some dv\<rparr>)]"
    "T (ctx_ext (ac_ctx a')) + s = T (ctx_ext (ac_ctx a))" "Int_Marshal ic (Some s) = Inr bz" "\<bar>s\<bar> < 2 ^ 256"
    "TransientStore (ac_ctx a') = kv_set (TransientStore (ac_ctx a)) (AnteSurplusPrefix @ tx_Hash e etx') bz"
    "cx_TxIndex (ac_ctx a') = cx_TxIndex (ac_ctx a)" .
  have e: "etx' = etx" using x(1) msg(4) by simp
  have "big_BitLen s \<le> 256" using x(5) by (simp add: big_BitLen_le_iff)
  then have bz: "Int_Unmarshal ic bz None = Inr (Some s)" using laws(3) x(4) by (auto simp: int_codec_laws_def)
  have st: "TransientStore (ac_ctx a') = kv_set (TransientStore c) (AnteSurplusPrefix @ tx_Hash e etx) bz" using x(6) e starts_atD [OF run(1)] by simp
  have T: "T (ctx_ext (ac_ctx a')) + s = T (ctx_ext c)" using x(3) starts_atD [OF run(1)] by simp
  show thesis
    using that [OF x(2) balanced_charge [OF T st fresh bz]] x(7) chk(3) st
    by (simp add: kv_get_kv_set DeferredInfoKey_def AnteSurplusPrefix_def DeferredInfoPrefix_def)
qed

lemma associate_balanced:
  assumes "supply_laws k T" "auth_laws k ak T" "starts_at i c a"
    and "evmAnteHandler l e sg d ps k ak ic evm af rng est a [SdkEVM msg] False = Done (None, a', tx')"
    and "me_Derived msg = None" and "UnpackTxData ic (me_Data msg) = Inr (TxAssociate atx)"
  shows "balanced ic junk T j c (ac_ctx a')"
proof -
  obtain err msg1 where p: "Preprocess l e sg ic af a msg = Done (err, msg1)"
    using assms(4) by (cases "Preprocess l e sg ic af a msg") (auto simp: evmAnteHandler_def EVMPreprocessDecorator_def)
  then have err: "err = None" using assms(4) by (cases err) (simp_all add: evmAnteHandler_def EVMPreprocessDecorator_def)
  obtain dv where dv: "me_Derived msg1 = Some dv" "dv_IsAssociate dv"
    using p assms(5,6) unfolding Preprocess_def err by (auto simp: go_Done_iffs split: prod.split_asm) (auto split: sum.split_asm)
  have pre: "Preprocess l e sg ic af a msg = Done (None, msg1)" "me_Derived msg1 = Some dv" "dv_IsAssociate dv" using p err dv by simp_all
  let ?c = "EmitEvents [signer_event l (Some (dv_SenderEVMAddr dv)) (dv_SenderTabiAddr dv)] (ac_ctx a)"
  have "AssociateAddresses l k ak ?c (dv_SenderTabiAddr dv) (dv_SenderEVMAddr dv) (dv_PubKey dv) = Done (None, ac_ctx a')"
    using assms(4) pre unfolding evmAnteHandler_def EVMPreprocessDecorator_def by (auto simp: go_Done_iffs Let_def split: if_splits)
  from AssociateAddresses_Done [OF assms(1,2) this]
  have "T (ctx_ext (ac_ctx a')) = T (ctx_ext c)" "TransientStore (ac_ctx a') = TransientStore c"
    using starts_atD [OF assms(3)] by (simp_all add: module_same_def)
  then show ?thesis by (intro balanced_same) simp_all
qed

lemma delivery_balanced:
  assumes laws: "sdk_int_laws l" "supply_laws k T" "int_codec_laws ic" "eth_laws e" "auth_laws k ak T" "buy_gas_law l k af" "rng [] = []"
    and "delivery l e sg d ps k ak ic evm pcs af rng i c c'" and fresh: "kv_get (TransientStore c) (DeferredInfoKey (word_of_nat i)) = None"
  shows "balanced ic junk T (word_of_nat i) c c'"
  using assms(8)
proof cases
  case panicked
  then show ?thesis by (simp add: balanced_same)
next
  case (refused a est msg err a' tx')
  then show ?thesis using run_callback_keeps [OF refused(2) _ refused(3)] by (intro balanced_same) (simp_all add: starts_at_def)
next
  case (associated a est msg a' tx' atx)
  show ?thesis unfolding associated(1) by (rule associate_balanced [OF laws(2,5) associated(2-)])
next
  case (failed a est msg a' msg' td etx)
  from ante_balanced [OF laws(1-3,5-7) failed(1-7), of junk] have bal: "balanced ic junk T (word_of_nat i) c (ac_ctx a')" by blast
  have "balanced ic junk T (word_of_nat i) (ac_ctx a') c'"
    using run_callback_keeps [OF failed(2) _ failed(9)] failed(1) by (intro balanced_same) (simp_all add: starts_at_def)
  with bal show ?thesis by (rule balanced_trans)
next
  case (executed a est msg a' msg' td etx r)
  from ante_balanced [OF laws(1-3,5-7) executed(1-7), of junk "word_of_nat i"] obtain dv where
    x: "[SdkEVM msg'] = [SdkEVM (msg\<lparr>me_Derived := Some dv\<rparr>)]" "balanced ic junk T (word_of_nat i) c (ac_ctx a')" "cx_TxIndex (ac_ctx a') = word_of_nat i"
    "\<forall>j. kv_get (TransientStore (ac_ctx a')) (DeferredInfoKey j) = kv_get (TransientStore c) (DeferredInfoKey j)" .
  have etx: "AsTransaction l e ic msg' = Done (Some (etx, td))" using x(1) executed(6) by simp
  have "balanced ic junk T (cx_TxIndex (ac_ctx a')) (ac_ctx a') (to_ctx r)"
    by (rule EVMTransaction_balanced [OF laws(1-4) executed(8,9) _ _ etx]) (use x(3,4) fresh executed(10) in auto)
  moreover have "balanced ic junk T (word_of_nat i) (to_ctx r) c'"
    using run_callback_keeps [OF executed(2) _ executed(11)] executed(1) by (intro balanced_same) (simp_all add: starts_at_def)
  ultimately show ?thesis using x(2,3) by (metis balanced_trans)
qed

section \<open>The block\<close>

text \<open>The transactions of a block of \<open>n\<close> transactions, in the order of their delivery: EVM transactions, each at an index of its own, and
  transactions of other modules, which keep the supply and leave nothing owed.\<close>

inductive block_run ::
  "lib \<Rightarrow> eth_funs \<Rightarrow> sig_lib \<Rightarrow> dec_funs \<Rightarrow> 'x param_store \<Rightarrow> 'x keepers \<Rightarrow> 'x auth_keeper \<Rightarrow> int_codec \<Rightarrow> ('x, 'p) evm_funs \<Rightarrow> 'p precompile_map \<Rightarrow>
   'x ante_funs \<Rightarrow> map_order \<Rightarrow> ('x \<Rightarrow> int) \<Rightarrow> nat \<Rightarrow> 'x ctx \<Rightarrow> nat list \<Rightarrow> 'x ctx \<Rightarrow> bool"
  for l e sg d ps k ak ic evm pcs af rng T n c0 where
  empty: "block_run l e sg d ps k ak ic evm pcs af rng T n c0 [] c0"
| evm: "block_run l e sg d ps k ak ic evm pcs af rng T n c0 is c \<Longrightarrow> i < n \<Longrightarrow> i \<notin> set is \<Longrightarrow>
    delivery l e sg d ps k ak ic evm pcs af rng i c c' \<Longrightarrow> block_run l e sg d ps k ak ic evm pcs af rng T n c0 (i # is) c'"
| other: "block_run l e sg d ps k ak ic evm pcs af rng T n c0 is c \<Longrightarrow> T (ctx_ext c') = T (ctx_ext c) \<Longrightarrow>
    same_dues (TransientStore c) (TransientStore c') \<Longrightarrow> block_run l e sg d ps k ak ic evm pcs af rng T n c0 is c'"

text \<open>What the transient store owes for a block of \<open>n\<close> transactions.\<close>

definition owed :: "int_codec \<Rightarrow> (bytes \<Rightarrow> bigint) \<Rightarrow> nat \<Rightarrow> store \<Rightarrow> int" where
  "owed ic junk n st = ante_total ic junk st + (\<Sum>j < n. deferred_surplus ic st (word_of_nat j))"

lemma word_of_nat_neq: "i < 2 ^ 64 \<Longrightarrow> j < 2 ^ 64 \<Longrightarrow> i \<noteq> j \<Longrightarrow> (word_of_nat i :: uint64) \<noteq> word_of_nat j"
  by (simp add: word_of_nat_eq_iff take_bit_nat_eq_self)

lemma balanced_owed:
  assumes "balanced ic junk T (word_of_nat i) c c'" and "i < n" and "n \<le> 2 ^ 64"
  shows "T (ctx_ext c') + owed ic junk n (TransientStore c') = T (ctx_ext c) + owed ic junk n (TransientStore c)"
    and "\<lbrakk>j < n; j \<noteq> i\<rbrakk> \<Longrightarrow> kv_get (TransientStore c') (DeferredInfoKey (word_of_nat j)) = kv_get (TransientStore c) (DeferredInfoKey (word_of_nat j))"
proof -
  show other: "kv_get (TransientStore c') (DeferredInfoKey (word_of_nat j)) = kv_get (TransientStore c) (DeferredInfoKey (word_of_nat j))"
    if "j < n" "j \<noteq> i" for j
    using assms word_of_nat_neq [of j i] that by (simp add: balanced_def)
  have split: "(\<Sum>j < n. f j) = f i + (\<Sum>j \<in> {..<n} - {i}. f j)" for f :: "nat \<Rightarrow> int"
    using assms(2) by (simp add: sum.remove [of "{..<n}" i])
  have "(\<Sum>j \<in> {..<n} - {i}. deferred_surplus ic (TransientStore c') (word_of_nat j)) = (\<Sum>j \<in> {..<n} - {i}. deferred_surplus ic (TransientStore c) (word_of_nat j))"
    by (rule sum.cong) (auto simp: deferred_surplus_def other)
  then show "T (ctx_ext c') + owed ic junk n (TransientStore c') = T (ctx_ext c) + owed ic junk n (TransientStore c)"
    using assms(1) by (simp add: owed_def split balanced_def)
qed

lemma same_dues_owed:
  assumes "same_dues st st'"
  shows "owed ic junk n st' = owed ic junk n st" "deferred_ok ic st' i = deferred_ok ic st i"
  using assms by (simp_all add: owed_def same_dues_def deferred_surplus_def deferred_ok_def ante_total_def)

lemma block_run_owed:
  assumes laws: "sdk_int_laws l" "supply_laws k T" "int_codec_laws ic" "eth_laws e" "auth_laws k ak T" "buy_gas_law l k af" "rng [] = []"
    and "n \<le> 2 ^ 64" and "TransientStore c0 = []" and "block_run l e sg d ps k ak ic evm pcs af rng T n c0 is c"
  shows "T (ctx_ext c) + owed ic junk n (TransientStore c) = T (ctx_ext c0) \<and> (\<forall>j < n. deferred_ok ic (TransientStore c) (word_of_nat j)) \<and>
    (\<forall>j < n. j \<notin> set is \<longrightarrow> kv_get (TransientStore c) (DeferredInfoKey (word_of_nat j)) = None)"
  using assms(10)
proof induction
  case empty
  then show ?case using assms(9) by (simp add: owed_def ante_total_def prefix_iterator_def deferred_surplus_def deferred_ok_def)
next
  case (evm "is" c i c')
  then have fresh: "kv_get (TransientStore c) (DeferredInfoKey (word_of_nat i)) = None" by blast
  have bal: "balanced ic junk T (word_of_nat i) c c'" by (rule delivery_balanced [OF laws evm.hyps(4) fresh])
  note keep = balanced_owed [OF bal evm.hyps(2) assms(8)]
  have "deferred_ok ic (TransientStore c') (word_of_nat j)" if "j < n" for j
  proof (cases "j = i")
    case True
    then show ?thesis using that evm.IH bal by (simp add: balanced_def)
  next
    case False
    then show ?thesis using that evm.IH keep(2) [of j] by (simp add: deferred_ok_def)
  qed
  then show ?case using keep evm.IH by simp
next
  case (other "is" c c')
  then show ?case using same_dues_owed [OF other.hyps(3)] by (simp add: same_dues_def)
qed

section \<open>A block with one transaction\<close>

lemma Finalize_fresh:
  "\<exists>db. Finalize lib_lower ledger_keepers id (NewDBImpl ledger_keepers c False) = Done ((Some 0, None), db) \<and> db_err db = None \<and>
     ctx_ext (base_ctx db) = ctx_ext c \<and> KVStore (base_ctx db) = KVStore c \<and> TransientStore (base_ctx db) = TransientStore c \<and> cx_TxIndex (base_ctx db) = cx_TxIndex c"
  by (simp add: NewDBImpl_def Let_def Snapshot_def Finalize_def handleResidualFundsInDestructedAccounts_def clearAccountStateIfDestructed_def
      NewTemporaryState_def flushCtxs_all flushEvents_def sdk_Int_Add_def lower_fits base_ctx_def split: sum.split)

lemma clean_idle: "clean_run lib_lower ledger_keepers evm_idle pcs id c m"
  using Finalize_fresh [of c] by (auto simp: clean_run_def evm_idle_def intro: db_reachable.new)

lemma BlockContext_charged:
  assumes "KVStore c = KVStore linked_ctx"
  shows "\<exists>bc. GetVMBlockContext lib_lower ledger_keepers dec_exact default_store evm_idle (env_example\<lparr>te_IsEVM := True\<rparr>) c = Done (Inr bc)"
proof -
  have "GetFeeCollectorAddress ledger_keepers c = Inr (replicate 20 3)"
    using linked_ctx_facts(4) assms by (simp add: GetFeeCollectorAddress_def GetEVMAddress_def)
  then show ?thesis by (simp add: GetVMBlockContext_def env_example_def default_params_example del: replicate.simps)
qed

lemma EVMTransaction_example:
  assumes "KVStore c = KVStore linked_ctx"
  shows "\<exists>r rz bz bloom. EVMTransaction lib_lower eth_simple dec_exact default_store ledger_keepers int_codec_bytes evm_idle [] id
      (env_example\<lparr>te_IsEVM := True\<rparr>) c (msg_example\<lparr>me_Derived := Some derived_example\<rparr>) = Done r \<and> to_err r = None \<and>
    KVStore (to_ctx r) = KVStore c \<and> ctx_ext (to_ctx r) = ctx_ext c \<and> length bloom = BloomByteLength \<and>
    TransientStore (to_ctx r) = kv_set (kv_set (TransientStore c) (ReceiptKey hash_example) rz) (DeferredInfoKey (cx_TxIndex c)) bz \<and>
    DeferredInfo_Unmarshal int_codec_bytes bz DeferredInfo_zero =
      Inr (DeferredInfo_zero\<lparr>di_TxIndex := ucast (cx_TxIndex c), di_TxBloom := bloom, di_TxHash := hash_example, di_Surplus := Some 0\<rparr>)"
proof -
  let ?env = "env_example\<lparr>te_IsEVM := True\<rparr>" and ?db0 = "NewDBImpl ledger_keepers c False"
  let ?res = "MsgEVMTransactionResponse_zero\<lparr>mr_Hash := hash_Hex lib_lower hash_example, mr_VmError := mr_VmError MsgEVMTransactionResponse_zero, mr_GasUsed := 21000,
    mr_ReturnData := [], mr_Logs := NewLogsFromEth lib_lower (GetAllLogs ?db0)\<rparr>"
  obtain bc where bc: "GetVMBlockContext lib_lower ledger_keepers dec_exact default_store evm_idle ?env c = Done (Inr bc)"
    using BlockContext_charged [OF assms] by blast
  obtain emsg where em: "GetEVMMessage c etx_example evm_addr = Done emsg" "msg_GasPrice emsg = Some 1000000000"
    by (simp add: GetEVMMessage_def etx_example_def GetBaseFee_def)
  obtain db where db: "Finalize lib_lower ledger_keepers id ?db0 = Done ((Some 0, None), db)" "ctx_ext (base_ctx db) = ctx_ext c"
      "KVStore (base_ctx db) = KVStore c" "TransientStore (base_ctx db) = TransientStore c" "cx_TxIndex (base_ctx db) = cx_TxIndex c"
    using Finalize_fresh [of c] by blast
  obtain receipt c3 where wr: "WriteReceipt lib_lower eth_simple (base_ctx db) db emsg (ucast (tx_Type etx_example)) hash_example 21000 (mr_VmError MsgEVMTransactionResponse_zero) = Done (receipt, c3)"
    unfolding WriteReceipt_def em(2) by (auto simp: deref_def Let_def)
  note w = WriteReceipt_shape [OF wr] WriteReceipt_Done [OF eth_simple_laws wr]
  have "big_BitLen 0 \<le> 256" "length (rc_LogsBloom receipt) \<le> 2 ^ 20" "length hash_example \<le> 2 ^ 20"
    using eth_simple_laws by (simp_all add: big_BitLen_le_iff w(6) BloomByteLength_def eth_laws_def)
  from Append_stores [OF int_codec_bytes_laws this, of c3] obtain bz where
    app: "AppendToEvmTxDeferredInfo int_codec_bytes c3 (rc_LogsBloom receipt) hash_example (Some 0) =
        Done (with_transient (\<lambda>st. kv_set st (DeferredInfoKey (cx_TxIndex c3)) bz) c3)"
      "DeferredInfo_Unmarshal int_codec_bytes bz DeferredInfo_zero =
        Inr (DeferredInfo_zero\<lparr>di_TxIndex := ucast (cx_TxIndex c3), di_TxBloom := rc_LogsBloom receipt, di_TxHash := hash_example, di_Surplus := Some 0\<rparr>)" .
  let ?c4 = "with_transient (\<lambda>st. kv_set st (DeferredInfoKey (cx_TxIndex c3)) bz) c3"
  have "EVMTransaction_deferred lib_lower eth_simple dec_exact default_store ledger_keepers int_codec_bytes id ?env c etx_example emsg ?res ?db0 =
      Done \<lparr>to_res = ?res, to_err = None, to_ctx = ?c4, to_gas = 21000, to_db = Some db\<rparr>"
    unfolding EVMTransaction_deferred_def db(1)
    by (simp add: env_example_def wr sdk_Int_Add_def lower_fits w(7) app(1) default_params_example dec_example Int_Uint64_def)
  moreover have "PrepareCtxForEVMTransaction lib_lower ?env etx_example = ?env"
    by (simp add: PrepareCtxForEVMTransaction_def IsWasmdCall_def etx_example_def)
  moreover have "applyEVMMessage lib_lower ledger_keepers dec_exact default_store evm_idle [] ?env c emsg ?db0 =
      Done (Inr \<lparr>er_UsedGas = 21000, er_Err = None, er_ReturnData = []\<rparr>, ?db0)"
    by (simp add: applyEVMMessage_def bc) (simp add: evm_idle_def)
  moreover have "IsAssociateTx int_codec_bytes (msg_example\<lparr>me_Derived := Some derived_example\<rparr>) = Done False"
    by (simp add: IsAssociateTx_def GetAssociateTx_def)
  moreover have "dv_SenderEVMAddr derived_example = evm_addr" by (simp add: derived_example_def)
  ultimately have "EVMTransaction lib_lower eth_simple dec_exact default_store ledger_keepers int_codec_bytes evm_idle [] id ?env c (msg_example\<lparr>me_Derived := Some derived_example\<rparr>) =
      Done \<lparr>to_res = ?res, to_err = None, to_ctx = ?c4, to_gas = 21000, to_db = Some db\<rparr>"
    by (simp add: EVMTransaction_def Let_def em(1) del: replicate.simps)
  then show ?thesis using app(2) w db by (auto simp: w(1) SetTransientReceipt_def)
qed

lemma surplus_example:
  assumes "Int_Marshal int_codec_bytes (Some 21000000000000) = Inr az"
    and "TransientStore c = kv_set (kv_set [(AnteSurplusPrefix @ hash_example, az)] (ReceiptKey hash_example) rz) (DeferredInfoKey 1) bz"
  shows "GetAnteSurplusSum lib_lower int_codec_bytes junk c = Done 21000000000000"
proof -
  have "big_BitLen 21000000000000 \<le> 256" by (simp add: big_BitLen_le_iff)
  then have "Int_Unmarshal int_codec_bytes az None = Inr (Some 21000000000000)"
    using int_codec_bytes_laws assms(1) unfolding int_codec_laws_def by fastforce
  moreover have "prefix_iterator (TransientStore c) AnteSurplusPrefix = [(hash_example, az)]"
    unfolding assms(2) DeferredInfoKey_def ReceiptKey_def
    by (simp add: prefix_iterator_set_other DeferredInfoPrefix_def ReceiptKeyPrefix_def AnteSurplusPrefix_def) (simp add: prefix_iterator_def)
  ultimately show ?thesis by (simp add: GetAnteSurplusSum_def sdk_Int_Add_def lower_fits)
qed

lemma EndBlock_example:
  assumes "ctx_ext c = paid_ext" and "Int_Marshal int_codec_bytes (Some 21000000000000) = Inr az" and "length bloom = BloomByteLength"
    and "TransientStore c = kv_set (kv_set [(AnteSurplusPrefix @ hash_example, az)] (ReceiptKey hash_example) rz) (DeferredInfoKey 1) bz"
    and "DeferredInfo_Unmarshal int_codec_bytes bz DeferredInfo_zero =
      Inr (DeferredInfo_zero\<lparr>di_TxIndex := 1, di_TxBloom := bloom, di_TxHash := hash_example, di_Surplus := Some 0\<rparr>)"
  shows "\<exists>c'. EndBlock lib_lower eth_simple dec_exact default_store ledger_keepers int_codec_bytes junk None
    \<lparr>kb_msgs = [None, Some msg_example], kb_txResults = [\<lparr>xr_Code = 0, xr_Log = []\<rparr>, \<lparr>xr_Code = 0, xr_Log = []\<rparr>]\<rparr> 21000 c = Done ([], c')"
proof -
  let ?info = "DeferredInfo_zero\<lparr>di_TxIndex := 1, di_TxBloom := bloom, di_TxHash := hash_example, di_Surplus := Some 0\<rparr>"
  define c1 where "c1 = RemoveFirstNTxHashes c DefaultTxHashesToRemove"
  have c1: "ctx_ext c1 = paid_ext" "TransientStore c1 = TransientStore c" by (simp_all add: c1_def assms(1))
  have keys: "kv_get (TransientStore c1) (DeferredInfoKey 0) = None" "kv_get (TransientStore c1) (DeferredInfoKey 1) = Some bz"
    by (simp_all add: c1(2) assms(4) kv_get_kv_set DeferredInfoKey_inj) (simp add: DeferredInfoKey_def AnteSurplusPrefix_def ReceiptKey_def DeferredInfoPrefix_def ReceiptKeyPrefix_def)
  have all: "GetAllEVMTxDeferredInfo lib_lower eth_simple int_codec_bytes c1
      \<lparr>kb_msgs = [None, Some msg_example], kb_txResults = [\<lparr>xr_Code = 0, xr_Log = []\<rparr>, \<lparr>xr_Code = 0, xr_Log = []\<rparr>]\<rparr> = Done ([?info], [])"
    using keys assms(5) by (simp add: GetAllEVMTxDeferredInfo_def Let_def go_map_def)
  have ante: "GetAnteSurplusSum lib_lower int_codec_bytes junk c1 = Done 21000000000000"
    using surplus_example [OF assms(2)] c1(2) assms(4) by simp
  have cb: "GetCoinbaseAddress 1 \<noteq> tabi_addr" by code_simp
  have "lg_get paid_ext (GetCoinbaseAddress 1) = 0" using cb by (simp add: lg_get_def paid_ext_def del: replicate.simps)
  then have loop: "EndBlock_loop lib_lower ledger_keepers collector [?info] 21000000000000 c1 = Done (21000000000000, [], c1)"
    by (simp add: failed_tx_def DeferredInfo_zero_def c1(1) ledger_ops sdk_Int_Sub_def sdk_Int_Add_def lower_fits Let_def go_map_def)
      (simp add: ledger_keepers_def sdk_Int_Sub_def lower_fits)
  have "distinct (map fst (lg_wei paid_ext))" by (simp add: paid_ext_def)
  moreover have "lg_get paid_ext (str_bytes ''evm'') \<ge> 0" by (simp add: lg_get_def paid_ext_def)
  ultimately have credit: "\<exists>c2. credit_surplus lib_lower ledger_keepers 21000000000000 c1 = Done ([], c2)"
    by (simp add: credit_surplus_def SplitAtabiWeiAmount_def big_Mod_def big_Quo_def AtabiToWeiMultiplier_def lower_fits Let_def c1(1) ledger_ops ctx_bank_def)
      (simp add: ledger_keepers_def lg_add_def)
  have "BytesToBlooms eth_simple [?info] = Done [bloom]" using eth_simple_laws assms(3) by (simp add: eth_laws_def go_map_def DeferredInfo_zero_def)
  then show ?thesis
    using all ante loop credit by (auto simp: EndBlock_def c1_def [symmetric] AdjustDynamicBaseFeePerGas_def Let_def ledger_ops)
qed

section \<open>The supply over a block\<close>

text \<open>C1 (block_conserves_supply): at the end of a block in which nothing is logged as failed, the supply is what it was at its start. What the
  ante handlers charged, what the transactions burned and minted through the state database and what failed transactions had already paid
  is settled by then, in whatever order the transactions came. If the transactions left more than the supply of the start, it stays with that: a
  negative surplus is not taken back.\<close>

theorem block_conserves_supply:
  assumes "sdk_int_laws l" and "supply_laws k T" and "int_codec_laws ic" and "eth_laws e" and "auth_laws k ak T" and "buy_gas_law l k af" and "rng [] = []"
    and "send_law k T" and "n \<le> 2 ^ 64" and "TransientStore c0 = []" and "block_run l e sg d ps k ak ic evm pcs af rng T n c0 is c"
    and "length (kb_msgs kb) = n" and "EndBlock l e d ps k ic junk maxGas kb blockGasUsed c = Done ([], c')"
  shows "T (ctx_ext c') = max (T (ctx_ext c0)) (T (ctx_ext c))"
proof -
  note run = block_run_owed [OF assms(1-7,9-11), of junk]
  from EndBlock_supply [OF assms(1,2,8,13)] obtain infos ante where
    fin: "GetAllEVMTxDeferredInfo l e ic c kb = Done (infos, [])" "GetAnteSurplusSum l ic junk c = Done ante"
      "\<forall>i \<in> set infos. \<not> failed_tx l i \<longrightarrow> di_Surplus i \<noteq> None"
      "T (ctx_ext c') = T (ctx_ext c) + max 0 (ante + sum_list (map (\<lambda>i. the (di_Surplus i)) (filter (\<lambda>i. \<not> failed_tx l i) infos)))" .
  have "sum_list (map (\<lambda>i. the (di_Surplus i)) (filter (\<lambda>i. \<not> failed_tx l i) infos)) =
      (\<Sum>j < n. deferred_surplus ic (TransientStore c) (word_of_nat j))"
    using GetAll_loop_sum [OF _ fin(1) [unfolded GetAllEVMTxDeferredInfo_def]] run fin(3) assms(12) by simp
  moreover have "ante = ante_total ic junk (TransientStore c)" by (rule GetAnteSurplusSum_total [OF assms(1) fin(2)])
  ultimately show ?thesis using fin(4) run by (auto simp: owed_def max_def)
qed

theorem block_conserves_supply_witness:
  "\<exists>c c'. block_run lib_lower eth_simple sig_example dec_exact default_store ledger_keepers ledger_auth int_codec_bytes evm_idle [] ante_example id lg_total 2 payer_ctx [1] c \<and>
     EndBlock lib_lower eth_simple dec_exact default_store ledger_keepers int_codec_bytes (\<lambda>b. None) None
       \<lparr>kb_msgs = [None, Some msg_example], kb_txResults = [\<lparr>xr_Code = 0, xr_Log = []\<rparr>, \<lparr>xr_Code = 0, xr_Log = []\<rparr>]\<rparr> 21000 c = Done ([], c') \<and>
     lg_total (ctx_ext c) = 4979000000000000 \<and> lg_total (ctx_ext c') = 5000000000000000"
proof -
  obtain a' az where ante: "evmAnteHandler lib_lower eth_simple sig_example dec_exact default_store ledger_keepers ledger_auth int_codec_bytes evm_idle ante_example id 0
      actx_example [SdkEVM msg_example] False = Done (None, a', [SdkEVM (msg_example\<lparr>me_Derived := Some derived_example\<rparr>)])"
    and a': "ctx_ext (ac_ctx a') = paid_ext" "TransientStore (ac_ctx a') = [(AnteSurplusPrefix @ hash_example, az)]"
      "Int_Marshal int_codec_bytes (Some 21000000000000) = Inr az" "KVStore (ac_ctx a') = KVStore linked_ctx"
      "ac_DeliverTxCallback a' = Some (bump_nonce evm_addr 0)" "ac_env a' = env_example\<lparr>te_IsEVM := True\<rparr>" "cx_TxIndex (ac_ctx a') = 1"
    using ante_run_example by blast
  obtain r rz bz bloom where run: "EVMTransaction lib_lower eth_simple dec_exact default_store ledger_keepers int_codec_bytes evm_idle [] id (ac_env a') (ac_ctx a')
      (msg_example\<lparr>me_Derived := Some derived_example\<rparr>) = Done r" "to_err r = None"
    and r: "KVStore (to_ctx r) = KVStore linked_ctx" "ctx_ext (to_ctx r) = paid_ext" "length bloom = BloomByteLength"
      "TransientStore (to_ctx r) = kv_set (kv_set [(AnteSurplusPrefix @ hash_example, az)] (ReceiptKey hash_example) rz) (DeferredInfoKey 1) bz"
      "DeferredInfo_Unmarshal int_codec_bytes bz DeferredInfo_zero = Inr (DeferredInfo_zero\<lparr>di_TxIndex := 1, di_TxBloom := bloom, di_TxHash := hash_example, di_Surplus := Some 0\<rparr>)"
    using EVMTransaction_example [OF a'(4)] a' by auto
  define c where "c = keeper_SetNonce (to_ctx r) evm_addr 1"
  have n: "keeper_GetNonce (to_ctx r) evm_addr = Done 0" using linked_ctx_facts(5) r(1) by (simp add: keeper_GetNonce_def PrefixStore_Get_def)
  have cb: "run_callback a' (to_ctx r) = Done c" using bump_nonce_advances(1) [OF n, of 0] a'(5) by (simp add: run_callback_def c_def del: replicate.simps)
  have start: "starts_at 1 payer_ctx actx_example" by (simp add: starts_at_def actx_example_def payer_ctx_def ctx0_def with_kv_def with_ext_def)
  have p: "TransientStore payer_ctx = []" by (simp add: payer_ctx_def)
  have free: "kv_get (TransientStore payer_ctx) (AnteSurplusPrefix @ hash_example) = None" by (simp add: p)
  have "delivery lib_lower eth_simple sig_example dec_exact default_store ledger_keepers ledger_auth int_codec_bytes evm_idle [] ante_example id 1 payer_ctx c"
    by (rule delivery.executed [OF start ante example_unpack(3,1,2) AsTransaction_example(2) free run]) (simp_all add: clean_idle cb)
  then have block: "block_run lib_lower eth_simple sig_example dec_exact default_store ledger_keepers ledger_auth int_codec_bytes evm_idle [] ante_example id lg_total 2 payer_ctx [1] c"
    by (intro block_run.evm [OF block_run.empty]) simp_all
  have c: "ctx_ext c = paid_ext" "TransientStore c = TransientStore (to_ctx r)" using r by (simp_all add: c_def keeper_SetNonce_def)
  obtain c' where fin: "EndBlock lib_lower eth_simple dec_exact default_store ledger_keepers int_codec_bytes (\<lambda>b. None) None
      \<lparr>kb_msgs = [None, Some msg_example], kb_txResults = [\<lparr>xr_Code = 0, xr_Log = []\<rparr>, \<lparr>xr_Code = 0, xr_Log = []\<rparr>]\<rparr> 21000 c = Done ([], c')"
    using EndBlock_example [OF c(1) a'(3) r(3) c(2) [unfolded r(4)] r(5)] by blast
  have "lg_total paid_ext = 4979000000000000" "lg_total (ctx_ext payer_ctx) = 5000000000000000"
    by (simp_all add: lg_total_def paid_ext_def payer_ctx_def)
  then show ?thesis
    using block_conserves_supply [OF lib_lower_laws(4) ledger_supply_laws int_codec_bytes_laws eth_simple_laws ledger_auth_laws example_buy_gas _ ledger_send_law _ p block _ fin]
      block fin c(1) by auto
qed

end
