(* ===== verification/App_Tx.thy ===== *)
theory App_Tx
  imports Evm_Ante Utils_Priority
begin

text \<open>
  Transactions as the application sees them, before a block is processed: the decorators of \<open>app/antedecorators\<close>
  (gasless associations, the cap of the priority, EVM messages inside \<open>authz.MsgExec\<close>) and \<open>checkTotalBlockGas\<close> of
  \<open>app/app.go\<close>, which decides whether a proposal is accepted.
\<close>

section \<open>Decoded transactions\<close>

text \<open>A message by its Go type: an EVM transaction, an association, an \<open>authz.MsgExec\<close> with the error and the messages that its
  \<open>GetMessages\<close> returns, or any other message with its type URL.\<close>

datatype app_Msg =
    AppEVM MsgEVMTransaction
  | AppAssociate MsgAssociate
  | AppExec error "app_Msg list"
  | AppMsg string

text \<open>The message as the checks of \<open>x/evm\<close> and as the check for oracle messages see it.\<close>

fun evm_view :: "app_Msg \<Rightarrow> sdk_msg" where
  "evm_view (AppEVM m) = SdkEVM m"
| "evm_view (AppAssociate m) = SdkAssociate m"
| "evm_view (AppExec err ms) = SdkOther"
| "evm_view (AppMsg u) = SdkOther"

fun url_view :: "app_Msg \<Rightarrow> sdk_Msg" where
  "url_view (AppEVM m) = PlainMsg ''/tabilabs.tabiv2.evm.MsgEVMTransaction''"
| "url_view (AppAssociate m) = PlainMsg ''/tabilabs.tabiv2.evm.MsgAssociate''"
| "url_view (AppExec err ms) = ExecMsg ''/cosmos.authz.v1beta1.MsgExec'' err (map url_view ms)"
| "url_view (AppMsg u) = PlainMsg u"

text \<open>A transaction: its messages, the gas of \<open>sdk.FeeTx\<close> where it is one, and the gas estimate.\<close>

record app_Tx =
  at_Msgs :: "app_Msg list"
  at_FeeGas :: "uint64 option"
  at_GasEstimate :: uint64

abbreviation evm_tx :: "app_Tx \<Rightarrow> sdk_Tx" where
  "evm_tx tx \<equiv> map evm_view (at_Msgs tx)"

section \<open>Gasless transactions\<close>

definition evmAssociateIsGasless :: "lib \<Rightarrow> 'x ctx \<Rightarrow> MsgAssociate \<Rightarrow> bool go" where
  "evmAssociateIsGasless l c msg =
     (case AccAddressFromBech32 l (ma_Sender msg) of
        Inl err \<Rightarrow> Panic err
      | Inr tabiAddr \<Rightarrow> Done (GetEVMAddress c tabiAddr = None))"

text \<open>The loop over the messages returns in its first round.\<close>

definition IsTxGasless :: "lib \<Rightarrow> app_Tx \<Rightarrow> 'x ctx \<Rightarrow> bool go" where
  "IsTxGasless l tx c =
     (case at_Msgs tx of
        [] \<Rightarrow> Done False
      | AppAssociate m # _ \<Rightarrow>
          go_bind (evmAssociateIsGasless l c m) (\<lambda>gasless.
          Done (if \<not> gasless then False else length (at_Msgs tx) = 1))
      | _ \<Rightarrow> Done False)"

text \<open>A decorator of the chain of Cosmos transactions works on the same context as those of EVM transactions; \<open>wrapped\<close> are the
  decorators that a gasless transaction skips in \<open>CheckTx\<close>.\<close>

type_synonym 'x app_handler = "'x ante_ctx \<Rightarrow> app_Tx \<Rightarrow> bool \<Rightarrow> (error \<times> 'x ante_ctx) go"

definition terminatorHandler :: "'x app_handler" where
  "terminatorHandler a tx simulate = Done (None, a)"

fun handleWrapped :: "('x app_handler \<Rightarrow> 'x app_handler) list \<Rightarrow> 'x app_handler \<Rightarrow> 'x app_handler" where
  "handleWrapped [] next a tx simulate = next a tx simulate"
| "handleWrapped (handler # wrapped) next a tx simulate =
     go_bind (handler terminatorHandler a tx simulate) (\<lambda>(err, a').
     if err \<noteq> None then Done (err, a') else handleWrapped wrapped next a' tx simulate)"

definition GaslessDecorator :: "lib \<Rightarrow> ('x app_handler \<Rightarrow> 'x app_handler) list \<Rightarrow> 'x app_handler \<Rightarrow> 'x app_handler" where
  "GaslessDecorator l wrapped next a tx simulate =
     (let originalGasMeter = ac_GasMeter a;
          a1 = a\<lparr>ac_GasMeter := InfiniteGasMeter\<rparr> in
      go_bind (IsTxGasless l tx (ac_ctx a1)) (\<lambda>isGasless.
      let a2 = (if \<not> isGasless then a1\<lparr>ac_GasMeter := originalGasMeter\<rparr> else a1);
          isDeliverTx = (\<not> ac_IsCheckTx a2 \<and> \<not> ac_IsReCheckTx a2 \<and> \<not> simulate) in
      if isDeliverTx \<or> \<not> isGasless then handleWrapped wrapped next a2 tx simulate
      else next a2 tx simulate))"

section \<open>Priority\<close>

definition intMin :: "int64 \<Rightarrow> int64 \<Rightarrow> int64" where
  "intMin a b = (if sint a < sint b then a else b)"

definition PriorityDecorator :: "'x app_handler \<Rightarrow> 'x app_handler" where
  "PriorityDecorator next a tx simulate = next (a\<lparr>ac_Priority := intMin (ac_Priority a) (word_of_int MaxPriority)\<rparr>) tx simulate"

section \<open>Nested messages\<close>

definition maxNestedMsgs :: nat where "maxNestedMsgs = 5"

text \<open>\<open>CheckAuthzContainsEvm\<close> on the result of \<open>GetMessages\<close>, and its loop over the messages.\<close>

fun CheckAuthzContainsEvm :: "error \<Rightarrow> app_Msg list \<Rightarrow> nat \<Rightarrow> string + bool"
  and CheckAuthz_loop :: "app_Msg list \<Rightarrow> nat \<Rightarrow> string + bool" where
  "CheckAuthzContainsEvm err msgs nestedLvl =
     (if nestedLvl \<ge> maxNestedMsgs then Inl ''permission denied, more nested msgs than permitted''
      else case err of Some e \<Rightarrow> Inl e | None \<Rightarrow> CheckAuthz_loop msgs nestedLvl)"
| "CheckAuthz_loop [] nestedLvl = Inr False"
| "CheckAuthz_loop (msg # msgs) nestedLvl =
     (case msg of
        AppEVM m \<Rightarrow> Inr True
      | AppExec err ms \<Rightarrow>
          (case CheckAuthzContainsEvm err ms (nestedLvl + 1) of
             Inl e \<Rightarrow> Inl e
           | Inr valid \<Rightarrow> if valid then Inr True else CheckAuthz_loop msgs nestedLvl)
      | _ \<Rightarrow> CheckAuthz_loop msgs nestedLvl)"

fun AuthzNested_loop :: "app_Msg list \<Rightarrow> error" where
  "AuthzNested_loop [] = None"
| "AuthzNested_loop (msg # msgs) =
     (case msg of
        AppExec err ms \<Rightarrow>
          (case CheckAuthzContainsEvm err ms 0 of
             Inl e \<Rightarrow> Some e
           | Inr containsEvm \<Rightarrow>
               if containsEvm then Some ''permission denied, authz tx contains evm message'' else AuthzNested_loop msgs)
      | _ \<Rightarrow> AuthzNested_loop msgs)"

definition AuthzNestedMessageDecorator :: "'x app_handler \<Rightarrow> 'x app_handler" where
  "AuthzNestedMessageDecorator next a tx simulate =
     (case AuthzNested_loop (at_Msgs tx) of Some err \<Rightarrow> Done (Some err, a) | None \<Rightarrow> next a tx simulate)"

section \<open>The gas of a proposal\<close>

text \<open>What the loop of \<open>checkTotalBlockGas\<close> does with one transaction: it is skipped, or wants an amount of gas. The decoder is a
  parameter.\<close>

definition gas_wanted :: "lib \<Rightarrow> eth_funs \<Rightarrow> int_codec \<Rightarrow> 'x ctx \<Rightarrow> app_Tx \<Rightarrow> uint64 option go" where
  "gas_wanted l e ic c tx =
     go_bind (IsTxGasless l tx c) (\<lambda>isGasless.
     if isGasless then Done None
     else
       case IsEVMMessage (evm_tx tx) of
         Inl err \<Rightarrow> Done None
       | Inr isEVM \<Rightarrow>
           if isEVM then
             go_bind (MustGetEVMTransactionMessage (evm_tx tx)) (\<lambda>msg.
             go_bind (IsAssociateTx ic msg) (\<lambda>associate.
             if associate then Done None
             else go_bind (AsTransaction l e ic msg) (\<lambda>etx. deref etx (\<lambda>(etx, _). Done (Some (tx_Gas etx))))))
           else Done (at_FeeGas tx))"

definition charged_gas :: "app_Tx \<Rightarrow> uint64 \<Rightarrow> uint64" where
  "charged_gas tx gasWanted =
     (if at_GasEstimate tx \<ge> MinGasEVMTx \<and> at_GasEstimate tx \<le> gasWanted then at_GasEstimate tx else gasWanted)"

text \<open>\<open>limits\<close> are \<open>MaxGas\<close> and \<open>MaxGasWanted\<close> of the consensus parameters, nil where there are none.\<close>

fun checkTotalBlockGas_loop ::
    "lib \<Rightarrow> eth_funs \<Rightarrow> int_codec \<Rightarrow> (bytes \<Rightarrow> (string + app_Tx) go) \<Rightarrow> (int64 \<times> int64) option \<Rightarrow> 'x ctx \<Rightarrow> uint64 \<Rightarrow> uint64 \<Rightarrow> bytes list \<Rightarrow> bool go" where
  "checkTotalBlockGas_loop l e ic txDecoder limits c totalGas totalGasWanted [] = Done True"
| "checkTotalBlockGas_loop l e ic txDecoder limits c totalGas totalGasWanted (tx # txs) =
     go_bind (txDecoder tx) (\<lambda>decoded.
     case decoded of
       Inl err \<Rightarrow> checkTotalBlockGas_loop l e ic txDecoder limits c totalGas totalGasWanted txs
     | Inr decodedTx \<Rightarrow>
         go_bind (gas_wanted l e ic c decodedTx) (\<lambda>wanted.
         case wanted of
           None \<Rightarrow> checkTotalBlockGas_loop l e ic txDecoder limits c totalGas totalGasWanted txs
         | Some gasWanted \<Rightarrow>
             if sint gasWanted < 0 \<or> sint totalGas > 9223372036854775807 - sint gasWanted then Done False
             else
               let totalGasWanted' = totalGasWanted + gasWanted;
                   totalGas' = totalGas + charged_gas decodedTx gasWanted in
               deref limits (\<lambda>(MaxGas, MaxGasWanted).
               if totalGasWanted' > MaxGasWanted then Done False
               else if totalGas' > MaxGas then Done False
               else checkTotalBlockGas_loop l e ic txDecoder limits c totalGas' totalGasWanted' txs)))"

text \<open>A panic in the loop rejects the proposal.\<close>

definition checkTotalBlockGas ::
    "lib \<Rightarrow> eth_funs \<Rightarrow> int_codec \<Rightarrow> (bytes \<Rightarrow> (string + app_Tx) go) \<Rightarrow> (int64 \<times> int64) option \<Rightarrow> 'x ctx \<Rightarrow> bytes list \<Rightarrow> bool" where
  "checkTotalBlockGas l e ic txDecoder limits c txs =
     (case checkTotalBlockGas_loop l e ic txDecoder limits c 0 0 txs of Panic _ \<Rightarrow> False | Done result \<Rightarrow> result)"

section \<open>No EVM message is nested\<close>

text \<open>A message with at most \<open>n\<close> levels of \<open>MsgExec\<close>, all of which unpack, and no EVM message inside.\<close>

fun evm_free :: "nat \<Rightarrow> app_Msg \<Rightarrow> bool" where
  "evm_free n (AppEVM m) = False"
| "evm_free n (AppExec err ms) \<longleftrightarrow> n > 0 \<and> err = None \<and> (\<forall>m \<in> set ms. evm_free (n - 1) m)"
| "evm_free n (AppAssociate m) = True"
| "evm_free n (AppMsg u) = True"

lemma CheckAuthz_iff:
  "CheckAuthzContainsEvm err ms n = Inr False \<longleftrightarrow> evm_free (maxNestedMsgs - n) (AppExec err ms)"
  "n < maxNestedMsgs \<Longrightarrow> CheckAuthz_loop ms n = Inr False \<longleftrightarrow> (\<forall>m \<in> set ms. evm_free (maxNestedMsgs - n - 1) m)"
proof (induction err ms n and ms n rule: CheckAuthzContainsEvm_CheckAuthz_loop.induct)
  case (1 err msgs nestedLvl)
  then show ?case by (auto split: option.splits)
next
  case (3 msg msgs nestedLvl)
  then show ?case
  proof (cases msg)
    case (AppExec err ms)
    have "CheckAuthzContainsEvm err ms (nestedLvl + 1) = Inr False \<longleftrightarrow> evm_free (maxNestedMsgs - nestedLvl - 1) (AppExec err ms)"
      using "3.IH" AppExec by (auto simp del: CheckAuthzContainsEvm.simps evm_free.simps)
    then show ?thesis
      using "3.IH" "3.prems" AppExec
      by (cases "CheckAuthzContainsEvm err ms (nestedLvl + 1)") (auto simp del: CheckAuthzContainsEvm.simps evm_free.simps)
  qed simp_all
qed simp

lemma AuthzNested_iff:
  "AuthzNested_loop msgs = None \<longleftrightarrow> (\<forall>err ms. AppExec err ms \<in> set msgs \<longrightarrow> evm_free maxNestedMsgs (AppExec err ms))"
proof (induction msgs)
  case (Cons msg msgs)
  show ?case
  proof (cases msg)
    case (AppExec err ms)
    then show ?thesis
      using Cons CheckAuthz_iff(1) [of err ms 0]
      by (cases "CheckAuthzContainsEvm err ms 0") (auto simp del: CheckAuthzContainsEvm.simps evm_free.simps)
  qed (use Cons in auto)
qed simp

section \<open>The gas check is exact\<close>

text \<open>The gas that a transaction of a proposal wants and is charged, where it counts at all, and the absence of panics.\<close>

definition counted_gas :: "lib \<Rightarrow> eth_funs \<Rightarrow> int_codec \<Rightarrow> (bytes \<Rightarrow> (string + app_Tx) go) \<Rightarrow> 'x ctx \<Rightarrow> bytes \<Rightarrow> uint64 \<times> uint64" where
  "counted_gas l e ic txDecoder c tx =
     (case txDecoder tx of
        Done (Inr decodedTx) \<Rightarrow> (case gas_wanted l e ic c decodedTx of Done (Some w) \<Rightarrow> (w, charged_gas decodedTx w) | _ \<Rightarrow> (0, 0))
      | _ \<Rightarrow> (0, 0))"

definition counts_safely :: "lib \<Rightarrow> eth_funs \<Rightarrow> int_codec \<Rightarrow> (bytes \<Rightarrow> (string + app_Tx) go) \<Rightarrow> 'x ctx \<Rightarrow> bytes \<Rightarrow> bool" where
  "counts_safely l e ic txDecoder c tx \<longleftrightarrow>
     (case txDecoder tx of
        Panic _ \<Rightarrow> False
      | Done (Inl err) \<Rightarrow> True
      | Done (Inr decodedTx) \<Rightarrow> (case gas_wanted l e ic c decodedTx of Panic _ \<Rightarrow> False | Done _ \<Rightarrow> True))"

abbreviation total_wanted :: "lib \<Rightarrow> eth_funs \<Rightarrow> int_codec \<Rightarrow> (bytes \<Rightarrow> (string + app_Tx) go) \<Rightarrow> 'x ctx \<Rightarrow> bytes list \<Rightarrow> int" where
  "total_wanted l e ic txDecoder c txs \<equiv> sum_list (map (\<lambda>tx. uint (fst (counted_gas l e ic txDecoder c tx))) txs)"

abbreviation total_charged :: "lib \<Rightarrow> eth_funs \<Rightarrow> int_codec \<Rightarrow> (bytes \<Rightarrow> (string + app_Tx) go) \<Rightarrow> 'x ctx \<Rightarrow> bytes list \<Rightarrow> int" where
  "total_charged l e ic txDecoder c txs \<equiv> sum_list (map (\<lambda>tx. uint (snd (counted_gas l e ic txDecoder c tx))) txs)"

lemma sint_uint_64: "sint (w :: uint64) = (if uint w < 2 ^ 63 then uint w else uint w - 2 ^ 64)"
proof -
  have "sint w = (uint w + 2 ^ 63) mod 2 ^ 64 - 2 ^ 63" by (simp add: sint_uint signed_take_bit_eq_take_bit_shift take_bit_eq_mod)
  moreover have "0 \<le> uint w" "uint w < 2 ^ 64" using uint_lt2p [of w] by simp_all
  ultimately show ?thesis by (simp add: mod_if split: if_splits) (simp add: mod_pos_geq)
qed

lemma sint_nonneg_64:
  assumes "0 \<le> sint (w :: uint64)"
  shows "uint w = sint w" "uint w < 2 ^ 63"
proof -
  have "uint w < 2 ^ 64" using uint_lt2p [of w] by simp
  then have "\<not> 2 ^ 63 \<le> uint w" using assms sint_uint_64 [of w] by (cases "uint w < 2 ^ 63") simp_all
  then show "uint w = sint w" "uint w < 2 ^ 63" using sint_uint_64 [of w] by simp_all
qed

lemma charged_le: "uint (charged_gas tx w) \<le> uint w"
  by (simp add: charged_gas_def word_le_def)

lemma gas_loop_exact:
  assumes "0 \<le> sint MaxGas" and "0 \<le> sint MaxGasWanted"
  shows "(\<And>tx. tx \<in> set txs \<Longrightarrow> counts_safely l e ic txDecoder c tx) \<Longrightarrow> uint g \<le> uint w \<Longrightarrow> uint w \<le> sint MaxGasWanted \<Longrightarrow> uint g \<le> sint MaxGas \<Longrightarrow>
    checkTotalBlockGas_loop l e ic txDecoder (Some (MaxGas, MaxGasWanted)) c g w txs =
      Done (uint w + total_wanted l e ic txDecoder c txs \<le> sint MaxGasWanted \<and> uint g + total_charged l e ic txDecoder c txs \<le> sint MaxGas)"
proof (induction txs arbitrary: g w)
  case (Cons tx txs)
  note safe = Cons.prems(1) [of tx, simplified counts_safely_def]
  have IH: "uint g \<le> uint w \<Longrightarrow> uint w \<le> sint MaxGasWanted \<Longrightarrow> uint g \<le> sint MaxGas \<Longrightarrow>
    checkTotalBlockGas_loop l e ic txDecoder (Some (MaxGas, MaxGasWanted)) c g w txs =
      Done (uint w + total_wanted l e ic txDecoder c txs \<le> sint MaxGasWanted \<and> uint g + total_charged l e ic txDecoder c txs \<le> sint MaxGas)" for g w
    using Cons.IH Cons.prems(1) by simp
  have pos: "0 \<le> total_wanted l e ic txDecoder c txs" "0 \<le> total_charged l e ic txDecoder c txs" by (auto intro!: sum_list_nonneg)
  consider (skip) "counted_gas l e ic txDecoder c tx = (0, 0)"
      "checkTotalBlockGas_loop l e ic txDecoder (Some (MaxGas, MaxGasWanted)) c g w (tx # txs) = checkTotalBlockGas_loop l e ic txDecoder (Some (MaxGas, MaxGasWanted)) c g w txs"
    | (counts) dtx gw where "txDecoder tx = Done (Inr dtx)" "gas_wanted l e ic c dtx = Done (Some gw)"
  proof -
    obtain dec where dec: "txDecoder tx = Done dec" using safe by (cases "txDecoder tx") simp_all
    show thesis
    proof (cases dec)
      case (Inl err)
      then show ?thesis using that(1) dec by (simp add: counted_gas_def)
    next
      case (Inr dtx)
      then obtain wanted where "gas_wanted l e ic c dtx = Done wanted" using safe dec by (cases "gas_wanted l e ic c dtx") simp_all
      then show ?thesis using that dec Inr by (cases wanted) (simp_all add: counted_gas_def)
    qed
  qed
  then show ?case
  proof cases
    case skip
    then show ?thesis using IH [OF Cons.prems(2-4)] by simp
  next
    case counts
    let ?ch = "charged_gas dtx gw"
    have cg: "counted_gas l e ic txDecoder c tx = (gw, ?ch)" using counts by (simp add: counted_gas_def)
    have lim: "uint MaxGas = sint MaxGas" "uint MaxGasWanted = sint MaxGasWanted" "sint MaxGasWanted < 2 ^ 63"
      using sint_nonneg_64 [OF assms(1)] sint_nonneg_64 [OF assms(2)] by simp_all
    have "uint g < 2 ^ 63" using Cons.prems(4) lim sint_nonneg_64 [OF assms(1)] by simp
    then have s: "sint g = uint g" using sint_uint_64 [of g] by simp
    show ?thesis
    proof (cases "sint gw < 0 \<or> sint g > 9223372036854775807 - sint gw")
      case True
      have "uint g + uint gw \<ge> 2 ^ 63"
      proof (cases "uint gw < 2 ^ 63")
        case False
        then show ?thesis using uint_ge_0 [of g] by linarith
      qed (use True s sint_uint_64 [of gw] in simp)
      then have "\<not> uint w + (uint gw + total_wanted l e ic txDecoder c txs) \<le> sint MaxGasWanted" using Cons.prems(2) lim pos by simp
      then show ?thesis using True counts cg by simp
    next
      case False
      then have small: "uint g + uint gw < 2 ^ 63" "uint gw < 2 ^ 63" using s sint_nonneg_64 [of gw] by simp_all
      have w: "uint (w + gw) = uint w + uint gw" using small Cons.prems(3) lim by (simp add: uint_word_ariths)
      have g: "uint (g + ?ch) = uint g + uint ?ch" using small charged_le [of dtx gw] by (simp add: uint_word_ariths)
      have loop: "checkTotalBlockGas_loop l e ic txDecoder (Some (MaxGas, MaxGasWanted)) c g w (tx # txs) =
          (if w + gw > MaxGasWanted then Done False else if g + ?ch > MaxGas then Done False
           else checkTotalBlockGas_loop l e ic txDecoder (Some (MaxGas, MaxGasWanted)) c (g + ?ch) (w + gw) txs)"
        using False counts by (simp add: Let_def)
      show ?thesis
      proof (cases "w + gw > MaxGasWanted \<or> g + ?ch > MaxGas")
        case True
        then have "uint w + uint gw > sint MaxGasWanted \<or> uint g + uint ?ch > sint MaxGas" using w g lim by (auto simp: word_less_def)
        then show ?thesis unfolding loop using True pos cg by auto
      next
        case False
        then have "uint (w + gw) \<le> sint MaxGasWanted" "uint (g + ?ch) \<le> sint MaxGas" using lim by (auto simp: word_less_def)
        moreover have "uint (g + ?ch) \<le> uint (w + gw)" using w g charged_le [of dtx gw] Cons.prems(2) by simp
        ultimately show ?thesis unfolding loop using False IH [of "g + ?ch" "w + gw"] cg w g by (simp add: add.assoc)
      qed
    qed
  qed
qed simp

lemma gas_loop_counts:
  "checkTotalBlockGas_loop l e ic txDecoder limits c g w txs = Done True \<Longrightarrow> \<forall>tx \<in> set txs. counts_safely l e ic txDecoder c tx"
proof (induction txs arbitrary: g w)
  case (Cons tx txs)
  show ?case
  proof (cases "txDecoder tx")
    case (Done decoded)
    show ?thesis
    proof (cases decoded)
      case (Inl err)
      then show ?thesis using Cons Done by (simp add: counts_safely_def)
    next
      case (Inr dtx)
      then obtain wanted where wanted: "gas_wanted l e ic c dtx = Done wanted"
        using Cons.prems Done by (cases "gas_wanted l e ic c dtx") simp_all
      then have safe: "counts_safely l e ic txDecoder c tx" using Done Inr by (simp add: counts_safely_def)
      show ?thesis
        using Cons.prems Cons.IH Done Inr wanted safe by (cases wanted; cases limits) (auto simp: Let_def split: if_splits)
    qed
  qed (use Cons.prems in simp)
qed simp

text \<open>The comment on \<open>checkTotalBlockGas\<close> has a Cosmos transaction count with the gas it wants. The code takes its estimate where that is
  usable, as for an EVM transaction.\<close>

lemma cosmos_gas_estimated:
  assumes "txDecoder tx = Done (Inr decodedTx)" and "IsTxGasless l decodedTx c = Done False" and "IsEVMMessage (evm_tx decodedTx) = Inr False"
    and "at_FeeGas decodedTx = Some w" and "MinGasEVMTx \<le> at_GasEstimate decodedTx" and "at_GasEstimate decodedTx < w"
  shows "counted_gas l e ic txDecoder c tx = (w, at_GasEstimate decodedTx)"
  using assms less_imp_le [OF assms(6)] by (simp add: counted_gas_def gas_wanted_def charged_gas_def)

text \<open>C7 (block_gas_exact): with limits that are not negative, a proposal passes the gas check exactly when counting panics for none of its
  transactions and the gas that they want and the gas they are charged - for EVM and Cosmos transactions alike the estimate where it is at least
  21000 and at most the gas wanted, else the gas wanted - stay within the limits as sums of integers. No sum of the check wraps around,
  however large the gas of a transaction is; transactions that do not decode, are gasless or associate addresses do not count.\<close>

theorem block_gas_exact:
  assumes "0 \<le> sint MaxGas" and "0 \<le> sint MaxGasWanted"
  shows "checkTotalBlockGas l e ic txDecoder (Some (MaxGas, MaxGasWanted)) c txs \<longleftrightarrow>
    (\<forall>tx \<in> set txs. counts_safely l e ic txDecoder c tx) \<and>
    total_wanted l e ic txDecoder c txs \<le> sint MaxGasWanted \<and> total_charged l e ic txDecoder c txs \<le> sint MaxGas"
proof (cases "\<forall>tx \<in> set txs. counts_safely l e ic txDecoder c tx")
  case True
  then show ?thesis using gas_loop_exact [OF assms, of txs l e ic txDecoder c 0 0] assms by (simp add: checkTotalBlockGas_def)
next
  case False
  then have "checkTotalBlockGas_loop l e ic txDecoder (Some (MaxGas, MaxGasWanted)) c 0 0 txs \<noteq> Done True" using gas_loop_counts by blast
  then show ?thesis using False by (auto simp: checkTotalBlockGas_def split: go.splits)
qed

text \<open>The witness: two Cosmos transactions; the second one asks for so much gas that the sum of the two is beyond 64 bits.\<close>

definition decoder_example :: "bytes \<Rightarrow> (string + app_Tx) go" where
  "decoder_example tx = Done (Inr \<lparr>at_Msgs = [AppMsg ''/cosmos.bank.v1beta1.MsgSend''], at_FeeGas = Some (if tx = [1] then 50000 else - 1), at_GasEstimate = 30000\<rparr>)"

lemma decoder_counts:
  "counts_safely lib_lower eth_simple int_codec_bytes decoder_example ctx0 tx"
  "counted_gas lib_lower eth_simple int_codec_bytes decoder_example ctx0 tx = (if tx = [1] then 50000 else - 1, 30000)"
  by (simp_all add: counts_safely_def counted_gas_def decoder_example_def gas_wanted_def IsTxGasless_def IsEVMMessage_def charged_gas_def MinGasEVMTx_def)

theorem block_gas_exact_witness:
  "checkTotalBlockGas lib_lower eth_simple int_codec_bytes decoder_example (Some (40000, 100000)) ctx0 [[1]] \<and>
   \<not> checkTotalBlockGas lib_lower eth_simple int_codec_bytes decoder_example (Some (40000, 100000)) ctx0 [[1], [2]]"
  using block_gas_exact [of 40000 100000 lib_lower eth_simple int_codec_bytes decoder_example ctx0 "[[1]]"]
    block_gas_exact [of 40000 100000 lib_lower eth_simple int_codec_bytes decoder_example ctx0 "[[1], [2]]"]
  by (simp add: decoder_counts)

end
