(* ===== verification/App_Block.thy ===== *)
theory App_Block
  imports App_Tx
begin

text \<open>
  The processing of a block in \<open>app/app.go\<close>: decoding, the transactions that take priority first, then the middle of the block and
  all others, with every result and every EVM message stored at the place that its transaction has in the block. The base
  application of the Cosmos SDK and its scheduler are parameters over a state \<open>'c\<close>; tracing and metrics are left out.
\<close>

section \<open>Deliveries\<close>

record exec_result = ExecTxResult +
  xr_Data :: bytes
  xr_Info :: string
  xr_GasWanted :: int64
  xr_GasUsed :: int64
  xr_Events :: "event list"
  xr_Codespace :: string
  xr_EvmTxInfo :: "string option"

record ResponseDeliverTx =
  rd_Code :: uint32
  rd_Data :: bytes
  rd_Log :: string
  rd_Info :: string
  rd_GasWanted :: int64
  rd_GasUsed :: int64
  rd_Events :: "event list"
  rd_Codespace :: string
  rd_EvmTxInfo :: "string option"

record 'w DeliverTxEntry =
  en_Tx :: bytes
  en_SdkTx :: "app_Tx option"
  en_AbsoluteIndex :: nat
  en_EstimatedWritesets :: "'w option"

text \<open>Requests. A vote has the validator and whether it signed; a block request carries what \<open>BlockProcessRequest\<close> gives and the last
  commit, which the proposal and the decided block both name.\<close>

record VoteInfo =
  vi_Validator :: bytes
  vi_SignedLastBlock :: bool

record CommitInfo =
  ci_Round :: "32 word"
  ci_Votes :: "VoteInfo list"

record 'm block_req =
  bq_Hash :: bytes
  bq_Txs :: "bytes list"
  bq_ByzantineValidators :: "'m list"
  bq_Height :: int64
  bq_Time :: int
  bq_LastCommit :: CommitInfo

record 'm RequestBeginBlock =
  rb_Hash :: bytes
  rb_ByzantineValidators :: "'m list"
  rb_LastCommitInfo :: CommitInfo
  rb_ChainID :: string
  rb_Height :: int64
  rb_Time :: int
  rb_ProposerAddress :: bytes
  rb_Simulate :: bool

text \<open>The response of the end of a block, with pointers to the parameters of the consensus and to their groups.\<close>

record BlockParams =
  bp_MaxBytes :: int64
  bp_MaxGas :: int64
  bp_MinTxsInBlock :: int64
  bp_MaxGasWanted :: int64

record EvidenceParams =
  ep_MaxAgeNumBlocks :: int64
  ep_MaxAgeDuration :: int64
  ep_MaxBytes :: int64

record ConsensusParams =
  cp_Block :: "BlockParams option"
  cp_Evidence :: "EvidenceParams option"
  cp_Validator :: "string list option"
  cp_Version :: "uint64 option"

record ValidatorUpdate =
  vu_PubKey :: bytes
  vu_Power :: int64

record ResponseEndBlock =
  eb_ValidatorUpdates :: "ValidatorUpdate list"
  eb_ConsensusParamUpdates :: "ConsensusParams option"
  eb_Events :: "event list"

text \<open>The base application: the begin, the middle and the end of a block, the delivery of one transaction at an index and of a batch, the
  transfers that the bank module has deferred, and the estimates of the access control module. The end of the block
  reads the messages and results that the EVM keeper holds; its arguments are the height and the gas used.\<close>

record ('c, 'w, 'm) app_funs =
  ChainID :: string
  ctx_ProposerAddress :: "'c \<Rightarrow> bytes"
  base_BeginBlock :: "'m RequestBeginBlock \<Rightarrow> 'c \<Rightarrow> event list \<times> 'c"
  base_MidBlock :: "int64 \<Rightarrow> 'c \<Rightarrow> event list \<times> 'c"
  base_EndBlock :: "keeper_block \<Rightarrow> int64 \<Rightarrow> int64 \<Rightarrow> 'c \<Rightarrow> ResponseEndBlock \<times> 'c"
  base_DeliverTx :: "nat \<Rightarrow> bytes \<Rightarrow> app_Tx option \<Rightarrow> 'c \<Rightarrow> ResponseDeliverTx \<times> 'c"
  base_DeliverTxBatch :: "'w DeliverTxEntry list \<Rightarrow> 'c \<Rightarrow> ResponseDeliverTx list \<times> 'c"
  WriteDeferredBalances :: "'c \<Rightarrow> event list \<times> 'c"
  GenerateEstimatedWritesets :: "'c \<Rightarrow> nat \<Rightarrow> app_Tx \<Rightarrow> (string + 'w) go"
  OccEnabled :: bool

definition exec_of :: "ResponseDeliverTx \<Rightarrow> exec_result" where
  "exec_of r =
     \<lparr>xr_Code = rd_Code r, xr_Log = rd_Log r, xr_Data = rd_Data r, xr_Info = rd_Info r, xr_GasWanted = rd_GasWanted r, xr_GasUsed = rd_GasUsed r,
      xr_Events = rd_Events r, xr_Codespace = rd_Codespace r, xr_EvmTxInfo = rd_EvmTxInfo r\<rparr>"

definition DeliverTxWithResult :: "('c, 'w, 'm) app_funs \<Rightarrow> nat \<Rightarrow> bytes \<Rightarrow> app_Tx option \<Rightarrow> 'c \<Rightarrow> exec_result \<times> 'c" where
  "DeliverTxWithResult ap i tx typedTx c = (case base_DeliverTx ap i tx typedTx c of (deliverTxResp, c') \<Rightarrow> (exec_of deliverTxResp, c'))"

fun ProcessBlockSynchronous ::
    "('c, 'w, 'm) app_funs \<Rightarrow> bytes list \<Rightarrow> app_Tx option list \<Rightarrow> nat list \<Rightarrow> 'c \<Rightarrow> (exec_result list \<times> 'c) go" where
  "ProcessBlockSynchronous ap [] typedTxs absoluteTxIndices c = Done ([], c)"
| "ProcessBlockSynchronous ap (tx # txs) (typedTx # typedTxs) (i # absoluteTxIndices) c =
     (let (res, c') = DeliverTxWithResult ap i tx typedTx c in
      go_map (\<lambda>(txResults, c''). (res # txResults, c'')) (ProcessBlockSynchronous ap txs typedTxs absoluteTxIndices c'))"
| "ProcessBlockSynchronous ap (tx # txs) typedTxs absoluteTxIndices c = Panic ''index out of range''"

text \<open>A panic or an error of the estimate leaves the entry without one.\<close>

definition GetDeliverTxEntry :: "('c, 'w, 'm) app_funs \<Rightarrow> 'c \<Rightarrow> nat \<Rightarrow> nat \<Rightarrow> bytes \<Rightarrow> app_Tx option \<Rightarrow> 'w DeliverTxEntry" where
  "GetDeliverTxEntry ap c txIndex absoluteIndex bz tx =
     \<lparr>en_Tx = bz, en_SdkTx = tx, en_AbsoluteIndex = absoluteIndex,
      en_EstimatedWritesets =
        (case tx of
           None \<Rightarrow> None
         | Some t \<Rightarrow> (case GenerateEstimatedWritesets ap c txIndex t of Done (Inr estimatedWritesets) \<Rightarrow> Some estimatedWritesets | _ \<Rightarrow> None))\<rparr>"

definition ProcessTXsWithOCC ::
    "('c, 'w, 'm) app_funs \<Rightarrow> bytes list \<Rightarrow> app_Tx option list \<Rightarrow> nat list \<Rightarrow> 'c \<Rightarrow> (exec_result list \<times> 'c) go" where
  "ProcessTXsWithOCC ap txs typedTxs absoluteTxIndices c =
     (if length typedTxs < length txs \<or> length absoluteTxIndices < length txs then Panic ''index out of range''
      else
        let entries = map (\<lambda>txIndex. GetDeliverTxEntry ap c txIndex (absoluteTxIndices ! txIndex) (txs ! txIndex) (typedTxs ! txIndex)) [0..<length txs];
            (batchResult, c') = base_DeliverTxBatch ap entries c in
        Done (map exec_of batchResult, c'))"

definition ExecuteTxsConcurrently ::
    "('c, 'w, 'm) app_funs \<Rightarrow> bytes list \<Rightarrow> app_Tx option list \<Rightarrow> nat list \<Rightarrow> 'c \<Rightarrow> (exec_result list \<times> 'c) go" where
  "ExecuteTxsConcurrently ap txs typedTxs absoluteTxIndices c =
     (if OccEnabled ap then ProcessTXsWithOCC ap txs typedTxs absoluteTxIndices c
      else ProcessBlockSynchronous ap txs typedTxs absoluteTxIndices c)"

section \<open>Decoding and partition\<close>

text \<open>One goroutine decodes one transaction and writes its own slot, so that their order does not matter. \<open>pre\<close> is \<open>Preprocess\<close>
  of the ante handlers, which also writes the sender it recovers into the message.\<close>

definition decode_tx ::
    "(bytes \<Rightarrow> (string + app_Tx) go) \<Rightarrow> (MsgEVMTransaction \<Rightarrow> (error \<times> MsgEVMTransaction) go) \<Rightarrow> bytes \<Rightarrow> app_Tx option" where
  "decode_tx txDecoder pre encodedTx =
     (case go_bind (txDecoder encodedTx) (\<lambda>decoded.
         case decoded of
           Inl err \<Rightarrow> Done None
         | Inr typedTx \<Rightarrow>
             if IsEVMMessage (evm_tx typedTx) = Inr True then
               go_bind (MustGetEVMTransactionMessage (evm_tx typedTx)) (\<lambda>msg.
               go_bind (pre msg) (\<lambda>(err, msg1).
               Done (if err \<noteq> None then None else Some (typedTx\<lparr>at_Msgs := [AppEVM msg1]\<rparr>))))
             else Done (Some typedTx)) of
        Panic _ \<Rightarrow> None
      | Done typedTx \<Rightarrow> typedTx)"

definition DecodeTransactionsConcurrently ::
    "(bytes \<Rightarrow> (string + app_Tx) go) \<Rightarrow> (MsgEVMTransaction \<Rightarrow> (error \<times> MsgEVMTransaction) go) \<Rightarrow> bytes list \<Rightarrow> app_Tx option list" where
  "DecodeTransactionsConcurrently txDecoder pre txs = map (decode_tx txDecoder pre) txs"

record partitioned =
  pt_Txs :: "bytes list"
  pt_TypedTxs :: "app_Tx option list"
  pt_Indices :: "nat list"

definition partition_add :: "bytes \<Rightarrow> app_Tx option \<Rightarrow> nat \<Rightarrow> partitioned \<Rightarrow> partitioned" where
  "partition_add tx typedTx idx p =
     \<lparr>pt_Txs = pt_Txs p @ [tx], pt_TypedTxs = pt_TypedTxs p @ [typedTx], pt_Indices = pt_Indices p @ [idx]\<rparr>"

fun PartitionPrioritizedTxs_loop ::
    "app_Tx option list \<Rightarrow> nat \<Rightarrow> bytes list \<Rightarrow> partitioned \<Rightarrow> partitioned \<Rightarrow> (partitioned \<times> partitioned) go" where
  "PartitionPrioritizedTxs_loop typedTxs idx [] prioritized others = Done (prioritized, others)"
| "PartitionPrioritizedTxs_loop typedTxs idx (tx # txs) prioritized others =
     (if idx \<ge> length typedTxs then Panic ''index out of range''
      else
        case typedTxs ! idx of
          None \<Rightarrow> PartitionPrioritizedTxs_loop typedTxs (idx + 1) txs prioritized (partition_add tx None idx others)
        | Some t \<Rightarrow>
            if IsTxPrioritized (Some (map url_view (at_Msgs t)))
            then PartitionPrioritizedTxs_loop typedTxs (idx + 1) txs (partition_add tx (Some t) idx prioritized) others
            else PartitionPrioritizedTxs_loop typedTxs (idx + 1) txs prioritized (partition_add tx (Some t) idx others))"

definition PartitionPrioritizedTxs :: "bytes list \<Rightarrow> app_Tx option list \<Rightarrow> (partitioned \<times> partitioned) go" where
  "PartitionPrioritizedTxs txs typedTxs =
     (let none = \<lparr>pt_Txs = [], pt_TypedTxs = [], pt_Indices = []\<rparr> in PartitionPrioritizedTxs_loop typedTxs 0 txs none none)"

definition GetEVMMsg :: "int_codec \<Rightarrow> app_Tx option \<Rightarrow> MsgEVMTransaction option" where
  "GetEVMMsg ic tx =
     (case tx of
        None \<Rightarrow> None
      | Some t \<Rightarrow>
          (case GetEVMTransactionMessage (evm_tx t) of
             None \<Rightarrow> None
           | Some emsg \<Rightarrow> (case IsAssociateTx ic emsg of Done associate \<Rightarrow> if associate then None else Some emsg | Panic _ \<Rightarrow> None)))"

section \<open>The block\<close>

text \<open>The results and messages of one part of the block go to the places of their transactions.\<close>

fun place_results ::
    "int_codec \<Rightarrow> exec_result list \<Rightarrow> app_Tx option list \<Rightarrow> nat list \<Rightarrow> exec_result option list \<times> MsgEVMTransaction option list \<Rightarrow>
     (exec_result option list \<times> MsgEVMTransaction option list) go" where
  "place_results ic results typedTxs [] (txResults, evmTxs) = Done (txResults, evmTxs)"
| "place_results ic (r # results) (t # typedTxs) (i # indices) (txResults, evmTxs) =
     (if i \<ge> length txResults \<or> i \<ge> length evmTxs then Panic ''index out of range''
      else place_results ic results typedTxs indices (txResults[i := Some r], evmTxs[i := GetEVMMsg ic t]))"
| "place_results ic results typedTxs (i # indices) (txResults, evmTxs) = Panic ''index out of range''"

text \<open>The sum is one of 64-bit integers; a nil result would panic.\<close>

fun evm_gas_used :: "exec_result option list \<Rightarrow> int64 \<Rightarrow> int64 go" where
  "evm_gas_used [] used = Done used"
| "evm_gas_used (txResult # txResults) used =
     deref txResult (\<lambda>r. evm_gas_used txResults (if xr_EvmTxInfo r \<noteq> None then used + xr_GasUsed r else used))"

record block_result =
  br_Events :: "event list"
  br_TxResults :: "exec_result option list"
  br_EndBlock :: ResponseEndBlock
  br_Keeper :: keeper_block

definition begin_request :: "('c, 'w, 'm) app_funs \<Rightarrow> 'm block_req \<Rightarrow> bool \<Rightarrow> 'c \<Rightarrow> 'm RequestBeginBlock" where
  "begin_request ap req simulate c =
     \<lparr>rb_Hash = bq_Hash req, rb_ByzantineValidators = bq_ByzantineValidators req,
      rb_LastCommitInfo =
        \<lparr>ci_Round = ci_Round (bq_LastCommit req),
         ci_Votes = map (\<lambda>vote. \<lparr>vi_Validator = vi_Validator vote, vi_SignedLastBlock = vi_SignedLastBlock vote\<rparr>) (ci_Votes (bq_LastCommit req))\<rparr>,
      rb_ChainID = ChainID ap, rb_Height = bq_Height req, rb_Time = bq_Time req, rb_ProposerAddress = ctx_ProposerAddress ap c,
      rb_Simulate = simulate\<rparr>"

text \<open>\<open>ProcessBlock\<close> never returns an error of its own; what it sets in the EVM keeper is part of the result. The signals that start the RPC
  servers after the first block are left out.\<close>

definition ProcessBlock ::
    "('c, 'w, 'm) app_funs \<Rightarrow> int_codec \<Rightarrow> (bytes \<Rightarrow> (string + app_Tx) go) \<Rightarrow> (MsgEVMTransaction \<Rightarrow> (error \<times> MsgEVMTransaction) go) \<Rightarrow>
     bytes list \<Rightarrow> 'm block_req \<Rightarrow> bool \<Rightarrow> 'c \<Rightarrow> (block_result \<times> 'c) go" where
  "ProcessBlock ap ic txDecoder pre txs req simulate c =
     (let (beginEvents, c1) = base_BeginBlock ap (begin_request ap req simulate c) c;
          evmTxs = replicate (length txs) None;
          txResults = replicate (length txs) None;
          typedTxs = DecodeTransactionsConcurrently txDecoder pre txs in
      go_bind (PartitionPrioritizedTxs txs typedTxs) (\<lambda>(prioritized, others).
      go_bind (ExecuteTxsConcurrently ap (pt_Txs prioritized) (pt_TypedTxs prioritized) (pt_Indices prioritized) c1) (\<lambda>(prioritizedResults, c2).
      go_bind (place_results ic prioritizedResults (pt_TypedTxs prioritized) (pt_Indices prioritized) (txResults, evmTxs)) (\<lambda>(txResults1, evmTxs1).
      let (deferredWriteEvents, c3) = WriteDeferredBalances ap c2;
          (midBlockEvents, c4) = base_MidBlock ap (bq_Height req) c3 in
      go_bind (ExecuteTxsConcurrently ap (pt_Txs others) (pt_TypedTxs others) (pt_Indices others) c4) (\<lambda>(otherResults, c5).
      go_bind (place_results ic otherResults (pt_TypedTxs others) (pt_Indices others) (txResults1, evmTxs1)) (\<lambda>(txResults2, evmTxs2).
      let (lazyWriteEvents, c6) = WriteDeferredBalances ap c5 in
      go_bind (evm_gas_used txResults2 0) (\<lambda>evmTotalGasUsed.
      let keeper = \<lparr>kb_msgs = evmTxs2, kb_txResults = map (\<lambda>r. ExecTxResult.truncate (the r)) txResults2\<rparr>;
          (endBlockResp, c7) = base_EndBlock ap keeper (bq_Height req) evmTotalGasUsed c6 in
      Done (\<lparr>br_Events = beginEvents @ deferredWriteEvents @ midBlockEvents @ lazyWriteEvents @ eb_Events endBlockResp, br_TxResults = txResults2,
             br_EndBlock = endBlockResp, br_Keeper = keeper\<rparr>, c7))))))))"

section \<open>The response\<close>

record ResponseFinalizeBlock =
  rf_Events :: "event list"
  rf_TxResults :: "exec_result option list"
  rf_ValidatorUpdates :: "ValidatorUpdate list"
  rf_ConsensusParamUpdates :: "ConsensusParams option"
  rf_AppHash :: bytes

definition empty_response :: ResponseFinalizeBlock where
  "empty_response = \<lparr>rf_Events = [], rf_TxResults = [], rf_ValidatorUpdates = [], rf_ConsensusParamUpdates = None, rf_AppHash = []\<rparr>"

text \<open>\<open>replaying\<close> is that one of the two replay configurations of the EVM keeper is enabled. Every group of the parameters is read through
  a pointer, so that a missing one panics.\<close>

definition getFinalizeBlockResponse ::
    "bool \<Rightarrow> bytes \<Rightarrow> event list \<Rightarrow> exec_result option list \<Rightarrow> ResponseEndBlock \<Rightarrow> ResponseFinalizeBlock go" where
  "getFinalizeBlockResponse replaying appHash events txResults endBlockResp =
     (if replaying then Done empty_response
      else
        deref (eb_ConsensusParamUpdates endBlockResp) (\<lambda>updates.
        deref (cp_Block updates) (\<lambda>b.
        deref (cp_Evidence updates) (\<lambda>ev.
        deref (cp_Validator updates) (\<lambda>pubKeyTypes.
        deref (cp_Version updates) (\<lambda>appVersion.
        Done \<lparr>rf_Events = events, rf_TxResults = txResults,
              rf_ValidatorUpdates = map (\<lambda>v. \<lparr>vu_PubKey = vu_PubKey v, vu_Power = vu_Power v\<rparr>) (eb_ValidatorUpdates endBlockResp),
              rf_ConsensusParamUpdates =
                Some \<lparr>cp_Block =
                       Some \<lparr>bp_MaxBytes = bp_MaxBytes b, bp_MaxGas = bp_MaxGas b, bp_MinTxsInBlock = bp_MinTxsInBlock b,
                             bp_MaxGasWanted = bp_MaxGasWanted b\<rparr>,
                      cp_Evidence =
                       Some \<lparr>ep_MaxAgeNumBlocks = ep_MaxAgeNumBlocks ev, ep_MaxAgeDuration = ep_MaxAgeDuration ev, ep_MaxBytes = ep_MaxBytes ev\<rparr>,
                      cp_Validator = Some pubKeyTypes, cp_Version = Some appVersion\<rparr>,
              rf_AppHash = appHash\<rparr>))))))"

section \<open>A reference for the block\<close>

text \<open>Which transactions take priority, the order in which the two parts run, and the delivery of the transactions at given places one after
  the other.\<close>

definition takes_priority :: "app_Tx option \<Rightarrow> bool" where
  "takes_priority typedTx = (case typedTx of None \<Rightarrow> False | Some t \<Rightarrow> IsTxPrioritized (Some (map url_view (at_Msgs t))))"

definition first_part :: "app_Tx option list \<Rightarrow> nat list" where
  "first_part typedTxs = filter (\<lambda>i. takes_priority (typedTxs ! i)) [0..<length typedTxs]"

definition second_part :: "app_Tx option list \<Rightarrow> nat list" where
  "second_part typedTxs = filter (\<lambda>i. \<not> takes_priority (typedTxs ! i)) [0..<length typedTxs]"

fun deliver_at :: "('c, 'w, 'm) app_funs \<Rightarrow> bytes list \<Rightarrow> app_Tx option list \<Rightarrow> nat list \<Rightarrow> 'c \<Rightarrow> exec_result list \<times> 'c" where
  "deliver_at ap txs typedTxs [] c = ([], c)"
| "deliver_at ap txs typedTxs (i # is) c =
     (let (r, c') = DeliverTxWithResult ap i (txs ! i) (typedTxs ! i) c; (rs, c'') = deliver_at ap txs typedTxs is c' in (r # rs, c''))"

definition result_at :: "nat list \<Rightarrow> exec_result list \<Rightarrow> nat \<Rightarrow> exec_result" where
  "result_at is rs i = the (map_of (zip is rs) i)"

definition evm_gas_total :: "exec_result list \<Rightarrow> int64" where
  "evm_gas_total results = sum_list (map xr_GasUsed (filter (\<lambda>r. xr_EvmTxInfo r \<noteq> None) results))"

definition block_reference ::
    "('c, 'w, 'm) app_funs \<Rightarrow> int_codec \<Rightarrow> app_Tx option list \<Rightarrow> bytes list \<Rightarrow> 'm block_req \<Rightarrow> bool \<Rightarrow> 'c \<Rightarrow> block_result \<times> 'c" where
  "block_reference ap ic typedTxs txs req simulate c =
     (let (beginEvents, c1) = base_BeginBlock ap (begin_request ap req simulate c) c;
          (rs1, c2) = deliver_at ap txs typedTxs (first_part typedTxs) c1;
          (deferredEvents, c3) = WriteDeferredBalances ap c2;
          (midEvents, c4) = base_MidBlock ap (bq_Height req) c3;
          (rs2, c5) = deliver_at ap txs typedTxs (second_part typedTxs) c4;
          (lazyEvents, c6) = WriteDeferredBalances ap c5;
          results = map (result_at (first_part typedTxs @ second_part typedTxs) (rs1 @ rs2)) [0..<length txs];
          keeper = \<lparr>kb_msgs = map (GetEVMMsg ic) typedTxs, kb_txResults = map ExecTxResult.truncate results\<rparr>;
          (endBlockResp, c7) = base_EndBlock ap keeper (bq_Height req) (evm_gas_total results) c6 in
      (\<lparr>br_Events = beginEvents @ deferredEvents @ midEvents @ lazyEvents @ eb_Events endBlockResp, br_TxResults = map Some results,
        br_EndBlock = endBlockResp, br_Keeper = keeper\<rparr>, c7))"

text \<open>What the scheduler of the SDK promises of a batch: the outcome of the entries one after the other, in their order.\<close>

fun serial_batch :: "('c, 'w, 'm) app_funs \<Rightarrow> 'w DeliverTxEntry list \<Rightarrow> 'c \<Rightarrow> ResponseDeliverTx list \<times> 'c" where
  "serial_batch ap [] c = ([], c)"
| "serial_batch ap (en # es) c =
     (let (r, c') = base_DeliverTx ap (en_AbsoluteIndex en) (en_Tx en) (en_SdkTx en) c; (rs, c'') = serial_batch ap es c' in (r # rs, c''))"

definition batch_is_serial :: "('c, 'w, 'm) app_funs \<Rightarrow> bool" where
  "batch_is_serial ap \<longleftrightarrow> (\<forall>entries c. base_DeliverTxBatch ap entries c = serial_batch ap entries c)"

lemma partition_loop:
  assumes "txs = drop idx all" "length all = length typedTxs" "idx \<le> length all"
  shows "PartitionPrioritizedTxs_loop typedTxs idx txs
      \<lparr>pt_Txs = map ((!) all) ps, pt_TypedTxs = map ((!) typedTxs) ps, pt_Indices = ps\<rparr>
      \<lparr>pt_Txs = map ((!) all) os, pt_TypedTxs = map ((!) typedTxs) os, pt_Indices = os\<rparr> =
    Done (let ps' = ps @ filter (\<lambda>i. takes_priority (typedTxs ! i)) [idx..<length typedTxs];
              os' = os @ filter (\<lambda>i. \<not> takes_priority (typedTxs ! i)) [idx..<length typedTxs] in
      (\<lparr>pt_Txs = map ((!) all) ps', pt_TypedTxs = map ((!) typedTxs) ps', pt_Indices = ps'\<rparr>,
       \<lparr>pt_Txs = map ((!) all) os', pt_TypedTxs = map ((!) typedTxs) os', pt_Indices = os'\<rparr>))"
  using assms
proof (induction txs arbitrary: idx ps os)
  case Nil
  then show ?case by simp
next
  case (Cons tx txs)
  have lt: "idx < length all"
  proof (rule ccontr)
    assume "\<not> idx < length all" then show False using Cons.prems(1) by simp
  qed
  have tx: "tx = all ! idx" "txs = drop (Suc idx) all"
    using Cons.prems(1) lt by (metis Cons_nth_drop_Suc list.inject)+
  have up: "[idx..<length typedTxs] = idx # [Suc idx..<length typedTxs]" using lt Cons.prems(2) by (simp add: upt_conv_Cons)
  note IH = Cons.IH [OF tx(2) Cons.prems(2), unfolded Let_def]
  show ?case
  proof (cases "takes_priority (typedTxs ! idx)")
    case True
    then obtain t where t: "typedTxs ! idx = Some t" "IsTxPrioritized (Some (map url_view (at_Msgs t)))"
      by (auto simp: takes_priority_def split: option.splits)
    show ?thesis using IH [of "ps @ [idx]" os] lt Cons.prems(2) t True
      by (simp add: partition_add_def tx(1) up Let_def)
  next
    case False
    then have "(typedTxs ! idx = None) \<or> (\<exists>t. typedTxs ! idx = Some t \<and> \<not> IsTxPrioritized (Some (map url_view (at_Msgs t))))"
      by (auto simp: takes_priority_def split: option.splits)
    then show ?thesis using IH [of ps "os @ [idx]"] lt Cons.prems(2) False
      by (elim disjE exE) (simp_all add: partition_add_def tx(1) up Let_def)
  qed
qed

lemma PartitionPrioritizedTxs_parts:
  assumes "length txs = length typedTxs"
  shows "PartitionPrioritizedTxs txs typedTxs =
    Done (\<lparr>pt_Txs = map ((!) txs) (first_part typedTxs), pt_TypedTxs = map ((!) typedTxs) (first_part typedTxs), pt_Indices = first_part typedTxs\<rparr>,
          \<lparr>pt_Txs = map ((!) txs) (second_part typedTxs), pt_TypedTxs = map ((!) typedTxs) (second_part typedTxs), pt_Indices = second_part typedTxs\<rparr>)"
  using partition_loop [of txs 0 txs typedTxs "[]" "[]"] assms
  by (simp add: PartitionPrioritizedTxs_def first_part_def second_part_def Let_def)

lemma ProcessBlockSynchronous_at:
  "ProcessBlockSynchronous ap (map ((!) txs) is) (map ((!) typedTxs) is) is c = Done (deliver_at ap txs typedTxs is c)"
  by (induction "is" arbitrary: c) (auto simp: Let_def split: prod.splits)

lemma serial_batch_at:
  "deliver_at ap txs typedTxs (map g ks) c =
    (let batch = serial_batch ap (map (\<lambda>k. GetDeliverTxEntry ap c0 k (g k) (txs ! g k) (typedTxs ! g k)) ks) c in (map exec_of (fst batch), snd batch))"
  by (induction ks arbitrary: c) (simp_all add: Let_def GetDeliverTxEntry_def DeliverTxWithResult_def case_prod_beta)

lemma ProcessTXsWithOCC_at:
  assumes "batch_is_serial ap"
  shows "ProcessTXsWithOCC ap (map ((!) txs) is) (map ((!) typedTxs) is) is c = Done (deliver_at ap txs typedTxs is c)"
proof -
  have "map (\<lambda>k. GetDeliverTxEntry ap c k (is ! k) (map ((!) txs) is ! k) (map ((!) typedTxs) is ! k)) [0..<length (map ((!) txs) is)] =
      map (\<lambda>k. GetDeliverTxEntry ap c k (is ! k) (txs ! (is ! k)) (typedTxs ! (is ! k))) [0..<length is]" (is "?entries = ?entries'") by simp
  then have "ProcessTXsWithOCC ap (map ((!) txs) is) (map ((!) typedTxs) is) is c =
      (let batch = base_DeliverTxBatch ap ?entries' c in Done (map exec_of (fst batch), snd batch))"
    by (simp only: ProcessTXsWithOCC_def length_map less_irrefl disj_not1 simp_thms if_False Let_def case_prod_beta)
  then show ?thesis
    using serial_batch_at [of ap txs typedTxs "(!) is" "[0..<length is]" c c, unfolded map_nth] assms by (simp add: Let_def batch_is_serial_def)
qed

lemma ExecuteTxsConcurrently_at:
  assumes "OccEnabled ap \<Longrightarrow> batch_is_serial ap"
  shows "ExecuteTxsConcurrently ap (map ((!) txs) is) (map ((!) typedTxs) is) is c = Done (deliver_at ap txs typedTxs is c)"
  using assms by (simp add: ExecuteTxsConcurrently_def ProcessBlockSynchronous_at ProcessTXsWithOCC_at)

lemma deliver_at_length: "length (fst (deliver_at ap txs typedTxs is c)) = length is"
  by (induction "is" arbitrary: c) (simp_all add: Let_def case_prod_beta)

lemma place_results_at:
  assumes "length rs = length is" "distinct is" "\<forall>i \<in> set is. i < length R" "length E = length R"
  shows "place_results ic rs (map ((!) typedTxs) is) is (R, E) =
    Done (map (\<lambda>j. case map_of (zip is rs) j of Some r \<Rightarrow> Some r | None \<Rightarrow> R ! j) [0..<length R],
          map (\<lambda>j. if j \<in> set is then GetEVMMsg ic (typedTxs ! j) else E ! j) [0..<length R])"
  using assms
proof (induction "is" arbitrary: rs R E)
  case Nil
  then show ?case by (auto intro!: nth_equalityI)
next
  case (Cons i "is")
  then obtain r rs' where rs: "rs = r # rs'" "length rs' = length is" by (cases rs) auto
  have IH: "place_results ic rs' (map ((!) typedTxs) is) is (R[i := Some r], E[i := GetEVMMsg ic (typedTxs ! i)]) =
    Done (map (\<lambda>j. case map_of (zip is rs') j of Some r \<Rightarrow> Some r | None \<Rightarrow> R[i := Some r] ! j) [0..<length R],
          map (\<lambda>j. if j \<in> set is then GetEVMMsg ic (typedTxs ! j) else E[i := GetEVMMsg ic (typedTxs ! i)] ! j) [0..<length R])"
    using Cons.IH [of rs' "R[i := Some r]" "E[i := GetEVMMsg ic (typedTxs ! i)]"] rs(2) Cons.prems by simp
  have "map_of (zip is rs') i = None" using Cons.prems(2) by (auto simp: map_of_eq_None_iff dest: set_zip_leftD)
  then show ?case using Cons.prems rs by (auto simp: IH nth_list_update split: option.splits dest: set_zip_leftD)
qed

lemma evm_gas_used_total: "evm_gas_used (map Some results) n = Done (n + evm_gas_total results)"
  by (induction results arbitrary: n) (simp_all add: evm_gas_total_def add.assoc)

lemma parts_of_block:
  "distinct (first_part typedTxs @ second_part typedTxs)" "set (first_part typedTxs @ second_part typedTxs) = {..<length typedTxs}"
  by (auto simp: first_part_def second_part_def)

text \<open>The places of a block after its two parts.\<close>

lemma placed_results:
  assumes "length ps = length xs" "length qs = length ys" "distinct (ps @ qs)" "set (ps @ qs) = {..<n}"
  shows "map (\<lambda>j. case map_of (zip qs ys) j of Some r \<Rightarrow> Some r
              | None \<Rightarrow> map (\<lambda>j. case map_of (zip ps xs) j of Some r \<Rightarrow> Some r | None \<Rightarrow> replicate n None ! j) [0..<n] ! j) [0..<n] =
    map Some (map (result_at (ps @ qs) (xs @ ys)) [0..<n])"
proof -
  have "(case map_of (zip qs ys) j of Some r \<Rightarrow> Some r | None \<Rightarrow> (case map_of (zip ps xs) j of Some r \<Rightarrow> Some r | None \<Rightarrow> None)) =
      Some (result_at (ps @ qs) (xs @ ys) j)" if "j < n" for j
  proof -
    have "j \<in> set (ps @ qs)" using that assms(4) by simp
    then consider (p) "j \<in> set ps" "j \<notin> set qs" | (q) "j \<in> set qs" "j \<notin> set ps" using assms(3) by auto
    then show ?thesis
    proof cases
      case p
      then obtain r where "map_of (zip ps xs) j = Some r" using assms(1) by (metis map_of_zip_is_Some)
      moreover have "map_of (zip qs ys) j = None" using p by (auto simp: map_of_eq_None_iff dest: set_zip_leftD)
      ultimately show ?thesis using assms(1) by (simp add: result_at_def map_add_def)
    next
      case q
      then obtain r where "map_of (zip qs ys) j = Some r" using assms(2) by (metis map_of_zip_is_Some)
      moreover have "map_of (zip ps xs) j = None" using q by (auto simp: map_of_eq_None_iff dest: set_zip_leftD)
      ultimately show ?thesis using assms(1) by (auto simp: result_at_def map_add_def split: option.splits dest!: map_of_SomeD [of "zip ps xs"] set_zip_leftD)
    qed
  qed
  then show ?thesis by (auto cong: option.case_cong)
qed

lemma placed_msgs:
  assumes "set (ps @ qs) = {..<length ts}"
  shows "map (\<lambda>j. if j \<in> set qs then f (ts ! j) else map (\<lambda>j. if j \<in> set ps then f (ts ! j) else replicate (length ts) None ! j) [0..<length ts] ! j) [0..<length ts] =
    map f ts"
proof (rule nth_equalityI)
  fix i
  assume "i < length (map (\<lambda>j. if j \<in> set qs then f (ts ! j) else map (\<lambda>j. if j \<in> set ps then f (ts ! j) else replicate (length ts) None ! j) [0..<length ts] ! j) [0..<length ts])"
  then have i: "i < length ts" by simp
  then have "i \<in> set ps \<or> i \<in> set qs" using assms by auto
  then show "map (\<lambda>j. if j \<in> set qs then f (ts ! j) else map (\<lambda>j. if j \<in> set ps then f (ts ! j) else replicate (length ts) None ! j) [0..<length ts] ! j) [0..<length ts] ! i = map f ts ! i"
    using i by auto
qed simp

lemma place_parts:
  assumes "length xs = length ps" "length ys = length qs" "distinct (ps @ qs)" "set (ps @ qs) = {..<length ts}"
  obtains R E where
    "place_results ic xs (map ((!) ts) ps) ps (replicate (length ts) None, replicate (length ts) None) = Done (R, E)"
    "place_results ic ys (map ((!) ts) qs) qs (R, E) = Done (map Some (map (result_at (ps @ qs) (xs @ ys)) [0..<length ts]), map (GetEVMMsg ic) ts)"
proof -
  have "\<forall>i \<in> set ps. i < length ts" "\<forall>i \<in> set qs. i < length ts" "distinct ps" "distinct qs" using assms(3,4) by auto
  note p = place_results_at [OF assms(1) this(3), of "replicate (length ts) None" "replicate (length ts) None" ic ts, simplified, OF this(1)]
    and q = place_results_at [OF assms(2) this(4), of _ _ ic ts]
  show ?thesis
    using that [OF p] q \<open>\<forall>i \<in> set qs. i < length ts\<close> placed_results [OF assms(1,2) [symmetric] assms(3,4)] placed_msgs [OF assms(4), of "GetEVMMsg ic"]
    by simp
qed

lemma ProcessBlock_reference:
  assumes "OccEnabled ap \<longrightarrow> batch_is_serial ap"
    and typed_def: "typed = DecodeTransactionsConcurrently txDecoder pre txs"
  shows "ProcessBlock ap ic txDecoder pre txs req simulate c = Done (block_reference ap ic typed txs req simulate c)
    \<and> distinct (first_part typed @ second_part typed) \<and> set (first_part typed @ second_part typed) = {..<length txs}"
proof -
  let ?ps = "first_part typed" and ?qs = "second_part typed"
  have len: "length txs = length typed" by (simp add: typed_def DecodeTransactionsConcurrently_def)
  note parts = parts_of_block [of typed]
  obtain be c1 where b: "base_BeginBlock ap (begin_request ap req simulate c) c = (be, c1)" by fastforce
  obtain rs1 c2 where d1: "deliver_at ap txs typed ?ps c1 = (rs1, c2)" by fastforce
  obtain de c3 where w: "WriteDeferredBalances ap c2 = (de, c3)" by fastforce
  obtain me c4 where m: "base_MidBlock ap (bq_Height req) c3 = (me, c4)" by fastforce
  obtain rs2 c5 where d2: "deliver_at ap txs typed ?qs c4 = (rs2, c5)" by fastforce
  obtain le c6 where z: "WriteDeferredBalances ap c5 = (le, c6)" by fastforce
  have l: "length rs1 = length ?ps" "length rs2 = length ?qs"
    using deliver_at_length [of ap txs typed ?ps c1] deliver_at_length [of ap txs typed ?qs c4] d1 d2 by simp_all
  define results where "results = map (result_at (?ps @ ?qs) (rs1 @ rs2)) [0..<length typed]"
  obtain R E where R: "place_results ic rs1 (map ((!) typed) ?ps) ?ps (replicate (length typed) None, replicate (length typed) None) = Done (R, E)"
    "place_results ic rs2 (map ((!) typed) ?qs) ?qs (R, E) = Done (map Some results, map (GetEVMMsg ic) typed)"
    using place_parts [OF l parts] unfolding results_def by blast
  obtain eb c7 where eb:
    "base_EndBlock ap \<lparr>kb_msgs = map (GetEVMMsg ic) typed, kb_txResults = map ExecTxResult.truncate results\<rparr> (bq_Height req) (evm_gas_total results) c6 = (eb, c7)"
    by fastforce
  have "block_reference ap ic typed txs req simulate c =
      (\<lparr>br_Events = be @ de @ me @ le @ eb_Events eb, br_TxResults = map Some results, br_EndBlock = eb,
        br_Keeper = \<lparr>kb_msgs = map (GetEVMMsg ic) typed, kb_txResults = map ExecTxResult.truncate results\<rparr>\<rparr>, c7)"
    by (simp only: block_reference_def Let_def prod.case b d1 w m d2 z len results_def [symmetric] eb)
  note reference = this
  note exec = ExecuteTxsConcurrently_at [of ap, OF assms(1) [rule_format]]
  have "ProcessBlock ap ic txDecoder pre txs req simulate c = Done (block_reference ap ic typed txs req simulate c)"
    unfolding ProcessBlock_def typed_def [symmetric]
    by (simp add: Let_def b PartitionPrioritizedTxs_parts len exec d1 w m d2 z R reference eb
        evm_gas_used_total [of _ 0, simplified] comp_def)
  then show ?thesis using parts len by simp
qed

section \<open>Properties\<close>

text \<open>C3 (block_runs_in_order): \<open>ProcessBlock\<close> never panics outside the functions of the base application and does exactly what the
  reference does: every place of the block is delivered once (the two parts hold each place exactly once), the transactions with
  priority first and each part in the order of the block, one after the other, with the deferred transfers and the middle of the block between
  the parts. The results stand at the places of their transactions, the keeper receives the EVM messages and results at the same places,
  and the end of the block is told the 64-bit sum of the gas of the EVM transactions. With the concurrent scheduler this rests on its
  promise that a batch has the outcome of its entries in order.\<close>

theorem block_runs_in_order:
  assumes "OccEnabled ap \<longrightarrow> batch_is_serial ap"
    and typed_def: "typed = DecodeTransactionsConcurrently txDecoder pre txs"
  shows "ProcessBlock ap ic txDecoder pre txs req simulate c = Done (block_reference ap ic typed txs req simulate c)
    \<and> distinct (first_part typed @ second_part typed) \<and> set (first_part typed @ second_part typed) = {..<length txs}"
  using ProcessBlock_reference [OF assms] .

text \<open>A base application whose state lists the places it has delivered, with a scheduler: a transaction uses as much gas as its first byte
  says and counts as an EVM transaction unless that is zero; the middle of the block marks the list with 100, and the end adds the gas.\<close>

definition response_example :: "bytes \<Rightarrow> ResponseDeliverTx" where
  "response_example tx =
     \<lparr>rd_Code = 0, rd_Data = [], rd_Log = [], rd_Info = [], rd_GasWanted = 0, rd_GasUsed = ucast (hd tx), rd_Events = [], rd_Codespace = [],
      rd_EvmTxInfo = (if hd tx = 0 then None else Some [])\<rparr>"

definition app_example :: "(nat list, unit, unit) app_funs" where
  "app_example =
     \<lparr>ChainID = ''tabi'', ctx_ProposerAddress = (\<lambda>c. []), base_BeginBlock = (\<lambda>req c. ([], c)), base_MidBlock = (\<lambda>h c. ([], c @ [100])),
      base_EndBlock = (\<lambda>k h g c. (\<lparr>eb_ValidatorUpdates = [], eb_ConsensusParamUpdates = None, eb_Events = []\<rparr>, c @ [unat g])),
      base_DeliverTx = (\<lambda>i tx t c. (response_example tx, c @ [i])),
      base_DeliverTxBatch = (\<lambda>es c. (map (\<lambda>en. response_example (en_Tx en)) es, c @ map en_AbsoluteIndex es)),
      WriteDeferredBalances = (\<lambda>c. ([], c)), GenerateEstimatedWritesets = (\<lambda>c i t. Done (Inr ())), OccEnabled = True\<rparr>"

definition mixed_decoder :: "bytes \<Rightarrow> (string + app_Tx) go" where
  "mixed_decoder tx =
     (if tx = [0] then Done (Inl ''tx parse error'')
      else Done (Inr \<lparr>at_Msgs = [AppMsg (if tx = [9] then ''/cosmos.oracle.MsgAggregateExchangeRateVote'' else ''/cosmos.bank.v1beta1.MsgSend'')],
                      at_FeeGas = None, at_GasEstimate = 0\<rparr>))"

definition request_example :: "bytes list \<Rightarrow> unit block_req" where
  "request_example txs =
     \<lparr>bq_Hash = concat txs, bq_Txs = txs, bq_ByzantineValidators = [], bq_Height = 7, bq_Time = 0, bq_LastCommit = \<lparr>ci_Round = 0, ci_Votes = []\<rparr>\<rparr>"

lemma app_example_serial: "batch_is_serial app_example"
proof -
  have "serial_batch app_example es c = (map (\<lambda>en. response_example (en_Tx en)) es, c @ map en_AbsoluteIndex es)" for es c
    by (induction es arbitrary: c) (simp_all add: app_example_def)
  then show ?thesis by (simp add: batch_is_serial_def) (simp add: app_example_def)
qed

text \<open>The witness: the second of three transactions votes for the oracle and the third one does not decode.\<close>

theorem block_runs_in_order_witness:
  "go_map (\<lambda>(r, c). (map (map_option xr_GasUsed) (br_TxResults r), c))
      (ProcessBlock app_example int_codec_bytes mixed_decoder (\<lambda>m. Done (None, m)) [[5], [9], [0]] (request_example [[5], [9], [0]]) False []) =
    Done ([Some 5, Some 9, Some 0], [1, 100, 0, 2, 14])"
proof -
  let ?typed = "DecodeTransactionsConcurrently mixed_decoder (\<lambda>m. Done (None, m)) [[5], [9], [0]]"
  have parts: "first_part ?typed = [1]" "second_part ?typed = [0, 2]" by code_simp+
  show ?thesis
    unfolding block_runs_in_order [OF impI [OF app_example_serial] refl, THEN conjunct1] block_reference_def parts
    by (simp add: app_example_def begin_request_def DeliverTxWithResult_def exec_of_def response_example_def result_at_def evm_gas_total_def upt_rec)
qed

end
