(* ===== verification/App_Optimistic.thy ===== *)
theory App_Optimistic
  imports App_Block
begin

text \<open>
  Optimistic processing in \<open>app/app.go\<close>: the first proposal of a height starts to process its block in the background, later proposals
  may abort it, and \<open>FinalizeBlocker\<close> waits for it and takes its outcome when it belongs to the decided block, or processes
  the block itself. Calls of the consensus engine come one at a time; the goroutine of the background job is the only other actor, and what it
  does under the lock is one step.
\<close>

section \<open>The node\<close>

text \<open>What the handlers use: the base application and decoders, a view of the state for \<open>checkTotalBlockGas\<close> with the limits of the
  consensus parameters, the upgrade plan, the replay configurations, the light invariance checks on the states before and after the
  block, and the hash of the working state.\<close>

record ('c, 'w, 'm, 'x) app_env =
  ae_funs :: "('c, 'w, 'm) app_funs"
  ae_lib :: lib
  ae_eth :: eth_funs
  ae_codec :: int_codec
  ae_decoder :: "bytes \<Rightarrow> (string + app_Tx) go"
  ae_pre :: "MsgEVMTransaction \<Rightarrow> (error \<times> MsgEVMTransaction) go"
  ae_ctx :: "'c \<Rightarrow> 'x ctx"
  ae_limits :: "'c \<Rightarrow> (int64 \<times> int64) option"
  ae_upgrade_due :: "'c \<Rightarrow> bool"
  ae_replaying :: bool
  ae_checks :: "'c \<Rightarrow> 'c \<Rightarrow> unit go"
  ae_hash :: "'c \<Rightarrow> bytes"

text \<open>The completion channel holds at most one signal: \<open>None\<close> is the nil channel, \<open>Some b\<close> says whether a signal waits in it.\<close>

record OptimisticProcessingInfo =
  oi_Height :: int64
  oi_Hash :: bytes
  oi_Aborted :: bool
  oi_Completion :: "bool option"
  oi_Events :: "event list"
  oi_TxRes :: "exec_result option list"
  oi_EndBlockResp :: ResponseEndBlock

definition no_end_block :: ResponseEndBlock where
  "no_end_block = \<lparr>eb_ValidatorUpdates = [], eb_ConsensusParamUpdates = None, eb_Events = []\<rparr>"

text \<open>The state that has been written, the branch that the proposal handler works on, the state chosen for the commit, the information and
  the job that runs with the state that its context has branched from.\<close>

record ('c, 'm) node =
  nd_State :: 'c
  nd_Branch :: 'c
  nd_Commit :: 'c
  nd_Info :: "OptimisticProcessingInfo option"
  nd_Job :: "('m block_req \<times> 'c) option"

datatype proposal_status = ACCEPT | REJECT

section \<open>Handlers\<close>

definition GetOptimisticProcessingInfo :: "('c, 'm) node \<Rightarrow> OptimisticProcessingInfo option" where
  "GetOptimisticProcessingInfo n = nd_Info n"

definition ClearOptimisticProcessingInfo :: "('c, 'm) node \<Rightarrow> ('c, 'm) node" where
  "ClearOptimisticProcessingInfo n = n\<lparr>nd_Info := None\<rparr>"

text \<open>The send never blocks: a full or nil channel is left as it is.\<close>

definition signalCompletion :: "bool option \<Rightarrow> bool option" where
  "signalCompletion ch = (case ch of None \<Rightarrow> None | Some waiting \<Rightarrow> Some True)"

definition optimisticAbortLocked :: "('c, 'm) node \<Rightarrow> ('c, 'm) node" where
  "optimisticAbortLocked n =
     (case nd_Info n of
        None \<Rightarrow> n
      | Some info \<Rightarrow> n\<lparr>nd_Info := Some (info\<lparr>oi_Aborted := True, oi_Completion := signalCompletion (oi_Completion info)\<rparr>)\<rparr>)"

definition optimisticCommitLocked :: "event list \<Rightarrow> exec_result option list \<Rightarrow> ResponseEndBlock \<Rightarrow> error \<Rightarrow> ('c, 'm) node \<Rightarrow> ('c, 'm) node" where
  "optimisticCommitLocked events txRes endBlockResp processErr n =
     (case nd_Info n of
        None \<Rightarrow> n
      | Some info \<Rightarrow>
          let info1 = (if processErr \<noteq> None then info\<lparr>oi_Aborted := True\<rparr>
                       else info\<lparr>oi_Events := events, oi_TxRes := txRes, oi_EndBlockResp := endBlockResp\<rparr>) in
          n\<lparr>nd_Info := Some (info1\<lparr>oi_Completion := signalCompletion (oi_Completion info1)\<rparr>)\<rparr>)"

definition process :: "('c, 'w, 'm, 'x) app_env \<Rightarrow> 'm block_req \<Rightarrow> 'c \<Rightarrow> (block_result \<times> 'c) go" where
  "process ae req c = ProcessBlock (ae_funs ae) (ae_codec ae) (ae_decoder ae) (ae_pre ae) (bq_Txs req) req False c"

definition ProcessProposalHandler :: "('c, 'w, 'm, 'x) app_env \<Rightarrow> 'm block_req \<Rightarrow> ('c, 'm) node \<Rightarrow> proposal_status \<times> ('c, 'm) node" where
  "ProcessProposalHandler ae req n =
     (if \<not> checkTotalBlockGas (ae_lib ae) (ae_eth ae) (ae_codec ae) (ae_decoder ae) (ae_limits ae (nd_State n)) (ae_ctx ae (nd_State n)) (bq_Txs req)
      then (REJECT, n)
      else
        (ACCEPT,
         case nd_Info n of
           None \<Rightarrow>
             let n1 = n\<lparr>nd_Info := Some \<lparr>oi_Height = bq_Height req, oi_Hash = bq_Hash req, oi_Aborted = False, oi_Completion = Some False,
                                         oi_Events = [], oi_TxRes = [], oi_EndBlockResp = no_end_block\<rparr>\<rparr> in
             if ae_upgrade_due ae (nd_State n) then optimisticAbortLocked n1 else n1\<lparr>nd_Job := Some (req, nd_State n)\<rparr>
         | Some info \<Rightarrow> if oi_Hash info \<noteq> bq_Hash req then n\<lparr>nd_Info := Some (info\<lparr>oi_Aborted := True\<rparr>)\<rparr> else n))"

text \<open>The goroutine: a panic of \<open>ProcessBlock\<close> is recovered and aborts.\<close>

definition run_job :: "('c, 'w, 'm, 'x) app_env \<Rightarrow> ('c, 'm) node \<Rightarrow> ('c, 'm) node" where
  "run_job ae n =
     (case nd_Job n of
        None \<Rightarrow> n
      | Some (req, c) \<Rightarrow>
          (case process ae req c of
             Panic _ \<Rightarrow> optimisticAbortLocked (n\<lparr>nd_Job := None\<rparr>)
           | Done (r, c') \<Rightarrow> optimisticCommitLocked (br_Events r) (br_TxResults r) (br_EndBlock r) None (n\<lparr>nd_Job := None, nd_Branch := c'\<rparr>)))"

text \<open>The end of both branches of \<open>FinalizeBlocker\<close>: the state chosen for the commit is written, checked and hashed. A panic becomes an
  error.\<close>

definition finish_block ::
    "('c, 'w, 'm, 'x) app_env \<Rightarrow> event list \<Rightarrow> exec_result option list \<Rightarrow> ResponseEndBlock \<Rightarrow> ('c, 'm) node \<Rightarrow> (string + ResponseFinalizeBlock) \<times> ('c, 'm) node" where
  "finish_block ae events txRes endBlockResp n =
     (if ae_replaying ae then (Inr empty_response, n)
      else
        let n1 = n\<lparr>nd_State := nd_Commit n\<rparr> in
        (case go_bind (ae_checks ae (nd_State n) (nd_State n1)) (\<lambda>_.
            getFinalizeBlockResponse (ae_replaying ae) (ae_hash ae (nd_State n1)) events txRes endBlockResp) of
           Panic r \<Rightarrow> (Inl (''FinalizeBlocker panic: '' @ r), n1)
         | Done resp \<Rightarrow> (Inr resp, n1)))"

definition process_decided :: "('c, 'w, 'm, 'x) app_env \<Rightarrow> 'm block_req \<Rightarrow> ('c, 'm) node \<Rightarrow> (string + ResponseFinalizeBlock) \<times> ('c, 'm) node" where
  "process_decided ae req n =
     (case process ae req (nd_State n) of
        Panic r \<Rightarrow> (Inl (''FinalizeBlocker panic: '' @ r), n)
      | Done (r, c') \<Rightarrow> finish_block ae (br_Events r) (br_TxResults r) (br_EndBlock r) (n\<lparr>nd_Commit := c'\<rparr>))"

text \<open>\<open>FinalizeBlocker\<close> from the moment when it no longer waits: \<open>ready\<close> says that there is nothing to wait for, or that the signal is there.\<close>

definition ready :: "('c, 'm) node \<Rightarrow> bool" where
  "ready n \<longleftrightarrow> (case nd_Info n of None \<Rightarrow> True | Some info \<Rightarrow> oi_Completion info \<noteq> Some False)"

definition finalize_body :: "('c, 'w, 'm, 'x) app_env \<Rightarrow> 'm block_req \<Rightarrow> ('c, 'm) node \<Rightarrow> (string + ResponseFinalizeBlock) \<times> ('c, 'm) node" where
  "finalize_body ae req n =
     (case nd_Info n of
        None \<Rightarrow> process_decided ae req n
      | Some info \<Rightarrow>
          if oi_Completion info = None then process_decided ae req n
          else
            let n1 = n\<lparr>nd_Info := Some (info\<lparr>oi_Completion := Some False\<rparr>)\<rparr> in
            if \<not> oi_Aborted info \<and> oi_Hash info = bq_Hash req
            then finish_block ae (oi_Events info) (oi_TxRes info) (oi_EndBlockResp info) (n1\<lparr>nd_Commit := nd_Branch n1\<rparr>)
            else process_decided ae req n1)"

definition FinalizeBlocker :: "('c, 'w, 'm, 'x) app_env \<Rightarrow> 'm block_req \<Rightarrow> ('c, 'm) node \<Rightarrow> (string + ResponseFinalizeBlock) \<times> ('c, 'm) node" where
  "FinalizeBlocker ae req n = apsnd ClearOptimisticProcessingInfo (finalize_body ae req n)"

datatype TxRecord_Action = UNMODIFIED

definition PrepareProposalHandler :: "bytes list \<Rightarrow> (TxRecord_Action \<times> bytes) list" where
  "PrepareProposalHandler txs = map (\<lambda>tx. (UNMODIFIED, tx)) txs"

section \<open>Runs\<close>

text \<open>A run of the node on blocks of a set: proposals, the end of the background job, and decided blocks with their responses.\<close>

datatype 'm label = Proposed "'m block_req" proposal_status | Worked | Decided "'m block_req" "string + ResponseFinalizeBlock"

inductive opt_step :: "('c, 'w, 'm, 'x) app_env \<Rightarrow> 'm block_req set \<Rightarrow> ('c, 'm) node \<Rightarrow> 'm label \<Rightarrow> ('c, 'm) node \<Rightarrow> bool" for ae B where
  propose: "req \<in> B \<Longrightarrow> ProcessProposalHandler ae req n = (status, n') \<Longrightarrow> opt_step ae B n (Proposed req status) n'"
| work: "nd_Job n \<noteq> None \<Longrightarrow> n' = run_job ae n \<Longrightarrow> opt_step ae B n Worked n'"
| decide: "req \<in> B \<Longrightarrow> ready n \<Longrightarrow> FinalizeBlocker ae req n = (resp, n') \<Longrightarrow> opt_step ae B n (Decided req resp) n'"

inductive_cases opt_stepE: "opt_step ae B n l n'"

inductive opt_run :: "('c, 'w, 'm, 'x) app_env \<Rightarrow> 'm block_req set \<Rightarrow> ('c, 'm) node \<Rightarrow> 'm label list \<Rightarrow> ('c, 'm) node \<Rightarrow> bool" for ae B n0 where
  start: "opt_run ae B n0 [] n0"
| step: "opt_run ae B n0 ls n \<Longrightarrow> opt_step ae B n l n' \<Longrightarrow> opt_run ae B n0 (ls @ [l]) n'"

text \<open>The specification has no proposals and no job: the decided blocks are processed one after the other.\<close>

definition decide_block :: "('c, 'w, 'm, 'x) app_env \<Rightarrow> 'm block_req \<Rightarrow> 'c \<Rightarrow> (string + ResponseFinalizeBlock) \<times> 'c" where
  "decide_block ae req c =
     (case process ae req c of
        Panic r \<Rightarrow> (Inl (''FinalizeBlocker panic: '' @ r), c)
      | Done (r, c') \<Rightarrow>
          if ae_replaying ae then (Inr empty_response, c)
          else (case go_bind (ae_checks ae c c') (\<lambda>_. getFinalizeBlockResponse False (ae_hash ae c') (br_Events r) (br_TxResults r) (br_EndBlock r)) of
                  Panic r \<Rightarrow> (Inl (''FinalizeBlocker panic: '' @ r), c')
                | Done resp \<Rightarrow> (Inr resp, c')))"

fun decided :: "'m label list \<Rightarrow> ('m block_req \<times> (string + ResponseFinalizeBlock)) list" where
  "decided [] = []"
| "decided (Decided req resp # ls) = (req, resp) # decided ls"
| "decided (l # ls) = decided ls"

fun decide_all :: "('c, 'w, 'm, 'x) app_env \<Rightarrow> 'm block_req list \<Rightarrow> 'c \<Rightarrow> ('m block_req \<times> (string + ResponseFinalizeBlock)) list \<times> 'c" where
  "decide_all ae [] c = ([], c)"
| "decide_all ae (req # reqs) c =
     (let (resp, c') = decide_block ae req c; (rs, c'') = decide_all ae reqs c' in ((req, resp) # rs, c''))"

section \<open>The invariant\<close>

text \<open>An idle node has no information and no job. Otherwise the information names a block of the set, and either its job runs from the written
  state and no signal waits, or the signal waits and, unless aborted, the results and the branch are those of that block.\<close>

definition job_inv :: "('c, 'w, 'm, 'x) app_env \<Rightarrow> 'm block_req set \<Rightarrow> ('c, 'm) node \<Rightarrow> bool" where
  "job_inv ae B n \<longleftrightarrow>
     (case nd_Info n of
        None \<Rightarrow> nd_Job n = None
      | Some info \<Rightarrow>
          \<exists>req \<in> B. oi_Hash info = bq_Hash req \<and>
            (case nd_Job n of
               Some job \<Rightarrow> job = (req, nd_State n) \<and> oi_Completion info = Some False
             | None \<Rightarrow> oi_Completion info = Some True \<and>
                 (\<not> oi_Aborted info \<longrightarrow>
                   (\<exists>r. process ae req (nd_State n) = Done (r, nd_Branch n) \<and>
                        oi_Events info = br_Events r \<and> oi_TxRes info = br_TxResults r \<and> oi_EndBlockResp info = br_EndBlock r))))"

lemma propose_inv: "job_inv ae B n \<Longrightarrow> req \<in> B \<Longrightarrow> ProcessProposalHandler ae req n = (status, n') \<Longrightarrow> job_inv ae B n'"
  by (cases "nd_Info n"; cases "nd_Job n")
    (auto simp: ProcessProposalHandler_def job_inv_def optimisticAbortLocked_def signalCompletion_def Let_def split: if_splits)

lemma work_inv: "job_inv ae B n \<Longrightarrow> job_inv ae B (run_job ae n)"
  by (cases "nd_Info n"; cases "nd_Job n") (auto simp: run_job_def job_inv_def optimisticAbortLocked_def optimisticCommitLocked_def signalCompletion_def Let_def
      split: go.splits prod.splits)

lemma finish_decide:
  assumes "process ae req (nd_State n) = Done (r, c')" "nd_Commit n = c'"
  shows "decide_block ae req (nd_State n) = (let (resp, n') = finish_block ae (br_Events r) (br_TxResults r) (br_EndBlock r) n in (resp, nd_State n'))"
  using assms by (auto simp: decide_block_def finish_block_def Let_def split: go.splits)

lemma finish_keeps: "finish_block ae ev tr eb n = (resp, n') \<Longrightarrow> nd_Info n' = nd_Info n \<and> nd_Job n' = nd_Job n"
  by (auto simp: finish_block_def Let_def split: if_splits go.splits)

lemma process_decided_decide:
  "process_decided ae req n = (resp, n') \<Longrightarrow> decide_block ae req (nd_State n) = (resp, nd_State n') \<and> nd_Job n' = nd_Job n"
  by (auto simp: process_decided_def decide_block_def finish_block_def Let_def split: if_splits go.splits)

lemma decide_step:
  assumes "job_inv ae B n" "ready n" "req \<in> B" "inj_on bq_Hash B" "FinalizeBlocker ae req n = (resp, n')"
  shows "decide_block ae req (nd_State n) = (resp, nd_State n') \<and> job_inv ae B n'"
proof -
  obtain n1 where n1: "n' = ClearOptimisticProcessingInfo n1" and f: "finalize_body ae req n = (resp, n1)"
    using assms(5) by (cases "finalize_body ae req n") (auto simp: FinalizeBlocker_def)
  have "decide_block ae req (nd_State n) = (resp, nd_State n1) \<and> nd_Job n1 = None"
  proof (cases "nd_Info n")
    case None
    then show ?thesis using f assms(1) by (auto simp: finalize_body_def job_inv_def dest: process_decided_decide)
  next
    case (Some info)
    then obtain req' where req': "req' \<in> B" "oi_Hash info = bq_Hash req'" "nd_Job n = None" "oi_Completion info = Some True"
      "\<not> oi_Aborted info \<longrightarrow> (\<exists>r. process ae req' (nd_State n) = Done (r, nd_Branch n) \<and>
         oi_Events info = br_Events r \<and> oi_TxRes info = br_TxResults r \<and> oi_EndBlockResp info = br_EndBlock r)"
      using assms(1,2) by (cases "nd_Job n") (auto simp: job_inv_def ready_def)
    let ?n = "n\<lparr>nd_Info := Some (info\<lparr>oi_Completion := Some False\<rparr>)\<rparr>"
    show ?thesis
    proof (cases "\<not> oi_Aborted info \<and> oi_Hash info = bq_Hash req")
      case True
      then have "req' = req" using req'(1,2) assms(3,4) by (auto dest: inj_onD)
      then obtain r where r: "process ae req (nd_State n) = Done (r, nd_Branch n)"
        "oi_Events info = br_Events r" "oi_TxRes info = br_TxResults r" "oi_EndBlockResp info = br_EndBlock r" using True req'(5) by auto
      have g: "finish_block ae (br_Events r) (br_TxResults r) (br_EndBlock r) (?n\<lparr>nd_Commit := nd_Branch n\<rparr>) = (resp, n1)"
        using f Some True req'(4) r by (simp add: finalize_body_def Let_def)
      then show ?thesis using finish_decide [of ae req "?n\<lparr>nd_Commit := nd_Branch n\<rparr>" r "nd_Branch n"] r(1) finish_keeps [OF g] req'(3) by simp
    next
      case False
      then have "process_decided ae req ?n = (resp, n1)" using f Some req'(4) by (auto simp: finalize_body_def Let_def)
      then show ?thesis using process_decided_decide [of ae req ?n resp n1] req'(3) by simp
    qed
  qed
  then show ?thesis by (simp add: n1 ClearOptimisticProcessingInfo_def job_inv_def)
qed

lemma decide_all_append:
  "decide_all ae (xs @ [x]) c = (let (rs, c') = decide_all ae xs c; (resp, c'') = decide_block ae x c' in (rs @ [(x, resp)], c''))"
  by (induction xs arbitrary: c) (auto simp: Let_def split: prod.splits)

lemma decided_append: "decided (ls @ ls') = decided ls @ decided ls'"
  by (induction ls rule: decided.induct) simp_all

lemma unchanged_by_propose: "ProcessProposalHandler ae req n = (status, n') \<Longrightarrow> nd_State n' = nd_State n"
  by (auto simp: ProcessProposalHandler_def optimisticAbortLocked_def Let_def split: if_splits option.splits)

lemma unchanged_by_work: "nd_State (run_job ae n) = nd_State n"
  by (auto simp: run_job_def optimisticAbortLocked_def optimisticCommitLocked_def Let_def split: option.splits go.splits prod.splits)

lemma opt_run_refines:
  assumes "opt_run ae B n0 ls n" "job_inv ae B n0" "inj_on bq_Hash B"
  shows "decide_all ae (map fst (decided ls)) (nd_State n0) = (decided ls, nd_State n) \<and> job_inv ae B n"
  using assms(1)
proof induction
  case start
  then show ?case using assms(2) by simp
next
  case (step ls n l n')
  from step.hyps(2) show ?case
  proof cases
    case (propose req status)
    then show ?thesis using step.IH propose_inv unchanged_by_propose by (fastforce simp: decided_append)
  next
    case work
    then show ?thesis using step.IH work_inv [of ae B n] by (simp add: decided_append unchanged_by_work)
  next
    case (decide req resp)
    then show ?thesis using step.IH decide_step [OF _ _ _ assms(3)] by (fastforce simp: decided_append decide_all_append Let_def)
  qed
qed

lemma run_job_ready:
  assumes "job_inv ae B n" "nd_Job n \<noteq> None"
  shows "ready (run_job ae n)" "nd_Job (run_job ae n) = None"
  using assms by (auto simp: run_job_def job_inv_def ready_def optimisticAbortLocked_def optimisticCommitLocked_def signalCompletion_def Let_def
      split: option.splits go.splits prod.splits)

section \<open>Scripts\<close>

text \<open>A run given by what happens, with its labels computed.\<close>

datatype 'm action = Propose "'m block_req" | Work | Decide "'m block_req"

fun perform :: "('c, 'w, 'm, 'x) app_env \<Rightarrow> 'm action list \<Rightarrow> ('c, 'm) node \<Rightarrow> ('m label list \<times> ('c, 'm) node) option" where
  "perform ae [] n = Some ([], n)"
| "perform ae (Propose req # as) n =
     (case ProcessProposalHandler ae req n of (status, n') \<Rightarrow> map_option (apfst ((#) (Proposed req status))) (perform ae as n'))"
| "perform ae (Work # as) n = (if nd_Job n = None then None else map_option (apfst ((#) Worked)) (perform ae as (run_job ae n)))"
| "perform ae (Decide req # as) n =
     (if ready n then (case FinalizeBlocker ae req n of (resp, n') \<Rightarrow> map_option (apfst ((#) (Decided req resp))) (perform ae as n')) else None)"

lemma perform_run:
  assumes "perform ae as n = Some (ls, n')" "(\<Union>a \<in> set as. case a of Propose r \<Rightarrow> {r} | Work \<Rightarrow> {} | Decide r \<Rightarrow> {r}) \<subseteq> B" "opt_run ae B n0 ls0 n"
  shows "opt_run ae B n0 (ls0 @ ls) n'"
  using assms
proof (induction ae as n arbitrary: ls ls0 rule: perform.induct)
  case (2 ae req as n)
  then show ?case using opt_run.step [OF _ opt_step.propose] by (fastforce split: prod.splits)
next
  case (3 ae as n)
  then show ?case using opt_run.step [OF _ opt_step.work] by (fastforce split: if_splits)
next
  case (4 ae req as n)
  then show ?case using opt_run.step [OF _ opt_step.decide] by (fastforce split: prod.splits if_splits)
qed simp

section \<open>Properties\<close>

text \<open>C2 (optimistic_transparent): in every run from an idle node, whatever the proposals, the aborts, the panics of the job and the moment
  when it ends, the responses to the decided blocks and the state that is written are those of processing the decided blocks one after the
  other, with no optimistic processing at all. The hash of a block is taken to determine the block, its last commit included.\<close>

theorem optimistic_transparent:
  assumes "nd_Info n0 = None" "nd_Job n0 = None" "inj_on bq_Hash B" "opt_run ae B n0 ls n"
  shows "decide_all ae (map fst (decided ls)) (nd_State n0) = (decided ls, nd_State n)"
  using opt_run_refines [OF assms(4) _ assms(3)] assms(1,2) by (simp add: job_inv_def)

text \<open>C4 (optimistic_never_stuck): \<open>FinalizeBlocker\<close> never waits for a signal that nobody sends. At every point of every run, either it can
  proceed or the job runs, and then the end of the job, whether it succeeds, fails or panics, lets it proceed.\<close>

theorem optimistic_never_stuck:
  assumes "nd_Info n0 = None" "nd_Job n0 = None" "inj_on bq_Hash B" "opt_run ae B n0 ls n" "req \<in> B"
  shows "(\<exists>resp n'. opt_step ae B n (Decided req resp) n') \<or>
    (\<exists>n1. opt_step ae B n Worked n1 \<and> (\<exists>resp n'. opt_step ae B n1 (Decided req resp) n'))"
proof -
  have inv: "job_inv ae B n" using opt_run_refines [OF assms(4) _ assms(3)] assms(1,2) by (simp add: job_inv_def)
  have can: "\<exists>resp n'. opt_step ae B m (Decided req resp) n'" if "ready m" for m
    using that assms(5) by (metis opt_step.decide prod.exhaust_sel)
  show ?thesis
  proof (cases "nd_Job n")
    case None
    then show ?thesis using can [of n] inv by (auto simp: job_inv_def ready_def split: option.splits)
  next
    case (Some job)
    then show ?thesis using can [OF run_job_ready(1) [OF inv]] opt_step.work [of n "run_job ae n" ae B] by auto
  qed
qed

text \<open>The witness: a proposal starts a job, a second proposal with another block aborts it, the job ends, and the second block is decided;
  then a proposal is processed in the background and decided. The application is the example of the previous theory with consensus
  parameters, whose limits admit both blocks.\<close>

definition consensus_example :: ConsensusParams where
  "consensus_example =
     \<lparr>cp_Block = Some \<lparr>bp_MaxBytes = 1, bp_MaxGas = 2, bp_MinTxsInBlock = 3, bp_MaxGasWanted = 4\<rparr>,
      cp_Evidence = Some \<lparr>ep_MaxAgeNumBlocks = 1, ep_MaxAgeDuration = 2, ep_MaxBytes = 3\<rparr>, cp_Validator = Some [], cp_Version = Some 1\<rparr>"

definition node_env :: "(nat list, unit, unit, ledger) app_env" where
  "node_env =
     \<lparr>ae_funs = app_example\<lparr>base_EndBlock := (\<lambda>k h g c.
        (\<lparr>eb_ValidatorUpdates = [], eb_ConsensusParamUpdates = Some consensus_example, eb_Events = []\<rparr>, c @ [unat g])), OccEnabled := False\<rparr>,
      ae_lib = lib_lower, ae_eth = eth_simple, ae_codec = int_codec_bytes, ae_decoder = mixed_decoder, ae_pre = (\<lambda>m. Done (None, m)),
      ae_ctx = (\<lambda>c. ctx0), ae_limits = (\<lambda>c. Some (1000, 1000)), ae_upgrade_due = (\<lambda>c. False), ae_replaying = False,
      ae_checks = (\<lambda>c c'. Done ()), ae_hash = map of_nat\<rparr>"

definition idle_node :: "(nat list, unit) node" where
  "idle_node = \<lparr>nd_State = [], nd_Branch = [], nd_Commit = [], nd_Info = None, nd_Job = None\<rparr>"

definition block_a :: "unit block_req" where
  "block_a = request_example [[5], [9]]"

definition block_b :: "unit block_req" where
  "block_b = request_example [[9]]"

definition script_example :: "unit action list" where
  "script_example = [Propose block_a, Propose block_b, Work, Decide block_b, Propose block_a, Work, Decide block_a]"

lemma example_admits:
  "checkTotalBlockGas lib_lower eth_simple int_codec_bytes mixed_decoder (Some (1000, 1000)) ctx0 (bq_Txs block_a)"
  "checkTotalBlockGas lib_lower eth_simple int_codec_bytes mixed_decoder (Some (1000, 1000)) ctx0 (bq_Txs block_b)"
  by (simp_all add: block_a_def block_b_def request_example_def checkTotalBlockGas_def mixed_decoder_def gas_wanted_def IsTxGasless_def IsEVMMessage_def
      charged_gas_def MinGasEVMTx_def)

lemma example_parts:
  "first_part (DecodeTransactionsConcurrently mixed_decoder (\<lambda>m. Done (None, m)) [[5], [9]]) = [1]"
  "second_part (DecodeTransactionsConcurrently mixed_decoder (\<lambda>m. Done (None, m)) [[5], [9]]) = [0]"
  "first_part (DecodeTransactionsConcurrently mixed_decoder (\<lambda>m. Done (None, m)) [[9]]) = [0]"
  "second_part (DecodeTransactionsConcurrently mixed_decoder (\<lambda>m. Done (None, m)) [[9]]) = []"
  by code_simp+

lemma example_process:
  obtains ra rb where
    "\<And>c. process node_env block_a c = Done (ra, c @ [1, 100, 0, 14])" "\<And>c. process node_env block_b c = Done (rb, c @ [0, 100, 9])"
    "eb_ConsensusParamUpdates (br_EndBlock ra) = Some consensus_example" "eb_ConsensusParamUpdates (br_EndBlock rb) = Some consensus_example"
proof -
  note ref = ProcessBlock_reference [of "ae_funs node_env" _ mixed_decoder "\<lambda>m. Done (None, m)", OF _ refl, THEN conjunct1]
  have occ: "OccEnabled (ae_funs node_env) \<longrightarrow> batch_is_serial (ae_funs node_env)" by (simp add: node_env_def)
  have env: "ae_codec node_env = int_codec_bytes" "ae_decoder node_env = mixed_decoder" "ae_pre node_env = (\<lambda>m. Done (None, m))"
    by (simp_all add: node_env_def)
  note defs = node_env_def app_example_def begin_request_def DeliverTxWithResult_def exec_of_def response_example_def result_at_def
    evm_gas_total_def upt_rec
  have "\<exists>r. eb_ConsensusParamUpdates (br_EndBlock r) = Some consensus_example \<and> (\<forall>c. process node_env block_a c = Done (r, c @ [1, 100, 0, 14]))"
    unfolding process_def env ref [OF occ] block_a_def request_example_def block_reference_def block_req.select_convs example_parts
    by (rule exI [of _ "fst (block_reference (ae_funs node_env) int_codec_bytes (DecodeTransactionsConcurrently mixed_decoder (\<lambda>m. Done (None, m)) [[5], [9]])
        [[5], [9]] (request_example [[5], [9]]) False [])"])
      (simp add: block_reference_def example_parts request_example_def defs)
  moreover have "\<exists>r. eb_ConsensusParamUpdates (br_EndBlock r) = Some consensus_example \<and> (\<forall>c. process node_env block_b c = Done (r, c @ [0, 100, 9]))"
    unfolding process_def env ref [OF occ] block_b_def request_example_def block_reference_def block_req.select_convs example_parts
    by (rule exI [of _ "fst (block_reference (ae_funs node_env) int_codec_bytes (DecodeTransactionsConcurrently mixed_decoder (\<lambda>m. Done (None, m)) [[9]])
        [[9]] (request_example [[9]]) False [])"])
      (simp add: block_reference_def example_parts request_example_def defs)
  ultimately show ?thesis using that by blast
qed

lemma example_script:
  obtains ls n where "perform node_env script_example idle_node = Some (ls, n)" "map fst (decided ls) = [block_b, block_a]"
    "nd_State n = [0, 100, 9, 1, 100, 0, 14]"
proof -
  obtain ra rb where r: "\<And>c. process node_env block_a c = Done (ra, c @ [1, 100, 0, 14])" "\<And>c. process node_env block_b c = Done (rb, c @ [0, 100, 9])"
    "eb_ConsensusParamUpdates (br_EndBlock ra) = Some consensus_example" "eb_ConsensusParamUpdates (br_EndBlock rb) = Some consensus_example"
    using example_process by blast
  have hash: "bq_Hash block_a = [5, 9]" "bq_Hash block_b = [9]" by (simp_all add: block_a_def block_b_def request_example_def)
  have env: "ae_lib node_env = lib_lower" "ae_eth node_env = eth_simple" "ae_codec node_env = int_codec_bytes" "ae_decoder node_env = mixed_decoder"
    "ae_ctx node_env = (\<lambda>c. ctx0)" "ae_limits node_env = (\<lambda>c. Some (1000, 1000))" "ae_upgrade_due node_env = (\<lambda>c. False)"
    "ae_replaying node_env = False" "ae_checks node_env = (\<lambda>c c'. Done ())" by (simp_all add: node_env_def)
  show ?thesis
    by (rule that, simp add: script_example_def idle_node_def ProcessProposalHandler_def env example_admits hash run_job_def r Let_def
        optimisticCommitLocked_def signalCompletion_def ready_def FinalizeBlocker_def finalize_body_def process_decided_def finish_block_def
        getFinalizeBlockResponse_def consensus_example_def ClearOptimisticProcessingInfo_def) simp_all
qed

lemma example_inj: "inj_on bq_Hash {block_a, block_b}"
  by (simp add: block_a_def block_b_def request_example_def)

theorem optimistic_transparent_witness:
  "\<exists>ls n. opt_run node_env {block_a, block_b} idle_node ls n \<and>
    decide_all node_env [block_b, block_a] [] = (decided ls, [0, 100, 9, 1, 100, 0, 14])"
proof -
  obtain ls n where s: "perform node_env script_example idle_node = Some (ls, n)" "map fst (decided ls) = [block_b, block_a]"
    "nd_State n = [0, 100, 9, 1, 100, 0, 14]" by (rule example_script)
  have run: "opt_run node_env {block_a, block_b} idle_node ([] @ ls) n"
    using perform_run [OF s(1) _ opt_run.start, of "{block_a, block_b}"] by (simp add: script_example_def)
  then show ?thesis
    using optimistic_transparent [OF _ _ example_inj, of idle_node node_env ls n] s(2,3) by (auto simp: idle_node_def)
qed

text \<open>The witness: just after the first proposal the job runs, so that only its end can let the decided block through.\<close>

theorem optimistic_never_stuck_witness:
  "\<exists>n. opt_run node_env {block_a, block_b} idle_node [Proposed block_a ACCEPT] n \<and>
    (\<exists>n1. opt_step node_env {block_a, block_b} n Worked n1 \<and> (\<exists>resp n'. opt_step node_env {block_a, block_b} n1 (Decided block_b resp) n'))"
proof -
  let ?n = "snd (ProcessProposalHandler node_env block_a idle_node)"
  have p: "perform node_env [Propose block_a] idle_node = Some ([Proposed block_a ACCEPT], ?n)" "\<not> ready ?n"
    using example_admits by (simp_all add: ProcessProposalHandler_def idle_node_def node_env_def ready_def Let_def)
  have run: "opt_run node_env {block_a, block_b} idle_node [Proposed block_a ACCEPT] ?n"
    using perform_run [OF p(1) _ opt_run.start, of "{block_a, block_b}"] by simp
  have "nd_Info idle_node = None" "nd_Job idle_node = None" by (simp_all add: idle_node_def)
  note ends = optimistic_never_stuck [OF this example_inj run, of block_b, simplified]
  have "\<nexists>resp n'. opt_step node_env {block_a, block_b} ?n (Decided block_b resp) n'" using p(2) by (auto elim: opt_stepE)
  then show ?thesis using ends run by blast
qed

end
