(* ===== verification/App_Invariance.thy ===== *)
theory App_Invariance
  imports Keeper_Account
begin

text \<open>
  The light invariance check of \<open>app/invariance.go\<close>, which \<open>FinalizeBlocker\<close> runs on the pairs that a block has changed in the bank
  store: balances, wei balances and the supply of the base denomination. The store and the codecs of the bank module are parameters.
  The property compares the incremental check with the totals of the whole store before and after the block.
\<close>

section \<open>The check\<close>

record KVPair =
  kp_Key :: bytes
  kp_Value :: bytes
  kp_Delete :: bool

text \<open>The store before the block and what the block has changed under a prefix.\<close>

record commit_store =
  ckv_Get :: "bytes \<Rightarrow> bytes option"
  ckv_GetChangedPairs :: "bytes \<Rightarrow> KVPair list"

record bank_funs =
  BalancesPrefix :: bytes
  WeiBalancesPrefix :: bytes
  SupplyKey :: bytes
  MustGetBaseDenom :: bytes
  CreateAccountBalancesPrefix :: "bytes \<Rightarrow> bytes"
  Coin_Unmarshal :: "bytes \<Rightarrow> string + int"
  Int_Unmarshal :: "bytes \<Rightarrow> string + int"
  SplitAtabiWeiAmount :: "int \<Rightarrow> int \<times> int"

record LightInvarianceConfig =
  SupplyEnabled :: bool

definition DefaultLightInvarianceConfig :: LightInvarianceConfig where
  "DefaultLightInvarianceConfig = \<lparr>SupplyEnabled = True\<rparr>"

text \<open>The option of the flag, and \<open>cast.ToBoolE\<close>, whose value is used with its error.\<close>

definition ReadLightInvarianceConfig :: "('v \<Rightarrow> bool \<times> error) \<Rightarrow> 'v option \<Rightarrow> LightInvarianceConfig \<times> error" where
  "ReadLightInvarianceConfig ToBoolE opt =
     (let cfg = DefaultLightInvarianceConfig in
      case opt of
        None \<Rightarrow> (cfg, None)
      | Some v \<Rightarrow> (case ToBoolE v of (b, err) \<Rightarrow> (cfg\<lparr>SupplyEnabled := b\<rparr>, err)))"

fun atabi_post_loop :: "lib \<Rightarrow> bank_funs \<Rightarrow> KVPair list \<Rightarrow> int \<Rightarrow> bytes list \<Rightarrow> (int \<times> bytes list) go" where
  "atabi_post_loop l b [] atabiPostTotal atabiChangedAddr = Done (atabiPostTotal, atabiChangedAddr)"
| "atabi_post_loop l b (p # ps) atabiPostTotal atabiChangedAddr =
     (if length (kp_Key p) < 2 then atabi_post_loop l b ps atabiPostTotal atabiChangedAddr
      else let addrLen = unat (kp_Key p ! 1) in
        if length (kp_Key p) < addrLen + 2 then atabi_post_loop l b ps atabiPostTotal atabiChangedAddr
        else
          let addr = take addrLen (drop 2 (kp_Key p));
              denom = drop (addrLen + 2) (kp_Key p) in
          if denom \<noteq> MustGetBaseDenom b then atabi_post_loop l b ps atabiPostTotal atabiChangedAddr
          else if kp_Delete p then atabi_post_loop l b ps atabiPostTotal (atabiChangedAddr @ [addr])
          else
            case Coin_Unmarshal b (kp_Value p) of
              Inl err \<Rightarrow> atabi_post_loop l b ps atabiPostTotal atabiChangedAddr
            | Inr balance \<Rightarrow>
                if balance < 0 then Panic ''negative balance found''
                else go_bind (sdk_Int_Add l atabiPostTotal balance) (\<lambda>t. atabi_post_loop l b ps t (atabiChangedAddr @ [addr])))"

text \<open>Both loops over the changed addresses, with the key and the codec of the amount.\<close>

fun pre_total_loop :: "lib \<Rightarrow> (bytes \<Rightarrow> string + int) \<Rightarrow> (bytes \<Rightarrow> bytes) \<Rightarrow> commit_store \<Rightarrow> bytes list \<Rightarrow> int \<Rightarrow> int go" where
  "pre_total_loop l unmarshal key ckv [] preTotal = Done preTotal"
| "pre_total_loop l unmarshal key ckv (a # as) preTotal =
     (case ckv_Get ckv (key a) of
        None \<Rightarrow> pre_total_loop l unmarshal key ckv as preTotal
      | Some val \<Rightarrow>
          (case unmarshal val of
             Inl err \<Rightarrow> pre_total_loop l unmarshal key ckv as preTotal
           | Inr amt \<Rightarrow> go_bind (sdk_Int_Add l preTotal amt) (\<lambda>t. pre_total_loop l unmarshal key ckv as t)))"

fun wei_post_loop :: "lib \<Rightarrow> bank_funs \<Rightarrow> KVPair list \<Rightarrow> int \<Rightarrow> bytes list \<Rightarrow> (int \<times> bytes list) go" where
  "wei_post_loop l b [] weiPostTotal weiChangedAddrs = Done (weiPostTotal, weiChangedAddrs)"
| "wei_post_loop l b (p # ps) weiPostTotal weiChangedAddrs =
     (if length (kp_Key p) < 1 then wei_post_loop l b ps weiPostTotal weiChangedAddrs
      else if kp_Delete p then wei_post_loop l b ps weiPostTotal (weiChangedAddrs @ [drop 1 (kp_Key p)])
      else
        case Int_Unmarshal b (kp_Value p) of
          Inl err \<Rightarrow> wei_post_loop l b ps weiPostTotal weiChangedAddrs
        | Inr amt \<Rightarrow>
            go_bind (sdk_Int_Add l weiPostTotal amt) (\<lambda>t.
            if amt < 0 then Panic ''negative wei balance found''
            else wei_post_loop l b ps t (weiChangedAddrs @ [drop 1 (kp_Key p)])))"

fun supply_change_loop :: "lib \<Rightarrow> bank_funs \<Rightarrow> int \<Rightarrow> KVPair list \<Rightarrow> int go" where
  "supply_change_loop l b preTotalSupply [] = Done 0"
| "supply_change_loop l b preTotalSupply (p # ps) =
     (if kp_Key p = [] then Panic ''slice bounds out of range''
      else if drop 1 (kp_Key p) = MustGetBaseDenom b then
        (if kp_Delete p then Done (- preTotalSupply)
         else case Int_Unmarshal b (kp_Value p) of Inl err \<Rightarrow> Done 0 | Inr amt \<Rightarrow> sdk_Int_Sub l amt preTotalSupply)
      else supply_change_loop l b preTotalSupply ps)"

text \<open>\<open>None\<close>: the bank store is not of the kind that knows its changed pairs. A supply that does not decode ends the check.\<close>

definition LightInvarianceTotalSupply :: "lib \<Rightarrow> bank_funs \<Rightarrow> commit_store option \<Rightarrow> unit go" where
  "LightInvarianceTotalSupply l b cms =
     (case cms of
        None \<Rightarrow> Done ()
      | Some ckv \<Rightarrow>
          go_bind (atabi_post_loop l b (ckv_GetChangedPairs ckv (BalancesPrefix b)) 0 []) (\<lambda>(atabiPostTotal, atabiChangedAddr).
          go_bind (pre_total_loop l (Coin_Unmarshal b) (\<lambda>a. CreateAccountBalancesPrefix b a @ MustGetBaseDenom b) ckv atabiChangedAddr 0) (\<lambda>atabiPreTotal.
          go_bind (wei_post_loop l b (ckv_GetChangedPairs ckv (WeiBalancesPrefix b)) 0 []) (\<lambda>(weiPostTotal, weiChangedAddrs).
          go_bind (pre_total_loop l (Int_Unmarshal b) (\<lambda>a. WeiBalancesPrefix b @ a) ckv weiChangedAddrs 0) (\<lambda>weiPreTotal.
          case (case ckv_Get ckv (SupplyKey b @ MustGetBaseDenom b) of None \<Rightarrow> Inr 0 | Some bz \<Rightarrow> Int_Unmarshal b bz) of
            Inl err \<Rightarrow> Done ()
          | Inr preTotalSupply \<Rightarrow>
              go_bind (supply_change_loop l b preTotalSupply (ckv_GetChangedPairs ckv (SupplyKey b))) (\<lambda>supplyChanged.
              go_bind (sdk_Int_Sub l weiPostTotal weiPreTotal) (\<lambda>weiDiff.
              let (weiDiffInAtabi, weiDiffRemainder) = SplitAtabiWeiAmount b weiDiff in
              if weiDiffRemainder \<noteq> 0 then Panic ''non-zero wei diff found!''
              else
                go_bind (sdk_Int_Sub l atabiPreTotal atabiPostTotal) (\<lambda>d.
                go_bind (sdk_Int_Sub l d weiDiffInAtabi) (\<lambda>d.
                go_bind (sdk_Int_Add l d supplyChanged) (\<lambda>atabiDiff.
                if atabiDiff \<noteq> 0 then Panic ''unexpected atabibalance total found!'' else Done ()))))))))))"

definition LightInvarianceChecks :: "lib \<Rightarrow> bank_funs \<Rightarrow> commit_store option \<Rightarrow> LightInvarianceConfig \<Rightarrow> unit go" where
  "LightInvarianceChecks l b cms config = (if SupplyEnabled config then LightInvarianceTotalSupply l b cms else Done ())"

section \<open>The totals of the store\<close>

text \<open>What the bank module documents of its keys and units: one-byte prefixes, an address behind its length, and a unit of the base
  denomination in wei with the remainder smaller than it.\<close>

definition bank_laws :: "bank_funs \<Rightarrow> int \<Rightarrow> bool" where
  "bank_laws b u \<longleftrightarrow>
     length (BalancesPrefix b) = 1 \<and> length (WeiBalancesPrefix b) = 1 \<and> length (SupplyKey b) = 1 \<and>
     (\<forall>a. length a < 256 \<longrightarrow> CreateAccountBalancesPrefix b a = BalancesPrefix b @ [of_nat (length a)] @ a) \<and>
     u > 0 \<and> (\<forall>w q r. SplitAtabiWeiAmount b w = (q, r) \<longrightarrow> w = q * u + r \<and> \<bar>r\<bar> < u)"

text \<open>The changes of a block name every key once, and the store returns those under a prefix. The store after the block has them applied.\<close>

definition store_changes :: "commit_store \<Rightarrow> KVPair list \<Rightarrow> bool" where
  "store_changes ckv ch \<longleftrightarrow>
     finite (dom (ckv_Get ckv)) \<and> distinct (map kp_Key ch) \<and> (\<forall>pfx. ckv_GetChangedPairs ckv pfx = filter (\<lambda>p. prefix pfx (kp_Key p)) ch)"

definition change_value :: "KVPair \<Rightarrow> bytes option" where
  "change_value p = (if kp_Delete p then None else Some (kp_Value p))"

definition store_after :: "commit_store \<Rightarrow> KVPair list \<Rightarrow> bytes \<Rightarrow> bytes option" where
  "store_after ckv ch = (\<lambda>k. case find (\<lambda>p. kp_Key p = k) ch of None \<Rightarrow> ckv_Get ckv k | Some p \<Rightarrow> change_value p)"

definition balance_key :: "bank_funs \<Rightarrow> bytes \<Rightarrow> bool" where
  "balance_key b k \<longleftrightarrow> (\<exists>a. length a < 256 \<and> k = BalancesPrefix b @ [of_nat (length a)] @ a @ MustGetBaseDenom b)"

definition wei_key :: "bank_funs \<Rightarrow> bytes \<Rightarrow> bool" where
  "wei_key b k \<longleftrightarrow> prefix (WeiBalancesPrefix b) k"

definition amount :: "(bytes \<Rightarrow> string + int) \<Rightarrow> bytes option \<Rightarrow> int" where
  "amount unmarshal v = (case v of None \<Rightarrow> 0 | Some bz \<Rightarrow> (case unmarshal bz of Inl err \<Rightarrow> 0 | Inr x \<Rightarrow> x))"

definition total_under :: "(bytes \<Rightarrow> string + int) \<Rightarrow> (bytes \<Rightarrow> bool) \<Rightarrow> (bytes \<Rightarrow> bytes option) \<Rightarrow> int" where
  "total_under unmarshal P m = (\<Sum>k | P k \<and> m k \<noteq> None. amount unmarshal (m k))"

text \<open>Every balance is worth its amount in wei; the supply is that of the base denomination. What the check is about is the difference.\<close>

definition unbacked_wei :: "bank_funs \<Rightarrow> int \<Rightarrow> (bytes \<Rightarrow> bytes option) \<Rightarrow> int" where
  "unbacked_wei b u m =
     total_under (Coin_Unmarshal b) (balance_key b) m * u + total_under (Int_Unmarshal b) (wei_key b) m
       - amount (Int_Unmarshal b) (m (SupplyKey b @ MustGetBaseDenom b)) * u"

definition amounts_ok :: "(bytes \<Rightarrow> string + int) \<Rightarrow> (bytes \<Rightarrow> bool) \<Rightarrow> (bytes \<Rightarrow> bytes option) \<Rightarrow> bool" where
  "amounts_ok unmarshal P m \<longleftrightarrow> (\<forall>k v. P k \<and> m k = Some v \<longrightarrow> (\<exists>x. unmarshal v = Inr x \<and> 0 \<le> x))"

definition decodes :: "(bytes \<Rightarrow> string + int) \<Rightarrow> (bytes \<Rightarrow> bool) \<Rightarrow> (bytes \<Rightarrow> bytes option) \<Rightarrow> bool" where
  "decodes unmarshal P m \<longleftrightarrow> (\<forall>k v. P k \<and> m k = Some v \<longrightarrow> (\<exists>x. unmarshal v = Inr x))"

section \<open>From the changes to the totals\<close>

definition changed_under :: "(bytes \<Rightarrow> bool) \<Rightarrow> KVPair list \<Rightarrow> KVPair list" where
  "changed_under P ch = filter (\<lambda>p. P (kp_Key p)) ch"

lemma amount_None [simp]: "amount unmarshal None = 0"
  by (simp add: amount_def)

lemma total_under_superset:
  assumes "finite K" "dom m \<subseteq> K"
  shows "total_under unmarshal P m = (\<Sum>k \<in> K. if P k then amount unmarshal (m k) else 0)"
proof -
  have "total_under unmarshal P m = (\<Sum>k | P k \<and> m k \<noteq> None. if P k then amount unmarshal (m k) else 0)"
    unfolding total_under_def by (rule sum.cong) simp_all
  also have "\<dots> = (\<Sum>k \<in> K. if P k then amount unmarshal (m k) else 0)"
    by (rule sum.mono_neutral_left) (use assms in \<open>auto simp: amount_def split: option.splits\<close>)
  finally show ?thesis .
qed

lemma store_after_changed:
  assumes "distinct (map kp_Key ch)" "p \<in> set ch"
  shows "store_after ckv ch (kp_Key p) = change_value p"
proof -
  have "find (\<lambda>q. kp_Key q = kp_Key p) ch = Some p" using assms
    by (induction ch) (auto simp: image_iff)
  then show ?thesis by (simp add: store_after_def)
qed

lemma store_after_unchanged: "k \<notin> kp_Key ` set ch \<Longrightarrow> store_after ckv ch k = ckv_Get ckv k"
  by (auto simp: store_after_def find_Some_iff image_iff split: option.splits)

lemma store_after_dom: "dom (store_after ckv ch) \<subseteq> dom (ckv_Get ckv) \<union> kp_Key ` set ch"
proof
  fix k
  assume "k \<in> dom (store_after ckv ch)"
  then show "k \<in> dom (ckv_Get ckv) \<union> kp_Key ` set ch"
    using store_after_unchanged [of k ch ckv] by (cases "k \<in> kp_Key ` set ch") (simp_all add: domIff)
qed

text \<open>Only the changed pairs move a total.\<close>

lemma total_change:
  assumes "store_changes ckv ch"
  shows "total_under unmarshal P (store_after ckv ch) - total_under unmarshal P (ckv_Get ckv) =
    (\<Sum>p \<leftarrow> changed_under P ch. amount unmarshal (change_value p)) - (\<Sum>p \<leftarrow> changed_under P ch. amount unmarshal (ckv_Get ckv (kp_Key p)))"
proof -
  have d: "distinct (map kp_Key ch)" "finite (dom (ckv_Get ckv))" using assms by (simp_all add: store_changes_def)
  let ?K = "dom (ckv_Get ckv) \<union> kp_Key ` set ch"
  let ?d = "\<lambda>k. if P k then amount unmarshal (store_after ckv ch k) - amount unmarshal (ckv_Get ckv k) else 0"
  have "total_under unmarshal P (store_after ckv ch) - total_under unmarshal P (ckv_Get ckv) = sum ?d ?K"
    using d(2) store_after_dom [of ckv ch]
    by (simp add: total_under_superset [of ?K] sum_subtractf [symmetric] if_distrib cong: if_cong)
  also have "\<dots> = sum ?d (kp_Key ` set ch)"
    using d(2) by (intro sum.mono_neutral_right) (auto simp: store_after_unchanged)
  also have "\<dots> = (\<Sum>p \<leftarrow> ch. ?d (kp_Key p))"
    using d(1) by (simp add: sum_list_distinct_conv_sum_set distinct_map sum.reindex)
  also have "\<dots> = (\<Sum>p \<leftarrow> changed_under P ch. ?d (kp_Key p))"
    by (simp add: changed_under_def sum_list_map_filter)
  also have "\<dots> = (\<Sum>p \<leftarrow> changed_under P ch. amount unmarshal (change_value p) - amount unmarshal (ckv_Get ckv (kp_Key p)))"
    using store_after_changed [OF d(1)] by (intro arg_cong [of _ _ sum_list] map_cong) (auto simp: changed_under_def)
  finally show ?thesis by (simp add: sum_list_subtractf)
qed

text \<open>With no negative amount, the sum over the changed pairs is within the total.\<close>

lemma changed_total_le:
  assumes "finite (dom m)" "distinct (map kp_Key ch)" "amounts_ok unmarshal P m"
  shows "(\<Sum>p \<leftarrow> changed_under P ch. amount unmarshal (m (kp_Key p))) \<le> total_under unmarshal P m"
    "\<forall>p \<in> set (changed_under P ch). 0 \<le> amount unmarshal (m (kp_Key p))"
proof -
  have pos: "P k \<Longrightarrow> 0 \<le> amount unmarshal (m k)" for k
    using assms(3) by (fastforce simp: amounts_ok_def amount_def split: option.splits sum.splits)
  then show "\<forall>p \<in> set (changed_under P ch). 0 \<le> amount unmarshal (m (kp_Key p))" by (simp add: changed_under_def)
  let ?K = "dom m \<union> kp_Key ` set ch"
  have "(\<Sum>p \<leftarrow> changed_under P ch. amount unmarshal (m (kp_Key p))) = (\<Sum>p \<leftarrow> ch. if P (kp_Key p) then amount unmarshal (m (kp_Key p)) else 0)"
    by (simp add: changed_under_def sum_list_map_filter')
  also have "\<dots> = (\<Sum>k \<in> kp_Key ` set ch. if P k then amount unmarshal (m k) else 0)"
    using assms(2) by (simp add: sum_list_distinct_conv_sum_set distinct_map sum.reindex)
  also have "\<dots> \<le> (\<Sum>k \<in> ?K. if P k then amount unmarshal (m k) else 0)"
    using assms(1) pos by (intro sum_mono2) auto
  finally show "(\<Sum>p \<leftarrow> changed_under P ch. amount unmarshal (m (kp_Key p))) \<le> total_under unmarshal P m"
    using assms(1) by (simp add: total_under_superset [of ?K])
qed

section \<open>The loops\<close>

lemma add_fits: "sdk_int_laws l \<Longrightarrow> \<bar>x + y\<bar> < 2 ^ 256 \<Longrightarrow> sdk_Int_Add l x y = Done (x + y)"
  by (simp add: sdk_Int_Add_def sdk_int_laws_def big_BitLen_le_iff)

lemma sub_fits: "sdk_int_laws l \<Longrightarrow> \<bar>x - y\<bar> < 2 ^ 256 \<Longrightarrow> sdk_Int_Sub l x y = Done (x - y)"
  by (simp add: sdk_Int_Sub_def sdk_int_laws_def big_BitLen_le_iff)

lemma pre_total_sum:
  assumes "sdk_int_laws l" "0 \<le> t" "\<forall>a \<in> set as. 0 \<le> amount unmarshal (ckv_Get ckv (key a))"
    "t + (\<Sum>a \<leftarrow> as. amount unmarshal (ckv_Get ckv (key a))) < 2 ^ 256"
  shows "pre_total_loop l unmarshal key ckv as t = Done (t + (\<Sum>a \<leftarrow> as. amount unmarshal (ckv_Get ckv (key a))))"
  using assms(2-4)
proof (induction as arbitrary: t)
  case (Cons a as)
  have rest: "0 \<le> (\<Sum>a \<leftarrow> as. amount unmarshal (ckv_Get ckv (key a)))" using Cons.prems(2) by (intro sum_list_nonneg) auto
  have add: "sdk_Int_Add l t x = Done (t + x)" if "amount unmarshal (ckv_Get ckv (key a)) = x" for x
    using that Cons.prems rest by (intro add_fits assms(1)) simp
  show ?case
    using Cons.IH [of "t + amount unmarshal (ckv_Get ckv (key a))"] Cons.prems add
    by (auto simp: amount_def algebra_simps split: option.splits sum.splits)
qed simp

text \<open>A key of the balances that the loop accepts is the key of a balance, and the key it later reads is that same key.\<close>

definition accepted :: "bank_funs \<Rightarrow> bytes \<Rightarrow> bool" where
  "accepted b k \<longleftrightarrow> 2 \<le> length k \<and> unat (k ! 1) + 2 \<le> length k \<and> drop (unat (k ! 1) + 2) k = MustGetBaseDenom b"

definition key_addr :: "bytes \<Rightarrow> bytes" where
  "key_addr k = take (unat (k ! 1)) (drop 2 k)"

lemma accepted_key:
  assumes "bank_laws b u" "prefix (BalancesPrefix b) k"
  shows "accepted b k \<longleftrightarrow> balance_key b k"
    and "accepted b k \<Longrightarrow> CreateAccountBalancesPrefix b (key_addr k) @ MustGetBaseDenom b = k"
proof -
  obtain x where x: "BalancesPrefix b = [x]" using assms(1) by (auto simp: bank_laws_def length_Suc_conv)
  then obtain k' where k: "k = x # k'" using assms(2) by (auto simp: prefix_def)
  have acc: "\<exists>a. length a < 256 \<and> k' = of_nat (length a) # a @ MustGetBaseDenom b \<and> key_addr k = a" if a: "accepted b k"
  proof -
    obtain n k'' where k': "k' = n # k''" using a by (cases k') (auto simp: accepted_def k)
    have "k'' = take (unat n) k'' @ MustGetBaseDenom b" "unat n \<le> length k''" using a append_take_drop_id [of "unat n" k''] by (auto simp: accepted_def k k')
    moreover have "unat n < 2 ^ LENGTH(8)" by (rule unsigned_less)
    ultimately show ?thesis by (intro exI [of _ "take (unat n) k''"]) (auto simp: k k' key_addr_def)
  qed
  show "accepted b k \<longleftrightarrow> balance_key b k"
  proof
    assume "balance_key b k"
    then show "accepted b k" by (auto simp: balance_key_def accepted_def x k unat_of_nat)
  qed (use acc in \<open>auto simp: balance_key_def x k\<close>)
  show "CreateAccountBalancesPrefix b (key_addr k) @ MustGetBaseDenom b = k" if "accepted b k"
    using acc [OF that] assms(1) x by (auto simp: bank_laws_def k)
qed

lemma atabi_loop_step:
  "atabi_post_loop l b (p # ps) t as =
    (if \<not> accepted b (kp_Key p) then atabi_post_loop l b ps t as
     else case change_value p of
       None \<Rightarrow> atabi_post_loop l b ps t (as @ [key_addr (kp_Key p)])
     | Some v \<Rightarrow>
         (case Coin_Unmarshal b v of
            Inl err \<Rightarrow> atabi_post_loop l b ps t as
          | Inr balance \<Rightarrow>
              if balance < 0 then Panic ''negative balance found''
              else go_bind (sdk_Int_Add l t balance) (\<lambda>t. atabi_post_loop l b ps t (as @ [key_addr (kp_Key p)]))))"
  by (simp add: accepted_def key_addr_def change_value_def Let_def split: sum.split)

declare atabi_post_loop.simps(2) [simp del]

text \<open>The sums of the changed amounts.\<close>

definition decodable :: "(bytes \<Rightarrow> string + int) \<Rightarrow> KVPair \<Rightarrow> bool" where
  "decodable unmarshal p \<longleftrightarrow> (\<forall>v. change_value p = Some v \<longrightarrow> (\<exists>x. unmarshal v = Inr x))"

lemma atabi_post_sum:
  assumes "sdk_int_laws l" "0 \<le> t" "\<forall>p \<in> set (filter (\<lambda>p. accepted b (kp_Key p)) ps). decodable (Coin_Unmarshal b) p \<and> 0 \<le> amount (Coin_Unmarshal b) (change_value p)"
    "t + (\<Sum>p \<leftarrow> filter (\<lambda>p. accepted b (kp_Key p)) ps. amount (Coin_Unmarshal b) (change_value p)) < 2 ^ 256"
  shows "atabi_post_loop l b ps t as =
    Done (t + (\<Sum>p \<leftarrow> filter (\<lambda>p. accepted b (kp_Key p)) ps. amount (Coin_Unmarshal b) (change_value p)),
          as @ map (\<lambda>p. key_addr (kp_Key p)) (filter (\<lambda>p. accepted b (kp_Key p)) ps))"
  using assms(2-4)
proof (induction ps arbitrary: t as)
  case (Cons p ps)
  have rest: "0 \<le> (\<Sum>p \<leftarrow> filter (\<lambda>p. accepted b (kp_Key p)) ps. amount (Coin_Unmarshal b) (change_value p))"
    using Cons.prems(2) by (intro sum_list_nonneg) auto
  show ?case
  proof (cases "accepted b (kp_Key p)")
    case True
    let ?x = "amount (Coin_Unmarshal b) (change_value p)"
    have x: "0 \<le> ?x" "decodable (Coin_Unmarshal b) p" "t + ?x < 2 ^ 256" using Cons.prems rest True by auto
    have add: "sdk_Int_Add l t ?x = Done (t + ?x)" using x Cons.prems(1) by (intro add_fits assms(1)) simp
    show ?thesis
    proof (cases "change_value p")
      case None
      then show ?thesis using True Cons.IH [of t] Cons.prems by (simp add: atabi_loop_step)
    next
      case (Some v)
      then have "Coin_Unmarshal b v = Inr ?x" using x(2) by (auto simp: decodable_def amount_def)
      then show ?thesis using True Some x add Cons.IH [of "t + ?x"] Cons.prems by (simp add: atabi_loop_step algebra_simps)
    qed
  qed (use Cons in \<open>simp add: atabi_loop_step\<close>)
qed simp

lemma atabi_post_negative:
  assumes "p \<in> set ps" "accepted b (kp_Key p)" "amount (Coin_Unmarshal b) (change_value p) < 0"
  shows "atabi_post_loop l b ps t as \<noteq> Done r"
  using assms
proof (induction ps arbitrary: t as)
  case (Cons q ps)
  show ?case
  proof (cases "p = q")
    case True
    then show ?thesis using Cons.prems by (auto simp: atabi_loop_step amount_def split: option.splits sum.splits)
  next
    case False
    then have IH: "atabi_post_loop l b ps t as \<noteq> Done r" for t as using Cons by simp
    then show ?thesis by (auto simp: atabi_loop_step IH go_Done_iffs split: option.splits sum.splits)
  qed
qed simp

lemma wei_post_sum:
  assumes "sdk_int_laws l" "0 \<le> t" "\<forall>p \<in> set ps. kp_Key p \<noteq> [] \<and> decodable (Int_Unmarshal b) p \<and> 0 \<le> amount (Int_Unmarshal b) (change_value p)"
    "t + (\<Sum>p \<leftarrow> ps. amount (Int_Unmarshal b) (change_value p)) < 2 ^ 256"
  shows "wei_post_loop l b ps t as = Done (t + (\<Sum>p \<leftarrow> ps. amount (Int_Unmarshal b) (change_value p)), as @ map (\<lambda>p. drop 1 (kp_Key p)) ps)"
  using assms(2-4)
proof (induction ps arbitrary: t as)
  case (Cons p ps)
  let ?x = "amount (Int_Unmarshal b) (change_value p)"
  have rest: "0 \<le> (\<Sum>p \<leftarrow> ps. amount (Int_Unmarshal b) (change_value p))" using Cons.prems(2) by (intro sum_list_nonneg) auto
  have add: "sdk_Int_Add l t ?x = Done (t + ?x)" using Cons.prems rest by (intro add_fits assms(1)) simp
  show ?case
  proof (cases "kp_Delete p")
    case True
    then show ?thesis using Cons.IH [of t] Cons.prems by (simp add: change_value_def Suc_le_eq)
  next
    case False
    then have "Int_Unmarshal b (kp_Value p) = Inr ?x" using Cons.prems(2) by (auto simp: decodable_def amount_def change_value_def)
    then show ?thesis using False add Cons.IH [of "t + ?x"] Cons.prems by (simp add: Suc_le_eq algebra_simps)
  qed
qed simp

lemma wei_post_negative:
  assumes "p \<in> set ps" "kp_Key p \<noteq> []" "amount (Int_Unmarshal b) (change_value p) < 0"
  shows "wei_post_loop l b ps t as \<noteq> Done r"
  using assms
proof (induction ps arbitrary: t as)
  case (Cons q ps)
  show ?case
  proof (cases "p = q")
    case True
    then show ?thesis using Cons.prems by (auto simp: amount_def change_value_def go_Done_iffs split: option.splits sum.splits if_splits)
  next
    case False
    then have IH: "wei_post_loop l b ps t as \<noteq> Done r" for t as using Cons by simp
    then show ?thesis by (auto simp: IH go_Done_iffs split: sum.splits)
  qed
qed simp

lemma supply_loop:
  assumes "sdk_int_laws l" "bank_laws b u" "distinct (map kp_Key ch)"
    and S': "S' = amount (Int_Unmarshal b) (store_after ckv ch (SupplyKey b @ MustGetBaseDenom b))"
    and S: "S = amount (Int_Unmarshal b) (ckv_Get ckv (SupplyKey b @ MustGetBaseDenom b))"
    and "decodes (Int_Unmarshal b) ((=) (SupplyKey b @ MustGetBaseDenom b)) (store_after ckv ch)" "\<bar>S' - S\<bar> < 2 ^ 256"
  shows "supply_change_loop l b S (filter (\<lambda>p. prefix (SupplyKey b) (kp_Key p)) ch) = Done (S' - S)"
proof -
  let ?k = "SupplyKey b @ MustGetBaseDenom b"
  have one: "prefix (SupplyKey b) k \<Longrightarrow> k \<noteq> [] \<and> (drop 1 k = MustGetBaseDenom b \<longleftrightarrow> k = ?k)" for k
    using assms(2) by (auto simp: bank_laws_def prefix_def length_Suc_conv)
  show ?thesis
  proof (cases "\<exists>p \<in> set ch. kp_Key p = ?k")
    case True
    then obtain p where p: "p \<in> set ch" "kp_Key p = ?k" by blast
    have after: "store_after ckv ch ?k = change_value p" using store_after_changed [OF assms(3) p(1)] p(2) by metis
    have r: "(if kp_Delete p then Done (- S) else case Int_Unmarshal b (kp_Value p) of Inl err \<Rightarrow> Done 0 | Inr amt \<Rightarrow> sdk_Int_Sub l amt S) = Done (S' - S)"
      using after S' assms(6,7) sub_fits [OF assms(1), of S' S] by (auto simp: change_value_def decodes_def amount_def split: if_splits)
    from p(1) assms(3) show ?thesis
    proof (induction ch)
      case (Cons q qs)
      show ?case
      proof (cases "q = p")
        case True
        then show ?thesis using r p(2) one [of ?k] by simp
      next
        case False
        then have "p \<in> set qs" "kp_Key q \<noteq> ?k" using Cons.prems p(2) by (auto simp: image_iff)
        then show ?thesis using Cons one [of "kp_Key q"] by simp
      qed
    qed simp
  next
    case False
    then have "S' = S" using S S' store_after_unchanged [of ?k ch ckv] by force
    have "supply_change_loop l b S (filter (\<lambda>p. prefix (SupplyKey b) (kp_Key p)) ps) = Done 0" if "set ps \<subseteq> set ch" for ps
      using that False one by (induction ps) auto
    then show ?thesis using \<open>S' = S\<close> by simp
  qed
qed

text \<open>The conditions of the comparison: sound amounts before the block, amounts that decode after it, and totals far below the range of the integers.\<close>

definition totals_within :: "bank_funs \<Rightarrow> (bytes \<Rightarrow> bytes option) \<Rightarrow> bool" where
  "totals_within b m \<longleftrightarrow>
     \<bar>total_under (Coin_Unmarshal b) (balance_key b) m\<bar> < 2 ^ 250 \<and> \<bar>total_under (Int_Unmarshal b) (wei_key b) m\<bar> < 2 ^ 250 \<and>
     \<bar>amount (Int_Unmarshal b) (m (SupplyKey b @ MustGetBaseDenom b))\<bar> < 2 ^ 250"

definition sound_store :: "bank_funs \<Rightarrow> (bytes \<Rightarrow> bytes option) \<Rightarrow> bool" where
  "sound_store b m \<longleftrightarrow> amounts_ok (Coin_Unmarshal b) (balance_key b) m \<and> amounts_ok (Int_Unmarshal b) (wei_key b) m"

definition readable_store :: "bank_funs \<Rightarrow> (bytes \<Rightarrow> bytes option) \<Rightarrow> bool" where
  "readable_store b m \<longleftrightarrow>
     decodes (Coin_Unmarshal b) (balance_key b) m \<and> decodes (Int_Unmarshal b) (wei_key b) m \<and>
     decodes (Int_Unmarshal b) ((=) (SupplyKey b @ MustGetBaseDenom b)) m \<and> totals_within b m"

lemma changed_prefix:
  "bank_laws b u \<Longrightarrow> filter (\<lambda>p. accepted b (kp_Key p)) (filter (\<lambda>p. prefix (BalancesPrefix b) (kp_Key p)) ch) = changed_under (balance_key b) ch"
  "filter (\<lambda>p. prefix (WeiBalancesPrefix b) (kp_Key p)) ch = changed_under (wei_key b) ch"
  by (auto simp: changed_under_def wei_key_def accepted_key(1) balance_key_def intro!: filter_cong)

lemma new_negative:
  assumes "amounts_ok unmarshal P (ckv_Get ckv)" "decodes unmarshal P (store_after ckv ch)" "\<not> amounts_ok unmarshal P (store_after ckv ch)" "distinct (map kp_Key ch)"
  obtains p where "p \<in> set ch" "P (kp_Key p)" "amount unmarshal (change_value p) < 0"
proof -
  obtain k v x where k: "P k" "store_after ckv ch k = Some v" "unmarshal v = Inr x" "x < 0"
    using assms(2,3) by (fastforce simp: amounts_ok_def decodes_def)
  have "k \<in> kp_Key ` set ch"
  proof (rule ccontr)
    assume "k \<notin> kp_Key ` set ch"
    then show False using k assms(1) store_after_unchanged [of k ch ckv] by (fastforce simp: amounts_ok_def)
  qed
  then obtain p where p: "p \<in> set ch" "k = kp_Key p" by blast
  then have "change_value p = Some v" using store_after_changed [OF assms(4), of p ckv] k(2) by simp
  then show ?thesis using that [OF p(1)] k p(2) by (simp add: amount_def)
qed

lemma changed_sums:
  assumes "store_changes ckv ch" "amounts_ok unmarshal P (ckv_Get ckv)" "amounts_ok unmarshal P (store_after ckv ch)"
    "\<bar>total_under unmarshal P (ckv_Get ckv)\<bar> < 2 ^ 250" "\<bar>total_under unmarshal P (store_after ckv ch)\<bar> < 2 ^ 250"
  defines "X \<equiv> (\<Sum>p \<leftarrow> changed_under P ch. amount unmarshal (ckv_Get ckv (kp_Key p)))"
    and "X' \<equiv> (\<Sum>p \<leftarrow> changed_under P ch. amount unmarshal (change_value p))"
  shows "0 \<le> X" "X < 2 ^ 250" "0 \<le> X'" "X' < 2 ^ 250"
    "\<forall>p \<in> set (changed_under P ch). 0 \<le> amount unmarshal (ckv_Get ckv (kp_Key p)) \<and> decodable unmarshal p \<and> 0 \<le> amount unmarshal (change_value p)"
    "total_under unmarshal P (store_after ckv ch) - total_under unmarshal P (ckv_Get ckv) = X' - X"
proof -
  have d: "distinct (map kp_Key ch)" "finite (dom (ckv_Get ckv))" using assms(1) by (simp_all add: store_changes_def)
  have fin: "finite (dom (store_after ckv ch))" using d(2) by (rule finite_subset [OF store_after_dom, OF finite_UnI]) simp
  note after = store_after_changed [OF d(1), of _ ckv]
  have X': "X' = (\<Sum>p \<leftarrow> changed_under P ch. amount unmarshal (store_after ckv ch (kp_Key p)))"
    unfolding X'_def using after by (intro arg_cong [of _ _ sum_list] map_cong) (auto simp: changed_under_def)
  note pre = changed_total_le [OF d(2,1) assms(2)] and post = changed_total_le [OF fin d(1) assms(3)]
  show "0 \<le> X" "0 \<le> X'" using pre(2) post(2) unfolding X_def X' by (force intro!: sum_list_nonneg)+
  show "X < 2 ^ 250" "X' < 2 ^ 250" using pre(1) post(1) assms(4,5) unfolding X_def X' by simp_all
  show "\<forall>p \<in> set (changed_under P ch). 0 \<le> amount unmarshal (ckv_Get ckv (kp_Key p)) \<and> decodable unmarshal p \<and> 0 \<le> amount unmarshal (change_value p)"
  proof
    fix p
    assume p: "p \<in> set (changed_under P ch)"
    then have a: "store_after ckv ch (kp_Key p) = change_value p" "P (kp_Key p)" using after by (auto simp: changed_under_def)
    then show "0 \<le> amount unmarshal (ckv_Get ckv (kp_Key p)) \<and> decodable unmarshal p \<and> 0 \<le> amount unmarshal (change_value p)"
      using p pre(2) post(2) assms(3) by (fastforce simp: decodable_def amounts_ok_def)
  qed
  show "total_under unmarshal P (store_after ckv ch) - total_under unmarshal P (ckv_Get ckv) = X' - X"
    unfolding X_def X'_def by (rule total_change [OF assms(1)])
qed

lemma atabi_totals:
  assumes "sdk_int_laws l" "bank_laws b u" "store_changes ckv ch" "sound_store b (ckv_Get ckv)" "sound_store b (store_after ckv ch)"
    "totals_within b (ckv_Get ckv)" "totals_within b (store_after ckv ch)"
  obtains X X' addrs where
    "atabi_post_loop l b (ckv_GetChangedPairs ckv (BalancesPrefix b)) 0 [] = Done (X', addrs)"
    "pre_total_loop l (Coin_Unmarshal b) (\<lambda>a. CreateAccountBalancesPrefix b a @ MustGetBaseDenom b) ckv addrs 0 = Done X"
    "0 \<le> X" "X < 2 ^ 250" "0 \<le> X'" "X' < 2 ^ 250"
    "total_under (Coin_Unmarshal b) (balance_key b) (store_after ckv ch) - total_under (Coin_Unmarshal b) (balance_key b) (ckv_Get ckv) = X' - X"
proof -
  let ?C = "changed_under (balance_key b) ch" and ?un = "Coin_Unmarshal b"
  let ?key = "\<lambda>a. CreateAccountBalancesPrefix b a @ MustGetBaseDenom b"
  have pairs: "ckv_GetChangedPairs ckv (BalancesPrefix b) = filter (\<lambda>p. prefix (BalancesPrefix b) (kp_Key p)) ch"
    using assms(3) by (simp add: store_changes_def)
  note sums = changed_sums [OF assms(3), of ?un "balance_key b"]
  have s: "0 \<le> (\<Sum>p \<leftarrow> ?C. amount ?un (ckv_Get ckv (kp_Key p)))" "(\<Sum>p \<leftarrow> ?C. amount ?un (ckv_Get ckv (kp_Key p))) < 2 ^ 250"
    "0 \<le> (\<Sum>p \<leftarrow> ?C. amount ?un (change_value p))" "(\<Sum>p \<leftarrow> ?C. amount ?un (change_value p)) < 2 ^ 250"
    "\<forall>p \<in> set ?C. 0 \<le> amount ?un (ckv_Get ckv (kp_Key p)) \<and> decodable ?un p \<and> 0 \<le> amount ?un (change_value p)"
    "total_under ?un (balance_key b) (store_after ckv ch) - total_under ?un (balance_key b) (ckv_Get ckv) =
      (\<Sum>p \<leftarrow> ?C. amount ?un (change_value p)) - (\<Sum>p \<leftarrow> ?C. amount ?un (ckv_Get ckv (kp_Key p)))"
    using sums assms(4-7) by (simp_all add: sound_store_def totals_within_def)
  have key: "?key (key_addr (kp_Key p)) = kp_Key p" if "p \<in> set ?C" for p
  proof -
    have b: "balance_key b (kp_Key p)" using that by (simp add: changed_under_def)
    then have "prefix (BalancesPrefix b) (kp_Key p)" by (auto simp: balance_key_def)
    with b show ?thesis using accepted_key [OF assms(2)] by blast
  qed
  have post: "atabi_post_loop l b (ckv_GetChangedPairs ckv (BalancesPrefix b)) 0 [] =
      Done (\<Sum>p \<leftarrow> ?C. amount ?un (change_value p), map (\<lambda>p. key_addr (kp_Key p)) ?C)"
    using atabi_post_sum [OF assms(1), of 0 b "ckv_GetChangedPairs ckv (BalancesPrefix b)" "[]"] s(4,5)
    unfolding pairs changed_prefix(1) [OF assms(2)] by simp
  have eq: "(\<Sum>a \<leftarrow> map (\<lambda>p. key_addr (kp_Key p)) ?C. amount ?un (ckv_Get ckv (?key a))) = (\<Sum>p \<leftarrow> ?C. amount ?un (ckv_Get ckv (kp_Key p)))"
    using key by (simp add: comp_def cong: map_cong)
  have pre: "pre_total_loop l ?un ?key ckv (map (\<lambda>p. key_addr (kp_Key p)) ?C) 0 = Done (\<Sum>p \<leftarrow> ?C. amount ?un (ckv_Get ckv (kp_Key p)))"
    using pre_total_sum [OF assms(1), of 0 "map (\<lambda>p. key_addr (kp_Key p)) ?C" ?un ckv ?key] s(2,5) key unfolding eq by simp
  show ?thesis by (rule that [OF post pre s(1-4,6)])
qed

lemma wei_totals:
  assumes "sdk_int_laws l" "bank_laws b u" "store_changes ckv ch" "sound_store b (ckv_Get ckv)" "sound_store b (store_after ckv ch)"
    "totals_within b (ckv_Get ckv)" "totals_within b (store_after ckv ch)"
  obtains X X' addrs where
    "wei_post_loop l b (ckv_GetChangedPairs ckv (WeiBalancesPrefix b)) 0 [] = Done (X', addrs)"
    "pre_total_loop l (Int_Unmarshal b) (\<lambda>a. WeiBalancesPrefix b @ a) ckv addrs 0 = Done X"
    "0 \<le> X" "X < 2 ^ 250" "0 \<le> X'" "X' < 2 ^ 250"
    "total_under (Int_Unmarshal b) (wei_key b) (store_after ckv ch) - total_under (Int_Unmarshal b) (wei_key b) (ckv_Get ckv) = X' - X"
proof -
  let ?C = "changed_under (wei_key b) ch" and ?un = "Int_Unmarshal b"
  have pairs: "ckv_GetChangedPairs ckv (WeiBalancesPrefix b) = ?C"
    using assms(3) by (simp add: store_changes_def changed_prefix(2))
  note sums = changed_sums [OF assms(3), of ?un "wei_key b"]
  have s: "0 \<le> (\<Sum>p \<leftarrow> ?C. amount ?un (ckv_Get ckv (kp_Key p)))" "(\<Sum>p \<leftarrow> ?C. amount ?un (ckv_Get ckv (kp_Key p))) < 2 ^ 250"
    "0 \<le> (\<Sum>p \<leftarrow> ?C. amount ?un (change_value p))" "(\<Sum>p \<leftarrow> ?C. amount ?un (change_value p)) < 2 ^ 250"
    "\<forall>p \<in> set ?C. 0 \<le> amount ?un (ckv_Get ckv (kp_Key p)) \<and> decodable ?un p \<and> 0 \<le> amount ?un (change_value p)"
    "total_under ?un (wei_key b) (store_after ckv ch) - total_under ?un (wei_key b) (ckv_Get ckv) =
      (\<Sum>p \<leftarrow> ?C. amount ?un (change_value p)) - (\<Sum>p \<leftarrow> ?C. amount ?un (ckv_Get ckv (kp_Key p)))"
    using sums assms(4-7) by (simp_all add: sound_store_def totals_within_def)
  have key: "WeiBalancesPrefix b @ drop 1 (kp_Key p) = kp_Key p" "kp_Key p \<noteq> []" if "p \<in> set ?C" for p
    using that assms(2) by (auto simp: changed_under_def wei_key_def bank_laws_def prefix_def length_Suc_conv)
  have post: "wei_post_loop l b (ckv_GetChangedPairs ckv (WeiBalancesPrefix b)) 0 [] =
      Done (\<Sum>p \<leftarrow> ?C. amount ?un (change_value p), map (\<lambda>p. drop 1 (kp_Key p)) ?C)"
    using wei_post_sum [OF assms(1), of 0 ?C b "[]"] s(4,5) key(2) unfolding pairs by simp
  have eq: "(\<Sum>a \<leftarrow> map (\<lambda>p. drop 1 (kp_Key p)) ?C. amount ?un (ckv_Get ckv (WeiBalancesPrefix b @ a))) = (\<Sum>p \<leftarrow> ?C. amount ?un (ckv_Get ckv (kp_Key p)))"
    using key by (simp add: comp_def cong: map_cong)
  have pre: "pre_total_loop l ?un (\<lambda>a. WeiBalancesPrefix b @ a) ckv (map (\<lambda>p. drop 1 (kp_Key p)) ?C) 0 = Done (\<Sum>p \<leftarrow> ?C. amount ?un (ckv_Get ckv (kp_Key p)))"
    using pre_total_sum [OF assms(1), of 0 "map (\<lambda>p. drop 1 (kp_Key p)) ?C" ?un ckv "\<lambda>a. WeiBalancesPrefix b @ a"] s(2,5) key(1) unfolding eq by simp
  show ?thesis by (rule that [OF post pre s(1-4,6)])
qed

lemma unsound_fails:
  assumes "bank_laws b u" "store_changes ckv ch" "sound_store b (ckv_Get ckv)" "readable_store b (store_after ckv ch)" "\<not> sound_store b (store_after ckv ch)"
  shows "LightInvarianceTotalSupply l b (Some ckv) \<noteq> Done r"
proof -
  have d: "distinct (map kp_Key ch)" and pairs: "\<And>pfx. ckv_GetChangedPairs ckv pfx = filter (\<lambda>p. prefix pfx (kp_Key p)) ch"
    using assms(2) by (simp_all add: store_changes_def)
  consider (atabi) "\<not> amounts_ok (Coin_Unmarshal b) (balance_key b) (store_after ckv ch)" | (wei) "\<not> amounts_ok (Int_Unmarshal b) (wei_key b) (store_after ckv ch)"
    using assms(5) by (auto simp: sound_store_def)
  then show ?thesis
  proof cases
    case atabi
    obtain p where p: "p \<in> set ch" "balance_key b (kp_Key p)" "amount (Coin_Unmarshal b) (change_value p) < 0"
      using new_negative [OF _ _ atabi d] assms(3,4) by (auto simp: sound_store_def readable_store_def)
    have "prefix (BalancesPrefix b) (kp_Key p)" using p(2) by (auto simp: balance_key_def)
    then have "atabi_post_loop l b (ckv_GetChangedPairs ckv (BalancesPrefix b)) 0 [] \<noteq> Done x" for x
      using p accepted_key(1) [OF assms(1)] by (intro atabi_post_negative [of p]) (auto simp: pairs)
    then show ?thesis by (simp add: LightInvarianceTotalSupply_def go_Done_iffs)
  next
    case wei
    obtain p where p: "p \<in> set ch" "wei_key b (kp_Key p)" "amount (Int_Unmarshal b) (change_value p) < 0"
      using new_negative [OF _ _ wei d] assms(3,4) by (auto simp: sound_store_def readable_store_def)
    then have "kp_Key p \<noteq> []" using assms(1) by (auto simp: wei_key_def bank_laws_def)
    then have "wei_post_loop l b (ckv_GetChangedPairs ckv (WeiBalancesPrefix b)) 0 [] \<noteq> Done x" for x
      using p by (intro wei_post_negative [of p]) (auto simp: pairs wei_key_def)
    then show ?thesis by (auto simp: LightInvarianceTotalSupply_def go_Done_iffs)
  qed
qed

lemma remainder_zero:
  assumes "w = q * u + r" "\<bar>r\<bar> < u"
  shows "d * u + w = e * u \<longleftrightarrow> r = 0 \<and> d + q = (e::int)"
proof
  assume "d * u + w = e * u"
  then have r: "r = (e - d - q) * u" using assms(1) by (simp add: algebra_simps)
  have "e - d - q = 0"
  proof (rule ccontr)
    assume "e - d - q \<noteq> 0"
    then have "1 * u \<le> \<bar>e - d - q\<bar> * u" using assms(2) by (intro mult_right_mono) auto
    moreover have "\<bar>r\<bar> = \<bar>e - d - q\<bar> * u" unfolding r abs_mult using assms(2) by simp
    ultimately show False using assms(2) by linarith
  qed
  then show "r = 0 \<and> d + q = e" using r by simp
qed (use assms in \<open>auto simp: algebra_simps\<close>)

section \<open>Properties\<close>

text \<open>C5 (light_check_exact): on a store whose amounts are sound before the block and decode after it, the check that reads only the
  changed pairs passes exactly when, over the whole store, no balance is negative after the block and what the balances and the wei balances are
  worth together differs from the supply by as much as before the block: the block has neither made nor lost a wei that the supply does
  not account for. The totals lie below 2^250, where the 256-bit integers of the sums cannot overflow.\<close>

theorem light_check_exact:
  assumes "sdk_int_laws l" "bank_laws b u" "store_changes ckv ch" "sound_store b (ckv_Get ckv)" "readable_store b (ckv_Get ckv)"
    "readable_store b (store_after ckv ch)"
  shows "LightInvarianceTotalSupply l b (Some ckv) = Done () \<longleftrightarrow>
    sound_store b (store_after ckv ch) \<and> unbacked_wei b u (store_after ckv ch) = unbacked_wei b u (ckv_Get ckv)"
proof (cases "sound_store b (store_after ckv ch)")
  case False
  then show ?thesis using unsound_fails [OF assms(2-4,6)] by blast
next
  case True
  have within: "totals_within b (ckv_Get ckv)" "totals_within b (store_after ckv ch)" using assms(5,6) by (simp_all add: readable_store_def)
  obtain X X' addrs where X: "atabi_post_loop l b (ckv_GetChangedPairs ckv (BalancesPrefix b)) 0 [] = Done (X', addrs)"
    "pre_total_loop l (Coin_Unmarshal b) (\<lambda>a. CreateAccountBalancesPrefix b a @ MustGetBaseDenom b) ckv addrs 0 = Done X"
    "0 \<le> X" "X < 2 ^ 250" "0 \<le> X'" "X' < 2 ^ 250"
    "total_under (Coin_Unmarshal b) (balance_key b) (store_after ckv ch) - total_under (Coin_Unmarshal b) (balance_key b) (ckv_Get ckv) = X' - X"
    using atabi_totals [OF assms(1-4) True within] by blast
  obtain W W' waddrs where W: "wei_post_loop l b (ckv_GetChangedPairs ckv (WeiBalancesPrefix b)) 0 [] = Done (W', waddrs)"
    "pre_total_loop l (Int_Unmarshal b) (\<lambda>a. WeiBalancesPrefix b @ a) ckv waddrs 0 = Done W"
    "0 \<le> W" "W < 2 ^ 250" "0 \<le> W'" "W' < 2 ^ 250"
    "total_under (Int_Unmarshal b) (wei_key b) (store_after ckv ch) - total_under (Int_Unmarshal b) (wei_key b) (ckv_Get ckv) = W' - W"
    using wei_totals [OF assms(1-4) True within] by blast
  let ?k = "SupplyKey b @ MustGetBaseDenom b"
  define S S' where "S = amount (Int_Unmarshal b) (ckv_Get ckv ?k)" and "S' = amount (Int_Unmarshal b) (store_after ckv ch ?k)"
  have S: "\<bar>S\<bar> < 2 ^ 250" "\<bar>S'\<bar> < 2 ^ 250" using within by (simp_all add: totals_within_def S_def S'_def)
  have pre_supply: "(case ckv_Get ckv ?k of None \<Rightarrow> Inr 0 | Some bz \<Rightarrow> Int_Unmarshal b bz) = Inr S"
    using assms(5) by (auto simp: readable_store_def decodes_def S_def amount_def split: option.splits)
  have changed: "supply_change_loop l b S (ckv_GetChangedPairs ckv (SupplyKey b)) = Done (S' - S)"
    using supply_loop [OF assms(1,2) _ S'_def S_def] assms(3,6) S by (simp add: store_changes_def readable_store_def)
  obtain q r where qr: "SplitAtabiWeiAmount b (W' - W) = (q, r)" by fastforce
  then have split: "W' - W = q * u + r" "\<bar>r\<bar> < u" "u > 0" using assms(2) by (auto simp: bank_laws_def)
  have "\<bar>q\<bar> \<le> \<bar>W' - W\<bar> + 1"
  proof (rule ccontr)
    assume "\<not> \<bar>q\<bar> \<le> \<bar>W' - W\<bar> + 1"
    then have "(\<bar>W' - W\<bar> + 2) * u \<le> \<bar>q * u\<bar>" using split(3) by (auto simp: abs_mult intro!: mult_right_mono)
    also have "\<dots> < \<bar>W' - W\<bar> + u" using split(1,2) by linarith
    finally have "(\<bar>W' - W\<bar> + 1) * u < \<bar>W' - W\<bar>" by (simp add: algebra_simps)
    moreover have "(\<bar>W' - W\<bar> + 1) * 1 \<le> (\<bar>W' - W\<bar> + 1) * u" using split(3) by (intro mult_left_mono) auto
    ultimately have "(\<bar>W' - W\<bar> + 1) * 1 < \<bar>W' - W\<bar>" by (rule le_less_trans [rotated])
    then show False by simp
  qed
  then have fit: "sdk_Int_Sub l W' W = Done (W' - W)" "sdk_Int_Sub l X X' = Done (X - X')" "sdk_Int_Sub l (X - X') q = Done (X - X' - q)"
    "sdk_Int_Add l (X - X' - q) (S' - S) = Done (X - X' - q + (S' - S))"
    using X(3-6) W(3-6) S by (intro sub_fits add_fits assms(1); simp)+
  have "LightInvarianceTotalSupply l b (Some ckv) = Done () \<longleftrightarrow> r = 0 \<and> X' - X + q = S' - S"
    by (simp add: LightInvarianceTotalSupply_def X W pre_supply changed fit qr)
  also have "\<dots> \<longleftrightarrow> (X' - X) * u + (W' - W) = (S' - S) * u" using remainder_zero [OF split(1,2)] by blast
  also have "\<dots> \<longleftrightarrow> unbacked_wei b u (store_after ckv ch) = unbacked_wei b u (ckv_Get ckv)"
    unfolding X(7) [symmetric] W(7) [symmetric] by (simp add: unbacked_wei_def S_def S'_def algebra_simps)
  finally show ?thesis using True by simp
qed

text \<open>The witness: amounts as single bytes, a wei unit of ten, and a block that moves three units between two accounts, pays ten wei for one unit
  and mints five units.\<close>

definition bank_example :: bank_funs where
  "bank_example =
     \<lparr>BalancesPrefix = [2], WeiBalancesPrefix = [4], SupplyKey = [0], MustGetBaseDenom = [9], CreateAccountBalancesPrefix = (\<lambda>a. [2, of_nat (length a)] @ a),
      Coin_Unmarshal = (\<lambda>bz. case bz of [] \<Rightarrow> Inl ''EOF'' | x # _ \<Rightarrow> Inr (uint x)), Int_Unmarshal = (\<lambda>bz. case bz of [] \<Rightarrow> Inl ''EOF'' | x # _ \<Rightarrow> Inr (uint x)),
      SplitAtabiWeiAmount = (\<lambda>w. (w div 10, w mod 10))\<rparr>"

definition changes_example :: "KVPair list" where
  "changes_example =
     [\<lparr>kp_Key = [2, 1, 7, 9], kp_Value = [12], kp_Delete = False\<rparr>, \<lparr>kp_Key = [2, 1, 8, 9], kp_Value = [], kp_Delete = True\<rparr>,
      \<lparr>kp_Key = [4, 7], kp_Value = [10], kp_Delete = False\<rparr>, \<lparr>kp_Key = [0, 9], kp_Value = [105], kp_Delete = False\<rparr>]"

definition pre_example :: "bytes \<Rightarrow> bytes option" where
  "pre_example = [[2, 1, 7, 9] \<mapsto> [5], [2, 1, 8, 9] \<mapsto> [3], [0, 9] \<mapsto> [100]]"

definition commit_example :: commit_store where
  "commit_example = \<lparr>ckv_Get = pre_example, ckv_GetChangedPairs = (\<lambda>pfx. filter (\<lambda>p. prefix pfx (kp_Key p)) changes_example)\<rparr>"

lemma bank_example_laws: "bank_laws bank_example 10"
  by (auto simp: bank_laws_def bank_example_def)

lemma changes_example_ok: "store_changes commit_example changes_example"
  by (simp add: store_changes_def commit_example_def changes_example_def pre_example_def)

lemma after_example: "store_after commit_example changes_example = [[2, 1, 7, 9] \<mapsto> [12], [4, 7] \<mapsto> [10], [0, 9] \<mapsto> [105]]"
  by (rule ext) (auto simp: store_after_def commit_example_def changes_example_def pre_example_def change_value_def)

lemma total_example:
  assumes "finite (dom m)"
  shows "total_under un P m = (\<Sum>k \<in> dom m. if P k then amount un (m k) else 0)"
  using total_under_superset [OF assms order_refl] .

lemma example_keys:
  "balance_key bank_example [2, 1, 7, 9]" "balance_key bank_example [2, 1, 8, 9]" "\<not> balance_key bank_example [4, 7]" "\<not> balance_key bank_example [0, 9]"
  "\<not> wei_key bank_example [2, 1, 7, 9]" "\<not> wei_key bank_example [2, 1, 8, 9]" "wei_key bank_example [4, 7]" "\<not> wei_key bank_example [0, 9]"
proof -
  show "balance_key bank_example [2, 1, 7, 9]" "balance_key bank_example [2, 1, 8, 9]"
    unfolding balance_key_def by (rule exI [of _ "[7]"], simp add: bank_example_def) (rule exI [of _ "[8]"], simp add: bank_example_def)
qed (auto simp: balance_key_def wei_key_def bank_example_def)

lemma example_stores:
  "sound_store bank_example pre_example" "readable_store bank_example pre_example" "readable_store bank_example (store_after commit_example changes_example)"
  by (auto simp: after_example pre_example_def sound_store_def amounts_ok_def readable_store_def decodes_def totals_within_def total_example example_keys amount_def
      bank_example_def split: if_splits)

theorem light_check_exact_witness:
  "LightInvarianceTotalSupply lib_lower bank_example (Some commit_example) = Done ()"
proof -
  have "sound_store bank_example (store_after commit_example changes_example)"
    by (auto simp: after_example sound_store_def amounts_ok_def bank_example_def split: if_splits)
  moreover have "unbacked_wei bank_example 10 (store_after commit_example changes_example) = unbacked_wei bank_example 10 pre_example"
    by (simp add: unbacked_wei_def after_example pre_example_def total_example example_keys) (simp add: amount_def bank_example_def)
  moreover have "ckv_Get commit_example = pre_example" by (simp add: commit_example_def)
  ultimately show ?thesis
    using light_check_exact [OF lib_lower_laws(4) bank_example_laws changes_example_ok] example_stores by simp
qed

end
