(* ===== verification/App_Receipt.thy ===== *)
theory App_Receipt
  imports Keeper_Pointer Evm_Params Block_Props
begin

text \<open>
  The hook of \<open>app/receipt.go\<close> that runs after a delivered transaction: it turns the events of CW20, CW721 and CW1155 contracts that have
  a pointer contract in the EVM into logs, adds them to the receipt of the transaction or to a new one, and renews its deferred
  information. The hook runs with a gas meter of its own. The meter is a number that every access to a store and every query adds to, and that a panic
  leaves as it is, so that a recovered panic does not give gas back. What an access costs is a matter of the stores of the SDK, so the costs
  are a parameter, as are the contracts' query interface, the ABI encoder and the constants of the wasm module.
\<close>

section \<open>Gas\<close>

text \<open>The accesses that the hook pays for. A meter has a limit, or none when it is infinite.\<close>

datatype hook_access =
    LookupERC20 string | LookupERC721 string | LookupERC1155 string | ReadEVMAddress bytes | ReadTabiAddress address | QueryContract bytes string
  | ReadReceipt hash | SaveReceipt hash Receipt | AppendInfo bytes hash

type_synonym 'x hook_cost = "'x ctx \<Rightarrow> hook_access \<Rightarrow> nat"

type_synonym 'a metered = "nat \<Rightarrow> 'a go \<times> nat"

definition m_return :: "'a \<Rightarrow> 'a metered" where
  "m_return a = (\<lambda>g. (Done a, g))"

definition m_lift :: "'a go \<Rightarrow> 'a metered" where
  "m_lift x = (\<lambda>g. (x, g))"

definition m_bind :: "'a metered \<Rightarrow> ('a \<Rightarrow> 'b metered) \<Rightarrow> 'b metered" where
  "m_bind m f = (\<lambda>g. case m g of (Done a, g') \<Rightarrow> f a g' | (Panic e, g') \<Rightarrow> (Panic e, g'))"

definition out_of_gas :: string where "out_of_gas = ''out of gas''"

definition ConsumeGas :: "'x hook_cost \<Rightarrow> nat option \<Rightarrow> 'x ctx \<Rightarrow> hook_access \<Rightarrow> unit metered" where
  "ConsumeGas gascost limit c acc =
     (\<lambda>g. let g' = g + gascost c acc in
       (case limit of Some lim \<Rightarrow> if g' > lim then Panic out_of_gas else Done () | None \<Rightarrow> Done (), g'))"

section \<open>Actions\<close>

record 'x wasm_funs =
  WasmModuleEventType :: string
  EventTypeCW721PreTransferOwner :: string
  AttributeKeyContractAddr :: string
  QuerySmart :: "'x ctx \<Rightarrow> bytes \<Rightarrow> string \<Rightarrow> string + bytes"
  AllowanceResponse_Unmarshal :: "bytes \<Rightarrow> string + bigint"
  TransferBatch_Pack :: "bigint list \<Rightarrow> bigint list \<Rightarrow> (string + bytes) go"
  sdk_NewIntFromString :: "string \<Rightarrow> int option"

definition ShellEVMTxType :: uint32 where "ShellEVMTxType = 4294967295"

definition ERC20ApprovalTopic :: "lib \<Rightarrow> hash" where
  "ERC20ApprovalTopic l = HexToHash l ''0x8c5be1e5ebec7d5bd14f71427d1e84f3dd0314c0f7b2291e5b200ac8c7c3b925''"

definition ERC20TransferTopic :: "lib \<Rightarrow> hash" where
  "ERC20TransferTopic l = HexToHash l ''0xddf252ad1be2c89b69c2b068fc378daa952ba7f163c4a11628f55a4df523b3ef''"

definition ERC721TransferTopic :: "lib \<Rightarrow> hash" where
  "ERC721TransferTopic l = HexToHash l ''0xddf252ad1be2c89b69c2b068fc378daa952ba7f163c4a11628f55a4df523b3ef''"

definition ERC721ApprovalTopic :: "lib \<Rightarrow> hash" where
  "ERC721ApprovalTopic l = HexToHash l ''0x8c5be1e5ebec7d5bd14f71427d1e84f3dd0314c0f7b2291e5b200ac8c7c3b925''"

definition ERC721ApproveAllTopic :: "lib \<Rightarrow> hash" where
  "ERC721ApproveAllTopic l = HexToHash l ''0x17307eab39ab6107e8899845ad3d59bd9653f200f220920489ca2b5937696c31''"

definition ERC1155TransferSingleTopic :: "lib \<Rightarrow> hash" where
  "ERC1155TransferSingleTopic l = HexToHash l ''0xc3d58168c5ae7397731d063d5bbf3d657854427343f4c083240f7aacaa2d0f62''"

definition ERC1155TransferBatchTopic :: "lib \<Rightarrow> hash" where
  "ERC1155TransferBatchTopic l = HexToHash l ''0x4a39dc06d4c0dbc64b70af90fd698a233a518aa5d07e595d983b8c0526c8f7fb''"

definition ERC1155ApprovalForAllTopic :: "lib \<Rightarrow> hash" where
  "ERC1155ApprovalForAllTopic l = HexToHash l ''0x17307eab39ab6107e8899845ad3d59bd9653f200f220920489ca2b5937696c31''"

definition EmptyHash :: "lib \<Rightarrow> hash" where "EmptyHash l = HexToHash l ''0x0''"

definition TrueHash :: "lib \<Rightarrow> hash" where "TrueHash l = HexToHash l ''0x1''"

text \<open>\<open>common.BigToHash\<close>, the decimal text of a \<open>big.Int\<close>, and \<open>strings.Split\<close> at commas.\<close>

definition BigToHash :: "lib \<Rightarrow> int \<Rightarrow> hash" where
  "BigToHash l x = BytesToHash l (big_Bytes x)"

fun decimal :: "nat \<Rightarrow> string" where
  "decimal n = (if n < 10 then [char_of (48 + n)] else decimal (n div 10) @ [char_of (48 + n mod 10)])"

declare decimal.simps [simp del]

definition big_String :: "int \<Rightarrow> string" where
  "big_String x = (if x < 0 then CHR ''-'' # decimal (nat (- x)) else decimal (nat x))"

fun split_commas :: "string \<Rightarrow> string list" where
  "split_commas [] = [[]]"
| "split_commas (ch # s) = (if ch = CHR '','' then [] # split_commas s else (case split_commas s of [] \<Rightarrow> [[ch]] | w # ws \<Rightarrow> (ch # w) # ws))"

definition safeBigIntFromString :: "'x wasm_funs \<Rightarrow> string \<Rightarrow> bigint" where
  "safeBigIntFromString wm s = sdk_NewIntFromString wm s"

record Action =
  ac_Type :: string
  ac_Amount :: bigint
  ac_Amounts :: "bigint list"
  ac_TokenId :: bigint
  ac_TokenIds :: "bigint list"
  ac_Sender :: hash
  ac_Recipient :: hash
  ac_Spender :: hash
  ac_Operator :: hash
  ac_Owner :: hash
  ac_From :: hash
  ac_To :: hash

definition new_action :: "string \<Rightarrow> Action" where
  "new_action ty =
     (let z = replicate 32 0 in
      \<lparr>ac_Type = ty, ac_Amount = None, ac_Amounts = [], ac_TokenId = None, ac_TokenIds = [], ac_Sender = z, ac_Recipient = z, ac_Spender = z,
       ac_Operator = z, ac_Owner = z, ac_From = z, ac_To = z\<rparr>)"

definition GetEvmAddressHash :: "lib \<Rightarrow> 'x hook_cost \<Rightarrow> nat option \<Rightarrow> 'x ctx \<Rightarrow> string \<Rightarrow> hash metered" where
  "GetEvmAddressHash l gascost limit c addrStr =
     (case AccAddressFromBech32 l addrStr of
        Inr tabiAddr \<Rightarrow>
          m_bind (ConsumeGas gascost limit c (ReadEVMAddress tabiAddr)) (\<lambda>_. m_return (BytesToHash l (GetEVMAddressOrDefault l c tabiAddr)))
      | Inl err \<Rightarrow> m_return (EmptyHash l))"

definition GetEventsOfType :: "event list \<Rightarrow> string \<Rightarrow> event list" where
  "GetEventsOfType events ty = filter (\<lambda>event. fst event = ty) events"

fun GetAttributeValue_loop :: "(string \<times> string) list \<Rightarrow> string \<Rightarrow> string option" where
  "GetAttributeValue_loop [] attribute = None"
| "GetAttributeValue_loop ((key, value) # attrs) attribute = (if key = attribute then Some value else GetAttributeValue_loop attrs attribute)"

definition GetAttributeValue :: "event \<Rightarrow> string \<Rightarrow> string option" where
  "GetAttributeValue event attribute = GetAttributeValue_loop (snd event) attribute"

definition set_attribute :: "lib \<Rightarrow> 'x wasm_funs \<Rightarrow> 'x hook_cost \<Rightarrow> nat option \<Rightarrow> 'x ctx \<Rightarrow> string \<Rightarrow> string \<Rightarrow> Action \<Rightarrow> Action metered" where
  "set_attribute l wm gascost limit c key value a =
     (let addr = (\<lambda>f. m_bind (GetEvmAddressHash l gascost limit c value) (\<lambda>h. m_return (f h))) in
      if key = ''amount'' then m_return (a\<lparr>ac_Amount := safeBigIntFromString wm value\<rparr>)
      else if key = ''amounts'' then m_return (a\<lparr>ac_Amounts := map (safeBigIntFromString wm) (split_commas value)\<rparr>)
      else if key = ''token_id'' then m_return (a\<lparr>ac_TokenId := safeBigIntFromString wm value\<rparr>)
      else if key = ''token_ids'' then m_return (a\<lparr>ac_TokenIds := map (safeBigIntFromString wm) (split_commas value)\<rparr>)
      else if key = ''sender'' then addr (\<lambda>h. a\<lparr>ac_Sender := h\<rparr>)
      else if key = ''recipient'' then addr (\<lambda>h. a\<lparr>ac_Recipient := h\<rparr>)
      else if key = ''spender'' then addr (\<lambda>h. a\<lparr>ac_Spender := h\<rparr>)
      else if key = ''operator'' then addr (\<lambda>h. a\<lparr>ac_Operator := h\<rparr>)
      else if key = ''owner'' then addr (\<lambda>h. a\<lparr>ac_Owner := h\<rparr>)
      else if key = ''from'' then addr (\<lambda>h. a\<lparr>ac_From := h\<rparr>)
      else if key = ''to'' then addr (\<lambda>h. a\<lparr>ac_To := h\<rparr>)
      else m_return a)"

fun GetActions_loop ::
    "lib \<Rightarrow> 'x wasm_funs \<Rightarrow> 'x hook_cost \<Rightarrow> nat option \<Rightarrow> 'x ctx \<Rightarrow> (string \<times> string) list \<Rightarrow> Action list \<Rightarrow> Action list metered" where
  "GetActions_loop l wm gascost limit c [] actions = m_return actions"
| "GetActions_loop l wm gascost limit c ((key, value) # attrs) actions =
     (if key = ''action'' then GetActions_loop l wm gascost limit c attrs (actions @ [new_action value])
      else if actions = [] then GetActions_loop l wm gascost limit c attrs actions
      else
        m_bind (set_attribute l wm gascost limit c key value (last actions)) (\<lambda>a.
        GetActions_loop l wm gascost limit c attrs (butlast actions @ [a])))"

definition GetActionsFromWasmEvent :: "lib \<Rightarrow> 'x wasm_funs \<Rightarrow> 'x hook_cost \<Rightarrow> nat option \<Rightarrow> 'x ctx \<Rightarrow> event \<Rightarrow> Action list metered" where
  "GetActionsFromWasmEvent l wm gascost limit c event = GetActions_loop l wm gascost limit c (snd event) []"

section \<open>Translations\<close>

definition new_log :: "address \<Rightarrow> hash list \<Rightarrow> bytes \<Rightarrow> eth_Log" where
  "new_log addr topics data =
     \<lparr>elog_Address = addr, elog_Topics = topics, elog_Data = data, elog_BlockNumber = 0, elog_TxHash = replicate 32 0, elog_TxIndex = 0, elog_Index = 0\<rparr>"

definition allowance_query :: "string \<Rightarrow> string \<Rightarrow> string" where
  "allowance_query owner spender = ''{\"allowance\":{\"owner\":\"'' @ owner @ ''\",\"spender\":\"'' @ spender @ ''\"}}''"

definition cw20_log ::
    "lib \<Rightarrow> 'x wasm_funs \<Rightarrow> 'x hook_cost \<Rightarrow> nat option \<Rightarrow> 'x ctx \<Rightarrow> address \<Rightarrow> string \<Rightarrow> Action \<Rightarrow> eth_Log option metered" where
  "cw20_log l wm gascost limit c pointerAddr contractAddr action =
     (if ac_Type action \<in> {''mint'', ''burn'', ''send'', ''transfer'', ''transfer_from'', ''send_from'', ''burn_from''} then
        m_return (map_option (\<lambda>amount. new_log pointerAddr [ERC20TransferTopic l, ac_From action, ac_To action] (BigToHash l amount)) (ac_Amount action))
      else if ac_Type action \<in> {''increase_allowance'', ''decrease_allowance''} then
        let owner = BytesToAddress l (ac_Owner action);
            spender = BytesToAddress l (ac_Spender action);
            query = allowance_query (AccAddress_String l (GetTabiAddressOrDefault c owner)) (AccAddress_String l (GetTabiAddressOrDefault c spender)) in
        m_bind (m_lift (MustAccAddressFromBech32 l contractAddr)) (\<lambda>contract.
        m_bind (ConsumeGas gascost limit c (ReadTabiAddress owner)) (\<lambda>_.
        m_bind (ConsumeGas gascost limit c (ReadTabiAddress spender)) (\<lambda>_.
        m_bind (ConsumeGas gascost limit c (QueryContract contract query)) (\<lambda>_.
        m_lift
          (case QuerySmart wm c contract query of
             Inl err \<Rightarrow> Done None
           | Inr ret \<Rightarrow>
               (case AllowanceResponse_Unmarshal wm ret of
                  Inl err \<Rightarrow> Done None
                | Inr allowance \<Rightarrow>
                    deref allowance (\<lambda>x. Done (Some (new_log pointerAddr [ERC20ApprovalTopic l, ac_Owner action, ac_Spender action] (BigToHash l x))))))))))
      else m_return None)"

text \<open>The deferred recover returns the logs collected before a panic, also one for lack of gas.\<close>

fun translateCW20_loop ::
    "lib \<Rightarrow> 'x wasm_funs \<Rightarrow> 'x hook_cost \<Rightarrow> nat option \<Rightarrow> 'x ctx \<Rightarrow> address \<Rightarrow> string \<Rightarrow> Action list \<Rightarrow> eth_Log list \<Rightarrow> eth_Log list metered" where
  "translateCW20_loop l wm gascost limit c pointerAddr contractAddr [] res g = (Done res, g)"
| "translateCW20_loop l wm gascost limit c pointerAddr contractAddr (action # actions) res g =
     (case cw20_log l wm gascost limit c pointerAddr contractAddr action g of
        (Panic _, g') \<Rightarrow> (Done res, g')
      | (Done None, g') \<Rightarrow> translateCW20_loop l wm gascost limit c pointerAddr contractAddr actions res g'
      | (Done (Some lg), g') \<Rightarrow> translateCW20_loop l wm gascost limit c pointerAddr contractAddr actions (res @ [lg]) g')"

definition translateCW20Event ::
    "lib \<Rightarrow> 'x wasm_funs \<Rightarrow> 'x hook_cost \<Rightarrow> nat option \<Rightarrow> 'x ctx \<Rightarrow> event \<Rightarrow> address \<Rightarrow> string \<Rightarrow> eth_Log list metered" where
  "translateCW20Event l wm gascost limit c wasmEvent pointerAddr contractAddr g =
     (case GetActionsFromWasmEvent l wm gascost limit c wasmEvent g of
        (Panic _, g') \<Rightarrow> (Done [], g')
      | (Done actions, g') \<Rightarrow> translateCW20_loop l wm gascost limit c pointerAddr contractAddr actions [] g')"

definition getOwnerEventKey :: "string \<Rightarrow> string \<Rightarrow> string" where
  "getOwnerEventKey contractAddr tokenID = contractAddr @ ''-'' @ tokenID"

text \<open>The sender of a CW721 transfer: the owner that the matching event before the transfer names.\<close>

definition cw721_sender ::
    "lib \<Rightarrow> 'x hook_cost \<Rightarrow> nat option \<Rightarrow> 'x ctx \<Rightarrow> (string \<rightharpoonup> event list) \<Rightarrow> string \<Rightarrow> nat \<Rightarrow> hash \<Rightarrow> hash metered" where
  "cw721_sender l gascost limit c ownerEventsMap ownerEventKey currentCounter sender =
     (case ownerEventsMap ownerEventKey of
        None \<Rightarrow> m_return sender
      | Some ownerEvents \<Rightarrow>
          if length ownerEvents > currentCounter then
            (case AccAddressFromBech32 l (snd (snd (ownerEvents ! currentCounter) ! 2)) of
               Inr ownerTabiAddr \<Rightarrow>
                 m_bind (ConsumeGas gascost limit c (ReadEVMAddress ownerTabiAddr)) (\<lambda>_. m_return (BytesToHash l (GetEVMAddressOrDefault l c ownerTabiAddr)))
             | Inl err \<Rightarrow> m_return sender)
          else m_return sender)"

definition cw721_log ::
    "lib \<Rightarrow> 'x hook_cost \<Rightarrow> nat option \<Rightarrow> 'x ctx \<Rightarrow> address \<Rightarrow> string \<Rightarrow> (string \<rightharpoonup> event list) \<Rightarrow> (string \<rightharpoonup> nat) \<Rightarrow> Action \<Rightarrow>
     (eth_Log option \<times> (string \<rightharpoonup> nat)) metered" where
  "cw721_log l gascost limit c pointerAddr contractAddr ownerEventsMap counters action =
     (if ac_Type action \<in> {''transfer_nft'', ''send_nft'', ''burn''} then
        (case ac_TokenId action of
           None \<Rightarrow> m_return (None, counters)
         | Some tokenId \<Rightarrow>
             let ownerEventKey = getOwnerEventKey contractAddr (big_String tokenId);
                 currentCounter = (case counters ownerEventKey of Some n \<Rightarrow> n | None \<Rightarrow> 0) in
             m_bind (cw721_sender l gascost limit c ownerEventsMap ownerEventKey currentCounter (ac_Sender action)) (\<lambda>sender.
             m_return
               (Some (new_log pointerAddr [ERC721TransferTopic l, sender, ac_Recipient action, BigToHash l tokenId] (EmptyHash l)),
                counters(ownerEventKey \<mapsto> currentCounter + 1))))
      else m_return
        (if ac_Type action = ''mint'' then
           map_option (\<lambda>tokenId. new_log pointerAddr [ERC721TransferTopic l, EmptyHash l, ac_Owner action, BigToHash l tokenId] (EmptyHash l)) (ac_TokenId action)
         else if ac_Type action = ''approve'' then
           map_option (\<lambda>tokenId. new_log pointerAddr [ERC721ApprovalTopic l, ac_Sender action, ac_Spender action, BigToHash l tokenId] (EmptyHash l)) (ac_TokenId action)
         else if ac_Type action = ''revoke'' then
           map_option (\<lambda>tokenId. new_log pointerAddr [ERC721ApprovalTopic l, ac_Sender action, EmptyHash l, BigToHash l tokenId] (EmptyHash l)) (ac_TokenId action)
         else if ac_Type action = ''approve_all'' then
           Some (new_log pointerAddr [ERC721ApproveAllTopic l, ac_Sender action, ac_Operator action] (TrueHash l))
         else if ac_Type action = ''revoke_all'' then
           Some (new_log pointerAddr [ERC721ApproveAllTopic l, ac_Sender action, ac_Operator action] (EmptyHash l))
         else None, counters))"

fun translateCW721_loop ::
    "lib \<Rightarrow> 'x hook_cost \<Rightarrow> nat option \<Rightarrow> 'x ctx \<Rightarrow> address \<Rightarrow> string \<Rightarrow> (string \<rightharpoonup> event list) \<Rightarrow> Action list \<Rightarrow> (string \<rightharpoonup> nat) \<Rightarrow> eth_Log list \<Rightarrow>
     (eth_Log list \<times> (string \<rightharpoonup> nat)) metered" where
  "translateCW721_loop l gascost limit c pointerAddr contractAddr ownerEventsMap [] counters res = m_return (res, counters)"
| "translateCW721_loop l gascost limit c pointerAddr contractAddr ownerEventsMap (action # actions) counters res =
     m_bind (cw721_log l gascost limit c pointerAddr contractAddr ownerEventsMap counters action) (\<lambda>(lg, counters').
     translateCW721_loop l gascost limit c pointerAddr contractAddr ownerEventsMap actions counters' (res @ (case lg of None \<Rightarrow> [] | Some x \<Rightarrow> [x])))"

definition translateCW721Event ::
    "lib \<Rightarrow> 'x wasm_funs \<Rightarrow> 'x hook_cost \<Rightarrow> nat option \<Rightarrow> 'x ctx \<Rightarrow> event \<Rightarrow> address \<Rightarrow> string \<Rightarrow> (string \<rightharpoonup> event list) \<Rightarrow> (string \<rightharpoonup> nat) \<Rightarrow>
     (eth_Log list \<times> (string \<rightharpoonup> nat)) metered" where
  "translateCW721Event l wm gascost limit c wasmEvent pointerAddr contractAddr ownerEventsMap counters =
     m_bind (GetActionsFromWasmEvent l wm gascost limit c wasmEvent) (\<lambda>actions.
     translateCW721_loop l gascost limit c pointerAddr contractAddr ownerEventsMap actions counters [])"

definition cw1155_log :: "lib \<Rightarrow> 'x wasm_funs \<Rightarrow> address \<Rightarrow> Action \<Rightarrow> eth_Log option go" where
  "cw1155_log l wm pointerAddr action =
     (if ac_Type action \<in> {''transfer_single'', ''mint_single'', ''burn_single''} then
        let fromHash = (if ac_Type action \<noteq> ''mint_single'' then ac_Owner action else EmptyHash l);
            toHash = (if ac_Type action \<noteq> ''burn_single'' then ac_Recipient action else EmptyHash l) in
        (case (ac_TokenId action, ac_Amount action) of
           (Some tokenId, Some amount) \<Rightarrow>
             Done (Some (new_log pointerAddr [ERC1155TransferSingleTopic l, ac_Sender action, fromHash, toHash] (BigToHash l tokenId @ BigToHash l amount)))
         | _ \<Rightarrow> Done None)
      else if ac_Type action \<in> {''transfer_batch'', ''mint_batch'', ''burn_batch''} then
        let fromHash = (if ac_Type action \<noteq> ''mint_batch'' then ac_Owner action else EmptyHash l);
            toHash = (if ac_Type action \<noteq> ''burn_batch'' then ac_Recipient action else EmptyHash l) in
        if ac_TokenIds action = [] \<or> ac_Amounts action = [] then Done None
        else
          go_bind (TransferBatch_Pack wm (ac_TokenIds action) (ac_Amounts action)) (\<lambda>packed.
          case packed of
            Inl err \<Rightarrow> Done None
          | Inr value \<Rightarrow> Done (Some (new_log pointerAddr [ERC1155TransferBatchTopic l, ac_Sender action, fromHash, toHash] value)))
      else if ac_Type action = ''approve_all'' then
        Done (Some (new_log pointerAddr [ERC1155ApprovalForAllTopic l, ac_Sender action, ac_Operator action] (TrueHash l)))
      else if ac_Type action = ''revoke_all'' then
        Done (Some (new_log pointerAddr [ERC1155ApprovalForAllTopic l, ac_Sender action, ac_Operator action] (EmptyHash l)))
      else Done None)"

fun translateCW1155_loop :: "lib \<Rightarrow> 'x wasm_funs \<Rightarrow> address \<Rightarrow> Action list \<Rightarrow> eth_Log list \<Rightarrow> eth_Log list go" where
  "translateCW1155_loop l wm pointerAddr [] res = Done res"
| "translateCW1155_loop l wm pointerAddr (action # actions) res =
     go_bind (cw1155_log l wm pointerAddr action) (\<lambda>lg.
     translateCW1155_loop l wm pointerAddr actions (res @ (case lg of None \<Rightarrow> [] | Some x \<Rightarrow> [x])))"

definition translateCW1155Event :: "lib \<Rightarrow> 'x wasm_funs \<Rightarrow> 'x hook_cost \<Rightarrow> nat option \<Rightarrow> 'x ctx \<Rightarrow> event \<Rightarrow> address \<Rightarrow> eth_Log list metered" where
  "translateCW1155Event l wm gascost limit c wasmEvent pointerAddr =
     m_bind (GetActionsFromWasmEvent l wm gascost limit c wasmEvent) (\<lambda>actions.
     m_lift (translateCW1155_loop l wm pointerAddr actions []))"

section \<open>The hook\<close>

fun ownerEvents_loop :: "event list \<Rightarrow> (string \<rightharpoonup> event list) \<Rightarrow> (string \<rightharpoonup> event list)" where
  "ownerEvents_loop [] m = m"
| "ownerEvents_loop (ownerEvent # events) m =
     (if length (snd ownerEvent) \<noteq> 3 then ownerEvents_loop events m
      else
        let ownerEventKey = getOwnerEventKey (snd (snd ownerEvent ! 0)) (snd (snd ownerEvent ! 1)) in
        ownerEvents_loop events (m(ownerEventKey \<mapsto> (case m ownerEventKey of Some evs \<Rightarrow> evs @ [ownerEvent] | None \<Rightarrow> [ownerEvent]))))"

text \<open>A log gets the number of logs before it as its index.\<close>

fun add_logs :: "eth_Log list \<Rightarrow> eth_Log list \<Rightarrow> eth_Log list" where
  "add_logs logs [] = logs"
| "add_logs logs (lg # lgs) = add_logs (logs @ [lg\<lparr>elog_Index := of_nat (length logs)\<rparr>]) lgs"

text \<open>The logs of one event: those of the first pointer contract found for its contract.\<close>

definition event_logs ::
    "uint16 \<Rightarrow> lib \<Rightarrow> 'x wasm_funs \<Rightarrow> 'x hook_cost \<Rightarrow> nat option \<Rightarrow> 'x ctx \<Rightarrow> (string \<rightharpoonup> event list) \<Rightarrow> event \<Rightarrow> (string \<rightharpoonup> nat) \<Rightarrow>
     (eth_Log list \<times> (string \<rightharpoonup> nat)) metered" where
  "event_logs ov l wm gascost limit c ownerEventsMap wasmEvent counters =
     (case GetAttributeValue wasmEvent (AttributeKeyContractAddr wm) of
        None \<Rightarrow> m_return ([], counters)
      | Some contractAddr \<Rightarrow>
          m_bind (ConsumeGas gascost limit c (LookupERC20 contractAddr)) (\<lambda>_.
          m_bind (m_lift (GetERC20CW20Pointer ov l c contractAddr)) (\<lambda>erc20.
          case erc20 of
            Some (pointerAddr, _) \<Rightarrow>
              m_bind (translateCW20Event l wm gascost limit c wasmEvent pointerAddr contractAddr) (\<lambda>lgs. m_return (lgs, counters))
          | None \<Rightarrow>
              m_bind (ConsumeGas gascost limit c (LookupERC721 contractAddr)) (\<lambda>_.
              m_bind (m_lift (GetERC721CW721Pointer l c contractAddr)) (\<lambda>erc721.
              case erc721 of
                Some (pointerAddr, _) \<Rightarrow> translateCW721Event l wm gascost limit c wasmEvent pointerAddr contractAddr ownerEventsMap counters
              | None \<Rightarrow>
                  m_bind (ConsumeGas gascost limit c (LookupERC1155 contractAddr)) (\<lambda>_.
                  m_bind (m_lift (GetERC1155CW1155Pointer l c contractAddr)) (\<lambda>erc1155.
                  case erc1155 of
                    Some (pointerAddr, _) \<Rightarrow>
                      m_bind (translateCW1155Event l wm gascost limit c wasmEvent pointerAddr) (\<lambda>lgs. m_return (lgs, counters))
                  | None \<Rightarrow> m_return ([], counters))))))))"

fun wasmEvents_loop ::
    "uint16 \<Rightarrow> lib \<Rightarrow> 'x wasm_funs \<Rightarrow> 'x hook_cost \<Rightarrow> nat option \<Rightarrow> 'x ctx \<Rightarrow> (string \<rightharpoonup> event list) \<Rightarrow> event list \<Rightarrow> (string \<rightharpoonup> nat) \<Rightarrow> eth_Log list \<Rightarrow>
     eth_Log list metered" where
  "wasmEvents_loop ov l wm gascost limit c ownerEventsMap [] counters logs = m_return logs"
| "wasmEvents_loop ov l wm gascost limit c ownerEventsMap (wasmEvent # wasmEvents) counters logs =
     m_bind (event_logs ov l wm gascost limit c ownerEventsMap wasmEvent counters) (\<lambda>(lgs, counters').
     wasmEvents_loop ov l wm gascost limit c ownerEventsMap wasmEvents counters' (add_logs logs lgs))"

record DeliverTxHookInput =
  hi_EvmTxInfo :: "string option"
  hi_Events :: "event list"

definition hook_logs :: "uint16 \<Rightarrow> lib \<Rightarrow> 'x wasm_funs \<Rightarrow> 'x hook_cost \<Rightarrow> nat option \<Rightarrow> 'x ctx \<Rightarrow> DeliverTxHookInput \<Rightarrow> eth_Log list metered" where
  "hook_logs ov l wm gascost limit c response =
     wasmEvents_loop ov l wm gascost limit c (ownerEvents_loop (GetEventsOfType (hi_Events response) (EventTypeCW721PreTransferOwner wm)) Map.empty)
       (GetEventsOfType (hi_Events response) (WasmModuleEventType wm)) Map.empty []"

definition renumber :: "evm_Log list \<Rightarrow> evm_Log list" where
  "renumber logs = map (\<lambda>(i, lg). lg\<lparr>log_Index := of_nat i\<rparr>) (List.enumerate 0 logs)"

definition hook_hash :: "lib \<Rightarrow> bytes \<Rightarrow> DeliverTxHookInput \<Rightarrow> hash" where
  "hook_hash l checksum response = (case hi_EvmTxInfo response of None \<Rightarrow> BytesToHash l checksum | Some txHash \<Rightarrow> HexToHash l txHash)"

text \<open>The receipt with the new logs: the earlier one with all logs renumbered, or a new one. \<open>signers\<close>: those of the transaction when it
  has signatures; \<open>gasConsumed\<close>: what its gas meter says.\<close>

definition hook_receipt :: "lib \<Rightarrow> eth_funs \<Rightarrow> bytes list option \<Rightarrow> uint64 \<Rightarrow> 'x ctx \<Rightarrow> hash \<Rightarrow> eth_Log list \<Rightarrow> Receipt" where
  "hook_receipt l e signers gasConsumed c txHash logs =
     (case GetTransientReceipt c txHash of
        Inr r \<Rightarrow>
          let r1 = r\<lparr>rc_Logs := renumber (rc_Logs r @ map (ConvertSyntheticEthLog l) logs)\<rparr> in
          r1\<lparr>rc_LogsBloom := CreateBloom e (GetLogsForTx l r1 0)\<rparr>
      | Inl err \<Rightarrow>
          Receipt_zero\<lparr>rc_TxType := ShellEVMTxType, rc_TxHashHex := hash_Hex l txHash, rc_GasUsed := gasConsumed,
            rc_BlockNumber := cx_BlockHeight c, rc_TransactionIndex := ucast (cx_TxIndex c),
            rc_Logs := map (ConvertSyntheticEthLog l) logs, rc_LogsBloom := CreateBloom e logs, rc_Status := ReceiptStatusSuccessful,
            rc_From := (case signers of Some (s # _) \<Rightarrow> addr_Hex l (GetEVMAddressOrDefault l c s) | _ \<Rightarrow> '''')\<rparr>)"

text \<open>The logs are stored with the receipt. The signer is looked up for a new receipt only; the earlier deferred information is read on the
  meter of the transaction.\<close>

definition store_logs ::
    "lib \<Rightarrow> eth_funs \<Rightarrow> int_codec \<Rightarrow> 'x hook_cost \<Rightarrow> nat option \<Rightarrow> bytes list option \<Rightarrow> uint64 \<Rightarrow> 'x ctx \<Rightarrow> hash \<Rightarrow> eth_Log list \<Rightarrow> 'x ctx metered" where
  "store_logs l e ic gascost limit signers gasConsumed c txHash logs =
     (let receipt = hook_receipt l e signers gasConsumed c txHash logs;
          c1 = SetTransientReceipt c txHash receipt;
          surplus = (case GetEVMTxDeferredInfo ic c1 of Some d \<Rightarrow> di_Surplus d | None \<Rightarrow> Some 0) in
      m_bind (ConsumeGas gascost limit c (ReadReceipt txHash)) (\<lambda>_.
      m_bind
        (case GetTransientReceipt c txHash of
           Inr r \<Rightarrow> m_return ()
         | Inl err \<Rightarrow>
             (case signers of
                None \<Rightarrow> m_return ()
              | Some ss \<Rightarrow> (case ss of [] \<Rightarrow> m_return () | s # _ \<Rightarrow> ConsumeGas gascost limit c (ReadEVMAddress s)))) (\<lambda>_.
      m_bind (ConsumeGas gascost limit c (SaveReceipt txHash receipt)) (\<lambda>_.
      m_bind (ConsumeGas gascost limit c1 (AppendInfo (rc_LogsBloom receipt) txHash)) (\<lambda>_.
      m_lift (AppendToEvmTxDeferredInfo ic c1 (rc_LogsBloom receipt) txHash surplus))))))"

definition hook_body ::
    "uint16 \<Rightarrow> lib \<Rightarrow> eth_funs \<Rightarrow> int_codec \<Rightarrow> 'x wasm_funs \<Rightarrow> 'x hook_cost \<Rightarrow> nat option \<Rightarrow> bytes list option \<Rightarrow> uint64 \<Rightarrow> 'x ctx \<Rightarrow> bytes \<Rightarrow>
     DeliverTxHookInput \<Rightarrow> 'x ctx metered" where
  "hook_body ov l e ic wm gascost limit signers gasConsumed c checksum response =
     m_bind (hook_logs ov l wm gascost limit c response) (\<lambda>logs.
     if logs = [] then m_return c
     else store_logs l e ic gascost limit signers gasConsumed c (hook_hash l checksum response) logs)"

definition AddCosmosEventsToEVMReceiptIfApplicable ::
    "uint16 \<Rightarrow> lib \<Rightarrow> eth_funs \<Rightarrow> int_codec \<Rightarrow> 'x param_store \<Rightarrow> 'x wasm_funs \<Rightarrow> 'x hook_cost \<Rightarrow> bytes list option \<Rightarrow> uint64 \<Rightarrow> 'x ctx \<Rightarrow> bytes \<Rightarrow>
     DeliverTxHookInput \<Rightarrow> 'x ctx go" where
  "AddCosmosEventsToEVMReceiptIfApplicable ov l e ic ps wm gascost signers gasConsumed c checksum response =
     (if GetEventsOfType (hi_Events response) (WasmModuleEventType wm) = [] then Done c
      else
        let wasmToEvmEventGasLimit = GetDeliverTxHookWasmGasLimit ps c in
        fst (hook_body ov l e ic wm gascost (Some (unat wasmToEvmEventGasLimit)) signers gasConsumed c checksum response 0))"

section \<open>Logs keep their order and number\<close>

definition positions_ok :: "eth_Log list \<Rightarrow> bool" where
  "positions_ok logs \<longleftrightarrow> (\<forall>i < length logs. elog_Index (logs ! i) = of_nat i)"

lemma indexed_add_logs: "positions_ok logs \<Longrightarrow> positions_ok (add_logs logs lgs)"
proof (induction logs lgs rule: add_logs.induct)
  case (2 logs lg lgs)
  have "positions_ok (logs @ [lg\<lparr>elog_Index := of_nat (length logs)\<rparr>])"
    using "2.prems" by (auto simp: positions_ok_def nth_append less_Suc_eq)
  then show ?case using "2.IH" by simp
qed simp

lemma m_bind_Done:
  "fst (m_bind m f g) = Done b \<longleftrightarrow> (\<exists>a g'. m g = (Done a, g') \<and> fst (f a g') = Done b)"
  by (auto simp: m_bind_def split: prod.splits go.splits)

lemma indexed_loop:
  "positions_ok logs \<Longrightarrow> fst (wasmEvents_loop ov l wm gascost limit c ownerEventsMap evs counters logs g) = Done logs' \<Longrightarrow> positions_ok logs'"
  by (induction evs arbitrary: counters logs g)
    (auto simp: m_bind_Done m_return_def intro: indexed_add_logs)

lemma hook_logs_indexed:
  assumes "hook_logs ov l wm gascost limit c response g = (Done logs, g')"
  shows "positions_ok logs"
  by (rule indexed_loop [of "[]", OF _ arg_cong [of _ _ fst, OF assms [unfolded hook_logs_def], unfolded fst_conv]]) (simp add: positions_ok_def)

lemma renumber_nth: "i < length logs \<Longrightarrow> renumber logs ! i = (logs ! i)\<lparr>log_Index := of_nat i\<rparr>" "length (renumber logs) = length logs"
  by (simp_all add: renumber_def nth_enumerate_eq)

lemma converted_index: "log_Index (ConvertSyntheticEthLog l lg) = ucast (elog_Index lg)"
  by (simp add: ConvertSyntheticEthLog_def ConvertEthLog_def newLogFromEth_def)

lemma converted_indexed:
  "positions_ok logs \<Longrightarrow> renumber (map (ConvertSyntheticEthLog l) logs) = map (ConvertSyntheticEthLog l) logs"
  by (rule nth_equalityI) (simp_all add: renumber_nth positions_ok_def converted_index ucast_of_nat_32 [symmetric])

section \<open>The meter\<close>

text \<open>A computation is exact when a limit that covers what it uses on an infinite meter changes nothing, and any smaller one makes it panic for
  lack of gas. It is guarded when with a smaller limit it may also recover from this panic, but then leaves the meter overdrawn.\<close>

named_theorems exact

definition gas_exact :: "(nat option \<Rightarrow> 'a metered) \<Rightarrow> bool" where
  "gas_exact m \<longleftrightarrow> (\<forall>lim g r g1. g \<le> lim \<longrightarrow> m None g = (r, g1) \<longrightarrow>
     g \<le> g1 \<and> (g1 \<le> lim \<longrightarrow> m (Some lim) g = (r, g1)) \<and> (lim < g1 \<longrightarrow> (\<exists>g'. m (Some lim) g = (Panic out_of_gas, g') \<and> lim < g')))"

definition gas_guarded :: "(nat option \<Rightarrow> 'a metered) \<Rightarrow> bool" where
  "gas_guarded m \<longleftrightarrow> (\<forall>lim g r g1. g \<le> lim \<longrightarrow> m None g = (r, g1) \<longrightarrow>
     g \<le> g1 \<and> (g1 \<le> lim \<longrightarrow> m (Some lim) g = (r, g1)) \<and>
     (lim < g1 \<longrightarrow> (\<exists>r' g'. m (Some lim) g = (r', g') \<and> lim < g' \<and> (r' = Panic out_of_gas \<or> (\<exists>a. r' = Done a)))))"

lemma exactD:
  assumes "gas_exact m" and "g \<le> lim" and "m None g = (r, g1)"
  shows "g \<le> g1" and "g1 \<le> lim \<Longrightarrow> m (Some lim) g = (r, g1)" and "lim < g1 \<Longrightarrow> \<exists>g'. m (Some lim) g = (Panic out_of_gas, g') \<and> lim < g'"
  using assms unfolding gas_exact_def by blast+

lemma guardedD:
  assumes "gas_guarded m" and "g \<le> lim" and "m None g = (r, g1)"
  shows "g \<le> g1" and "g1 \<le> lim \<Longrightarrow> m (Some lim) g = (r, g1)"
    and "lim < g1 \<Longrightarrow> \<exists>r' g'. m (Some lim) g = (r', g') \<and> lim < g' \<and> (r' = Panic out_of_gas \<or> (\<exists>a. r' = Done a))"
  using assms unfolding gas_guarded_def by blast+

lemma exact_guarded: "gas_exact m \<Longrightarrow> gas_guarded m"
  unfolding gas_exact_def gas_guarded_def by blast

lemma exact_return [exact]: "gas_exact (\<lambda>limit. m_return a)"
  by (simp add: gas_exact_def m_return_def)

lemma exact_lift [exact]: "gas_exact (\<lambda>limit. m_lift x)"
  by (simp add: gas_exact_def m_lift_def)

lemma exact_ConsumeGas [exact]: "gas_exact (\<lambda>limit. ConsumeGas gascost limit c acc)"
  by (simp add: gas_exact_def ConsumeGas_def Let_def)

lemma exact_bind [exact]:
  assumes m: "gas_exact m" and f: "\<And>a. gas_exact (\<lambda>limit. f limit a)"
  shows "gas_exact (\<lambda>limit. m_bind (m limit) (f limit))"
  unfolding gas_exact_def
proof (intro allI impI)
  fix lim g r g1
  assume "g \<le> lim" and run: "m_bind (m None) (f None) g = (r, g1)"
  obtain r0 g0 where m0: "m None g = (r0, g0)" by fastforce
  note M = exactD [OF m \<open>g \<le> lim\<close> m0]
  show "g \<le> g1 \<and> (g1 \<le> lim \<longrightarrow> m_bind (m (Some lim)) (f (Some lim)) g = (r, g1)) \<and>
    (lim < g1 \<longrightarrow> (\<exists>g'. m_bind (m (Some lim)) (f (Some lim)) g = (Panic out_of_gas, g') \<and> lim < g'))"
  proof (cases r0)
    case (Done a)
    with run m0 have run1: "f None a g0 = (r, g1)" by (simp add: m_bind_def)
    have le: "g0 \<le> g1" using exactD(1) [OF f order_refl run1] .
    show ?thesis
    proof (cases "g0 \<le> lim")
      case True
      then show ?thesis using M(1,2) le Done exactD(2,3) [OF f True run1] by (auto simp: m_bind_def)
    next
      case False
      then show ?thesis using M(1,3) le by (auto simp: m_bind_def)
    qed
  next
    case (Panic e)
    then show ?thesis using M m0 run by (auto simp: m_bind_def)
  qed
qed

text \<open>After a guarded computation, one that copes with an overdrawn meter.\<close>

definition overdrawn_stops :: "(nat option \<Rightarrow> 'a metered) \<Rightarrow> bool" where
  "overdrawn_stops m \<longleftrightarrow> (\<forall>lim g. lim < g \<longrightarrow>
     (\<exists>r g'. m (Some lim) g = (r, g') \<and> lim < g' \<and> (r = Panic out_of_gas \<or> (\<exists>a. r = Done a))))"

lemma guarded_bind:
  assumes m: "gas_guarded m" and f: "\<And>a. gas_guarded (\<lambda>limit. f limit a)" and o: "\<And>a. overdrawn_stops (\<lambda>limit. f limit a)"
  shows "gas_guarded (\<lambda>limit. m_bind (m limit) (f limit))"
  unfolding gas_guarded_def
proof (intro allI impI)
  fix lim g r g1
  assume "g \<le> lim" and run: "m_bind (m None) (f None) g = (r, g1)"
  obtain r0 g0 where m0: "m None g = (r0, g0)" by fastforce
  note M = guardedD [OF m \<open>g \<le> lim\<close> m0]
  have over: "\<exists>r' g'. m_bind (m (Some lim)) (f (Some lim)) g = (r', g') \<and> lim < g' \<and> (r' = Panic out_of_gas \<or> (\<exists>a. r' = Done a))" if "lim < g0"
    using M(3) [OF that] o unfolding overdrawn_stops_def by (fastforce simp: m_bind_def)
  show "g \<le> g1 \<and> (g1 \<le> lim \<longrightarrow> m_bind (m (Some lim)) (f (Some lim)) g = (r, g1)) \<and>
    (lim < g1 \<longrightarrow> (\<exists>r' g'. m_bind (m (Some lim)) (f (Some lim)) g = (r', g') \<and> lim < g' \<and> (r' = Panic out_of_gas \<or> (\<exists>a. r' = Done a))))"
  proof (cases r0)
    case (Done a)
    with run m0 have run1: "f None a g0 = (r, g1)" by (simp add: m_bind_def)
    have le: "g0 \<le> g1" using guardedD(1) [OF f order_refl run1] .
    show ?thesis
    proof (cases "g0 \<le> lim")
      case True
      then show ?thesis using M(1,2) le Done guardedD(2,3) [OF f True run1] by (auto simp: m_bind_def)
    next
      case False
      then show ?thesis using M(1) le over by auto
    qed
  next
    case (Panic e)
    then have "r = Panic e" "g1 = g0" using run m0 by (simp_all add: m_bind_def)
    then show ?thesis using M(1,2) Panic over by (auto simp: m_bind_def)
  qed
qed

lemma overdrawn_return: "overdrawn_stops (\<lambda>limit. m_return a)"
  by (simp add: overdrawn_stops_def m_return_def)

lemma overdrawn_ConsumeGas: "overdrawn_stops (\<lambda>limit. m_bind (ConsumeGas gascost limit c acc) (f limit))"
  by (simp add: overdrawn_stops_def m_bind_def ConsumeGas_def Let_def)

lemma overdrawn_bind:
  assumes m: "overdrawn_stops m" and f: "\<And>a. overdrawn_stops (\<lambda>limit. f limit a)"
  shows "overdrawn_stops (\<lambda>limit. m_bind (m limit) (f limit))"
  unfolding overdrawn_stops_def
proof (intro allI impI)
  fix lim g :: nat
  assume "lim < g"
  with m obtain r g' where r: "m (Some lim) g = (r, g')" "lim < g'" "r = Panic out_of_gas \<or> (\<exists>a. r = Done a)" unfolding overdrawn_stops_def by blast
  show "\<exists>r g'. m_bind (m (Some lim)) (f (Some lim)) g = (r, g') \<and> lim < g' \<and> (r = Panic out_of_gas \<or> (\<exists>a. r = Done a))"
  proof (cases r)
    case (Done a)
    then show ?thesis using r(1,2) f [of a] unfolding overdrawn_stops_def by (simp add: m_bind_def)
  next
    case (Panic e)
    then show ?thesis using r by (simp add: m_bind_def)
  qed
qed

lemma exact_cases [exact]:
  "(P \<Longrightarrow> gas_exact m1) \<Longrightarrow> (\<not> P \<Longrightarrow> gas_exact m2) \<Longrightarrow> gas_exact (\<lambda>limit. if P then m1 limit else m2 limit)"
  "gas_exact n1 \<Longrightarrow> (\<And>y. gas_exact (\<lambda>limit. n2 limit y)) \<Longrightarrow> gas_exact (\<lambda>limit. case x of None \<Rightarrow> n1 limit | Some y \<Rightarrow> n2 limit y)"
  "(\<And>y. gas_exact (\<lambda>limit. s1 limit y)) \<Longrightarrow> (\<And>y. gas_exact (\<lambda>limit. s2 limit y)) \<Longrightarrow> gas_exact (\<lambda>limit. case z of Inl y \<Rightarrow> s1 limit y | Inr y \<Rightarrow> s2 limit y)"
  "(\<And>y y'. gas_exact (\<lambda>limit. p limit y y')) \<Longrightarrow> gas_exact (\<lambda>limit. case w of (y, y') \<Rightarrow> p limit y y')"
  "gas_exact l1 \<Longrightarrow> (\<And>y ys. gas_exact (\<lambda>limit. l2 limit y ys)) \<Longrightarrow> gas_exact (\<lambda>limit. case zs of [] \<Rightarrow> l1 limit | y # ys \<Rightarrow> l2 limit y ys)"
  by (cases P, simp_all) (cases x, simp_all, cases z, simp_all, cases w, simp_all, cases zs, simp_all)

lemma exact_address_hash [exact]: "gas_exact (\<lambda>limit. GetEvmAddressHash l gascost limit c s)"
  unfolding GetEvmAddressHash_def by (intro exact)

lemma exact_set_attribute [exact]: "gas_exact (\<lambda>limit. set_attribute l wm gascost limit c key val a)"
  unfolding set_attribute_def Let_def by (intro exact)

lemma exact_actions_loop [exact]: "gas_exact (\<lambda>limit. GetActions_loop l wm gascost limit c attrs actions)"
proof (induction attrs arbitrary: actions)
  case (Cons kv attrs)
  then show ?case by (cases kv) (simp only: GetActions_loop.simps, intro exact)
qed (simp add: exact)

lemma exact_actions [exact]: "gas_exact (\<lambda>limit. GetActionsFromWasmEvent l wm gascost limit c ev)"
  unfolding GetActionsFromWasmEvent_def by (intro exact)

lemma exact_cw20_log [exact]: "gas_exact (\<lambda>limit. cw20_log l wm gascost limit c p contract action)"
  unfolding cw20_log_def Let_def by (intro exact)

lemma exact_cw721_sender [exact]: "gas_exact (\<lambda>limit. cw721_sender l gascost limit c owners key n sender)"
  unfolding cw721_sender_def by (intro exact)

lemma exact_cw721_log [exact]: "gas_exact (\<lambda>limit. cw721_log l gascost limit c p contract owners counters action)"
  unfolding cw721_log_def Let_def by (intro exact)

lemma exact_cw721_loop [exact]: "gas_exact (\<lambda>limit. translateCW721_loop l gascost limit c p contract owners actions counters res)"
  by (induction actions arbitrary: counters res) (simp_all only: translateCW721_loop.simps, (intro exact; assumption)+)

lemma exact_cw721 [exact]: "gas_exact (\<lambda>limit. translateCW721Event l wm gascost limit c ev p contract owners counters)"
  unfolding translateCW721Event_def by (intro exact)

lemma exact_cw1155 [exact]: "gas_exact (\<lambda>limit. translateCW1155Event l wm gascost limit c ev p)"
  unfolding translateCW1155Event_def by (intro exact)

text \<open>The translation of CW20 events recovers, so it is only guarded, and so is the loop over the events. The rest of the loop finds the meter
  overdrawn at its next access.\<close>

lemma guarded_cw20_loop: "gas_guarded (\<lambda>limit. translateCW20_loop l wm gascost limit c p contract actions res)"
proof (induction actions arbitrary: res)
  case (Cons action actions)
  let ?m = "\<lambda>limit. cw20_log l wm gascost limit c p contract action"
  show ?case unfolding gas_guarded_def
  proof (intro allI impI)
    fix lim g r g1
    assume "g \<le> lim" and run: "translateCW20_loop l wm gascost None c p contract (action # actions) res g = (r, g1)"
    obtain r0 g0 where m0: "?m None g = (r0, g0)" by fastforce
    note M = exactD [OF exact_cw20_log \<open>g \<le> lim\<close> m0]
    note IH = guardedD [OF Cons.IH]
    have le: "g0 \<le> g1" using run m0 IH(1) [OF order_refl] by (auto split: go.splits option.splits)
    show "g \<le> g1 \<and> (g1 \<le> lim \<longrightarrow> translateCW20_loop l wm gascost (Some lim) c p contract (action # actions) res g = (r, g1)) \<and>
      (lim < g1 \<longrightarrow> (\<exists>r' g'. translateCW20_loop l wm gascost (Some lim) c p contract (action # actions) res g = (r', g') \<and> lim < g' \<and>
        (r' = Panic out_of_gas \<or> (\<exists>a. r' = Done a))))"
    proof (cases "g0 \<le> lim")
      case True
      then show ?thesis using run m0 M(1,2) le IH(2,3) [OF True] by (auto split: go.splits option.splits)
    next
      case False
      then show ?thesis using M(1,3) le by auto
    qed
  qed
qed (simp add: gas_guarded_def)

lemma exact_bind_guarded:
  assumes m: "gas_exact m" and f: "\<And>a. gas_guarded (\<lambda>limit. f limit a)"
  shows "gas_guarded (\<lambda>limit. m_bind (m limit) (f limit))"
  unfolding gas_guarded_def
proof (intro allI impI)
  fix lim g r g1
  assume "g \<le> lim" and run: "m_bind (m None) (f None) g = (r, g1)"
  obtain r0 g0 where m0: "m None g = (r0, g0)" by fastforce
  note M = exactD [OF m \<open>g \<le> lim\<close> m0]
  show "g \<le> g1 \<and> (g1 \<le> lim \<longrightarrow> m_bind (m (Some lim)) (f (Some lim)) g = (r, g1)) \<and>
    (lim < g1 \<longrightarrow> (\<exists>r' g'. m_bind (m (Some lim)) (f (Some lim)) g = (r', g') \<and> lim < g' \<and> (r' = Panic out_of_gas \<or> (\<exists>a. r' = Done a))))"
  proof (cases r0)
    case (Done a)
    with run m0 have run1: "f None a g0 = (r, g1)" by (simp add: m_bind_def)
    have le: "g0 \<le> g1" using guardedD(1) [OF f order_refl run1] .
    show ?thesis
    proof (cases "g0 \<le> lim")
      case True
      then show ?thesis using M(1,2) le Done guardedD(2,3) [OF f True run1] by (auto simp: m_bind_def)
    next
      case False
      then show ?thesis using M(1,3) le by (auto simp: m_bind_def)
    qed
  next
    case (Panic e)
    then show ?thesis using M m0 run by (auto simp: m_bind_def)
  qed
qed

lemma guarded_return: "gas_guarded (\<lambda>limit. m_return a)"
  by (rule exact_guarded [OF exact_return])

lemma guarded_cw20: "gas_guarded (\<lambda>limit. translateCW20Event l wm gascost limit c ev p contract)"
  unfolding gas_guarded_def
proof (intro allI impI)
  fix lim g r g1
  assume "g \<le> lim" and run: "translateCW20Event l wm gascost None c ev p contract g = (r, g1)"
  obtain r0 g0 where m0: "GetActionsFromWasmEvent l wm gascost None c ev g = (r0, g0)" by fastforce
  note M = exactD [OF exact_actions \<open>g \<le> lim\<close> m0]
  note L = guardedD [OF guarded_cw20_loop]
  have le: "g0 \<le> g1" using run m0 L(1) [OF order_refl] by (auto simp: translateCW20Event_def split: go.splits)
  show "g \<le> g1 \<and> (g1 \<le> lim \<longrightarrow> translateCW20Event l wm gascost (Some lim) c ev p contract g = (r, g1)) \<and>
    (lim < g1 \<longrightarrow> (\<exists>r' g'. translateCW20Event l wm gascost (Some lim) c ev p contract g = (r', g') \<and> lim < g' \<and> (r' = Panic out_of_gas \<or> (\<exists>a. r' = Done a))))"
  proof (cases "g0 \<le> lim")
    case True
    then show ?thesis using run m0 M(1,2) le L(2,3) [OF True] by (auto simp: translateCW20Event_def split: go.splits)
  next
    case False
    then show ?thesis using M(1,3) le by (auto simp: translateCW20Event_def)
  qed
qed

lemma guarded_event: "gas_guarded (\<lambda>limit. event_logs ov l wm gascost limit c owners ev counters)"
proof (cases "GetAttributeValue ev (AttributeKeyContractAddr wm)")
  case None
  then show ?thesis by (simp add: event_logs_def guarded_return)
next
  case (Some contract)
  have erc20: "gas_guarded (\<lambda>limit. m_bind (translateCW20Event l wm gascost limit c ev p contract) (\<lambda>lgs. m_return (lgs, counters)))" for p
    by (intro guarded_bind guarded_cw20 guarded_return overdrawn_return)
  show ?thesis unfolding event_logs_def Some option.case
    apply (intro exact_bind_guarded exact)
    subgoal for _ erc20p
    proof (cases erc20p)
      case (Some pv)
      then show ?thesis by (cases pv) (simp add: erc20)
    qed (simp only: option.case, intro exact_guarded exact)
    done
qed

lemma overdrawn_event: "overdrawn_stops (\<lambda>limit. event_logs ov l wm gascost limit c owners ev counters)"
  by (cases "GetAttributeValue ev (AttributeKeyContractAddr wm)") (simp_all add: event_logs_def overdrawn_return overdrawn_ConsumeGas)

lemma overdrawn_events: "overdrawn_stops (\<lambda>limit. wasmEvents_loop ov l wm gascost limit c owners evs counters logs)"
  by (induction evs arbitrary: counters logs)
    (auto intro!: overdrawn_return overdrawn_bind overdrawn_event)

lemma guarded_events: "gas_guarded (\<lambda>limit. wasmEvents_loop ov l wm gascost limit c owners evs counters logs)"
  by (induction evs arbitrary: counters logs)
    (auto intro!: guarded_return guarded_bind guarded_event overdrawn_events)

lemma exact_store_logs: "gas_exact (\<lambda>limit. store_logs l e ic gascost limit signers gasConsumed c h logs)"
  unfolding store_logs_def Let_def by (intro exact)

text \<open>What the whole hook does, from its run on an infinite meter.\<close>

lemma hook_body_infinite:
  assumes "hook_logs ov l wm gascost None c response 0 = (Done logs, g)"
  shows "hook_body ov l e ic wm gascost None signers gas c checksum response 0 =
    (if logs = [] then (Done c, g) else store_logs l e ic gascost None signers gas c (hook_hash l checksum response) logs g)"
  using assms by (simp add: hook_body_def m_bind_def m_return_def)

lemma store_logs_infinite:
  "fst (store_logs l e ic gascost None signers gas c h logs g) =
    (let r = hook_receipt l e signers gas c h logs; c1 = SetTransientReceipt c h r in
     AppendToEvmTxDeferredInfo ic c1 (rc_LogsBloom r) h (case GetEVMTxDeferredInfo ic c1 of Some d \<Rightarrow> di_Surplus d | None \<Rightarrow> Some 0))"
  by (simp add: store_logs_def m_bind_def ConsumeGas_def m_lift_def m_return_def Let_def split: sum.split option.split list.split)

lemma hook_body_gas:
  fixes hook
  assumes inf: "hook_logs ov l wm gascost None c response 0 = (Done logs, g)"
    and "hook = (\<lambda>limit. hook_body ov l e ic wm gascost limit signers gas c checksum response 0)"
  shows "if snd (hook None) \<le> lim then fst (hook (Some lim)) = fst (hook None)
    else if g \<le> lim then fst (hook (Some lim)) = Panic out_of_gas
    else fst (hook (Some lim)) \<in> {Panic out_of_gas, Done c}"
proof -
  let ?h = "hook_hash l checksum response"
  note G = guardedD [OF guarded_events zero_le inf [unfolded hook_logs_def], folded hook_logs_def]
  define rest where "rest = (\<lambda>logs limit. if logs = [] then m_return c else store_logs l e ic gascost limit signers gas c ?h logs)"
  have rest: "gas_exact (rest lg)" for lg unfolding rest_def by (intro exact exact_store_logs)
  have hook: "hook limit = m_bind (hook_logs ov l wm gascost limit c response) (\<lambda>lg. rest lg limit) 0" for limit
    by (simp add: assms(2) hook_body_def rest_def)
  obtain r1 g1 where r1: "rest logs None g = (r1, g1)" by fastforce
  have none: "hook None = (r1, g1)" using inf r1 by (simp add: hook m_bind_def)
  have le: "g \<le> g1" using exactD(1) [OF rest order_refl r1] .
  show ?thesis
  proof (cases "g \<le> lim")
    case True
    then have some: "hook (Some lim) = rest logs (Some lim) g" using G(2) by (simp add: hook m_bind_def)
    show ?thesis using True exactD(2,3) [OF rest True r1] by (auto simp: none some not_le)
  next
    case False
    then have "lim < g" by simp
    with G(3) obtain r' g' where r': "hook_logs ov l wm gascost (Some lim) c response 0 = (r', g')" "lim < g'"
      "r' = Panic out_of_gas \<or> (\<exists>a. r' = Done a)" by blast
    have over: "fst (rest lg (Some lim) g') = Panic out_of_gas \<or> fst (rest lg (Some lim) g') = Done c" for lg
      using r'(2) by (simp add: rest_def m_return_def store_logs_def Let_def m_bind_def ConsumeGas_def)
    have "fst (hook (Some lim)) \<in> {Panic out_of_gas, Done c}"
      using r'(3) over by (elim disjE exE) (simp_all add: hook m_bind_def r'(1))
    then show ?thesis using False le by (auto simp: none)
  qed
qed

section \<open>Properties\<close>

text \<open>C6 (hook_extends_receipt): let the translation of the events not panic on an infinite meter, which shows the gas that the hook needs, and let
  the deferred information of the transaction, if there is any, have a surplus and no error text. When its limit covers this gas, the hook returns. It then
  leaves a transaction without translated events alone; else the receipt it stores under the hash of the
  transaction has the logs of the earlier receipt followed by the translated ones, each with its position as index, and the bloom
  filter made from just these logs; this filter is the one that the deferred information of the transaction then carries to the end of the block, and that
  information keeps the surplus it had, so that the hook moves no money. Receipts of other transactions do not change. When the limit covers the
  translation only, the hook panics for lack of gas. When it does not cover the translation either, the hook panics or, since the
  translation of CW20 events recovers from the panic, returns and changes nothing: it never stores a part of the logs.\<close>

theorem hook_extends_receipt:
  assumes "int_codec_laws ic" and "eth_laws e" and "deferred_ok ic (TransientStore c) (cx_TxIndex c)"
    and "\<bar>deferred_surplus ic (TransientStore c) (cx_TxIndex c)\<bar> < 2 ^ 256" and "length (hook_hash l checksum response) = 32"
    and "hook_logs ov l wm gascost None c response 0 = (Done logs, g)"
    and old: "old = (case GetTransientReceipt c (hook_hash l checksum response) of Inl err \<Rightarrow> [] | Inr r \<Rightarrow> rc_Logs r)"
  shows "if snd (hook_body ov l e ic wm gascost None signers gas c checksum response 0) \<le> unat (GetDeliverTxHookWasmGasLimit ps c)
    then if logs = [] then AddCosmosEventsToEVMReceiptIfApplicable ov l e ic ps wm gascost signers gas c checksum response = Done c
    else \<exists>c' receipt d. AddCosmosEventsToEVMReceiptIfApplicable ov l e ic ps wm gascost signers gas c checksum response = Done c' \<and>
      kv_get (TransientStore c') (ReceiptKey (hook_hash l checksum response)) = Some (Receipt_Marshal receipt) \<and>
      length (rc_Logs receipt) = length old + length logs \<and>
      (\<forall>i < length (rc_Logs receipt). rc_Logs receipt ! i = ((old @ map (ConvertSyntheticEthLog l) logs) ! i)\<lparr>log_Index := of_nat i\<rparr>) \<and>
      rc_LogsBloom receipt = CreateBloom e (case GetTransientReceipt c (hook_hash l checksum response) of Inl err \<Rightarrow> logs | Inr r \<Rightarrow> GetLogsForTx l receipt 0) \<and>
      GetEVMTxDeferredInfo ic c' = Some d \<and> di_TxBloom d = rc_LogsBloom receipt \<and> di_TxHash d = hook_hash l checksum response \<and>
      di_Surplus d = Some (deferred_surplus ic (TransientStore c) (cx_TxIndex c)) \<and>
      balanced ic junk T (cx_TxIndex c) c c' \<and>
      (\<forall>h. h \<noteq> hook_hash l checksum response \<longrightarrow> GetTransientReceipt c' h = GetTransientReceipt c h)
    else if g \<le> unat (GetDeliverTxHookWasmGasLimit ps c)
    then AddCosmosEventsToEVMReceiptIfApplicable ov l e ic ps wm gascost signers gas c checksum response = Panic out_of_gas
    else AddCosmosEventsToEVMReceiptIfApplicable ov l e ic ps wm gascost signers gas c checksum response \<in> {Panic out_of_gas, Done c}"
proof -
  let ?h = "hook_hash l checksum response" and ?s = "deferred_surplus ic (TransientStore c) (cx_TxIndex c)" and ?lim = "unat (GetDeliverTxHookWasmGasLimit ps c)"
  let ?hook = "AddCosmosEventsToEVMReceiptIfApplicable ov l e ic ps wm gascost signers gas c checksum response"
  let ?inf = "hook_body ov l e ic wm gascost None signers gas c checksum response 0"
  define r1 where "r1 = hook_receipt l e signers gas c ?h logs"
  define c1 where "c1 = SetTransientReceipt c ?h r1"
  have c1: "TransientStore c1 = kv_set (TransientStore c) (ReceiptKey ?h) (Receipt_Marshal r1)" "cx_TxIndex c1 = cx_TxIndex c" "ctx_ext c1 = ctx_ext c"
    by (simp_all add: c1_def SetTransientReceipt_def)
  have dues: "same_dues (TransientStore c) (TransientStore c1)" by (simp add: c1(1))
  have surplus: "(case GetEVMTxDeferredInfo ic c1 of Some d \<Rightarrow> di_Surplus d | None \<Rightarrow> Some 0) = Some ?s"
    using assms(3) dues by (auto simp: GetEVMTxDeferredInfo_def c1(2) same_dues_def deferred_surplus_def deferred_ok_def split: option.splits sum.splits)
  have inf: "fst ?inf = (if logs = [] then Done c else AppendToEvmTxDeferredInfo ic c1 (rc_LogsBloom r1) ?h (Some ?s))"
    by (simp add: hook_body_infinite [OF assms(6)] store_logs_infinite Let_def surplus [symmetric] c1_def r1_def)
  have run: "if snd ?inf \<le> ?lim then ?hook = fst ?inf else if g \<le> ?lim then ?hook = Panic out_of_gas else ?hook \<in> {Panic out_of_gas, Done c}"
  proof (cases "GetEventsOfType (hi_Events response) (WasmModuleEventType wm) = []")
    case True
    then have "logs = []" "g = 0" using assms(6) by (simp_all add: hook_logs_def m_return_def)
    with True show ?thesis
      using hook_body_infinite [OF assms(6), of e ic signers gas checksum] by (simp add: AddCosmosEventsToEVMReceiptIfApplicable_def)
  next
    case False
    then have "?hook = fst (hook_body ov l e ic wm gascost (Some ?lim) signers gas c checksum response 0)"
      by (simp add: AddCosmosEventsToEVMReceiptIfApplicable_def Let_def)
    then show ?thesis using hook_body_gas [OF assms(6) refl, of e ic signers gas checksum ?lim] by (simp only:)
  qed
  show ?thesis
  proof (cases "snd ?inf > ?lim \<or> logs = []")
    case True
    then show ?thesis using run inf by (auto simp: not_le [symmetric])
  next
    case False
    then have run: "?hook = AppendToEvmTxDeferredInfo ic c1 (rc_LogsBloom r1) ?h (Some ?s)" using run inf by simp
    have logs: "rc_Logs r1 = renumber (old @ map (ConvertSyntheticEthLog l) logs)"
      using converted_indexed [OF hook_logs_indexed [OF assms(6)]] by (simp add: r1_def hook_receipt_def old Let_def split: sum.split)
    have bloom: "rc_LogsBloom r1 = CreateBloom e (case GetTransientReceipt c ?h of Inl err \<Rightarrow> logs | Inr r \<Rightarrow> GetLogsForTx l r1 0)"
      by (simp add: r1_def hook_receipt_def GetLogsForTx_def convertLog_def Let_def split: sum.split)
    have "length (rc_LogsBloom r1) = BloomByteLength" using assms(2) by (simp add: r1_def hook_receipt_def eth_laws_def Let_def split: sum.split)
    then have fits: "length (rc_LogsBloom r1) \<le> 2 ^ 20" "length ?h \<le> 2 ^ 20" "big_BitLen ?s \<le> 256"
      using assms(4,5) by (simp_all add: BloomByteLength_def big_BitLen_le_iff)
    obtain bz where app: "AppendToEvmTxDeferredInfo ic c1 (rc_LogsBloom r1) ?h (Some ?s) = Done (with_transient (\<lambda>st. kv_set st (DeferredInfoKey (cx_TxIndex c1)) bz) c1)"
      using Append_stores [OF assms(1) fits(3,1,2)] by metis
    let ?c' = "with_transient (\<lambda>st. kv_set st (DeferredInfoKey (cx_TxIndex c1)) bz) c1"
    have keys: "DeferredInfoKey i \<noteq> ReceiptKey h" for i h by (simp add: DeferredInfoKey_def ReceiptKey_def DeferredInfoPrefix_def ReceiptKeyPrefix_def)
    have "balanced ic junk T (cx_TxIndex c1) c ?c'"
      using balanced_append [OF assms(1) app fits(3,1,2) _ dues] by (simp add: c1)
    moreover have "GetTransientReceipt ?c' h = GetTransientReceipt c h" if "h \<noteq> ?h" for h
      using that keys [symmetric] by (simp add: GetTransientReceipt_def c1 kv_get_kv_set) (simp add: ReceiptKey_def)
    ultimately show ?thesis
      using False run bloom app GetEVMTxDeferredInfo_Append [OF assms(1) fits(3,1,2) app] logs keys [symmetric]
      by (simp add: c1 kv_get_kv_set) (rule exI [of _ r1], simp add: renumber_nth)
  qed
qed

text \<open>The witness: a CW20 contract with a pointer emits a transfer of five units and an unknown action, in a Cosmos transaction that has no
  receipt yet.\<close>

definition wasm_example :: "ledger wasm_funs" where
  "wasm_example =
     \<lparr>WasmModuleEventType = ''wasm'', EventTypeCW721PreTransferOwner = ''cw721_pre_transfer_owner'', AttributeKeyContractAddr = ''_contract_address'',
      QuerySmart = (\<lambda>c a q. Inl ''no such contract''), AllowanceResponse_Unmarshal = (\<lambda>bz. Inl ''EOF''), TransferBatch_Pack = (\<lambda>ids amounts. Done (Inl ''abi'')),
      sdk_NewIntFromString = (\<lambda>s. if s = ''5'' then Some 5 else None)\<rparr>"

definition pointer_ctx :: "ledger ctx" where
  "pointer_ctx = (case SetERC20CW20Pointer 1 lib_lower ctx0 ''tabi1token'' (replicate 20 3) of Done (err, c) \<Rightarrow> c | Panic _ \<Rightarrow> ctx0)"

definition hook_example :: DeliverTxHookInput where
  "hook_example =
     \<lparr>hi_EvmTxInfo = None,
      hi_Events = [(''message'', []), (''wasm'', [(''_contract_address'', ''tabi1token''), (''action'', ''transfer''), (''amount'', ''5''), (''action'', ''pause'')])]\<rparr>"

lemma hook_example_logs:
  "map_prod (go_map (map elog_Data)) id (hook_logs 1 lib_lower wasm_example (\<lambda>_ _. n) None pointer_ctx hook_example 0) = (Done [replicate 31 0 @ [5]], n)"
  "TransientStore pointer_ctx = []" "GetDeliverTxHookWasmGasLimit default_store pointer_ctx = 300000"
  by code_simp+

lemma hook_example_gas:
  assumes "hook_logs 1 lib_lower wasm_example (\<lambda>_ _. n) None pointer_ctx hook_example 0 = (Done [lg], n)"
  shows "snd (hook_body 1 lib_lower eth_simple int_codec_bytes wasm_example (\<lambda>_ _. n) None None 7 pointer_ctx checksum hook_example 0) = 4 * n"
  by (simp add: hook_body_infinite [OF assms] store_logs_def Let_def m_bind_def ConsumeGas_def m_return_def m_lift_def GetTransientReceipt_def hook_example_logs(2))

theorem hook_extends_receipt_witness:
  "AddCosmosEventsToEVMReceiptIfApplicable 1 lib_lower eth_simple int_codec_bytes default_store wasm_example (\<lambda>_ _. 100000) None 7 pointer_ctx (replicate 32 1) hook_example =
     Panic out_of_gas \<and>
   (\<exists>c' receipt. AddCosmosEventsToEVMReceiptIfApplicable 1 lib_lower eth_simple int_codec_bytes default_store wasm_example (\<lambda>_ _. 1000) None 7 pointer_ctx (replicate 32 1) hook_example = Done c' \<and>
    kv_get (TransientStore c') (ReceiptKey (replicate 32 1)) = Some (Receipt_Marshal receipt) \<and> map log_Data (rc_Logs receipt) = [replicate 31 0 @ [5]])"
proof -
  have "\<exists>lg. hook_logs 1 lib_lower wasm_example (\<lambda>_ _. n) None pointer_ctx hook_example 0 = (Done [lg], n) \<and> elog_Data lg = replicate 31 0 @ [5]" for n
    using hook_example_logs(1) [of n]
    by (cases "hook_logs 1 lib_lower wasm_example (\<lambda>_ _. n) None pointer_ctx hook_example 0") (auto simp: go_Done_iffs simp del: replicate.simps)
  then obtain lg1 lg where lg1: "hook_logs 1 lib_lower wasm_example (\<lambda>_ _. 100000) None pointer_ctx hook_example 0 = (Done [lg1], 100000)"
    and lg: "hook_logs 1 lib_lower wasm_example (\<lambda>_ _. 1000) None pointer_ctx hook_example 0 = (Done [lg], 1000)" "elog_Data lg = replicate 31 0 @ [5]"
    by metis
  have h: "hook_hash lib_lower (replicate 32 1) hook_example = replicate 32 1" "length (replicate 32 (1 :: 8 word)) = 32"
    using lib_lower_laws(2) by (simp_all add: hook_hash_def hook_example_def cast_laws_def del: replicate.simps)
  have empty: "deferred_ok int_codec_bytes [] i" "deferred_surplus int_codec_bytes [] i = 0" "GetTransientReceipt pointer_ctx h = Inl ''not found''" for i h
    by (simp_all add: deferred_ok_def deferred_surplus_def GetTransientReceipt_def hook_example_logs(2))
  note ext = hook_extends_receipt [OF int_codec_bytes_laws eth_simple_laws _ _ _ _ refl, of pointer_ctx lib_lower "replicate 32 1" hook_example,
      unfolded h(1) hook_example_logs(2) empty(2,3) sum.case, OF empty(1) _ h(2),
      where ps = default_store and signers = None and gas = 7 and junk = "\<lambda>_. None" and T = "\<lambda>_. 0", unfolded hook_example_logs(3)]
  have "AddCosmosEventsToEVMReceiptIfApplicable 1 lib_lower eth_simple int_codec_bytes default_store wasm_example (\<lambda>_ _. 100000) None 7 pointer_ctx (replicate 32 1) hook_example =
      Panic out_of_gas"
    using ext [OF _ lg1] by (simp add: hook_example_gas [OF lg1] del: replicate.simps)
  moreover obtain c' receipt where
    "AddCosmosEventsToEVMReceiptIfApplicable 1 lib_lower eth_simple int_codec_bytes default_store wasm_example (\<lambda>_ _. 1000) None 7 pointer_ctx (replicate 32 1) hook_example = Done c'"
    "kv_get (TransientStore c') (ReceiptKey (replicate 32 1)) = Some (Receipt_Marshal receipt)" "length (rc_Logs receipt) = 1"
    "rc_Logs receipt ! 0 = (ConvertSyntheticEthLog lib_lower lg)\<lparr>log_Index := 0\<rparr>"
    using ext [OF _ lg(1)] by (auto simp: hook_example_gas [OF lg(1)] simp del: replicate.simps)
  moreover from this(3,4) have "rc_Logs receipt = [(ConvertSyntheticEthLog lib_lower lg)\<lparr>log_Index := 0\<rparr>]"
    by (auto simp: length_Suc_conv)
  moreover have "log_Data (ConvertSyntheticEthLog lib_lower lg) = elog_Data lg" by (simp add: ConvertSyntheticEthLog_def ConvertEthLog_def)
  ultimately show ?thesis using lg(2) by auto
qed

text \<open>A transfer whose sender is looked up when the gas is gone: the hook returns as if the event had no logs, although on an infinite meter
  it has one.\<close>

definition dropped_example :: DeliverTxHookInput where
  "dropped_example =
     \<lparr>hi_EvmTxInfo = None, hi_Events = [(''wasm'', [(''_contract_address'', ''tabi1token''), (''action'', ''transfer''), (''from'', ''0x0102''), (''amount'', ''5'')])]\<rparr>"

definition low_gas_store :: "'x param_store" where
  "low_gas_store = \<lparr>GetParamSetIfExists = (\<lambda>_. DefaultParams\<lparr>DeliverTxHookWasmGasLimit := 1\<rparr>), SetParamSet = (\<lambda>x p. Done x)\<rparr>"

lemma dropped_example_logs:
  "map_prod (go_map (map elog_Data)) id (hook_logs 1 lib_lower wasm_example (\<lambda>_ _. 1) None pointer_ctx dropped_example 0) = (Done [replicate 31 0 @ [5]], 2)"
  "map_prod (go_map (map elog_Data)) id (hook_logs 1 lib_lower wasm_example (\<lambda>_ _. 1) (Some 1) pointer_ctx dropped_example 0) = (Done [], 2)"
  "GetDeliverTxHookWasmGasLimit low_gas_store pointer_ctx = 1"
  by code_simp+

lemma cw20_logs_dropped:
  "AddCosmosEventsToEVMReceiptIfApplicable 1 lib_lower eth_simple int_codec_bytes low_gas_store wasm_example (\<lambda>_ _. 1) None 7 pointer_ctx checksum dropped_example =
     Done pointer_ctx \<and>
   (\<exists>logs g. hook_logs 1 lib_lower wasm_example (\<lambda>_ _. 1) None pointer_ctx dropped_example 0 = (Done logs, g) \<and> length logs = 1)"
proof (rule conjI)
  have "hook_logs 1 lib_lower wasm_example (\<lambda>_ _. 1) (Some 1) pointer_ctx dropped_example 0 = (Done [], 2)"
    using dropped_example_logs(2)
    by (cases "hook_logs 1 lib_lower wasm_example (\<lambda>_ _. 1) (Some 1) pointer_ctx dropped_example 0") (auto simp: go_Done_iffs)
  then show "AddCosmosEventsToEVMReceiptIfApplicable 1 lib_lower eth_simple int_codec_bytes low_gas_store wasm_example (\<lambda>_ _. 1) None 7 pointer_ctx checksum dropped_example =
      Done pointer_ctx"
    by (simp add: AddCosmosEventsToEVMReceiptIfApplicable_def dropped_example_logs(3) hook_body_def m_bind_def m_return_def Let_def)
  show "\<exists>logs g. hook_logs 1 lib_lower wasm_example (\<lambda>_ _. 1) None pointer_ctx dropped_example 0 = (Done logs, g) \<and> length logs = 1"
    using dropped_example_logs(1)
    by (cases "hook_logs 1 lib_lower wasm_example (\<lambda>_ _. 1) None pointer_ctx dropped_example 0") (auto simp: go_Done_iffs)
qed

end
