(* ===== verification/Rpc_Bloom.thy ===== *)
theory Rpc_Bloom
  imports Receipt_Props
begin

unbundle bit_operations_syntax

text \<open>
  \<open>evmrpc/bloom.go\<close>: how a query for logs asks a bloom filter whether a block or a transaction can hold a log it looks for. A filter
  criterion becomes lists of bit numbers; an array of three \<open>uint\<close> is a list of three words. Which bits \<open>CreateBloom\<close> of
  go-ethereum sets is documented behaviour of that library (\<open>bloom_law\<close>).
\<close>

section \<open>The code\<close>

definition BitMasks :: "uint8 list" where
  "BitMasks = [1, 2, 4, 8, 16, 32, 64, 128]"

type_synonym bloomIndexes = "uint64 list"

definition calcBloomIndexes :: "lib \<Rightarrow> bytes \<Rightarrow> bloomIndexes" where
  "calcBloomIndexes l b =
     (let k = Keccak256 l b in
      map (\<lambda>i. (push_bit 8 (ucast (k ! (2 * i))) AND 2047) + ucast (k ! (2 * i + 1))) [0, 1, 2])"

text \<open>The clauses of one rule; a nil clause stands for a rule that anything satisfies.\<close>

fun encode_clauses :: "lib \<Rightarrow> bytes option list \<Rightarrow> bloomIndexes list option" where
  "encode_clauses l [] = Some []"
| "encode_clauses l (None # clauses) = None"
| "encode_clauses l (Some clause # clauses) = map_option ((#) (calcBloomIndexes l clause)) (encode_clauses l clauses)"

fun encode_rules :: "lib \<Rightarrow> bytes option list list \<Rightarrow> bloomIndexes list list" where
  "encode_rules l [] = []"
| "encode_rules l (rule # filters) =
     (if length rule = 0 then encode_rules l filters
      else case encode_clauses l rule of
        None \<Rightarrow> encode_rules l filters
      | Some bloomBits \<Rightarrow> bloomBits # encode_rules l filters)"

definition EncodeFilters :: "lib \<Rightarrow> address list \<Rightarrow> hash list list \<Rightarrow> bloomIndexes list list" where
  "EncodeFilters l addresses topics =
     encode_rules l (replicate (1 + length topics) [] @ (if length addresses > 0 then [map Some addresses] else []) @ map (map Some) topics)"

fun matchBloomIndexes :: "bytes \<Rightarrow> bloomIndexes \<Rightarrow> bool go" where
  "matchBloomIndexes bloom [] = Done True"
| "matchBloomIndexes bloom (bt # idx) =
     (let i = of_nat BloomByteLength - 1 - bt div 8 in
      if unat i \<ge> length bloom then Panic ''index out of range''
      else if bloom ! unat i AND BitMasks ! unat (bt mod 8) = 0 then Done False
      else matchBloomIndexes bloom idx)"

fun matchFilter :: "bytes \<Rightarrow> bloomIndexes list \<Rightarrow> bool go" where
  "matchFilter bloom [] = Done False"
| "matchFilter bloom (possibility # rule) =
     go_bind (matchBloomIndexes bloom possibility) (\<lambda>m. if m then Done True else matchFilter bloom rule)"

fun MatchFilters :: "bytes \<Rightarrow> bloomIndexes list list \<Rightarrow> bool go" where
  "MatchFilters bloom [] = Done True"
| "MatchFilters bloom (rule # filters) =
     go_bind (matchFilter bloom rule) (\<lambda>m. if \<not> m then Done False else MatchFilters bloom filters)"

section \<open>What a bloom filter promises\<close>

text \<open>The three bits of a value: the low eleven bits of each of the first three pairs of bytes of its hash, counted from the
  end of the filter.\<close>

definition bloom_bits :: "lib \<Rightarrow> bytes \<Rightarrow> nat list" where
  "bloom_bits l v = map (\<lambda>i. (256 * unat (Keccak256 l v ! (2 * i)) + unat (Keccak256 l v ! (2 * i + 1))) mod 2048) [0, 1, 2]"

definition bloom_bit :: "bytes \<Rightarrow> nat \<Rightarrow> bool" where
  "bloom_bit b m \<longleftrightarrow> bit (b ! (BloomByteLength - 1 - m div 8)) (m mod 8)"

definition bloom_has :: "lib \<Rightarrow> bytes \<Rightarrow> bytes \<Rightarrow> bool" where
  "bloom_has l b v \<longleftrightarrow> (\<forall>m \<in> set (bloom_bits l v). bloom_bit b m)"

definition bloom_law :: "lib \<Rightarrow> eth_funs \<Rightarrow> bool" where
  "bloom_law l e \<longleftrightarrow> (\<forall>lgs. \<forall>lg \<in> set lgs. \<forall>v \<in> set (elog_Address lg # elog_Topics lg). bloom_has l (CreateBloom e lgs) v)"

section \<open>The matcher decides what it should\<close>

lemma unat_bloom_index:
  fixes a b :: byte
  shows "unat ((push_bit 8 (ucast a :: uint64) AND 2047) + ucast b) = (256 * unat a + unat b) mod 2048"
proof -
  have a: "unat a < 256" "unat b < 256" using unsigned_less [of a, where 'a = nat] unsigned_less [of b, where 'a = nat] by simp_all
  let ?w = "push_bit 8 (ucast a) :: uint64"
  have "?w AND 2047 = take_bit 11 ?w" by (simp add: take_bit_eq_mask mask_eq_exp_minus_1)
  then have "unat (?w AND 2047) = take_bit 11 (unat ?w)" by (simp only: unsigned_take_bit_eq)
  moreover have "unat ?w = 256 * unat a"
    using a by (simp add: push_bit_eq_mult unat_word_ariths unsigned_ucast_eq take_bit_nat_eq_self mult.commute)
  ultimately have w: "unat (?w AND 2047) = (256 * unat a) mod 2048" by (simp only: take_bit_eq_mod) simp
  have b: "unat (ucast b :: uint64) = unat b" using a(2) by (simp add: unsigned_ucast_eq take_bit_nat_eq_self)
  have eq: "(256 * unat a) mod 2048 + unat b = (256 * unat a + unat b) mod 2048"
    using a(2) mod_mult2_eq [of "256 * unat a" 256 8] mod_mult2_eq [of "256 * unat a + unat b" 256 8] by simp
  have "unat (?w AND 2047) + unat (ucast b :: uint64) < 2 ^ LENGTH(64)" using a(2) by (simp only: w b) simp
  then have "unat ((?w AND 2047) + ucast b) = unat (?w AND 2047) + unat (ucast b :: uint64)" by (rule unat_add_lem [THEN iffD1])
  also have "\<dots> = (256 * unat a + unat b) mod 2048" by (simp only: w b eq)
  finally show ?thesis .
qed

lemma bloom_bits_code: "map unat (calcBloomIndexes l v) = bloom_bits l v"
  by (simp add: calcBloomIndexes_def bloom_bits_def unat_bloom_index Let_def)

lemma mask_bit: "n < 8 \<Longrightarrow> (x :: byte) AND BitMasks ! n = 0 \<longleftrightarrow> \<not> bit x n"
proof -
  assume n: "n < 8"
  then have "BitMasks ! n = push_bit n 1" by (auto simp: BitMasks_def less_Suc_eq numeral_eq_Suc)
  then show ?thesis using n by (simp add: bit_iff_and_push_bit_not_eq_0)
qed

lemma matchBloomIndexes_spec:
  "length bloom = BloomByteLength \<Longrightarrow> \<forall>m \<in> set idx. unat m < 2048 \<Longrightarrow> matchBloomIndexes bloom idx = Done (\<forall>m \<in> set (map unat idx). bloom_bit bloom m)"
proof (induction idx)
  case (Cons m idx)
  have "unat m div 8 < 256" using Cons.prems(2) by auto
  then have "unat (of_nat BloomByteLength - 1 - m div 8) = BloomByteLength - 1 - unat m div 8"
    by (simp add: BloomByteLength_def unat_sub_if' unat_div)
  moreover from this have "\<not> unat (of_nat BloomByteLength - 1 - m div 8) \<ge> length bloom" using Cons.prems(1) by (simp add: BloomByteLength_def)
  moreover have "bloom ! (BloomByteLength - 1 - unat m div 8) AND BitMasks ! unat (m mod 8) = 0 \<longleftrightarrow> \<not> bloom_bit bloom (unat m)"
    by (simp add: bloom_bit_def mask_bit unat_mod)
  ultimately show ?case using Cons by (simp add: Let_def)
qed simp

lemma calc_match: "length bloom = BloomByteLength \<Longrightarrow> matchBloomIndexes bloom (calcBloomIndexes l v) = Done (bloom_has l bloom v)"
proof -
  assume len: "length bloom = BloomByteLength"
  have "\<forall>m \<in> set (map unat (calcBloomIndexes l v)). m < 2048" unfolding bloom_bits_code by (auto simp: bloom_bits_def)
  then have "\<forall>m \<in> set (calcBloomIndexes l v). unat m < 2048" by simp
  from matchBloomIndexes_spec [OF len this] show ?thesis by (simp only: bloom_bits_code bloom_has_def)
qed

lemma matchFilter_calc:
  "length bloom = BloomByteLength \<Longrightarrow> matchFilter bloom (map (calcBloomIndexes l) vs) = Done (\<exists>v \<in> set vs. bloom_has l bloom v)"
  by (induction vs) (auto simp: calc_match)

lemma encode_clauses_Some: "encode_clauses l (map Some vs) = Some (map (calcBloomIndexes l) vs)"
  by (induction vs) simp_all

lemma encode_rules_append: "encode_rules l (xs @ ys) = encode_rules l xs @ encode_rules l ys"
  by (induction xs) (auto split: option.split)

lemma encode_rules_empty: "encode_rules l (replicate n []) = []"
  by (induction n) simp_all

lemma MatchFilters_rules:
  "length bloom = BloomByteLength \<Longrightarrow>
     MatchFilters bloom (encode_rules l (map (map Some) rules)) = Done (\<forall>vs \<in> set rules. vs \<noteq> [] \<longrightarrow> (\<exists>v \<in> set vs. bloom_has l bloom v))"
  by (induction rules) (auto simp: encode_clauses_Some matchFilter_calc)

lemma MatchFilters_spec:
  assumes "length bloom = BloomByteLength"
  shows "MatchFilters bloom (EncodeFilters l addresses topics) =
    Done ((addresses \<noteq> [] \<longrightarrow> (\<exists>a \<in> set addresses. bloom_has l bloom a)) \<and>
      (\<forall>ts \<in> set topics. ts \<noteq> [] \<longrightarrow> (\<exists>t \<in> set ts. bloom_has l bloom t)))"
proof -
  have "EncodeFilters l addresses topics = encode_rules l (map (map Some) (addresses # topics))"
    by (simp add: EncodeFilters_def encode_rules_append encode_rules_empty encode_clauses_Some)
  then show ?thesis using MatchFilters_rules [OF assms, of l "addresses # topics"] by simp
qed

section \<open>Filters of receipts and of blocks\<close>

text \<open>A filter covers a receipt when it has the address and the topics of every log.\<close>

definition covers :: "lib \<Rightarrow> bytes \<Rightarrow> Receipt \<Rightarrow> bool" where
  "covers l b r \<longleftrightarrow> length b = BloomByteLength \<and>
     (\<forall>lg \<in> set (rc_Logs r). bloom_has l b (HexToAddress l (log_Address lg)) \<and> (\<forall>t \<in> set (log_Topics lg). bloom_has l b (HexToHash l t)))"

lemma covers_converted:
  assumes "hex_laws l" "eth_laws e" "bloom_law l e"
    and "\<forall>lg \<in> set lgs. length (elog_Address lg) = 20 \<and> (\<forall>t \<in> set (elog_Topics lg). length t = 32)"
    and "rc_Logs r = map (ConvertEthLog l) lgs" and "rc_LogsBloom r = CreateBloom e lgs"
  shows "covers l (rc_LogsBloom r) r"
  using assms by (auto simp: covers_def ConvertEthLog_def hex_laws_def eth_laws_def bloom_law_def)

lemma covers_WriteReceipt:
  assumes "hex_laws l" "eth_laws e" "bloom_law l e"
    and "\<forall>lg \<in> set (GetAllLogs db). length (elog_Address lg) = 20 \<and> (\<forall>t \<in> set (elog_Topics lg). length t = 32)"
    and "WriteReceipt l e c db msg typ h gas vmError = Done (r, c')"
  shows "covers l (rc_LogsBloom r) r"
proof -
  obtain p where price: "msg_GasPrice msg = Some p" using assms(5) by (cases "msg_GasPrice msg") (simp_all add: WriteReceipt_def)
  have "rc_Logs r = map (ConvertEthLog l) (GetAllLogs db)" "rc_LogsBloom r = CreateBloom e (GetAllLogs db)"
    using assms(5) price by (auto simp: WriteReceipt_def Let_def split: option.splits if_splits)
  then show ?thesis by (rule covers_converted [OF assms(1-4)])
qed

lemma covers_block:
  assumes "eth_laws e" and "\<forall>x \<in> set blooms. length x = BloomByteLength" and "kv_ok (KVStore c)"
    and "x \<in> set blooms" and "covers l x r"
  shows "\<exists>b. GetBlockBloomWithExists e (SetBlockBloom e c blooms) = Done (b, True) \<and> covers l b r"
proof -
  obtain b where b: "GetBlockBloomWithExists e (SetBlockBloom e c blooms) = Done (b, True)" "length b = BloomByteLength"
    "\<forall>i < BloomByteLength. \<forall>n. bit (b ! i) n \<longleftrightarrow> (\<exists>x \<in> set blooms. bit (x ! i) n)"
    using block_bloom [OF assms(1-3)] by blast
  have "bloom_bit b m" if "bloom_bit x m" for m
    using that b(3) assms(4) by (auto simp: bloom_bit_def BloomByteLength_def)
  then have "bloom_has l b v" if "bloom_has l x v" for v using that by (auto simp: bloom_has_def)
  then show ?thesis using b(1,2) assms(5) by (auto simp: covers_def)
qed

section \<open>A concrete filter\<close>

definition set_bloom_bit :: "nat \<Rightarrow> bytes \<Rightarrow> bytes" where
  "set_bloom_bit m b = (let i = BloomByteLength - 1 - m div 8 in b[i := b ! i OR push_bit (m mod 8) 1])"

definition bloom_of :: "lib \<Rightarrow> eth_Log list \<Rightarrow> bytes" where
  "bloom_of l lgs =
     fold set_bloom_bit (concat (map (bloom_bits l) (concat (map (\<lambda>lg. elog_Address lg # elog_Topics lg) lgs)))) (replicate BloomByteLength 0)"

definition eth_bloom :: eth_funs where
  "eth_bloom = eth_simple\<lparr>CreateBloom := bloom_of lib_lower\<rparr>"

lemma length_set_bloom_bit [simp]: "length (set_bloom_bit m b) = length b"
  by (simp add: set_bloom_bit_def Let_def)

lemma length_fold_set_bloom_bit [simp]: "length (fold set_bloom_bit ms b) = length b"
  by (induction ms arbitrary: b) simp_all

lemma set_bloom_bit_mono: "bloom_bit b n \<Longrightarrow> length b = BloomByteLength \<Longrightarrow> bloom_bit (set_bloom_bit m b) n"
  by (simp add: bloom_bit_def set_bloom_bit_def nth_list_update bit_or_iff BloomByteLength_def Let_def)

lemma set_bloom_bit_sets: "length b = BloomByteLength \<Longrightarrow> bloom_bit (set_bloom_bit m b) m"
  by (simp add: bloom_bit_def set_bloom_bit_def bit_or_iff bit_exp_iff BloomByteLength_def Let_def)

lemma fold_set_bloom_bit:
  "length b = BloomByteLength \<Longrightarrow> m \<in> set ms \<or> bloom_bit b m \<Longrightarrow> bloom_bit (fold set_bloom_bit ms b) m"
  by (induction ms arbitrary: b) (auto simp: set_bloom_bit_mono set_bloom_bit_sets)

lemma eth_bloom_laws [simp]: "eth_laws eth_bloom" "bloom_law lib_lower eth_bloom"
proof -
  show "eth_laws eth_bloom" using eth_simple_laws by (simp add: eth_laws_def eth_bloom_def bloom_of_def)
  show "bloom_law lib_lower eth_bloom"
    unfolding bloom_law_def bloom_has_def
  proof (intro ballI allI)
    fix lgs :: "eth_Log list" and lg v m assume "lg \<in> set lgs" "v \<in> set (elog_Address lg # elog_Topics lg)" "m \<in> set (bloom_bits lib_lower v)"
    then have "m \<in> set (concat (map (bloom_bits lib_lower) (concat (map (\<lambda>lg. elog_Address lg # elog_Topics lg) lgs))))" by auto
    then show "bloom_bit (CreateBloom eth_bloom lgs) m"
      unfolding eth_bloom_def bloom_of_def by (simp add: fold_set_bloom_bit)
  qed
qed

end
