(* ===== verification/Go_Heap.thy ===== *)
theory Go_Heap
  imports Main "HOL-Library.Multiset"
begin

text \<open>
  \<open>container/heap\<close> of the Go library as the code uses it: a slice with the operations \<open>Push\<close> and \<open>Pop\<close> over a comparison. The
  loops \<open>heap_up\<close> and \<open>heap_down\<close> are those of the library. The locale \<open>heap_order\<close> is what the interface asks of \<open>Less\<close>; in it a pushed
  slice stays a heap and \<open>Pop\<close> takes a least element out.
\<close>

section \<open>The operations\<close>

definition heap_swap :: "'a list \<Rightarrow> nat \<Rightarrow> nat \<Rightarrow> 'a list" where
  "heap_swap h i j = h[i := h ! j, j := h ! i]"

fun heap_up :: "('a \<Rightarrow> 'a \<Rightarrow> bool) \<Rightarrow> 'a list \<Rightarrow> nat \<Rightarrow> 'a list" where
  "heap_up lt h j =
     (let i = (j - 1) div 2 in
      if i = j \<or> \<not> lt (h ! j) (h ! i) then h else heap_up lt (heap_swap h i j) i)"

declare heap_up.simps [simp del]

definition small_child :: "('a \<Rightarrow> 'a \<Rightarrow> bool) \<Rightarrow> 'a list \<Rightarrow> nat \<Rightarrow> nat \<Rightarrow> nat" where
  "small_child lt h i n =
     (let j1 = 2 * i + 1; j2 = j1 + 1 in if j2 < n \<and> lt (h ! j2) (h ! j1) then j2 else j1)"

lemma small_child_cases: "small_child lt h i n = 2 * i + 1 \<or> small_child lt h i n = 2 * i + 2 \<and> 2 * i + 2 < n"
  by (simp add: small_child_def Let_def)

lemma small_child_bounds [simp]:
  "i < small_child lt h i n" "2 * i + 1 < n \<Longrightarrow> small_child lt h i n < n" "(small_child lt h i n - Suc 0) div 2 = i"
  using small_child_cases [of lt h i n] by auto

function heap_down :: "('a \<Rightarrow> 'a \<Rightarrow> bool) \<Rightarrow> 'a list \<Rightarrow> nat \<Rightarrow> nat \<Rightarrow> 'a list" where
  "heap_down lt h i n =
     (if 2 * i + 1 \<ge> n then h
      else
        let j = small_child lt h i n in
        if \<not> lt (h ! j) (h ! i) then h else heap_down lt (heap_swap h i j) j n)"
  by pat_completeness auto

termination
  by (relation "measure (\<lambda>(lt, h, i, n). n - i)") (auto simp: diff_less_mono2)

declare heap_down.simps [simp del]

definition heap_Push :: "('a \<Rightarrow> 'a \<Rightarrow> bool) \<Rightarrow> 'a list \<Rightarrow> 'a \<Rightarrow> 'a list" where
  "heap_Push lt h x = heap_up lt (h @ [x]) (length h)"

text \<open>The result of \<open>Pop\<close> on a slice that is not empty: the element, and the slice without it.\<close>

definition heap_Pop :: "('a \<Rightarrow> 'a \<Rightarrow> bool) \<Rightarrow> 'a list \<Rightarrow> 'a \<times> 'a list" where
  "heap_Pop lt h =
     (let n = length h - 1; h1 = heap_down lt (heap_swap h 0 n) 0 n in (last h1, butlast h1))"

section \<open>The elements stay\<close>

lemma length_heap_swap [simp]: "length (heap_swap h i j) = length h"
  by (simp add: heap_swap_def)

lemma mset_heap_swap [simp]: "i < length h \<Longrightarrow> j < length h \<Longrightarrow> mset (heap_swap h i j) = mset h"
  by (simp add: heap_swap_def mset_swap)

lemma nth_heap_swap:
  "i < length h \<Longrightarrow> j < length h \<Longrightarrow> k < length h \<Longrightarrow> heap_swap h i j ! k = (if k = j then h ! i else if k = i then h ! j else h ! k)"
  by (simp add: heap_swap_def nth_list_update)

lemma mset_heap_up: "j < length h \<Longrightarrow> mset (heap_up lt h j) = mset h"
proof (induction lt h j rule: heap_up.induct)
  case (1 lt h j)
  have "(j - 1) div 2 < length h" using "1.prems" by linarith
  then show ?case using 1 by (subst heap_up.simps) (simp add: Let_def)
qed

lemma mset_heap_down: "n \<le> length h \<Longrightarrow> mset (heap_down lt h i n) = mset h"
proof (induction lt h i n rule: heap_down.induct)
  case (1 lt h i n)
  show ?case
  proof (cases "2 * i + 1 \<ge> n")
    case True
    then show ?thesis by (subst heap_down.simps) simp
  next
    case False
    then have "i < length h" "small_child lt h i n < length h"
      using "1.prems" small_child_bounds(2) [of i n lt h] by linarith+
    then show ?thesis using False 1 by (subst heap_down.simps) (auto simp: Let_def)
  qed
qed

lemma mset_heap_Push [simp]: "mset (heap_Push lt h x) = add_mset x (mset h)"
  by (simp add: heap_Push_def mset_heap_up)

lemma heap_down_keeps: "i < n \<Longrightarrow> n \<le> k \<Longrightarrow> k < length h \<Longrightarrow> heap_down lt h i n ! k = h ! k"
proof (induction lt h i n rule: heap_down.induct)
  case (1 lt h i n)
  show ?case
  proof (cases "2 * i + 1 \<ge> n \<or> \<not> lt (h ! small_child lt h i n) (h ! i)")
    case True
    then show ?thesis by (subst heap_down.simps) (auto simp: Let_def)
  next
    case False
    then have j: "small_child lt h i n < n" by simp
    then have "heap_swap h i (small_child lt h i n) ! k = h ! k" using "1.prems" by (subst nth_heap_swap) auto
    then show ?thesis using False j 1 by (subst heap_down.simps) (simp add: Let_def)
  qed
qed

lemma heap_Pop_mset:
  assumes "h \<noteq> []" and "heap_Pop lt h = (x, h')"
  shows "mset h = add_mset x (mset h')" and "length h = Suc (length h')"
proof -
  let ?h1 = "heap_down lt (heap_swap h 0 (length h - 1)) 0 (length h - 1)"
  have m: "mset ?h1 = mset h" using assms(1) by (simp add: mset_heap_down)
  then have ne: "?h1 \<noteq> []" using assms(1) by auto
  then have "mset ?h1 = add_mset (last ?h1) (mset (butlast ?h1))"
    by (metis append_butlast_last_id mset_append mset.simps add_mset_add_single)
  with m assms(2) show "mset h = add_mset x (mset h')" by (simp add: heap_Pop_def Let_def)
  then show "length h = Suc (length h')" by (metis size_add_mset size_mset)
qed

section \<open>The order\<close>

definition is_heap_upto :: "('a \<Rightarrow> 'a \<Rightarrow> bool) \<Rightarrow> 'a list \<Rightarrow> nat \<Rightarrow> bool" where
  "is_heap_upto lt h n \<longleftrightarrow> (\<forall>k < n. k > 0 \<longrightarrow> \<not> lt (h ! k) (h ! ((k - 1) div 2)))"

definition is_heap :: "('a \<Rightarrow> 'a \<Rightarrow> bool) \<Rightarrow> 'a list \<Rightarrow> bool" where
  "is_heap lt h \<longleftrightarrow> is_heap_upto lt h (length h)"

text \<open>A heap but for position \<open>j\<close> and its parent, and but for position \<open>i\<close> and its children. The second conjunct says that the
  neighbours of the position fit each other.\<close>

definition up_hole :: "('a \<Rightarrow> 'a \<Rightarrow> bool) \<Rightarrow> 'a list \<Rightarrow> nat \<Rightarrow> bool" where
  "up_hole lt h j \<longleftrightarrow> (\<forall>k < length h. k > 0 \<and> k \<noteq> j \<longrightarrow> \<not> lt (h ! k) (h ! ((k - 1) div 2))) \<and>
     (\<forall>k < length h. k > 0 \<and> j > 0 \<and> (k - 1) div 2 = j \<longrightarrow> \<not> lt (h ! k) (h ! ((j - 1) div 2)))"

definition down_hole :: "('a \<Rightarrow> 'a \<Rightarrow> bool) \<Rightarrow> 'a list \<Rightarrow> nat \<Rightarrow> nat \<Rightarrow> bool" where
  "down_hole lt h i n \<longleftrightarrow> (\<forall>k < n. k > 0 \<and> (k - 1) div 2 \<noteq> i \<longrightarrow> \<not> lt (h ! k) (h ! ((k - 1) div 2))) \<and>
     (\<forall>k < n. k > 0 \<and> i > 0 \<and> (k - 1) div 2 = i \<longrightarrow> \<not> lt (h ! k) (h ! ((i - 1) div 2)))"

text \<open>What the library asks of \<open>Less\<close>: a strict weak order.\<close>

locale heap_order =
  fixes lt :: "'a \<Rightarrow> 'a \<Rightarrow> bool"
  assumes less_asym: "lt x y \<Longrightarrow> \<not> lt y x"
    and not_less_trans: "\<not> lt y x \<Longrightarrow> \<not> lt z y \<Longrightarrow> \<not> lt z x"
begin

lemma not_less_refl [simp]: "\<not> lt x x"
  using less_asym by blast

lemma less_not_less: "lt x y \<Longrightarrow> \<not> lt z y \<Longrightarrow> \<not> lt z x"
  using less_asym not_less_trans by blast

lemma heap_up_is_heap: "j < length h \<Longrightarrow> up_hole lt h j \<Longrightarrow> is_heap lt (heap_up lt h j)"
proof (induction j arbitrary: h rule: less_induct)
  case (less j)
  let ?i = "(j - 1) div 2"
  show ?case
  proof (cases "?i = j \<or> \<not> lt (h ! j) (h ! ?i)")
    case True
    then have "heap_up lt h j = h" by (subst heap_up.simps) (simp add: Let_def)
    moreover have "j = 0 \<or> \<not> lt (h ! j) (h ! ?i)" using True by auto
    ultimately show ?thesis using less.prems by (auto simp: is_heap_def is_heap_upto_def up_hole_def)
  next
    case False
    then have i: "?i < j" by linarith
    have up: "heap_up lt h j = heap_up lt (heap_swap h ?i j) ?i"
      using False by (subst heap_up.simps) (simp add: Let_def)
    have lt: "lt (h ! j) (h ! ?i)" using False by simp
    have "up_hole lt (heap_swap h ?i j) ?i"
      unfolding up_hole_def
    proof (intro conjI allI impI)
      fix k assume k: "k < length (heap_swap h ?i j)" "0 < k \<and> k \<noteq> ?i"
      show "\<not> lt (heap_swap h ?i j ! k) (heap_swap h ?i j ! ((k - 1) div 2))"
      proof (cases "k = j")
        case True
        then show ?thesis using lt less.prems(1) i less_asym by (simp add: nth_heap_swap)
      next
        case kj: False
        have ok: "\<not> lt (h ! k) (h ! ((k - 1) div 2))" using k kj less.prems(2) by (simp add: up_hole_def)
        have child: "(k - 1) div 2 = j \<Longrightarrow> \<not> lt (h ! k) (h ! ?i)" using k kj i less.prems(2) by (simp add: up_hole_def)
        have sib: "(k - 1) div 2 = ?i \<Longrightarrow> \<not> lt (h ! k) (h ! j)" using ok lt less_not_less by metis
        have "(k - 1) div 2 < length h" using k by (simp del: length_heap_swap) (simp add: less_imp_diff_less)
        then show ?thesis using k kj i less.prems(1) ok child sib by (simp add: nth_heap_swap)
      qed
    next
      fix k assume k: "k < length (heap_swap h ?i j)" "0 < k \<and> 0 < ?i \<and> (k - 1) div 2 = ?i"
      have p: "(?i - 1) div 2 < ?i" using k by linarith
      have ne: "k \<noteq> ?i" using k by linarith
      have iok: "\<not> lt (h ! ?i) (h ! ((?i - 1) div 2))" using k i less.prems by (simp add: up_hole_def)
      have "k \<noteq> j \<Longrightarrow> \<not> lt (h ! k) (h ! ?i)" using k less.prems(2) unfolding up_hole_def by (metis length_heap_swap)
      then have "k \<noteq> j \<Longrightarrow> \<not> lt (h ! k) (h ! ((?i - 1) div 2))" using iok not_less_trans by blast
      then show "\<not> lt (heap_swap h ?i j ! k) (heap_swap h ?i j ! ((?i - 1) div 2))"
        using k ne p i less.prems(1) iok by (simp add: nth_heap_swap)
    qed
    then show ?thesis using less.IH [OF i, of "heap_swap h ?i j"] less.prems(1) i up by simp
  qed
qed

lemma heap_Push_is_heap: "is_heap lt h \<Longrightarrow> is_heap lt (heap_Push lt h x)"
  unfolding heap_Push_def
proof (rule heap_up_is_heap)
  assume h: "is_heap lt h"
  show "up_hole lt (h @ [x]) (length h)"
    unfolding up_hole_def
  proof (intro conjI allI impI)
    fix k assume k: "k < length (h @ [x])" "0 < k \<and> k \<noteq> length h"
    then have "(k - 1) div 2 < length h" by simp linarith
    then show "\<not> lt ((h @ [x]) ! k) ((h @ [x]) ! ((k - 1) div 2))"
      using k h by (simp add: nth_append is_heap_def is_heap_upto_def)
  next
    fix k assume k: "k < length (h @ [x])" "0 < k \<and> 0 < length h \<and> (k - 1) div 2 = length h"
    then show "\<not> lt ((h @ [x]) ! k) ((h @ [x]) ! ((length h - 1) div 2))" by simp linarith
  qed
qed simp

lemma heap_down_is_heap: "n \<le> length h \<Longrightarrow> down_hole lt h i n \<Longrightarrow> is_heap_upto lt (heap_down lt h i n) n"
proof (induction "n - i" arbitrary: h i rule: less_induct)
  case less
  let ?j = "small_child lt h i n"
  have kids: "(k - 1) div 2 = i \<longleftrightarrow> k = 2 * i + 1 \<or> k = 2 * i + 2" if "k > 0" for k using that by presburger
  show ?case
  proof (cases "2 * i + 1 \<ge> n")
    case True
    then have "heap_down lt h i n = h" by (subst heap_down.simps) (simp add: Let_def)
    moreover have "(k - 1) div 2 \<noteq> i" if "k < n" "k > 0" for k using that True kids [of k] by auto
    ultimately show ?thesis using less.prems by (auto simp: is_heap_upto_def down_hole_def)
  next
    case False
    have j: "?j < n" "i < ?j" "(?j - 1) div 2 = i" using False by auto
    have least: "\<not> lt (h ! k) (h ! ?j)" if "k < n" "k > 0" "(k - 1) div 2 = i" for k
      using that kids [of k] less_asym by (auto simp: small_child_def Let_def)
    show ?thesis
    proof (cases "lt (h ! ?j) (h ! i)")
      case lt: False
      then have "heap_down lt h i n = h" using False by (subst heap_down.simps) (simp add: Let_def)
      moreover have "\<not> lt (h ! k) (h ! i)" if "k < n" "k > 0" "(k - 1) div 2 = i" for k
        using least [OF that] lt not_less_trans by blast
      ultimately show ?thesis using less.prems by (auto simp: is_heap_upto_def down_hole_def)
    next
      case lt: True
      let ?h = "heap_swap h i ?j"
      have down: "heap_down lt h i n = heap_down lt ?h ?j n"
        using False lt by (subst heap_down.simps) (simp add: Let_def)
      have at: "?h ! k = (if k = ?j then h ! i else if k = i then h ! ?j else h ! k)" if "k < n" for k
      proof -
        have "i < length h" "?j < length h" "k < length h" using that j less.prems(1) by linarith+
        then show ?thesis by (rule nth_heap_swap)
      qed
      have "down_hole lt ?h ?j n"
        unfolding down_hole_def
      proof (intro conjI allI impI)
        fix k assume k: "k < n" "0 < k \<and> (k - 1) div 2 \<noteq> ?j"
        have pk: "(k - 1) div 2 < n" "(k - 1) div 2 < k" using k by linarith+
        show "\<not> lt (?h ! k) (?h ! ((k - 1) div 2))"
        proof (cases "(k - 1) div 2 = i")
          case True
          have "k \<noteq> i" using True k by linarith
          then show ?thesis using True k least [of k] lt less_asym j(2) at [OF k(1)] at [of i] j(1) by auto
        next
          case out: False
          then have "k \<noteq> ?j" using j(3) by metis
          moreover have "k = i \<Longrightarrow> \<not> lt (h ! ?j) (h ! ((i - 1) div 2))"
            using less.prems(2) j k unfolding down_hole_def by (metis gr_zeroI not_less_zero)
          moreover have "\<not> lt (h ! k) (h ! ((k - 1) div 2))" using out k less.prems(2) by (simp add: down_hole_def)
          ultimately show ?thesis using k out pk at [OF k(1)] at [OF pk(1)] by auto
        qed
      next
        fix k assume k: "k < n" "0 < k \<and> 0 < ?j \<and> (k - 1) div 2 = ?j"
        have kj: "k > ?j" using k by linarith
        have "\<not> lt (h ! k) (h ! ((k - 1) div 2))" using k j(2) less.prems(2) unfolding down_hole_def by (metis less_irrefl)
        then show "\<not> lt (?h ! k) (?h ! ((?j - 1) div 2))"
          using k kj j at [OF k(1)] at [of i] by (simp only: j(3)) auto
      qed
      then show ?thesis using less.hyps [of ?j ?h] less.prems(1) j down by (simp add: diff_less_mono2)
    qed
  qed
qed

lemma heap_root_least: "is_heap_upto lt h n \<Longrightarrow> k < n \<Longrightarrow> \<not> lt (h ! k) (h ! 0)"
proof (induction k rule: less_induct)
  case (less k)
  show ?case
  proof (cases "k = 0")
    case False
    then have "(k - 1) div 2 < k" by linarith
    then have "\<not> lt (h ! ((k - 1) div 2)) (h ! 0)" using less by auto
    moreover have "\<not> lt (h ! k) (h ! ((k - 1) div 2))" using less.prems False by (simp add: is_heap_upto_def)
    ultimately show ?thesis using not_less_trans by blast
  qed simp
qed

lemma heap_Pop_spec:
  assumes h: "is_heap lt h" "h \<noteq> []" and pop: "heap_Pop lt h = (x, h')"
  shows "is_heap lt h'" and "\<forall>y \<in> set h. \<not> lt y x"
proof -
  let ?n = "length h - 1"
  let ?s = "heap_swap h 0 ?n"
  let ?h1 = "heap_down lt ?s 0 ?n"
  have len: "length ?h1 = length h" using h(2) by (metis mset_heap_down length_heap_swap diff_le_self mset_eq_length)
  have "down_hole lt ?s 0 ?n"
    using h unfolding down_hole_def is_heap_def is_heap_upto_def
    by (auto simp: nth_heap_swap)
  then have "is_heap_upto lt ?h1 ?n" using heap_down_is_heap [of ?n ?s 0] by simp
  then show "is_heap lt h'" using pop len
    by (auto simp: heap_Pop_def Let_def is_heap_def is_heap_upto_def nth_butlast)
  have "last ?h1 = ?h1 ! ?n" using len h(2) by (metis last_conv_nth length_0_conv)
  also have "\<dots> = h ! 0"
  proof (cases "?n = 0")
    case True
    then show ?thesis using h(2) by (subst heap_down.simps) (simp add: nth_heap_swap)
  next
    case False
    then show ?thesis using h(2) by (simp add: heap_down_keeps nth_heap_swap)
  qed
  finally have "x = h ! 0" using pop by (simp add: heap_Pop_def Let_def)
  then show "\<forall>y \<in> set h. \<not> lt y x" using heap_root_least h(1) by (auto simp: is_heap_def in_set_conv_nth)
qed

end

end
