(* ===== verification/Rpc_Merge.thy ===== *)
theory Rpc_Merge
  imports Go_Heap Evm_Log
begin

text \<open>
  The merge of \<open>evmrpc/filter.go\<close>: every worker sorts the logs it has found, and \<open>mergeSortedLogs\<close> joins their slices with a
  heap that holds the next log of every slice. A log of a query also has the hash of its block, so \<open>rpc_Log\<close> extends \<open>eth_Log\<close>. The
  comparison interprets the locale \<open>heap_order\<close>; the merge is shown to give all logs in the order of block and index.
\<close>

section \<open>The code\<close>

record rpc_Log = eth_Log +
  elog_BlockHash :: hash

record kWayMergeItem =
  mi_log :: rpc_Log
  mi_batchIdx :: nat
  mi_itemIdx :: nat

definition logMergeHeap_Less :: "kWayMergeItem \<Rightarrow> kWayMergeItem \<Rightarrow> bool" where
  "logMergeHeap_Less x y =
     (if elog_BlockNumber (mi_log x) \<noteq> elog_BlockNumber (mi_log y) then elog_BlockNumber (mi_log x) < elog_BlockNumber (mi_log y)
      else elog_Index (mi_log x) < elog_Index (mi_log y))"

fun merge_init :: "nat \<Rightarrow> rpc_Log list list \<Rightarrow> kWayMergeItem list \<Rightarrow> kWayMergeItem list" where
  "merge_init i [] h = h"
| "merge_init i (batch # batches) h =
     merge_init (Suc i) batches
       (if length batch > 0 then heap_Push logMergeHeap_Less h \<lparr>mi_log = batch ! 0, mi_batchIdx = i, mi_itemIdx = 0\<rparr> else h)"

definition merge_next :: "rpc_Log list list \<Rightarrow> kWayMergeItem \<Rightarrow> kWayMergeItem list \<Rightarrow> kWayMergeItem list" where
  "merge_next batches item h =
     (let nextItemIdx = mi_itemIdx item + 1 in
      if nextItemIdx < length (batches ! mi_batchIdx item)
      then heap_Push logMergeHeap_Less h \<lparr>mi_log = batches ! mi_batchIdx item ! nextItemIdx, mi_batchIdx = mi_batchIdx item, mi_itemIdx = nextItemIdx\<rparr>
      else h)"

definition merge_size :: "rpc_Log list list \<Rightarrow> kWayMergeItem \<Rightarrow> nat" where
  "merge_size batches item = Suc (length (batches ! mi_batchIdx item) - mi_itemIdx item)"

function merge_loop :: "rpc_Log list list \<Rightarrow> kWayMergeItem list \<Rightarrow> rpc_Log list \<Rightarrow> rpc_Log list" where
  "merge_loop batches h res =
     (if h = [] then res
      else
        let (item, h1) = heap_Pop logMergeHeap_Less h in
        merge_loop batches (merge_next batches item h1) (res @ [mi_log item]))"
  by pat_completeness auto

termination
proof (relation "measure (\<lambda>(batches, h, res). sum_mset (image_mset (merge_size batches) (mset h)))", goal_cases)
  case (2 batches h res p item h1)
  then have "mset h = add_mset item (mset h1)" using heap_Pop_mset(1) [of h logMergeHeap_Less item h1] by simp
  then show ?case by (auto simp: merge_next_def merge_size_def Let_def)
qed simp

declare merge_loop.simps [simp del]

definition mergeSortedLogs :: "rpc_Log list list \<Rightarrow> rpc_Log list" where
  "mergeSortedLogs batches =
     (if sum_list (map length batches) = 0 then [] else merge_loop batches (merge_init 0 batches []) [])"

section \<open>The order of logs\<close>

definition log_key :: "('a) eth_Log_scheme \<Rightarrow> nat" where
  "log_key lg = unat (elog_BlockNumber lg) * 2 ^ 64 + unat (elog_Index lg)"

lemma log_key_less:
  "log_key x < log_key y \<longleftrightarrow>
     (if elog_BlockNumber x \<noteq> elog_BlockNumber y then elog_BlockNumber x < elog_BlockNumber y else elog_Index x < elog_Index y)"
proof -
  have lex: "a * n + i < b * n + j \<longleftrightarrow> a < b \<or> a = b \<and> i < j" if "i < n" "j < n" for a b i j n :: nat
  proof (cases a b rule: linorder_cases)
    case less
    then have "Suc a * n \<le> b * n" by (intro mult_le_mono1) simp
    then have "a * n + i < b * n + j" using that by simp
    with less show ?thesis by simp
  next
    case greater
    then have "Suc b * n \<le> a * n" by (intro mult_le_mono1) simp
    then have "\<not> a * n + i < b * n + j" using that by simp
    with greater show ?thesis by simp
  qed simp
  have "unat (elog_Index x) < 2 ^ 64" "unat (elog_Index y) < 2 ^ 64"
    using unsigned_less [of "elog_Index x", where 'a = nat] unsigned_less [of "elog_Index y", where 'a = nat] by simp_all
  from lex [OF this] show ?thesis by (auto simp: log_key_def word_less_nat_alt word_unat_eq_iff)
qed

lemma Less_key: "logMergeHeap_Less x y \<longleftrightarrow> log_key (mi_log x) < log_key (mi_log y)"
  by (simp add: logMergeHeap_Less_def log_key_less)

interpretation mh: heap_order logMergeHeap_Less
  by unfold_locales (simp_all add: Less_key)

section \<open>The merge\<close>

definition item_ok :: "rpc_Log list list \<Rightarrow> kWayMergeItem \<Rightarrow> bool" where
  "item_ok batches item \<longleftrightarrow> mi_itemIdx item < length (batches ! mi_batchIdx item) \<and> mi_log item = batches ! mi_batchIdx item ! mi_itemIdx item"

definition item_rest :: "rpc_Log list list \<Rightarrow> kWayMergeItem \<Rightarrow> rpc_Log list" where
  "item_rest batches item = drop (mi_itemIdx item) (batches ! mi_batchIdx item)"

definition rest :: "rpc_Log list list \<Rightarrow> kWayMergeItem list \<Rightarrow> rpc_Log multiset" where
  "rest batches h = sum_mset (image_mset (\<lambda>item. mset (item_rest batches item)) (mset h))"

definition items_ok :: "rpc_Log list list \<Rightarrow> kWayMergeItem list \<Rightarrow> bool" where
  "items_ok batches h \<longleftrightarrow> is_heap logMergeHeap_Less h \<and> (\<forall>item \<in> set h. item_ok batches item \<and> sorted (map log_key (item_rest batches item)))"

lemma rest_Push: "rest batches (heap_Push lt h x) = mset (item_rest batches x) + rest batches h"
  by (simp add: rest_def)

lemma set_heap_Push: "set (heap_Push lt h x) = insert x (set h)"
  by (metis mset_heap_Push set_mset_mset set_mset_add_mset_insert)

lemma items_ok_Push:
  "items_ok batches h \<Longrightarrow> item_ok batches x \<Longrightarrow> sorted (map log_key (item_rest batches x)) \<Longrightarrow> items_ok batches (heap_Push logMergeHeap_Less h x)"
  by (simp add: items_ok_def mh.heap_Push_is_heap set_heap_Push)

lemma item_rest_Cons:
  assumes "item_ok batches item"
  shows "item_rest batches item = mi_log item # drop (Suc (mi_itemIdx item)) (batches ! mi_batchIdx item)"
  using assms by (simp add: item_ok_def item_rest_def Cons_nth_drop_Suc)

lemma merge_next_ok:
  assumes "items_ok batches h" and "item_ok batches item" and "sorted (map log_key (item_rest batches item))"
  shows "items_ok batches (merge_next batches item h)"
    and "add_mset (mi_log item) (rest batches (merge_next batches item h)) = mset (item_rest batches item) + rest batches h"
proof -
  let ?i = "Suc (mi_itemIdx item)"
  let ?x = "\<lparr>mi_log = batches ! mi_batchIdx item ! ?i, mi_batchIdx = mi_batchIdx item, mi_itemIdx = ?i\<rparr>"
  have x: "item_rest batches item = mi_log item # item_rest batches ?x"
    using item_rest_Cons [OF assms(2)] by (simp add: item_rest_def)
  then have srt: "sorted (map log_key (item_rest batches ?x))" using assms(3) by simp
  then show "items_ok batches (merge_next batches item h)"
    using assms(1) items_ok_Push [of batches h ?x] by (simp add: merge_next_def item_ok_def Let_def)
  show "add_mset (mi_log item) (rest batches (merge_next batches item h)) = mset (item_rest batches item) + rest batches h"
    by (simp only: x) (simp add: merge_next_def rest_Push Let_def item_rest_def)
qed

lemma heap_min:
  assumes "items_ok batches h" and "item \<in> set h" and "\<forall>y \<in> set h. \<not> logMergeHeap_Less y item" and "lg \<in># rest batches h"
  shows "log_key (mi_log item) \<le> log_key lg"
proof -
  obtain y where y: "y \<in> set h" "lg \<in> set (item_rest batches y)" using assms(4) by (auto simp: rest_def)
  then have "item_ok batches y" "sorted (map log_key (item_rest batches y))" using assms(1) by (auto simp: items_ok_def)
  then have "log_key (mi_log y) \<le> log_key lg" using y(2) by (auto simp: item_rest_Cons)
  moreover have "log_key (mi_log item) \<le> log_key (mi_log y)" using assms(3) y(1) by (auto simp: Less_key not_less)
  ultimately show ?thesis by simp
qed

lemma merge_loop_spec:
  assumes "items_ok batches h" and "sorted (map log_key res)" and "\<forall>x \<in> set res. \<forall>y \<in># rest batches h. log_key x \<le> log_key y"
  shows "mset (merge_loop batches h res) = mset res + rest batches h \<and> sorted (map log_key (merge_loop batches h res))"
  using assms
proof (induction batches h res rule: merge_loop.induct)
  case (1 batches h res)
  show ?case
  proof (cases "h = []")
    case True
    then show ?thesis using "1.prems" by (subst (1 2) merge_loop.simps) (simp add: rest_def)
  next
    case False
    obtain item h1 where pop: "heap_Pop logMergeHeap_Less h = (item, h1)" by fastforce
    have h: "is_heap logMergeHeap_Less h" using "1.prems"(1) by (simp add: items_ok_def)
    have m: "mset h = add_mset item (mset h1)" by (rule heap_Pop_mset(1) [OF False pop])
    then have "set h = insert item (set h1)" by (metis set_mset_mset set_mset_add_mset_insert)
    then have ok: "items_ok batches h1" "item_ok batches item" "sorted (map log_key (item_rest batches item))" "item \<in> set h"
      using "1.prems"(1) mh.heap_Pop_spec(1) [OF h False pop] by (simp_all add: items_ok_def)
    note next_ok = merge_next_ok [OF ok(1-3)]
    have r: "rest batches h = add_mset (mi_log item) (rest batches (merge_next batches item h1))"
      using next_ok(2) m by (simp add: rest_def)
    have least: "\<forall>y \<in># rest batches h. log_key (mi_log item) \<le> log_key y"
      using heap_min [OF "1.prems"(1) ok(4) mh.heap_Pop_spec(2) [OF h False pop]] by blast
    have "sorted (map log_key (res @ [mi_log item]))" using "1.prems"(2,3) r by (simp add: sorted_append)
    moreover have "\<forall>x \<in> set (res @ [mi_log item]). \<forall>y \<in># rest batches (merge_next batches item h1). log_key x \<le> log_key y"
      using "1.prems"(3) least r by auto
    ultimately have "mset (merge_loop batches (merge_next batches item h1) (res @ [mi_log item])) =
        mset (res @ [mi_log item]) + rest batches (merge_next batches item h1) \<and>
      sorted (map log_key (merge_loop batches (merge_next batches item h1) (res @ [mi_log item])))"
      using "1.IH" [OF False pop [symmetric] refl next_ok(1)] by blast
    then show ?thesis using False pop r by (subst (1 2) merge_loop.simps) simp
  qed
qed

lemma merge_init_spec:
  assumes "items_ok batches h" and "\<forall>b \<in> set bs. sorted (map log_key b)" and "drop i batches = bs"
  shows "items_ok batches (merge_init i bs h) \<and> rest batches (merge_init i bs h) = rest batches h + mset (concat bs)"
  using assms
proof (induction i bs h rule: merge_init.induct)
  case (2 i b bs h)
  have i: "batches ! i = b" "drop (Suc i) batches = bs"
    using "2.prems"(3) by (simp_all add: nth_via_drop drop_Suc tl_drop [symmetric])
  let ?x = "\<lparr>mi_log = b ! 0, mi_batchIdx = i, mi_itemIdx = 0\<rparr>"
  let ?h = "if length b > 0 then heap_Push logMergeHeap_Less h ?x else h"
  have x: "item_rest batches ?x = b" using i by (simp add: item_rest_def)
  have "items_ok batches ?h"
    using "2.prems"(1,2) items_ok_Push [of batches h ?x] i(1) x by (simp add: item_ok_def)
  moreover have "rest batches ?h = mset b + rest batches h" using x by (simp add: rest_Push)
  ultimately show ?case using "2.IH" "2.prems"(2) i(2) by simp
qed simp

text \<open>The merge of sorted slices is sorted and holds exactly their logs.\<close>

lemma mergeSortedLogs_spec:
  assumes "\<forall>b \<in> set batches. sorted (map log_key b)"
  shows "mset (mergeSortedLogs batches) = mset (concat batches)" and "sorted (map log_key (mergeSortedLogs batches))"
proof -
  have "items_ok batches []" "rest batches [] = {#}" by (simp_all add: items_ok_def is_heap_def is_heap_upto_def rest_def)
  then have "items_ok batches (merge_init 0 batches [])" "rest batches (merge_init 0 batches []) = mset (concat batches)"
    using merge_init_spec [of batches "[]" batches 0] assms by simp_all
  then have "mset (merge_loop batches (merge_init 0 batches []) []) = mset (concat batches) \<and> sorted (map log_key (merge_loop batches (merge_init 0 batches []) []))"
    using merge_loop_spec [of batches "merge_init 0 batches []" "[]"] by simp
  then show "mset (mergeSortedLogs batches) = mset (concat batches)" "sorted (map log_key (mergeSortedLogs batches))"
    by (simp_all add: mergeSortedLogs_def)
qed

end
