(* ===== verification/Spec2Isabelle.thy ===== *)
theory Spec2Isabelle
  imports EthTx_Props Utils_Collections Utils_Priority Helpers_Address Pointer_Props StateDB_Deleted StateDB_Types
    Receipt_Props Block_Props App_Optimistic App_Invariance App_Receipt Rpc_Bloom Rpc_Merge
begin

text \<open>
  A verification of the EVM side of tabi-v3, a Cosmos chain that runs Ethereum transactions.

  \<^bold>\<open>The program.\<close> A transaction of the chain carries either messages of Cosmos modules or one
  \<open>MsgEVMTransaction\<close>, whose data is one of the transaction kinds of \<open>x/evm/types/ethtx\<close>. The keeper
  (\<open>x/evm/keeper\<close>) turns it into a go-ethereum message and runs it on a state database
  (\<open>x/evm/state\<close>), which stands between the EVM and the stores of the chain: every snapshot of the EVM is a
  branch of the multi store, balances live in the bank module in two denominations, and associations tie an
  Ethereum address to a Cosmos address. After the run the database is finalised, a receipt and a deferred
  info go to the transient store, and at the end of the block \<open>EndBlock\<close> of \<open>x/evm/module.go\<close> settles
  the surpluses, adjusts the base fee, and writes the bloom filter and the receipts. Pointer contracts
  mirror tokens of one side on the other; their registry is part of the keeper. Before a transaction runs, the ante handlers
  (\<open>x/evm/ante\<close>) check its signature, nonce and fees and buy its gas. Above all this the application (\<open>app\<close>) admits
  proposals by their gas, may process one in the background before it is decided, delivers the transactions of a block in two parts, adds
  translated contract events to receipts and checks the supply after every block.

  \<^bold>\<open>Method.\<close> The model is a shallow embedding with the conventions of \<open>Tabi_Prelude\<close>. State is passed
  explicitly: \<open>'x ctx\<close> is a context with its branch of the stores, where \<open>'x\<close> is the state of the modules
  outside the repository. Code outside the repository (go-ethereum, the Cosmos SDK, the receipt
  database, protobuf's \<open>Int\<close>) is a record of functions; what the code relies on is a predicate over it, such as
  \<open>hex_laws\<close>, \<open>eth_laws\<close>, \<open>dec_laws\<close> or \<open>supply_laws\<close>, with a concrete record that satisfies it. Panics of Go are
  values of \<open>'a go\<close>, errors are values of a sum or an option.

  \<^bold>\<open>Theories, from the bottom.\<close>
  \<^item> \<open>Tabi_Prelude\<close>, \<open>Tabi_KV\<close>, \<open>Tabi_Lib\<close>: Go types, panics and byte codecs; the key-value store (locale
    \<open>kv_store\<close>) with prefix iterators; the library functions.
  \<^item> \<open>EthTx_Data\<close>, \<open>EthTx_Types\<close>, \<open>EthTx_Iface\<close>, \<open>EthTx_Props\<close>: \<open>x/evm/types/ethtx\<close>. The four kinds of
    transaction, their validation and fees, and the interface \<open>TxData\<close> (locale \<open>fee_data\<close>). Shown: what is
    charged never exceeds what was offered, exactly which transactions are accepted and which panic, that the way in and back
    loses nothing, and the chain ID that a legacy signature gives.
  \<^item> \<open>Pb_Codec\<close>, \<open>Pb_Receipt\<close>, \<open>Pb_Types\<close>, \<open>Pb_EthTx\<close>, \<open>Evm_Codec\<close>: the generated protobuf code, one definition per case of a
    decoder, and \<open>UnpackTxData\<close>. Shown: round trips with exact sizes (locale \<open>pb_message\<close>), which transactions
    are recognised from their bytes, and that blob transactions are not.
  \<^item> \<open>Utils_Slice\<close>, \<open>Utils_Collections\<close>, \<open>Utils_Priority\<close>, \<open>Helpers_Address\<close>: \<open>utils\<close>. The nested map
    refines a flat map; ordered slices do not depend on the order of a range; which transactions take priority.
  \<^item> \<open>Evm_Keys\<close>, \<open>Evm_Ctx\<close>, \<open>Evm_Config\<close>, \<open>Evm_Params\<close>: keys of the stores, contexts and keepers, chain configuration, parameters.
  \<^item> \<open>Keeper_Account\<close>: associations, nonces, code, storage and balances. Shown: the association is a bijection, round trips, and
    who may receive funds.
  \<^item> \<open>Keeper_Pointer\<close>, \<open>Pointer_Props\<close>: the pointer registry (locale \<open>pointer_kind\<close>, seven kinds). Shown:
    both directions of a lookup in a registry without newer versions or longer names of tokens, no pointer to a pointer, and a collision of keys.
  \<^item> \<open>StateDB\<close>, \<open>StateDB_Props\<close>, \<open>StateDB_Temp\<close>, \<open>StateDB_Deleted\<close>, \<open>StateDB_Types\<close>: \<open>x/evm/state\<close> as a state machine
    over the operations of the EVM. Shown for every sequence of operations: supply is conserved, a revert undoes, \<open>Finalize\<close> commits
    and clears deleted accounts, logs are numbered, access lists refine sets, and values keep the lengths that their decoders need.
  \<^item> \<open>Keeper_Nonce\<close>: the pool of pending nonces refines a map, and the search for the next nonce ends at the first gap.
  \<^item> \<open>Evm_Log\<close>, \<open>Keeper_Receipt\<close>, \<open>Receipt_Props\<close>: logs, bloom filters and receipts. Shown: the cumulative gas of
    every flushed receipt, the logs a query rebuilds, the bits of the filter of a block.
  \<^item> \<open>Keeper_Fee\<close>: the base fee and its bounds, for parameters whose minimum is not above the maximum and whose gas target is positive, which
    \<open>Params.Validate\<close> does not check.
  \<^item> \<open>Evm_Msg\<close>, \<open>Keeper_Deferred\<close>, \<open>Evm_Server\<close>, \<open>Evm_Module\<close>, \<open>Evm_Transient\<close>: messages, deferred infos, the
    message server with the calls between the two virtual machines, the begin and the end of a block, and the
    fact that the state database never touches the transient store.
  \<^item> \<open>Helpers_Associate\<close>, \<open>Evm_Ante\<close>, \<open>Ante_Example\<close>, \<open>Ante_Props\<close>: \<open>utils/helpers/associate.go\<close>, \<open>x/evm/ante\<close> and the chain that
    \<open>app/ante.go\<close> builds from it, with a worked example. Shown: what an accepted transaction satisfies and pays, that its nonce is
    used whatever becomes of it, and when a pending transaction is let through.
  \<^item> \<open>Block_Props\<close>: a block as a sequence of ante checks, deliveries and callbacks, closed by \<open>EndBlock\<close>. Shown: the supply at the end
    is that at the start.
  \<^item> \<open>App_Tx\<close>, \<open>App_Block\<close>: \<open>app/antedecorators\<close>, \<open>checkTotalBlockGas\<close> and \<open>ProcessBlock\<close> of \<open>app/app.go\<close>. Shown: the 64-bit sums of gas
    decide as unbounded ones for limits that are not negative, and a block runs in the order of a reference definition.
  \<^item> \<open>App_Optimistic\<close>: the handlers of proposals and decided blocks with the background job as an inductive step relation. Shown: the
    background job cannot be observed, and no decided block waits for ever.
  \<^item> \<open>App_Invariance\<close>: \<open>app/invariance.go\<close>; the check of the changed pairs is the check of the whole store.
  \<^item> \<open>App_Receipt\<close>: \<open>app/receipt.go\<close> on the gas meter of the hook, with the costs of the accesses as a parameter. Shown: with enough gas
    receipts are extended in order, their bloom filters are those of their logs and no surplus is lost; without, no part of the logs is stored.
  \<^item> \<open>Go_Heap\<close>, \<open>Rpc_Bloom\<close>, \<open>Rpc_Merge\<close>: \<open>container/heap\<close> of Go (locale \<open>heap_order\<close>), \<open>evmrpc/bloom.go\<close> and the merge of
    \<open>evmrpc/filter.go\<close>. Shown: a criterion is tested on exactly the bits of its values, the filters of receipts and blocks have those of
    their logs, and the merge gives all logs in order.

  \<^bold>\<open>Bounds and fuel.\<close> No model uses fuel. The loop that searches the next nonce is a partial function, and
  its termination is a property (fewer than \<open>2 ^ 64\<close> pending transactions). The nesting of \<open>MsgExec\<close> is bounded by the constant of
  the source. Sizes of encodings are bounded by \<open>2 ^ 63\<close>, the length of a slice in Go.

  \<^bold>\<open>Not modelled.\<close> The EVM itself (a parameter), the gas meter of a transaction (of the meters of the SDK only that of the hook of
  \<open>app/receipt.go\<close>), metrics, tracing hooks, log lines
  below the error level, the replay of Ethereum blocks and block tests (modes of development). Of the ante handlers
  the generators of dependencies (\<open>AnteDeps\<close>); of \<open>app/app.go\<close> the construction of the application, its services and the
  execution by a dependency graph, which nothing calls any more. Genesis, migrations and the upgrade of pointer
  bytecode, the precompiles and their frozen earlier versions, the JSON-RPC server, access control tables, wasm bindings and
  command line tools: most of their code passes values between libraries outside the repository. Locks make the operations of the pool, of
  the concurrent maps and of the optimistic processing atomic; interleavings inside an operation are not modelled.
\<close>

end
